(* ===== verification/GoPrelude.thy ===== *)
theory GoPrelude
  imports Main "HOL-Library.AList"
begin

text \<open>
  Shared vocabulary of the development: the pieces of the Go language and of its standard
  library that the sources under \<open>src/\<close> use, and the generic lemmas the components share.

  \<^item> A Go \<open>string\<close> is a list of bytes, here \<open>string\<close> (an Isabelle \<open>char\<close> is one byte).
  \<^item> \<open>time.Time\<close> and \<open>time.Duration\<close> are integers counting nanoseconds; \<open>wrap64\<close> is the
    two's complement wrap-around of \<open>int64\<close>, written out wherever a product can overflow.
  \<^item> A Go map is an association list; its order stands for the iteration order, which Go
    leaves unspecified. Theorems quantify over the list, hence over every order.
  \<^item> \<open>(T, error)\<close> results are sums \<open>'e + 'a\<close>, the error on the left.
\<close>

section \<open>Lemma collections\<close>

named_theorems go_defs \<open>definitions of the constants that stand for Go string constants\<close>
named_theorems gate_defs \<open>the definitions of the authorisation gates\<close>
named_theorems inv_intros \<open>preservation lemmas of the component invariants\<close>

section \<open>Integers and time\<close>

type_synonym time = int
type_synonym duration = int

definition wrap64 :: "int \<Rightarrow> int" where
  "wrap64 x = (x + 2 ^ 63) mod 2 ^ 64 - 2 ^ 63"

definition second_ns :: int where
  "second_ns = 1000000000"

definition minute_ns :: int where
  "minute_ns = 60 * second_ns"

text \<open>\<open>time.Duration(n) * time.Second\<close> for an \<open>int\<close> \<open>n\<close>.\<close>

definition seconds :: "int \<Rightarrow> duration" where
  "seconds n = wrap64 (n * second_ns)"

text \<open>Go's integer division truncates towards zero; \<open>d / time.Second\<close> uses it.\<close>

definition quot :: "int \<Rightarrow> int \<Rightarrow> int" where
  "quot a b = sgn a * sgn b * (\<bar>a\<bar> div \<bar>b\<bar>)"

section \<open>Strings\<close>

definition byte :: "char \<Rightarrow> nat" where
  "byte c = of_char c"

definition HasPrefix :: "string \<Rightarrow> string \<Rightarrow> bool" where
  "HasPrefix s p \<longleftrightarrow> take (length p) s = p"

definition ContainsAny :: "string \<Rightarrow> string \<Rightarrow> bool" where
  "ContainsAny s cs \<longleftrightarrow> list_ex (\<lambda>c. c \<in> set cs) s"

text \<open>\<open>strings.ReplaceAll(s, old, new)\<close> for a one-byte \<open>old\<close>.\<close>

definition ReplaceAll1 :: "string \<Rightarrow> char \<Rightarrow> string \<Rightarrow> string" where
  "ReplaceAll1 s old new = concat (map (\<lambda>c. if c = old then new else [c]) s)"

fun Join :: "string list \<Rightarrow> string \<Rightarrow> string" where
  "Join [] sep = []"
| "Join [x] sep = x"
| "Join (x # xs) sep = x @ sep @ Join xs sep"

text \<open>\<open>strings.Split(s, sep)\<close> for a one-byte separator.\<close>

fun Split1 :: "char \<Rightarrow> string \<Rightarrow> string list" where
  "Split1 sep [] = [[]]"
| "Split1 sep (c # cs) =
     (if c = sep then [] # Split1 sep cs
      else case Split1 sep cs of [] \<Rightarrow> [[c]] | w # ws \<Rightarrow> (c # w) # ws)"

text \<open>
  \<open>unicode.IsSpace\<close> on UTF-8 bytes: \<open>space_len bs\<close> is the number of bytes of the white-space
  rune at the head of \<open>bs\<close>, 0 if there is none. The two- and three-byte cases are the
  encodings of U+0085, U+00A0, U+1680, U+2000 to U+200A, U+2028, U+2029, U+202F, U+205F and
  U+3000. Their first bytes never occur inside another rune, so a scan may advance byte by
  byte where Go advances rune by rune.
\<close>

fun space_len :: "nat list \<Rightarrow> nat" where
  "space_len [] = 0"
| "space_len (a # bs) =
     (if a \<in> {9, 10, 11, 12, 13, 32} then 1
      else case bs of
        [] \<Rightarrow> 0
      | b # cs \<Rightarrow>
          if a = 194 \<and> b \<in> {133, 160} then 2
          else case cs of
            [] \<Rightarrow> 0
          | c # _ \<Rightarrow>
              if (a = 225 \<and> b = 154 \<and> c = 128) \<or>
                 (a = 226 \<and> b = 128 \<and> (128 \<le> c \<and> c \<le> 138 \<or> c \<in> {168, 169, 175})) \<or>
                 (a = 226 \<and> b = 129 \<and> c = 159) \<or>
                 (a = 227 \<and> b = 128 \<and> c = 128)
              then 3 else 0)"

definition space_at :: "string \<Rightarrow> nat" where
  "space_at s = space_len (map byte s)"

lemma space_at_Nil [simp]: "space_at [] = 0"
  by (simp add: space_at_def)

function TrimLeftSpace :: "string \<Rightarrow> string" where
  "TrimLeftSpace s =
     (if s \<noteq> [] \<and> space_at s > 0 then TrimLeftSpace (drop (space_at s) s) else s)"
  by pat_completeness auto
termination
  by (relation "measure length") auto

declare TrimLeftSpace.simps [simp del]

text \<open>
  \<open>strings.TrimSpace(s) == ""\<close>: trimming both ends leaves nothing exactly when every rune is
  white space, that is when trimming the left end leaves nothing.
\<close>

definition TrimSpaceEmpty :: "string \<Rightarrow> bool" where
  "TrimSpaceEmpty s \<longleftrightarrow> TrimLeftSpace s = []"

text \<open>The bytes up to the first white-space rune.\<close>

fun take_token :: "string \<Rightarrow> string" where
  "take_token [] = []"
| "take_token (c # cs) = (if space_at (c # cs) > 0 then [] else c # take_token cs)"

text \<open>\<open>%d\<close> and \<open>strconv.Itoa\<close>.\<close>

fun nat_digits :: "nat \<Rightarrow> string" where
  "nat_digits n =
     (if n < 10 then [char_of (48 + n)] else nat_digits (n div 10) @ [char_of (48 + n mod 10)])"

declare nat_digits.simps [simp del]

definition Itoa :: "int \<Rightarrow> string" where
  "Itoa i = (if i < 0 then CHR ''-'' # nat_digits (nat (- i)) else nat_digits (nat i))"

section \<open>Maps and sets\<close>

type_synonym ('k, 'v) gomap = "('k \<times> 'v) list"

abbreviation get :: "('k, 'v) gomap \<Rightarrow> 'k \<Rightarrow> 'v option" where
  "get m k \<equiv> map_of m k"

abbreviation put :: "'k \<Rightarrow> 'v \<Rightarrow> ('k, 'v) gomap \<Rightarrow> ('k, 'v) gomap" where
  "put k v m \<equiv> AList.update k v m"

abbreviation del :: "'k \<Rightarrow> ('k, 'v) gomap \<Rightarrow> ('k, 'v) gomap" where
  "del k m \<equiv> AList.delete k m"

text \<open>A Go map holds one value per key.\<close>

definition map_ok :: "('k, 'v) gomap \<Rightarrow> bool" where
  "map_ok m \<longleftrightarrow> distinct (map fst m)"

section \<open>Lemmas on bytes and integers\<close>

lemma byte_char_of: "n < 256 \<Longrightarrow> byte (char_of n) = n"
  by (simp add: byte_def)

lemma wrap64_range: "- (2 ^ 63) \<le> wrap64 x \<and> wrap64 x < 2 ^ 63"
proof -
  have "0 \<le> (x + 2 ^ 63) mod 2 ^ 64" and "(x + 2 ^ 63) mod 2 ^ 64 < 2 ^ 64"
    by simp_all
  then show ?thesis by (simp add: wrap64_def)
qed

lemma wrap64_id: "- (2 ^ 63) \<le> x \<Longrightarrow> x < 2 ^ 63 \<Longrightarrow> wrap64 x = x"
  by (simp add: wrap64_def)

lemma seconds_small: "\<bar>n\<bar> \<le> 9000000000 \<Longrightarrow> seconds n = n * second_ns"
  unfolding seconds_def second_ns_def by (rule wrap64_id) auto

section \<open>Lemmas on strings\<close>

lemma HasPrefix_append [simp]: "HasPrefix (p @ s) p"
  by (simp add: HasPrefix_def)

lemma HasPrefix_iff: "HasPrefix s p \<longleftrightarrow> (\<exists>t. s = p @ t)"
  unfolding HasPrefix_def by (metis append_eq_conv_conj append_take_drop_id)

lemma Split1_nonempty [simp]: "Split1 c s \<noteq> []"
  by (induction s) (auto split: list.splits)

lemma Split1_nosep: "sep \<notin> set s \<Longrightarrow> Split1 sep s = [s]"
  by (induction s) auto

lemma Split1_append: "sep \<notin> set a \<Longrightarrow> Split1 sep (a @ sep # b) = a # Split1 sep b"
  by (induction a) auto

lemma nat_digits_no: "c \<in> set (nat_digits n) \<Longrightarrow> 48 \<le> byte c \<and> byte c \<le> 57"
proof (induction n rule: nat_digits.induct)
  case (1 n)
  have [simp]: "byte (char_of (48 + k)) = 48 + k" if "k < 10" for k :: nat
    using that by (simp add: byte_def)
  show ?case
  proof (cases "n < 10")
    case True
    with 1 show ?thesis by (auto simp: nat_digits.simps [of n])
  next
    case False
    with 1 show ?thesis by (auto simp: nat_digits.simps [of n])
  qed
qed

lemma Itoa_no_space: "CHR '' '' \<notin> set (Itoa i)"
proof
  assume "CHR '' '' \<in> set (Itoa i)"
  then obtain n where "CHR '' '' \<in> set (nat_digits n)"
    by (auto simp: Itoa_def split: if_splits)
  then have "48 \<le> byte (CHR '' '')" by (simp add: nat_digits_no)
  then show False by (simp add: byte_def)
qed

lemma TrimLeftSpace_Nil [simp]: "TrimLeftSpace [] = []"
  by (simp add: TrimLeftSpace.simps)

lemma TrimSpaceEmpty_Nil [simp]: "TrimSpaceEmpty []"
  by (simp add: TrimSpaceEmpty_def)

section \<open>Lemmas on maps\<close>

lemma map_ok_Nil [simp, inv_intros]: "map_ok []"
  by (simp add: map_ok_def)

lemma map_ok_put [simp, inv_intros]: "map_ok m \<Longrightarrow> map_ok (put k v m)"
  by (simp add: map_ok_def distinct_update)

lemma map_ok_del [simp, inv_intros]: "map_ok m \<Longrightarrow> map_ok (del k m)"
  by (simp add: map_ok_def distinct_delete)

lemma map_ok_filter [simp, inv_intros]: "map_ok m \<Longrightarrow> map_ok (filter P m)"
  by (induction m) (auto simp: map_ok_def)

lemma map_ok_map_vals [simp, inv_intros]:
  "map_ok m \<Longrightarrow> map_ok (map (\<lambda>(k, v). (k, f k v)) m)"
  by (simp add: map_ok_def comp_def case_prod_unfold)

lemma get_put [simp]: "get (put k v m) k' = (if k' = k then Some v else get m k')"
  by (simp add: update_conv)

lemma get_del [simp]: "get (del k m) k' = (if k' = k then None else get m k')"
  by (simp add: delete_conv)

lemma get_in_set: "get m k = Some v \<Longrightarrow> (k, v) \<in> set m"
  by (rule map_of_SomeD)

lemma get_key: "get m k = Some v \<Longrightarrow> k \<in> fst ` set m"
  by (metis get_in_set fst_conv imageI)

lemma in_set_get: "map_ok m \<Longrightarrow> (k, v) \<in> set m \<Longrightarrow> get m k = Some v"
  by (simp add: map_ok_def)

lemma get_filter:
  assumes "map_ok m"
  shows "get (filter P m) k = (case get m k of None \<Rightarrow> None | Some v \<Rightarrow> if P (k, v) then Some v else None)"
  using assms
proof (induction m)
  case Nil
  then show ?case by simp
next
  case (Cons p m)
  obtain a b where p: "p = (a, b)" by (cases p)
  with Cons.prems have ok: "map_ok m" and a: "get m a = None"
    by (auto simp: map_ok_def map_of_eq_None_iff)
  show ?case
    using Cons.IH [OF ok] a p by (auto split: option.splits)
qed

lemma get_map_vals: "get (map (\<lambda>(k, v). (k, f k v)) m) k = map_option (f k) (get m k)"
  by (induction m) auto

lemma length_put_le: "length (put k v m) \<le> Suc (length m)"
  by (induction m) auto

lemma length_put_mem: "k \<in> fst ` set m \<Longrightarrow> length (put k v m) = length m"
  by (induction m) auto

lemma set_put_subset: "set (put k v m) \<subseteq> insert (k, v) (set m)"
  by (induction m) auto

lemma set_del_subset: "set (del k m) \<subseteq> set m"
  by (induction m) auto

end
