(* ===== verification/Cmdpolicy.thy ===== *)
theory Cmdpolicy
  imports GoPrelude
begin

text \<open>
  The AI-action firewall: \<open>src/internal/signer/cmdpolicy.go\<close> (a single command policy, the
  shell decomposition, the regex cache) and \<open>src/internal/signer/policyset.go\<close> (the additive
  composition of policies and its decision procedure).

  Two things the code calls are arguments of the model. The regular-expression engine is a
  function \<open>regex_engine\<close>: \<open>None\<close> is a compile error, \<open>Some m\<close> a compiled expression with its
  \<open>MatchString\<close>. The shell parser and printer (package \<open>mvdan.cc/sh\<close>) give a syntax tree and
  the text of a node; the walk over the tree is the code's own and is modelled.
\<close>

section \<open>Regular expressions and their cache\<close>

type_synonym regex_engine = "string \<Rightarrow> (string \<Rightarrow> bool) option"

type_synonym regex_cache = "(string, (string \<Rightarrow> bool) option) gomap"

definition cachedRegex ::
    "regex_engine \<Rightarrow> regex_cache \<Rightarrow> string \<Rightarrow> (string \<Rightarrow> bool) option \<times> regex_cache" where
  "cachedRegex re cache pattern =
     (case get cache pattern of
        Some v \<Rightarrow> (v, cache)
      | None \<Rightarrow>
          (case re pattern of
             None \<Rightarrow> (None, put pattern None cache)
           | Some m \<Rightarrow> (Some m, put pattern (Some m) cache)))"

section \<open>A single command policy\<close>

abbreviation CmdPolicyOff :: string where "CmdPolicyOff \<equiv> ''off''"
abbreviation CmdPolicyAllowlist :: string where "CmdPolicyAllowlist \<equiv> ''allowlist''"
abbreviation CmdPolicyDenylist :: string where "CmdPolicyDenylist \<equiv> ''denylist''"
abbreviation CmdPolicyEnforce :: string where "CmdPolicyEnforce \<equiv> ''enforce''"
abbreviation CmdPolicyAudit :: string where "CmdPolicyAudit \<equiv> ''audit''"

record CommandPolicy =
  cp_Mode :: string
  cp_Enforcement :: string
  cp_Allow :: "string list"
  cp_Deny :: "string list"
  cp_RequireApproval :: "string list"
  cp_ShellParse :: bool

text \<open>The zero value of the struct.\<close>

definition zero_policy :: CommandPolicy where
  "zero_policy = \<lparr>cp_Mode = '''', cp_Enforcement = '''', cp_Allow = [], cp_Deny = [],
     cp_RequireApproval = [], cp_ShellParse = False\<rparr>"

definition cp_Active :: "CommandPolicy \<Rightarrow> bool" where
  "cp_Active cp \<longleftrightarrow> cp_Mode cp = CmdPolicyAllowlist \<or> cp_Mode cp = CmdPolicyDenylist"

definition cp_Restricts :: "CommandPolicy \<Rightarrow> bool" where
  "cp_Restricts cp \<longleftrightarrow> cp_Active cp \<or> length (cp_RequireApproval cp) > 0"

datatype policy_error =
    InvalidRegex string
  | UnknownMode string
  | UnknownEnforcement string

fun first_invalid :: "regex_engine \<Rightarrow> string list \<Rightarrow> string option" where
  "first_invalid re [] = None"
| "first_invalid re (pat # pats) =
     (if re pat = None then Some pat else first_invalid re pats)"

definition cp_Validate :: "regex_engine \<Rightarrow> CommandPolicy \<Rightarrow> policy_error option" where
  "cp_Validate re cp =
     (case first_invalid re (cp_Allow cp @ cp_Deny cp @ cp_RequireApproval cp) of
        Some pat \<Rightarrow> Some (InvalidRegex pat)
      | None \<Rightarrow>
          if cp_Mode cp \<notin> {'''', CmdPolicyOff, CmdPolicyAllowlist, CmdPolicyDenylist}
          then Some (UnknownMode (cp_Mode cp))
          else if cp_Enforcement cp \<notin> {'''', CmdPolicyEnforce, CmdPolicyAudit}
          then Some (UnknownEnforcement (cp_Enforcement cp))
          else None)"

section \<open>Shell decomposition\<close>

datatype redir_op = DplIn | DplOut | OtherOp string

datatype sh_kind =
    CmdSubst
  | ProcSubst
  | ArithmCmd
  | Redirect redir_op string
  | CallExpr nat
  | OtherNode string

datatype sh_node = Node (kind: sh_kind) (children: "sh_node list")

datatype sh_error =
    ShellParse string
  | CommandSubstitution
  | ProcessSubstitution
  | ArithmeticCommand
  | FileRedirect redir_op
  | PrinterError string
  | NoCommands

record sh_parser =
  sh_Parse :: "string \<Rightarrow> string + sh_node"
  sh_Print :: "sh_node \<Rightarrow> string + string"
  sh_OpText :: "redir_op \<Rightarrow> string"

definition sh_error_text :: "sh_parser \<Rightarrow> sh_error \<Rightarrow> string" where
  "sh_error_text sh e =
     (case e of
        ShellParse msg \<Rightarrow> ''shell parse: '' @ msg
      | CommandSubstitution \<Rightarrow> ''command substitution not allowed''
      | ProcessSubstitution \<Rightarrow> ''process substitution not allowed''
      | ArithmeticCommand \<Rightarrow> ''arithmetic command not allowed''
      | FileRedirect op \<Rightarrow> ''file redirect not allowed: '' @ sh_OpText sh op
      | PrinterError msg \<Rightarrow> ''printer: '' @ msg
      | NoCommands \<Rightarrow> ''no commands found after shell parse'')"

text \<open>
  The visitor passed to \<open>syntax.Walk\<close>: its result says whether to descend; the collected
  commands and \<open>walkErr\<close> are the captured variables.
\<close>

type_synonym walk_state = "string list \<times> sh_error option"

definition visit :: "sh_parser \<Rightarrow> sh_node \<Rightarrow> walk_state \<Rightarrow> bool \<times> walk_state" where
  "visit sh n st =
     (let (cmds, walkErr) = st in
      if walkErr \<noteq> None then (False, st)
      else case kind n of
        CmdSubst \<Rightarrow> (False, cmds, Some CommandSubstitution)
      | ProcSubst \<Rightarrow> (False, cmds, Some ProcessSubstitution)
      | ArithmCmd \<Rightarrow> (False, cmds, Some ArithmeticCommand)
      | Redirect op word \<Rightarrow>
          if op = DplOut \<or> op = DplIn then (True, st)
          else (False, cmds, Some (FileRedirect op))
      | CallExpr nargs \<Rightarrow>
          if nargs = 0 then (True, st)
          else (case sh_Print sh n of
                  Inl msg \<Rightarrow> (False, cmds, Some (PrinterError msg))
                | Inr text \<Rightarrow> (True, cmds @ [text], None))
      | OtherNode _ \<Rightarrow> (True, st))"

fun Walk :: "sh_parser \<Rightarrow> sh_node \<Rightarrow> walk_state \<Rightarrow> walk_state"
and Walk_list :: "sh_parser \<Rightarrow> sh_node list \<Rightarrow> walk_state \<Rightarrow> walk_state" where
  "Walk sh (Node k ns) st =
     (case visit sh (Node k ns) st of
        (descend, st') \<Rightarrow> if descend then Walk_list sh ns st' else st')"
| "Walk_list sh [] st = st"
| "Walk_list sh (n # ns) st = Walk_list sh ns (Walk sh n st)"

definition extractCommands :: "sh_parser \<Rightarrow> string \<Rightarrow> sh_error + string list" where
  "extractCommands sh command =
     (case sh_Parse sh command of
        Inl msg \<Rightarrow> Inl (ShellParse msg)
      | Inr f \<Rightarrow>
          (case Walk sh f ([], None) of
             (cmds, Some e) \<Rightarrow> Inl e
           | (cmds, None) \<Rightarrow> if cmds = [] then Inl NoCommands else Inr cmds))"

section \<open>Policy sets\<close>

type_synonym PolicySet = "CommandPolicy list"

definition ps_Active :: "PolicySet \<Rightarrow> bool" where
  "ps_Active ps \<longleftrightarrow> list_ex cp_Active ps"

definition ps_Restricts :: "PolicySet \<Rightarrow> bool" where
  "ps_Restricts ps \<longleftrightarrow> list_ex cp_Restricts ps"

fun enforcement_loop :: "bool \<Rightarrow> PolicySet \<Rightarrow> string" where
  "enforcement_loop auditOnly [] = (if auditOnly then CmdPolicyAudit else CmdPolicyEnforce)"
| "enforcement_loop auditOnly (p # ps) =
     (if \<not> cp_Restricts p then enforcement_loop auditOnly ps
      else if cp_Enforcement p = CmdPolicyAudit then enforcement_loop True ps
      else CmdPolicyEnforce)"

definition ps_Enforcement :: "PolicySet \<Rightarrow> string" where
  "ps_Enforcement ps = enforcement_loop False ps"

definition hasAllowlist :: "PolicySet \<Rightarrow> bool" where
  "hasAllowlist ps \<longleftrightarrow> list_ex (\<lambda>p. cp_Mode p = CmdPolicyAllowlist) ps"

fun ps_Validate :: "regex_engine \<Rightarrow> PolicySet \<Rightarrow> policy_error option" where
  "ps_Validate re [] = None"
| "ps_Validate re (p # ps) =
     (case cp_Validate re p of Some e \<Rightarrow> Some e | None \<Rightarrow> ps_Validate re ps)"

definition shellParse :: "PolicySet \<Rightarrow> bool" where
  "shellParse ps \<longleftrightarrow> list_ex cp_ShellParse ps"

text \<open>
  The three rule loops of \<open>decideOne\<close> have one shape: over the members that \<open>sel\<close> selects and
  over the patterns \<open>pats\<close> of each, stop at a pattern that does not compile or that matches.
\<close>

datatype scan_result = NoMatch | Matched string | BadRegex string

fun scan :: "regex_engine \<Rightarrow> string \<Rightarrow> string list \<Rightarrow> scan_result" where
  "scan re command [] = NoMatch"
| "scan re command (pat # pats) =
     (case re pat of
        None \<Rightarrow> BadRegex pat
      | Some m \<Rightarrow> if m command then Matched pat else scan re command pats)"

fun scan_set ::
    "regex_engine \<Rightarrow> (CommandPolicy \<Rightarrow> bool) \<Rightarrow> (CommandPolicy \<Rightarrow> string list) \<Rightarrow> string \<Rightarrow>
     PolicySet \<Rightarrow> scan_result" where
  "scan_set re sel pats command [] = NoMatch"
| "scan_set re sel pats command (p # ps) =
     (if \<not> sel p then scan_set re sel pats command ps
      else case scan re command (pats p) of
        NoMatch \<Rightarrow> scan_set re sel pats command ps
      | r \<Rightarrow> r)"

datatype decide_error =
    InvalidDenyRegex string
  | InvalidApprovalRegex string
  | InvalidAllowRegex string
  | ShellError sh_error

text \<open>\<open>(allowed, needsApproval, rule, err)\<close>.\<close>

type_synonym decide_result = "bool \<times> bool \<times> string \<times> decide_error option"

definition decideOne :: "regex_engine \<Rightarrow> PolicySet \<Rightarrow> string \<Rightarrow> decide_result" where
  "decideOne re ps command =
     (case scan_set re (\<lambda>p. cp_Mode p = CmdPolicyDenylist) cp_Deny command ps of
        BadRegex pat \<Rightarrow> (False, False, '''', Some (InvalidDenyRegex pat))
      | Matched pat \<Rightarrow> (False, False, ''deny:'' @ pat, None)
      | NoMatch \<Rightarrow>
     (case scan_set re (\<lambda>p. True) cp_RequireApproval command ps of
        BadRegex pat \<Rightarrow> (False, False, '''', Some (InvalidApprovalRegex pat))
      | approval \<Rightarrow>
     (let (needsApproval, rule) =
            (case approval of Matched pat \<Rightarrow> (True, ''require_approval:'' @ pat)
                            | _ \<Rightarrow> (False, ''''))
      in case scan_set re (\<lambda>p. cp_Mode p = CmdPolicyAllowlist) cp_Allow command ps of
        BadRegex pat \<Rightarrow> (False, False, '''', Some (InvalidAllowRegex pat))
      | Matched pat \<Rightarrow> (True, needsApproval, if rule = '''' then ''allow:'' @ pat else rule, None)
      | NoMatch \<Rightarrow>
          if \<not> hasAllowlist ps then (True, needsApproval, rule, None)
          else (False, needsApproval, ''allowlist:no-match'', None))))"

fun decide_loop ::
    "regex_engine \<Rightarrow> PolicySet \<Rightarrow> bool \<Rightarrow> string \<Rightarrow> string list \<Rightarrow> decide_result" where
  "decide_loop re ps needsApproval rule [] = (True, needsApproval, rule, None)"
| "decide_loop re ps needsApproval rule (cmd # cmds) =
     (case decideOne re ps cmd of
        (a, n, r, cerr) \<Rightarrow>
          if cerr \<noteq> None \<or> \<not> a then (a, n, r, cerr)
          else if n \<and> \<not> needsApproval then decide_loop re ps True r cmds
          else if \<not> needsApproval then decide_loop re ps needsApproval r cmds
          else decide_loop re ps needsApproval rule cmds)"

definition Decide :: "regex_engine \<Rightarrow> sh_parser \<Rightarrow> PolicySet \<Rightarrow> string \<Rightarrow> decide_result" where
  "Decide re sh ps command =
     (if length ps = 0 then (True, False, '''', None)
      else if shellParse ps then
        (case extractCommands sh command of
           Inl e \<Rightarrow> (False, False, ''shell-parse:'' @ sh_error_text sh e, Some (ShellError e))
         | Inr cmds \<Rightarrow> decide_loop re ps False '''' cmds)
      else decide_loop re ps False '''' [command])"

section \<open>Specification predicates\<close>

text \<open>
  What the composition is documented to mean, independently of loops and of their order:
  deny wins, allow is the union of the allowlists (default-allow without one), approval is a
  union.
\<close>

definition matches :: "regex_engine \<Rightarrow> string \<Rightarrow> string \<Rightarrow> bool" where
  "matches re pat command = (case re pat of None \<Rightarrow> False | Some m \<Rightarrow> m command)"

definition spec_denied :: "regex_engine \<Rightarrow> PolicySet \<Rightarrow> string \<Rightarrow> bool" where
  "spec_denied re ps c \<longleftrightarrow>
     (\<exists>p\<in>set ps. cp_Mode p = CmdPolicyDenylist \<and> (\<exists>pat\<in>set (cp_Deny p). matches re pat c))"

definition spec_needs_approval :: "regex_engine \<Rightarrow> PolicySet \<Rightarrow> string \<Rightarrow> bool" where
  "spec_needs_approval re ps c \<longleftrightarrow>
     (\<exists>p\<in>set ps. \<exists>pat\<in>set (cp_RequireApproval p). matches re pat c)"

definition spec_allowlisted :: "regex_engine \<Rightarrow> PolicySet \<Rightarrow> string \<Rightarrow> bool" where
  "spec_allowlisted re ps c \<longleftrightarrow>
     (\<exists>p\<in>set ps. cp_Mode p = CmdPolicyAllowlist \<and> (\<exists>pat\<in>set (cp_Allow p). matches re pat c))"

definition spec_allowed :: "regex_engine \<Rightarrow> PolicySet \<Rightarrow> string \<Rightarrow> bool" where
  "spec_allowed re ps c \<longleftrightarrow>
     \<not> spec_denied re ps c \<and> (hasAllowlist ps \<longrightarrow> spec_allowlisted re ps c)"

lemmas spec_defs =
  spec_denied_def spec_needs_approval_def spec_allowlisted_def spec_allowed_def

text \<open>Every pattern of the set compiles.\<close>

definition compiles :: "regex_engine \<Rightarrow> PolicySet \<Rightarrow> bool" where
  "compiles re ps \<longleftrightarrow>
     (\<forall>p\<in>set ps. \<forall>pat\<in>set (cp_Allow p @ cp_Deny p @ cp_RequireApproval p). re pat \<noteq> None)"

section \<open>Validation and the regex cache\<close>

definition cache_ok :: "regex_engine \<Rightarrow> regex_cache \<Rightarrow> bool" where
  "cache_ok re cache \<longleftrightarrow> (\<forall>pat v. get cache pat = Some v \<longrightarrow> v = re pat)"

lemma cache_ok_Nil [simp]: "cache_ok re []"
  by (simp add: cache_ok_def)

lemma cachedRegex_transparent:
  "cache_ok re cache \<Longrightarrow>
     fst (cachedRegex re cache pat) = re pat \<and> cache_ok re (snd (cachedRegex re cache pat))"
  by (auto simp: cache_ok_def cachedRegex_def split: option.splits)

lemma first_invalid_None: "first_invalid re pats = None \<longleftrightarrow> (\<forall>pat\<in>set pats. re pat \<noteq> None)"
  by (induction pats) auto

lemma cp_Validate_patterns:
  "cp_Validate re cp = None \<Longrightarrow>
     pat \<in> set (cp_Allow cp @ cp_Deny cp @ cp_RequireApproval cp) \<Longrightarrow> re pat \<noteq> None"
  by (auto simp: cp_Validate_def first_invalid_None split: option.splits)

lemma ps_Validate_None: "ps_Validate re ps = None \<longleftrightarrow> (\<forall>p\<in>set ps. cp_Validate re p = None)"
  by (induction ps) (auto split: option.splits)

lemma ps_Validate_compiles: "ps_Validate re ps = None \<Longrightarrow> compiles re ps"
  unfolding ps_Validate_None compiles_def using cp_Validate_patterns by blast

section \<open>The rule loops\<close>

lemma scan_NoMatch:
  "scan re c pats = NoMatch \<longleftrightarrow> (\<forall>pat\<in>set pats. re pat \<noteq> None \<and> \<not> matches re pat c)"
  by (induction pats) (auto simp: matches_def split: option.splits)

lemma scan_Matched: "scan re c pats = Matched pat \<Longrightarrow> pat \<in> set pats \<and> matches re pat c"
  by (induction pats) (auto simp: matches_def split: option.splits if_splits)

lemma scan_BadRegex: "scan re c pats = BadRegex pat \<Longrightarrow> pat \<in> set pats \<and> re pat = None"
  by (induction pats) (auto split: option.splits if_splits)

lemma scan_set_NoMatch:
  "scan_set re sel pats c ps = NoMatch \<longleftrightarrow>
     (\<forall>p\<in>set ps. sel p \<longrightarrow> (\<forall>pat\<in>set (pats p). re pat \<noteq> None \<and> \<not> matches re pat c))"
proof (induction ps)
  case Nil
  then show ?case by simp
next
  case (Cons p ps)
  then show ?case
    using scan_NoMatch [of re c "pats p"] by (cases "scan re c (pats p)") auto
qed

lemma scan_set_Matched:
  "scan_set re sel pats c ps = Matched pat \<Longrightarrow>
     \<exists>p\<in>set ps. sel p \<and> pat \<in> set (pats p) \<and> matches re pat c"
  by (induction ps) (auto split: if_splits scan_result.splits dest: scan_Matched)

lemma scan_set_BadRegex:
  "scan_set re sel pats c ps = BadRegex pat \<Longrightarrow>
     \<exists>p\<in>set ps. sel p \<and> pat \<in> set (pats p) \<and> re pat = None"
  by (induction ps) (auto split: if_splits scan_result.splits dest: scan_BadRegex)

lemma scan_set_append:
  "scan_set re sel pats c (ps @ qs) =
     (case scan_set re sel pats c ps of NoMatch \<Rightarrow> scan_set re sel pats c qs | r \<Rightarrow> r)"
  by (induction ps) (auto split: scan_result.splits)

lemma scan_set_compiles:
  assumes "compiles re ps"
    and "\<And>p. set (pats p) \<subseteq> set (cp_Allow p @ cp_Deny p @ cp_RequireApproval p)"
  shows "scan_set re sel pats c ps \<noteq> BadRegex pat"
  using assms scan_set_BadRegex [of re sel pats c ps pat] unfolding compiles_def by blast

lemma scan_set_hit:
  assumes "compiles re ps"
    and "\<And>p. set (pats p) \<subseteq> set (cp_Allow p @ cp_Deny p @ cp_RequireApproval p)"
  shows "(\<exists>pat. scan_set re sel pats c ps = Matched pat) \<longleftrightarrow>
     (\<exists>p\<in>set ps. sel p \<and> (\<exists>pat\<in>set (pats p). matches re pat c))"
proof (cases "scan_set re sel pats c ps")
  case NoMatch
  then have "\<not> (\<exists>p\<in>set ps. sel p \<and> (\<exists>pat\<in>set (pats p). matches re pat c))"
    by (auto simp: scan_set_NoMatch)
  with NoMatch show ?thesis by simp
next
  case (Matched pat)
  then show ?thesis using scan_set_Matched by fastforce
next
  case (BadRegex pat)
  with scan_set_compiles [OF assms] show ?thesis by simp
qed

section \<open>The decision on one command\<close>

text \<open>With patterns that compile, the loops compute the specification.\<close>

lemma decideOne_refines:
  assumes "compiles re ps"
  shows "\<exists>rule. decideOne re ps c =
     (spec_allowed re ps c, spec_needs_approval re ps c \<and> \<not> spec_denied re ps c, rule, None)"
proof -
  note hit = scan_set_hit [OF assms] and bad = scan_set_compiles [OF assms]
  have deny: "(\<exists>pat. scan_set re (\<lambda>p. cp_Mode p = CmdPolicyDenylist) cp_Deny c ps = Matched pat) \<longleftrightarrow>
      spec_denied re ps c"
    by (subst hit) (auto simp: spec_defs)
  have appr: "(\<exists>pat. scan_set re (\<lambda>p. True) cp_RequireApproval c ps = Matched pat) \<longleftrightarrow>
      spec_needs_approval re ps c"
    by (subst hit) (auto simp: spec_defs)
  have allow: "(\<exists>pat. scan_set re (\<lambda>p. cp_Mode p = CmdPolicyAllowlist) cp_Allow c ps = Matched pat) \<longleftrightarrow>
      spec_allowlisted re ps c"
    by (subst hit) (auto simp: spec_defs)
  have noallow: "\<not> hasAllowlist ps \<Longrightarrow> \<not> spec_allowlisted re ps c"
    by (auto simp: hasAllowlist_def spec_defs list_ex_iff)
  have nb: "scan_set re (\<lambda>p. cp_Mode p = CmdPolicyDenylist) cp_Deny c ps \<noteq> BadRegex pat"
    "scan_set re (\<lambda>p. True) cp_RequireApproval c ps \<noteq> BadRegex pat"
    "scan_set re (\<lambda>p. cp_Mode p = CmdPolicyAllowlist) cp_Allow c ps \<noteq> BadRegex pat" for pat
    by (rule bad, force)+
  show ?thesis
    using deny appr allow noallow nb
    unfolding decideOne_def spec_allowed_def Let_def
    by (cases "scan_set re (\<lambda>p. cp_Mode p = CmdPolicyDenylist) cp_Deny c ps";
        cases "scan_set re (\<lambda>p. True) cp_RequireApproval c ps";
        cases "scan_set re (\<lambda>p. cp_Mode p = CmdPolicyAllowlist) cp_Allow c ps") auto
qed

text \<open>Without any assumption on the patterns, an allowing verdict is never wrong.\<close>

lemma decideOne_sound:
  assumes "decideOne re ps c = (True, n, r, e)"
  shows "spec_allowed re ps c \<and> n = spec_needs_approval re ps c \<and> e = None"
proof -
  let ?D = "scan_set re (\<lambda>p. cp_Mode p = CmdPolicyDenylist) cp_Deny c ps"
  let ?A = "scan_set re (\<lambda>p. True) cp_RequireApproval c ps"
  let ?L = "scan_set re (\<lambda>p. cp_Mode p = CmdPolicyAllowlist) cp_Allow c ps"
  from assms have D: "?D = NoMatch" and e: "e = None"
    by (auto simp: decideOne_def Let_def split: scan_result.splits if_splits)
  from assms D have n: "n \<longleftrightarrow> (\<exists>pat. ?A = Matched pat)" and A: "\<And>pat. ?A \<noteq> BadRegex pat"
    by (auto simp: decideOne_def Let_def split: scan_result.splits if_splits)
  from assms D have L: "(\<exists>pat. ?L = Matched pat) \<or> \<not> hasAllowlist ps"
    by (auto simp: decideOne_def Let_def split: scan_result.splits if_splits)
  have "\<not> spec_denied re ps c"
    using D by (auto simp: scan_set_NoMatch spec_defs)
  moreover have "n \<longleftrightarrow> spec_needs_approval re ps c"
  proof (cases ?A)
    case NoMatch
    with n show ?thesis by (simp add: scan_set_NoMatch spec_defs)
  next
    case (Matched pat)
    with n show ?thesis using scan_set_Matched [OF Matched] by (auto simp: spec_defs)
  next
    case (BadRegex pat)
    with A [of pat] show ?thesis by simp
  qed
  moreover have "hasAllowlist ps \<longrightarrow> spec_allowlisted re ps c"
    using L by (auto simp: spec_defs dest!: scan_set_Matched)
  ultimately show ?thesis using e by (simp add: spec_allowed_def)
qed

section \<open>The decision on a whole command line\<close>

text \<open>The simple commands the decision is taken on; an error when the line is rejected.\<close>

definition segments :: "sh_parser \<Rightarrow> PolicySet \<Rightarrow> string \<Rightarrow> sh_error + string list" where
  "segments sh ps command =
     (if shellParse ps then extractCommands sh command else Inr [command])"

lemma Decide_segments:
  "ps \<noteq> [] \<Longrightarrow> Decide re sh ps command =
     (case segments sh ps command of
        Inl e \<Rightarrow> (False, False, ''shell-parse:'' @ sh_error_text sh e, Some (ShellError e))
      | Inr cmds \<Rightarrow> decide_loop re ps False '''' cmds)"
  by (simp add: Decide_def segments_def)

lemma decide_loop_sound:
  "decide_loop re ps n0 r0 cmds = (True, n, r, e) \<Longrightarrow>
     (\<forall>c\<in>set cmds. spec_allowed re ps c) \<and>
     n = (n0 \<or> (\<exists>c\<in>set cmds. spec_needs_approval re ps c)) \<and> e = None"
proof (induction cmds arbitrary: n0 r0)
  case Nil
  then show ?case by simp
next
  case (Cons c cmds)
  obtain a n1 r1 e1 where d: "decideOne re ps c = (a, n1, r1, e1)"
    by (cases "decideOne re ps c")
  with Cons.prems have a: "a"
    by (auto split: if_splits)
  from decideOne_sound [of re ps c n1 r1 e1] d a
  have c: "spec_allowed re ps c" and n1: "n1 = spec_needs_approval re ps c" and e1: "e1 = None"
    by auto
  from Cons.prems d a e1 obtain n2 r2
    where rec: "decide_loop re ps n2 r2 cmds = (True, n, r, e)" and n2: "n2 = (n0 \<or> n1)"
    by (auto split: if_splits)
  from Cons.IH [OF rec] n2 n1 c show ?case by auto
qed

lemma decide_loop_refines:
  assumes "compiles re ps"
  shows "\<exists>n r. decide_loop re ps n0 r0 cmds = (\<forall>c\<in>set cmds. spec_allowed re ps c, n, r, None)"
proof (induction cmds arbitrary: n0 r0)
  case Nil
  then show ?case by simp
next
  case (Cons c cmds)
  obtain rule where d: "decideOne re ps c = (spec_allowed re ps c,
      spec_needs_approval re ps c \<and> \<not> spec_denied re ps c, rule, None)"
    using decideOne_refines [OF assms] by blast
  show ?case
  proof (cases "spec_allowed re ps c")
    case True
    obtain n1 r1 where step: "decide_loop re ps n0 r0 (c # cmds) = decide_loop re ps n1 r1 cmds"
      using d True by (cases "spec_needs_approval re ps c \<and> \<not> spec_denied re ps c"; cases n0) auto
    obtain n r where "decide_loop re ps n1 r1 cmds =
        (\<forall>c\<in>set cmds. spec_allowed re ps c, n, r, None)"
      using Cons.IH by blast
    with True step show ?thesis by simp
  next
    case False
    with d show ?thesis by simp
  qed
qed

lemma Decide_sound:
  assumes "Decide re sh ps command = (True, n, r, e)" and "ps \<noteq> []"
  shows "\<exists>cmds. segments sh ps command = Inr cmds \<and> (\<forall>c\<in>set cmds. spec_allowed re ps c) \<and>
     n = (\<exists>c\<in>set cmds. spec_needs_approval re ps c) \<and> e = None"
proof -
  from assms obtain cmds where "segments sh ps command = Inr cmds"
    and "decide_loop re ps False '''' cmds = (True, n, r, e)"
    by (auto simp: Decide_segments split: sum.splits)
  with decide_loop_sound [of re ps False "''''" cmds n r e] show ?thesis by auto
qed

lemma Decide_denies:
  assumes "segments sh ps command = Inr cmds" and "c \<in> set cmds" and "spec_denied re ps c"
  shows "\<not> fst (Decide re sh ps command)"
proof
  assume "fst (Decide re sh ps command)"
  then obtain n r e where d: "Decide re sh ps command = (True, n, r, e)"
    by (cases "Decide re sh ps command") auto
  from assms(3) have "ps \<noteq> []" by (auto simp: spec_defs)
  from Decide_sound [OF d this] assms(1,2) have "spec_allowed re ps c" by auto
  with assms(3) show False by (simp add: spec_allowed_def)
qed

lemma Decide_never_errors_when_compiled:
  assumes "compiles re ps" and "segments sh ps command = Inr cmds"
  shows "\<exists>n r. Decide re sh ps command = (\<forall>c\<in>set cmds. spec_allowed re ps c, n, r, None)"
proof (cases "ps = []")
  case True
  then show ?thesis
    by (auto simp: Decide_def spec_defs hasAllowlist_def)
next
  case False
  with assms(2) show ?thesis
    using decide_loop_refines [OF assms(1)] by (simp add: Decide_segments)
qed

section \<open>The shell walk\<close>

text \<open>
  Reference view of a tree: all its nodes in the order of the walk, the nodes the code refuses
  and the texts of the calls it evaluates.
\<close>

fun nodes :: "sh_node \<Rightarrow> sh_node list" and nodes_list :: "sh_node list \<Rightarrow> sh_node list" where
  "nodes (Node k ns) = Node k ns # nodes_list ns"
| "nodes_list [] = []"
| "nodes_list (n # ns) = nodes n @ nodes_list ns"

definition refused :: "sh_parser \<Rightarrow> sh_node \<Rightarrow> bool" where
  "refused sh n \<longleftrightarrow>
     (case kind n of
        CmdSubst \<Rightarrow> True | ProcSubst \<Rightarrow> True | ArithmCmd \<Rightarrow> True
      | Redirect op word \<Rightarrow> op \<noteq> DplOut \<and> op \<noteq> DplIn
      | CallExpr nargs \<Rightarrow> nargs > 0 \<and> (\<exists>msg. sh_Print sh n = Inl msg)
      | OtherNode _ \<Rightarrow> False)"

definition call_texts :: "sh_parser \<Rightarrow> sh_node list \<Rightarrow> string list" where
  "call_texts sh ns =
     concat (map (\<lambda>n. case kind n of
        CallExpr nargs \<Rightarrow>
          if nargs = 0 then []
          else (case sh_Print sh n of Inr text \<Rightarrow> [text] | Inl _ \<Rightarrow> [])
      | _ \<Rightarrow> []) ns)"

lemma call_texts_simps [simp]:
  "call_texts sh [] = []"
  "call_texts sh (ms @ ns) = call_texts sh ms @ call_texts sh ns"
  by (simp_all add: call_texts_def)

lemma visit_ok:
  "\<not> refused sh n \<Longrightarrow> visit sh n (cmds, None) = (True, cmds @ call_texts sh [n], None)"
  by (auto simp: visit_def refused_def call_texts_def
      split: sh_kind.splits sum.splits if_splits)

lemma visit_refused:
  "refused sh n \<Longrightarrow> \<exists>e. visit sh n (cmds, None) = (False, cmds, Some e)"
  by (auto simp: visit_def refused_def split: sh_kind.splits sum.splits if_splits)

lemma Walk_after_error:
  "Walk sh n (cmds, Some e) = (cmds, Some e)"
  "Walk_list sh ns (cmds, Some e) = (cmds, Some e)"
  by (induction n and ns rule: nodes_nodes_list.induct) (simp_all add: visit_def)

lemma Walk_ok:
  "\<forall>m\<in>set (nodes n). \<not> refused sh m \<Longrightarrow>
     Walk sh n (cmds, None) = (cmds @ call_texts sh (nodes n), None)"
  "\<forall>m\<in>set (nodes_list ns). \<not> refused sh m \<Longrightarrow>
     Walk_list sh ns (cmds, None) = (cmds @ call_texts sh (nodes_list ns), None)"
proof (induction n and ns arbitrary: cmds and cmds rule: nodes_nodes_list.induct)
  case (1 k ns)
  then have "\<not> refused sh (Node k ns)" by simp
  from visit_ok [OF this, of cmds] 1 show ?case
    using call_texts_simps(2) [of sh "[Node k ns]" "nodes_list ns"] by simp
qed simp_all

lemma Walk_refused:
  "\<exists>m\<in>set (nodes n). refused sh m \<Longrightarrow> \<exists>e. snd (Walk sh n (cmds, None)) = Some e"
  "\<exists>m\<in>set (nodes_list ns). refused sh m \<Longrightarrow> \<exists>e. snd (Walk_list sh ns (cmds, None)) = Some e"
proof (induction n and ns arbitrary: cmds and cmds rule: nodes_nodes_list.induct)
  case (1 k ns)
  show ?case
  proof (cases "refused sh (Node k ns)")
    case True
    from visit_refused [OF this, of cmds] show ?thesis by auto
  next
    case False
    with 1 visit_ok [OF False, of cmds] show ?thesis by simp
  qed
next
  case (3 n ns)
  show ?case
  proof (cases "\<exists>m\<in>set (nodes n). refused sh m")
    case True
    with 3 obtain e where "snd (Walk sh n (cmds, None)) = Some e" by blast
    then show ?thesis
      by (cases "Walk sh n (cmds, None)") (simp add: Walk_after_error)
  next
    case False
    with 3(3) have "\<exists>m\<in>set (nodes_list ns). refused sh m" by auto
    with 3(2) [OF this] False show ?thesis by (simp add: Walk_ok)
  qed
qed simp

section \<open>Enforcement\<close>

lemma enforcement_loop_iff:
  "enforcement_loop b ps = CmdPolicyAudit \<longleftrightarrow>
     (b \<or> ps_Restricts ps) \<and> (\<forall>p\<in>set ps. cp_Restricts p \<longrightarrow> cp_Enforcement p = CmdPolicyAudit)"
  by (induction ps arbitrary: b) (auto simp: ps_Restricts_def)

lemma enforcement_loop_range: "enforcement_loop b ps \<in> {CmdPolicyAudit, CmdPolicyEnforce}"
  by (induction ps arbitrary: b) auto

lemma ps_Enforcement_audit_iff:
  "ps_Enforcement ps = CmdPolicyAudit \<longleftrightarrow>
     ps_Restricts ps \<and> (\<forall>p\<in>set ps. cp_Restricts p \<longrightarrow> cp_Enforcement p = CmdPolicyAudit)"
  by (simp add: ps_Enforcement_def enforcement_loop_iff)

lemma ps_Enforcement_cases: "ps_Enforcement ps = CmdPolicyAudit \<or> ps_Enforcement ps = CmdPolicyEnforce"
  using enforcement_loop_range [of False ps] by (simp add: ps_Enforcement_def)

lemma ps_Restricts_append [simp]: "ps_Restricts (ps @ qs) \<longleftrightarrow> ps_Restricts ps \<or> ps_Restricts qs"
  by (simp add: ps_Restricts_def)

lemma hasAllowlist_append [simp]: "hasAllowlist (ps @ qs) \<longleftrightarrow> hasAllowlist ps \<or> hasAllowlist qs"
  by (simp add: hasAllowlist_def)

lemma hasAllowlist_Restricts: "hasAllowlist ps \<Longrightarrow> ps_Restricts ps"
  by (auto simp: hasAllowlist_def ps_Restricts_def list_ex_iff cp_Restricts_def cp_Active_def)

lemma ps_Restricts_nonempty: "ps_Restricts ps \<Longrightarrow> ps \<noteq> []"
  by (auto simp: ps_Restricts_def)

lemma spec_same_set:
  assumes "set ps = set qs"
  shows "spec_allowed re ps c = spec_allowed re qs c"
    and "spec_needs_approval re ps c = spec_needs_approval re qs c"
    and "segments sh ps cmd = segments sh qs cmd" and "compiles re ps = compiles re qs"
  using assms by (auto simp: spec_defs hasAllowlist_def list_ex_iff segments_def shellParse_def compiles_def)

section \<open>Sample values\<close>

text \<open>
  Two small instances of the engine arguments, on which the witnesses are evaluated: a regex
  engine in which a pattern matches exactly itself (and \<open>(\<close> does not compile), a shell parser
  that reads a line as one call.
\<close>

definition sample_engine :: regex_engine where
  "sample_engine pat = (if pat = ''('' then None else Some (\<lambda>c. c = pat))"

definition sample_sh :: sh_parser where
  "sample_sh = \<lparr>sh_Parse = (\<lambda>s. Inr (Node (OtherNode s) [Node (CallExpr 1) [Node (OtherNode s) []]])),
     sh_Print = (\<lambda>n. case children n of [] \<Rightarrow> Inl ''empty'' | m # _ \<Rightarrow>
        (case kind m of OtherNode s \<Rightarrow> Inr s | _ \<Rightarrow> Inl ''unexpected'')),
     sh_OpText = (\<lambda>op. ''>'')\<rparr>"

section \<open>Properties\<close>

text \<open>
  C6: the decision procedure implements the documented composition. When every pattern
  compiles and the line decomposes into the simple commands \<open>cmds\<close>, \<open>Decide\<close> returns no error,
  allows exactly when each simple command is allowed by the specification (no deny match in
  any denylist; a match in the union of the allowlists when there is one), and on an allowed
  line asks for approval exactly when some simple command matches a require-approval rule.
\<close>

theorem Decide_refines_spec:
  assumes "compiles re ps" and "segments sh ps command = Inr cmds"
  shows "\<exists>n rule. Decide re sh ps command = (\<forall>c\<in>set cmds. spec_allowed re ps c, n, rule, None) \<and>
     ((\<forall>c\<in>set cmds. spec_allowed re ps c) \<longrightarrow>
        n = (\<exists>c\<in>set cmds. spec_needs_approval re ps c))"
proof -
  obtain n r where d: "Decide re sh ps command = (\<forall>c\<in>set cmds. spec_allowed re ps c, n, r, None)"
    using Decide_never_errors_when_compiled [OF assms] by blast
  have "n = (\<exists>c\<in>set cmds. spec_needs_approval re ps c)" if all: "\<forall>c\<in>set cmds. spec_allowed re ps c"
  proof (cases "ps = []")
    case True
    with d show ?thesis by (simp add: Decide_def spec_defs)
  next
    case False
    from d all have "Decide re sh ps command = (True, n, r, None)" by simp
    from Decide_sound [OF this False] assms(2) show ?thesis by auto
  qed
  with d show ?thesis by blast
qed

theorem Decide_refines_spec_witness:
  "\<exists>n rule. Decide sample_engine sample_sh
     [zero_policy\<lparr>cp_Mode := CmdPolicyAllowlist, cp_Allow := [''ls'']\<rparr>] ''ls'' = (True, n, rule, None)"
proof -
  let ?ps = "[zero_policy\<lparr>cp_Mode := CmdPolicyAllowlist, cp_Allow := [''ls'']\<rparr>]"
  let ?re = "sample_engine"
  have "compiles ?re ?ps" by (simp add: compiles_def zero_policy_def sample_engine_def)
  moreover have "segments sample_sh ?ps ''ls'' = Inr [''ls'']"
    by (simp add: segments_def shellParse_def zero_policy_def)
  moreover have "spec_allowed ?re ?ps ''ls''"
    by (simp add: spec_defs zero_policy_def matches_def hasAllowlist_def sample_engine_def)
  ultimately show ?thesis using Decide_refines_spec [of ?re ?ps sample_sh "''ls''" "[''ls'']"] by auto
qed

text \<open>
  Composition does not depend on the order or on repetitions of the member policies. Two
  sets with the same members, whose patterns compile, give the same verdict, and the same
  answer on approval where the verdict is to allow.
\<close>

theorem Decide_order_independent:
  assumes "set ps = set qs" and "compiles re ps" and "segments sh ps command = Inr cmds"
  shows "fst (Decide re sh ps command) = fst (Decide re sh qs command) \<and>
     (fst (Decide re sh ps command) \<longrightarrow>
        fst (snd (Decide re sh ps command)) = fst (snd (Decide re sh qs command)))"
proof -
  note same = spec_same_set [OF assms(1)]
  have cq: "compiles re qs" and sq: "segments sh qs command = Inr cmds"
    using assms same by simp_all
  obtain n r where dp: "Decide re sh ps command = (\<forall>c\<in>set cmds. spec_allowed re ps c, n, r, None)"
    using Decide_never_errors_when_compiled [OF assms(2,3)] by blast
  obtain m q where dq: "Decide re sh qs command = (\<forall>c\<in>set cmds. spec_allowed re qs c, m, q, None)"
    using Decide_never_errors_when_compiled [OF cq sq] by blast
  have "n = m" if all: "\<forall>c\<in>set cmds. spec_allowed re ps c"
  proof (cases "ps = []")
    case True
    with assms(1) have "qs = []" by simp
    with True dp dq show ?thesis by simp
  next
    case False
    with assms(1) have "qs \<noteq> []" by auto
    with Decide_sound [of re sh ps command n r None] Decide_sound [of re sh qs command m q None]
      dp dq all same assms(3) False show ?thesis by auto
  qed
  with dp dq same show ?thesis by simp
qed

theorem Decide_order_independent_witness:
  "let re = sample_engine; sh = sample_sh;
       a = zero_policy\<lparr>cp_Mode := CmdPolicyAllowlist, cp_Allow := [''ls'']\<rparr>;
       d = zero_policy\<lparr>cp_Mode := CmdPolicyDenylist, cp_Deny := [''rm'']\<rparr>
   in fst (Decide re sh [a, d] ''rm'') = fst (Decide re sh [d, a, d] ''rm'')"
proof -
  let ?re = "sample_engine"
  let ?a = "zero_policy\<lparr>cp_Mode := CmdPolicyAllowlist, cp_Allow := [''ls'']\<rparr>"
  let ?d = "zero_policy\<lparr>cp_Mode := CmdPolicyDenylist, cp_Deny := [''rm'']\<rparr>"
  have "set [?a, ?d] = set [?d, ?a, ?d]" by auto
  moreover have "compiles ?re [?a, ?d]" by (simp add: compiles_def zero_policy_def sample_engine_def)
  moreover have "segments sample_sh [?a, ?d] ''rm'' = Inr [''rm'']"
    by (simp add: segments_def shellParse_def zero_policy_def)
  ultimately show ?thesis
    using Decide_order_independent [of "[?a, ?d]" "[?d, ?a, ?d]" ?re sample_sh "''rm''" "[''rm'']"] by simp
qed

text \<open>
  The shell decomposition, characterised. \<open>extractCommands\<close> succeeds exactly when the line
  parses, its tree has no command substitution, process substitution, arithmetic command,
  redirect with another operator than \<open>>&\<close> and \<open><&\<close> and no call that fails to print, and at
  least one call has arguments; it then returns the texts of those calls, in walk order.
\<close>

lemma extractCommands_exact:
  "extractCommands sh command = Inr cmds \<longleftrightarrow>
     (\<exists>f. sh_Parse sh command = Inr f \<and> \<not> list_ex (refused sh) (nodes f) \<and>
          cmds = call_texts sh (nodes f) \<and> cmds \<noteq> [])"
proof (cases "sh_Parse sh command")
  case (Inl msg)
  then show ?thesis by (simp add: extractCommands_def)
next
  case (Inr f)
  show ?thesis
  proof (cases "\<exists>m\<in>set (nodes f). refused sh m")
    case True
    with Walk_refused(1) [of f sh "[]"] obtain e where "snd (Walk sh f ([], None)) = Some e" by blast
    with Inr True show ?thesis
      by (cases "Walk sh f ([], None)") (auto simp: extractCommands_def list_ex_iff)
  next
    case False
    with Inr Walk_ok(1) [of f sh "[]"] show ?thesis
      by (auto simp: extractCommands_def list_ex_iff)
  qed
qed

text \<open>
  What the policy promises of a shell line, on the parsed tree. A dangerous node is a command or
  process substitution, an arithmetic command or a redirect with a file operator. A plain line
  has none of these, no subshell, duplicates only numbered descriptors, and each of its calls
  has arguments and prints.
\<close>

definition dangerous :: "sh_node \<Rightarrow> bool" where
  "dangerous n \<longleftrightarrow> kind n \<in> {CmdSubst, ProcSubst, ArithmCmd} \<or>
     (\<exists>op word. kind n = Redirect op word \<and> op \<notin> {DplIn, DplOut})"

definition descriptor :: "string \<Rightarrow> bool" where
  "descriptor word \<longleftrightarrow> word \<noteq> '''' \<and> set word \<subseteq> set ''0123456789''"

definition plain_node :: "sh_parser \<Rightarrow> sh_node \<Rightarrow> bool" where
  "plain_node sh n \<longleftrightarrow>
     (case kind n of
        Redirect op word \<Rightarrow> op \<in> {DplIn, DplOut} \<and> descriptor word
      | CallExpr nargs \<Rightarrow> 0 < nargs \<and> (\<exists>text. sh_Print sh n = Inr text)
      | OtherNode t \<Rightarrow> t \<noteq> ''Subshell''
      | _ \<Rightarrow> False)"

definition is_call :: "sh_node \<Rightarrow> bool" where
  "is_call n \<longleftrightarrow> (\<exists>nargs. kind n = CallExpr nargs)"

lemma dangerous_refused: "dangerous n \<Longrightarrow> refused sh n"
  by (auto simp: dangerous_def refused_def)

lemma plain_not_refused: "plain_node sh n \<Longrightarrow> \<not> refused sh n"
  by (auto simp: plain_node_def refused_def split: sh_kind.splits)

lemma call_texts_plain:
  assumes "\<forall>n\<in>set ns. plain_node sh n"
  shows "call_texts sh ns = map (\<lambda>n. projr (sh_Print sh n)) (filter is_call ns)"
  using assms
  by (induction ns) (auto simp: call_texts_def plain_node_def is_call_def split: sh_kind.splits)

lemma call_texts_mem:
  assumes "n \<in> set ns" and "kind n = CallExpr nargs" and "0 < nargs" and "\<not> refused sh n"
  shows "projr (sh_Print sh n) \<in> set (call_texts sh ns) \<and> (\<exists>text. sh_Print sh n = Inr text)"
proof (cases "sh_Print sh n")
  case (Inl msg)
  with assms(2-4) show ?thesis by (simp add: refused_def)
next
  case (Inr t)
  from assms(1) obtain xs ys where "ns = xs @ [n] @ ys" by (auto dest: split_list)
  moreover have "call_texts sh [n] = [t]" using assms(2,3) Inr by (simp add: call_texts_def)
  ultimately have "t \<in> set (call_texts sh ns)" by (simp only: call_texts_simps set_append) simp
  with Inr show ?thesis by simp
qed



text \<open>
  What the decomposition does not evaluate. A line whose tree holds an assignment-only
  call (no arguments), a redirect \<open>>&\<close> to any word and one call with arguments is accepted,
  and only that call is returned for evaluation: neither the assignment nor the redirect
  target is ever matched against a rule.
\<close>

theorem extractCommands_unevaluated:
  assumes "sh_Parse sh line = Inr (Node (OtherNode x)
      [Node (CallExpr 0) [], Node (Redirect DplOut word) [], Node (CallExpr (Suc k)) []])"
    and "sh_Print sh (Node (CallExpr (Suc k)) []) = Inr t"
  shows "extractCommands sh line = Inr [t]"
  using assms by (simp add: extractCommands_def visit_def)

theorem extractCommands_unevaluated_witness:
  "extractCommands
     \<lparr>sh_Parse = (\<lambda>s. Inr (Node (OtherNode ''file'')
        [Node (CallExpr 0) [], Node (Redirect DplOut ''/tmp/f'') [], Node (CallExpr (Suc 0)) []])),
      sh_Print = (\<lambda>n. Inr ''ps''), sh_OpText = (\<lambda>op. ''>&'')\<rparr> ''PATH=/tmp; ps >&/tmp/f'' = Inr [''ps'']"
  by (rule extractCommands_unevaluated [where k = 0 and x = "''file''" and word = "''/tmp/f''"]) simp_all

end
