(* ===== verification/Intent.thy ===== *)
theory Intent
  imports Cmdpolicy
begin

text \<open>
  The data of \<open>src/internal/signer/signer.go\<close> and of \<open>src/internal/ca/sign.go\<close>: the intent a
  broker submits, the per-host policy, the certificate constraints, the decision and its
  transport form. Field names are the Go names behind a prefix for their struct.
\<close>

abbreviation RoleTarget :: string where "RoleTarget \<equiv> ''target''"
abbreviation RoleBastion :: string where "RoleBastion \<equiv> ''bastion''"
abbreviation PurposeOneshot :: string where "PurposeOneshot \<equiv> ''oneshot''"
abbreviation PurposeSession :: string where "PurposeSession \<equiv> ''session''"
abbreviation SessionModeExec :: string where "SessionModeExec \<equiv> ''exec''"
abbreviation SessionModeShell :: string where "SessionModeShell \<equiv> ''shell''"
abbreviation SessionModePTY :: string where "SessionModePTY \<equiv> ''pty''"

text \<open>An SSH public key is the line that marshals it.\<close>

type_synonym PublicKey = string

text \<open>
  \<open>in_EndUserGroups\<close> is a slice whose \<open>nil\<close> value means "no end-user identity"; \<open>nil\<close> is
  \<open>None\<close>, the empty non-nil slice is \<open>Some []\<close>.
\<close>

record Intent =
  in_Caller :: string
  in_Host :: string
  in_Role :: string
  in_Purpose :: string
  in_SessionMode :: string
  in_Command :: string
  in_RequestedTTL :: duration
  in_PublicKey :: PublicKey
  in_Sudo :: bool
  in_SudoUser :: string
  in_PTY :: bool
  in_FileTransfer :: bool
  in_DryRun :: bool
  in_Preflight :: bool
  in_Approved :: bool
  in_OnBehalfOf :: string
  in_EndUser :: string
  in_EndUserGroups :: "string list option"
  in_LearnTTLSeconds :: int
  in_LearnApprover :: string
  in_LearnApprovalID :: string

record Constraints =
  c_Principal :: string
  c_TTL :: duration
  c_SourceAddress :: string
  c_ForceCommand :: string
  c_AllowPortForwarding :: bool
  c_AllowPTY :: bool
  c_KeyID :: string

text \<open>\<open>hp_Policies\<close> is \<open>None\<close> for the \<open>nil\<close> slice of a table that was not compiled.\<close>

record HostPolicy =
  hp_Addr :: string
  hp_User :: string
  hp_HostKey :: string
  hp_Jump :: string
  hp_Principal :: string
  hp_SourceAddress :: string
  hp_MaxTTL :: duration
  hp_MaxTTLSeconds :: int
  hp_AllowAsBastion :: bool
  hp_AllowedCallers :: "string list"
  hp_AllowSudo :: bool
  hp_AllowedSudoUsers :: "string list"
  hp_AllowPTY :: bool
  hp_AllowFileTransfer :: bool
  hp_Groups :: "string list"
  hp_CommandPolicy :: CommandPolicy
  hp_Policies :: "PolicySet option"

type_synonym PolicyTable = "(string, HostPolicy) gomap"

record Decision =
  d_Constraints :: Constraints
  d_ElevationPrefix :: string
  d_RequireApproval :: bool
  d_MatchedRule :: string
  d_CommandPolicyEnforcement :: string
  d_Warning :: string
  d_WouldDeny :: bool
  d_WouldRequireApproval :: bool

text \<open>
  The denials of the signer, one constructor per \<open>fmt.Errorf\<close>; the arguments are the values
  the message prints.
\<close>

datatype sign_error =
    NoPolicyForHost string
  | UnknownRole string
  | UnknownPurpose string
  | UnsafeIdentity
  | CommandHasNewline
  | EmptyCommand
  | CallerNotAuthorised string string
  | UserNotAuthorised string string
  | NotABastion string
  | PolicyHostAsBastion string string
  | SudoNotAllowed string
  | SudoUserInvalid string
  | SudoUserNotAllowed string string
  | PTYNotAllowed string
  | FileTransferNotAllowed string
  | SessionNotVerifiable string
  | CommandPolicyError string decide_error
  | CommandNotAllowed string string
  | PrincipalRequired
  | TTLOutOfRange duration
  | SigningCancelled
  | RandomSerialFailed
  | SigningFailed

text \<open>\<open>di_Reason\<close> keeps the error whose text the Go field holds; \<open>None\<close> is the empty string.\<close>

record DecisionInfo =
  di_Allowed :: bool
  di_Reason :: "sign_error option"
  di_RequireApproval :: bool
  di_MatchedRule :: string
  di_ForceCommand :: string
  di_TTLSeconds :: int
  di_Elevation :: string
  di_Enforcement :: string
  di_Warning :: string
  di_WouldDeny :: bool
  di_WouldRequireApproval :: bool

definition effectivePolicies :: "HostPolicy \<Rightarrow> PolicySet" where
  "effectivePolicies hp =
     (case hp_Policies hp of
        Some ps \<Rightarrow> ps
      | None \<Rightarrow> if cp_Restricts (hp_CommandPolicy hp) then [hp_CommandPolicy hp] else [])"

section \<open>Sample values\<close>

text \<open>A host with an allowlist and a request for it, on which the witnesses are evaluated.\<close>

definition sample_policy :: CommandPolicy where
  "sample_policy = zero_policy\<lparr>cp_Mode := CmdPolicyAllowlist, cp_Allow := [''uptime'', ''reboot''],
     cp_RequireApproval := [''reboot'']\<rparr>"

definition sample_host :: HostPolicy where
  "sample_host = \<lparr>hp_Addr = ''web01:22'', hp_User = ''deploy'', hp_HostKey = ''k'', hp_Jump = '''',
     hp_Principal = ''host:web01'', hp_SourceAddress = ''10.0.0.1'', hp_MaxTTL = 0,
     hp_MaxTTLSeconds = 0, hp_AllowAsBastion = False, hp_AllowedCallers = [''b1''],
     hp_AllowSudo = True, hp_AllowedSudoUsers = [], hp_AllowPTY = False,
     hp_AllowFileTransfer = False, hp_Groups = [''prod''], hp_CommandPolicy = sample_policy,
     hp_Policies = None\<rparr>"

definition sample_intent :: Intent where
  "sample_intent = \<lparr>in_Caller = ''b1'', in_Host = ''web01'', in_Role = RoleTarget,
     in_Purpose = PurposeOneshot, in_SessionMode = '''', in_Command = ''uptime'',
     in_RequestedTTL = 60000000000, in_PublicKey = ''pk'', in_Sudo = True, in_SudoUser = '''',
     in_PTY = False, in_FileTransfer = False, in_DryRun = False, in_Preflight = False,
     in_Approved = False, in_OnBehalfOf = '''', in_EndUser = ''alice'',
     in_EndUserGroups = Some [''prod''], in_LearnTTLSeconds = 0, in_LearnApprover = '''',
     in_LearnApprovalID = ''''\<rparr>"

lemmas sample_defs = sample_engine_def sample_sh_def sample_policy_def sample_host_def
  sample_intent_def zero_policy_def

end
