(* ===== verification/Grants.thy ===== *)
theory Grants
  imports Intent
begin

text \<open>
  Runtime grants, \<open>src/internal/signer/grants.go\<close>: time-boxed allow patterns and approval
  waivers that widen a host's command policy, and the in-memory store that holds them.

  The store is the list of its map's entries; \<open>newGrantID\<close> is an argument of \<open>Add\<close>. A grant
  keeps its compiled waiver patterns (\<open>g_waiverRE\<close>) as the code does.

  The interface \<open>GrantProvider\<close> is the locale \<open>grant_provider\<close>; what a client of it may rely
  on (a grant widens, it never denies, gates or changes the enforcement mode) is proved once
  in the locale and reaches the store through the interpretation at the end.
\<close>

section \<open>Grants\<close>

record Grant =
  g_ID :: string
  g_Host :: string
  g_Allow :: "string list"
  g_WaiveApproval :: "string list"
  g_Caller :: string
  g_EndUser :: string
  g_Sudo :: bool
  g_SudoUser :: string
  g_Approver :: string
  g_ApprovalID :: string
  g_GrantedAt :: time
  g_ExpiresAt :: time
  g_waiverRE :: "(string \<Rightarrow> bool) list"

definition grant_active :: "Grant \<Rightarrow> time \<Rightarrow> bool" where
  "grant_active g now \<longleftrightarrow> now < g_ExpiresAt g"

definition grant_matches :: "Grant \<Rightarrow> string \<Rightarrow> Intent \<Rightarrow> bool" where
  "grant_matches g host i \<longleftrightarrow>
     g_Host g = host \<and>
     (g_Caller g = '''' \<or> g_Caller g = in_Caller i) \<and>
     (g_EndUser g = '''' \<or> g_EndUser g = in_EndUser i)"

definition canonicalGrantSudoUser :: "bool \<Rightarrow> string \<Rightarrow> string" where
  "canonicalGrantSudoUser sudo user =
     (if \<not> sudo then '''' else if user = '''' then ''root'' else user)"

definition waiverApplies :: "Grant \<Rightarrow> string \<Rightarrow> Intent \<Rightarrow> bool" where
  "waiverApplies g host i =
     (if \<not> grant_matches g host i \<or> g_Sudo g \<noteq> in_Sudo i \<or>
         canonicalGrantSudoUser (g_Sudo g) (g_SudoUser g) \<noteq>
         canonicalGrantSudoUser (in_Sudo i) (in_SudoUser i)
      then False
      else list_ex (\<lambda>re. re (in_Command i)) (g_waiverRE g))"

section \<open>The store\<close>

type_synonym GrantStore = "(string, Grant) gomap"

datatype grant_error =
    NoPatterns
  | InvalidGrantAllow string
  | InvalidGrantWaiver string

definition NewGrantStore :: GrantStore where
  "NewGrantStore = []"

text \<open>
  The body of \<open>Add\<close> in three steps: the checks with \<open>cachedRegex\<close>, the compilation of the
  waiver patterns onto the grant, the insertion under a fresh id.
\<close>

fun compile_waivers :: "regex_engine \<Rightarrow> string list \<Rightarrow> string + (string \<Rightarrow> bool) list" where
  "compile_waivers re [] = Inr []"
| "compile_waivers re (p # ps) =
     (case re p of
        None \<Rightarrow> Inl p
      | Some m \<Rightarrow> (case compile_waivers re ps of Inl q \<Rightarrow> Inl q | Inr ms \<Rightarrow> Inr (m # ms)))"

definition Add ::
    "regex_engine \<Rightarrow> string \<Rightarrow> Grant \<Rightarrow> GrantStore \<Rightarrow> (grant_error + string) \<times> GrantStore" where
  "Add re newID g s =
     (if length (g_Allow g) = 0 \<and> length (g_WaiveApproval g) = 0 then (Inl NoPatterns, s)
      else
        let g = g\<lparr>g_SudoUser := canonicalGrantSudoUser (g_Sudo g) (g_SudoUser g)\<rparr> in
        case first_invalid re (g_Allow g) of
          Some p \<Rightarrow> (Inl (InvalidGrantAllow p), s)
        | None \<Rightarrow>
            (case compile_waivers re (g_WaiveApproval g) of
               Inl p \<Rightarrow> (Inl (InvalidGrantWaiver p), s)
             | Inr res \<Rightarrow>
                 let g = g\<lparr>g_waiverRE := res, g_ID := newID\<rparr>
                 in (Inr newID, put newID g s)))"

definition superseded :: "Grant \<Rightarrow> Grant \<Rightarrow> bool" where
  "superseded g ex \<longleftrightarrow>
     g_Host ex = g_Host g \<and> g_Caller ex = g_Caller g \<and> g_EndUser ex = g_EndUser g \<and>
     g_Sudo ex = g_Sudo g \<and>
     canonicalGrantSudoUser (g_Sudo ex) (g_SudoUser ex) =
       canonicalGrantSudoUser (g_Sudo g) (g_SudoUser g) \<and>
     g_WaiveApproval ex = g_WaiveApproval g \<and> length (g_Allow ex) = 0"

definition SupersedeWaiver :: "Grant \<Rightarrow> GrantStore \<Rightarrow> nat \<times> GrantStore" where
  "SupersedeWaiver g s =
     (length (filter (\<lambda>(id, ex). superseded g ex) s),
      filter (\<lambda>(id, ex). \<not> superseded g ex) s)"

definition grants_Purge :: "time \<Rightarrow> GrantStore \<Rightarrow> nat \<times> GrantStore" where
  "grants_Purge now s =
     (length (filter (\<lambda>(id, g). \<not> grant_active g now) s),
      filter (\<lambda>(id, g). grant_active g now) s)"

definition Revoke :: "string \<Rightarrow> GrantStore \<Rightarrow> bool \<times> GrantStore" where
  "Revoke gid s = (case get s gid of None \<Rightarrow> (False, s) | Some _ \<Rightarrow> (True, del gid s))"

definition grants_List :: "time \<Rightarrow> GrantStore \<Rightarrow> Grant list \<times> GrantStore" where
  "grants_List now s =
     (map snd (filter (\<lambda>(id, g). grant_active g now) s),
      filter (\<lambda>(id, g). grant_active g now) s)"

definition GrantsFor :: "GrantStore \<Rightarrow> string \<Rightarrow> Intent \<Rightarrow> time \<Rightarrow> PolicySet" where
  "GrantsFor s host i now =
     map (\<lambda>(id, g). zero_policy\<lparr>cp_Mode := CmdPolicyAllowlist, cp_Allow := g_Allow g\<rparr>)
       (filter (\<lambda>(id, g). grant_active g now \<and> grant_matches g host i \<and> length (g_Allow g) > 0) s)"

definition WaiverMatches :: "GrantStore \<Rightarrow> string \<Rightarrow> Intent \<Rightarrow> time \<Rightarrow> bool" where
  "WaiverMatches s host i now \<longleftrightarrow> list_ex (\<lambda>(id, g). grant_active g now \<and> waiverApplies g host i) s"

text \<open>The Go interface \<open>GrantProvider\<close>: the two methods the decision path calls.\<close>

record GrantProvider =
  gp_GrantsFor :: "string \<Rightarrow> Intent \<Rightarrow> time \<Rightarrow> PolicySet"
  gp_WaiverMatches :: "string \<Rightarrow> Intent \<Rightarrow> time \<Rightarrow> bool"

definition store_provider :: "GrantStore \<Rightarrow> GrantProvider" where
  "store_provider s = \<lparr>gp_GrantsFor = GrantsFor s, gp_WaiverMatches = WaiverMatches s\<rparr>"

section \<open>Widening a policy set\<close>

text \<open>A policy that can only allow more, on a set that already has an allowlist.\<close>

definition allow_only :: "CommandPolicy \<Rightarrow> bool" where
  "allow_only p \<longleftrightarrow> cp_Mode p = CmdPolicyAllowlist \<and> cp_Deny p = [] \<and>
     cp_RequireApproval p = [] \<and> \<not> cp_ShellParse p"

lemma scan_set_allow_only:
  assumes "\<forall>g\<in>set gs. allow_only g"
  shows "scan_set re (\<lambda>p. cp_Mode p = CmdPolicyDenylist) cp_Deny c gs = NoMatch"
    and "scan_set re (\<lambda>p. True) cp_RequireApproval c gs = NoMatch"
  using assms by (auto simp: scan_set_NoMatch allow_only_def)

lemma decideOne_widen:
  assumes "\<forall>g\<in>set gs. allow_only g" and "hasAllowlist ps" and "fst (decideOne re ps c)"
  shows "decideOne re (ps @ gs) c = decideOne re ps c"
  using assms(2,3) scan_set_allow_only [OF assms(1), of re c]
  by (auto simp: decideOne_def scan_set_append Let_def split: scan_result.splits if_splits)

lemma decide_loop_widen:
  assumes "\<forall>g\<in>set gs. allow_only g" and "hasAllowlist ps" and "fst (decide_loop re ps n r cmds)"
  shows "decide_loop re (ps @ gs) n r cmds = decide_loop re ps n r cmds"
  using assms(3)
proof (induction cmds arbitrary: n r)
  case Nil
  then show ?case by simp
next
  case (Cons c cmds)
  obtain a n1 r1 e1 where d: "decideOne re ps c = (a, n1, r1, e1)"
    by (cases "decideOne re ps c")
  with Cons.prems have "a" by (auto split: if_splits)
  with d decideOne_widen [OF assms(1,2), of re c]
  have d': "decideOne re (ps @ gs) c = (a, n1, r1, e1)" by simp
  from Cons.prems d have *: "\<not> (e1 \<noteq> None \<or> \<not> a) \<Longrightarrow>
      fst (decide_loop re ps (n \<or> n1) (if n then r else r1) cmds)"
    by (auto split: if_splits)
  from Cons.IH [OF *] d d' show ?case
    by (auto split: if_splits)
qed

lemma shellParse_widen:
  "\<forall>g\<in>set gs. allow_only g \<Longrightarrow> shellParse (ps @ gs) = shellParse ps"
  by (auto simp: shellParse_def allow_only_def list_ex_iff)

lemma Decide_widen:
  assumes "\<forall>g\<in>set gs. allow_only g" and "hasAllowlist ps" and "fst (Decide re sh ps command)"
  shows "Decide re sh (ps @ gs) command = Decide re sh ps command"
proof -
  have ne: "ps \<noteq> []"
    using hasAllowlist_Restricts [OF assms(2)] by (rule ps_Restricts_nonempty)
  have seg: "segments sh (ps @ gs) command = segments sh ps command"
    by (simp add: segments_def shellParse_widen [OF assms(1)])
  from ne assms(3) obtain cmds where "segments sh ps command = Inr cmds"
    and "fst (decide_loop re ps False '''' cmds)"
    by (auto simp: Decide_segments split: sum.splits)
  with decide_loop_widen [OF assms(1,2)] seg ne show ?thesis
    by (simp add: Decide_segments)
qed

lemma spec_widen:
  assumes "\<forall>g\<in>set gs. allow_only g"
  shows "spec_denied re (ps @ gs) c = spec_denied re ps c"
    and "spec_needs_approval re (ps @ gs) c = spec_needs_approval re ps c"
  using assms by (auto simp: spec_defs allow_only_def)

section \<open>Invariant of the store\<close>

definition grant_ok :: "regex_engine \<Rightarrow> string \<Rightarrow> Grant \<Rightarrow> bool" where
  "grant_ok re gid g \<longleftrightarrow>
     g_ID g = gid \<and> (g_Allow g \<noteq> [] \<or> g_WaiveApproval g \<noteq> []) \<and>
     (\<forall>p\<in>set (g_Allow g). re p \<noteq> None) \<and>
     compile_waivers re (g_WaiveApproval g) = Inr (g_waiverRE g) \<and>
     g_SudoUser g = canonicalGrantSudoUser (g_Sudo g) (g_SudoUser g)"

definition store_ok :: "regex_engine \<Rightarrow> GrantStore \<Rightarrow> bool" where
  "store_ok re s \<longleftrightarrow> map_ok s \<and> (\<forall>(gid, g)\<in>set s. grant_ok re gid g)"

lemma canonical_idem [simp]:
  "canonicalGrantSudoUser b (canonicalGrantSudoUser b u) = canonicalGrantSudoUser b u"
  by (simp add: canonicalGrantSudoUser_def)

lemma compile_waivers_Inr:
  "compile_waivers re ps = Inr ms \<Longrightarrow> map re ps = map Some ms"
  by (induction ps arbitrary: ms) (auto split: option.splits sum.splits)

lemma store_ok_new: "store_ok re NewGrantStore"
  by (simp add: store_ok_def NewGrantStore_def)

lemma store_ok_filter: "store_ok re s \<Longrightarrow> store_ok re (filter P s)"
  by (auto simp: store_ok_def)

lemma store_ok_Add [inv_intros]:
  assumes "store_ok re s"
  shows "store_ok re (snd (Add re newID g s))"
proof (cases "fst (Add re newID g s)")
  case (Inl e)
  then show ?thesis
    using assms by (auto simp: Add_def Let_def split: if_splits option.splits sum.splits)
next
  case (Inr i)
  then obtain g' where s': "snd (Add re newID g s) = put newID g' s" and g': "grant_ok re newID g'"
    by (auto simp: Add_def Let_def grant_ok_def first_invalid_None
        split: if_splits option.splits sum.splits)
  from assms have "store_ok re (put newID g' s)"
    using set_put_subset [of newID g' s] g' by (fastforce simp: store_ok_def)
  with s' show ?thesis by simp
qed

lemma store_ok_SupersedeWaiver [inv_intros]: "store_ok re s \<Longrightarrow> store_ok re (snd (SupersedeWaiver g s))"
  by (simp add: SupersedeWaiver_def store_ok_filter)

lemma store_ok_Purge [inv_intros]: "store_ok re s \<Longrightarrow> store_ok re (snd (grants_Purge now s))"
  by (simp add: grants_Purge_def store_ok_filter)

lemma store_ok_List [inv_intros]: "store_ok re s \<Longrightarrow> store_ok re (snd (grants_List now s))"
  by (simp add: grants_List_def store_ok_filter)

lemma store_ok_Revoke [inv_intros]: "store_ok re s \<Longrightarrow> store_ok re (snd (Revoke gid s))"
  using set_del_subset [of gid s] by (fastforce simp: store_ok_def Revoke_def split: option.splits)

section \<open>Behaviour of the store operations\<close>

lemma Add_ok_iff:
  "(\<exists>i. fst (Add re newID g s) = Inr i) \<longleftrightarrow>
     (g_Allow g \<noteq> [] \<or> g_WaiveApproval g \<noteq> []) \<and>
     (\<forall>p\<in>set (g_Allow g @ g_WaiveApproval g). re p \<noteq> None)"
proof -
  have cw: "(\<exists>ms. compile_waivers re ps = Inr ms) \<longleftrightarrow> (\<forall>p\<in>set ps. re p \<noteq> None)" for ps
    by (induction ps) (auto split: option.splits sum.splits)
  have fi: "first_invalid re (g_Allow g) = None \<longleftrightarrow> (\<forall>p\<in>set (g_Allow g). re p \<noteq> None)"
    by (rule first_invalid_None)
  show ?thesis
    using cw [of "g_WaiveApproval g"] fi
    by (cases "first_invalid re (g_Allow g)"; cases "compile_waivers re (g_WaiveApproval g)")
       (auto simp: Add_def Let_def)
qed

lemma Add_fail_unchanged: "fst (Add re newID g s) = Inl e \<Longrightarrow> snd (Add re newID g s) = s"
  by (auto simp: Add_def Let_def split: if_splits option.splits sum.splits)

text \<open>What a successful \<open>Add\<close> stores.\<close>

lemma Add_stores:
  assumes "Add re newID g s = (Inr i, s')"
  shows "i = newID \<and> (\<exists>g'. s' = put newID g' s \<and> grant_ok re newID g' \<and>
     g_Host g' = g_Host g \<and> g_Caller g' = g_Caller g \<and> g_EndUser g' = g_EndUser g \<and>
     g_Sudo g' = g_Sudo g \<and> g_SudoUser g' = canonicalGrantSudoUser (g_Sudo g) (g_SudoUser g) \<and>
     g_Allow g' = g_Allow g \<and> g_WaiveApproval g' = g_WaiveApproval g \<and>
     g_ExpiresAt g' = g_ExpiresAt g)"
  using assms
  by (auto simp: Add_def Let_def grant_ok_def first_invalid_None
      split: if_splits option.splits sum.splits)

lemma Revoke_gone: "get (snd (Revoke gid s)) gid = None"
  by (auto simp: Revoke_def split: option.splits)

lemma grants_Purge_GrantsFor:
  "now \<le> later \<Longrightarrow> GrantsFor (snd (grants_Purge now s)) host i later = GrantsFor s host i later"
  by (auto simp: GrantsFor_def grants_Purge_def grant_active_def intro!: arg_cong [of _ _ "map _"] filter_cong)

lemma grants_Purge_WaiverMatches:
  "now \<le> later \<Longrightarrow> WaiverMatches (snd (grants_Purge now s)) host i later = WaiverMatches s host i later"
  by (fastforce simp: WaiverMatches_def grants_Purge_def grant_active_def list_ex_iff)

lemma SupersedeWaiver_removes:
  "(k, ex) \<in> set (snd (SupersedeWaiver g s)) \<Longrightarrow> \<not> superseded g ex"
  by (auto simp: SupersedeWaiver_def)

section \<open>The provider interface\<close>

locale grant_provider =
  fixes re :: regex_engine
    and grants_for :: "'g \<Rightarrow> string \<Rightarrow> Intent \<Rightarrow> time \<Rightarrow> PolicySet"
    and invar :: "'g \<Rightarrow> bool"
  assumes grants_widen_only: "invar g \<Longrightarrow> p \<in> set (grants_for g host i now) \<Longrightarrow> allow_only p"
    and grants_compile: "invar g \<Longrightarrow> p \<in> set (grants_for g host i now) \<Longrightarrow>
      pat \<in> set (cp_Allow p) \<Longrightarrow> re pat \<noteq> None"
begin

lemma grants_never_deny:
  "invar g \<Longrightarrow> spec_denied re (ps @ grants_for g host i now) c = spec_denied re ps c"
  using grants_widen_only by (intro spec_widen) auto

lemma grants_never_gate:
  "invar g \<Longrightarrow>
     spec_needs_approval re (ps @ grants_for g host i now) c = spec_needs_approval re ps c"
  using grants_widen_only by (intro spec_widen) auto

lemma grants_keep_allowed:
  "invar g \<Longrightarrow> hasAllowlist ps \<Longrightarrow> fst (Decide re sh ps command) \<Longrightarrow>
     Decide re sh (ps @ grants_for g host i now) command = Decide re sh ps command"
  using grants_widen_only by (intro Decide_widen) auto

lemma grants_keep_compiled:
  "invar g \<Longrightarrow> compiles re ps \<Longrightarrow> compiles re (ps @ grants_for g host i now)"
  using grants_widen_only grants_compile by (fastforce simp: compiles_def allow_only_def)

end

lemma GrantsFor_allow_only: "p \<in> set (GrantsFor s host i now) \<Longrightarrow> allow_only p"
  by (auto simp: GrantsFor_def allow_only_def zero_policy_def)

lemma GrantsFor_compile:
  "store_ok re s \<Longrightarrow> p \<in> set (GrantsFor s host i now) \<Longrightarrow> pat \<in> set (cp_Allow p) \<Longrightarrow> re pat \<noteq> None"
  by (auto simp: GrantsFor_def store_ok_def grant_ok_def zero_policy_def)

interpretation gs: grant_provider re GrantsFor "store_ok re" for re
  by (unfold_locales, rule GrantsFor_allow_only, assumption, rule GrantsFor_compile)

section \<open>Reachable stores\<close>

text \<open>
  The store as a state machine: one step per exported operation that changes it. Every
  operation runs under the store's mutex, so an execution is a sequence of such steps.
\<close>

inductive store_step :: "regex_engine \<Rightarrow> GrantStore \<Rightarrow> GrantStore \<Rightarrow> bool" for re where
  step_Add: "Add re newID g s = (r, s') \<Longrightarrow> store_step re s s'"
| step_SupersedeWaiver: "SupersedeWaiver g s = (n, s') \<Longrightarrow> store_step re s s'"
| step_Purge: "grants_Purge now s = (n, s') \<Longrightarrow> store_step re s s'"
| step_Revoke: "Revoke gid s = (b, s') \<Longrightarrow> store_step re s s'"
| step_List: "grants_List now s = (gs, s') \<Longrightarrow> store_step re s s'"

inductive store_reachable :: "regex_engine \<Rightarrow> GrantStore \<Rightarrow> bool" for re where
  reachable_new: "store_reachable re NewGrantStore"
| reachable_step: "store_reachable re s \<Longrightarrow> store_step re s s' \<Longrightarrow> store_reachable re s'"

lemma store_step_ok: "store_step re s s' \<Longrightarrow> store_ok re s \<Longrightarrow> store_ok re s'"
  by (induction rule: store_step.induct) (metis inv_intros snd_conv)+

lemma store_reachable_ok: "store_reachable re s \<Longrightarrow> store_ok re s"
  by (induction rule: store_reachable.induct) (auto intro: store_ok_new store_step_ok)

section \<open>Properties\<close>

text \<open>
  The specification of a waiver: what a client reads in the grant, its patterns taken as
  regular expressions rather than through the compiled copies the store keeps.
\<close>

definition waives :: "regex_engine \<Rightarrow> Grant \<Rightarrow> string \<Rightarrow> Intent \<Rightarrow> time \<Rightarrow> bool" where
  "waives re g host i now \<longleftrightarrow>
     now < g_ExpiresAt g \<and> g_Host g = host \<and> g_Caller g \<in> {'''', in_Caller i} \<and>
     g_EndUser g \<in> {'''', in_EndUser i} \<and> g_Sudo g = in_Sudo i \<and>
     (in_Sudo i \<longrightarrow> g_SudoUser g = (if in_SudoUser i = '''' then ''root'' else in_SudoUser i)) \<and>
     (\<exists>p\<in>set (g_WaiveApproval g). \<exists>m. re p = Some m \<and> m (in_Command i))"

lemma image_Some_ex:
  assumes "Some ` A = f ` B"
  shows "(\<exists>m\<in>A. P m) \<longleftrightarrow> (\<exists>p\<in>B. \<exists>m. f p = Some m \<and> P m)"
proof -
  have "(\<exists>m\<in>A. P m) \<longleftrightarrow> (\<exists>m. Some m \<in> Some ` A \<and> P m)" by auto
  also have "\<dots> \<longleftrightarrow> (\<exists>m. Some m \<in> f ` B \<and> P m)" by (simp only: assms)
  also have "\<dots> \<longleftrightarrow> (\<exists>p\<in>B. \<exists>m. f p = Some m \<and> P m)" by (auto simp: image_iff eq_commute)
  finally show ?thesis .
qed

lemma waiverApplies_iff:
  assumes "grant_ok re gid g"
  shows "grant_active g now \<and> waiverApplies g host i \<longleftrightarrow> waives re g host i now"
proof -
  have "map re (g_WaiveApproval g) = map Some (g_waiverRE g)"
    using assms compile_waivers_Inr by (simp add: grant_ok_def)
  then have "Some ` set (g_waiverRE g) = re ` set (g_WaiveApproval g)"
    by (metis set_map)
  then have pats: "(\<exists>m\<in>set (g_waiverRE g). m c) \<longleftrightarrow>
      (\<exists>p\<in>set (g_WaiveApproval g). \<exists>m. re p = Some m \<and> m c)" for c
    by (rule image_Some_ex)
  have canon: "canonicalGrantSudoUser True (g_SudoUser g) = g_SudoUser g" if "g_Sudo g"
    using assms that by (simp add: grant_ok_def)
  show ?thesis
    using canon
    by (auto simp: waiverApplies_def waives_def grant_matches_def grant_active_def list_ex_iff pats
        canonicalGrantSudoUser_def)
qed

text \<open>
  C8: approval waivers are bound. In a store reached by any sequence of its operations, a
  waiver applies to a request exactly when some stored grant that has not expired names the
  request's host, its caller and end user (or leaves them open), exactly its elevation (the
  same sudo flag and target user, root when unset), and one of its waiver patterns matches the
  command. The compiled patterns kept beside the grant never drift from the stored patterns.
\<close>

theorem waiver_bound:
  assumes "store_reachable re s"
  shows "WaiverMatches s host i now \<longleftrightarrow> (\<exists>gid g. get s gid = Some g \<and> waives re g host i now)"
proof -
  from store_reachable_ok [OF assms] have ok: "map_ok s" "\<forall>(gid, g)\<in>set s. grant_ok re gid g"
    by (auto simp: store_ok_def)
  have "WaiverMatches s host i now \<longleftrightarrow> (\<exists>(gid, g)\<in>set s. waives re g host i now)"
    using ok(2) waiverApplies_iff [of re] by (fastforce simp: WaiverMatches_def list_ex_iff)
  also have "\<dots> \<longleftrightarrow> (\<exists>gid g. get s gid = Some g \<and> waives re g host i now)"
    using in_set_get [OF ok(1)] get_in_set [of s] by fast
  finally show ?thesis .
qed

definition sample_grant :: Grant where
  "sample_grant = \<lparr>g_ID = '''', g_Host = ''web01'', g_Allow = [], g_WaiveApproval = [''uptime''],
     g_Caller = '''', g_EndUser = ''alice'', g_Sudo = True, g_SudoUser = '''', g_Approver = ''bob'',
     g_ApprovalID = ''a1'', g_GrantedAt = 0, g_ExpiresAt = 100, g_waiverRE = []\<rparr>"

theorem waiver_bound_witness:
  "\<exists>s. store_reachable sample_engine s \<and> WaiverMatches s ''web01'' sample_intent 99"
proof -
  define s where "s = snd (Add sample_engine ''g1'' sample_grant NewGrantStore)"
  have r: "store_reachable sample_engine s"
    unfolding s_def by (rule reachable_step [OF reachable_new]) (rule step_Add, rule prod.collapse [symmetric])
  have "get s ''g1'' = Some (sample_grant\<lparr>g_SudoUser := ''root'', g_waiverRE := [\<lambda>c. c = ''uptime''],
      g_ID := ''g1''\<rparr>)"
    by (simp add: s_def Add_def sample_grant_def NewGrantStore_def canonicalGrantSudoUser_def sample_engine_def)
  moreover have "waives sample_engine (sample_grant\<lparr>g_SudoUser := ''root'',
      g_waiverRE := [\<lambda>c. c = ''uptime''], g_ID := ''g1''\<rparr>) ''web01'' sample_intent 99"
    by (simp add: waives_def sample_grant_def sample_intent_def sample_engine_def)
  ultimately show ?thesis using waiver_bound [OF r] r by blast
qed

text \<open>
  Learning a waiver replaces the one it supersedes. After \<open>SupersedeWaiver\<close> and a
  successful \<open>Add\<close> of the same grant, exactly one stored grant has that binding and those
  patterns, the new one; every grant with another binding is kept as it was.
\<close>

theorem learned_waiver_unique:
  assumes "store_reachable re s" and "g_Allow g = []" and "get s newID = None"
    and "Add re newID g (snd (SupersedeWaiver g s)) = (Inr gid, s')"
  shows "(\<forall>k ex. get s' k = Some ex \<and> superseded g ex \<longleftrightarrow> k = newID \<and> get s' newID = Some ex) \<and>
    (\<forall>k ex. get s k = Some ex \<and> \<not> superseded g ex \<longrightarrow> get s' k = Some ex)"
proof -
  let ?s = "snd (SupersedeWaiver g s)"
  from store_reachable_ok [OF assms(1)] have ok: "map_ok s" by (simp add: store_ok_def)
  have mid: "get ?s k = (case get s k of None \<Rightarrow> None | Some ex \<Rightarrow> if superseded g ex then None else Some ex)" for k
    using get_filter [OF ok, of "\<lambda>(id, ex). \<not> superseded g ex" k]
    by (auto simp: SupersedeWaiver_def split: option.splits)
  from Add_stores [OF assms(4)] obtain g' where s': "s' = put newID g' ?s"
    and "superseded g g'"
    using assms(2) by (auto simp: superseded_def)
  with mid assms(3) show ?thesis by (auto split: option.splits if_splits)
qed

theorem learned_waiver_unique_witness:
  "superseded sample_grant (the (get (snd (Add sample_engine ''g1'' sample_grant
      (snd (SupersedeWaiver sample_grant NewGrantStore)))) ''g1''))"
proof -
  define s' where "s' = snd (Add sample_engine ''g1'' sample_grant
      (snd (SupersedeWaiver sample_grant NewGrantStore)))"
  have add: "Add sample_engine ''g1'' sample_grant (snd (SupersedeWaiver sample_grant NewGrantStore)) =
      (Inr ''g1'', s')"
    by (simp add: s'_def Add_def sample_grant_def NewGrantStore_def SupersedeWaiver_def sample_engine_def)
  from Add_stores [OF add] obtain ex where ex: "get s' ''g1'' = Some ex" by auto
  have "g_Allow sample_grant = []" and "get NewGrantStore ''g1'' = None"
    by (simp_all add: sample_grant_def NewGrantStore_def)
  from learned_waiver_unique [OF reachable_new this add] ex have "superseded sample_grant ex" by blast
  with ex show ?thesis by (simp add: s'_def)
qed

end
