(* ===== verification/Resolve.thy ===== *)
theory Resolve
  imports Grants
begin

text \<open>
  Policy resolution, \<open>src/internal/signer/signer.go\<close>: compilation of the host table,
  authorisation of an intent, the command-policy gate, elevation, the certificate constraints
  and the group access of a caller.

  A request reads the clock once: \<open>now\<close> is the value of \<open>time.Now()\<close> in all of its steps.
\<close>

section \<open>Compilation of the host table\<close>

datatype compile_error =
    LibraryPolicyInvalid string policy_error
  | UnknownPolicyRef string string
  | DanglingJump string string
  | MaxTTLTooLarge string int
  | HostPolicyInvalid string policy_error
  | BastionWithPolicy string

type_synonym policy_library = "(string, CommandPolicy) gomap"
type_synonym group_policies = "(string, string list) gomap"

fun add_policies ::
    "policy_library \<Rightarrow> string list \<Rightarrow> string list \<times> PolicySet \<Rightarrow> string list \<times> PolicySet" where
  "add_policies lib [] acc = acc"
| "add_policies lib (n # names) (seen, ps) =
     (if n \<in> set seen then add_policies lib names (seen, ps)
      else case get lib n of
        Some cp \<Rightarrow> add_policies lib names (n # seen, ps @ [cp])
      | None \<Rightarrow> add_policies lib names (seen, ps))"

text \<open>A missing map key reads as the empty slice.\<close>

definition group_names :: "group_policies \<Rightarrow> string \<Rightarrow> string list" where
  "group_names gp g = (case get gp g of None \<Rightarrow> [] | Some ns \<Rightarrow> ns)"

definition composePolicies ::
    "HostPolicy \<Rightarrow> policy_library \<Rightarrow> group_policies \<Rightarrow> PolicySet option" where
  "composePolicies hp lib gp =
     (let acc = add_policies lib (group_names gp ''_default'') ([], []);
          acc = fold (\<lambda>g acc. add_policies lib (group_names gp g) acc) (hp_Groups hp) acc;
          ps = snd acc;
          ps = (if cp_Restricts (hp_CommandPolicy hp) then ps @ [hp_CommandPolicy hp] else ps)
      in if ps = [] then None else Some ps)"

fun check_library :: "regex_engine \<Rightarrow> policy_library \<Rightarrow> compile_error option" where
  "check_library re [] = None"
| "check_library re ((name, cp) # lib) =
     (case cp_Validate re cp of
        Some e \<Rightarrow> Some (LibraryPolicyInvalid name e)
      | None \<Rightarrow> check_library re lib)"

fun check_names :: "policy_library \<Rightarrow> string \<Rightarrow> string list \<Rightarrow> compile_error option" where
  "check_names lib grp [] = None"
| "check_names lib grp (n # ns) =
     (if get lib n = None then Some (UnknownPolicyRef grp n) else check_names lib grp ns)"

fun check_groups :: "policy_library \<Rightarrow> group_policies \<Rightarrow> compile_error option" where
  "check_groups lib [] = None"
| "check_groups lib ((grp, names) # gp) =
     (case check_names lib grp names of Some e \<Rightarrow> Some e | None \<Rightarrow> check_groups lib gp)"

text \<open>The body of the loop over the hosts, for one host of the table \<open>hosts\<close>.\<close>

definition compile_host ::
    "regex_engine \<Rightarrow> PolicyTable \<Rightarrow> policy_library \<Rightarrow> group_policies \<Rightarrow> string \<Rightarrow> HostPolicy \<Rightarrow>
     compile_error + HostPolicy" where
  "compile_host re hosts lib gp name hp =
     (if hp_Jump hp \<noteq> '''' \<and> get hosts (hp_Jump hp) = None then Inl (DanglingJump name (hp_Jump hp))
      else if hp_MaxTTLSeconds hp > 900 then Inl (MaxTTLTooLarge name (hp_MaxTTLSeconds hp))
      else case cp_Validate re (hp_CommandPolicy hp) of
        Some e \<Rightarrow> Inl (HostPolicyInvalid name e)
      | None \<Rightarrow>
          let hp = hp\<lparr>hp_Policies := composePolicies hp lib gp\<rparr> in
          if hp_AllowAsBastion hp \<and> ps_Restricts (case hp_Policies hp of None \<Rightarrow> [] | Some ps \<Rightarrow> ps)
          then Inl (BastionWithPolicy name)
          else Inr hp)"

fun compile_hosts ::
    "regex_engine \<Rightarrow> PolicyTable \<Rightarrow> policy_library \<Rightarrow> group_policies \<Rightarrow> PolicyTable \<Rightarrow>
     PolicyTable \<Rightarrow> compile_error + PolicyTable" where
  "compile_hosts re hosts lib gp [] out = Inr out"
| "compile_hosts re hosts lib gp ((name, hp) # todo) out =
     (case compile_host re hosts lib gp name hp of
        Inl e \<Rightarrow> Inl e
      | Inr hp' \<Rightarrow> compile_hosts re hosts lib gp todo (put name hp' out))"

definition CompileHostPolicies ::
    "regex_engine \<Rightarrow> PolicyTable \<Rightarrow> policy_library \<Rightarrow> group_policies \<Rightarrow> compile_error + PolicyTable" where
  "CompileHostPolicies re hosts lib gp =
     (case check_library re lib of
        Some e \<Rightarrow> Inl e
      | None \<Rightarrow>
     (case check_groups lib gp of
        Some e \<Rightarrow> Inl e
      | None \<Rightarrow> compile_hosts re hosts lib gp hosts []))"

definition table_Validate :: "regex_engine \<Rightarrow> PolicyTable \<Rightarrow> compile_error option" where
  "table_Validate re p =
     (case CompileHostPolicies re p [] [] of Inl e \<Rightarrow> Some e | Inr _ \<Rightarrow> None)"

section \<open>Authorisation\<close>

definition callerAllowed :: "string list \<Rightarrow> string \<Rightarrow> bool" where
  "callerAllowed allowed caller =
     (if length allowed = 0 then True else list_ex (\<lambda>a. a = caller) allowed)"

definition AllowsCaller :: "HostPolicy \<Rightarrow> string \<Rightarrow> bool" where
  "AllowsCaller hp cn = callerAllowed (hp_AllowedCallers hp) cn"

definition groupsIntersect :: "string list \<Rightarrow> string list \<Rightarrow> bool" where
  "groupsIntersect hostGroups userGroups =
     list_ex (\<lambda>hg. list_ex (\<lambda>ug. hg = ug) userGroups) hostGroups"

definition hasControlChar :: "string \<Rightarrow> bool" where
  "hasControlChar s = list_ex (\<lambda>r. byte r < 32 \<or> byte r = 127) s"

definition HasUnsafeTokenChar :: "string \<Rightarrow> bool" where
  "HasUnsafeTokenChar s \<longleftrightarrow> hasControlChar s \<or> ContainsAny s [CHR '' '', CHR 0x09]"

definition authorizeIntent :: "HostPolicy \<Rightarrow> Intent \<Rightarrow> sign_error option" where
  "authorizeIntent hp i =
     (if in_Role i \<noteq> RoleTarget \<and> in_Role i \<noteq> RoleBastion then Some (UnknownRole (in_Role i))
      else if in_Purpose i \<noteq> PurposeOneshot \<and> in_Purpose i \<noteq> PurposeSession
      then Some (UnknownPurpose (in_Purpose i))
      else if HasUnsafeTokenChar (in_Caller i) \<or> HasUnsafeTokenChar (in_EndUser i)
      then Some UnsafeIdentity
      else if ContainsAny (in_Command i) [CHR 0x0A, CHR 0x0D] \<and>
              (in_Purpose i = PurposeOneshot \<or> ps_Restricts (effectivePolicies hp))
      then Some CommandHasNewline
      else if in_Purpose i = PurposeOneshot \<and> in_Role i = RoleTarget \<and> TrimSpaceEmpty (in_Command i)
      then Some EmptyCommand
      else if \<not> callerAllowed (hp_AllowedCallers hp) (in_Caller i)
      then Some (CallerNotAuthorised (in_Caller i) (in_Host i))
      else if (case in_EndUserGroups i of
                 None \<Rightarrow> False
               | Some ug \<Rightarrow> \<not> groupsIntersect (hp_Groups hp) ug)
      then Some (UserNotAuthorised (in_EndUser i) (in_Host i))
      else if in_Role i = RoleBastion \<and> \<not> hp_AllowAsBastion hp then Some (NotABastion (in_Host i))
      else if in_Role i \<noteq> RoleTarget \<and> ps_Restricts (effectivePolicies hp)
      then Some (PolicyHostAsBastion (in_Host i) (in_Role i))
      else None)"

section \<open>Elevation\<close>

definition user_char :: "char \<Rightarrow> bool" where
  "user_char c \<longleftrightarrow>
     (let b = byte c in 48 \<le> b \<and> b \<le> 57 \<or> 65 \<le> b \<and> b \<le> 90 \<or> 97 \<le> b \<and> b \<le> 122 \<or> b = 95)"

text \<open>\<open>^[a-zA-Z0-9_][a-zA-Z0-9_.-]{0,31}$\<close>\<close>

fun reValidUser :: "string \<Rightarrow> bool" where
  "reValidUser [] = False"
| "reValidUser (c # cs) =
     (user_char c \<and> length cs \<le> 31 \<and>
      list_all (\<lambda>d. user_char d \<or> d = CHR ''.'' \<or> d = CHR ''-'') cs)"

definition sudoUserAllowed :: "string list \<Rightarrow> string \<Rightarrow> bool" where
  "sudoUserAllowed allowed user =
     (if length allowed = 0 then user = ''root'' else list_ex (\<lambda>a. a = user) allowed)"

definition resolveElevation :: "HostPolicy \<Rightarrow> Intent \<Rightarrow> sign_error + string" where
  "resolveElevation hp i =
     (if \<not> in_Sudo i then Inr ''''
      else if in_Role i \<noteq> RoleTarget then Inr ''''
      else if \<not> hp_AllowSudo hp then Inl (SudoNotAllowed (in_Host i))
      else
        let sudoUser = (if in_SudoUser i = '''' then ''root'' else in_SudoUser i) in
        if \<not> reValidUser sudoUser then Inl (SudoUserInvalid sudoUser)
        else if \<not> sudoUserAllowed (hp_AllowedSudoUsers hp) sudoUser
        then Inl (SudoUserNotAllowed sudoUser (in_Host i))
        else if sudoUser = ''root'' then Inr ''sudo -n''
        else Inr (''sudo -n -u '' @ sudoUser))"

definition shellQuote :: "string \<Rightarrow> string" where
  "shellQuote s = [CHR 0x27] @ ReplaceAll1 s (CHR 0x27) [CHR 0x27, CHR 0x5C, CHR 0x27, CHR 0x27] @ [CHR 0x27]"

definition buildElevatedCommand :: "string \<Rightarrow> string \<Rightarrow> string" where
  "buildElevatedCommand prefix command = prefix @ '' -- /bin/sh -c '' @ shellQuote command"

section \<open>The command-policy gate\<close>

record commandPolicyResult =
  cr_RequireApproval :: bool
  cr_MatchedRule :: string
  cr_Enforcement :: string
  cr_Warning :: string
  cr_WouldDeny :: bool
  cr_WouldRequireApproval :: bool

definition zero_result :: commandPolicyResult where
  "zero_result = \<lparr>cr_RequireApproval = False, cr_MatchedRule = '''', cr_Enforcement = '''',
     cr_Warning = '''', cr_WouldDeny = False, cr_WouldRequireApproval = False\<rparr>"

definition commandPolicyWarning :: "commandPolicyResult \<Rightarrow> string" where
  "commandPolicyWarning res =
     (let action =
        (if cr_WouldDeny res \<and> cr_WouldRequireApproval res then ''would deny and would require approval''
         else if cr_WouldDeny res then ''would deny''
         else if cr_WouldRequireApproval res then ''would require approval''
         else ''would allow'')
      in if cr_MatchedRule res \<noteq> ''''
         then ''command_policy audit: '' @ action @ '' ('' @ cr_MatchedRule res @ '')''
         else ''command_policy audit: '' @ action)"

text \<open>
  The head of \<open>resolveCommandPolicy\<close>: the set the command is decided on is the host's
  effective set, widened by its live grants when it already has an allowlist.
\<close>

definition inject_grants :: "PolicySet \<Rightarrow> PolicySet \<Rightarrow> PolicySet" where
  "inject_grants eff g =
     (if length g > 0
      then eff @ (if ps_Enforcement eff = CmdPolicyAudit
                  then map (\<lambda>p. p\<lparr>cp_Enforcement := CmdPolicyAudit\<rparr>) g else g)
      else eff)"

definition decision_set :: "HostPolicy \<Rightarrow> Intent \<Rightarrow> GrantProvider option \<Rightarrow> time \<Rightarrow> PolicySet" where
  "decision_set hp i grants now =
     (case grants of
        Some gp \<Rightarrow>
          if hasAllowlist (effectivePolicies hp)
          then inject_grants (effectivePolicies hp) (gp_GrantsFor gp (in_Host i) i now)
          else effectivePolicies hp
      | None \<Rightarrow> effectivePolicies hp)"

definition resolveCommandPolicy ::
    "regex_engine \<Rightarrow> sh_parser \<Rightarrow> HostPolicy \<Rightarrow> Intent \<Rightarrow> GrantProvider option \<Rightarrow> time \<Rightarrow>
     sign_error + commandPolicyResult" where
  "resolveCommandPolicy re sh hp i grants now =
     (let eff = decision_set hp i grants now;
          res = zero_result
      in
      if in_Role i \<noteq> RoleTarget \<or> \<not> ps_Restricts eff then Inr res
      else
        let res = res\<lparr>cr_Enforcement := ps_Enforcement eff\<rparr> in
        if in_Purpose i = PurposeSession \<and> in_SessionMode i \<noteq> SessionModeExec
        then Inl (SessionNotVerifiable (in_Host i))
        else if in_Purpose i = PurposeSession \<and> in_Command i = '''' then Inr res
        else
          (case Decide re sh eff (in_Command i) of
             (allowed, needsApproval, rule, cerr) \<Rightarrow>
               let res = res\<lparr>cr_MatchedRule := rule\<rparr> in
               (case cerr of
                  Some e \<Rightarrow>
                    if cr_Enforcement res = CmdPolicyAudit then
                      (let res = res\<lparr>cr_WouldDeny := True\<rparr>
                       in Inr (res\<lparr>cr_Warning := commandPolicyWarning res\<rparr>))
                    else Inl (CommandPolicyError (in_Host i) e)
                | None \<Rightarrow>
                    if \<not> allowed then
                      (if cr_Enforcement res = CmdPolicyAudit then
                         (let res = res\<lparr>cr_WouldDeny := True, cr_WouldRequireApproval := needsApproval\<rparr>
                          in Inr (res\<lparr>cr_Warning := commandPolicyWarning res\<rparr>))
                       else Inl (CommandNotAllowed (in_Host i) rule))
                    else if needsApproval \<and>
                            (case grants of
                               None \<Rightarrow> False
                             | Some gp \<Rightarrow> gp_WaiverMatches gp (in_Host i) i now)
                    then Inr (res\<lparr>cr_MatchedRule := ''approval-waived:'' @ rule\<rparr>)
                    else if needsApproval then
                      (if cr_Enforcement res = CmdPolicyAudit then
                         (let res = res\<lparr>cr_WouldRequireApproval := True\<rparr>
                          in Inr (res\<lparr>cr_Warning := commandPolicyWarning res\<rparr>))
                       else Inr (res\<lparr>cr_RequireApproval := True\<rparr>))
                    else Inr res)))"

section \<open>Constraints and resolution\<close>

definition key_id :: "Intent \<Rightarrow> string \<Rightarrow> time \<Rightarrow> string" where
  "key_id i elevationPrefix now =
     ''agent='' @ in_Caller i @ '' host='' @ in_Host i @ '' role='' @ in_Role i @
     '' t='' @ Itoa (now div second_ns) @
     (if in_EndUser i \<noteq> '''' then '' user='' @ in_EndUser i else []) @
     (if elevationPrefix \<noteq> '''' then '' elev='' @ elevationPrefix else []) @
     (if in_PTY i then '' pty=1'' else [])"

definition buildConstraints :: "HostPolicy \<Rightarrow> Intent \<Rightarrow> string \<Rightarrow> duration \<Rightarrow> time \<Rightarrow> Constraints" where
  "buildConstraints hp i elevationPrefix ttl now =
     \<lparr>c_Principal = hp_Principal hp, c_TTL = ttl, c_SourceAddress = hp_SourceAddress hp,
      c_ForceCommand = '''', c_AllowPortForwarding = (in_Role i = RoleBastion),
      c_AllowPTY = in_PTY i, c_KeyID = key_id i elevationPrefix now\<rparr>"

definition effective_ttl :: "HostPolicy \<Rightarrow> Intent \<Rightarrow> duration \<Rightarrow> duration" where
  "effective_ttl hp i defaultMaxTTL =
     (let maxTTL = (if hp_MaxTTL hp \<le> 0 then defaultMaxTTL else hp_MaxTTL hp);
          ttl = in_RequestedTTL i
      in if ttl \<le> 0 \<or> ttl > maxTTL then maxTTL else ttl)"

text \<open>The force-command, only for one-shot at the target.\<close>

definition add_force_command :: "Intent \<Rightarrow> string \<Rightarrow> Constraints \<Rightarrow> Constraints" where
  "add_force_command i elevationPrefix c =
     (if in_Purpose i = PurposeOneshot \<and> in_Role i = RoleTarget
      then c\<lparr>c_ForceCommand :=
        (if elevationPrefix \<noteq> '''' then buildElevatedCommand elevationPrefix (in_Command i)
         else in_Command i)\<rparr>
      else c)"

definition resolve ::
    "regex_engine \<Rightarrow> sh_parser \<Rightarrow> PolicyTable \<Rightarrow> Intent \<Rightarrow> duration \<Rightarrow> GrantProvider option \<Rightarrow> time \<Rightarrow>
     sign_error + Decision" where
  "resolve re sh p i defaultMaxTTL grants now =
     (case get p (in_Host i) of
        None \<Rightarrow> Inl (NoPolicyForHost (in_Host i))
      | Some hp \<Rightarrow>
     (case authorizeIntent hp i of
        Some e \<Rightarrow> Inl e
      | None \<Rightarrow>
     (case resolveElevation hp i of
        Inl e \<Rightarrow> Inl e
      | Inr elevationPrefix \<Rightarrow>
      if in_PTY i \<and> \<not> hp_AllowPTY hp then Inl (PTYNotAllowed (in_Host i))
      else if in_FileTransfer i \<and> \<not> hp_AllowFileTransfer hp then Inl (FileTransferNotAllowed (in_Host i))
      else
     (case resolveCommandPolicy re sh hp i grants now of
        Inl e \<Rightarrow> Inl e
      | Inr cp \<Rightarrow>
          let ttl = effective_ttl hp i defaultMaxTTL;
              c = add_force_command i elevationPrefix (buildConstraints hp i elevationPrefix ttl now);
              prefix = (if in_Purpose i = PurposeOneshot \<and> in_Role i = RoleTarget then ''''
                        else elevationPrefix)
          in Inr \<lparr>d_Constraints = c, d_ElevationPrefix = prefix,
               d_RequireApproval = cr_RequireApproval cp, d_MatchedRule = cr_MatchedRule cp,
               d_CommandPolicyEnforcement = cr_Enforcement cp, d_Warning = cr_Warning cp,
               d_WouldDeny = cr_WouldDeny cp,
               d_WouldRequireApproval = cr_WouldRequireApproval cp\<rparr>))))"

definition Resolve_file ::
    "regex_engine \<Rightarrow> sh_parser \<Rightarrow> PolicyTable \<Rightarrow> Intent \<Rightarrow> duration \<Rightarrow> time \<Rightarrow> sign_error + Decision" where
  "Resolve_file re sh p i defaultMaxTTL now = resolve re sh p i defaultMaxTTL None now"

section \<open>Group access of a caller\<close>

record CallerPolicy =
  AllowedGroups :: "string list"

type_synonym CallerTable = "(string, CallerPolicy) gomap"

abbreviation DefaultCallerKey :: string where "DefaultCallerKey \<equiv> ''_default''"

text \<open>\<open>(set, true)\<close> is \<open>Some\<close> of the set's elements, \<open>(nil, false)\<close> is \<open>None\<close>.\<close>

definition HostSetForCaller :: "string \<Rightarrow> PolicyTable \<Rightarrow> CallerTable \<Rightarrow> string list option" where
  "HostSetForCaller callerCN policy callers =
     (case (case get callers callerCN of
              Some cp \<Rightarrow> Some cp
            | None \<Rightarrow> get callers DefaultCallerKey) of
        None \<Rightarrow> None
      | Some cp \<Rightarrow>
          Some (map fst (filter (\<lambda>(hostName, hp).
            list_ex (\<lambda>g. g \<in> set (AllowedGroups cp)) (hp_Groups hp)) policy)))"

section \<open>Lemmas: authorisation\<close>

lemma callerAllowed_iff: "callerAllowed allowed caller \<longleftrightarrow> allowed = [] \<or> caller \<in> set allowed"
  by (auto simp: callerAllowed_def list_ex_iff)

lemma groupsIntersect_iff: "groupsIntersect hg ug \<longleftrightarrow> set hg \<inter> set ug \<noteq> {}"
  by (auto simp: groupsIntersect_def list_ex_iff)

lemma sudoUserAllowed_iff:
  "sudoUserAllowed allowed u \<longleftrightarrow> (if allowed = [] then u = ''root'' else u \<in> set allowed)"
  by (auto simp: sudoUserAllowed_def list_ex_iff)

lemma HasUnsafeTokenChar_no_space: "\<not> HasUnsafeTokenChar s \<Longrightarrow> CHR '' '' \<notin> set s"
  by (auto simp: HasUnsafeTokenChar_def ContainsAny_def list_ex_iff)

text \<open>Everything an intent has passed when no gate of \<open>authorizeIntent\<close> stopped it.\<close>

definition authorised :: "HostPolicy \<Rightarrow> Intent \<Rightarrow> bool" where
  "authorised hp i \<longleftrightarrow>
     in_Role i \<in> {RoleTarget, RoleBastion} \<and> in_Purpose i \<in> {PurposeOneshot, PurposeSession} \<and>
     \<not> HasUnsafeTokenChar (in_Caller i) \<and> \<not> HasUnsafeTokenChar (in_EndUser i) \<and>
     (in_Purpose i = PurposeOneshot \<or> ps_Restricts (effectivePolicies hp) \<longrightarrow>
        CHR 0x0A \<notin> set (in_Command i) \<and> CHR 0x0D \<notin> set (in_Command i)) \<and>
     (in_Purpose i = PurposeOneshot \<and> in_Role i = RoleTarget \<longrightarrow> \<not> TrimSpaceEmpty (in_Command i)) \<and>
     (hp_AllowedCallers hp = [] \<or> in_Caller i \<in> set (hp_AllowedCallers hp)) \<and>
     (\<forall>ug. in_EndUserGroups i = Some ug \<longrightarrow> set (hp_Groups hp) \<inter> set ug \<noteq> {}) \<and>
     (in_Role i = RoleBastion \<longrightarrow> hp_AllowAsBastion hp \<and> \<not> ps_Restricts (effectivePolicies hp))"

lemma authorizeIntent_iff: "authorizeIntent hp i = None \<longleftrightarrow> authorised hp i"
  by (auto simp: authorizeIntent_def authorised_def ContainsAny_def list_ex_iff callerAllowed_iff
      groupsIntersect_iff split: option.splits)

section \<open>Lemmas: elevation and quoting\<close>

lemma reValidUser_chars:
  "reValidUser u \<Longrightarrow> c \<in> set u \<Longrightarrow> user_char c \<or> c = CHR ''.'' \<or> c = CHR ''-''"
  by (cases u) (auto simp: list_all_iff)

lemma reValidUser_length: "reValidUser u \<Longrightarrow> 1 \<le> length u \<and> length u \<le> 32"
  by (cases u) auto

lemma reValidUser_clean:
  assumes "reValidUser u"
  shows "CHR '' '' \<notin> set u" and "CHR ''='' \<notin> set u" and "CHR 0x27 \<notin> set u"
  using reValidUser_chars [OF assms, of "CHR '' ''"] reValidUser_chars [OF assms, of "CHR ''=''"]
    reValidUser_chars [OF assms, of "CHR 0x27"]
  by (auto simp: user_char_def byte_def Let_def)

lemma resolveElevation_Inr:
  assumes "resolveElevation hp i = Inr prefix"
  shows "prefix = '''' \<and> (in_Sudo i \<longrightarrow> in_Role i \<noteq> RoleTarget) \<or>
     in_Sudo i \<and> in_Role i = RoleTarget \<and> hp_AllowSudo hp \<and>
     (\<exists>u. reValidUser u \<and> sudoUserAllowed (hp_AllowedSudoUsers hp) u \<and>
          u = (if in_SudoUser i = '''' then ''root'' else in_SudoUser i) \<and>
          prefix = (if u = ''root'' then ''sudo -n'' else ''sudo -n -u '' @ u))"
  using assms by (auto simp: resolveElevation_def Let_def split: if_splits)

text \<open>
  Reference semantics of a POSIX shell word made of single-quoted pieces and backslash-quoted
  characters: the word's value and the rest of the input. A quote that is not closed or a
  backslash at the end gives no word; a blank or an operator character outside quotes ends it.
\<close>

definition sh_meta :: "char set" where
  "sh_meta = {CHR '' '', CHR 0x09, CHR 0x0A, CHR ''|'', CHR ''&'', CHR '';'', CHR ''<'', CHR ''>'',
     CHR ''('', CHR '')'', CHR ''$'', CHR 0x60, CHR 0x22}"

fun sh_word :: "bool \<Rightarrow> string \<Rightarrow> (string \<times> string) option" where
  "sh_word False [] = Some ([], [])"
| "sh_word True [] = None"
| "sh_word True (c # cs) =
     (if c = CHR 0x27 then sh_word False cs
      else map_option (\<lambda>(w, rest). (c # w, rest)) (sh_word True cs))"
| "sh_word False (c # cs) =
     (if c = CHR 0x27 then sh_word True cs
      else if c = CHR 0x5C then
        (case cs of
           [] \<Rightarrow> None
         | d # ds \<Rightarrow> map_option (\<lambda>(w, rest). (d # w, rest)) (sh_word False ds))
      else if c \<in> sh_meta then Some ([], c # cs)
      else map_option (\<lambda>(w, rest). (c # w, rest)) (sh_word False cs))"

lemma ReplaceAll1_simps [simp]:
  "ReplaceAll1 [] old new = []"
  "ReplaceAll1 (c # cs) old new = (if c = old then new else [c]) @ ReplaceAll1 cs old new"
  by (simp_all add: ReplaceAll1_def)

lemma sh_word_quoted:
  "sh_word True (ReplaceAll1 s (CHR 0x27) [CHR 0x27, CHR 0x5C, CHR 0x27, CHR 0x27] @ [CHR 0x27] @ rest) =
     map_option (\<lambda>(w, r). (s @ w, r)) (sh_word False rest)"
  by (induction s) (auto simp: option.map_comp comp_def case_prod_unfold option.map_ident)

lemma shellQuote_word: "sh_word False (shellQuote s) = Some (s, [])"
  using sh_word_quoted [of s "[]"] by (simp add: shellQuote_def)

section \<open>Lemmas: grants on the decision path\<close>

lemma inject_grants_append:
  assumes "\<forall>g\<in>set gs. allow_only g"
  shows "\<exists>gs'. inject_grants eff gs = eff @ gs' \<and> (\<forall>g\<in>set gs'. allow_only g) \<and>
     (ps_Enforcement eff = CmdPolicyAudit \<longrightarrow> (\<forall>g\<in>set gs'. cp_Enforcement g = CmdPolicyAudit)) \<and>
     map cp_Allow gs' = map cp_Allow gs"
proof (cases "ps_Enforcement eff = CmdPolicyAudit")
  case True
  let ?gs = "map (\<lambda>p. p\<lparr>cp_Enforcement := CmdPolicyAudit\<rparr>) gs"
  have "inject_grants eff gs = eff @ ?gs" using True by (simp add: inject_grants_def)
  moreover have "\<forall>g\<in>set ?gs. allow_only g" using assms by (auto simp: allow_only_def)
  ultimately show ?thesis by (intro exI [of _ ?gs]) (auto simp: comp_def)
next
  case False
  have "inject_grants eff gs = eff @ gs" using False by (simp add: inject_grants_def)
  with assms False show ?thesis by blast
qed

lemma ps_Enforcement_widen:
  assumes "ps_Restricts eff"
    and "ps_Enforcement eff = CmdPolicyAudit \<longrightarrow> (\<forall>g\<in>set gs. cp_Enforcement g = CmdPolicyAudit)"
  shows "ps_Enforcement (eff @ gs) = ps_Enforcement eff"
proof (cases "ps_Enforcement eff = CmdPolicyAudit")
  case True
  with assms have "ps_Enforcement (eff @ gs) = CmdPolicyAudit"
    by (auto simp: ps_Enforcement_audit_iff)
  with True show ?thesis by simp
next
  case False
  with assms(1) have "ps_Enforcement (eff @ gs) \<noteq> CmdPolicyAudit"
    by (auto simp: ps_Enforcement_audit_iff)
  with False show ?thesis
    using ps_Enforcement_cases [of eff] ps_Enforcement_cases [of "eff @ gs"] by auto
qed

text \<open>How the set the command is decided on relates to the host's own policies.\<close>

definition provider_ok :: "GrantProvider option \<Rightarrow> bool" where
  "provider_ok grants \<longleftrightarrow>
     (\<forall>gp host i now. grants = Some gp \<longrightarrow> (\<forall>p\<in>set (gp_GrantsFor gp host i now). allow_only p))"

lemma provider_ok_None [simp]: "provider_ok None"
  by (simp add: provider_ok_def)

lemma provider_ok_store [simp]: "provider_ok (Some (store_provider s))"
  by (auto simp: provider_ok_def store_provider_def GrantsFor_allow_only)

lemma decision_set_append:
  assumes "provider_ok grants"
  obtains gs where "decision_set hp i grants now = effectivePolicies hp @ gs"
    and "\<forall>g\<in>set gs. allow_only g"
    and "gs \<noteq> [] \<Longrightarrow> hasAllowlist (effectivePolicies hp)"
    and "ps_Enforcement (effectivePolicies hp) = CmdPolicyAudit \<Longrightarrow>
           \<forall>g\<in>set gs. cp_Enforcement g = CmdPolicyAudit"
proof (cases "grants = None \<or> \<not> hasAllowlist (effectivePolicies hp)")
  case True
  then have "decision_set hp i grants now = effectivePolicies hp @ []"
    by (auto simp: decision_set_def split: option.splits)
  with that [of "[]"] show thesis by simp
next
  case False
  then obtain gp where gp: "grants = Some gp" and al: "hasAllowlist (effectivePolicies hp)" by auto
  with assms have "\<forall>g\<in>set (gp_GrantsFor gp (in_Host i) i now). allow_only g"
    by (auto simp: provider_ok_def)
  from inject_grants_append [OF this, of "effectivePolicies hp"] gp al that show thesis
    by (auto simp: decision_set_def)
qed

lemma decision_set_facts:
  assumes "provider_ok grants"
  shows "ps_Restricts (decision_set hp i grants now) = ps_Restricts (effectivePolicies hp)"
    and "ps_Enforcement (decision_set hp i grants now) = ps_Enforcement (effectivePolicies hp)"
    and "hasAllowlist (decision_set hp i grants now) = hasAllowlist (effectivePolicies hp)"
    and "spec_denied re (decision_set hp i grants now) c = spec_denied re (effectivePolicies hp) c"
    and "spec_needs_approval re (decision_set hp i grants now) c =
           spec_needs_approval re (effectivePolicies hp) c"
    and "segments sh (decision_set hp i grants now) cmd = segments sh (effectivePolicies hp) cmd"
proof -
  from decision_set_append [OF assms] obtain gs
    where ds: "decision_set hp i grants now = effectivePolicies hp @ gs"
      and gs: "\<forall>g\<in>set gs. allow_only g"
      and al: "gs \<noteq> [] \<Longrightarrow> hasAllowlist (effectivePolicies hp)"
      and au: "ps_Enforcement (effectivePolicies hp) = CmdPolicyAudit \<Longrightarrow>
           \<forall>g\<in>set gs. cp_Enforcement g = CmdPolicyAudit"
    by metis
  show "ps_Restricts (decision_set hp i grants now) = ps_Restricts (effectivePolicies hp)"
    using ds al hasAllowlist_Restricts by (cases "gs = []") auto
  show "ps_Enforcement (decision_set hp i grants now) = ps_Enforcement (effectivePolicies hp)"
    using ds al au hasAllowlist_Restricts by (cases "gs = []") (auto intro!: ps_Enforcement_widen)
  show "hasAllowlist (decision_set hp i grants now) = hasAllowlist (effectivePolicies hp)"
    using ds al by (cases "gs = []") auto
  show "spec_denied re (decision_set hp i grants now) c = spec_denied re (effectivePolicies hp) c"
    using ds spec_widen(1) [OF gs] by simp
  show "spec_needs_approval re (decision_set hp i grants now) c =
      spec_needs_approval re (effectivePolicies hp) c"
    using ds spec_widen(2) [OF gs] by simp
  show "segments sh (decision_set hp i grants now) cmd = segments sh (effectivePolicies hp) cmd"
    using ds shellParse_widen [OF gs] by (simp add: segments_def)
qed

section \<open>Lemmas: the command-policy gate\<close>

definition waived :: "GrantProvider option \<Rightarrow> Intent \<Rightarrow> time \<Rightarrow> bool" where
  "waived grants i now \<longleftrightarrow> (\<exists>gp. grants = Some gp \<and> gp_WaiverMatches gp (in_Host i) i now)"

lemma resolveCommandPolicy_enforced:
  assumes ok: "resolveCommandPolicy re sh hp i grants now = Inr cr"
    and prov: "provider_ok grants"
    and target: "in_Role i = RoleTarget" and cmd: "in_Command i \<noteq> ''''"
    and restr: "ps_Restricts (effectivePolicies hp)"
    and enf: "ps_Enforcement (effectivePolicies hp) \<noteq> CmdPolicyAudit"
  shows "\<exists>cmds. segments sh (effectivePolicies hp) (in_Command i) = Inr cmds \<and>
     (\<forall>c\<in>set cmds. spec_allowed re (decision_set hp i grants now) c) \<and>
     ((\<exists>c\<in>set cmds. spec_needs_approval re (effectivePolicies hp) c) \<longrightarrow>
        cr_RequireApproval cr \<or> waived grants i now)"
proof -
  let ?ds = "decision_set hp i grants now"
  note ds = decision_set_facts [OF prov, where hp = hp and i = i and now = now]
  obtain a n r e where D: "Decide re sh ?ds (in_Command i) = (a, n, r, e)"
    by (cases "Decide re sh ?ds (in_Command i)")
  from ok D target cmd restr enf ds have a: "a"
    and appr: "n \<longrightarrow> cr_RequireApproval cr \<or> waived grants i now"
    unfolding resolveCommandPolicy_def waived_def
    by (auto simp: Let_def split: if_splits option.splits)
  from ds(1) restr have "?ds \<noteq> []" using ps_Restricts_nonempty by blast
  with D a Decide_sound [of re sh ?ds "in_Command i" n r e] ds(5,6) appr
  show ?thesis by auto
qed

lemma resolveCommandPolicy_session:
  assumes "resolveCommandPolicy re sh hp i grants now = Inr cr" and "provider_ok grants"
    and "in_Role i = RoleTarget" and "in_Purpose i = PurposeSession"
    and "ps_Restricts (effectivePolicies hp)"
  shows "in_SessionMode i = SessionModeExec"
  using assms decision_set_facts(1) [OF assms(2), where hp = hp and i = i and now = now]
  unfolding resolveCommandPolicy_def
  by (auto simp: Let_def split: if_splits)

text \<open>In audit mode the gate never denies a one-shot command and never asks for approval.\<close>

lemma resolveCommandPolicy_audit:
  assumes "provider_ok grants" and "in_Purpose i = PurposeOneshot"
    and "ps_Enforcement (effectivePolicies hp) = CmdPolicyAudit"
  shows "\<exists>cr. resolveCommandPolicy re sh hp i grants now = Inr cr \<and> \<not> cr_RequireApproval cr"
  using assms(2,3) decision_set_facts(1,2) [OF assms(1), where hp = hp and i = i and now = now]
  unfolding resolveCommandPolicy_def
  by (auto simp: Let_def zero_result_def split: prod.splits option.splits)

lemma resolveCommandPolicy_unrestricted:
  assumes "provider_ok grants" and "\<not> ps_Restricts (effectivePolicies hp)"
  shows "resolveCommandPolicy re sh hp i grants now = Inr zero_result"
  using assms(2) decision_set_facts(1) [OF assms(1), where hp = hp and i = i and now = now]
  unfolding resolveCommandPolicy_def by (auto simp: Let_def)

section \<open>Lemmas: resolution\<close>

text \<open>What a successful resolution rests on.\<close>

lemma resolve_Inr:
  assumes "resolve re sh p i dttl grants now = Inr d"
  obtains hp prefix cr where
    "get p (in_Host i) = Some hp" and "authorised hp i"
    and "resolveElevation hp i = Inr prefix"
    and "in_PTY i \<longrightarrow> hp_AllowPTY hp" and "in_FileTransfer i \<longrightarrow> hp_AllowFileTransfer hp"
    and "resolveCommandPolicy re sh hp i grants now = Inr cr"
    and "d_Constraints d =
      add_force_command i prefix (buildConstraints hp i prefix (effective_ttl hp i dttl) now)"
    and "d_ElevationPrefix d =
      (if in_Purpose i = PurposeOneshot \<and> in_Role i = RoleTarget then '''' else prefix)"
    and "d_RequireApproval d = cr_RequireApproval cr"
proof -
  from assms obtain hp where hp: "get p (in_Host i) = Some hp"
    by (auto simp: resolve_def split: option.splits)
  with assms have au: "authorizeIntent hp i = None"
    by (auto simp: resolve_def split: option.splits)
  with assms hp obtain prefix where el: "resolveElevation hp i = Inr prefix"
    by (auto simp: resolve_def split: sum.splits)
  with assms hp au obtain cr where cr: "resolveCommandPolicy re sh hp i grants now = Inr cr"
    by (auto simp: resolve_def split: sum.splits if_splits)
  show thesis
    using that [OF hp _ el _ _ cr] assms hp au el cr
    by (auto simp: resolve_def Let_def authorizeIntent_iff split: if_splits)
qed

lemma effective_ttl_cap:
  "effective_ttl hp i dttl \<le> (if hp_MaxTTL hp \<le> 0 then dttl else hp_MaxTTL hp)"
  by (auto simp: effective_ttl_def Let_def)

lemma effective_ttl_requested:
  "0 < in_RequestedTTL i \<Longrightarrow> 0 < dttl \<Longrightarrow> effective_ttl hp i dttl \<le> in_RequestedTTL i"
  by (auto simp: effective_ttl_def Let_def)

section \<open>Lemmas: the key id\<close>

lemma Split1_chunk:
  "CHR '' '' \<notin> set a \<Longrightarrow> Split1 (CHR '' '') (a @ CHR '' '' # b) = a # Split1 (CHR '' '') b"
  by (rule Split1_append)

lemma key_id_tokens:
  assumes "CHR '' '' \<notin> set (in_Caller i)" and "CHR '' '' \<notin> set (in_Host i)"
    and "CHR '' '' \<notin> set (in_Role i)" and "CHR '' '' \<notin> set (in_EndUser i)"
  shows "Split1 (CHR '' '') (key_id i prefix now) =
     [''agent='' @ in_Caller i, ''host='' @ in_Host i, ''role='' @ in_Role i,
      ''t='' @ Itoa (now div second_ns)] @
     (if in_EndUser i \<noteq> '''' then [''user='' @ in_EndUser i] else []) @
     (if prefix \<noteq> '''' then Split1 (CHR '' '') (''elev='' @ prefix) else []) @
     (if in_PTY i then [''pty=1''] else [])"
proof -
  note chunk = Split1_chunk Split1_nosep
  have pty: "Split1 (CHR '' '') (w @ (if in_PTY i then '' pty=1'' else [])) =
      Split1 (CHR '' '') w @ (if in_PTY i then [''pty=1''] else [])" for w
    by (induction w) (auto split: list.splits)
  have elev: "Split1 (CHR '' '') (a @ (if prefix \<noteq> '''' then '' elev='' @ prefix else []) @
        (if in_PTY i then '' pty=1'' else [])) =
      [a] @ (if prefix \<noteq> '''' then Split1 (CHR '' '') (''elev='' @ prefix) else []) @
        (if in_PTY i then [''pty=1''] else [])" if "CHR '' '' \<notin> set a" for a
    using that pty [of "a @ (if prefix \<noteq> '''' then '' elev='' @ prefix else [])"]
    by (cases "prefix = ''''") (simp_all add: chunk)
  have user: "Split1 (CHR '' '') (a @ (if in_EndUser i \<noteq> '''' then '' user='' @ in_EndUser i else []) @
        (if prefix \<noteq> '''' then '' elev='' @ prefix else []) @
        (if in_PTY i then '' pty=1'' else [])) =
      [a] @ (if in_EndUser i \<noteq> '''' then [''user='' @ in_EndUser i] else []) @
        (if prefix \<noteq> '''' then Split1 (CHR '' '') (''elev='' @ prefix) else []) @
        (if in_PTY i then [''pty=1''] else [])" if "CHR '' '' \<notin> set a" for a
    using that elev [of a] elev [of "''user='' @ in_EndUser i"] assms(4)
    by (cases "in_EndUser i = ''''") (simp_all add: chunk)
  show ?thesis
    using assms user [of "''t='' @ Itoa (now div second_ns)"] Itoa_no_space
      Split1_chunk [of "''agent='' @ in_Caller i"] Split1_chunk [of "''host='' @ in_Host i"]
      Split1_chunk [of "''role='' @ in_Role i"]
    by (simp add: key_id_def)
qed

section \<open>Lemmas: compilation\<close>

lemma compile_host_Inr:
  assumes "compile_host re hosts lib gp name hp = Inr hp'"
  shows "hp' = hp\<lparr>hp_Policies := composePolicies hp lib gp\<rparr> \<and>
     (hp_Jump hp \<noteq> '''' \<longrightarrow> get hosts (hp_Jump hp) \<noteq> None) \<and> hp_MaxTTLSeconds hp \<le> 900 \<and>
     cp_Validate re (hp_CommandPolicy hp) = None \<and>
     \<not> (hp_AllowAsBastion hp \<and> ps_Restricts (case composePolicies hp lib gp of None \<Rightarrow> [] | Some ps \<Rightarrow> ps))"
  using assms by (auto simp: compile_host_def Let_def split: if_splits option.splits)

lemma compile_hosts_Inr:
  "compile_hosts re hosts lib gp todo out = Inr table \<Longrightarrow> map_ok todo \<Longrightarrow>
     (\<forall>name. get table name =
        (case get todo name of
           None \<Rightarrow> get out name
         | Some hp \<Rightarrow> (case compile_host re hosts lib gp name hp of Inr hp' \<Rightarrow> Some hp' | Inl _ \<Rightarrow> None))) \<and>
     (\<forall>(name, hp)\<in>set todo. \<exists>hp'. compile_host re hosts lib gp name hp = Inr hp')"
proof (induction todo arbitrary: out)
  case Nil
  then show ?case by simp
next
  case (Cons t todo)
  obtain name hp where t: "t = (name, hp)" by (cases t)
  from Cons.prems t obtain hp' where hp': "compile_host re hosts lib gp name hp = Inr hp'"
    and rest: "compile_hosts re hosts lib gp todo (put name hp' out) = Inr table"
    by (auto split: sum.splits)
  from Cons.prems(2) t have ok: "map_ok todo" and new: "get todo name = None"
    by (auto simp: map_ok_def map_of_eq_None_iff)
  from Cons.IH [OF rest ok] new hp' t show ?case
    by (auto split: option.splits)
qed

lemma check_library_None:
  "check_library re lib = None \<longleftrightarrow> (\<forall>(n, cp)\<in>set lib. cp_Validate re cp = None)"
  by (induction lib) (auto split: option.splits)

lemma add_policies_seen:
  "add_policies lib names (seen, ps) = (seen', ps') \<Longrightarrow>
     set seen' = set seen \<union> {n \<in> set names. get lib n \<noteq> None} \<and>
     (set ps = {cp. \<exists>n\<in>set seen. get lib n = Some cp} \<longrightarrow>
      set ps' = {cp. \<exists>n\<in>set seen'. get lib n = Some cp})"
proof (induction lib names "(seen, ps)" arbitrary: seen ps rule: add_policies.induct)
  case (1 lib seen ps)
  then show ?case by auto
next
  case (2 lib n names seen ps)
  show ?case
  proof (cases "n \<in> set seen")
    case True
    with 2(1) [OF True] 2(4) show ?thesis by auto
  next
    case False
    show ?thesis
    proof (cases "get lib n")
      case None
      then have rec: "add_policies lib names (seen, ps) = (seen', ps')"
        using 2(4) False by simp
      have "{m \<in> set (n # names). get lib m \<noteq> None} = {m \<in> set names. get lib m \<noteq> None}"
        using None by auto
      then show ?thesis using 2(2) [OF False None rec] by simp
    next
      case (Some cp)
      then have rec: "add_policies lib names (n # seen, ps @ [cp]) = (seen', ps')"
        using 2(4) False by simp
      have "set ps = {cp. \<exists>n\<in>set seen. get lib n = Some cp} \<longrightarrow>
          set (ps @ [cp]) = {cp. \<exists>m\<in>set (n # seen). get lib m = Some cp}"
        using Some by auto
      moreover have "set (n # seen) \<union> {m \<in> set names. get lib m \<noteq> None} =
          set seen \<union> {m \<in> set (n # names). get lib m \<noteq> None}"
        using Some by auto
      ultimately show ?thesis using 2(3) [OF False Some rec] by metis
    qed
  qed
qed

lemma fold_add_policies:
  "fold (\<lambda>g acc. add_policies lib (group_names gp g) acc) gs (seen, ps) = (seen', ps') \<Longrightarrow>
     set ps = {cp. \<exists>n\<in>set seen. get lib n = Some cp} \<Longrightarrow>
     set seen' = set seen \<union> {n. \<exists>g\<in>set gs. n \<in> set (group_names gp g) \<and> get lib n \<noteq> None} \<and>
     set ps' = {cp. \<exists>n\<in>set seen'. get lib n = Some cp}"
proof (induction gs arbitrary: seen ps)
  case Nil
  then show ?case by simp
next
  case (Cons g gs)
  obtain s1 p1 where a: "add_policies lib (group_names gp g) (seen, ps) = (s1, p1)"
    by (cases "add_policies lib (group_names gp g) (seen, ps)")
  from add_policies_seen [OF a] Cons.prems(2)
  have s1: "set s1 = set seen \<union> {n \<in> set (group_names gp g). get lib n \<noteq> None}"
    and p1: "set p1 = {cp. \<exists>n\<in>set s1. get lib n = Some cp}" by auto
  from Cons.prems(1) a have "fold (\<lambda>g acc. add_policies lib (group_names gp g) acc) gs (s1, p1) = (seen', ps')"
    by simp
  from Cons.IH [OF this p1] s1 show ?case by auto
qed

text \<open>The composed set, as a set: the library policies of \<open>_default\<close> and of the host's groups,
  and the inline policy when it restricts.\<close>

lemma composePolicies_set:
  "set (case composePolicies hp lib gp of None \<Rightarrow> [] | Some ps \<Rightarrow> ps) =
     {cp. \<exists>g n. g \<in> insert ''_default'' (set (hp_Groups hp)) \<and> n \<in> set (group_names gp g) \<and>
               get lib n = Some cp} \<union>
     (if cp_Restricts (hp_CommandPolicy hp) then {hp_CommandPolicy hp} else {})"
proof -
  obtain s1 p1 where a: "add_policies lib (group_names gp ''_default'') ([], []) = (s1, p1)"
    by (cases "add_policies lib (group_names gp ''_default'') ([], [])")
  obtain s2 p2 where f: "fold (\<lambda>g acc. add_policies lib (group_names gp g) acc) (hp_Groups hp) (s1, p1) = (s2, p2)"
    by (cases "fold (\<lambda>g acc. add_policies lib (group_names gp g) acc) (hp_Groups hp) (s1, p1)")
  from add_policies_seen [OF a]
  have s1: "set s1 = {n \<in> set (group_names gp ''_default''). get lib n \<noteq> None}"
    and p1: "set p1 = {cp. \<exists>n\<in>set s1. get lib n = Some cp}" by auto
  from fold_add_policies [OF f p1] s1
  have p2: "set p2 = {cp. \<exists>g n. g \<in> insert ''_default'' (set (hp_Groups hp)) \<and>
      n \<in> set (group_names gp g) \<and> get lib n = Some cp}"
    by auto
  have "set (case composePolicies hp lib gp of None \<Rightarrow> [] | Some ps \<Rightarrow> ps) =
      set p2 \<union> (if cp_Restricts (hp_CommandPolicy hp) then {hp_CommandPolicy hp} else {})"
    by (auto simp: composePolicies_def Let_def a f)
  with p2 show ?thesis by simp
qed

section \<open>Properties\<close>

text \<open>
  Grants on the decision path, for the store: what the command gate answers with the store's
  grants where it answers without them.
\<close>

lemma resolveCommandPolicy_widen:
  assumes "resolveCommandPolicy re sh hp i None now = Inr cr"
    and enf: "ps_Enforcement (effectivePolicies hp) \<noteq> CmdPolicyAudit"
  shows "\<exists>cr'. resolveCommandPolicy re sh hp i (Some (store_provider s)) now = Inr cr' \<and>
     (cr_RequireApproval cr' \<longrightarrow> cr_RequireApproval cr)"
proof -
  let ?eff = "effectivePolicies hp"
  let ?gr = "Some (store_provider s)"
  let ?ds = "decision_set hp i ?gr now"
  note f = decision_set_facts(1,2) [OF provider_ok_store, where hp = hp and i = i and now = now and s1 = s]
  have none: "decision_set hp i None now = ?eff" by (simp add: decision_set_def)
  obtain gs where ds: "?ds = ?eff @ gs" and gs: "\<forall>g\<in>set gs. allow_only g"
    and al: "gs \<noteq> [] \<Longrightarrow> hasAllowlist ?eff"
    by (rule decision_set_append [OF provider_ok_store]) blast
  have keep: "Decide re sh ?ds c = Decide re sh ?eff c" if "fst (Decide re sh ?eff c)" for c
    using ds gs al Decide_widen [OF gs _ that] by (cases "gs = []") auto
  obtain a n r e where D: "Decide re sh ?eff (in_Command i) = (a, n, r, e)"
    by (cases "Decide re sh ?eff (in_Command i)")
  show ?thesis
  proof (cases "in_Role i \<noteq> RoleTarget \<or> \<not> ps_Restricts ?eff \<or>
      in_Purpose i = PurposeSession \<and> (in_SessionMode i \<noteq> SessionModeExec \<or> in_Command i = '''')")
    case True
    with assms none f show ?thesis
      by (auto simp: resolveCommandPolicy_def Let_def zero_result_def split: if_splits)
  next
    case False
    with assms(1) none D enf have "e = None" and "a"
      and "n \<longrightarrow> cr_RequireApproval cr"
      by (auto simp: resolveCommandPolicy_def Let_def zero_result_def split: if_splits option.splits)
    with False keep [of "in_Command i"] D f enf show ?thesis
      by (auto simp: resolveCommandPolicy_def Let_def zero_result_def)
  qed
qed

text \<open>
  Grants only widen. On a host whose policies are enforced, a request that is granted
  without the grant store is granted with it, with the same certificate constraints, and needs
  approval only if it did before. (The other direction, that a grant never lifts a denial of
  the denylists, is part of the firewall property of the signer.)
\<close>

theorem grants_only_widen:
  assumes "resolve re sh p i dttl None now = Inr d"
    and "\<forall>hp. get p (in_Host i) = Some hp \<longrightarrow> ps_Enforcement (effectivePolicies hp) \<noteq> CmdPolicyAudit"
  shows "\<exists>d'. resolve re sh p i dttl (Some (store_provider s)) now = Inr d' \<and>
     d_Constraints d' = d_Constraints d \<and> d_ElevationPrefix d' = d_ElevationPrefix d \<and>
     (d_RequireApproval d' \<longrightarrow> d_RequireApproval d)"
proof -
  from assms(1) obtain hp prefix cr where hp: "get p (in_Host i) = Some hp"
    and au: "authorised hp i" and el: "resolveElevation hp i = Inr prefix"
    and fl: "in_PTY i \<longrightarrow> hp_AllowPTY hp" "in_FileTransfer i \<longrightarrow> hp_AllowFileTransfer hp"
    and cr: "resolveCommandPolicy re sh hp i None now = Inr cr"
    and d: "d_Constraints d =
        add_force_command i prefix (buildConstraints hp i prefix (effective_ttl hp i dttl) now)"
      "d_ElevationPrefix d =
        (if in_Purpose i = PurposeOneshot \<and> in_Role i = RoleTarget then '''' else prefix)"
      "d_RequireApproval d = cr_RequireApproval cr"
    by (rule resolve_Inr)
  from assms(2) hp have "ps_Enforcement (effectivePolicies hp) \<noteq> CmdPolicyAudit" by blast
  from resolveCommandPolicy_widen [OF cr this, of s] obtain cr'
    where "resolveCommandPolicy re sh hp i (Some (store_provider s)) now = Inr cr'"
      and "cr_RequireApproval cr' \<longrightarrow> cr_RequireApproval cr" by blast
  moreover from au have "authorizeIntent hp i = None" by (simp add: authorizeIntent_iff)
  ultimately show ?thesis
    using hp el fl d by (auto simp: resolve_def Let_def)
qed

lemma sample_resolve:
  "case resolve sample_engine sample_sh [(''web01'', sample_host)] sample_intent 60000000000 None 5 of
     Inl e \<Rightarrow> False
   | Inr d \<Rightarrow> c_ForceCommand (d_Constraints d) = ''sudo -n -- /bin/sh -c '' @ shellQuote ''uptime''"
  by code_simp

theorem grants_only_widen_witness:
  "\<exists>d'. resolve sample_engine sample_sh [(''web01'', sample_host)] sample_intent 60000000000
     (Some (store_provider [(''g1'', sample_grant)])) 5 = Inr d'"
proof -
  have enf: "ps_Enforcement (effectivePolicies sample_host) = CmdPolicyEnforce"
    by (simp add: ps_Enforcement_def effectivePolicies_def sample_defs cp_Restricts_def cp_Active_def)
  obtain d where
    d: "resolve sample_engine sample_sh [(''web01'', sample_host)] sample_intent 60000000000 None 5 = Inr d"
    using sample_resolve by (auto split: sum.splits)
  have "\<forall>hp. get [(''web01'', sample_host)] (in_Host sample_intent) = Some hp \<longrightarrow>
      ps_Enforcement (effectivePolicies hp) \<noteq> CmdPolicyAudit"
    using enf by simp
  from grants_only_widen [OF d this, of "[(''g1'', sample_grant)]"] show ?thesis by blast
qed

lemma CompileHostPolicies_get:
  assumes "CompileHostPolicies re hosts lib gp = Inr table" and "map_ok hosts"
  shows "get table name = map_option (\<lambda>hp. hp\<lparr>hp_Policies := composePolicies hp lib gp\<rparr>) (get hosts name)"
    and "get hosts name = Some hp \<Longrightarrow> \<exists>hp'. compile_host re hosts lib gp name hp = Inr hp'"
proof -
  from assms(1) have "compile_hosts re hosts lib gp hosts [] = Inr table"
    by (auto simp: CompileHostPolicies_def split: option.splits)
  note all = compile_hosts_Inr [OF this assms(2)]
  show one: "\<exists>hp'. compile_host re hosts lib gp name hp = Inr hp'" if "get hosts name = Some hp" for hp
    using all get_in_set [OF that] by fast
  show "get table name = map_option (\<lambda>hp. hp\<lparr>hp_Policies := composePolicies hp lib gp\<rparr>) (get hosts name)"
    using all one compile_host_Inr [of re hosts lib gp name] by (auto split: option.splits sum.splits)
qed

lemma effectivePolicies_composed:
  "effectivePolicies (hp\<lparr>hp_Policies := composePolicies hp lib gp\<rparr>) =
     (case composePolicies hp lib gp of None \<Rightarrow> [] | Some ps \<Rightarrow> ps)"
proof (cases "composePolicies hp lib gp")
  case None
  then have "\<not> cp_Restricts (hp_CommandPolicy hp)"
    by (auto simp: composePolicies_def Let_def split: if_splits)
  with None show ?thesis by (simp add: effectivePolicies_def)
qed (simp add: effectivePolicies_def)

text \<open>
  A compiled table is sound. When \<open>CompileHostPolicies\<close> accepts a configuration, the
  result has exactly the configured hosts; each keeps its configured fields, with the composed
  policies set to the library policies of \<open>_default\<close> and of its groups plus its own policy when
  that restricts; every one of those policies validates; every jump host is configured; no
  per-host lifetime exceeds 900 s; and no host is both a bastion and under a command policy.
\<close>

theorem CompileHostPolicies_sound:
  assumes "CompileHostPolicies re hosts lib gp = Inr table" and "map_ok hosts"
  shows "(\<forall>name. get table name =
        map_option (\<lambda>hp. hp\<lparr>hp_Policies := composePolicies hp lib gp\<rparr>) (get hosts name)) \<and>
     (\<forall>name hp. get table name = Some hp \<longrightarrow>
        (hp_Jump hp \<noteq> '''' \<longrightarrow> get table (hp_Jump hp) \<noteq> None) \<and> hp_MaxTTLSeconds hp \<le> 900 \<and>
        (\<forall>cp\<in>set (case hp_Policies hp of None \<Rightarrow> [] | Some ps \<Rightarrow> ps). cp_Validate re cp = None) \<and>
        \<not> (hp_AllowAsBastion hp \<and> ps_Restricts (effectivePolicies hp)))"
proof -
  from assms(1) have lib: "check_library re lib = None"
    by (auto simp: CompileHostPolicies_def split: option.splits)
  note tab = CompileHostPolicies_get(1) [OF assms] and one = CompileHostPolicies_get(2) [OF assms]
  have val: "cp_Validate re cp = None"
    if h: "get hosts name = Some hp"
      and cp: "cp \<in> set (case composePolicies hp lib gp of None \<Rightarrow> [] | Some ps \<Rightarrow> ps)"
    for name hp cp
  proof -
    obtain hp' where "compile_host re hosts lib gp name hp = Inr hp'" using one [OF h] by blast
    from compile_host_Inr [OF this] have "cp_Validate re (hp_CommandPolicy hp) = None" by simp
    moreover have "cp_Validate re c = None" if "get lib n = Some c" for n c
      using lib get_in_set [OF that] by (auto simp: check_library_None)
    ultimately show ?thesis
      using cp by (auto simp: composePolicies_set split: if_splits)
  qed
  have "(hp_Jump hp \<noteq> '''' \<longrightarrow> get table (hp_Jump hp) \<noteq> None) \<and> hp_MaxTTLSeconds hp \<le> 900 \<and>
        (\<forall>cp\<in>set (case hp_Policies hp of None \<Rightarrow> [] | Some ps \<Rightarrow> ps). cp_Validate re cp = None) \<and>
        \<not> (hp_AllowAsBastion hp \<and> ps_Restricts (effectivePolicies hp))"
    if "get table name = Some hp" for name hp
  proof -
    from that tab obtain h where h: "get hosts name = Some h"
      and hp: "hp = h\<lparr>hp_Policies := composePolicies h lib gp\<rparr>" by auto
    obtain hp' where "compile_host re hosts lib gp name h = Inr hp'" using one [OF h] by blast
    from compile_host_Inr [OF this] hp effectivePolicies_composed [of h lib gp] val [OF h] tab show ?thesis by auto
  qed
  with tab show ?thesis by blast
qed

theorem CompileHostPolicies_sound_witness:
  "\<exists>table. CompileHostPolicies sample_engine [(''web01'', sample_host)] [] [] = Inr table \<and>
     get table ''web01'' = Some (sample_host\<lparr>hp_Policies := Some [sample_policy]\<rparr>)"
proof -
  have c: "CompileHostPolicies sample_engine [(''web01'', sample_host)] [] [] =
      Inr [(''web01'', sample_host\<lparr>hp_Policies := Some [sample_policy]\<rparr>)]"
    by (simp add: CompileHostPolicies_def compile_host_def composePolicies_def group_names_def
        cp_Validate_def cp_Restricts_def cp_Active_def sample_defs)
  have m: "map_ok [(''web01'', sample_host)]" by (simp add: map_ok_def)
  from CompileHostPolicies_sound [OF c m] show ?thesis
    using c by (simp add: sample_defs)
qed

text \<open>
  Quoting is a round trip. The last argument of the elevated command line, read back as a
  POSIX shell word, is exactly the requested command, whatever bytes it has: the command
  cannot escape the quotes of \<open>/bin/sh -c\<close>.
\<close>

theorem elevated_command_roundtrip:
  "\<exists>q. buildElevatedCommand prefix cmd = prefix @ '' -- /bin/sh -c '' @ q \<and> sh_word False q = Some (cmd, [])"
  using shellQuote_word by (auto simp: buildElevatedCommand_def)

text \<open>
  Elevation is authorised. A decision elevates (its force-command or its prefix starts
  with \<open>sudo\<close>) only as the request asked and the host allows: sudo is enabled on the host, the
  target user is well-formed and allowed (only root when the host lists none), and the prefix
  names exactly that user.
\<close>

theorem elevation_authorised:
  assumes "resolve re sh p i dttl grants now = Inr d"
    and "d_ElevationPrefix d \<noteq> '''' \<or>
      in_Purpose i = PurposeOneshot \<and> in_Role i = RoleTarget \<and> c_ForceCommand (d_Constraints d) \<noteq> in_Command i"
  shows "\<exists>hp u. get p (in_Host i) = Some hp \<and> in_Sudo i \<and> in_Role i = RoleTarget \<and> hp_AllowSudo hp \<and>
     u = (if in_SudoUser i = '''' then ''root'' else in_SudoUser i) \<and>
     (if hp_AllowedSudoUsers hp = [] then u = ''root'' else u \<in> set (hp_AllowedSudoUsers hp)) \<and>
     length u \<le> 32 \<and> CHR '' '' \<notin> set u \<and>
     (let prefix = (if u = ''root'' then ''sudo -n'' else ''sudo -n -u '' @ u) in
        if in_Purpose i = PurposeOneshot
        then c_ForceCommand (d_Constraints d) = buildElevatedCommand prefix (in_Command i)
        else d_ElevationPrefix d = prefix)"
proof -
  from assms(1) obtain hp prefix where hp: "get p (in_Host i) = Some hp"
    and el: "resolveElevation hp i = Inr prefix"
    and d: "d_Constraints d =
        add_force_command i prefix (buildConstraints hp i prefix (effective_ttl hp i dttl) now)"
      "d_ElevationPrefix d =
        (if in_Purpose i = PurposeOneshot \<and> in_Role i = RoleTarget then '''' else prefix)"
    by (rule resolve_Inr)
  have "prefix \<noteq> ''''"
  proof
    assume no: "prefix = ''''"
    then have "d_ElevationPrefix d = ''''" using d(2) by simp
    moreover have "c_ForceCommand (d_Constraints d) = in_Command i"
      if "in_Purpose i = PurposeOneshot \<and> in_Role i = RoleTarget"
      using that no unfolding d(1) add_force_command_def by simp
    ultimately show False using assms(2) by blast
  qed
  with resolveElevation_Inr [OF el] obtain u
    where u: "in_Sudo i" "in_Role i = RoleTarget" "hp_AllowSudo hp" "reValidUser u"
      "sudoUserAllowed (hp_AllowedSudoUsers hp) u"
      "u = (if in_SudoUser i = '''' then ''root'' else in_SudoUser i)"
      "prefix = (if u = ''root'' then ''sudo -n'' else ''sudo -n -u '' @ u)"
    by auto
  from u(4) have "length u \<le> 32" and "CHR '' '' \<notin> set u"
    using reValidUser_length reValidUser_clean by auto
  moreover have "if in_Purpose i = PurposeOneshot
        then c_ForceCommand (d_Constraints d) = buildElevatedCommand prefix (in_Command i)
        else d_ElevationPrefix d = prefix"
    using d u(2) \<open>prefix \<noteq> ''''\<close> by (auto simp: add_force_command_def)
  moreover from u(5) have "if hp_AllowedSudoUsers hp = [] then u = ''root'' else u \<in> set (hp_AllowedSudoUsers hp)"
    by (simp add: sudoUserAllowed_iff)
  ultimately have "get p (in_Host i) = Some hp \<and> in_Sudo i \<and> in_Role i = RoleTarget \<and> hp_AllowSudo hp \<and>
     u = (if in_SudoUser i = '''' then ''root'' else in_SudoUser i) \<and>
     (if hp_AllowedSudoUsers hp = [] then u = ''root'' else u \<in> set (hp_AllowedSudoUsers hp)) \<and>
     length u \<le> 32 \<and> CHR '' '' \<notin> set u \<and>
     (if in_Purpose i = PurposeOneshot
        then c_ForceCommand (d_Constraints d) = buildElevatedCommand prefix (in_Command i)
        else d_ElevationPrefix d = prefix)"
    using hp u(1-3,6) by (intro conjI)
  then show ?thesis
    unfolding u(7) Let_def by (intro exI)
qed

theorem elevation_authorised_witness:
  "\<exists>d. resolve sample_engine sample_sh [(''web01'', sample_host)] sample_intent 60000000000 None 5 = Inr d \<and>
     c_ForceCommand (d_Constraints d) = buildElevatedCommand ''sudo -n'' ''uptime''"
proof -
  obtain d where
    d: "resolve sample_engine sample_sh [(''web01'', sample_host)] sample_intent 60000000000 None 5 = Inr d"
    and fc: "c_ForceCommand (d_Constraints d) = ''sudo -n -- /bin/sh -c '' @ shellQuote ''uptime''"
    using sample_resolve by (auto split: sum.splits)
  from elevation_authorised [OF d] fc d show ?thesis
    by (auto simp: sample_intent_def Let_def)
qed

text \<open>
  Group access. When a caller has a group list (its own entry, or the default entry),
  the hosts it may see are exactly the configured hosts that share a group with it; when it
  has none there is no group restriction.
\<close>

theorem HostSetForCaller_exact:
  "case (if get callers cn \<noteq> None then get callers cn else get callers DefaultCallerKey) of
     None \<Rightarrow> HostSetForCaller cn policy callers = None
   | Some cp \<Rightarrow> \<exists>hosts. HostSetForCaller cn policy callers = Some hosts \<and>
       set hosts = {name. \<exists>hp. (name, hp) \<in> set policy \<and> set (hp_Groups hp) \<inter> set (AllowedGroups cp) \<noteq> {}}"
  by (auto simp: HostSetForCaller_def list_ex_iff split: option.splits) force+

end
