(* ===== verification/Local_Signer.thy ===== *)
theory Local_Signer
  imports Resolve "HOL-Library.Word"
begin

text \<open>
  Certificate construction, \<open>src/internal/ca/sign.go\<close>, and the in-process signer \<open>Local\<close> of
  \<open>src/internal/signer/signer.go\<close> that resolves an intent and signs.

  A CA key is named by a string. What signing needs from outside the code is the record
  \<open>sign_env\<close>: the clock, the random serial, whether the context is cancelled and
  \<open>ssh.Certificate.SignCert\<close> (\<open>None\<close> is a failure of the signer behind the key).
\<close>

section \<open>Certificates\<close>

type_synonym CAKey = string

record Certificate =
  cert_Key :: PublicKey
  cert_Serial :: "64 word"
  cert_KeyId :: string
  cert_ValidPrincipals :: "string list"
  cert_ValidAfter :: "64 word"
  cert_ValidBefore :: "64 word"
  cert_CriticalOptions :: "(string, string) gomap"
  cert_Extensions :: "(string, string) gomap"
  cert_SignatureKey :: CAKey

record sign_env =
  env_now :: time
  env_cancelled :: bool
  env_serial :: "64 word option"
  env_SignCert :: "CAKey \<Rightarrow> Certificate \<Rightarrow> bool"

definition unix :: "time \<Rightarrow> 64 word" where
  "unix t = word_of_int (t div second_ns)"

definition BuildAndSign ::
    "sign_env \<Rightarrow> CAKey \<Rightarrow> PublicKey \<Rightarrow> Constraints \<Rightarrow> sign_error + Certificate \<times> 64 word" where
  "BuildAndSign env caKey pub c =
     (if c_Principal c = '''' then Inl PrincipalRequired
      else if c_TTL c \<le> 0 \<or> c_TTL c > 15 * minute_ns then Inl (TTLOutOfRange (c_TTL c))
      else if env_cancelled env then Inl SigningCancelled
      else case env_serial env of
        None \<Rightarrow> Inl RandomSerialFailed
      | Some serial \<Rightarrow>
          let cert =
            \<lparr>cert_Key = pub, cert_Serial = serial, cert_KeyId = c_KeyID c,
             cert_ValidPrincipals = [c_Principal c],
             cert_ValidAfter = unix (env_now env - 30 * second_ns),
             cert_ValidBefore = unix (env_now env + c_TTL c),
             cert_CriticalOptions =
               (if c_ForceCommand c \<noteq> '''' then put ''force-command'' (c_ForceCommand c) else (\<lambda>m. m))
               ((if c_SourceAddress c \<noteq> '''' then put ''source-address'' (c_SourceAddress c) else (\<lambda>m. m))
               []),
             cert_Extensions =
               (if c_AllowPTY c then put ''permit-pty'' '''' else (\<lambda>m. m))
               ((if c_AllowPortForwarding c then put ''permit-port-forwarding'' '''' else (\<lambda>m. m))
               []),
             cert_SignatureKey = caKey\<rparr>
          in if env_SignCert env caKey cert then Inr (cert, serial) else Inl SigningFailed)"

section \<open>The in-process signer\<close>

record Issued =
  is_Certificate :: "Certificate option"
  is_Serial :: "64 word"
  is_ElevationPrefix :: string
  is_Decision :: "DecisionInfo option"

record Local =
  l_defaultCA :: CAKey
  l_groupCAs :: "(string, CAKey) gomap"
  l_policy :: PolicyTable
  l_defaultTTL :: duration
  l_grants :: "GrantProvider option"

definition NewLocal :: "CAKey \<Rightarrow> PolicyTable \<Rightarrow> duration \<Rightarrow> Local" where
  "NewLocal caKey policy defaultTTL =
     \<lparr>l_defaultCA = caKey, l_groupCAs = [], l_policy = policy, l_defaultTTL = defaultTTL,
      l_grants = None\<rparr>"

definition NewLocalWithGrants ::
    "CAKey \<Rightarrow> (string, CAKey) gomap \<Rightarrow> PolicyTable \<Rightarrow> duration \<Rightarrow> GrantProvider option \<Rightarrow> Local" where
  "NewLocalWithGrants defaultCA groupCAs policy defaultTTL grants =
     \<lparr>l_defaultCA = defaultCA, l_groupCAs = groupCAs, l_policy = policy,
      l_defaultTTL = defaultTTL, l_grants = grants\<rparr>"

definition NewLocalWithGroupCAs ::
    "CAKey \<Rightarrow> (string, CAKey) gomap \<Rightarrow> PolicyTable \<Rightarrow> duration \<Rightarrow> Local" where
  "NewLocalWithGroupCAs defaultCA groupCAs policy defaultTTL =
     NewLocalWithGrants defaultCA groupCAs policy defaultTTL None"

definition HostAllowlistActive :: "Local \<Rightarrow> string \<Rightarrow> bool \<times> bool" where
  "HostAllowlistActive l host =
     (case get (l_policy l) host of
        None \<Rightarrow> (False, False)
      | Some hp \<Rightarrow> (True, hasAllowlist (effectivePolicies hp)))"

fun first_group_ca :: "(string, CAKey) gomap \<Rightarrow> string list \<Rightarrow> CAKey option" where
  "first_group_ca cas [] = None"
| "first_group_ca cas (g # gs) =
     (case get cas g of Some ca \<Rightarrow> Some ca | None \<Rightarrow> first_group_ca cas gs)"

definition caKeyFor :: "Local \<Rightarrow> HostPolicy \<Rightarrow> CAKey" where
  "caKeyFor l hp =
     (case first_group_ca (l_groupCAs l) (hp_Groups hp) of
        Some ca \<Rightarrow> ca
      | None \<Rightarrow> l_defaultCA l)"

definition decisionInfo :: "Decision \<Rightarrow> bool \<Rightarrow> DecisionInfo" where
  "decisionInfo d allowed =
     \<lparr>di_Allowed = allowed, di_Reason = None, di_RequireApproval = d_RequireApproval d,
      di_MatchedRule = d_MatchedRule d, di_ForceCommand = c_ForceCommand (d_Constraints d),
      di_TTLSeconds = quot (c_TTL (d_Constraints d)) second_ns,
      di_Elevation = d_ElevationPrefix d, di_Enforcement = d_CommandPolicyEnforcement d,
      di_Warning = d_Warning d, di_WouldDeny = d_WouldDeny d,
      di_WouldRequireApproval = d_WouldRequireApproval d\<rparr>"

text \<open>\<open>DecisionInfo{Allowed: false, Reason: err.Error()}\<close>\<close>

definition denied_info :: "sign_error \<Rightarrow> DecisionInfo" where
  "denied_info e =
     \<lparr>di_Allowed = False, di_Reason = Some e, di_RequireApproval = False, di_MatchedRule = '''',
      di_ForceCommand = '''', di_TTLSeconds = 0, di_Elevation = '''', di_Enforcement = '''',
      di_Warning = '''', di_WouldDeny = False, di_WouldRequireApproval = False\<rparr>"

text \<open>An \<open>Issued\<close> that only carries a decision.\<close>

definition decision_only :: "DecisionInfo option \<Rightarrow> Issued" where
  "decision_only di =
     \<lparr>is_Certificate = None, is_Serial = 0, is_ElevationPrefix = '''', is_Decision = di\<rparr>"

definition SignIntent ::
    "regex_engine \<Rightarrow> sh_parser \<Rightarrow> sign_env \<Rightarrow> Local \<Rightarrow> Intent \<Rightarrow> sign_error + Issued" where
  "SignIntent re sh env l i =
     (let d = resolve re sh (l_policy l) i (l_defaultTTL l) (l_grants l) (env_now env) in
      if in_DryRun i then
        (case d of
           Inl e \<Rightarrow> Inr (decision_only (Some (denied_info e)))
         | Inr dec \<Rightarrow> Inr (decision_only (Some (decisionInfo dec True))))
      else case d of
        Inl e \<Rightarrow> Inl e
      | Inr dec \<Rightarrow>
          if d_RequireApproval dec \<and> \<not> in_Approved i
          then Inr (decision_only (Some (decisionInfo dec True)))
          else
            (case get (l_policy l) (in_Host i) of
               None \<Rightarrow> Inl (NoPolicyForHost (in_Host i))
             | Some hp \<Rightarrow>
                 (case BuildAndSign env (caKeyFor l hp) (in_PublicKey i) (d_Constraints dec) of
                    Inl e \<Rightarrow> Inl e
                  | Inr (cert, serial) \<Rightarrow>
                      Inr \<lparr>is_Certificate = Some cert, is_Serial = serial,
                           is_ElevationPrefix = d_ElevationPrefix dec,
                           is_Decision = Some (decisionInfo dec True)\<rparr>)))"

section \<open>Lemmas: construction of a certificate\<close>

lemma BuildAndSign_Inr:
  assumes "BuildAndSign env caKey pub c = Inr (cert, serial)"
  shows "c_Principal c \<noteq> ''''" and "0 < c_TTL c" and "c_TTL c \<le> 15 * minute_ns"
    and "cert_Key cert = pub" and "cert_Serial cert = serial" and "cert_KeyId cert = c_KeyID c"
    and "cert_ValidPrincipals cert = [c_Principal c]" and "cert_SignatureKey cert = caKey"
    and "cert_ValidAfter cert = unix (env_now env - 30 * second_ns)"
    and "cert_ValidBefore cert = unix (env_now env + c_TTL c)"
    and "get (cert_CriticalOptions cert) ''force-command'' =
           (if c_ForceCommand c = '''' then None else Some (c_ForceCommand c))"
    and "get (cert_CriticalOptions cert) ''source-address'' =
           (if c_SourceAddress c = '''' then None else Some (c_SourceAddress c))"
    and "fst ` set (cert_Extensions cert) =
           (if c_AllowPortForwarding c then {''permit-port-forwarding''} else {}) \<union>
           (if c_AllowPTY c then {''permit-pty''} else {})"
  using assms by (auto simp: BuildAndSign_def Let_def split: if_splits option.splits)

lemma BuildAndSign_maps:
  assumes "BuildAndSign env caKey pub c = Inr (cert, serial)"
  shows "get (cert_CriticalOptions cert) k =
      (if k = ''force-command'' \<and> c_ForceCommand c \<noteq> '''' then Some (c_ForceCommand c)
       else if k = ''source-address'' \<and> c_SourceAddress c \<noteq> '''' then Some (c_SourceAddress c)
       else None)"
    and "get (cert_Extensions cert) k =
      (if k = ''permit-port-forwarding'' \<and> c_AllowPortForwarding c \<or> k = ''permit-pty'' \<and> c_AllowPTY c
       then Some '''' else None)"
  using assms by (auto simp: BuildAndSign_def Let_def split: if_splits option.splits)

lemma unix_uint:
  assumes "0 \<le> t" and "t < 2 ^ 63"
  shows "uint (unix t) = t div second_ns"
proof -
  have "0 \<le> t div second_ns" and "t div second_ns \<le> t"
    using assms by (simp_all add: second_ns_def)
  with assms have "t div second_ns < 2 ^ 64" by simp
  with \<open>0 \<le> t div second_ns\<close> show ?thesis
    unfolding unix_def by (simp add: uint_word_of_int)
qed

section \<open>Lemmas: the in-process signer\<close>

lemma SignIntent_cert:
  assumes "SignIntent re sh env l i = Inr iss" and "is_Certificate iss = Some cert"
  obtains d hp where "resolve re sh (l_policy l) i (l_defaultTTL l) (l_grants l) (env_now env) = Inr d"
    and "get (l_policy l) (in_Host i) = Some hp" and "\<not> in_DryRun i"
    and "d_RequireApproval d \<longrightarrow> in_Approved i"
    and "BuildAndSign env (caKeyFor l hp) (in_PublicKey i) (d_Constraints d) = Inr (cert, is_Serial iss)"
    and "is_ElevationPrefix iss = d_ElevationPrefix d"
    and "is_Decision iss = Some (decisionInfo d True)"
  using assms
  by (auto simp: SignIntent_def Let_def decision_only_def
      split: if_splits sum.splits option.splits prod.splits)

lemma SignIntent_dry_run:
  assumes "in_DryRun i"
  shows "\<exists>di. SignIntent re sh env l i = Inr (decision_only (Some di)) \<and>
     (di_Allowed di \<longleftrightarrow>
       (\<exists>d. resolve re sh (l_policy l) i (l_defaultTTL l) (l_grants l) (env_now env) = Inr d))"
  using assms
  by (auto simp: SignIntent_def Let_def decisionInfo_def denied_info_def split: sum.splits)

lemma first_group_ca_None: "first_group_ca cas gs = None \<longleftrightarrow> (\<forall>g\<in>set gs. get cas g = None)"
  by (induction gs) (auto split: option.splits)

lemma first_group_ca_first:
  "first_group_ca cas gs =
     (case dropWhile (\<lambda>g. get cas g = None) gs of [] \<Rightarrow> None | g # _ \<Rightarrow> get cas g)"
  by (induction gs) (auto split: option.splits)

text \<open>The constraints a certificate for \<open>i\<close> on \<open>hp\<close> is built from, field by field.\<close>

definition request_constraints :: "Local \<Rightarrow> HostPolicy \<Rightarrow> Intent \<Rightarrow> string \<Rightarrow> time \<Rightarrow> Constraints" where
  "request_constraints l hp i prefix now =
     add_force_command i prefix
       (buildConstraints hp i prefix (effective_ttl hp i (l_defaultTTL l)) now)"

lemma request_constraints_sel [simp]:
  "c_Principal (request_constraints l hp i prefix now) = hp_Principal hp"
  "c_TTL (request_constraints l hp i prefix now) = effective_ttl hp i (l_defaultTTL l)"
  "c_SourceAddress (request_constraints l hp i prefix now) = hp_SourceAddress hp"
  "c_AllowPortForwarding (request_constraints l hp i prefix now) = (in_Role i = RoleBastion)"
  "c_AllowPTY (request_constraints l hp i prefix now) = in_PTY i"
  "c_KeyID (request_constraints l hp i prefix now) = key_id i prefix now"
  "c_ForceCommand (request_constraints l hp i prefix now) =
     (if in_Purpose i = PurposeOneshot \<and> in_Role i = RoleTarget
      then (if prefix \<noteq> '''' then buildElevatedCommand prefix (in_Command i) else in_Command i)
      else '''')"
  by (simp_all add: request_constraints_def add_force_command_def buildConstraints_def)

text \<open>What an issued certificate rests on, in terms of its host's policy.\<close>

lemma SignIntent_host:
  assumes "SignIntent re sh env l i = Inr iss" and "is_Certificate iss = Some cert"
  obtains hp prefix cr where "get (l_policy l) (in_Host i) = Some hp"
    and "\<not> in_DryRun i" and "authorised hp i" and "resolveElevation hp i = Inr prefix"
    and "resolveCommandPolicy re sh hp i (l_grants l) (env_now env) = Inr cr"
    and "cr_RequireApproval cr \<longrightarrow> in_Approved i"
    and "in_PTY i \<longrightarrow> hp_AllowPTY hp" and "in_FileTransfer i \<longrightarrow> hp_AllowFileTransfer hp"
    and "BuildAndSign env (caKeyFor l hp) (in_PublicKey i)
           (request_constraints l hp i prefix (env_now env)) = Inr (cert, is_Serial iss)"
proof (rule SignIntent_cert [OF assms])
  fix d hp
  assume res: "resolve re sh (l_policy l) i (l_defaultTTL l) (l_grants l) (env_now env) = Inr d"
    and hp: "get (l_policy l) (in_Host i) = Some hp" and dry: "\<not> in_DryRun i"
    and ap: "d_RequireApproval d \<longrightarrow> in_Approved i"
    and bs: "BuildAndSign env (caKeyFor l hp) (in_PublicKey i) (d_Constraints d) = Inr (cert, is_Serial iss)"
  show thesis
  proof (rule resolve_Inr [OF res])
    fix hp' prefix cr
    assume r: "get (l_policy l) (in_Host i) = Some hp'" "authorised hp' i"
      "resolveElevation hp' i = Inr prefix" "in_PTY i \<longrightarrow> hp_AllowPTY hp'"
      "in_FileTransfer i \<longrightarrow> hp_AllowFileTransfer hp'"
      "resolveCommandPolicy re sh hp' i (l_grants l) (env_now env) = Inr cr"
      "d_Constraints d = add_force_command i prefix
        (buildConstraints hp' i prefix (effective_ttl hp' i (l_defaultTTL l)) (env_now env))"
      "d_RequireApproval d = cr_RequireApproval cr"
    then have "hp' = hp" using hp by simp
    with r ap bs hp dry show thesis
      using that [of hp prefix cr] by (simp add: request_constraints_def)
  qed
qed

section \<open>A sample issuance\<close>

definition sample_env :: sign_env where
  "sample_env = \<lparr>env_now = 1700000000000000000, env_cancelled = False, env_serial = Some 7,
     env_SignCert = (\<lambda>_ _. True)\<rparr>"

definition sample_local :: Local where
  "sample_local = NewLocalWithGrants ''ca'' [(''prod'', ''ca-prod'')] [(''web01'', sample_host)]
     300000000000 (Some (store_provider []))"

lemma sample_authorised: "authorised sample_host sample_intent"
  by (simp add: authorised_def sample_defs HasUnsafeTokenChar_def hasControlChar_def ContainsAny_def
      byte_def TrimSpaceEmpty_def TrimLeftSpace.simps space_at_def)

lemma sample_elevation: "resolveElevation sample_host sample_intent = Inr ''sudo -n''"
  by (simp add: resolveElevation_def sample_defs user_char_def byte_def sudoUserAllowed_def)

lemma sample_gate:
  "resolveCommandPolicy sample_engine sample_sh sample_host sample_intent
     (Some (store_provider [])) now = Inr (zero_result\<lparr>cr_Enforcement := CmdPolicyEnforce, cr_MatchedRule := ''allow:uptime''\<rparr>)"
  by (simp add: resolveCommandPolicy_def decision_set_def inject_grants_def effectivePolicies_def
      sample_defs store_provider_def GrantsFor_def hasAllowlist_def ps_Restricts_def cp_Restricts_def
      cp_Active_def ps_Enforcement_def Decide_def shellParse_def decideOne_def)


text \<open>The certificate the sample request gets, and the result that carries it.\<close>

definition sample_cert :: Certificate where
  "sample_cert = \<lparr>cert_Key = ''pk'', cert_Serial = 7,
     cert_KeyId = key_id sample_intent ''sudo -n'' (env_now sample_env),
     cert_ValidPrincipals = [''host:web01''],
     cert_ValidAfter = unix (1700000000000000000 - 30000000000),
     cert_ValidBefore = unix (1700000000000000000 + 60000000000),
     cert_CriticalOptions = [(''source-address'', ''10.0.0.1''),
       (''force-command'', buildElevatedCommand ''sudo -n'' ''uptime'')],
     cert_Extensions = [], cert_SignatureKey = ''ca-prod''\<rparr>"

definition sample_issued :: Issued where
  "sample_issued = \<lparr>is_Certificate = Some sample_cert, is_Serial = 7, is_ElevationPrefix = [],
     is_Decision = Some \<lparr>di_Allowed = True, di_Reason = None, di_RequireApproval = False,
       di_MatchedRule = ''allow:uptime'',
       di_ForceCommand = buildElevatedCommand ''sudo -n'' ''uptime'', di_TTLSeconds = 60,
       di_Elevation = [], di_Enforcement = CmdPolicyEnforce, di_Warning = [], di_WouldDeny = False,
       di_WouldRequireApproval = False\<rparr>\<rparr>"

lemma sample_constraints:
  "request_constraints sample_local sample_host sample_intent ''sudo -n'' (env_now sample_env) =
     \<lparr>c_Principal = ''host:web01'', c_TTL = 60000000000, c_SourceAddress = ''10.0.0.1'',
      c_ForceCommand = buildElevatedCommand ''sudo -n'' ''uptime'', c_AllowPortForwarding = False,
      c_AllowPTY = False, c_KeyID = key_id sample_intent ''sudo -n'' (env_now sample_env)\<rparr>"
  by (simp add: request_constraints_def add_force_command_def buildConstraints_def
      sample_local_def NewLocalWithGrants_def effective_ttl_def sample_host_def sample_intent_def)

lemma sample_BuildAndSign:
  "BuildAndSign sample_env ''ca-prod'' ''pk''
     (request_constraints sample_local sample_host sample_intent ''sudo -n'' (env_now sample_env)) =
   Inr (sample_cert, 7)"
  unfolding sample_constraints
  by (simp add: BuildAndSign_def sample_env_def sample_cert_def minute_ns_def second_ns_def
      buildElevatedCommand_def)

lemma sample_SignIntent:
  "SignIntent sample_engine sample_sh sample_env sample_local sample_intent = Inr sample_issued"
proof -
  have host: "get (l_policy sample_local) (in_Host sample_intent) = Some sample_host"
    and gr: "l_grants sample_local = Some (store_provider [])"
    and i: "in_PTY sample_intent = False" "in_FileTransfer sample_intent = False"
      "in_DryRun sample_intent = False" "in_Purpose sample_intent = PurposeOneshot"
      "in_Role sample_intent = RoleTarget" "in_PublicKey sample_intent = ''pk''"
    by (simp_all add: sample_local_def NewLocalWithGrants_def sample_intent_def)
  have ca: "caKeyFor sample_local sample_host = ''ca-prod''"
    by (simp add: caKeyFor_def sample_local_def NewLocalWithGrants_def sample_host_def)
  have res: "resolve sample_engine sample_sh (l_policy sample_local) sample_intent
      (l_defaultTTL sample_local) (l_grants sample_local) (env_now sample_env) =
    Inr \<lparr>d_Constraints = request_constraints sample_local sample_host sample_intent ''sudo -n'' (env_now sample_env),
      d_ElevationPrefix = [], d_RequireApproval = False, d_MatchedRule = ''allow:uptime'',
      d_CommandPolicyEnforcement = CmdPolicyEnforce, d_Warning = [], d_WouldDeny = False,
      d_WouldRequireApproval = False\<rparr>"
    using sample_authorised sample_elevation host gr i
    by (simp add: resolve_def authorizeIntent_iff [symmetric] sample_gate zero_result_def
        request_constraints_def)
  show ?thesis
    using sample_BuildAndSign
    by (simp add: SignIntent_def res host i ca decisionInfo_def sample_issued_def
        sample_constraints quot_def second_ns_def)
qed

lemma sample_certificate: "is_Certificate sample_issued = Some sample_cert"
  by (simp add: sample_issued_def)

section \<open>Properties\<close>

text \<open>
  C1: a certificate is issued only for an authorised request. Whenever \<open>SignIntent\<close> returns a
  certificate, the request was not a dry run, its host is in the policy table, every gate of
  the host was passed (role, purpose, identity characters, newline, empty command, caller
  list, end-user groups, bastion rules, elevation, PTY, file transfer), and the certificate is
  exactly the one that request may have: the requested key, that host's principal, the CA of
  that host, a \<open>force-command\<close> option with the (elevated) command for a one-shot target and for
  nothing else, a \<open>source-address\<close> option if and only if the host has one, no other critical
  option, \<open>permit-port-forwarding\<close> for the bastion role only, \<open>permit-pty\<close> for a PTY request
  only, and no other extension.
\<close>

theorem issued_certificate_authorised:
  assumes "SignIntent re sh env l i = Inr iss" and "is_Certificate iss = Some cert"
  shows "\<exists>hp prefix. get (l_policy l) (in_Host i) = Some hp \<and> \<not> in_DryRun i \<and> authorised hp i \<and>
     resolveElevation hp i = Inr prefix \<and>
     (in_PTY i \<longrightarrow> hp_AllowPTY hp) \<and> (in_FileTransfer i \<longrightarrow> hp_AllowFileTransfer hp) \<and>
     cert_Key cert = in_PublicKey i \<and> cert_ValidPrincipals cert = [hp_Principal hp] \<and>
     cert_SignatureKey cert = caKeyFor l hp \<and>
     (\<forall>k. get (cert_CriticalOptions cert) k =
        (if k = ''force-command'' \<and> in_Purpose i = PurposeOneshot \<and> in_Role i = RoleTarget
         then Some (if prefix = '''' then in_Command i else buildElevatedCommand prefix (in_Command i))
         else if k = ''source-address'' \<and> hp_SourceAddress hp \<noteq> '''' then Some (hp_SourceAddress hp)
         else None)) \<and>
     (\<forall>k. get (cert_Extensions cert) k =
        (if k = ''permit-port-forwarding'' \<and> in_Role i = RoleBastion \<or> k = ''permit-pty'' \<and> in_PTY i
         then Some '''' else None))"
proof (rule SignIntent_host [OF assms])
  fix hp prefix cr
  assume hp: "get (l_policy l) (in_Host i) = Some hp" "\<not> in_DryRun i" "authorised hp i"
    "resolveElevation hp i = Inr prefix"
    "in_PTY i \<longrightarrow> hp_AllowPTY hp" "in_FileTransfer i \<longrightarrow> hp_AllowFileTransfer hp"
    and bs: "BuildAndSign env (caKeyFor l hp) (in_PublicKey i)
      (request_constraints l hp i prefix (env_now env)) = Inr (cert, is_Serial iss)"
  from hp(3) have "in_Purpose i = PurposeOneshot \<and> in_Role i = RoleTarget \<longrightarrow> in_Command i \<noteq> ''''"
    by (auto simp: authorised_def)
  then have opts: "\<forall>k. get (cert_CriticalOptions cert) k =
        (if k = ''force-command'' \<and> in_Purpose i = PurposeOneshot \<and> in_Role i = RoleTarget
         then Some (if prefix = '''' then in_Command i else buildElevatedCommand prefix (in_Command i))
         else if k = ''source-address'' \<and> hp_SourceAddress hp \<noteq> '''' then Some (hp_SourceAddress hp)
         else None)"
    by (auto simp: BuildAndSign_maps(1) [OF bs] buildElevatedCommand_def)
  show ?thesis
    using hp opts BuildAndSign_Inr(4,7,8) [OF bs] BuildAndSign_maps(2) [OF bs]
    by (intro exI [of _ hp] exI [of _ prefix]) simp
qed


theorem issued_certificate_authorised_witness:
  "\<exists>hp. get (l_policy sample_local) (in_Host sample_intent) = Some hp \<and>
     \<not> in_DryRun sample_intent \<and> authorised hp sample_intent \<and>
     cert_ValidPrincipals sample_cert = [hp_Principal hp] \<and>
     cert_SignatureKey sample_cert = caKeyFor sample_local hp \<and>
     (\<forall>k. get (cert_Extensions sample_cert) k =
        (if k = ''permit-port-forwarding'' \<and> in_Role sample_intent = RoleBastion \<or>
            k = ''permit-pty'' \<and> in_PTY sample_intent then Some '''' else None))"
  using issued_certificate_authorised [OF sample_SignIntent sample_certificate] by blast

text \<open>
  C2: the firewall is authoritative for one-shot. If the signer with its grant store issues a
  one-shot target certificate on a host whose effective policy restricts and enforces, then
  the command line decomposed, no simple command of it matches a deny rule of the host, and
  with an allowlist every simple command matches an allow rule of the host or of a live grant.
\<close>

theorem issued_command_passed_firewall:
  assumes "SignIntent re sh env l i = Inr iss" and "is_Certificate iss = Some cert"
    and "l_grants l = Some (store_provider s)" and "get (l_policy l) (in_Host i) = Some hp"
    and "in_Role i = RoleTarget" and "in_Purpose i = PurposeOneshot"
    and "ps_Restricts (effectivePolicies hp)"
    and "ps_Enforcement (effectivePolicies hp) = CmdPolicyEnforce"
  shows "\<exists>cmds. segments sh (effectivePolicies hp) (in_Command i) = Inr cmds \<and>
     (\<forall>c\<in>set cmds. \<not> spec_denied re (effectivePolicies hp) c \<and>
        (hasAllowlist (effectivePolicies hp) \<longrightarrow>
           spec_allowlisted re (effectivePolicies hp @ GrantsFor s (in_Host i) i (env_now env)) c))"
proof (rule SignIntent_host [OF assms(1,2)])
  fix hp' prefix cr
  assume "get (l_policy l) (in_Host i) = Some hp'" and "authorised hp' i"
    and "resolveCommandPolicy re sh hp' i (l_grants l) (env_now env) = Inr cr"
  then have au: "authorised hp i"
    and cr: "resolveCommandPolicy re sh hp i (l_grants l) (env_now env) = Inr cr"
    using assms(4) by simp_all
  let ?ds = "decision_set hp i (l_grants l) (env_now env)"
  have prov: "provider_ok (l_grants l)" by (simp add: assms(3))
  from au assms(5,6) have "\<not> TrimSpaceEmpty (in_Command i)" by (simp add: authorised_def)
  then have "in_Command i \<noteq> ''''" by auto
  from resolveCommandPolicy_enforced [OF cr prov assms(5) this assms(7)] assms(8)
  obtain cmds where "segments sh (effectivePolicies hp) (in_Command i) = Inr cmds"
    and ok: "\<forall>c\<in>set cmds. spec_allowed re ?ds c" by auto
  moreover have "hasAllowlist (effectivePolicies hp) \<Longrightarrow>
      ?ds = effectivePolicies hp @ GrantsFor s (in_Host i) i (env_now env)"
    using assms(3,8) by (simp add: decision_set_def inject_grants_def store_provider_def)
  moreover have "hasAllowlist (effectivePolicies hp) \<Longrightarrow> hasAllowlist ?ds"
    using decision_set_facts(3) [OF prov] by simp
  ultimately show ?thesis
    using ok decision_set_facts(4) [OF prov, of re hp i "env_now env"]
    by (auto simp: spec_allowed_def)
qed

lemma sample_host_policy:
  "get (l_policy sample_local) (in_Host sample_intent) = Some sample_host"
  "l_grants sample_local = Some (store_provider [])"
  "effectivePolicies sample_host = [sample_policy]"
  "ps_Restricts [sample_policy]" "ps_Enforcement [sample_policy] = CmdPolicyEnforce"
  "in_Role sample_intent = RoleTarget" "in_Purpose sample_intent = PurposeOneshot"
  by (simp_all add: sample_local_def NewLocalWithGrants_def sample_defs effectivePolicies_def
      ps_Restricts_def cp_Restricts_def cp_Active_def ps_Enforcement_def)

theorem issued_command_passed_firewall_witness:
  "\<exists>cmds. segments sample_sh [sample_policy] (in_Command sample_intent) = Inr cmds \<and>
     (\<forall>c\<in>set cmds. \<not> spec_denied sample_engine [sample_policy] c)"
  using issued_command_passed_firewall [OF sample_SignIntent sample_certificate
      sample_host_policy(2,1,6,7)] sample_host_policy(3,4,5) by auto

text \<open>The approval gate, as the signer and the service use it.\<close>

lemma gated_not_issued:
  assumes "l_grants l = Some (store_provider s)" and "get (l_policy l) (in_Host i) = Some hp"
    and "in_Role i = RoleTarget" and "in_Command i \<noteq> ''''"
    and "ps_Restricts (effectivePolicies hp)"
    and "ps_Enforcement (effectivePolicies hp) = CmdPolicyEnforce"
    and "segments sh (effectivePolicies hp) (in_Command i) = Inr cmds" and "c \<in> set cmds"
    and "spec_needs_approval re (effectivePolicies hp) c"
    and "\<not> in_Approved i" and "\<not> WaiverMatches s (in_Host i) i (env_now env)"
  shows "\<forall>iss. SignIntent re sh env l i = Inr iss \<longrightarrow> is_Certificate iss = None"
proof (rule ccontr)
  assume "\<not> ?thesis"
  then obtain iss cert where iss: "SignIntent re sh env l i = Inr iss" "is_Certificate iss = Some cert"
    by auto
  show False
  proof (rule SignIntent_host [OF iss])
    fix hp' prefix cr
    assume "get (l_policy l) (in_Host i) = Some hp'"
      and "resolveCommandPolicy re sh hp' i (l_grants l) (env_now env) = Inr cr"
      and ap: "cr_RequireApproval cr \<longrightarrow> in_Approved i"
    with assms(2) have cr: "resolveCommandPolicy re sh hp i (l_grants l) (env_now env) = Inr cr" by simp
    have "provider_ok (l_grants l)" by (simp add: assms(1))
    from resolveCommandPolicy_enforced [OF cr this assms(3,4,5)] assms(6,7,8,9)
    have "cr_RequireApproval cr \<or> waived (l_grants l) i (env_now env)" by auto
    with ap assms(1,10,11) show False by (auto simp: waived_def store_provider_def)
  qed
qed

text \<open>
  C3: approval is unavoidable. On an enforcing host, a target request that carries a command
  with a simple command matching a require-approval rule gets no certificate unless it is
  marked approved or a live waiver covers it: whatever \<open>SignIntent\<close> returns, it holds none.
\<close>

theorem approval_unavoidable:
  assumes "l_grants l = Some (store_provider s)" and "get (l_policy l) (in_Host i) = Some hp"
    and "in_Role i = RoleTarget" and "in_Command i \<noteq> ''''"
    and "ps_Restricts (effectivePolicies hp)"
    and "ps_Enforcement (effectivePolicies hp) = CmdPolicyEnforce"
    and "segments sh (effectivePolicies hp) (in_Command i) = Inr cmds" and "c \<in> set cmds"
    and "spec_needs_approval re (effectivePolicies hp) c"
    and "\<not> in_Approved i" and "\<not> WaiverMatches s (in_Host i) i (env_now env)"
  shows "\<forall>iss. SignIntent re sh env l i = Inr iss \<longrightarrow> is_Certificate iss = None"
  using assms by (rule gated_not_issued)

theorem approval_unavoidable_witness:
  "case SignIntent sample_engine sample_sh sample_env sample_local
     (sample_intent\<lparr>in_Command := ''reboot''\<rparr>) of
     Inr iss \<Rightarrow> is_Certificate iss = None | Inl e \<Rightarrow> True"
proof -
  let ?i = "sample_intent\<lparr>in_Command := ''reboot''\<rparr>"
  have seg: "segments sample_sh (effectivePolicies sample_host) (in_Command ?i) = Inr [''reboot'']"
    by (simp add: sample_host_policy(3)) (simp add: segments_def shellParse_def sample_defs)
  have need: "spec_needs_approval sample_engine (effectivePolicies sample_host) ''reboot''"
    by (simp add: sample_host_policy(3)) (simp add: spec_needs_approval_def matches_def sample_defs)
  have "\<forall>iss. SignIntent sample_engine sample_sh sample_env sample_local ?i = Inr iss \<longrightarrow>
      is_Certificate iss = None"
  proof (rule approval_unavoidable [OF sample_host_policy(2) _ _ _ _ _ seg _ need])
    show "get (l_policy sample_local) (in_Host ?i) = Some sample_host"
      using sample_host_policy(1) by simp
    show "\<not> WaiverMatches [] (in_Host ?i) ?i (env_now sample_env)" by (simp add: WaiverMatches_def)
  qed (simp_all add: sample_host_policy, simp_all add: sample_intent_def)
  then show ?thesis by (simp split: sum.split)
qed

text \<open>
  C4: a one-shot certificate is bound to the requested command. A certificate issued for a
  one-shot target request carries a \<open>force-command\<close>: the command itself, or with elevation the
  sudo prefix followed by \<open>/bin/sh -c\<close> and one shell word whose value is the command.
\<close>

theorem oneshot_force_command:
  assumes "SignIntent re sh env l i = Inr iss" and "is_Certificate iss = Some cert"
    and "in_Role i = RoleTarget" and "in_Purpose i = PurposeOneshot"
  shows "(\<not> in_Sudo i \<longrightarrow>
       get (cert_CriticalOptions cert) ''force-command'' = Some (in_Command i)) \<and>
     (in_Sudo i \<longrightarrow> (\<exists>u word.
       get (cert_CriticalOptions cert) ''force-command'' =
         Some ((if u = ''root'' then ''sudo -n'' else ''sudo -n -u '' @ u) @ '' -- /bin/sh -c '' @ word) \<and>
       u = (if in_SudoUser i = '''' then ''root'' else in_SudoUser i) \<and>
       sh_word False word = Some (in_Command i, [])))"
proof (rule SignIntent_host [OF assms(1,2)])
  fix hp prefix cr
  assume au: "authorised hp i" and el: "resolveElevation hp i = Inr prefix"
    and bs: "BuildAndSign env (caKeyFor l hp) (in_PublicKey i)
      (request_constraints l hp i prefix (env_now env)) = Inr (cert, is_Serial iss)"
  from au assms(3,4) have "\<not> TrimSpaceEmpty (in_Command i)" by (simp add: authorised_def)
  then have ne: "in_Command i \<noteq> ''''" by auto
  have fc: "get (cert_CriticalOptions cert) ''force-command'' =
      Some (if prefix = '''' then in_Command i else buildElevatedCommand prefix (in_Command i))"
    using BuildAndSign_Inr(11) [OF bs] assms(3,4) ne
    by (auto simp: buildElevatedCommand_def)
  show ?thesis
  proof (cases "in_Sudo i")
    case False
    with el have "prefix = ''''" by (simp add: resolveElevation_def)
    with fc False show ?thesis by simp
  next
    case True
    let ?u = "if in_SudoUser i = '''' then ''root'' else in_SudoUser i"
    from resolveElevation_Inr [OF el] True assms(3)
    have "prefix = (if ?u = ''root'' then ''sudo -n'' else ''sudo -n -u '' @ ?u)" by auto
    then have "get (cert_CriticalOptions cert) ''force-command'' =
        Some ((if ?u = ''root'' then ''sudo -n'' else ''sudo -n -u '' @ ?u) @ '' -- /bin/sh -c '' @
          shellQuote (in_Command i))"
      using fc by (auto simp: buildElevatedCommand_def)
    with True shellQuote_word [of "in_Command i"] show ?thesis by blast
  qed
qed

theorem oneshot_force_command_witness:
  "\<exists>u word. get (cert_CriticalOptions sample_cert) ''force-command'' =
       Some ((if u = ''root'' then ''sudo -n'' else ''sudo -n -u '' @ u) @ '' -- /bin/sh -c '' @ word) \<and>
     sh_word False word = Some (''uptime'', [])"
  using oneshot_force_command [OF sample_SignIntent sample_certificate sample_host_policy(6,7)]
  by (auto simp: sample_intent_def)

text \<open>
  C5: lifetime. Under a clock between 1970 and 2116, an issued certificate is valid from 30
  seconds before the request for at most 930 seconds in all; its end is the request time plus
  a TTL that is positive, at most 15 minutes, at most the cap of the host (or the default) and
  at most the requested TTL when one is requested.
\<close>

theorem certificate_lifetime:
  assumes "SignIntent re sh env l i = Inr iss" and "is_Certificate iss = Some cert"
    and "get (l_policy l) (in_Host i) = Some hp"
    and "30 * second_ns \<le> env_now env" and "env_now env < 2 ^ 62"
  shows "\<exists>ttl. 0 < ttl \<and> ttl \<le> 15 * minute_ns \<and>
     ttl \<le> (if hp_MaxTTL hp \<le> 0 then l_defaultTTL l else hp_MaxTTL hp) \<and>
     (in_RequestedTTL i \<le> 0 \<or> ttl \<le> in_RequestedTTL i) \<and>
     uint (cert_ValidAfter cert) = env_now env div second_ns - 30 \<and>
     uint (cert_ValidBefore cert) = (env_now env + ttl) div second_ns \<and>
     uint (cert_ValidBefore cert) - uint (cert_ValidAfter cert) \<le> 930"
proof (rule SignIntent_host [OF assms(1,2)])
  fix hp' prefix cr
  assume "get (l_policy l) (in_Host i) = Some hp'"
    and "BuildAndSign env (caKeyFor l hp') (in_PublicKey i)
      (request_constraints l hp' i prefix (env_now env)) = Inr (cert, is_Serial iss)"
  with assms(3) have bs: "BuildAndSign env (caKeyFor l hp) (in_PublicKey i)
      (request_constraints l hp i prefix (env_now env)) = Inr (cert, is_Serial iss)" by simp
  let ?ttl = "effective_ttl hp i (l_defaultTTL l)"
  note b = BuildAndSign_Inr [OF bs, simplified request_constraints_sel]
  have ttl: "0 < ?ttl" "?ttl \<le> 15 * minute_ns" using b(2,3) by auto
  have req: "in_RequestedTTL i \<le> 0 \<or> ?ttl \<le> in_RequestedTTL i"
    by (auto simp: effective_ttl_def Let_def)
  have "uint (cert_ValidAfter cert) = (env_now env - 30 * second_ns) div second_ns"
    using b(9) assms(4,5) by (simp add: unix_uint second_ns_def)
  also have "\<dots> = env_now env div second_ns - 30" by (simp add: second_ns_def)
  finally have va: "uint (cert_ValidAfter cert) = env_now env div second_ns - 30" .
  have vb: "uint (cert_ValidBefore cert) = (env_now env + ?ttl) div second_ns"
    using b(10) assms(4,5) ttl by (simp add: unix_uint second_ns_def minute_ns_def)
  have "(env_now env + ?ttl) div second_ns \<le> (env_now env + 900 * second_ns) div second_ns"
    using ttl(2) by (intro zdiv_mono1) (simp_all add: second_ns_def minute_ns_def)
  also have "\<dots> = env_now env div second_ns + 900" by (simp add: second_ns_def)
  finally have "uint (cert_ValidBefore cert) - uint (cert_ValidAfter cert) \<le> 930"
    using va vb by linarith
  with ttl req va vb effective_ttl_cap [of hp i "l_defaultTTL l"] show ?thesis by blast
qed

theorem certificate_lifetime_witness:
  "uint (cert_ValidBefore sample_cert) - uint (cert_ValidAfter sample_cert) \<le> 930"
  using certificate_lifetime [OF sample_SignIntent sample_certificate sample_host_policy(1)]
  by (auto simp: sample_env_def second_ns_def)

text \<open>
  Bastion and target certificates are separated. A bastion certificate is issued only for
  a host that is allowed as a bastion and has no command policy; it carries no force-command
  and the port-forwarding extension. A target certificate never carries that extension. No
  certificate has any extension but port forwarding (bastion role) and PTY (when requested).
\<close>

theorem role_separation:
  assumes "SignIntent re sh env l i = Inr iss" and "is_Certificate iss = Some cert"
  shows "fst ` set (cert_Extensions cert) =
       (if in_Role i = RoleBastion then {''permit-port-forwarding''} else {}) \<union>
       (if in_PTY i then {''permit-pty''} else {}) \<and>
     (in_Role i = RoleTarget \<or> in_Role i = RoleBastion) \<and>
     (in_Role i = RoleBastion \<longrightarrow>
        get (cert_CriticalOptions cert) ''force-command'' = None \<and>
        (\<exists>hp. get (l_policy l) (in_Host i) = Some hp \<and> hp_AllowAsBastion hp \<and>
              \<not> ps_Restricts (effectivePolicies hp)))"
proof (rule SignIntent_host [OF assms])
  fix hp prefix cr
  assume hp: "get (l_policy l) (in_Host i) = Some hp" and au: "authorised hp i"
    and bs: "BuildAndSign env (caKeyFor l hp) (in_PublicKey i)
      (request_constraints l hp i prefix (env_now env)) = Inr (cert, is_Serial iss)"
  note b = BuildAndSign_Inr [OF bs, simplified request_constraints_sel]
  from au have "in_Role i = RoleTarget \<or> in_Role i = RoleBastion"
    and "in_Role i = RoleBastion \<longrightarrow> hp_AllowAsBastion hp \<and> \<not> ps_Restricts (effectivePolicies hp)"
    by (auto simp: authorised_def)
  moreover have "in_Role i = RoleBastion \<longrightarrow> get (cert_CriticalOptions cert) ''force-command'' = None"
    using b(11) by auto
  ultimately show ?thesis using b(13) hp by auto
qed

theorem role_separation_witness: "fst ` set (cert_Extensions sample_cert) = {}"
  using role_separation [OF sample_SignIntent sample_certificate]
  by (simp add: sample_intent_def)

definition tokens_of :: "string \<Rightarrow> string \<Rightarrow> string list" where
  "tokens_of key kid = filter (\<lambda>t. HasPrefix t key) (Split1 (CHR '' '') kid)"

lemma elev_tokens:
  assumes "resolveElevation hp i = Inr prefix" and "prefix \<noteq> ''''"
  shows "\<exists>ws. Split1 (CHR '' '') (''elev='' @ prefix) = ''elev=sudo'' # ws \<and>
     (\<forall>w\<in>set ws. CHR ''='' \<notin> set w)"
proof -
  from resolveElevation_Inr [OF assms(1)] assms(2) obtain u where u: "reValidUser u"
    and p: "prefix = (if u = ''root'' then ''sudo -n'' else ''sudo -n -u '' @ u)" by auto
  from reValidUser_clean [OF u] have "CHR '' '' \<notin> set u" "CHR ''='' \<notin> set u" by auto
  then show ?thesis using p by (simp add: Split1_nosep)
qed

lemma tokens_of_no_eq:
  "\<forall>w\<in>set ws. CHR ''='' \<notin> set w \<Longrightarrow> CHR ''='' \<in> set key \<Longrightarrow> filter (\<lambda>t. HasPrefix t key) ws = []"
  by (induction ws) (auto simp: HasPrefix_iff)

text \<open>
  No token forging in the key id. For a host name without blanks, the space-separated
  tokens of the key id of an issued certificate name the agent, the host, the role and the end
  user of the request and nothing else under these keys: a value cannot splice a token in. An
  elevation shows up as the single token \<open>elev=sudo\<close>, exactly when elevation was granted.
\<close>

theorem key_id_not_forgeable:
  assumes "SignIntent re sh env l i = Inr iss" and "is_Certificate iss = Some cert"
    and "CHR '' '' \<notin> set (in_Host i)"
  shows "tokens_of ''agent='' (cert_KeyId cert) = [''agent='' @ in_Caller i] \<and>
     tokens_of ''host='' (cert_KeyId cert) = [''host='' @ in_Host i] \<and>
     tokens_of ''role='' (cert_KeyId cert) = [''role='' @ in_Role i] \<and>
     tokens_of ''user='' (cert_KeyId cert) =
       (if in_EndUser i = '''' then [] else [''user='' @ in_EndUser i]) \<and>
     tokens_of ''elev='' (cert_KeyId cert) =
       (if in_Sudo i \<and> in_Role i = RoleTarget then [''elev=sudo''] else [])"
proof (rule SignIntent_host [OF assms(1,2)])
  fix hp prefix cr
  assume au: "authorised hp i" and el: "resolveElevation hp i = Inr prefix"
    and bs: "BuildAndSign env (caKeyFor l hp) (in_PublicKey i)
      (request_constraints l hp i prefix (env_now env)) = Inr (cert, is_Serial iss)"
  from au have clean: "CHR '' '' \<notin> set (in_Caller i)" "CHR '' '' \<notin> set (in_Role i)"
    "CHR '' '' \<notin> set (in_EndUser i)"
    by (auto simp: authorised_def HasUnsafeTokenChar_no_space)
  have kid: "cert_KeyId cert = key_id i prefix (env_now env)"
    using BuildAndSign_Inr(6) [OF bs] by simp
  note tok = key_id_tokens [OF clean(1) assms(3) clean(2,3), of prefix "env_now env"]
  show ?thesis
  proof (cases "prefix = ''''")
    case True
    with resolveElevation_Inr [OF el] have "\<not> (in_Sudo i \<and> in_Role i = RoleTarget)"
      by (auto split: if_splits)
    with True tok kid show ?thesis by (simp add: tokens_of_def HasPrefix_def)
  next
    case False
    with resolveElevation_Inr [OF el] have "in_Sudo i \<and> in_Role i = RoleTarget" by auto
    moreover obtain ws where "Split1 (CHR '' '') (''elev='' @ prefix) = ''elev=sudo'' # ws"
      and ws: "\<forall>w\<in>set ws. CHR ''='' \<notin> set w"
      using elev_tokens [OF el False] by blast
    moreover have "filter (\<lambda>t. HasPrefix t ''agent='') ws = []" "filter (\<lambda>t. HasPrefix t ''host='') ws = []"
      "filter (\<lambda>t. HasPrefix t ''role='') ws = []" "filter (\<lambda>t. HasPrefix t ''user='') ws = []"
      "filter (\<lambda>t. HasPrefix t ''elev='') ws = []"
      by (rule tokens_of_no_eq [OF ws], simp)+
    ultimately show ?thesis using False tok kid
      by (simp add: tokens_of_def HasPrefix_def)
  qed
qed

theorem key_id_not_forgeable_witness:
  "tokens_of ''user='' (cert_KeyId sample_cert) = [''user=alice'']"
  using key_id_not_forgeable [OF sample_SignIntent sample_certificate]
  by (simp add: sample_intent_def)

end
