(* ===== verification/Wire.thy ===== *)
theory Wire
  imports Local_Signer
begin

text \<open>
  The signing protocol, \<open>src/internal/signer/remote.go\<close>: the messages of \<open>/v1/sign\<close>,
  \<open>/v1/sign/result\<close> and \<open>/v1/hosts\<close> and the client \<open>Remote\<close> that the broker and the control
  plane use.

  A message body is the value that was encoded (\<open>wire_body\<close>); decoding it into another message
  type gives that type's zero value, as \<open>encoding/json\<close> ignores unknown fields, and decoding
  the text of an error fails. Keys and certificates travel as \<open>authorized_keys\<close> lines: their
  codec is the argument \<open>ssh_codec\<close>, with the round trip \<open>ssh_codec_ok\<close> as hypothesis where it
  is needed. The outcome of an HTTP exchange is an argument (\<open>transport\<close>).
\<close>

section \<open>Messages\<close>

record ssh_codec =
  sc_MarshalKey :: "PublicKey \<Rightarrow> string"
  sc_ParseKey :: "string \<Rightarrow> PublicKey option"
  sc_MarshalCert :: "Certificate \<Rightarrow> string"
  sc_ParseCert :: "string \<Rightarrow> Certificate option"

definition ssh_codec_ok :: "ssh_codec \<Rightarrow> bool" where
  "ssh_codec_ok sc \<longleftrightarrow>
     (\<forall>k. sc_ParseKey sc (sc_MarshalKey sc k) = Some k) \<and>
     (\<forall>c. sc_ParseCert sc (sc_MarshalCert sc c) = Some c \<and> sc_MarshalCert sc c \<noteq> [])"

record WireRequest =
  wr_Host :: string
  wr_Role :: string
  wr_Purpose :: string
  wr_SessionMode :: string
  wr_Command :: string
  wr_TTLSeconds :: int
  wr_PublicKey :: string
  wr_Sudo :: bool
  wr_SudoUser :: string
  wr_PTY :: bool
  wr_FileTransfer :: bool
  wr_DryRun :: bool
  wr_Preflight :: bool
  wr_OnBehalfOf :: string
  wr_Approved :: bool
  wr_EndUser :: string
  wr_EndUserGroups :: "string list option"
  wr_LearnTTLSeconds :: int
  wr_LearnApprover :: string
  wr_LearnApprovalID :: string

record WireResponse =
  ws_Certificate :: string
  ws_Serial :: "64 word"
  ws_ElevationPrefix :: string
  ws_Decision :: "DecisionInfo option"

record WireHostInfo =
  wh_Addr :: string
  wh_User :: string
  wh_HostKey :: string
  wh_Jump :: string
  wh_AllowSudo :: bool
  wh_AllowPTY :: bool
  wh_AllowFileTransfer :: bool
  wh_Groups :: "string list"

record HostInfo =
  hi_Addr :: string
  hi_User :: string
  hi_HostKey :: string
  hi_Jump :: string
  hi_AllowSudo :: bool
  hi_AllowPTY :: bool
  hi_AllowFileTransfer :: bool
  hi_Groups :: "string list"

datatype wire_body =
    BodyResponse WireResponse
  | BodyApproval string string
  | BodyStatus string
  | BodyHosts "(string, WireHostInfo) gomap"
  | BodyText string
  | BodyError sign_error
  | BodyOther

record http_response =
  rs_status :: int
  rs_body :: wire_body

definition zero_response :: WireResponse where
  "zero_response = \<lparr>ws_Certificate = '''', ws_Serial = 0, ws_ElevationPrefix = '''', ws_Decision = None\<rparr>"

fun decode_response :: "wire_body \<Rightarrow> WireResponse option" where
  "decode_response (BodyResponse r) = Some r"
| "decode_response (BodyText t) = None"
| "decode_response (BodyError e) = None"
| "decode_response b = Some zero_response"

fun decode_accepted :: "wire_body \<Rightarrow> string option" where
  "decode_accepted (BodyApproval approval_id status) = Some approval_id"
| "decode_accepted (BodyText t) = None"
| "decode_accepted (BodyError e) = None"
| "decode_accepted b = Some ''''"

fun decode_hosts :: "wire_body \<Rightarrow> (string, WireHostInfo) gomap option" where
  "decode_hosts (BodyHosts h) = Some h"
| "decode_hosts b = None"

section \<open>The client\<close>

text \<open>
  \<open>ReadFailed status\<close> is a response whose body could not be read to its end; the polling loop
  ignores that error and works on what it read, a text that does not decode.
\<close>

datatype transport = BuildFailed | DoFailed | ReadFailed int | Responded http_response

datatype remote_error =
    BuildRequestFailed
  | SignerUnavailable
  | SignerUnavailableStatus int wire_body
  | ReadResponseFailed
  | Invalid202
  | Rejected int wire_body
  | InvalidResponse
  | BadCertificate
  | ApprovalNotWaited string
  | ApprovalDeadline string
  | Cancelled
  | PollFailed
  | NotGranted int wire_body
  | HostsFailed int wire_body

definition Remote_request :: "ssh_codec \<Rightarrow> Intent \<Rightarrow> WireRequest" where
  "Remote_request sc i =
     \<lparr>wr_Host = in_Host i, wr_Role = in_Role i, wr_Purpose = in_Purpose i,
      wr_SessionMode = in_SessionMode i, wr_Command = in_Command i,
      wr_TTLSeconds = quot (in_RequestedTTL i) second_ns,
      wr_PublicKey = sc_MarshalKey sc (in_PublicKey i), wr_Sudo = in_Sudo i,
      wr_SudoUser = in_SudoUser i, wr_PTY = in_PTY i, wr_FileTransfer = in_FileTransfer i,
      wr_DryRun = in_DryRun i, wr_Preflight = in_Preflight i, wr_OnBehalfOf = in_OnBehalfOf i,
      wr_Approved = in_Approved i, wr_EndUser = in_EndUser i,
      wr_EndUserGroups = in_EndUserGroups i, wr_LearnTTLSeconds = in_LearnTTLSeconds i,
      wr_LearnApprover = in_LearnApprover i, wr_LearnApprovalID = in_LearnApprovalID i\<rparr>"

definition issued_of_response :: "ssh_codec \<Rightarrow> WireResponse \<Rightarrow> remote_error + Issued" where
  "issued_of_response sc wr =
     (case sc_ParseCert sc (ws_Certificate wr) of
        None \<Rightarrow> Inl BadCertificate
      | Some cert \<Rightarrow> Inr \<lparr>is_Certificate = Some cert, is_Serial = ws_Serial wr,
          is_ElevationPrefix = ws_ElevationPrefix wr, is_Decision = ws_Decision wr\<rparr>)"

text \<open>
  One poll: what \<open>select\<close> saw (the context done, or the interval elapsed), the clock after it and
  the outcome of the request. \<open>None\<close> is the \<open>continue\<close> of the loop.
\<close>

record poll_event =
  pe_ctx_done :: bool
  pe_now :: time
  pe_transport :: transport

definition poll_response :: "ssh_codec \<Rightarrow> int \<Rightarrow> wire_body \<Rightarrow> (remote_error + Issued) option" where
  "poll_response sc status body =
     (if status = 202 then None
      else if status = 200 then
        Some (case decode_response body of
                None \<Rightarrow> Inl InvalidResponse
              | Some wr \<Rightarrow>
                  if ws_Certificate wr = '''' then Inr (decision_only (ws_Decision wr))
                  else issued_of_response sc wr)
      else Some (Inl (NotGranted status body)))"

definition poll_step :: "ssh_codec \<Rightarrow> string \<Rightarrow> time \<Rightarrow> poll_event \<Rightarrow> (remote_error + Issued) option" where
  "poll_step sc approvalID deadline ev =
     (if pe_ctx_done ev then Some (Inl Cancelled)
      else if pe_now ev > deadline then Some (Inl (ApprovalDeadline approvalID))
      else case pe_transport ev of
        BuildFailed \<Rightarrow> Some (Inl BuildRequestFailed)
      | DoFailed \<Rightarrow> Some (Inl PollFailed)
      | ReadFailed status \<Rightarrow> poll_response sc status (BodyText '''')
      | Responded resp \<Rightarrow> poll_response sc (rs_status resp) (rs_body resp))"

text \<open>The polling loop over the events to come; \<open>None\<close> while it has not returned.\<close>

fun poll_loop ::
    "ssh_codec \<Rightarrow> string \<Rightarrow> time \<Rightarrow> poll_event list \<Rightarrow> (remote_error + Issued) option" where
  "poll_loop sc approvalID deadline [] = None"
| "poll_loop sc approvalID deadline (ev # evs) =
     (case poll_step sc approvalID deadline ev of
        Some r \<Rightarrow> Some r
      | None \<Rightarrow> poll_loop sc approvalID deadline evs)"

definition pollApproval ::
    "ssh_codec \<Rightarrow> duration \<Rightarrow> string \<Rightarrow> time \<Rightarrow> poll_event list \<Rightarrow> (remote_error + Issued) option" where
  "pollApproval sc approvalWait approvalID start evs =
     (if approvalWait \<le> 0 then Some (Inl (ApprovalNotWaited approvalID))
      else poll_loop sc approvalID (start + approvalWait) evs)"

definition Remote_SignIntent ::
    "ssh_codec \<Rightarrow> duration \<Rightarrow> (WireRequest \<Rightarrow> transport) \<Rightarrow> time \<Rightarrow> poll_event list \<Rightarrow> Intent \<Rightarrow>
     (remote_error + Issued) option" where
  "Remote_SignIntent sc approvalWait post start evs i =
     (case post (Remote_request sc i) of
        BuildFailed \<Rightarrow> Some (Inl BuildRequestFailed)
      | DoFailed \<Rightarrow> Some (Inl SignerUnavailable)
      | ReadFailed _ \<Rightarrow> Some (Inl ReadResponseFailed)
      | Responded resp \<Rightarrow>
          if rs_status resp = 202 then
            (case decode_accepted (rs_body resp) of
               None \<Rightarrow> Some (Inl Invalid202)
             | Some approvalID \<Rightarrow>
                 if approvalID = '''' then Some (Inl Invalid202)
                 else pollApproval sc approvalWait approvalID start evs)
          else if rs_status resp \<noteq> 200 then
            Some (Inl (if rs_status resp \<ge> 500 then SignerUnavailableStatus (rs_status resp) (rs_body resp)
                       else Rejected (rs_status resp) (rs_body resp)))
          else
            Some (case decode_response (rs_body resp) of
                    None \<Rightarrow> Inl InvalidResponse
                  | Some wr \<Rightarrow>
                      if in_DryRun i \<or> ws_Certificate wr = '''' then Inr (decision_only (ws_Decision wr))
                      else issued_of_response sc wr))"

definition host_info :: "WireHostInfo \<Rightarrow> HostInfo" where
  "host_info h =
     \<lparr>hi_Addr = wh_Addr h, hi_User = wh_User h, hi_HostKey = wh_HostKey h, hi_Jump = wh_Jump h,
      hi_AllowSudo = wh_AllowSudo h, hi_AllowPTY = wh_AllowPTY h,
      hi_AllowFileTransfer = wh_AllowFileTransfer h, hi_Groups = wh_Groups h\<rparr>"

definition FetchHosts :: "transport \<Rightarrow> remote_error + (string, HostInfo) gomap" where
  "FetchHosts tr =
     (case tr of
        BuildFailed \<Rightarrow> Inl BuildRequestFailed
      | DoFailed \<Rightarrow> Inl SignerUnavailable
      | ReadFailed _ \<Rightarrow> Inl ReadResponseFailed
      | Responded resp \<Rightarrow>
          if rs_status resp \<noteq> 200 then Inl (HostsFailed (rs_status resp) (rs_body resp))
          else case decode_hosts (rs_body resp) of
            None \<Rightarrow> Inl InvalidResponse
          | Some wire \<Rightarrow> Inr (map (\<lambda>(name, h). (name, host_info h)) wire))"

section \<open>Properties\<close>

text \<open>
  C14: waiting for an approval ends. When successive polls are at least the interval of two
  seconds apart, the loop has returned by the time it has made as many polls as the waiting time
  has intervals, and one more, whatever the server answers.
\<close>

theorem pollApproval_terminates:
  assumes "sorted_wrt (\<lambda>a b. pe_now a + 2 * second_ns \<le> pe_now b) evs"
    and "\<forall>ev\<in>set evs. start + 2 * second_ns \<le> pe_now ev"
    and "approvalWait < 2 * second_ns * int (length evs)"
  shows "pollApproval sc approvalWait approvalID start evs \<noteq> None"
proof -
  have late: "start + 2 * second_ns * int (length es) \<le> pe_now (last es)"
    if "es \<noteq> []" "sorted_wrt (\<lambda>a b. pe_now a + 2 * second_ns \<le> pe_now b) es"
      "\<forall>ev\<in>set es. start + 2 * second_ns \<le> pe_now ev" for es
    using that
  proof (induction es rule: rev_induct)
    case (snoc e es)
    show ?case
    proof (cases "es = []")
      case True
      with snoc.prems show ?thesis by simp
    next
      case False
      with snoc have "start + 2 * second_ns * int (length es) \<le> pe_now (last es)"
        by (simp add: sorted_wrt_append)
      moreover have "pe_now (last es) + 2 * second_ns \<le> pe_now e"
        using snoc.prems(2) False by (simp add: sorted_wrt_append)
      ultimately show ?thesis by (simp add: algebra_simps)
    qed
  qed simp
  have loop: "poll_loop sc approvalID (start + approvalWait) es \<noteq> None"
    if "es \<noteq> []" "start + approvalWait < pe_now (last es)" for es
    using that
  proof (induction es)
    case (Cons e es)
    show ?case
    proof (cases "es = []")
      case True
      with Cons.prems show ?thesis by (simp add: poll_step_def)
    next
      case False
      with Cons show ?thesis by (auto split: option.splits)
    qed
  qed simp
  show ?thesis
  proof (cases "approvalWait \<le> 0")
    case False
    then have "evs \<noteq> []" using assms(3) by auto
    with late [OF this assms(1,2)] loop [of evs] assms(3) False show ?thesis
      by (auto simp: pollApproval_def)
  qed (simp add: pollApproval_def)
qed

theorem pollApproval_terminates_witness:
  "pollApproval \<lparr>sc_MarshalKey = id, sc_ParseKey = Some, sc_MarshalCert = cert_KeyId, sc_ParseCert = (\<lambda>s. None)\<rparr>
     (3 * second_ns) ''a1'' 0
     [\<lparr>pe_ctx_done = False, pe_now = 2 * second_ns, pe_transport = Responded \<lparr>rs_status = 202, rs_body = BodyStatus ''pending''\<rparr>\<rparr>,
      \<lparr>pe_ctx_done = False, pe_now = 4 * second_ns, pe_transport = DoFailed\<rparr>] \<noteq> None"
  by (rule pollApproval_terminates) (simp_all add: second_ns_def)

end
