(* ===== verification/GoStrings.thy ===== *)
theory GoStrings
  imports GoPrelude
begin

text \<open>
  More of Go's \<open>strings\<close>, \<open>strconv\<close> and \<open>unicode/utf8\<close> packages, used by the broker and the SSH
  client: searching, trimming both ends, decimal parsing, and the iteration of a string by runes,
  which replaces bytes that are not valid UTF-8.
\<close>

section \<open>Searching\<close>

text \<open>\<open>strings.Index\<close>; \<open>None\<close> is -1.\<close>

fun Index :: "string \<Rightarrow> string \<Rightarrow> nat option" where
  "Index s sub =
     (if HasPrefix s sub then Some 0
      else case s of [] \<Rightarrow> None | _ # s' \<Rightarrow> map_option Suc (Index s' sub))"

declare Index.simps [simp del]

lemma Index_Some: "Index s sub = Some k \<Longrightarrow> \<exists>t. s = take k s @ sub @ t \<and> k \<le> length s"
proof (induction s arbitrary: k)
  case Nil
  then show ?case by (auto simp: Index.simps [of "[]"] HasPrefix_def split: if_splits)
next
  case (Cons c s)
  show ?case
  proof (cases "HasPrefix (c # s) sub")
    case True
    with Cons.prems show ?thesis by (auto simp: Index.simps [of "c # s"] HasPrefix_iff)
  next
    case False
    with Cons.prems obtain j where "Index s sub = Some j" "k = Suc j" by (auto simp: Index.simps [of "c # s"])
    with Cons.IH [of j] show ?thesis by auto
  qed
qed

text \<open>A needle whose first byte does not occur before it is found where it is.\<close>

lemma Index_found: "sub \<noteq> [] \<Longrightarrow> hd sub \<notin> set pre \<Longrightarrow> Index (pre @ sub @ t) sub = Some (length pre)"
proof (induction pre)
  case Nil
  then show ?case by (simp add: Index.simps [of "sub @ t"])
next
  case (Cons c pre)
  then have "\<not> HasPrefix (c # pre @ sub @ t) sub" by (cases sub) (auto simp: HasPrefix_def)
  with Cons show ?case by (simp add: Index.simps [of "c # pre @ sub @ t"])
qed

section \<open>Trimming\<close>

text \<open>The length of the white-space rune that ends \<open>s\<close>, 0 if there is none.\<close>

definition space_end :: "string \<Rightarrow> nat" where
  "space_end s =
     (let n = length s in
      if n \<ge> 1 \<and> space_at (drop (n - 1) s) = 1 then 1
      else if n \<ge> 2 \<and> space_at (drop (n - 2) s) = 2 then 2
      else if n \<ge> 3 \<and> space_at (drop (n - 3) s) = 3 then 3
      else 0)"

function TrimRightSpace :: "string \<Rightarrow> string" where
  "TrimRightSpace s =
     (if s \<noteq> [] \<and> space_end s > 0 then TrimRightSpace (take (length s - space_end s) s) else s)"
  by pat_completeness auto
termination
  by (relation "measure length") auto

declare TrimRightSpace.simps [simp del]

definition TrimSpace :: "string \<Rightarrow> string" where
  "TrimSpace s = TrimRightSpace (TrimLeftSpace s)"

section \<open>Decimal numbers\<close>

text \<open>\<open>strconv.Atoi\<close>: an optional sign and digits, within 64 bits.\<close>

definition is_digit :: "char \<Rightarrow> bool" where
  "is_digit c \<longleftrightarrow> 48 \<le> byte c \<and> byte c \<le> 57"

definition digits_value :: "string \<Rightarrow> nat" where
  "digits_value s = foldl (\<lambda>n c. 10 * n + (byte c - 48)) 0 s"

definition Atoi :: "string \<Rightarrow> int option" where
  "Atoi s =
     (let (neg, ds) = (case s of c # cs \<Rightarrow> if c = CHR ''-'' then (True, cs) else if c = CHR ''+'' then (False, cs) else (False, s)
                       | [] \<Rightarrow> (False, []));
          n = (if neg then - int (digits_value ds) else int (digits_value ds))
      in if ds = [] \<or> \<not> list_all is_digit ds then None
         else if n < - (2 ^ 63) \<or> n \<ge> 2 ^ 63 then None
         else Some n)"

lemma digits_value_snoc: "digits_value (s @ [c]) = 10 * digits_value s + (byte c - 48)"
  by (simp add: digits_value_def)

lemma byte_digit: "k < 10 \<Longrightarrow> byte (char_of (48 + k)) = 48 + k"
  by (simp add: byte_def)

lemma digits_value_nat_digits: "digits_value (nat_digits n) = n"
proof (induction n rule: nat_digits.induct)
  case (1 n)
  show ?case
  proof (cases "n < 10")
    case True
    then show ?thesis by (simp add: nat_digits.simps [of n] digits_value_def byte_digit)
  next
    case False
    with 1 show ?thesis by (simp add: nat_digits.simps [of n] digits_value_snoc byte_digit)
  qed
qed

lemma nat_digits_ok: "nat_digits n \<noteq> []" "list_all is_digit (nat_digits n)"
  by (simp add: nat_digits.simps) (simp add: list_all_iff is_digit_def nat_digits_no)

lemma nat_digits_hd: "hd (nat_digits n) \<noteq> CHR ''-'' \<and> hd (nat_digits n) \<noteq> CHR ''+''"
proof -
  have "is_digit (hd (nat_digits n))" using nat_digits_ok [of n] by (cases "nat_digits n") auto
  then show ?thesis by (auto simp: is_digit_def byte_def)
qed

lemma Atoi_Itoa: "- (2 ^ 63) \<le> i \<Longrightarrow> i < 2 ^ 63 \<Longrightarrow> Atoi (Itoa i) = Some i"
proof (cases "i < 0")
  case True
  then show "- (2 ^ 63) \<le> i \<Longrightarrow> Atoi (Itoa i) = Some i"
    using nat_digits_ok [of "nat (- i)"] by (simp add: Itoa_def Atoi_def digits_value_nat_digits)
next
  case False
  then obtain n where i: "i = int n" using nonneg_int_cases by (metis linorder_not_less)
  obtain c cs where d: "nat_digits n = c # cs" "c \<noteq> CHR ''-''" "c \<noteq> CHR ''+''"
    using nat_digits_ok(1) [of n] nat_digits_hd [of n] by (cases "nat_digits n") auto
  show "i < 2 ^ 63 \<Longrightarrow> Atoi (Itoa i) = Some i"
    using nat_digits_ok(2) [of n] digits_value_nat_digits [of n] i d by (simp add: Itoa_def Atoi_def)
qed

text \<open>Trimming a number leaves it alone.\<close>

lemma space_len_1: "space_len [a] = (if a \<in> {9, 10, 11, 12, 13, 32} then 1 else 0)"
  by simp

lemma space_at_digit:
  assumes "is_digit c \<or> c = CHR ''-''" shows "space_at (c # s) = 0"
proof -
  have "byte c \<noteq> 194" "byte c \<noteq> 225" "byte c \<noteq> 226" "byte c \<noteq> 227" "byte c \<notin> {9, 10, 11, 12, 13, 32}"
    using assms by (auto simp: is_digit_def byte_def)
  then show ?thesis by (simp add: space_at_def split: list.split)
qed

lemma Itoa_chars: "c \<in> set (Itoa i) \<Longrightarrow> is_digit c \<or> c = CHR ''-''"
  using nat_digits_no by (auto simp: Itoa_def is_digit_def split: if_splits)

lemma Itoa_nonempty: "Itoa i \<noteq> []"
  using nat_digits_ok(1) by (simp add: Itoa_def)

lemma space_end_digits:
  assumes "\<And>c. c \<in> set s \<Longrightarrow> is_digit c \<or> c = CHR ''-''"
  shows "space_end s = 0"
proof -
  have z: "space_at (drop k s) = 0" for k
  proof (cases "drop k s")
    case (Cons c cs)
    then have "c \<in> set s" by (metis in_set_dropD list.set_intros(1))
    with assms Cons show ?thesis by (simp add: space_at_digit)
  qed simp
  show ?thesis unfolding space_end_def Let_def z by simp
qed

lemma TrimSpace_Itoa_newline: "TrimSpace (Itoa i @ [CHR 0x0A]) = Itoa i"
proof -
  obtain c cs where d: "Itoa i = c # cs" using Itoa_nonempty by (cases "Itoa i") auto
  then have "space_at (Itoa i @ [CHR 0x0A]) = 0" using Itoa_chars [of c i] by (simp add: space_at_digit)
  then have l: "TrimLeftSpace (Itoa i @ [CHR 0x0A]) = Itoa i @ [CHR 0x0A]" by (simp add: TrimLeftSpace.simps)
  have e: "space_end (Itoa i @ [CHR 0x0A]) = 1" by (simp add: space_end_def space_at_def byte_def)
  have "TrimRightSpace (Itoa i) = Itoa i"
    using space_end_digits [of "Itoa i"] Itoa_chars by (auto simp: TrimRightSpace.simps)
  then show ?thesis by (simp add: TrimSpace_def l e TrimRightSpace.simps [of "Itoa i @ [CHR 0x0A]"])
qed

section \<open>Runes\<close>

text \<open>
  The length of the valid UTF-8 encoding at the head of a byte list, 0 if there is none: the table
  of \<open>utf8.DecodeRune\<close> (no overlong forms, no surrogates, nothing above U+10FFFF).
\<close>

definition cont :: "nat \<Rightarrow> bool" where
  "cont b \<longleftrightarrow> 128 \<le> b \<and> b \<le> 191"

fun rune_len :: "nat list \<Rightarrow> nat" where
  "rune_len [] = 0"
| "rune_len (a # bs) =
     (if a < 128 then 1
      else case bs of
        [] \<Rightarrow> 0
      | b # cs \<Rightarrow>
          if 194 \<le> a \<and> a \<le> 223 then (if cont b then 2 else 0)
          else case cs of
            [] \<Rightarrow> 0
          | c # ds \<Rightarrow>
              if 224 \<le> a \<and> a \<le> 239 then
                (if cont b \<and> cont c \<and> (a = 224 \<longrightarrow> 160 \<le> b) \<and> (a = 237 \<longrightarrow> b \<le> 159) then 3 else 0)
              else case ds of
                [] \<Rightarrow> 0
              | d # _ \<Rightarrow>
                  if 240 \<le> a \<and> a \<le> 244 \<and> cont b \<and> cont c \<and> cont d \<and> (a = 240 \<longrightarrow> 144 \<le> b) \<and> (a = 244 \<longrightarrow> b \<le> 143)
                  then 4 else 0)"

text \<open>The encoding of U+FFFD, written for each byte that is not part of a rune.\<close>

definition rune_error :: string where
  "rune_error = [CHR 0xEF, CHR 0xBF, CHR 0xBD]"

text \<open>The runes of \<open>for _, c := range s\<close>, each as \<open>WriteRune\<close> writes it.\<close>

function range_runes :: "string \<Rightarrow> string list" where
  "range_runes s =
     (if s = [] then []
      else let n = rune_len (map byte s) in
        if n = 0 then rune_error # range_runes (tl s) else take n s # range_runes (drop n s))"
  by pat_completeness auto
termination
  by (relation "measure length") auto

declare range_runes.simps [simp del]

text \<open>A valid UTF-8 string: every iteration step finds a rune.\<close>

function valid_utf8 :: "string \<Rightarrow> bool" where
  "valid_utf8 s =
     (if s = [] then True
      else let n = rune_len (map byte s) in if n = 0 then False else valid_utf8 (drop n s))"
  by pat_completeness auto
termination
  by (relation "measure length") auto

declare valid_utf8.simps [simp del]

lemma concat_range_runes: "valid_utf8 s \<Longrightarrow> concat (range_runes s) = s"
proof (induction s rule: range_runes.induct)
  case (1 s)
  show ?case
  proof (cases "s = []")
    case True
    then show ?thesis by (simp add: range_runes.simps)
  next
    case False
    let ?n = "rune_len (map byte s)"
    from 1(3) False have "?n \<noteq> 0" "valid_utf8 (drop ?n s)" by (auto simp: valid_utf8.simps [of s] Let_def split: if_splits)
    with 1(2) [OF False refl] False show ?thesis by (simp add: range_runes.simps [of s] Let_def)
  qed
qed

lemma valid_utf8_ascii: "(\<And>c. c \<in> set s \<Longrightarrow> byte c < 128) \<Longrightarrow> valid_utf8 s"
  by (induction s) (auto simp: valid_utf8.simps [of "[]"] valid_utf8.simps [of "_ # _"])

end
