(* ===== verification/Audit_Log.thy ===== *)
theory Audit_Log
  imports GoStrings "HOL-Library.Word"
begin

text \<open>
  The tamper-evident audit log, \<open>src/internal/audit/log.go\<close>, and its verifier, the functions
  \<open>verifyAuditSegments\<close>, \<open>auditFileBounds\<close>, \<open>verifyAuditChain\<close> and \<open>verifyEntrySig\<close> of
  \<open>src/cmd/broker-ctl/main.go\<close>.

  A file is its bytes. The directory holds the current file (absent or present) and the rotated
  segments, keyed by the second in their name: the suffix is a fixed-width UTC timestamp, so
  sorting the names sorts the seconds. Every system call that can fail has its outcome as an
  argument (\<open>append_io\<close>), a failing write with the number of bytes that reached the file.

  JSON encoding, SHA-256 and Ed25519 are the arguments \<open>audit_codec\<close>; what the log relies on is
  the hypothesis \<open>codec_ok\<close>: an encoded entry decodes to itself when its strings are valid UTF-8
  (\<open>encoding/json\<close> replaces the bytes that are not), is not empty and has no line terminator, a
  signature verifies on the text it was made for, and hashes and signatures are ASCII text.
\<close>

section \<open>Entries\<close>

text \<open>\<open>e_Time\<close> is \<open>None\<close> for the zero time.\<close>

record Entry =
  e_Time :: "time option"
  e_Caller :: string
  e_Host :: string
  e_User :: string
  e_Principal :: string
  e_Command :: string
  e_TTL :: string
  e_Serial :: "64 word"
  e_SessionID :: string
  e_Outcome :: string
  e_ExitCode :: int
  e_Err :: string
  e_Elevation :: string
  e_PTY :: bool
  e_PolicyRule :: string
  e_DryRun :: bool
  e_Warning :: string
  e_ApprovalID :: string
  e_ApprovedBy :: string
  e_Anomaly :: string
  e_Seq :: "64 word"
  e_PrevHash :: string
  e_Sig :: string

definition zero_entry :: Entry where
  "zero_entry = \<lparr>e_Time = None, e_Caller = '''', e_Host = '''', e_User = '''', e_Principal = '''',
     e_Command = '''', e_TTL = '''', e_Serial = 0, e_SessionID = '''', e_Outcome = '''', e_ExitCode = 0,
     e_Err = '''', e_Elevation = '''', e_PTY = False, e_PolicyRule = '''', e_DryRun = False,
     e_Warning = '''', e_ApprovalID = '''', e_ApprovedBy = '''', e_Anomaly = '''', e_Seq = 0,
     e_PrevHash = '''', e_Sig = ''''\<rparr>"

record audit_codec =
  ac_Marshal :: "Entry \<Rightarrow> string"
  ac_Unmarshal :: "string \<Rightarrow> Entry option"
  ac_Hash :: "string \<Rightarrow> string"
  ac_Sign :: "string \<Rightarrow> string"
  ac_Verify :: "string \<Rightarrow> string \<Rightarrow> bool"

definition entry_utf8 :: "Entry \<Rightarrow> bool" where
  "entry_utf8 e \<longleftrightarrow> list_all valid_utf8 [e_Caller e, e_Host e, e_User e, e_Principal e, e_Command e, e_TTL e,
     e_SessionID e, e_Outcome e, e_Err e, e_Elevation e, e_PolicyRule e, e_Warning e, e_ApprovalID e,
     e_ApprovedBy e, e_Anomaly e, e_PrevHash e, e_Sig e]"

definition codec_ok :: "audit_codec \<Rightarrow> bool" where
  "codec_ok ac \<longleftrightarrow>
     (\<forall>e. entry_utf8 e \<longrightarrow> ac_Unmarshal ac (ac_Marshal ac e) = Some e) \<and>
     (\<forall>e. ac_Marshal ac e \<noteq> [] \<and> CHR 0x0A \<notin> set (ac_Marshal ac e) \<and> CHR 0x0D \<notin> set (ac_Marshal ac e)) \<and>
     (\<forall>p. ac_Verify ac p (ac_Sign ac p)) \<and> (\<forall>p. valid_utf8 (ac_Hash ac p) \<and> valid_utf8 (ac_Sign ac p))"

section \<open>The log\<close>

definition AuditLogMaxSize :: int where
  "AuditLogMaxSize = 100 * 1024 * 1024"

text \<open>\<open>lg_open\<close> tells whether the handle \<open>f\<close> is not nil; the path and the key are implicit.\<close>

record Log =
  lg_open :: bool
  lg_redactor :: "(string \<Rightarrow> string) option"
  lg_prevHash :: string
  lg_seq :: "64 word"
  lg_maxFileSize :: int
  lg_needsNewline :: bool

record audit_fs =
  fs_current :: "string option"
  fs_rotated :: "(int, string) gomap"

datatype write_outcome = WriteOK | WriteFailed nat

record append_io =
  io_now :: time
  io_stat_ok :: bool
  io_rename_ok :: bool
  io_rotate_open_ok :: bool
  io_ensure_open_ok :: bool
  io_write :: write_outcome
  io_sync_ok :: bool

datatype audit_error = ReadFailed | ScanFailed | ParseLastFailed | OpenFailed | WriteError | SyncError

text \<open>
  \<open>bufio.Scanner\<close> with \<open>ScanLines\<close> and a buffer of \<open>maxToken\<close> bytes: the lines without their
  terminator (and without a carriage return before it), an unterminated last line if it is not
  empty; a line that does not fit in the buffer with its terminator stops the scan with an error.
\<close>

definition maxToken :: nat where
  "maxToken = 256 * 1024"

definition dropCR :: "string \<Rightarrow> string" where
  "dropCR l = (if l \<noteq> [] \<and> last l = CHR 0x0D then butlast l else l)"

definition raw_lines :: "string \<Rightarrow> string list" where
  "raw_lines s = (let ls = Split1 (CHR 0x0A) s in if last ls = [] then butlast ls else ls)"

definition scan_lines :: "string \<Rightarrow> string list \<times> bool" where
  "scan_lines s =
     (let ls = raw_lines s; short = (\<lambda>l. length l < maxToken)
      in (map dropCR (takeWhile short ls), list_all short ls))"

definition restoreChain :: "audit_codec \<Rightarrow> audit_fs \<Rightarrow> Log \<Rightarrow> audit_error + Log" where
  "restoreChain ac fs l =
     (case fs_current fs of
        None \<Rightarrow> Inr l
      | Some content \<Rightarrow>
          (case scan_lines content of
             (ls, ok) \<Rightarrow>
               if \<not> ok then Inl ScanFailed
               else
                 (case filter (\<lambda>b. length b > 0) ls of
                    [] \<Rightarrow> Inr l
                  | b # bs \<Rightarrow>
                      let lastLine = last (b # bs);
                          l = (if content \<noteq> [] \<and> last content \<noteq> CHR 0x0A
                               then l\<lparr>lg_needsNewline := True\<rparr> else l)
                      in (case ac_Unmarshal ac lastLine of
                            None \<Rightarrow> Inl ParseLastFailed
                          | Some e \<Rightarrow> Inr (l\<lparr>lg_seq := e_Seq e, lg_prevHash := ac_Hash ac lastLine\<rparr>)))))"

text \<open>\<open>O_CREATE\<close>: opening creates an absent file.\<close>

definition create_current :: "audit_fs \<Rightarrow> audit_fs" where
  "create_current fs = (case fs_current fs of None \<Rightarrow> fs\<lparr>fs_current := Some []\<rparr> | Some _ \<Rightarrow> fs)"

definition audit_Open :: "audit_codec \<Rightarrow> bool \<Rightarrow> audit_fs \<Rightarrow> audit_error + (Log \<times> audit_fs)" where
  "audit_Open ac open_ok fs =
     (case restoreChain ac fs \<lparr>lg_open = False, lg_redactor = None, lg_prevHash = '''', lg_seq = 0,
         lg_maxFileSize = AuditLogMaxSize, lg_needsNewline = False\<rparr> of
        Inl e \<Rightarrow> Inl e
      | Inr l \<Rightarrow>
          if \<not> open_ok then Inl OpenFailed
          else Inr (l\<lparr>lg_open := True\<rparr>, create_current fs))"

definition SetRedactor :: "(string \<Rightarrow> string) option \<Rightarrow> Log \<Rightarrow> Log" where
  "SetRedactor r l = l\<lparr>lg_redactor := r\<rparr>"

definition file_size :: "audit_fs \<Rightarrow> int" where
  "file_size fs = (case fs_current fs of None \<Rightarrow> 0 | Some c \<Rightarrow> int (length c))"

definition maybeRotate :: "append_io \<Rightarrow> Log \<times> audit_fs \<Rightarrow> Log \<times> audit_fs" where
  "maybeRotate io = (\<lambda>(l, fs).
     if lg_maxFileSize l \<le> 0 \<or> \<not> lg_open l then (l, fs)
     else if \<not> io_stat_ok io \<or> file_size fs < lg_maxFileSize l then (l, fs)
     else
       let l = l\<lparr>lg_open := False\<rparr> in
       if \<not> io_rename_ok io then
         (if io_rotate_open_ok io then (l\<lparr>lg_open := True\<rparr>, create_current fs) else (l, fs))
       else
         let fs = (case fs_current fs of
                     None \<Rightarrow> fs
                   | Some c \<Rightarrow> fs\<lparr>fs_current := None,
                       fs_rotated := put (io_now io div second_ns) c (fs_rotated fs)\<rparr>);
             l = l\<lparr>lg_seq := 0, lg_needsNewline := False\<rparr>
         in if io_rotate_open_ok io then (l\<lparr>lg_open := True\<rparr>, create_current fs) else (l, fs))"

definition ensureOpen :: "append_io \<Rightarrow> Log \<times> audit_fs \<Rightarrow> audit_error option \<times> Log \<times> audit_fs" where
  "ensureOpen io = (\<lambda>(l, fs).
     if lg_open l then (None, l, fs)
     else if \<not> io_ensure_open_ok io then (Some OpenFailed, l, fs)
     else (None, l\<lparr>lg_open := True\<rparr>, create_current fs))"

definition redact_entry :: "(string \<Rightarrow> string) option \<Rightarrow> Entry \<Rightarrow> Entry" where
  "redact_entry r e =
     (case r of
        None \<Rightarrow> e
      | Some f \<Rightarrow> e\<lparr>e_Command := f (e_Command e), e_Err := f (e_Err e), e_Warning := f (e_Warning e),
                    e_Anomaly := f (e_Anomaly e)\<rparr>)"

text \<open>The entry as it is stored: numbered, linked, dated, signed over its content without \<open>Sig\<close>.\<close>

definition seal :: "audit_codec \<Rightarrow> append_io \<Rightarrow> Log \<Rightarrow> Entry \<Rightarrow> Entry" where
  "seal ac io l e =
     (let e = e\<lparr>e_Seq := lg_seq l + 1, e_PrevHash := lg_prevHash l\<rparr>;
          e = (if e_Time e = None then e\<lparr>e_Time := Some (io_now io)\<rparr> else e);
          e = e\<lparr>e_Sig := ''''\<rparr>
      in e\<lparr>e_Sig := ac_Sign ac (ac_Marshal ac e)\<rparr>)"

definition append_bytes :: "string \<Rightarrow> audit_fs \<Rightarrow> audit_fs" where
  "append_bytes b fs = fs\<lparr>fs_current := Some ((case fs_current fs of None \<Rightarrow> [] | Some c \<Rightarrow> c) @ b)\<rparr>"

definition doAppend ::
    "audit_codec \<Rightarrow> append_io \<Rightarrow> Entry \<Rightarrow> Log \<times> audit_fs \<Rightarrow> audit_error option \<times> Log \<times> audit_fs" where
  "doAppend ac io e st =
     (let e = redact_entry (lg_redactor (fst st)) e in
      case ensureOpen io (maybeRotate io st) of
        (Some err, l, fs) \<Rightarrow> (Some err, l, fs)
      | (None, l, fs) \<Rightarrow>
          let line = ac_Marshal ac (seal ac io l e);
              out = line @ [CHR 0x0A];
              out = (if lg_needsNewline l then CHR 0x0A # out else out)
          in (case io_write io of
                WriteFailed n \<Rightarrow> (Some WriteError, l, append_bytes (take n out) fs)
              | WriteOK \<Rightarrow>
                  let l = l\<lparr>lg_needsNewline := False, lg_seq := lg_seq l + 1,
                            lg_prevHash := ac_Hash ac line\<rparr>
                  in (if io_sync_ok io then None else Some SyncError, l, append_bytes out fs)))"

definition Append ::
    "audit_codec \<Rightarrow> append_io \<Rightarrow> Entry \<Rightarrow> nat \<times> Log \<times> audit_fs \<Rightarrow> audit_error option \<times> nat \<times> Log \<times> audit_fs" where
  "Append ac io e st =
     (case st of (appendFailures, lf) \<Rightarrow>
       (case doAppend ac io e lf of
          (None, lf) \<Rightarrow> (None, appendFailures, lf)
        | (Some err, lf) \<Rightarrow> (Some err, appendFailures + 1, lf)))"

definition audit_Close :: "bool \<Rightarrow> Log \<Rightarrow> bool" where
  "audit_Close close_ok l = (if \<not> lg_open l then True else close_ok)"

section \<open>The verifier\<close>

definition verifyEntrySig :: "audit_codec \<Rightarrow> Entry \<Rightarrow> nat" where
  "verifyEntrySig ac e = (if ac_Verify ac (ac_Marshal ac (e\<lparr>e_Sig := ''''\<rparr>)) (e_Sig e) then 0 else 1)"

text \<open>The loop of \<open>verifyAuditChain\<close>; the state is \<open>(prevHash, prevSeq)\<close>, \<open>None\<close> while \<open>first\<close>.\<close>

fun chain_loop ::
    "audit_codec \<Rightarrow> bool \<Rightarrow> (string \<times> 64 word) option \<Rightarrow> string list \<Rightarrow> nat \<times> nat \<Rightarrow> nat \<times> nat" where
  "chain_loop ac sigs prev [] acc = acc"
| "chain_loop ac sigs prev (line # lines) (tot, errs) =
     (if length line = 0 then chain_loop ac sigs prev lines (tot, errs)
      else case ac_Unmarshal ac line of
        None \<Rightarrow> chain_loop ac sigs prev lines (tot, errs + 1)
      | Some e \<Rightarrow>
          let errs = errs + (case prev of None \<Rightarrow> 0 | Some (h, q) \<Rightarrow>
                (if e_Seq e \<noteq> q + 1 then 1 else 0) + (if e_PrevHash e \<noteq> h then 1 else 0));
              errs = errs + (if sigs then verifyEntrySig ac e else 0)
          in chain_loop ac sigs (Some (ac_Hash ac line, e_Seq e)) lines (tot + 1, errs))"

definition verifyAuditChain :: "audit_codec \<Rightarrow> bool \<Rightarrow> string \<Rightarrow> nat \<times> nat" where
  "verifyAuditChain ac sigs content =
     (case scan_lines content of
        (ls, ok) \<Rightarrow>
          (case chain_loop ac sigs None ls (0, 0) of
             (tot, errs) \<Rightarrow> (tot, if ok then errs else errs + 1)))"

definition auditFileBounds :: "audit_codec \<Rightarrow> string \<Rightarrow> (string \<times> string) option" where
  "auditFileBounds ac content =
     (case scan_lines content of
        (ls, ok) \<Rightarrow>
          (case filter (\<lambda>b. length b > 0) ls of
             [] \<Rightarrow> None
           | b # bs \<Rightarrow>
               (case ac_Unmarshal ac b of
                  None \<Rightarrow> None
                | Some e \<Rightarrow> if ok then Some (e_PrevHash e, ac_Hash ac (last (b # bs))) else None)))"

definition discoverAuditSegments :: "audit_fs \<Rightarrow> string list" where
  "discoverAuditSegments fs =
     map snd (sort_key fst (fs_rotated fs)) @ (case fs_current fs of None \<Rightarrow> [] | Some c \<Rightarrow> [c])"

fun segments_loop ::
    "audit_codec \<Rightarrow> bool \<Rightarrow> bool \<Rightarrow> string \<Rightarrow> string list \<Rightarrow> nat \<times> nat \<Rightarrow> nat \<times> nat" where
  "segments_loop ac sigs first prevLast [] acc = acc"
| "segments_loop ac sigs first prevLast (seg # segs) (tot, errs) =
     (case verifyAuditChain ac sigs seg of
        (t, e) \<Rightarrow>
          (case auditFileBounds ac seg of
             None \<Rightarrow> segments_loop ac sigs False prevLast segs (tot + t, errs + e + 1)
           | Some (firstPrev, lastHash) \<Rightarrow>
               let bad = (if first then firstPrev \<noteq> '''' else firstPrev \<noteq> prevLast)
               in segments_loop ac sigs False lastHash segs
                    (tot + t, errs + e + (if bad then 1 else 0))))"

definition verifyAuditSegments :: "audit_codec \<Rightarrow> bool \<Rightarrow> audit_fs \<Rightarrow> nat \<times> nat" where
  "verifyAuditSegments ac sigs fs =
     (let segs = discoverAuditSegments fs
      in if segs = [] then (0, 1) else segments_loop ac sigs True '''' segs (0, 0))"

section \<open>Chains of lines\<close>

text \<open>The content of a file made of terminated lines.\<close>

definition render :: "string list \<Rightarrow> string" where
  "render ls = concat (map (\<lambda>l. l @ [CHR 0x0A]) ls)"

text \<open>
  \<open>good ac h q ls\<close>: the lines are encoded entries of valid UTF-8, linked from the hash \<open>h\<close>, numbered from \<open>q + 1\<close>,
  signed, and short enough for the scanner.
\<close>

fun good :: "audit_codec \<Rightarrow> string \<Rightarrow> 64 word \<Rightarrow> string list \<Rightarrow> bool" where
  "good ac h q [] \<longleftrightarrow> True"
| "good ac h q (l # ls) \<longleftrightarrow>
     (\<exists>e. l = ac_Marshal ac e \<and> entry_utf8 e \<and> e_PrevHash e = h \<and> e_Seq e = q + 1 \<and> verifyEntrySig ac e = 0) \<and>
     length l < maxToken \<and> good ac (ac_Hash ac l) (q + 1) ls"

definition end_hash :: "audit_codec \<Rightarrow> string \<Rightarrow> string list \<Rightarrow> string" where
  "end_hash ac h ls = (if ls = [] then h else ac_Hash ac (last ls))"

fun good_files :: "audit_codec \<Rightarrow> string \<Rightarrow> string list list \<Rightarrow> bool" where
  "good_files ac h [] \<longleftrightarrow> True"
| "good_files ac h (ls # files) \<longleftrightarrow> ls \<noteq> [] \<and> good ac h 0 ls \<and> good_files ac (end_hash ac h ls) files"

definition end_files :: "audit_codec \<Rightarrow> string \<Rightarrow> string list list \<Rightarrow> string" where
  "end_files ac h files = fold (\<lambda>ls h. end_hash ac h ls) files h"

lemma end_hash_simps [simp]:
  "end_hash ac h [] = h" "end_hash ac h (ls @ [l]) = ac_Hash ac l"
  "end_hash ac (ac_Hash ac l) ls = end_hash ac h (l # ls)"
  by (simp_all add: end_hash_def)

lemma good_append:
  "good ac h q (ls @ [l]) \<longleftrightarrow> good ac h q ls \<and> good ac (end_hash ac h ls) (q + of_nat (length ls)) [l]"
proof (induction ls arbitrary: h q)
  case Nil
  then show ?case by simp
next
  case (Cons a ls)
  have "q + 1 + of_nat (length ls) = q + of_nat (length (a # ls))" by simp
  with Cons.IH [of "ac_Hash ac a" "q + 1"] show ?case
    by (cases ls) (auto simp: end_hash_def)
qed

lemma good_files_append:
  "good_files ac h (fs @ [ls]) \<longleftrightarrow> good_files ac h fs \<and> ls \<noteq> [] \<and> good ac (end_files ac h fs) 0 ls"
  by (induction fs arbitrary: h) (auto simp: end_files_def)

lemma end_files_append [simp]: "end_files ac h (fs @ [ls]) = end_hash ac (end_files ac h fs) ls"
  by (simp add: end_files_def)

lemma good_lines:
  assumes "codec_ok ac" and "good ac h q ls" and "l \<in> set ls"
  shows "l \<noteq> [] \<and> CHR 0x0A \<notin> set l \<and> CHR 0x0D \<notin> set l \<and> length l < maxToken"
  using assms(2,3)
proof (induction ls arbitrary: h q)
  case (Cons a ls)
  then show ?case using assms(1) by (cases "l = a") (auto simp: codec_ok_def)
qed simp

section \<open>Reading rendered files back\<close>

lemma render_simps [simp]:
  "render [] = []" "render (l # ls) = l @ CHR 0x0A # render ls" "render (ls @ [l]) = render ls @ l @ [CHR 0x0A]"
  by (simp_all add: render_def)

lemma render_Nil [simp]: "render ls = [] \<longleftrightarrow> ls = []"
  by (cases ls) auto

lemma Split1_render: "\<forall>l\<in>set ls. CHR 0x0A \<notin> set l \<Longrightarrow> Split1 (CHR 0x0A) (render ls) = ls @ [[]]"
  by (induction ls) (auto simp: Split1_append)

lemma raw_lines_render: "\<forall>l\<in>set ls. CHR 0x0A \<notin> set l \<Longrightarrow> raw_lines (render ls) = ls"
  by (simp add: raw_lines_def Split1_render)

lemma dropCR_id: "CHR 0x0D \<notin> set l \<Longrightarrow> dropCR l = l"
  by (cases l rule: rev_cases) (auto simp: dropCR_def)

lemma scan_lines_plain:
  assumes g: "\<And>l. l \<in> set ls \<Longrightarrow> CHR 0x0A \<notin> set l \<and> CHR 0x0D \<notin> set l \<and> length l < maxToken"
  shows "scan_lines (render ls) = (ls, True)"
proof -
  have "raw_lines (render ls) = ls" using g by (intro raw_lines_render) auto
  moreover have "takeWhile (\<lambda>l. length l < maxToken) ls = ls" using g by (auto simp: takeWhile_eq_all_conv)
  moreover have "map dropCR ls = ls" using g by (auto intro!: map_idI dropCR_id)
  ultimately show ?thesis
    using g by (simp add: scan_lines_def Let_def list_all_iff del: takeWhile_eq_all_conv)
qed

lemma scan_lines_render:
  assumes "codec_ok ac" and "good ac h q ls"
  shows "scan_lines (render ls) = (ls, True)"
  using good_lines [OF assms] by (intro scan_lines_plain) auto

lemma nonempty_lines:
  assumes "codec_ok ac" and "good ac h q ls"
  shows "filter (\<lambda>b. length b > 0) ls = ls"
  using good_lines [OF assms] by (auto simp: filter_id_conv)

lemma chain_loop_good:
  assumes "codec_ok ac"
  shows "good ac h q ls \<Longrightarrow>
    chain_loop ac sigs (if first then None else Some (h, q)) ls (tot, errs) = (tot + length ls, errs)"
proof (induction ls arbitrary: h q first tot)
  case Nil
  then show ?case by simp
next
  case (Cons l ls)
  then obtain e where e: "l = ac_Marshal ac e" "e_PrevHash e = h" "e_Seq e = q + 1" "verifyEntrySig ac e = 0" "entry_utf8 e"
    and rest: "good ac (ac_Hash ac l) (q + 1) ls" by auto
  have "l \<noteq> []" and "ac_Unmarshal ac l = Some e" using assms e(1,5) by (auto simp: codec_ok_def)
  with Cons.IH [OF rest, of False "tot + 1"] e show ?case by (cases sigs) (simp_all add: Let_def)
qed

lemma verifyAuditChain_good:
  assumes "codec_ok ac" and "good ac h q ls"
  shows "verifyAuditChain ac sigs (render ls) = (length ls, 0)"
  using chain_loop_good [OF assms(1,2), of sigs True 0 0] scan_lines_render [OF assms]
  by (simp add: verifyAuditChain_def)

lemma auditFileBounds_good:
  assumes "codec_ok ac" and "good ac h q ls" and "ls \<noteq> []"
  shows "auditFileBounds ac (render ls) = Some (h, end_hash ac h ls)"
proof -
  from assms(3) obtain l ls' where ls: "ls = l # ls'" by (cases ls) auto
  with assms(2) obtain e where e: "l = ac_Marshal ac e" "e_PrevHash e = h" "entry_utf8 e" by auto
  then have "ac_Unmarshal ac l = Some e" using assms(1) by (simp add: codec_ok_def)
  with scan_lines_render [OF assms(1,2)] nonempty_lines [OF assms(1,2)] ls e show ?thesis
    by (simp add: auditFileBounds_def end_hash_def)
qed

lemma segments_loop_good:
  assumes "codec_ok ac"
  shows "good_files ac h files \<Longrightarrow> (first \<longrightarrow> h = '''') \<Longrightarrow>
     segments_loop ac sigs first h (map render files @ rest) (tot, errs) =
       segments_loop ac sigs (first \<and> files = []) (end_files ac h files) rest
         (tot + length (concat files), errs)"
proof (induction files arbitrary: h first tot)
  case Nil
  then show ?case by (simp add: end_files_def)
next
  case (Cons ls files)
  then have g: "good ac h 0 ls" "ls \<noteq> []" "good_files ac (end_hash ac h ls) files" by auto
  have "\<not> (if first then h \<noteq> '''' else h \<noteq> h)" using Cons.prems(2) by simp
  with verifyAuditChain_good [OF assms g(1)] auditFileBounds_good [OF assms g(1,2)]
    Cons.IH [OF g(3), of False "tot + length ls"] show ?case
    by (simp add: Let_def end_files_def add.assoc)
qed

section \<open>Invariant of the log\<close>

text \<open>
  The state \<open>(l, fs)\<close> holds the rotated files \<open>segs\<close> and the lines \<open>cur\<close> of the current file, and
  the memory of the log is the end of that chain.
\<close>

definition log_inv :: "audit_codec \<Rightarrow> (int \<times> string list) list \<Rightarrow> string list \<Rightarrow> Log \<times> audit_fs \<Rightarrow> bool" where
  "log_inv ac segs cur = (\<lambda>(l, fs).
     fs_rotated fs = map (\<lambda>(t, ls). (t, render ls)) segs \<and> sorted_wrt (<) (map fst segs) \<and>
     (case fs_current fs of None \<Rightarrow> cur = [] \<and> \<not> lg_open l | Some c \<Rightarrow> c = render cur) \<and>
     good_files ac '''' (map snd segs) \<and> good ac (end_files ac '''' (map snd segs)) 0 cur \<and>
     lg_prevHash l = end_hash ac (end_files ac '''' (map snd segs)) cur \<and>
     lg_seq l = of_nat (length cur) \<and> \<not> lg_needsNewline l)"

lemma sorted_wrt_snoc: "sorted_wrt (<) (xs @ [y :: int]) \<longleftrightarrow> sorted_wrt (<) xs \<and> (\<forall>x\<in>set xs. x < y)"
  by (simp add: sorted_wrt_append)

lemma put_fresh: "k \<notin> fst ` set m \<Longrightarrow> put k v m = m @ [(k, v)]"
  by (induction m) auto

lemma fs_eta: "fs_current fs = x \<Longrightarrow> fs\<lparr>fs_current := x\<rparr> = fs"
  by simp

lemma maybeRotate_inv:
  assumes "log_inv ac segs cur (l, fs)" and "\<forall>t\<in>fst ` set segs. t < io_now io div second_ns"
  shows "\<exists>segs' cur'. log_inv ac segs' cur' (maybeRotate io (l, fs)) \<and>
     concat (map snd segs') @ cur' = concat (map snd segs) @ cur"
proof (cases "lg_maxFileSize l \<le> 0 \<or> \<not> lg_open l \<or> \<not> io_stat_ok io \<or>
    file_size fs < lg_maxFileSize l \<or> \<not> io_rename_ok io")
  case True
  then have "log_inv ac segs cur (maybeRotate io (l, fs))"
    using assms(1) by (auto simp: log_inv_def maybeRotate_def create_current_def Let_def split: option.splits)
  then show ?thesis by blast
next
  case False
  then have c: "lg_open l" "file_size fs \<ge> lg_maxFileSize l" "lg_maxFileSize l > 0" "io_rename_ok io"
    by (auto simp: maybeRotate_def split: if_splits)
  with assms(1) have cur: "fs_current fs = Some (render cur)"
    by (auto simp: log_inv_def split: option.splits)
  with c have ne: "cur \<noteq> []" by (auto simp: file_size_def)
  let ?t = "io_now io div second_ns"
  have new: "?t \<notin> fst ` set (fs_rotated fs)"
    using assms by (force simp: log_inv_def)
  have "log_inv ac (segs @ [(?t, cur)]) [] (maybeRotate io (l, fs))"
    using assms c cur ne new False
    by (auto simp: log_inv_def maybeRotate_def create_current_def Let_def put_fresh good_files_append
        sorted_wrt_snoc end_hash_def)
  then show ?thesis by force
qed

lemma ensureOpen_inv:
  assumes "log_inv ac segs cur st" and "ensureOpen io st = (r, st')"
  shows "log_inv ac segs cur st' \<and> (r = None \<longrightarrow> lg_open (fst st')) \<and> r \<noteq> Some WriteError \<and> r \<noteq> Some SyncError"
  using assms by (cases st) (auto simp: log_inv_def ensureOpen_def create_current_def split: option.splits if_splits)

lemma verifyEntrySig_seal: "codec_ok ac \<Longrightarrow> verifyEntrySig ac (seal ac io l e) = 0"
  by (simp add: verifyEntrySig_def seal_def Let_def codec_ok_def)

lemma utf8_Nil: "valid_utf8 []"
  by (rule valid_utf8_ascii) simp

lemma end_hash_utf8: "codec_ok ac \<Longrightarrow> valid_utf8 h \<Longrightarrow> valid_utf8 (end_hash ac h ls)"
  by (simp add: end_hash_def codec_ok_def)

lemma end_files_utf8: "codec_ok ac \<Longrightarrow> valid_utf8 h \<Longrightarrow> valid_utf8 (end_files ac h files)"
  by (induction files arbitrary: h) (simp_all add: end_files_def end_hash_utf8)

lemma log_inv_utf8: "codec_ok ac \<Longrightarrow> log_inv ac segs cur (l, fs) \<Longrightarrow> valid_utf8 (lg_prevHash l)"
  by (simp add: log_inv_def end_hash_utf8 end_files_utf8 utf8_Nil)

text \<open>The entry without the fields the log fills in.\<close>

definition payload :: "Entry \<Rightarrow> Entry" where
  "payload e = e\<lparr>e_Time := None, e_Seq := 0, e_PrevHash := '''', e_Sig := ''''\<rparr>"

lemma seal_utf8:
  assumes "codec_ok ac" and "entry_utf8 e" and "valid_utf8 (lg_prevHash l)"
  shows "entry_utf8 (seal ac io l e)"
  using assms by (simp add: entry_utf8_def seal_def Let_def codec_ok_def)

lemma seal_stored:
  assumes "codec_ok ac" and "entry_utf8 e" and "valid_utf8 (lg_prevHash l)"
  shows "\<exists>e'. ac_Unmarshal ac (ac_Marshal ac (seal ac io l e)) = Some e' \<and> payload e' = payload e"
  using assms(1) seal_utf8 [OF assms] by (simp add: codec_ok_def) (simp add: payload_def seal_def Let_def)

lemma seal_fields [simp]: "e_Seq (seal ac io l e) = lg_seq l + 1" "e_PrevHash (seal ac io l e) = lg_prevHash l"
  by (simp_all add: seal_def Let_def)

definition stored_line :: "audit_codec \<Rightarrow> append_io \<Rightarrow> Entry \<Rightarrow> Log \<times> audit_fs \<Rightarrow> string" where
  "stored_line ac io e st =
     ac_Marshal ac (seal ac io (fst (snd (ensureOpen io (maybeRotate io st)))) (redact_entry (lg_redactor (fst st)) e))"

text \<open>One append: either nothing reached the files, or exactly the new line did.\<close>

lemma doAppend_inv:
  assumes "codec_ok ac" and "log_inv ac segs cur st"
    and "\<forall>t\<in>fst ` set segs. t < io_now io div second_ns"
    and "io_write io = WriteOK \<or> io_write io = WriteFailed 0"
    and "length (stored_line ac io e st) < maxToken"
    and "doAppend ac io e st = (r, st')" and "entry_utf8 (redact_entry (lg_redactor (fst st)) e)"
  shows "\<exists>segs' cur'. log_inv ac segs' cur' st' \<and>
     concat (map snd segs') @ cur' = concat (map snd segs) @ cur @
       (if r = None \<or> r = Some SyncError then [stored_line ac io e st] else []) \<and>
     (r = None \<or> r = Some SyncError \<longrightarrow> (\<exists>e'. ac_Unmarshal ac (stored_line ac io e st) = Some e' \<and>
        payload e' = payload (redact_entry (lg_redactor (fst st)) e)))"
proof -
  from assms(2) maybeRotate_inv [of ac segs cur "fst st" "snd st" io] assms(3)
  obtain segs1 cur1 where i1: "log_inv ac segs1 cur1 (maybeRotate io st)"
    and cc: "concat (map snd segs1) @ cur1 = concat (map snd segs) @ cur" by auto
  obtain q l fs where eo: "ensureOpen io (maybeRotate io st) = (q, l, fs)"
    by (cases "ensureOpen io (maybeRotate io st)")
  from ensureOpen_inv [OF i1 eo] have i2: "log_inv ac segs1 cur1 (l, fs)"
    and op: "q = None \<longrightarrow> lg_open l" and q: "q \<noteq> Some WriteError" "q \<noteq> Some SyncError" by auto
  show ?thesis
  proof (cases q)
    case (Some err)
    with assms(6) eo have "r = Some err" "st' = (l, fs)" by (auto simp: doAppend_def Let_def)
    with i2 cc q Some show ?thesis by auto
  next
    case None
    have fc: "fs_current fs = Some (render cur1)"
      using i2 op None by (auto simp: log_inv_def split: option.splits)
    have nl: "\<not> lg_needsNewline l" using i2 by (simp add: log_inv_def)
    let ?line = "stored_line ac io e st"
    show ?thesis
    proof (cases "io_write io")
      case (WriteFailed n)
      with assms(4) have n: "n = 0" by simp
      have "append_bytes (take n out) fs = fs" for out
        using fc n by (simp add: append_bytes_def)
      with WriteFailed None assms(6) eo have "r = Some WriteError" "st' = (l, fs)"
        by (auto simp: doAppend_def Let_def)
      with i2 cc show ?thesis by auto
    next
      case WriteOK
      have sl: "?line = ac_Marshal ac (seal ac io l (redact_entry (lg_redactor (fst st)) e))"
        by (simp add: stored_line_def eo)
      from WriteOK None assms(6) eo nl have r: "r = (if io_sync_ok io then None else Some SyncError)"
        and st': "st' = (l\<lparr>lg_needsNewline := False, lg_seq := lg_seq l + 1, lg_prevHash := ac_Hash ac ?line\<rparr>,
            append_bytes (?line @ [CHR 0x0A]) fs)"
        by (auto simp: doAppend_def Let_def sl)
      let ?h = "end_files ac '''' (map snd segs1)"
      have "good ac (end_hash ac ?h cur1) (0 + of_nat (length cur1)) [?line]"
        using i2 assms(5) verifyEntrySig_seal [OF assms(1)] seal_utf8 [OF assms(1,7) log_inv_utf8 [OF assms(1) i2]]
        by (auto simp: log_inv_def sl intro!: exI [of _ "seal ac io l (redact_entry (lg_redactor (fst st)) e)"])
      with i2 have "good ac ?h 0 (cur1 @ [?line])" by (simp only: good_append log_inv_def case_prod_conv)
      then have "log_inv ac segs1 (cur1 @ [?line]) st'"
        using i2 fc by (simp add: log_inv_def st' append_bytes_def)
      with r cc seal_stored [OF assms(1,7) log_inv_utf8 [OF assms(1) i2], of io] show ?thesis
        by (intro exI [of _ segs1] exI [of _ "cur1 @ [?line]"]) (simp add: sl)
    qed
  qed
qed

section \<open>Restarts\<close>

lemma last_render: "ls \<noteq> [] \<Longrightarrow> last (render ls) = CHR 0x0A"
  by (cases ls rule: rev_cases) auto

lemma good_last:
  assumes "codec_ok ac" and "good ac h q ls" and "ls \<noteq> []"
  shows "\<exists>e. ac_Unmarshal ac (last ls) = Some e \<and> e_Seq e = q + of_nat (length ls)"
proof -
  from assms(3) obtain ls' l where ls: "ls = ls' @ [l]" by (cases ls rule: rev_cases) auto
  with assms(2) good_append [of ac h q ls' l] obtain e where "l = ac_Marshal ac e" and "entry_utf8 e"
    and "e_Seq e = q + of_nat (length ls') + 1" by auto
  with assms(1) ls show ?thesis by (auto simp: codec_ok_def algebra_simps)
qed

lemma Open_inv:
  assumes "codec_ok ac" and "log_inv ac segs cur (l, fs)" and "cur \<noteq> [] \<or> segs = []"
  shows "\<exists>st'. audit_Open ac True fs = Inr st' \<and> log_inv ac segs cur st' \<and> lg_redactor (fst st') = None"
proof (cases "cur = []")
  case True
  have "scan_lines [] = ([], True)" by (simp add: scan_lines_def raw_lines_def)
  with True assms(2,3) have "audit_Open ac True fs = Inr (\<lparr>lg_open = True, lg_redactor = None,
      lg_prevHash = '''', lg_seq = 0, lg_maxFileSize = AuditLogMaxSize, lg_needsNewline = False\<rparr>, create_current fs)"
    by (auto simp: audit_Open_def restoreChain_def log_inv_def split: option.splits)
  moreover have "log_inv ac segs cur (\<lparr>lg_open = True, lg_redactor = None,
      lg_prevHash = '''', lg_seq = 0, lg_maxFileSize = AuditLogMaxSize, lg_needsNewline = False\<rparr>, create_current fs)"
    using True assms(2,3) by (auto simp: log_inv_def create_current_def end_files_def split: option.splits)
  ultimately show ?thesis by auto
next
  case False
  from assms(2) False have c: "fs_current fs = Some (render cur)"
    and g: "good ac (end_files ac '''' (map snd segs)) 0 cur"
    by (auto simp: log_inv_def split: option.splits)
  note read = scan_lines_render [OF assms(1) g] nonempty_lines [OF assms(1) g]
  obtain b bs where bs: "cur = b # bs" using False by (cases cur) auto
  obtain e where e: "ac_Unmarshal ac (last cur) = Some e" "e_Seq e = of_nat (length cur)"
    using good_last [OF assms(1) g False] by auto
  have "restoreChain ac fs l0 = Inr (l0\<lparr>lg_seq := of_nat (length cur), lg_prevHash := ac_Hash ac (last cur)\<rparr>)" for l0
    using c read e last_render [OF False] bs
    by (simp add: restoreChain_def Let_def)
  with assms(2) c False show ?thesis
    by (auto simp: audit_Open_def log_inv_def create_current_def end_hash_def)
qed

section \<open>Executions\<close>

definition log_entries :: "audit_codec \<Rightarrow> audit_fs \<Rightarrow> Entry list" where
  "log_entries ac fs =
     concat (map (\<lambda>seg. map (the \<circ> ac_Unmarshal ac) (filter (\<lambda>b. length b > 0) (fst (scan_lines seg))))
       (discoverAuditSegments fs))"

text \<open>
  \<open>log_reach ac es st\<close>: the log can be in state \<open>st\<close> after the entries \<open>es\<close> (as redacted) were
  written, from an empty directory, through any number of appends, redactor changes and restarts.
  An append may fail in every way but one: a failing write puts no byte in the file. Rotations
  happen in different seconds, an entry is valid UTF-8 and its stored line fits in the scanner's
  buffer, and a restart does not fall between a rotation and the first write to the new file.
\<close>

inductive log_reach :: "audit_codec \<Rightarrow> Entry list \<Rightarrow> Log \<times> audit_fs \<Rightarrow> bool" for ac where
  reach_open: "audit_Open ac True \<lparr>fs_current = None, fs_rotated = []\<rparr> = Inr st \<Longrightarrow> log_reach ac [] st"
| reach_append: "log_reach ac es st \<Longrightarrow> \<forall>t\<in>fst ` set (fs_rotated (snd st)). t < io_now io div second_ns \<Longrightarrow>
    io_write io = WriteOK \<or> io_write io = WriteFailed 0 \<Longrightarrow> length (stored_line ac io e st) < maxToken \<Longrightarrow>
    doAppend ac io e st = (r, st') \<Longrightarrow> entry_utf8 (redact_entry (lg_redactor (fst st)) e) \<Longrightarrow>
    log_reach ac (if r = None \<or> r = Some SyncError then es @ [redact_entry (lg_redactor (fst st)) e] else es) st'"
| reach_redactor: "log_reach ac es (l, fs) \<Longrightarrow> log_reach ac es (SetRedactor f l, fs)"
| reach_restart: "log_reach ac es (l, fs) \<Longrightarrow> fs_current fs \<notin> {None, Some []} \<or> fs_rotated fs = [] \<Longrightarrow>
    audit_Open ac True fs = Inr st' \<Longrightarrow> log_reach ac es st'"

lemma log_reach_inv:
  assumes "codec_ok ac" and "log_reach ac es st"
  shows "\<exists>segs cur. log_inv ac segs cur st \<and>
     map (payload \<circ> the \<circ> ac_Unmarshal ac) (concat (map snd segs) @ cur) = map payload es"
  using assms(2)
proof (induction rule: log_reach.induct)
  case (reach_open st)
  have "log_inv ac [] [] (l, \<lparr>fs_current = None, fs_rotated = []\<rparr>)"
    if "\<not> lg_open l" "lg_prevHash l = ''''" "lg_seq l = 0" "\<not> lg_needsNewline l" for l
    using that by (simp add: log_inv_def end_files_def)
  then have "log_inv ac [] [] (\<lparr>lg_open = False, lg_redactor = None, lg_prevHash = '''', lg_seq = 0,
      lg_maxFileSize = 0, lg_needsNewline = False\<rparr>, \<lparr>fs_current = None, fs_rotated = []\<rparr>)" by simp
  from Open_inv [OF assms(1) this] reach_open show ?case by (intro exI [of _ "[]"]) auto
next
  case (reach_append es st io e r st')
  then obtain segs cur where inv: "log_inv ac segs cur st"
    and es: "map (payload \<circ> the \<circ> ac_Unmarshal ac) (concat (map snd segs) @ cur) = map payload es" by blast
  have "fst ` set segs = fst ` set (fs_rotated (snd st))"
    using inv by (cases st) (force simp: log_inv_def)
  with doAppend_inv [OF assms(1) inv _ reach_append(3,4,5,6)] reach_append(2)
  obtain segs' cur' where "log_inv ac segs' cur' st'"
    and "concat (map snd segs') @ cur' = (concat (map snd segs) @ cur) @
       (if r = None \<or> r = Some SyncError then [stored_line ac io e st] else [])"
    and "r = None \<or> r = Some SyncError \<longrightarrow> (\<exists>e'. ac_Unmarshal ac (stored_line ac io e st) = Some e' \<and>
        payload e' = payload (redact_entry (lg_redactor (fst st)) e))" by auto
  then show ?case
    using es by (intro exI [of _ segs'] exI [of _ cur']) (simp only: map_append, auto)
next
  case (reach_redactor es l fs f)
  then obtain segs cur where "log_inv ac segs cur (l, fs)"
    and es: "map (payload \<circ> the \<circ> ac_Unmarshal ac) (concat (map snd segs) @ cur) = map payload es" by blast
  then have "log_inv ac segs cur (SetRedactor f l, fs)"
    by (simp add: log_inv_def SetRedactor_def split: option.splits)
  with es show ?case by blast
next
  case (reach_restart es l fs st')
  then obtain segs cur where inv: "log_inv ac segs cur (l, fs)"
    and es: "map (payload \<circ> the \<circ> ac_Unmarshal ac) (concat (map snd segs) @ cur) = map payload es" by blast
  from inv reach_restart(2) have "cur \<noteq> [] \<or> segs = []"
    by (auto simp: log_inv_def split: option.splits)
  from Open_inv [OF assms(1) inv this] reach_restart(3) have "log_inv ac segs cur st'" by auto
  with es show ?case by blast
qed

lemma sort_key_sorted: "sorted_wrt (<) (map fst xs) \<Longrightarrow> sort_key fst xs = (xs :: (int \<times> 'a) list)"
proof (induction xs)
  case (Cons x xs)
  then have "sort_key fst xs = xs" and "\<forall>y\<in>set xs. fst x \<le> fst y" by auto
  then show ?case by (simp add: insort_is_Cons)
qed simp

lemma discover_inv:
  assumes "log_inv ac segs cur (l, fs)" and "cur \<noteq> []"
  shows "discoverAuditSegments fs = map render (map snd segs @ [cur])"
proof -
  have "sorted_wrt (<) (map fst (fs_rotated fs))"
    using assms(1) by (auto simp: log_inv_def comp_def case_prod_unfold)
  with assms sort_key_sorted [of "fs_rotated fs"] show ?thesis
    by (auto simp: discoverAuditSegments_def log_inv_def comp_def case_prod_unfold split: option.splits)
qed

lemma good_files_inv:
  assumes "log_inv ac segs cur (l, fs)" and "cur \<noteq> []"
  shows "good_files ac '''' (map snd segs @ [cur])"
  using assms by (simp add: log_inv_def good_files_append)

lemma log_entries_inv:
  assumes "codec_ok ac" and "log_inv ac segs cur (l, fs)" and "cur \<noteq> []"
  shows "log_entries ac fs = map (the \<circ> ac_Unmarshal ac) (concat (map snd segs) @ cur)"
proof -
  have "map (\<lambda>seg. map (the \<circ> ac_Unmarshal ac) (filter (\<lambda>b. length b > 0) (fst (scan_lines seg)))) (map render files) =
      map (map (the \<circ> ac_Unmarshal ac)) files" if "good_files ac h files" for files h
    using that
  proof (induction files arbitrary: h)
    case (Cons ls files)
    then have "good ac h 0 ls" by simp
    from scan_lines_render [OF assms(1) this] nonempty_lines [OF assms(1) this] Cons show ?case by auto
  qed simp
  note this [OF good_files_inv [OF assms(2,3)]]
  then have "log_entries ac fs = concat (map (map (the \<circ> ac_Unmarshal ac)) (map snd segs @ [cur]))"
    unfolding log_entries_def discover_inv [OF assms(2,3)] by (rule arg_cong)
  then show ?thesis by (simp add: map_concat)
qed

section \<open>A concrete codec\<close>

text \<open>
  An instance of the codec, which shows that \<open>codec_ok\<close> can hold: each field becomes a string, a
  string becomes two letters per byte, a comma ends each field. The hash and the signature of a
  text are its letters.
\<close>

definition enc_str :: "string \<Rightarrow> string" where
  "enc_str s = concat (map (\<lambda>c. [char_of (65 + byte c div 16), char_of (65 + byte c mod 16)]) s)"

fun dec_str :: "string \<Rightarrow> string" where
  "dec_str (a # b # s) = char_of ((byte a - 65) * 16 + (byte b - 65)) # dec_str s"
| "dec_str s = []"

lemma byte_less: "byte c < 256"
  unfolding byte_def by (rule nat_of_char_less_256)

declare byte_char_of [simp]

lemma dec_enc [simp]: "dec_str (enc_str s) = s"
proof (induction s)
  case (Cons c s)
  have d: "65 + byte c div 16 < 256" "65 + byte c mod 16 < 256" using byte_less [of c] by auto
  have "byte c div 16 * 16 + byte c mod 16 = byte c" by simp
  then have "char_of (byte c div 16 * 16 + byte c mod 16) = c" by (simp only: byte_def char_of_char)
  with d Cons show ?case by (simp add: enc_str_def)
qed (simp add: enc_str_def)

lemma enc_str_chars: "c \<in> set (enc_str s) \<Longrightarrow> 65 \<le> byte c \<and> byte c < 128"
proof -
  assume "c \<in> set (enc_str s)"
  then obtain d n where "c = char_of (65 + n)" "n = byte d div 16 \<or> n = byte d mod 16"
    by (auto simp: enc_str_def)
  moreover from this byte_less [of d] have "65 + n < 128" by auto
  ultimately show ?thesis by simp
qed

definition enc_int :: "int \<Rightarrow> string" where
  "enc_int i = (if i < 0 then CHR ''-'' # replicate (nat (- i)) (CHR ''x'') else replicate (nat i) (CHR ''x''))"

definition dec_int :: "string \<Rightarrow> int" where
  "dec_int s = (if s \<noteq> [] \<and> hd s = CHR ''-'' then - int (length s - 1) else int (length s))"

lemma dec_enc_int [simp]: "dec_int (enc_int i) = i"
proof (cases "0 < i")
  case True
  then obtain k where "i = int (Suc k)" by (metis pos_int_cases Suc_pred')
  then show ?thesis by (simp add: enc_int_def dec_int_def)
qed (auto simp: enc_int_def dec_int_def)

definition enc_bool :: "bool \<Rightarrow> string" where "enc_bool b = (if b then ''t'' else [])"

definition enc_time :: "time option \<Rightarrow> string" where
  "enc_time t = (case t of None \<Rightarrow> [] | Some i \<Rightarrow> CHR ''t'' # enc_int i)"

definition dec_time :: "string \<Rightarrow> time option" where
  "dec_time s = (case s of [] \<Rightarrow> None | _ # r \<Rightarrow> Some (dec_int r))"

lemma dec_enc_time [simp]: "dec_time (enc_time t) = t"
  by (cases t) (auto simp: enc_time_def dec_time_def)

definition entry_fields :: "Entry \<Rightarrow> string list" where
  "entry_fields e = [enc_time (e_Time e), e_Caller e, e_Host e, e_User e, e_Principal e, e_Command e,
     e_TTL e, enc_int (uint (e_Serial e)), e_SessionID e, e_Outcome e, enc_int (e_ExitCode e), e_Err e,
     e_Elevation e, enc_bool (e_PTY e), e_PolicyRule e, enc_bool (e_DryRun e), e_Warning e,
     e_ApprovalID e, e_ApprovedBy e, e_Anomaly e, enc_int (uint (e_Seq e)), e_PrevHash e, e_Sig e]"

definition fields_entry :: "string list \<Rightarrow> Entry option" where
  "fields_entry f = (if length f = 23 then
     Some \<lparr>e_Time = dec_time (f ! 0), e_Caller = f ! 1, e_Host = f ! 2, e_User = f ! 3, e_Principal = f ! 4,
       e_Command = f ! 5, e_TTL = f ! 6, e_Serial = word_of_int (dec_int (f ! 7)), e_SessionID = f ! 8,
       e_Outcome = f ! 9, e_ExitCode = dec_int (f ! 10), e_Err = f ! 11, e_Elevation = f ! 12,
       e_PTY = (f ! 13 \<noteq> []), e_PolicyRule = f ! 14, e_DryRun = (f ! 15 \<noteq> []), e_Warning = f ! 16,
       e_ApprovalID = f ! 17, e_ApprovedBy = f ! 18, e_Anomaly = f ! 19,
       e_Seq = word_of_int (dec_int (f ! 20)), e_PrevHash = f ! 21, e_Sig = f ! 22\<rparr>
     else None)"

definition list_codec :: audit_codec where
  "list_codec = \<lparr>ac_Marshal = (\<lambda>e. concat (map (\<lambda>f. enc_str f @ '','') (entry_fields e))),
     ac_Unmarshal = (\<lambda>s. fields_entry (map dec_str (butlast (Split1 (CHR '','') s)))),
     ac_Hash = (\<lambda>s. CHR ''h'' # enc_str s), ac_Sign = enc_str, ac_Verify = (\<lambda>p s. s = enc_str p)\<rparr>"

lemma fields_entry_fields [simp]: "fields_entry (entry_fields e) = Some e"
  by (simp add: fields_entry_def entry_fields_def enc_bool_def)

lemma no_comma: "CHR '','' \<notin> set (enc_str s)"
  using enc_str_chars [of "CHR '',''" s] by (auto simp: byte_def)

lemma Split1_fields: "Split1 (CHR '','') (concat (map (\<lambda>f. enc_str f @ '','') fs)) = map enc_str fs @ [[]]"
  by (induction fs) (auto simp: Split1_append no_comma)

lemma length_enc_str [simp]: "length (enc_str s) = 2 * length s"
  by (induction s) (auto simp: enc_str_def)

lemma length_marshal:
  "length (ac_Marshal list_codec e) = 23 + 2 * sum_list (map length (entry_fields e))"
  by (simp add: list_codec_def entry_fields_def length_concat)

lemma list_codec_sign: "ac_Sign list_codec p = enc_str p"
  by (simp add: list_codec_def)

lemma codec_ok_list: "codec_ok list_codec"
proof -
  have "c \<notin> set (concat (map (\<lambda>f. enc_str f @ '','') fs))" if "byte c < 44" for fs and c
    using that enc_str_chars [of c] by (induction fs) (auto simp: byte_def)
  then have "CHR 0x0A \<notin> set (concat (map (\<lambda>f. enc_str f @ '','') fs))"
    and "CHR 0x0D \<notin> set (concat (map (\<lambda>f. enc_str f @ '','') fs))" for fs
    by (simp_all add: byte_def)
  moreover have "map (dec_str \<circ> enc_str) fs = fs" for fs by (simp add: comp_def)
  moreover have "valid_utf8 (enc_str p)" "valid_utf8 (CHR ''h'' # enc_str p)" for p
    by (rule valid_utf8_ascii, auto simp: byte_def dest: enc_str_chars)+
  ultimately show ?thesis
    unfolding codec_ok_def list_codec_def
    by (auto simp: Split1_fields) (simp add: entry_fields_def)
qed

definition sample_io :: append_io where
  "sample_io = \<lparr>io_now = 0, io_stat_ok = True, io_rename_ok = True, io_rotate_open_ok = True,
     io_ensure_open_ok = True, io_write = WriteOK, io_sync_ok = True\<rparr>"

lemma sample_io_simps [simp]: "io_write sample_io = WriteOK" "io_sync_ok sample_io"
  by (simp_all add: sample_io_def)

definition fresh_log :: Log where
  "fresh_log = \<lparr>lg_open = True, lg_redactor = None, lg_prevHash = '''', lg_seq = 0,
     lg_maxFileSize = AuditLogMaxSize, lg_needsNewline = False\<rparr>"

definition fresh_fs :: audit_fs where
  "fresh_fs = \<lparr>fs_current = Some [], fs_rotated = []\<rparr>"

lemma fresh_reach: "log_reach ac [] (fresh_log, fresh_fs)"
  by (rule reach_open)
     (simp add: audit_Open_def restoreChain_def create_current_def fresh_log_def fresh_fs_def)

lemma fresh_append:
  assumes "io_write io = WriteOK" and "io_sync_ok io"
  shows "doAppend ac io e (fresh_log, fresh_fs) =
     (None, fresh_log\<lparr>lg_seq := 1, lg_prevHash := ac_Hash ac (ac_Marshal ac (seal ac io fresh_log e))\<rparr>,
      \<lparr>fs_current = Some (ac_Marshal ac (seal ac io fresh_log e) @ [CHR 0x0A]), fs_rotated = []\<rparr>)"
  using assms
  by (simp add: doAppend_def fresh_log_def fresh_fs_def ensureOpen_def maybeRotate_def file_size_def
      AuditLogMaxSize_def redact_entry_def append_bytes_def Let_def)

lemma fresh_stored: "stored_line ac io e (fresh_log, fresh_fs) = ac_Marshal ac (seal ac io fresh_log e)"
  by (simp add: stored_line_def fresh_log_def fresh_fs_def ensureOpen_def maybeRotate_def file_size_def
      AuditLogMaxSize_def redact_entry_def)

lemma sample_utf8: "entry_utf8 (redact_entry (lg_redactor fresh_log) zero_entry)" "entry_utf8 zero_entry"
  by (simp_all add: entry_utf8_def redact_entry_def fresh_log_def zero_entry_def utf8_Nil)

lemma sample_line: "length (stored_line list_codec sample_io zero_entry (fresh_log, fresh_fs)) < maxToken"
  unfolding fresh_stored
  by (simp add: seal_def Let_def zero_entry_def sample_io_def fresh_log_def length_marshal
      entry_fields_def enc_time_def enc_int_def enc_bool_def maxToken_def list_codec_sign)

section \<open>Properties\<close>



text \<open>
  An entry that is too long for the scanner is accepted by \<open>Append\<close>, and then neither the
  service can reopen its log nor does the log verify.
\<close>

theorem oversized_entry_blocks_reopen:
  assumes "codec_ok ac" and "io_write io = WriteOK" and "io_sync_ok io"
    and "maxToken \<le> length (ac_Marshal ac (seal ac io fresh_log e))"
    and "doAppend ac io e (fresh_log, fresh_fs) = (r, l, fs)"
  shows "r = None \<and> audit_Open ac open_ok fs = Inl ScanFailed \<and> 0 < snd (verifyAuditSegments ac sigs fs)"
proof -
  let ?line = "ac_Marshal ac (seal ac io fresh_log e)"
  from fresh_append [OF assms(2,3), of ac e] assms(5) have r: "r = None"
    and fs: "fs = \<lparr>fs_current = Some (render [?line]), fs_rotated = []\<rparr>" by auto
  have "CHR 0x0A \<notin> set ?line" using assms(1) by (simp add: codec_ok_def)
  then have "scan_lines (render [?line]) = ([], False)"
    using raw_lines_render [of "[?line]"] assms(4) by (simp add: scan_lines_def)
  with r fs show ?thesis
    by (simp add: audit_Open_def restoreChain_def verifyAuditSegments_def discoverAuditSegments_def
        verifyAuditChain_def auditFileBounds_def)
qed

theorem oversized_entry_blocks_reopen_witness:
  "\<exists>l fs. doAppend list_codec sample_io (zero_entry\<lparr>e_Host := replicate 262144 (CHR ''<'')\<rparr>) (fresh_log, fresh_fs) =
     (None, l, fs) \<and> audit_Open list_codec True fs = Inl ScanFailed"
proof -
  let ?e = "zero_entry\<lparr>e_Host := replicate 262144 (CHR ''<'')\<rparr>"
  obtain r l fs where d: "doAppend list_codec sample_io ?e (fresh_log, fresh_fs) = (r, l, fs)"
    by (cases "doAppend list_codec sample_io ?e (fresh_log, fresh_fs)")
  have "e_Host (seal list_codec sample_io fresh_log ?e) = replicate 262144 (CHR ''<'')"
    by (simp add: seal_def Let_def)
  then have "maxToken \<le> length (ac_Marshal list_codec (seal list_codec sample_io fresh_log ?e))"
    by (simp add: length_marshal entry_fields_def maxToken_def)
  from oversized_entry_blocks_reopen [OF codec_ok_list _ _ this d, of True True] d show ?thesis
    by (auto simp: sample_io_def)
qed

text \<open>The lines are entries that link to one another, the first to \<open>h\<close>.\<close>

fun linked :: "audit_codec \<Rightarrow> string \<Rightarrow> string list \<Rightarrow> bool" where
  "linked ac h [] \<longleftrightarrow> True"
| "linked ac h (l # ls) \<longleftrightarrow> (\<exists>e. ac_Unmarshal ac l = Some e \<and> e_PrevHash e = h) \<and> linked ac (ac_Hash ac l) ls"

lemma linked_append: "linked ac h (xs @ ys) \<longleftrightarrow> linked ac h xs \<and> linked ac (end_hash ac h xs) ys"
  by (induction xs arbitrary: h) (auto simp: end_hash_def)

lemma chain_loop_errs: "snd (chain_loop ac sigs prev ls (tot, errs)) \<ge> errs"
proof (induction ls arbitrary: prev tot errs)
  case (Cons l ls)
  have "errs \<le> snd (chain_loop ac sigs p ls (t, errs'))" if "errs \<le> errs'" for p t errs'
    using Cons.IH [where prev = p and tot = t and errs = errs'] that by (rule order_trans [rotated])
  then show ?case by (auto simp: Let_def split: option.splits)
qed simp

lemma chain_loop_filter:
  "chain_loop ac sigs prev ls acc = chain_loop ac sigs prev (filter (\<lambda>b. length b > 0) ls) acc"
  by (induction ac sigs prev ls acc rule: chain_loop.induct) (auto simp: Let_def split: option.splits)

lemma chain_loop_linked:
  assumes "snd (chain_loop ac sigs (if first then None else Some (h, q)) ls (tot, 0)) = 0" and "\<forall>l\<in>set ls. l \<noteq> []"
    and "first \<Longrightarrow> ls \<noteq> [] \<Longrightarrow> \<exists>e. ac_Unmarshal ac (hd ls) = Some e \<and> e_PrevHash e = h"
  shows "linked ac h ls"
  using assms
proof (induction ls arbitrary: h q first tot)
  case (Cons l ls)
  obtain e where e: "ac_Unmarshal ac l = Some e"
    using Cons.prems(1,2)
      chain_loop_errs [where ac = ac and sigs = sigs and prev = "if first then None else Some (h, q)"
        and ls = ls and tot = tot and errs = 1]
    by (cases "ac_Unmarshal ac l") auto
  define k where "k = (case (if first then None else Some (h, q)) of None \<Rightarrow> 0 | Some (h, q) \<Rightarrow>
      (if e_Seq e \<noteq> q + 1 then 1 else 0) + (if e_PrevHash e \<noteq> h then 1 else 0)) +
      (if sigs then verifyEntrySig ac e else 0)"
  have run: "snd (chain_loop ac sigs (Some (ac_Hash ac l, e_Seq e)) ls (tot + 1, k)) = 0"
    using Cons.prems(1,2) e by (simp add: Let_def k_def)
  with chain_loop_errs [where ac = ac and sigs = sigs and prev = "Some (ac_Hash ac l, e_Seq e)"
      and ls = ls and tot = "tot + 1" and errs = k] have k: "k = 0" by simp
  then have "e_PrevHash e = h"
    using Cons.prems(3) e by (cases first) (auto simp: k_def split: if_splits)
  with e Cons.IH [of False "ac_Hash ac l" "e_Seq e" "tot + 1"] run k Cons.prems(2) show ?case by simp
qed simp

text \<open>A chain that starts at the genesis hash is determined by the hash of its last line.\<close>

lemma linked_unique:
  assumes "linked ac '''' as" and "linked ac '''' bs" and "end_hash ac '''' as = end_hash ac '''' bs"
    and "\<forall>l. ac_Hash ac l \<noteq> ''''" and "\<forall>a\<in>set as. \<forall>b\<in>set bs. ac_Hash ac a = ac_Hash ac b \<longrightarrow> a = b"
  shows "as = bs"
  using assms(1-3,5)
proof (induction as arbitrary: bs rule: rev_induct)
  case Nil
  with assms(4) show ?case unfolding end_hash_def by metis
next
  case (snoc a as)
  from snoc.prems(3) assms(4) have "bs \<noteq> []" by auto
  then obtain bs' b where bs: "bs = bs' @ [b]" by (cases bs rule: rev_cases) auto
  with snoc.prems(3,4) have ab: "a = b" by auto
  from snoc.prems(1,2) bs ab have l: "linked ac '''' as" "linked ac '''' bs'"
    and eh: "end_hash ac '''' as = end_hash ac '''' bs'" by (auto simp: linked_append)
  have "as = bs'" by (rule snoc.IH [OF l eh]) (use snoc.prems(4) bs in auto)
  with bs ab show ?case by simp
qed

definition content_lines :: "string \<Rightarrow> string list" where
  "content_lines c = filter (\<lambda>b. length b > 0) (fst (scan_lines c))"

lemma verified_linked:
  assumes "snd (verifyAuditChain ac sigs c) = 0" and "auditFileBounds ac c = Some (h, z)"
  shows "linked ac h (content_lines c)" and "content_lines c \<noteq> []" and "ac_Hash ac (last (content_lines c)) = z"
proof -
  obtain ls ok where sc: "scan_lines c = (ls, ok)" by (cases "scan_lines c")
  from assms(2) sc obtain b bs e where cl: "content_lines c = b # bs" "ac_Unmarshal ac b = Some e"
      "e_PrevHash e = h" "ac_Hash ac (last (b # bs)) = z"
    by (auto simp: auditFileBounds_def content_lines_def split: list.splits option.splits if_splits)
  have "snd (chain_loop ac sigs (if True then None else Some (h, 0)) (content_lines c) (0, 0)) = 0"
    using assms(1) sc chain_loop_filter [of ac sigs None ls "(0, 0)"]
    by (auto simp: verifyAuditChain_def content_lines_def split: prod.splits if_splits)
  then show "linked ac h (content_lines c)"
  proof (rule chain_loop_linked)
    show "\<forall>l\<in>set (content_lines c). l \<noteq> []" by (simp add: content_lines_def)
    show "\<exists>e. ac_Unmarshal ac (hd (content_lines c)) = Some e \<and> e_PrevHash e = h" using cl by simp
  qed
  show "content_lines c \<noteq> []" and "ac_Hash ac (last (content_lines c)) = z"
    using cl by simp_all
qed

text \<open>All lines of a directory, oldest segment first.\<close>

definition stored_lines :: "audit_fs \<Rightarrow> string list" where
  "stored_lines fs = concat (map content_lines (discoverAuditSegments fs))"

lemma segments_loop_errs: "snd (segments_loop ac sigs first h segs (tot, errs)) \<ge> errs"
proof (induction segs arbitrary: first h tot errs)
  case (Cons seg segs)
  have "errs \<le> snd (segments_loop ac sigs False h' segs (t, errs'))" if "errs \<le> errs'" for h' t errs'
    using Cons.IH [where first = False and h = h' and tot = t and errs = errs'] that by (rule order_trans [rotated])
  then show ?case by (auto simp: Let_def split: option.splits prod.splits)
qed simp

lemma segments_loop_linked:
  assumes "snd (segments_loop ac sigs first h segs (tot, 0)) = 0" and "first \<longrightarrow> h = ''''"
  shows "linked ac h (concat (map content_lines segs)) \<and> (\<forall>seg\<in>set segs. content_lines seg \<noteq> [])"
  using assms
proof (induction segs arbitrary: first h tot)
  case (Cons seg segs)
  obtain t e where v: "verifyAuditChain ac sigs seg = (t, e)" by (cases "verifyAuditChain ac sigs seg")
  obtain fp lh where b: "auditFileBounds ac seg = Some (fp, lh)"
    using Cons.prems(1) v segments_loop_errs [where segs = segs and first = False and ac = ac and sigs = sigs and h = h
        and tot = "tot + t" and errs = "e + 1"]
    by (cases "auditFileBounds ac seg") auto
  let ?bad = "if first then fp \<noteq> '''' else fp \<noteq> h"
  have run: "snd (segments_loop ac sigs False lh segs (tot + t, e + (if ?bad then 1 else 0))) = 0"
    using Cons.prems(1) v b by (simp add: Let_def)
  with segments_loop_errs [where segs = segs and first = False and ac = ac and sigs = sigs and h = lh
      and tot = "tot + t" and errs = "e + (if ?bad then 1 else 0)"]
  have e: "e = 0" and bad: "\<not> ?bad" by (auto split: if_splits)
  then have fp: "fp = h" using Cons.prems(2) by (auto split: if_splits)
  have "snd (verifyAuditChain ac sigs seg) = 0" using v e by simp
  note l = verified_linked [OF this b]
  have "linked ac lh (concat (map content_lines segs)) \<and> (\<forall>seg\<in>set segs. content_lines seg \<noteq> [])"
    using run e bad by (intro Cons.IH [where first = False and tot = "tot + t"]) simp_all
  with l fp show ?case by (simp add: linked_append end_hash_def)
qed simp

lemma verified_segments:
  assumes "snd (verifyAuditSegments ac sigs fs) = 0"
  shows "linked ac '''' (stored_lines fs)" and "stored_lines fs \<noteq> []"
proof -
  from assms have ne: "discoverAuditSegments fs \<noteq> []"
    and "snd (segments_loop ac sigs True '''' (discoverAuditSegments fs) (0, 0)) = 0"
    by (auto simp: verifyAuditSegments_def Let_def split: if_splits)
  from segments_loop_linked [OF this(2)] ne show "linked ac '''' (stored_lines fs)" and "stored_lines fs \<noteq> []"
    by (auto simp: stored_lines_def)
qed

text \<open>
  C12: the log is tamper evident. Two directories for which \<open>audit verify\<close> reports no error and
  whose last lines have the same hash hold the same lines, in the same order, as long as no hash
  is empty and no two of their lines collide: against the hash of its last line, no line of a
  log that verifies can have been changed, inserted, dropped (at the start too) or reordered.
\<close>

theorem audit_tamper_evident:
  assumes "snd (verifyAuditSegments ac sigs fs1) = 0" and "snd (verifyAuditSegments ac sigs fs2) = 0"
    and "ac_Hash ac (last (stored_lines fs1)) = ac_Hash ac (last (stored_lines fs2))"
    and "\<forall>l. ac_Hash ac l \<noteq> ''''"
    and "\<forall>a\<in>set (stored_lines fs1). \<forall>b\<in>set (stored_lines fs2). ac_Hash ac a = ac_Hash ac b \<longrightarrow> a = b"
  shows "stored_lines fs1 = stored_lines fs2"
  using verified_segments [OF assms(1)] verified_segments [OF assms(2)] assms(3-)
  by (intro linked_unique) (simp_all add: end_hash_def)

theorem audit_tamper_evident_witness:
  "\<exists>c. snd (verifyAuditSegments list_codec True \<lparr>fs_current = Some c, fs_rotated = []\<rparr>) = 0 \<and>
     (\<forall>c'\<in>{c, CHR 0x0A # c}. stored_lines \<lparr>fs_current = Some c, fs_rotated = []\<rparr> =
        stored_lines \<lparr>fs_current = Some c', fs_rotated = []\<rparr>)"
proof -
  let ?line = "ac_Marshal list_codec (seal list_codec sample_io fresh_log zero_entry)"
  let ?c = "render [?line]"
  let ?fs = "\<lambda>c. \<lparr>fs_current = Some c, fs_rotated = []\<rparr>"
  have u: "entry_utf8 (seal list_codec sample_io fresh_log zero_entry)"
    by (rule seal_utf8 [OF codec_ok_list sample_utf8(2)]) (simp add: fresh_log_def utf8_Nil)
  have g: "good list_codec '''' 0 [?line]"
    using verifyEntrySig_seal [OF codec_ok_list, of sample_io fresh_log zero_entry]
      sample_line [unfolded fresh_stored] u
    by (auto simp: fresh_log_def intro!: exI [of _ "seal list_codec sample_io fresh_log zero_entry"])
  have nl: "CHR 0x0A \<notin> set ?line" "CHR 0x0D \<notin> set ?line" "?line \<noteq> []" "length ?line < maxToken"
    using good_lines [OF codec_ok_list g, of ?line] by auto
  have "raw_lines (render [[], ?line]) = [[], ?line]" using nl by (intro raw_lines_render) auto
  then have s2: "scan_lines (CHR 0x0A # ?c) = ([[], ?line], True)"
    using nl dropCR_id [OF nl(2)] by (simp add: scan_lines_def maxToken_def dropCR_def)
  have s1: "scan_lines ?c = ([?line], True)" by (rule scan_lines_render [OF codec_ok_list g])
  have b: "auditFileBounds list_codec ?c = Some ('''', end_hash list_codec '''' [?line])"
    using auditFileBounds_good [OF codec_ok_list g] by simp
  have v: "snd (verifyAuditSegments list_codec True (?fs ?c)) = 0"
    using verifyAuditChain_good [OF codec_ok_list g] b
    by (simp add: verifyAuditSegments_def discoverAuditSegments_def Let_def del: render_simps)
  have cl: "stored_lines (?fs ?c) = [?line]" "stored_lines (?fs (CHR 0x0A # ?c)) = [?line]"
    using s1 s2 nl by (simp_all add: stored_lines_def discoverAuditSegments_def content_lines_def del: render_simps)
  have v2: "verifyAuditSegments list_codec True (?fs (CHR 0x0A # ?c)) = verifyAuditSegments list_codec True (?fs ?c)"
    using s1 s2 nl by (simp add: verifyAuditSegments_def discoverAuditSegments_def verifyAuditChain_def auditFileBounds_def
        Let_def del: render_simps)
  have "stored_lines (?fs ?c) = stored_lines (?fs (CHR 0x0A # ?c))"
    by (rule audit_tamper_evident [OF v, of "?fs (CHR 0x0A # ?c)"])
      (use v v2 cl in \<open>simp_all add: list_codec_def del: render_simps\<close>)
  then show ?thesis using v by (intro exI [of _ ?c]) simp
qed

end
