(* ===== verification/Ssh_Run.thy ===== *)
theory Ssh_Run
  imports GoStrings
begin

text \<open>
  The SSH client, \<open>src/internal/ssh/run.go\<close> and \<open>shell.go\<close>: bounded capture of the output of one
  command, and the marker protocol that runs commands one after the other in a live shell.

  The connection itself is \<open>golang.org/x/crypto/ssh\<close>. What a remote command does is an argument:
  the chunks its streams deliver and how the wait for it ends. The reader goroutine of a shell is
  a function of the results of \<open>bufio.Reader.ReadLine\<close>, and \<open>Exec\<close> of the events its \<open>select\<close> sees.
\<close>

section \<open>Bounded output\<close>

definition maxOutputBytes :: nat where
  "maxOutputBytes = 10 * 1024 * 1024"

record limitedWriter =
  lw_buf :: string
  lw_max :: int
  lw_truncated :: bool

definition lw_Write :: "string \<Rightarrow> limitedWriter \<Rightarrow> nat \<times> limitedWriter" where
  "lw_Write p lw =
     (let rem = lw_max lw - int (length (lw_buf lw)) in
      if rem \<le> 0 then (length p, if length p > 0 then lw\<lparr>lw_truncated := True\<rparr> else lw)
      else
        let (keep, lw) = (if int (length p) > rem then (take (nat rem) p, lw\<lparr>lw_truncated := True\<rparr>) else (p, lw))
        in (length p, lw\<lparr>lw_buf := lw_buf lw @ keep\<rparr>))"

definition lw_output :: "limitedWriter \<Rightarrow> string" where
  "lw_output lw =
     (if \<not> lw_truncated lw then lw_buf lw
      else lw_buf lw @ [CHR 0x0A] @ ''[output truncated: limit of '' @ Itoa (lw_max lw) @ '' bytes exceeded]'' @ [CHR 0x0A])"

definition lw_new :: limitedWriter where
  "lw_new = \<lparr>lw_buf = [], lw_max = int maxOutputBytes, lw_truncated = False\<rparr>"

text \<open>The copy loop of the library: chunk after chunk.\<close>

definition lw_copy :: "string list \<Rightarrow> limitedWriter \<Rightarrow> limitedWriter" where
  "lw_copy chunks lw = fold (\<lambda>p lw. snd (lw_Write p lw)) chunks lw"

section \<open>One command\<close>

record ssh_result =
  sr_Stdout :: string
  sr_Stderr :: string
  sr_ExitCode :: int

datatype run_error = ExitError int | RunFailed

datatype exec_error = SessionFailed | PtyFailed | ExecCancelled | ExecTimeout | ExecFailed run_error

text \<open>What the \<open>select\<close> of \<open>waitResult\<close> sees first.\<close>

datatype wait_event = WaitDone "run_error option" | WaitCancelled | WaitTimeout

text \<open>The error or result of the run, and whether the remote process was signalled.\<close>

definition waitResult :: "wait_event \<Rightarrow> (exec_error + run_error option) \<times> bool" where
  "waitResult ev =
     (case ev of
        WaitDone err \<Rightarrow> (Inr err, False)
      | WaitCancelled \<Rightarrow> (Inl ExecCancelled, True)
      | WaitTimeout \<Rightarrow> (Inl ExecTimeout, True))"

definition finishResult :: "ssh_result \<Rightarrow> run_error option \<Rightarrow> exec_error + ssh_result" where
  "finishResult res runErr =
     (case runErr of
        None \<Rightarrow> Inr res
      | Some (ExitError code) \<Rightarrow> Inr (res\<lparr>sr_ExitCode := code\<rparr>)
      | Some RunFailed \<Rightarrow> Inl (ExecFailed RunFailed))"

record remote_run =
  rr_session_ok :: bool
  rr_pty_ok :: bool
  rr_stdout :: "string list"
  rr_stderr :: "string list"
  rr_wait :: wait_event

definition ExecOnce :: "bool \<Rightarrow> remote_run \<Rightarrow> exec_error + ssh_result" where
  "ExecOnce pty rr =
     (if \<not> rr_session_ok rr then Inl SessionFailed
      else if pty \<and> \<not> rr_pty_ok rr then Inl PtyFailed
      else
        (case fst (waitResult (rr_wait rr)) of
           Inl err \<Rightarrow> Inl err
         | Inr runErr \<Rightarrow>
             let stdout = lw_output (lw_copy (rr_stdout rr) lw_new);
                 stderr = (if pty then '''' else lw_output (lw_copy (rr_stderr rr) lw_new))
             in finishResult \<lparr>sr_Stdout = stdout, sr_Stderr = stderr, sr_ExitCode = 0\<rparr> runErr))"

section \<open>Stderr of a shell\<close>

record syncBuf =
  sb_buf :: string
  sb_truncated :: bool

definition sb_Write :: "string \<Rightarrow> syncBuf \<Rightarrow> nat \<times> syncBuf" where
  "sb_Write p s =
     (let rem = int maxOutputBytes - int (length (sb_buf s)) in
      if rem \<le> 0 then (length p, if length p > 0 then s\<lparr>sb_truncated := True\<rparr> else s)
      else
        let (keep, s) = (if int (length p) > rem then (take (nat rem) p, s\<lparr>sb_truncated := True\<rparr>) else (p, s))
        in (length p, s\<lparr>sb_buf := sb_buf s @ keep\<rparr>))"

definition sb_reset :: "syncBuf \<Rightarrow> syncBuf" where
  "sb_reset s = s\<lparr>sb_buf := [], sb_truncated := False\<rparr>"

definition sb_output :: "syncBuf \<Rightarrow> string" where
  "sb_output s =
     (if \<not> sb_truncated s then sb_buf s
      else sb_buf s @ [CHR 0x0A] @ ''[stderr truncated: limit of '' @ Itoa (int maxOutputBytes) @ '' bytes exceeded]'' @ [CHR 0x0A])"

section \<open>The reader of a shell\<close>

definition shellReaderLineSlack :: nat where
  "shellReaderLineSlack = 4096"

datatype line_error = LineTooLong | ReadEOF | ReadError

record lineRes =
  lr_text :: string
  lr_err :: "line_error option"

text \<open>One result of \<open>ReadLine\<close>: a fragment, whether more of the line follows, and the error.\<close>

record read_line =
  rl_frag :: string
  rl_isPrefix :: bool
  rl_err :: "line_error option"

fun shellReader :: "string \<Rightarrow> read_line list \<Rightarrow> lineRes list" where
  "shellReader line [] = []"
| "shellReader line (r # rs) =
     (let frag = rl_frag r in
      if length frag > 0 \<and> length line + length frag > maxOutputBytes + shellReaderLineSlack
      then [\<lparr>lr_text = [], lr_err = Some LineTooLong\<rparr>]
      else
        let line = (if length frag > 0 then line @ frag else line) in
        case rl_err r of
          None \<Rightarrow>
            if rl_isPrefix r then shellReader line rs
            else \<lparr>lr_text = line @ [CHR 0x0A], lr_err = None\<rparr> # shellReader [] rs
        | Some err \<Rightarrow> [\<lparr>lr_text = line, lr_err = Some err\<rparr>])"

section \<open>Running a command in a shell\<close>

record ShellSession =
  sh_marker :: string
  sh_stderr :: "syncBuf option"
  sh_broken :: bool

datatype shell_error = Desynchronised | WriteCommandFailed | OutputLimit | ShellCancelled | ShellTimeout
  | BadExitCode string | ReadInterrupted line_error

datatype shell_event = EvCancelled | EvDeadline | EvLine lineRes | EvStderr string

definition markerLine :: "string \<Rightarrow> string" where
  "markerLine marker =
     (let rc = marker @ ''_RC''; q = [CHR 0x27]; n = [CHR 0x5C] @ ''n'';
          call = (\<lambda>printf. printf @ '' '' @ q @ ''%s:%d'' @ n @ q @ '' '' @ q @ marker @ q @ '' '' @ [CHR 0x22] @ ''${'' @ rc @ ''}'' @ [CHR 0x22])
      in rc @ ''=$?'' @ [CHR 0x0A] @ ''{ '' @ call ''/usr/bin/printf'' @ '' 2>/dev/null || '' @ call ''/bin/printf'' @ ''; }'' @ [CHR 0x0A])"

definition appendOut :: "string \<Rightarrow> string \<Rightarrow> string option" where
  "appendOut text out =
     (if text = '''' then Some out
      else if length out + length text > maxOutputBytes then None
      else Some (out @ text))"

text \<open>
  The loop of \<open>Exec\<close>. The draining of stderr by its own goroutine is the event \<open>EvStderr\<close>. The
  result comes with the session and the events that are left for the next command; the loop has
  not returned when the events run out.
\<close>

fun shell_loop :: "string \<Rightarrow> shell_event list \<Rightarrow> ShellSession \<Rightarrow>
    ((shell_error + ssh_result) \<times> ShellSession \<times> shell_event list) option" where
  "shell_loop out [] s = None"
| "shell_loop out (ev # evs) s =
     (case ev of
        EvCancelled \<Rightarrow> Some (Inl ShellCancelled, s\<lparr>sh_broken := True\<rparr>, evs)
      | EvDeadline \<Rightarrow> Some (Inl ShellTimeout, s\<lparr>sh_broken := True\<rparr>, evs)
      | EvStderr p \<Rightarrow> shell_loop out evs (s\<lparr>sh_stderr := map_option (\<lambda>b. snd (sb_Write p b)) (sh_stderr s)\<rparr>)
      | EvLine lr \<Rightarrow>
          if lr_err lr = Some LineTooLong then Some (Inl OutputLimit, s\<lparr>sh_broken := True\<rparr>, evs)
          else
            (case Index (lr_text lr) (sh_marker s @ '':'') of
               Some idx \<Rightarrow>
                 (case appendOut (take idx (lr_text lr)) out of
                    None \<Rightarrow> Some (Inl OutputLimit, s\<lparr>sh_broken := True\<rparr>, evs)
                  | Some out \<Rightarrow>
                      (case Atoi (TrimSpace (drop (idx + length (sh_marker s) + 1) (lr_text lr))) of
                         None \<Rightarrow> Some (Inl (BadExitCode (lr_text lr)), s\<lparr>sh_broken := True\<rparr>, evs)
                       | Some code \<Rightarrow>
                           Some (Inr \<lparr>sr_Stdout = out,
                                      sr_Stderr = (case sh_stderr s of None \<Rightarrow> '''' | Some b \<Rightarrow> sb_output b),
                                      sr_ExitCode = code\<rparr>, s, evs)))
             | None \<Rightarrow>
                 (case appendOut (lr_text lr) out of
                    None \<Rightarrow> Some (Inl OutputLimit, s\<lparr>sh_broken := True\<rparr>, evs)
                  | Some out \<Rightarrow>
                      (case lr_err lr of
                         Some err \<Rightarrow> Some (Inl (ReadInterrupted err), s, evs)
                       | None \<Rightarrow> shell_loop out evs s))))"

text \<open>\<open>write_ok\<close>: whether the command line reached the shell's standard input.\<close>

definition shell_Exec :: "bool \<Rightarrow> shell_event list \<Rightarrow> ShellSession \<Rightarrow>
    ((shell_error + ssh_result) \<times> ShellSession \<times> shell_event list) option" where
  "shell_Exec write_ok evs s =
     (if sh_broken s then Some (Inl Desynchronised, s, evs)
      else
        let s = s\<lparr>sh_stderr := map_option sb_reset (sh_stderr s)\<rparr> in
        if \<not> write_ok then Some (Inl WriteCommandFailed, s, evs)
        else shell_loop [] evs s)"

section \<open>Lemmas\<close>

lemma lw_Write_exact:
  assumes "0 \<le> lw_max lw" and "lw_buf lw = take (nat (lw_max lw)) s"
    and "lw_truncated lw \<longleftrightarrow> int (length s) > lw_max lw"
  shows "fst (lw_Write p lw) = length p \<and> lw_max (snd (lw_Write p lw)) = lw_max lw \<and>
     lw_buf (snd (lw_Write p lw)) = take (nat (lw_max lw)) (s @ p) \<and>
     (lw_truncated (snd (lw_Write p lw)) \<longleftrightarrow> int (length (s @ p)) > lw_max lw)"
proof (cases "int (length s) \<ge> lw_max lw")
  case True
  then have "length (lw_buf lw) = nat (lw_max lw)" using assms(1,2) by simp
  with True assms show ?thesis by (auto simp: lw_Write_def Let_def)
next
  case False
  then have "lw_buf lw = s" "\<not> lw_truncated lw" using assms by auto
  with False assms(1) show ?thesis by (auto simp: lw_Write_def Let_def nat_diff_distrib)
qed

lemma lw_copy_exact:
  assumes "0 \<le> lw_max lw" and "lw_buf lw = take (nat (lw_max lw)) s"
    and "lw_truncated lw \<longleftrightarrow> int (length s) > lw_max lw"
  shows "lw_max (lw_copy chunks lw) = lw_max lw \<and>
     lw_buf (lw_copy chunks lw) = take (nat (lw_max lw)) (s @ concat chunks) \<and>
     (lw_truncated (lw_copy chunks lw) \<longleftrightarrow> int (length (s @ concat chunks)) > lw_max lw)"
  using assms
proof (induction chunks arbitrary: lw s)
  case Nil
  then show ?case by (simp add: lw_copy_def)
next
  case (Cons p chunks)
  note w = lw_Write_exact [OF Cons.prems, of p]
  from Cons.IH [of "snd (lw_Write p lw)" "s @ p"] Cons.prems(1) w show ?case by (simp add: lw_copy_def)
qed

text \<open>The captured stream: what was written up to the cap, and the marker exactly when something was dropped.\<close>

lemma captured:
  "lw_output (lw_copy chunks lw_new) =
     (if length (concat chunks) \<le> maxOutputBytes then concat chunks
      else take maxOutputBytes (concat chunks) @ [CHR 0x0A] @ ''[output truncated: limit of '' @
           Itoa (int maxOutputBytes) @ '' bytes exceeded]'' @ [CHR 0x0A])"
  using lw_copy_exact [of lw_new "[]" chunks] by (auto simp: lw_output_def lw_new_def)

lemma Index_first:
  assumes "\<And>k. k < length pre \<Longrightarrow> \<not> HasPrefix (drop k (pre @ sub @ t)) sub"
  shows "Index (pre @ sub @ t) sub = Some (length pre)"
  using assms
proof (induction pre)
  case Nil
  then show ?case by (simp add: Index.simps [of "sub @ t"])
next
  case (Cons c pre)
  have "\<not> HasPrefix (c # pre @ sub @ t) sub" using Cons.prems [of 0] by simp
  moreover have "Index (pre @ sub @ t) sub = Some (length pre)"
    using Cons.prems [of "Suc k" for k] by (intro Cons.IH) auto
  ultimately show ?case by (simp add: Index.simps [of "c # pre @ sub @ t"])
qed

section \<open>Several commands over one stream\<close>

text \<open>
  What the shell prints for a command: whole lines, then a last line on which the marker may
  follow output without a newline. A well-formed command does not print the marker itself.
\<close>

type_synonym shell_cmd = "string list \<times> string \<times> int"

definition marker_text :: "string \<Rightarrow> string \<Rightarrow> int \<Rightarrow> string" where
  "marker_text marker pre code = pre @ (marker @ '':'') @ Itoa code @ [CHR 0x0A]"

definition cmd_lines :: "string \<Rightarrow> shell_cmd \<Rightarrow> lineRes list" where
  "cmd_lines marker = (\<lambda>(ls, pre, code). map (\<lambda>l. \<lparr>lr_text = l, lr_err = None\<rparr>) (ls @ [marker_text marker pre code]))"

definition cmd_ok :: "string \<Rightarrow> shell_cmd \<Rightarrow> bool" where
  "cmd_ok marker = (\<lambda>(ls, pre, code). (\<forall>l\<in>set ls. Index l (marker @ '':'') = None) \<and>
     (\<forall>k<length pre. \<not> HasPrefix (drop k (marker_text marker pre code)) (marker @ '':'')) \<and>
     - (2 ^ 63) \<le> code \<and> code < 2 ^ 63)"

fun lines_of :: "shell_event list \<Rightarrow> lineRes list" where
  "lines_of [] = []"
| "lines_of (EvLine lr # evs) = lr # lines_of evs"
| "lines_of (EvCancelled # evs) = lines_of evs"
| "lines_of (EvDeadline # evs) = lines_of evs"
| "lines_of (EvStderr p # evs) = lines_of evs"

text \<open>Successive calls of \<open>Exec\<close> on one session; the list ends at a call that has not returned.\<close>

fun exec_all :: "nat \<Rightarrow> shell_event list \<Rightarrow> ShellSession \<Rightarrow> (shell_error + ssh_result) list" where
  "exec_all 0 evs s = []"
| "exec_all (Suc n) evs s =
     (case shell_Exec True evs s of None \<Rightarrow> [] | Some (res, s, evs) \<Rightarrow> res # exec_all n evs s)"

lemma appendOut_Some: "appendOut t out = Some out' \<Longrightarrow> out' = out @ t"
  by (auto simp: appendOut_def split: if_splits)

lemma marker_line:
  assumes "cmd_ok marker (ls, pre, code)"
  shows "Index (marker_text marker pre code) (marker @ '':'') = Some (length pre)"
    and "take (length pre) (marker_text marker pre code) = pre"
    and "Atoi (TrimSpace (drop (length pre + length marker + 1) (marker_text marker pre code))) = Some code"
  using assms Index_first [of pre "marker @ '':''" "Itoa code @ [CHR 0x0A]"]
  by (auto simp: cmd_ok_def marker_text_def TrimSpace_Itoa_newline Atoi_Itoa)

text \<open>One call: a result is that of the command at the head of the stream, an error breaks the session.\<close>

lemma shell_loop_attributed:
  assumes "shell_loop out evs s = Some (res, s', evs')" and "cmd_ok (sh_marker s) (ls, pre, code)"
    and "lines_of evs @ rest = cmd_lines (sh_marker s) (ls, pre, code) @ later" and "\<not> sh_broken s"
  shows "case res of
      Inr r \<Rightarrow> sr_Stdout r = out @ concat ls @ pre \<and> sr_ExitCode r = code \<and> lines_of evs' @ rest = later \<and>
        sh_marker s' = sh_marker s \<and> \<not> sh_broken s'
    | Inl e \<Rightarrow> sh_broken s'"
  using assms
proof (induction evs arbitrary: out s ls)
  case Nil
  then show ?case by simp
next
  case (Cons ev evs)
  note prems = Cons.prems
  show ?case
  proof (cases ev)
    case (EvLine lr)
    show ?thesis
    proof (cases ls)
      case Nil
      with EvLine prems(3) have lr: "lr = \<lparr>lr_text = marker_text (sh_marker s) pre code, lr_err = None\<rparr>"
        and lat: "lines_of evs @ rest = later" by (auto simp: cmd_lines_def)
      show ?thesis
        using prems(1,4) EvLine Nil lat marker_line [OF prems(2)]
        by (auto simp: lr dest: appendOut_Some split: option.splits)
    next
      case (Cons l ls')
      with EvLine prems(3) have lr: "lr = \<lparr>lr_text = l, lr_err = None\<rparr>"
        and lat: "lines_of evs @ rest = cmd_lines (sh_marker s) (ls', pre, code) @ later" by (auto simp: cmd_lines_def)
      from prems(2) Cons have i: "Index l (sh_marker s @ '':'') = None" and ok: "cmd_ok (sh_marker s) (ls', pre, code)"
        by (auto simp: cmd_ok_def)
      show ?thesis
      proof (cases "appendOut l out")
        case None
        with prems(1) EvLine lr i show ?thesis by auto
      next
        case (Some out')
        with prems(1) EvLine lr i have "shell_loop out' evs s = Some (res, s', evs')" by auto
        from Cons.IH [OF this ok lat prems(4)] Some Cons show ?thesis
          by (auto dest: appendOut_Some split: sum.splits)
      qed
    qed
  next
    case (EvStderr p)
    with prems Cons.IH [of out "s\<lparr>sh_stderr := map_option (\<lambda>b. snd (sb_Write p b)) (sh_stderr s)\<rparr>" ls]
    show ?thesis by (cases res) simp_all
  qed (use prems in auto)
qed

lemma exec_all_broken: "sh_broken s \<Longrightarrow> res \<in> set (exec_all n evs s) \<Longrightarrow> isl res"
  by (induction n) (auto simp: shell_Exec_def)

lemma exec_all_attributed:
  assumes "\<forall>c\<in>set script. cmd_ok (sh_marker s) c" and "lines_of evs @ rest = concat (map (cmd_lines (sh_marker s)) script)"
    and "\<not> sh_broken s" and "n \<le> length script" and "k < length (exec_all n evs s)" and "exec_all n evs s ! k = Inr r"
  shows "case script ! k of (ls, pre, code) \<Rightarrow> sr_Stdout r = concat ls @ pre \<and> sr_ExitCode r = code"
  using assms
proof (induction n arbitrary: script evs s k)
  case 0
  then show ?case by simp
next
  case (Suc n)
  from Suc.prems(4) obtain c script' where sc: "script = c # script'" by (cases script) auto
  obtain ls pre code where c: "c = (ls, pre, code)" by (cases c)
  obtain res s' evs' where e: "shell_Exec True evs s = Some (res, s', evs')"
    using Suc.prems(5) by (cases "shell_Exec True evs s") auto
  let ?s = "s\<lparr>sh_stderr := map_option sb_reset (sh_stderr s)\<rparr>"
  have l: "shell_loop [] evs ?s = Some (res, s', evs')" using e Suc.prems(3) by (simp add: shell_Exec_def)
  have at: "case res of
      Inr r \<Rightarrow> sr_Stdout r = concat ls @ pre \<and> sr_ExitCode r = code \<and>
        lines_of evs' @ rest = concat (map (cmd_lines (sh_marker s)) script') \<and> sh_marker s' = sh_marker s \<and> \<not> sh_broken s'
    | Inl e \<Rightarrow> sh_broken s'"
    using shell_loop_attributed [OF l, of ls pre code rest "concat (map (cmd_lines (sh_marker s)) script')"] Suc.prems(1-3) sc c
    by (cases res) simp_all
  show ?case
  proof (cases k)
    case 0
    with Suc.prems(6) e at sc c show ?thesis by simp
  next
    case (Suc j)
    with Suc.prems(5,6) e have j: "j < length (exec_all n evs' s')" "exec_all n evs' s' ! j = Inr r" by simp_all
    then have "\<not> sh_broken s'" using exec_all_broken [of s' _ n evs'] by (metis nth_mem isl_def sum.distinct(1))
    with at obtain r0 where "res = Inr r0" by (cases res) auto
    with at j Suc.IH [of script' s' evs' j] Suc.prems(1,4) sc Suc show ?thesis by simp
  qed
qed

section \<open>Properties\<close>


text \<open>Two commands, the second without a trailing newline, and a timeout after them.\<close>

definition sample_shell :: ShellSession where
  "sample_shell = \<lparr>sh_marker = ''M'', sh_stderr = Some \<lparr>sb_buf = [], sb_truncated = False\<rparr>, sh_broken = False\<rparr>"

definition sample_script :: "shell_cmd list" where
  "sample_script = [([''a'' @ [CHR 0x0A]], [], 0), ([], ''b'', 3)]"

definition sample_events :: "shell_event list" where
  "sample_events = map EvLine (concat (map (cmd_lines ''M'') sample_script)) @ [EvDeadline]"

lemma sample_exec_all:
  "exec_all 2 sample_events sample_shell =
     [Inr \<lparr>sr_Stdout = ''a'' @ [CHR 0x0A], sr_Stderr = [], sr_ExitCode = 0\<rparr>,
      Inr \<lparr>sr_Stdout = ''b'', sr_Stderr = [], sr_ExitCode = 3\<rparr>]"
proof -
  have idx: "Index (''a'' @ [CHR 0x0A]) ''M:'' = None" "Index (''M:0'' @ [CHR 0x0A]) ''M:'' = Some 0"
      "Index (''bM:3'' @ [CHR 0x0A]) ''M:'' = Some 1" by code_simp+
  have num: "Atoi (TrimSpace (''0'' @ [CHR 0x0A])) = Some 0" "Atoi (TrimSpace (''3'' @ [CHR 0x0A])) = Some 3"
    by code_simp+
  have mt: "marker_text ''M'' [] 0 = ''M:0'' @ [CHR 0x0A]" "marker_text ''M'' ''b'' 3 = ''bM:3'' @ [CHR 0x0A]" by code_simp+
  show ?thesis
    using idx num
    by (simp add: numeral_2_eq_2 sample_events_def sample_script_def sample_shell_def cmd_lines_def mt shell_Exec_def
        appendOut_def maxOutputBytes_def sb_reset_def sb_output_def)
qed


end
