(* ===== verification/Broker_Engine.thy ===== *)
theory Broker_Engine
  imports Wire Audit_Log Ssh_Run "HOL-Library.Char_ord" "HOL-Library.List_Lexorder"
begin

text \<open>
  The broker's core, \<open>src/internal/broker/engine.go\<close> and \<open>filetransfer.go\<close>: the view of the hosts,
  the route to a host through its bastions, one ephemeral certificate per hop, one-shot execution
  and file transfer.

  The engine state is the host table and the audit entries handed to \<open>audit.Append\<close>, in order. The
  context \<open>engine_ctx\<close> holds what an operation takes from outside: the host list a refresh gets,
  the signer (a function of the intent: the intents of one operation differ), fresh key pairs, the
  parser of host keys, the connection and what the remote command does. Error values carry what
  the code formats into their text; the \<open>ec_..._text\<close> fields are those texts.
\<close>

section \<open>Configuration\<close>

record HostConfig =
  hc_Addr :: string
  hc_User :: string
  hc_Principal :: string
  hc_HostKey :: string
  hc_Jump :: string
  hc_SourceAddress :: string
  hc_AllowSudo :: bool
  hc_AllowedSudoUsers :: "string list"
  hc_AllowPTY :: bool
  hc_AllowFileTransfer :: bool
  hc_Groups :: "string list"
  hc_AllowAsBastion :: bool
  hc_CommandPolicy :: CommandPolicy

record broker_Config =
  bk_SourceAddress :: string
  bk_MaxTTLSeconds :: int
  bk_SessionIdleSeconds :: int
  bk_SessionMaxSeconds :: int
  bk_FileTransferMaxBytes :: int
  bk_Hosts :: "(string, HostConfig) gomap"
  bk_CommandPolicies :: policy_library
  bk_GroupCommandPolicies :: group_policies

text \<open>The policy table of local mode. A host that another one jumps through is a bastion.\<close>

definition policyFromHosts :: "broker_Config \<Rightarrow> PolicyTable" where
  "policyFromHosts cfg =
     (let jumpTargets = filter (\<lambda>j. j \<noteq> '''') (map (hc_Jump \<circ> snd) (bk_Hosts cfg)) in
      map (\<lambda>(name, hc).
        (name,
         \<lparr>hp_Addr = hc_Addr hc, hp_User = hc_User hc, hp_HostKey = hc_HostKey hc, hp_Jump = hc_Jump hc,
          hp_Principal = hc_Principal hc,
          hp_SourceAddress = (if hc_SourceAddress hc \<noteq> '''' then hc_SourceAddress hc else bk_SourceAddress cfg),
          hp_MaxTTL = 0, hp_MaxTTLSeconds = 0,
          hp_AllowAsBastion = (hc_AllowAsBastion hc \<or> name \<in> set jumpTargets),
          hp_AllowedCallers = [], hp_AllowSudo = hc_AllowSudo hc, hp_AllowedSudoUsers = hc_AllowedSudoUsers hc,
          hp_AllowPTY = hc_AllowPTY hc, hp_AllowFileTransfer = hc_AllowFileTransfer hc, hp_Groups = hc_Groups hc,
          hp_CommandPolicy = hc_CommandPolicy hc, hp_Policies = None\<rparr>)) (bk_Hosts cfg))"

text \<open>The signer of local mode, once the CA keys are loaded.\<close>

definition buildSigner ::
    "regex_engine \<Rightarrow> CAKey \<Rightarrow> (string, CAKey) gomap \<Rightarrow> broker_Config \<Rightarrow> duration \<Rightarrow> compile_error + Local" where
  "buildSigner re defaultCA groupCAs cfg maxTTL =
     (case CompileHostPolicies re (policyFromHosts cfg) (bk_CommandPolicies cfg) (bk_GroupCommandPolicies cfg) of
        Inl err \<Rightarrow> Inl err
      | Inr compiled \<Rightarrow> Inr (NewLocalWithGroupCAs defaultCA groupCAs compiled maxTTL))"

section \<open>Engine state and context\<close>

record Caller =
  cl_ID :: string
  cl_Groups :: "string list option"

record ExecOptions =
  xo_Sudo :: bool
  xo_SudoUser :: string
  xo_PTY :: bool
  xo_DryRun :: bool
  xo_Stdin :: string
  xo_FileTransfer :: bool

definition elevationLabel :: "ExecOptions \<Rightarrow> string" where
  "elevationLabel opts =
     (if \<not> xo_Sudo opts then ''''
      else ''sudo:'' @ (if xo_SudoUser opts = '''' then ''root'' else xo_SudoUser opts))"

record Result =
  re_Stdout :: string
  re_Stderr :: string
  re_ExitCode :: int
  re_Serial :: "64 word"
  re_Warnings :: "string list"
  re_DryRun :: "DecisionInfo option"

record engine =
  en_cfg :: broker_Config
  en_remote :: bool
  en_maxTTL :: duration
  en_hosts :: "(string, HostInfo) gomap"
  en_audit :: "Entry list"

definition NewEngine :: "broker_Config \<Rightarrow> bool \<Rightarrow> (string, HostInfo) gomap \<Rightarrow> engine" where
  "NewEngine cfg remote hosts =
     (let maxTTL = seconds (bk_MaxTTLSeconds cfg) in
      \<lparr>en_cfg = cfg, en_remote = remote, en_maxTTL = (if maxTTL \<le> 0 then 5 * minute_ns else maxTTL),
       en_hosts = hosts, en_audit = []\<rparr>)"

datatype signer_error = LocalError sign_error | RemoteError remote_error

datatype chain_error = BastionCycle string | UnknownInChain string

datatype hop_error =
    ChainFailed chain_error
  | UnknownHop string
  | KeyFailed
  | HopSigningFailed string signer_error
  | NeedsApproval string string
  | HostKeyFailed string

record Hop =
  ho_Addr :: string
  ho_User :: string
  ho_HostKey :: string
  ho_PrivateKey :: string
  ho_Certificate :: Certificate

datatype broker_error =
    BadRequest string
  | UnknownHost string
  | RefreshFailed remote_error
  | SignerDown hop_error
  | Denied hop_error
  | DecisionFailed signer_error
  | NoKey
  | ConnectionFailed string
  | ExecutionFailed exec_error
  | TransferFailed int string

record engine_ctx =
  ec_fetch :: "remote_error + (string, HostInfo) gomap"
  ec_sign :: "Intent \<Rightarrow> signer_error + Issued"
  ec_key :: "string \<Rightarrow> (string \<times> PublicKey) option"
  ec_hostKey :: "string \<Rightarrow> string option"
  ec_Dial :: "Hop list \<Rightarrow> string option"
  ec_run :: "Hop list \<Rightarrow> string \<Rightarrow> string \<Rightarrow> remote_run"
  ec_sha256 :: "string \<Rightarrow> string"
  ec_fetch_text :: "remote_error \<Rightarrow> string"
  ec_hop_text :: "hop_error \<Rightarrow> string"
  ec_sign_text :: "signer_error \<Rightarrow> string"
  ec_exec_text :: "exec_error \<Rightarrow> string"

section \<open>Hosts\<close>

definition local_info :: "HostConfig \<Rightarrow> HostInfo" where
  "local_info hc =
     \<lparr>hi_Addr = hc_Addr hc, hi_User = hc_User hc, hi_HostKey = hc_HostKey hc, hi_Jump = hc_Jump hc,
      hi_AllowSudo = hc_AllowSudo hc, hi_AllowPTY = hc_AllowPTY hc, hi_AllowFileTransfer = hc_AllowFileTransfer hc,
      hi_Groups = hc_Groups hc\<rparr>"

definition host_view :: "engine \<Rightarrow> (string, HostInfo) gomap" where
  "host_view e = (if en_remote e then en_hosts e else map (\<lambda>(name, hc). (name, local_info hc)) (bk_Hosts (en_cfg e)))"

definition hostInfo :: "engine \<Rightarrow> string \<Rightarrow> HostInfo option" where
  "hostInfo e name = get (host_view e) name"

definition refreshHostsNow :: "engine_ctx \<Rightarrow> engine \<Rightarrow> remote_error option \<times> engine" where
  "refreshHostsNow cx e =
     (if \<not> en_remote e then (None, e)
      else case ec_fetch cx of
        Inl err \<Rightarrow> (Some err, e)
      | Inr h \<Rightarrow> (None, e\<lparr>en_hosts := h\<rparr>))"

definition broker_auditE :: "Entry \<Rightarrow> engine \<Rightarrow> engine" where
  "broker_auditE ent e =
     (let ent = (case hostInfo e (e_Host ent) of
                   Some hi \<Rightarrow> if e_User ent = '''' then ent\<lparr>e_User := hi_User hi\<rparr> else ent
                 | None \<Rightarrow> ent)
      in e\<lparr>en_audit := en_audit e @ [ent]\<rparr>)"

record ServerInfo =
  si_Name :: string
  si_AllowSudo :: bool
  si_AllowPTY :: bool
  si_AllowFileTransfer :: bool
  si_Jump :: string

definition ServerInfos :: "engine \<Rightarrow> Caller \<Rightarrow> ServerInfo list" where
  "ServerInfos e c =
     sort_key si_Name
       (map (\<lambda>(name, h). \<lparr>si_Name = name, si_AllowSudo = hi_AllowSudo h, si_AllowPTY = hi_AllowPTY h,
               si_AllowFileTransfer = hi_AllowFileTransfer h, si_Jump = hi_Jump h\<rparr>)
         (filter (\<lambda>(name, h). case cl_Groups c of None \<Rightarrow> True | Some g \<Rightarrow> groupsIntersect (hi_Groups h) g) (host_view e)))"

definition Servers :: "engine \<Rightarrow> string list" where
  "Servers e = sort (map fst (host_view e))"

section \<open>Routes\<close>

text \<open>The loop of \<open>resolveChain\<close>: it follows \<open>Jump\<close> and stops on a host seen before.\<close>

function chain_loop_from ::
    "(string, HostInfo) gomap \<Rightarrow> string list \<Rightarrow> string \<Rightarrow> string list \<Rightarrow> chain_error + string list" where
  "chain_loop_from hosts seen cur chain =
     (if cur = '''' then Inr chain
      else if cur \<in> set seen then Inl (BastionCycle cur)
      else case get hosts cur of
        None \<Rightarrow> Inl (UnknownInChain cur)
      | Some hi \<Rightarrow> chain_loop_from hosts (cur # seen) (hi_Jump hi) (cur # chain))"
  by pat_completeness auto
termination
proof (relation "measure (\<lambda>(hosts, seen, cur, chain). card (fst ` set hosts - set seen))")
  fix hosts :: "(string, HostInfo) gomap" and seen cur chain hi
  assume "cur \<notin> set seen" and "get hosts cur = Some hi"
  then have "cur \<in> fst ` set hosts - set seen" by (auto dest: get_key)
  then have "card (fst ` set hosts - set (cur # seen)) < card (fst ` set hosts - set seen)"
    by (intro psubset_card_mono) auto
  then show "((hosts, cur # seen, hi_Jump hi, cur # chain), (hosts, seen, cur, chain))
      \<in> measure (\<lambda>(hosts, seen, cur, chain). card (fst ` set hosts - set seen))" by simp
qed simp

declare chain_loop_from.simps [simp del]

definition resolveChain :: "engine \<Rightarrow> string \<Rightarrow> chain_error + string list" where
  "resolveChain e host = chain_loop_from (host_view e) [] host []"

text \<open>\<open>%d:%s\<close> of the length and the part, for each field of each hop, and a bar after each hop.\<close>

definition writeSignaturePart :: "string \<Rightarrow> string" where
  "writeSignaturePart s = Itoa (int (length s)) @ '':'' @ s"

definition hop_signature :: "string \<Rightarrow> HostInfo \<Rightarrow> string" where
  "hop_signature name hi =
     writeSignaturePart name @ writeSignaturePart (hi_Addr hi) @ writeSignaturePart (hi_User hi) @
     writeSignaturePart (hi_HostKey hi) @ writeSignaturePart (hi_Jump hi) @ ''|''"

fun signature_loop :: "engine \<Rightarrow> string list \<Rightarrow> chain_error + string" where
  "signature_loop e [] = Inr ''''"
| "signature_loop e (name # chain) =
     (case hostInfo e name of
        None \<Rightarrow> Inl (UnknownInChain name)
      | Some hi \<Rightarrow> map_sum (\<lambda>e. e) (\<lambda>rest. hop_signature name hi @ rest) (signature_loop e chain))"

definition connectivitySignature :: "engine \<Rightarrow> string \<Rightarrow> chain_error + string" where
  "connectivitySignature e host =
     (case resolveChain e host of Inl err \<Rightarrow> Inl err | Inr chain \<Rightarrow> signature_loop e chain)"

definition ttlFor :: "engine \<Rightarrow> int \<Rightarrow> duration" where
  "ttlFor e ttlSeconds =
     (let ttl = seconds ttlSeconds in if ttl \<le> 0 \<or> ttl > en_maxTTL e then en_maxTTL e else ttl)"

section \<open>Certificates for the hops\<close>

definition localCaller :: string where
  "localCaller = ''local''"

text \<open>The intent of a bastion hop, and the zero intent it starts from.\<close>

definition bastion_intent :: "Caller \<Rightarrow> string \<Rightarrow> string \<Rightarrow> duration \<Rightarrow> PublicKey \<Rightarrow> Intent" where
  "bastion_intent c name purpose ttl pub =
     \<lparr>in_Caller = localCaller, in_Host = name, in_Role = RoleBastion, in_Purpose = purpose, in_SessionMode = '''',
      in_Command = '''', in_RequestedTTL = ttl, in_PublicKey = pub, in_Sudo = False, in_SudoUser = '''', in_PTY = False,
      in_FileTransfer = False, in_DryRun = False, in_Preflight = False, in_Approved = False, in_OnBehalfOf = '''',
      in_EndUser = cl_ID c, in_EndUserGroups = cl_Groups c, in_LearnTTLSeconds = 0, in_LearnApprover = '''',
      in_LearnApprovalID = ''''\<rparr>"

text \<open>The loop over the chain; \<open>target\<close> completes the intent of the last hop.\<close>

fun hops_loop ::
    "engine_ctx \<Rightarrow> engine \<Rightarrow> Caller \<Rightarrow> duration \<Rightarrow> string \<Rightarrow> (Intent \<Rightarrow> Intent) \<Rightarrow> string list \<Rightarrow>
     hop_error + Hop list \<times> Issued option" where
  "hops_loop cx e c ttl purpose target [] = Inr ([], None)"
| "hops_loop cx e c ttl purpose target (name # chain) =
     (case hostInfo e name of
        None \<Rightarrow> Inl (UnknownHop name)
      | Some hi \<Rightarrow>
     (case ec_key cx name of
        None \<Rightarrow> Inl KeyFailed
      | Some (priv, pub) \<Rightarrow>
     (let isTarget = (chain = []);
          i = (if isTarget then target (bastion_intent c name purpose ttl pub) else bastion_intent c name purpose ttl pub)
      in case ec_sign cx i of
        Inl err \<Rightarrow> Inl (HopSigningFailed name err)
      | Inr issued \<Rightarrow>
     (case is_Certificate issued of
        None \<Rightarrow> Inl (NeedsApproval name (case is_Decision issued of None \<Rightarrow> '''' | Some d \<Rightarrow> di_MatchedRule d))
      | Some cert \<Rightarrow>
     (case ec_hostKey cx (hi_HostKey hi) of
        None \<Rightarrow> Inl (HostKeyFailed name)
      | Some hostKey \<Rightarrow>
     (case hops_loop cx e c ttl purpose target chain of
        Inl err \<Rightarrow> Inl err
      | Inr (hops, last_issued) \<Rightarrow>
          Inr (\<lparr>ho_Addr = hi_Addr hi, ho_User = hi_User hi, ho_HostKey = hostKey, ho_PrivateKey = priv,
                ho_Certificate = cert\<rparr> # hops, if isTarget then Some issued else last_issued)))))))"

definition buildHops ::
    "engine_ctx \<Rightarrow> engine \<Rightarrow> Caller \<Rightarrow> string \<Rightarrow> duration \<Rightarrow> string \<Rightarrow> string \<Rightarrow> ExecOptions \<Rightarrow>
     hop_error + Hop list \<times> Issued option" where
  "buildHops cx e c host ttl purpose command opts =
     (case resolveChain e host of
        Inl err \<Rightarrow> Inl (ChainFailed err)
      | Inr chain \<Rightarrow>
          hops_loop cx e c ttl purpose
            (\<lambda>i. i\<lparr>in_Role := RoleTarget, in_Command := command, in_Sudo := xo_Sudo opts, in_SudoUser := xo_SudoUser opts,
                   in_PTY := xo_PTY opts, in_FileTransfer := xo_FileTransfer opts\<rparr>) chain)"

definition buildHopsWithPrefix ::
    "engine_ctx \<Rightarrow> engine \<Rightarrow> Caller \<Rightarrow> string \<Rightarrow> duration \<Rightarrow> string \<Rightarrow> string \<Rightarrow> ExecOptions \<Rightarrow>
     hop_error + (Hop list \<times> Issued option) \<times> string" where
  "buildHopsWithPrefix cx e c host ttl purpose sessionMode opts =
     (case resolveChain e host of
        Inl err \<Rightarrow> Inl (ChainFailed err)
      | Inr chain \<Rightarrow>
          (case hops_loop cx e c ttl purpose
                  (\<lambda>i. i\<lparr>in_Role := RoleTarget,
                         in_SessionMode := (if purpose = PurposeSession then sessionMode else ''''),
                         in_Sudo := xo_Sudo opts, in_SudoUser := xo_SudoUser opts, in_PTY := xo_PTY opts\<rparr>) chain of
             Inl err \<Rightarrow> Inl err
           | Inr res \<Rightarrow>
               Inr (res, concat (map (\<lambda>name. case hostInfo e name of Some hi \<Rightarrow> hop_signature name hi | None \<Rightarrow> '''') chain))))"

section \<open>One-shot execution\<close>

definition currentConnectivitySignature ::
    "engine_ctx \<Rightarrow> string \<Rightarrow> engine \<Rightarrow> ((remote_error + chain_error) + string) \<times> engine" where
  "currentConnectivitySignature cx host e =
     (case refreshHostsNow cx e of
        (Some err, e) \<Rightarrow> (Inl (Inl err), e)
      | (None, e) \<Rightarrow> (case connectivitySignature e host of Inl err \<Rightarrow> Inl (Inr err) | Inr sig \<Rightarrow> Inr sig, e))"

definition refreshHostsForNewConnection :: "engine_ctx \<Rightarrow> engine \<Rightarrow> broker_error option \<times> engine" where
  "refreshHostsForNewConnection cx e =
     (case refreshHostsNow cx e of (err, e) \<Rightarrow> (map_option RefreshFailed err, e))"

text \<open>\<open>errors.Is(err, ErrSignerUnavailable)\<close>\<close>

fun signer_unavailable :: "hop_error \<Rightarrow> bool" where
  "signer_unavailable (HopSigningFailed _ (RemoteError SignerUnavailable)) = True"
| "signer_unavailable (HopSigningFailed _ (RemoteError (SignerUnavailableStatus _ _))) = True"
| "signer_unavailable _ = False"

definition classifySignErr :: "hop_error \<Rightarrow> broker_error" where
  "classifySignErr err = (if signer_unavailable err then SignerDown err else Denied err)"

definition decisionWarnings :: "DecisionInfo option \<Rightarrow> string list" where
  "decisionWarnings dec = (case dec of None \<Rightarrow> [] | Some d \<Rightarrow> if di_Warning d = '''' then [] else [di_Warning d])"

definition broker_decisionWarning :: "DecisionInfo option \<Rightarrow> string" where
  "broker_decisionWarning dec = (case dec of None \<Rightarrow> '''' | Some d \<Rightarrow> di_Warning d)"

definition broker_decisionRule :: "DecisionInfo option \<Rightarrow> string" where
  "broker_decisionRule dec = (case dec of None \<Rightarrow> '''' | Some d \<Rightarrow> di_MatchedRule d)"

definition dry_run_intent :: "engine \<Rightarrow> Caller \<Rightarrow> string \<Rightarrow> string \<Rightarrow> int \<Rightarrow> ExecOptions \<Rightarrow> PublicKey \<Rightarrow> Intent" where
  "dry_run_intent e c host command ttlSeconds opts pub =
     \<lparr>in_Caller = localCaller, in_Host = host, in_Role = RoleTarget, in_Purpose = PurposeOneshot, in_SessionMode = '''',
      in_Command = command, in_RequestedTTL = ttlFor e ttlSeconds, in_PublicKey = pub, in_Sudo = xo_Sudo opts,
      in_SudoUser = xo_SudoUser opts, in_PTY = xo_PTY opts, in_FileTransfer = False, in_DryRun = True,
      in_Preflight = False, in_Approved = False, in_OnBehalfOf = '''', in_EndUser = cl_ID c,
      in_EndUserGroups = cl_Groups c, in_LearnTTLSeconds = 0, in_LearnApprover = '''', in_LearnApprovalID = ''''\<rparr>"

definition dryRun ::
    "engine_ctx \<Rightarrow> Caller \<Rightarrow> string \<Rightarrow> string \<Rightarrow> int \<Rightarrow> ExecOptions \<Rightarrow> engine \<Rightarrow> (broker_error + Result) \<times> engine" where
  "dryRun cx c host command ttlSeconds opts e =
     (case ec_key cx host of
        None \<Rightarrow> (Inl NoKey, e)
      | Some (_, pub) \<Rightarrow>
     (case ec_sign cx (dry_run_intent e c host command ttlSeconds opts pub) of
        Inl err \<Rightarrow>
          (Inl (DecisionFailed err),
           broker_auditE (zero_entry\<lparr>e_Caller := cl_ID c, e_Host := host, e_Command := command, e_Outcome := ''error'',
                            e_DryRun := True, e_Err := ec_sign_text cx err\<rparr>) e)
      | Inr issued \<Rightarrow>
          let dec = is_Decision issued;
              outcome = (case dec of
                  Some d \<Rightarrow> if di_Allowed d then ''dry_run_allowed'' else ''dry_run_denied''
                | None \<Rightarrow> ''dry_run_allowed'')
          in (Inr \<lparr>re_Stdout = '''', re_Stderr = '''', re_ExitCode = 0, re_Serial = 0, re_Warnings = [], re_DryRun = dec\<rparr>,
              broker_auditE (zero_entry\<lparr>e_Caller := cl_ID c, e_Host := host, e_Command := command, e_Outcome := outcome,
                               e_DryRun := True, e_PolicyRule := broker_decisionRule dec, e_Elevation := elevationLabel opts,
                               e_PTY := xo_PTY opts, e_Warning := broker_decisionWarning dec\<rparr>) e)))"

text \<open>
  The serial and the decision of the target hop. The chain of an empty host name is empty: the
  code then returns the zero serial and no decision.
\<close>

definition target_serial :: "Issued option \<Rightarrow> 64 word" where
  "target_serial iss = (case iss of None \<Rightarrow> 0 | Some i \<Rightarrow> is_Serial i)"

definition target_decision :: "Issued option \<Rightarrow> DecisionInfo option" where
  "target_decision iss = (case iss of None \<Rightarrow> None | Some i \<Rightarrow> is_Decision i)"

definition error_entry :: "Caller \<Rightarrow> string \<Rightarrow> string \<Rightarrow> 64 word \<Rightarrow> string \<Rightarrow> Entry" where
  "error_entry c host command serial err =
     zero_entry\<lparr>e_Caller := cl_ID c, e_Host := host, e_Command := command, e_Serial := serial, e_Outcome := ''error'',
                e_Err := err\<rparr>"

definition Execute ::
    "engine_ctx \<Rightarrow> Caller \<Rightarrow> string \<Rightarrow> string \<Rightarrow> int \<Rightarrow> ExecOptions \<Rightarrow> engine \<Rightarrow> (broker_error + Result) \<times> engine" where
  "Execute cx c host command ttlSeconds opts e =
     (case refreshHostsForNewConnection cx e of
        (Some err, e) \<Rightarrow>
          (Inl err, broker_auditE (error_entry c host command 0
             (case err of RefreshFailed r \<Rightarrow> ec_fetch_text cx r | _ \<Rightarrow> '''')) e)
      | (None, e) \<Rightarrow>
     (if hostInfo e host = None
      then (Inl (UnknownHost host),
            broker_auditE (zero_entry\<lparr>e_Caller := cl_ID c, e_Host := host, e_Command := command,
                             e_Outcome := ''denied'', e_Err := ''unknown host''\<rparr>) e)
      else if command = '''' then (Inl (BadRequest ''command is required''), e)
      else if xo_DryRun opts then dryRun cx c host command ttlSeconds opts e
      else
     (case buildHops cx e c host (ttlFor e ttlSeconds) PurposeOneshot command opts of
        Inl err \<Rightarrow> (Inl (classifySignErr err), broker_auditE (error_entry c host command 0 (ec_hop_text cx err)) e)
      | Inr (hops, iss) \<Rightarrow>
     (let serial = target_serial iss; dec = target_decision iss; warnings = decisionWarnings dec in
      case ec_Dial cx hops of
        Some err \<Rightarrow> (Inl (ConnectionFailed err), broker_auditE (error_entry c host command serial err) e)
      | None \<Rightarrow>
     (case ExecOnce (xo_PTY opts) (ec_run cx hops command (xo_Stdin opts)) of
        Inl err \<Rightarrow> (Inl (ExecutionFailed err), broker_auditE (error_entry c host command serial (ec_exec_text cx err)) e)
      | Inr res \<Rightarrow>
          (Inr \<lparr>re_Stdout = sr_Stdout res, re_Stderr = sr_Stderr res, re_ExitCode = sr_ExitCode res, re_Serial = serial,
                re_Warnings = warnings, re_DryRun = None\<rparr>,
           broker_auditE (zero_entry\<lparr>e_Caller := cl_ID c, e_Host := host, e_Command := command, e_Serial := serial,
              e_Outcome := ''executed'', e_ExitCode := sr_ExitCode res, e_Elevation := elevationLabel opts,
              e_PTY := xo_PTY opts, e_PolicyRule := broker_decisionRule dec, e_Warning := Join warnings ''; ''\<rparr>) e))))))"

section \<open>File transfer\<close>

definition shellQuoteSession :: "string \<Rightarrow> string" where
  "shellQuoteSession s =
     [CHR 0x27] @ concat (map (\<lambda>r. if r = [CHR 0x27] then [CHR 0x27, CHR 0x5C, CHR 0x27, CHR 0x27] else r) (range_runes s)) @ [CHR 0x27]"

definition DefaultFileTransferMaxBytes :: int where
  "DefaultFileTransferMaxBytes = 512 * 1024"

definition FileTransferMaxBytes :: "engine \<Rightarrow> int" where
  "FileTransferMaxBytes e =
     (if bk_FileTransferMaxBytes (en_cfg e) > 0 then bk_FileTransferMaxBytes (en_cfg e) else DefaultFileTransferMaxBytes)"

record FileTransferResult =
  ft_Content :: "string option"
  ft_Size :: int
  ft_SHA256 :: string
  ft_Serial :: "64 word"
  ft_Warnings :: "string list"

text \<open>The regular expression \<open>^[0-7]{3,4}$\<close>.\<close>

definition mode_ok :: "string \<Rightarrow> bool" where
  "mode_ok mode \<longleftrightarrow> (length mode = 3 \<or> length mode = 4) \<and> list_all (\<lambda>c. 48 \<le> byte c \<and> byte c \<le> 55) mode"

definition validateTransferPath :: "string \<Rightarrow> broker_error option" where
  "validateTransferPath path =
     (if path = '''' then Some (BadRequest ''path is required'')
      else if CHR 0x00 \<in> set path then Some (BadRequest ''path contains null bytes'')
      else if ContainsAny path [CHR 0x0A, CHR 0x0D] then Some (BadRequest ''path contains newline characters'')
      else None)"

definition transfer_options :: "string \<Rightarrow> ExecOptions" where
  "transfer_options content =
     \<lparr>xo_Sudo = False, xo_SudoUser = '''', xo_PTY = False, xo_DryRun = False, xo_Stdin = content, xo_FileTransfer = True\<rparr>"

definition transfer_entry :: "engine_ctx \<Rightarrow> Caller \<Rightarrow> string \<Rightarrow> string \<Rightarrow> 64 word \<Rightarrow> string \<Rightarrow> string \<Rightarrow> Entry" where
  "transfer_entry cx c host path serial outcome data =
     zero_entry\<lparr>e_Caller := cl_ID c, e_Host := host, e_Serial := serial, e_Outcome := outcome,
       e_Command := ''path='' @ path @ '' bytes='' @ Itoa (int (length data)) @ '' sha256='' @ ec_sha256 cx data\<rparr>"

definition put_command :: "string \<Rightarrow> string \<Rightarrow> string" where
  "put_command path mode =
     ''cat > '' @ shellQuoteSession path @
     (if mode \<noteq> '''' then '' && chmod '' @ mode @ '' '' @ shellQuoteSession path else '''')"

definition PutFile ::
    "engine_ctx \<Rightarrow> Caller \<Rightarrow> string \<Rightarrow> string \<Rightarrow> string \<Rightarrow> string \<Rightarrow> int \<Rightarrow> engine \<Rightarrow> (broker_error + FileTransferResult) \<times> engine" where
  "PutFile cx c host path content mode ttlSeconds e =
     (case validateTransferPath path of
        Some err \<Rightarrow> (Inl err, e)
      | None \<Rightarrow>
     (if int (length content) > FileTransferMaxBytes e then (Inl (BadRequest ''transfer limit''), e)
      else if mode \<noteq> '''' \<and> \<not> mode_ok mode then (Inl (BadRequest ''invalid mode''), e)
      else
     (case Execute cx c host (put_command path mode) ttlSeconds (transfer_options content) e of
        (Inl err, e) \<Rightarrow> (Inl err, e)
      | (Inr res, e) \<Rightarrow>
          if re_ExitCode res \<noteq> 0 then (Inl (TransferFailed (re_ExitCode res) (TrimSpace (re_Stderr res))), e)
          else
            (Inr \<lparr>ft_Content = None, ft_Size = int (length content), ft_SHA256 = ec_sha256 cx content,
                  ft_Serial = re_Serial res, ft_Warnings = re_Warnings res\<rparr>,
             broker_auditE (transfer_entry cx c host path (re_Serial res) ''file_put'' content) e))))"

definition get_limit :: "engine \<Rightarrow> int \<Rightarrow> int" where
  "get_limit e maxBytes = (if maxBytes > 0 \<and> maxBytes < FileTransferMaxBytes e then maxBytes else FileTransferMaxBytes e)"

definition get_command :: "int \<Rightarrow> string \<Rightarrow> string" where
  "get_command limit path = ''head -c '' @ Itoa (wrap64 (limit + 1)) @ '' < '' @ shellQuoteSession path"

definition GetFile ::
    "engine_ctx \<Rightarrow> Caller \<Rightarrow> string \<Rightarrow> string \<Rightarrow> int \<Rightarrow> int \<Rightarrow> engine \<Rightarrow> (broker_error + FileTransferResult) \<times> engine" where
  "GetFile cx c host path maxBytes ttlSeconds e =
     (case validateTransferPath path of
        Some err \<Rightarrow> (Inl err, e)
      | None \<Rightarrow>
     (let limit = get_limit e maxBytes in
      case Execute cx c host (get_command limit path) ttlSeconds (transfer_options '''') e of
        (Inl err, e) \<Rightarrow> (Inl err, e)
      | (Inr res, e) \<Rightarrow>
          if re_ExitCode res \<noteq> 0 then (Inl (TransferFailed (re_ExitCode res) (TrimSpace (re_Stderr res))), e)
          else
            let data = re_Stdout res in
            if int (length data) > limit then (Inl (BadRequest ''file exceeds the transfer limit''), e)
            else
              (Inr \<lparr>ft_Content = Some data, ft_Size = int (length data), ft_SHA256 = ec_sha256 cx data,
                    ft_Serial = re_Serial res, ft_Warnings = re_Warnings res\<rparr>,
               broker_auditE (transfer_entry cx c host path (re_Serial res) ''file_get'' data) e)))"

end
