(* ===== verification/Ssh_Dial.thy ===== *)
theory Ssh_Dial
  imports Broker_Engine
begin

text \<open>
  The connection chain of \<open>src/internal/ssh/run.go\<close>: \<open>Dial\<close> opens one client per hop, each through the
  one before, and closes what it opened when a later hop fails. The network is an argument: whether
  the transport to hop \<open>i\<close> opens and whether its handshake succeeds under the client configuration.
  \<open>Dial\<close> returns its effects on connections as a trace.
\<close>

record ClientConfig =
  cc_User :: string
  cc_HostKey :: string
  cc_PrivateKey :: string
  cc_Certificate :: Certificate
  cc_Timeout :: duration

datatype dial_error = NoHops | HostKeyRequired string | KeySignerFailed string | CertSignerFailed string
  | ConnectFailed string | HandshakeFailed string

record dial_env =
  de_key_ok :: "string \<Rightarrow> bool"
  de_cert_ok :: "string \<Rightarrow> Certificate \<Rightarrow> bool"
  de_connect :: "nat \<Rightarrow> string \<Rightarrow> bool"
  de_handshake :: "nat \<Rightarrow> string \<Rightarrow> ClientConfig \<Rightarrow> bool"

text \<open>A transport, and the client that a handshake makes of it; closing a client closes its transport.\<close>

datatype dial_event = OpenNet nat | CloseNet nat | OpenClient nat ClientConfig | CloseClient nat

text \<open>The nil host key is the empty string.\<close>

definition hopClientConfig :: "dial_env \<Rightarrow> Hop \<Rightarrow> duration \<Rightarrow> dial_error + ClientConfig" where
  "hopClientConfig env h timeout =
     (if ho_HostKey h = '''' then Inl (HostKeyRequired (ho_Addr h))
      else if \<not> de_key_ok env (ho_PrivateKey h) then Inl (KeySignerFailed (ho_Addr h))
      else if \<not> de_cert_ok env (ho_PrivateKey h) (ho_Certificate h) then Inl (CertSignerFailed (ho_Addr h))
      else Inr \<lparr>cc_User = ho_User h, cc_HostKey = ho_HostKey h, cc_PrivateKey = ho_PrivateKey h,
                cc_Certificate = ho_Certificate h, cc_Timeout = timeout\<rparr>)"

text \<open>The final client and the intermediate ones, in dial order.\<close>

record Conn =
  cn_Client :: nat
  cn_closers :: "nat list"

definition Conn_Close :: "Conn \<Rightarrow> dial_event list" where
  "Conn_Close c = CloseClient (cn_Client c) # map CloseClient (rev (cn_closers c))"

definition Conn_closeAll :: "Conn \<Rightarrow> dial_event list" where
  "Conn_closeAll c = CloseClient (cn_Client c) # map CloseClient (rev (cn_closers c))"

text \<open>The loop over the hops from the second on.\<close>

fun dial_loop :: "dial_env \<Rightarrow> duration \<Rightarrow> nat \<Rightarrow> Hop list \<Rightarrow> Conn \<Rightarrow> (dial_error + Conn) \<times> dial_event list" where
  "dial_loop env timeout i [] conn = (Inr conn, [])"
| "dial_loop env timeout i (h # hops) conn =
     (case hopClientConfig env h timeout of
        Inl err \<Rightarrow> (Inl err, Conn_closeAll conn)
      | Inr cfg \<Rightarrow>
          if \<not> de_connect env i (ho_Addr h) then (Inl (ConnectFailed (ho_Addr h)), Conn_closeAll conn)
          else if \<not> de_handshake env i (ho_Addr h) cfg
          then (Inl (HandshakeFailed (ho_Addr h)), OpenNet i # CloseNet i # Conn_closeAll conn)
          else
            (case dial_loop env timeout (Suc i) hops
                    \<lparr>cn_Client = i, cn_closers = cn_closers conn @ [cn_Client conn]\<rparr> of
               (res, evs) \<Rightarrow> (res, OpenNet i # OpenClient i cfg # evs)))"

definition Dial :: "dial_env \<Rightarrow> Hop list \<Rightarrow> duration \<Rightarrow> (dial_error + Conn) \<times> dial_event list" where
  "Dial env hops timeout =
     (case hops of
        [] \<Rightarrow> (Inl NoHops, [])
      | h # rest \<Rightarrow>
          let timeout = (if timeout = 0 then 10 * second_ns else timeout) in
          case hopClientConfig env h timeout of
            Inl err \<Rightarrow> (Inl err, [])
          | Inr cfg \<Rightarrow>
              if \<not> de_connect env 0 (ho_Addr h) then (Inl (ConnectFailed (ho_Addr h)), [])
              else if \<not> de_handshake env 0 (ho_Addr h) cfg then (Inl (HandshakeFailed (ho_Addr h)), [OpenNet 0, CloseNet 0])
              else
                (case dial_loop env timeout 1 rest \<lparr>cn_Client = 0, cn_closers = []\<rparr> of
                   (res, evs) \<Rightarrow> (res, OpenNet 0 # OpenClient 0 cfg # evs)))"

record pty_options =
  po_Term :: string
  po_Rows :: "32 word"
  po_Cols :: "32 word"

text \<open>The terminal type, the rows and the columns; the terminal modes are constants.\<close>

definition ptyParams :: "pty_options \<Rightarrow> string \<times> int \<times> int" where
  "ptyParams opts =
     ((if po_Term opts = '''' then ''xterm-256color'' else po_Term opts),
      (if po_Rows opts = 0 then 40 else uint (po_Rows opts)),
      (if po_Cols opts = 0 then 220 else uint (po_Cols opts)))"

section \<open>What is open after a trace\<close>

definition net_step :: "dial_event \<Rightarrow> nat set \<Rightarrow> nat set" where
  "net_step ev open_nets =
     (case ev of OpenNet i \<Rightarrow> insert i open_nets | CloseNet i \<Rightarrow> open_nets - {i} | OpenClient i cfg \<Rightarrow> open_nets
      | CloseClient i \<Rightarrow> open_nets - {i})"

definition still_open :: "dial_event list \<Rightarrow> nat set \<Rightarrow> nat set" where
  "still_open evs open_nets = fold net_step evs open_nets"

lemma still_open_simps [simp]:
  "still_open [] ns = ns" "still_open (ev # evs) ns = still_open evs (net_step ev ns)"
  "still_open (evs @ evs') ns = still_open evs' (still_open evs ns)"
  by (simp_all add: still_open_def)

lemma still_open_close: "still_open (map CloseClient is) ns = ns - set is"
  by (induction "is" arbitrary: ns) (auto simp: net_step_def)

lemma Conn_closeAll_open:
  "still_open (Conn_closeAll c) ns = ns - insert (cn_Client c) (set (cn_closers c))"
  "still_open (Conn_Close c) ns = ns - insert (cn_Client c) (set (cn_closers c))"
  by (auto simp: Conn_closeAll_def Conn_Close_def still_open_close net_step_def)

text \<open>The hops of a connection in dial order.\<close>

definition conn_hops :: "Conn \<Rightarrow> nat list" where
  "conn_hops c = cn_closers c @ [cn_Client c]"

lemma dial_loop_open:
  assumes "dial_loop env timeout i hops conn = (res, evs)" and "conn_hops conn = [0..<i]"
  shows "case res of
      Inl err \<Rightarrow> still_open evs {..<i} = {}
    | Inr c \<Rightarrow> still_open evs {..<i} = {..<i + length hops} \<and> conn_hops c = [0..<i + length hops]"
  using assms
proof (induction env timeout i hops conn arbitrary: evs res rule: dial_loop.induct)
  case (1 env timeout i conn)
  then show ?case by auto
next
  case (2 env timeout i h hops conn)
  have cs: "insert (cn_Client conn) (set (cn_closers conn)) = {..<i}"
  proof -
    have "set (conn_hops conn) = {..<i}" using 2(3) by (simp add: lessThan_atLeast0)
    then show ?thesis by (simp add: conn_hops_def)
  qed
  have cl: "still_open (Conn_closeAll conn) {..<i} = {}" "still_open (Conn_closeAll conn) ({..<i} - {i}) = {}"
    by (simp_all add: Conn_closeAll_open cs)
  show ?case
  proof (cases "hopClientConfig env h timeout")
    case (Inl err)
    with 2(2) have "res = Inl err" "evs = Conn_closeAll conn" by auto
    with cl show ?thesis by simp
  next
    case (Inr cfg)
    show ?thesis
    proof (cases "de_connect env i (ho_Addr h) \<and> de_handshake env i (ho_Addr h) cfg")
      case False
      with Inr 2(2) have "\<exists>err. res = Inl err" "evs = Conn_closeAll conn \<or> evs = OpenNet i # CloseNet i # Conn_closeAll conn"
        by (auto split: if_splits)
      with cl show ?thesis by (auto simp: net_step_def)
    next
      case True
      let ?c = "\<lparr>cn_Client = i, cn_closers = cn_closers conn @ [cn_Client conn]\<rparr>"
      obtain evs' where rec: "dial_loop env timeout (Suc i) hops ?c = (res, evs')" and evs: "evs = OpenNet i # OpenClient i cfg # evs'"
        using True Inr 2(2) by (auto split: prod.splits)
      have "conn_hops ?c = [0..<Suc i]" using 2(3) by (simp add: conn_hops_def)
      moreover have "insert i {..<i} = {..<Suc i}" by auto
      moreover have "still_open evs {..<i} = still_open evs' (insert i {..<i})" using evs by (simp add: net_step_def)
      ultimately show ?thesis using 2(1) [OF Inr _ _ rec] True by (cases res) (simp_all del: upt_Suc)
    qed
  qed
qed

section \<open>Properties\<close>

text \<open>
  \<open>Dial\<close> leaks no connection. When it fails, every transport and client it opened has been
  closed; when it succeeds, exactly one per hop is open, the client is that of the last hop, and
  closing the connection closes them all.
\<close>

theorem Dial_no_leak:
  "case Dial env hops timeout of
     (Inl err, evs) \<Rightarrow> still_open evs {} = {}
   | (Inr c, evs) \<Rightarrow> hops \<noteq> [] \<and> still_open evs {} = {..<length hops} \<and> cn_Client c = length hops - 1 \<and>
       still_open (evs @ Conn_Close c) {} = {}"
proof (cases hops)
  case Nil
  then show ?thesis by (simp add: Dial_def)
next
  case (Cons h rest)
  let ?t = "if timeout = 0 then 10 * second_ns else timeout"
  show ?thesis
  proof (cases "hopClientConfig env h ?t")
    case (Inl err)
    with Cons show ?thesis by (simp add: Dial_def Let_def)
  next
    case (Inr cfg)
    show ?thesis
    proof (cases "de_connect env 0 (ho_Addr h) \<and> de_handshake env 0 (ho_Addr h) cfg")
      case False
      with Cons Inr show ?thesis by (auto simp: Dial_def Let_def net_step_def)
    next
      case True
      obtain res evs where l: "dial_loop env ?t 1 rest \<lparr>cn_Client = 0, cn_closers = []\<rparr> = (res, evs)"
        by (cases "dial_loop env ?t 1 rest \<lparr>cn_Client = 0, cn_closers = []\<rparr>")
      have o: "case res of Inl err \<Rightarrow> still_open evs {..<1} = {}
          | Inr c \<Rightarrow> still_open evs {..<1} = {..<1 + length rest} \<and> conn_hops c = [0..<1 + length rest]"
        by (rule dial_loop_open [OF l]) (simp add: conn_hops_def)
      have d: "Dial env hops timeout = (res, OpenNet 0 # OpenClient 0 cfg # evs)"
        using Cons Inr True l by (simp add: Dial_def Let_def)
      have one: "insert 0 {} = {..<1::nat}" by auto
      show ?thesis
      proof (cases res)
        case (Inl err)
        with d o one show ?thesis by (simp add: net_step_def)
      next
        case (Inr c)
        with o have cs: "still_open evs {..<1} = {..<length hops}" and ch: "conn_hops c = [0..<length hops]"
          using Cons by simp_all
        have "set (conn_hops c) = insert (cn_Client c) (set (cn_closers c))" by (simp add: conn_hops_def)
        then have all: "insert (cn_Client c) (set (cn_closers c)) = {..<length hops}" using ch by (simp add: lessThan_atLeast0)
        have "cn_Client c = last (conn_hops c)" by (simp add: conn_hops_def)
        then have "cn_Client c = length hops - 1" using ch Cons by simp
        with d Inr cs one all Cons show ?thesis by (simp add: net_step_def Conn_closeAll_open)
      qed
    qed
  qed
qed

end
