(* ===== verification/Shell_Open.thy ===== *)
theory Shell_Open
  imports Ssh_Dial
begin

text \<open>
  Opening and closing a persistent shell, its recorder and the one-shot \<open>Run\<close>,
  \<open>src/internal/ssh/shell.go\<close> and \<open>run.go\<close>. The SSH session, its pipes and the random bytes of the
  marker are arguments; what is acquired and released is a list of events.
\<close>

section \<open>Marker\<close>

definition nibble :: "nat \<Rightarrow> char" where
  "nibble n = (if n < 10 then char_of (48 + n) else char_of (87 + n))"

text \<open>\<open>hex.EncodeToString\<close>\<close>

definition hex_EncodeToString :: "string \<Rightarrow> string" where
  "hex_EncodeToString b = concat (map (\<lambda>c. [nibble (byte c div 16), nibble (byte c mod 16)]) b)"

definition new_marker :: "string \<Rightarrow> string" where
  "new_marker b = ''__BRK_'' @ hex_EncodeToString b @ ''__''"

section \<open>Opening\<close>

record shell_env =
  oe_NewSession :: bool
  oe_RequestPty :: "string \<times> int \<times> int \<Rightarrow> bool"
  oe_StdinPipe :: bool
  oe_StdoutPipe :: bool
  oe_StderrPipe :: bool
  oe_Start :: "string \<Rightarrow> bool"
  oe_rand :: string
  oe_init_write :: bool
  oe_sync_write :: bool
  oe_events :: "shell_event list"

datatype shell_open_error =
    OpeningSession | RequestingPTY | NoStdin | NoStdout | NoStderr | StartingShell | InitialisingPTY
  | Synchronising shell_error

datatype shell_part = SessionPart | ReaderPart

datatype part_event = GotPart shell_part | FreedPart shell_part

definition default_shell :: "string \<Rightarrow> string" where
  "default_shell shellCmd = (if shellCmd = '''' then ''/bin/sh'' else shellCmd)"

definition new_shell :: "bool \<Rightarrow> string \<Rightarrow> ShellSession" where
  "new_shell pty b =
     \<lparr>sh_marker = new_marker b, sh_stderr = (if pty then None else Some \<lparr>sb_buf = [], sb_truncated = False\<rparr>),
      sh_broken = False\<rparr>"

text \<open>\<open>ShellSession.Close\<close>: the first call releases the reader, every call closes the session.\<close>

definition shell_Close :: "bool \<Rightarrow> bool \<times> part_event list" where
  "shell_Close done_closed = (True, (if done_closed then [] else [FreedPart ReaderPart]) @ [FreedPart SessionPart])"

text \<open>
  The synchronisation with a no-op command. The wait has a deadline of ten seconds, so one of the
  events ends it; the value is \<open>None\<close> when the events given run out before.
\<close>

type_synonym opened = "((shell_open_error + ShellSession \<times> shell_event list) \<times> part_event list) option"

definition synchronise :: "shell_env \<Rightarrow> ShellSession \<Rightarrow> part_event list \<Rightarrow> opened" where
  "synchronise env sh got =
     (case shell_Exec (oe_sync_write env) (oe_events env) sh of
        None \<Rightarrow> None
      | Some (Inl e, _, _) \<Rightarrow> Some (Inl (Synchronising e), got @ snd (shell_Close False))
      | Some (Inr _, sh', evs) \<Rightarrow> Some (Inr (sh', evs), got))"

definition OpenShell :: "shell_env \<Rightarrow> string \<Rightarrow> opened" where
  "OpenShell env shellCmd =
     (let failed = (\<lambda>e. Some (Inl e, [GotPart SessionPart, FreedPart SessionPart])) in
      if \<not> oe_NewSession env then Some (Inl OpeningSession, [])
      else if \<not> oe_StdinPipe env then failed NoStdin
      else if \<not> oe_StdoutPipe env then failed NoStdout
      else if \<not> oe_StderrPipe env then failed NoStderr
      else if \<not> oe_Start env (default_shell shellCmd) then failed StartingShell
      else synchronise env (new_shell False (oe_rand env)) [GotPart SessionPart, GotPart ReaderPart])"

definition OpenShellPTY :: "shell_env \<Rightarrow> pty_options \<Rightarrow> string \<Rightarrow> opened" where
  "OpenShellPTY env opts shellCmd =
     (let failed = (\<lambda>e. Some (Inl e, [GotPart SessionPart, FreedPart SessionPart]));
          got = [GotPart SessionPart, GotPart ReaderPart]
      in
      if \<not> oe_NewSession env then Some (Inl OpeningSession, [])
      else if \<not> oe_RequestPty env (ptyParams opts) then failed RequestingPTY
      else if \<not> oe_StdinPipe env then failed NoStdin
      else if \<not> oe_StdoutPipe env then failed NoStdout
      else if \<not> oe_Start env (default_shell shellCmd) then failed StartingShell
      else if \<not> oe_init_write env then Some (Inl InitialisingPTY, got @ snd (shell_Close False))
      else synchronise env (new_shell True (oe_rand env)) got)"

section \<open>The delivery of lines\<close>

text \<open>The two cases of the \<open>select\<close> of \<open>sendShellLine\<close>.\<close>

datatype send_case = SentLine | SawDone

definition sendShellLine :: "send_case \<Rightarrow> bool" where
  "sendShellLine c = (c = SentLine)"

fun deliver :: "lineRes list \<Rightarrow> send_case list \<Rightarrow> lineRes list" where
  "deliver (l # ls) (c # cs) = (if sendShellLine c then l # deliver ls cs else [])"
| "deliver _ _ = []"

section \<open>Recording\<close>

text \<open>A shell with its recorder: what \<open>Exec\<close> hands to it, in order.\<close>

record recorded_shell =
  sd_shell :: ShellSession
  sd_recorder :: bool
  sd_stderr_recorder :: bool

definition shell_SetRecorder :: "recorded_shell \<Rightarrow> recorded_shell" where
  "shell_SetRecorder s =
     s\<lparr>sd_recorder := True, sd_stderr_recorder := (if sh_stderr (sd_shell s) \<noteq> None then True else sd_stderr_recorder s)\<rparr>"

datatype tee = TeeIn string | TeeOut string | TeeErr string

definition kept_stderr :: "string \<Rightarrow> syncBuf \<Rightarrow> string" where
  "kept_stderr p b = take (maxOutputBytes - length (sb_buf b)) p"

definition tee_out :: "string \<Rightarrow> tee list" where
  "tee_out t = (if t = '''' then [] else [TeeOut t])"

fun tee_loop :: "string \<Rightarrow> shell_event list \<Rightarrow> ShellSession \<Rightarrow> tee list" where
  "tee_loop out [] s = []"
| "tee_loop out (ev # evs) s =
     (case ev of
        EvCancelled \<Rightarrow> []
      | EvDeadline \<Rightarrow> []
      | EvStderr p \<Rightarrow>
          (case sh_stderr s of
             None \<Rightarrow> tee_loop out evs s
           | Some b \<Rightarrow>
               (if kept_stderr p b = '''' then [] else [TeeErr (kept_stderr p b)]) @
               tee_loop out evs (s\<lparr>sh_stderr := Some (snd (sb_Write p b))\<rparr>))
      | EvLine lr \<Rightarrow>
          if lr_err lr = Some LineTooLong then []
          else
            (case Index (lr_text lr) (sh_marker s @ '':'') of
               Some idx \<Rightarrow>
                 (case appendOut (take idx (lr_text lr)) out of None \<Rightarrow> [] | Some _ \<Rightarrow> tee_out (take idx (lr_text lr)))
             | None \<Rightarrow>
                 (case appendOut (lr_text lr) out of
                    None \<Rightarrow> []
                  | Some out \<Rightarrow>
                      tee_out (lr_text lr) @ (case lr_err lr of Some _ \<Rightarrow> [] | None \<Rightarrow> tee_loop out evs s))))"

definition tee_Exec :: "bool \<Rightarrow> shell_event list \<Rightarrow> string \<Rightarrow> ShellSession \<Rightarrow> tee list" where
  "tee_Exec write_ok evs command s =
     (if sh_broken s then []
      else
        (if command \<noteq> '':'' then [TeeIn (command @ [CHR 0x0A])] else []) @
        (if write_ok then tee_loop [] evs (s\<lparr>sh_stderr := map_option sb_reset (sh_stderr s)\<rparr>) else []))"

section \<open>One-shot runs\<close>

record Target =
  tg_Addr :: string
  tg_User :: string
  tg_HostKey :: string
  tg_ConnectTimeout :: duration

definition Run ::
    "dial_env \<Rightarrow> (Conn \<Rightarrow> string \<Rightarrow> remote_run) \<Rightarrow> string \<Rightarrow> Certificate \<Rightarrow> Target \<Rightarrow> string \<Rightarrow>
     (dial_error + exec_error + ssh_result) \<times> dial_event list" where
  "Run env exec priv cert t command =
     (case Dial env [\<lparr>ho_Addr = tg_Addr t, ho_User = tg_User t, ho_HostKey = tg_HostKey t, ho_PrivateKey = priv,
         ho_Certificate = cert\<rparr>] (tg_ConnectTimeout t) of
        (Inl e, evs) \<Rightarrow> (Inl e, evs)
      | (Inr conn, evs) \<Rightarrow> (Inr (ExecOnce False (exec conn command)), evs @ Conn_Close conn))"

section \<open>Lemmas\<close>

definition parts_step :: "part_event \<Rightarrow> shell_part set \<Rightarrow> shell_part set" where
  "parts_step ev S = (case ev of GotPart p \<Rightarrow> insert p S | FreedPart p \<Rightarrow> S - {p})"

definition parts_held :: "part_event list \<Rightarrow> shell_part set" where
  "parts_held evs = fold parts_step evs {}"

lemma synchronise_parts:
  assumes "synchronise env sh [GotPart SessionPart, GotPart ReaderPart] = Some (res, evs)"
  shows "parts_held evs = (case res of Inl _ \<Rightarrow> {} | Inr _ \<Rightarrow> {SessionPart, ReaderPart})"
  using assms
  by (auto simp: synchronise_def shell_Close_def parts_held_def parts_step_def split: option.splits sum.splits)

text \<open>
  An opened shell or nothing: when opening fails at any point, the session is closed and the
  reader goroutine released; when it succeeds, both are held and one \<open>Close\<close> frees them.
\<close>

lemma OpenShell_parts:
  "OpenShell env cmd = Some (res, evs) \<Longrightarrow>
     parts_held evs = (case res of Inl _ \<Rightarrow> {} | Inr _ \<Rightarrow> {SessionPart, ReaderPart})"
  "OpenShellPTY env opts cmd = Some (res, evs) \<Longrightarrow>
     parts_held evs = (case res of Inl _ \<Rightarrow> {} | Inr _ \<Rightarrow> {SessionPart, ReaderPart})"
  by (auto simp: OpenShell_def OpenShellPTY_def Let_def shell_Close_def dest: synchronise_parts split: if_splits)
    (auto simp: parts_held_def parts_step_def)

lemma Close_frees:
  assumes "parts_held evs = {SessionPart, ReaderPart}"
  shows "parts_held (evs @ snd (shell_Close False)) = {}"
  using assms by (auto simp: parts_held_def parts_step_def shell_Close_def)

lemma shell_loop_keeps:
  "shell_loop out evs s = Some (Inr r, s', left) \<Longrightarrow>
     sh_broken s' = sh_broken s \<and> sh_marker s' = sh_marker s \<and> (sh_stderr s' = None) = (sh_stderr s = None)"
  by (induction out evs s rule: shell_loop.induct) (auto split: shell_event.splits option.splits if_splits)

text \<open>A shell that was opened is synchronised: the next command reads its own output.\<close>

lemma opened_shell_ready:
  assumes "OpenShell env cmd = Some (Inr (sh, left), evs) \<or> OpenShellPTY env opts cmd = Some (Inr (sh, left), evs)"
  shows "\<not> sh_broken sh \<and> sh_marker sh = new_marker (oe_rand env)"
proof -
  obtain pty where "synchronise env (new_shell pty (oe_rand env)) [GotPart SessionPart, GotPart ReaderPart] =
      Some (Inr (sh, left), evs)"
    using assms by (auto simp: OpenShell_def OpenShellPTY_def Let_def split: if_splits)
  then obtain r where "shell_Exec (oe_sync_write env) (oe_events env) (new_shell pty (oe_rand env)) = Some (Inr r, sh, left)"
    by (auto simp: synchronise_def split: option.splits sum.splits)
  then show ?thesis
    by (auto simp: shell_Exec_def new_shell_def Let_def dest!: shell_loop_keeps split: if_splits)
qed

lemma deliver_prefix: "\<exists>n. deliver ls cs = take n ls"
proof (induction ls cs rule: deliver.induct)
  case (1 l ls c cs)
  then obtain n where "deliver ls cs = take n ls" if "sendShellLine c" by (cases "sendShellLine c") auto
  then show ?case by (cases "sendShellLine c") (auto intro: exI [of _ "Suc n"] exI [of _ 0])
qed (auto intro: exI [of _ 0])

text \<open>
  The marker has only letters, digits and underscores, so that it stands for itself between the
  single quotes of \<open>markerLine\<close> and as the name of a variable.
\<close>

definition word_char :: "char \<Rightarrow> bool" where
  "word_char c \<longleftrightarrow> c = CHR ''_'' \<or> (48 \<le> byte c \<and> byte c \<le> 57) \<or> (65 \<le> byte c \<and> byte c \<le> 90) \<or> (97 \<le> byte c \<and> byte c \<le> 122)"

lemma nibble_word: "n < 16 \<Longrightarrow> word_char (nibble n)"
  by (auto simp: nibble_def word_char_def byte_def of_char_of)

lemma new_marker_chars: "\<forall>c\<in>set (new_marker b). word_char c"
proof -
  have "byte c div 16 < 16" for c using byte_less [of c] by auto
  then have "\<forall>c\<in>set (hex_EncodeToString b). word_char c"
    by (auto simp: hex_EncodeToString_def nibble_word)
  then show ?thesis by (auto simp: new_marker_def word_char_def byte_def)
qed

lemma new_marker_length: "length (new_marker b) = 2 * length b + 8"
  by (simp add: new_marker_def hex_EncodeToString_def) (induction b; simp)

lemma Run_no_leak: "still_open (snd (Run env exec priv cert t command)) {} = {}"
  using Dial_no_leak [of "[\<lparr>ho_Addr = tg_Addr t, ho_User = tg_User t, ho_HostKey = tg_HostKey t, ho_PrivateKey = priv,
      ho_Certificate = cert\<rparr>]" env "tg_ConnectTimeout t"]
  by (auto simp: Run_def split: prod.splits sum.splits)

section \<open>The recording and the result\<close>

definition teed_out :: "tee list \<Rightarrow> string" where
  "teed_out ts = concat (map (\<lambda>t. case t of TeeOut s \<Rightarrow> s | _ \<Rightarrow> '''') ts)"

definition teed_err :: "tee list \<Rightarrow> string" where
  "teed_err ts = concat (map (\<lambda>t. case t of TeeErr s \<Rightarrow> s | _ \<Rightarrow> '''') ts)"

definition teed_in :: "tee list \<Rightarrow> string list" where
  "teed_in ts = concat (map (\<lambda>t. case t of TeeIn s \<Rightarrow> [s] | _ \<Rightarrow> []) ts)"

lemma teed_append [simp]:
  "teed_out (a @ b) = teed_out a @ teed_out b" "teed_err (a @ b) = teed_err a @ teed_err b"
  "teed_in (a @ b) = teed_in a @ teed_in b"
  by (simp_all add: teed_out_def teed_err_def teed_in_def)

lemma teed_simps [simp]:
  "teed_out [] = []" "teed_err [] = []" "teed_in [] = []"
  "teed_out [TeeOut t] = t" "teed_err [TeeOut t] = []" "teed_in [TeeOut t] = []"
  "teed_out [TeeErr t] = []" "teed_err [TeeErr t] = t" "teed_in [TeeErr t] = []"
  "teed_out [TeeIn t] = []" "teed_err [TeeIn t] = []" "teed_in [TeeIn t] = [t]"
  "teed_out (tee_out t) = t" "teed_err (tee_out t) = []" "teed_in (tee_out t) = []"
  by (simp_all add: teed_out_def teed_err_def teed_in_def tee_out_def)

lemma sb_Write_kept: "sb_buf (snd (sb_Write p b)) = sb_buf b @ kept_stderr p b"
  by (auto simp: sb_Write_def kept_stderr_def Let_def nat_diff_distrib)

lemma tee_loop_in: "teed_in (tee_loop out evs s) = []"
  by (induction out evs s rule: tee_loop.induct) (auto split: shell_event.splits option.splits)

lemma tee_loop_result:
  assumes "shell_loop out evs s = Some (Inr r, s', left)"
  shows "sr_Stdout r = out @ teed_out (tee_loop out evs s) \<and>
     (case sh_stderr s of
        None \<Rightarrow> sr_Stderr r = '''' \<and> teed_err (tee_loop out evs s) = ''''
      | Some b \<Rightarrow> \<exists>b'. sr_Stderr r = sb_output b' \<and> sb_buf b' = sb_buf b @ teed_err (tee_loop out evs s))"
  using assms
proof (induction out evs s rule: shell_loop.induct)
  case (2 out ev evs s)
  show ?case
  proof (cases ev)
    case (EvStderr p)
    show ?thesis
    proof (cases "sh_stderr s")
      case None
      have "s\<lparr>sh_stderr := None\<rparr> = s" using None by simp
      with 2 EvStderr None show ?thesis by simp
    next
      case (Some b)
      with 2 EvStderr show ?thesis by (auto simp: sb_Write_kept)
    qed
  next
    case (EvLine lr)
    show ?thesis
    proof (cases "Index (lr_text lr) (sh_marker s @ '':'')")
      case None
      with 2 EvLine show ?thesis
        by (auto simp: appendOut_Some split: if_splits option.splits)
    next
      case (Some idx)
      with 2 EvLine show ?thesis
        by (auto dest: appendOut_Some split: if_splits option.splits)
    qed
  qed (use 2 in auto)
qed simp

text \<open>
  C31: the recording of a command is what its caller sees. When a command in a recorded shell
  returns a result, the recorder was handed the command first, then exactly the standard output
  of the result, and, without a terminal, exactly the bytes of standard error that the result
  shows before its truncation note; with a terminal no standard error at all.
\<close>

theorem recording_matches_result:
  assumes "shell_Exec True evs s = Some (Inr r, s', left)" and "command \<noteq> '':''"
  shows "hd (tee_Exec True evs command s) = TeeIn (command @ [CHR 0x0A]) \<and>
     teed_in (tee_Exec True evs command s) = [command @ [CHR 0x0A]] \<and>
     teed_out (tee_Exec True evs command s) = sr_Stdout r \<and>
     (if sh_stderr s = None then sr_Stderr r = '''' \<and> teed_err (tee_Exec True evs command s) = ''''
      else \<exists>b. sr_Stderr r = sb_output b \<and> sb_buf b = teed_err (tee_Exec True evs command s))"
proof -
  let ?s = "s\<lparr>sh_stderr := map_option sb_reset (sh_stderr s)\<rparr>"
  from assms have nb: "\<not> sh_broken s" and l: "shell_loop [] evs ?s = Some (Inr r, s', left)"
    by (auto simp: shell_Exec_def Let_def split: if_splits)
  have tee: "tee_Exec True evs command s = TeeIn (command @ [CHR 0x0A]) # tee_loop [] evs ?s"
    using nb assms(2) by (simp add: tee_Exec_def)
  have cons: "teed_out (TeeIn c # ts) = teed_out ts" "teed_err (TeeIn c # ts) = teed_err ts" "teed_in (TeeIn c # ts) = c # teed_in ts"
    for c ts by (simp_all add: teed_out_def teed_err_def teed_in_def)
  from tee_loop_result [OF l] show ?thesis
    by (auto simp: tee cons tee_loop_in sb_reset_def split: option.splits)
qed

theorem recording_matches_result_witness:
  "teed_out (tee_Exec True [EvLine \<lparr>lr_text = ''bM:3'' @ [CHR 0x0A], lr_err = None\<rparr>] ''id'' sample_shell) = ''b'' \<and>
   teed_in (tee_Exec True [EvLine \<lparr>lr_text = ''bM:3'' @ [CHR 0x0A], lr_err = None\<rparr>] ''id'' sample_shell) = [''id'' @ [CHR 0x0A]]"
proof -
  have idx: "Index (''bM:3'' @ [CHR 0x0A]) ''M:'' = Some 1" by code_simp
  have num: "Atoi (TrimSpace (''3'' @ [CHR 0x0A])) = Some 3" by code_simp
  have "shell_Exec True [EvLine \<lparr>lr_text = ''bM:3'' @ [CHR 0x0A], lr_err = None\<rparr>] sample_shell =
      Some (Inr \<lparr>sr_Stdout = ''b'', sr_Stderr = [], sr_ExitCode = 3\<rparr>, sample_shell, [])"
    using idx num by (simp add: shell_Exec_def sample_shell_def appendOut_def maxOutputBytes_def sb_reset_def sb_output_def)
  from recording_matches_result [OF this, of "''id''"] show ?thesis by simp
qed

end
