(* ===== verification/Broker_Route.thy ===== *)
theory Broker_Route
  imports Broker_Engine
begin

text \<open>
  Routes of the broker: \<open>resolveChain\<close> against the relation of a route through bastions, and the
  connectivity signature that a session is compared with. The signature is an encoding of the
  physical route: no two routes share one.
\<close>

section \<open>Routes\<close>

text \<open>One hop back: from a host to the bastion its entry names.\<close>

definition jump :: "(string, HostInfo) gomap \<Rightarrow> string \<Rightarrow> string \<Rightarrow> bool" where
  "jump hosts h b \<longleftrightarrow> h \<noteq> '''' \<and> (\<exists>hi. get hosts h = Some hi \<and> hi_Jump hi = b)"

text \<open>The dial order of a host: the route to its bastion, then the host itself.\<close>

inductive route :: "(string, HostInfo) gomap \<Rightarrow> string \<Rightarrow> string list \<Rightarrow> bool" for hosts where
  route_end: "route hosts '''' []"
| route_hop: "jump hosts h b \<Longrightarrow> route hosts b chain \<Longrightarrow> route hosts h (chain @ [h])"

inductive_cases route_emptyE: "route hosts '''' chain"
inductive_cases route_hostE: "route hosts h chain"

lemma jump_functional: "jump hosts h b \<Longrightarrow> jump hosts h b' \<Longrightarrow> b = b'"
  by (auto simp: jump_def)

lemma jump_nonempty: "jump hosts h b \<Longrightarrow> h \<noteq> ''''"
  by (simp add: jump_def)

lemma route_unique: "route hosts h c \<Longrightarrow> route hosts h c' \<Longrightarrow> c = c'"
proof (induction arbitrary: c' rule: route.induct)
  case route_end
  then show ?case by (auto elim: route_emptyE dest: jump_nonempty)
next
  case (route_hop h b chain)
  from route_hop.prems route_hop.hyps show ?case
    by (cases rule: route.cases) (auto dest: jump_functional jump_nonempty intro: route_hop.IH)
qed

text \<open>Every host of a route has its own route, a prefix of the whole.\<close>

lemma route_prefix: "route hosts h c \<Longrightarrow> x \<in> set c \<Longrightarrow> \<exists>p q. c = p @ q \<and> route hosts x p \<and> p \<noteq> []"
proof (induction rule: route.induct)
  case (route_hop h b chain)
  show ?case
  proof (cases "x = h")
    case True
    with route_hop.hyps have "route hosts x (chain @ [h])" by (auto intro: route.route_hop)
    then show ?thesis by (metis append_Nil2 snoc_eq_iff_butlast)
  next
    case False
    with route_hop.prems route_hop.IH obtain p q where "chain = p @ q" "route hosts x p" "p \<noteq> []" by auto
    then show ?thesis by (metis append_assoc)
  qed
qed simp

lemma route_distinct: "route hosts h c \<Longrightarrow> distinct c"
proof (induction rule: route.induct)
  case (route_hop h b chain)
  have "h \<notin> set chain"
  proof
    assume "h \<in> set chain"
    then obtain p q where "chain = p @ q" "route hosts h p" using route_prefix [OF route_hop.hyps(2)] by blast
    moreover have "route hosts h (chain @ [h])" using route_hop.hyps by (rule route.route_hop)
    ultimately have "p = (p @ q) @ [h]" using route_unique by metis
    then show False by simp
  qed
  with route_hop.IH show ?case by simp
qed simp

lemma route_known: "route hosts h c \<Longrightarrow> x \<in> set c \<Longrightarrow> x \<noteq> '''' \<and> get hosts x \<noteq> None"
  by (induction rule: route.induct) (auto simp: jump_def)

lemma route_last: "route hosts h c \<Longrightarrow> h \<noteq> '''' \<Longrightarrow> c \<noteq> [] \<and> last c = h"
  by (induction rule: route.induct) auto

lemma chain_loop_Inr:
  assumes "route hosts cur pre" and "set pre \<inter> set seen = {}"
  shows "chain_loop_from hosts seen cur acc = Inr (pre @ acc)"
  using assms
proof (induction arbitrary: seen acc rule: route.induct)
  case route_end
  then show ?case by (simp add: chain_loop_from.simps)
next
  case (route_hop h b chain)
  from route_hop.hyps(1) obtain hi where hi: "h \<noteq> ''''" "get hosts h = Some hi" "hi_Jump hi = b"
    by (auto simp: jump_def)
  have "h \<notin> set chain" using route_distinct [OF route.route_hop [OF route_hop.hyps]] by simp
  with route_hop.IH [of "h # seen" "h # acc"] route_hop.prems hi show ?case
    by (simp add: chain_loop_from.simps [of hosts seen h])
qed

lemma chain_loop_route:
  "chain_loop_from hosts seen cur acc = Inr chain \<Longrightarrow> \<exists>pre. chain = pre @ acc \<and> route hosts cur pre"
proof (induction hosts seen cur acc rule: chain_loop_from.induct)
  case (1 hosts seen cur acc)
  show ?case
  proof (cases "cur = ''''")
    case True
    with 1(2) show ?thesis by (simp add: chain_loop_from.simps [of hosts seen "[]"] route_end)
  next
    case False
    with 1(2) obtain hi where n: "cur \<notin> set seen" and hi: "get hosts cur = Some hi"
      and rec: "chain_loop_from hosts (cur # seen) (hi_Jump hi) (cur # acc) = Inr chain"
      by (auto simp: chain_loop_from.simps [of hosts seen cur] split: if_splits option.splits)
    from 1(1) [OF False n hi rec] obtain pre where "chain = pre @ cur # acc" "route hosts (hi_Jump hi) pre" by blast
    then show ?thesis using False hi by (intro exI [of _ "pre @ [cur]"]) (auto simp: jump_def intro!: route_hop)
  qed
qed

lemma chain_loop_error:
  "chain_loop_from hosts seen cur acc = Inl err \<Longrightarrow>
     (case err of
        UnknownInChain x \<Rightarrow> (jump hosts)\<^sup>*\<^sup>* cur x \<and> x \<noteq> '''' \<and> get hosts x = None
      | BastionCycle x \<Rightarrow> (jump hosts)\<^sup>*\<^sup>* cur x \<and> (x \<in> set seen \<or> (jump hosts)\<^sup>+\<^sup>+ x x))"
proof (induction hosts seen cur acc rule: chain_loop_from.induct)
  case (1 hosts seen cur acc)
  show ?case
  proof (cases "cur = '''' \<or> cur \<in> set seen \<or> get hosts cur = None")
    case True
    with 1(2) show ?thesis by (auto simp: chain_loop_from.simps [of hosts seen cur] split: if_splits)
  next
    case False
    then obtain hi where hi: "get hosts cur = Some hi" by auto
    then have j: "jump hosts cur (hi_Jump hi)" using False by (auto simp: jump_def)
    have rec: "chain_loop_from hosts (cur # seen) (hi_Jump hi) (cur # acc) = Inl err"
      using 1(2) False hi by (simp add: chain_loop_from.simps [of hosts seen cur])
    have "cur \<noteq> ''''" "cur \<notin> set seen" using False by auto
    from 1(1) [OF this hi rec] show ?thesis
      using j by (cases err) (auto intro: converse_rtranclp_into_rtranclp rtranclp_into_tranclp2)
  qed
qed

section \<open>The signature of a route\<close>

text \<open>What the signature encodes: name, address, user, host key and jump of every hop.\<close>

type_synonym hop_view = "string \<times> string \<times> string \<times> string \<times> string"

definition hop_view :: "engine \<Rightarrow> string \<Rightarrow> hop_view" where
  "hop_view e name =
     (case hostInfo e name of
        None \<Rightarrow> (name, '''', '''', '''', '''')
      | Some hi \<Rightarrow> (name, hi_Addr hi, hi_User hi, hi_HostKey hi, hi_Jump hi))"

definition physical_route :: "engine \<Rightarrow> string \<Rightarrow> chain_error + hop_view list" where
  "physical_route e host = map_sum (\<lambda>err. err) (map (hop_view e)) (resolveChain e host)"

definition view_signature :: "hop_view \<Rightarrow> string" where
  "view_signature = (\<lambda>(name, addr, user, key, j).
     writeSignaturePart name @ writeSignaturePart addr @ writeSignaturePart user @ writeSignaturePart key @
     writeSignaturePart j @ ''|'')"

lemma Itoa_no_colon: "CHR '':'' \<notin> set (Itoa (int n))"
proof
  assume "CHR '':'' \<in> set (Itoa (int n))"
  then have "byte (CHR '':'') \<le> 57" using nat_digits_no [of "CHR '':''" n] by (simp add: Itoa_def)
  then show False by (simp add: byte_def)
qed

lemma split_at_unique:
  "c \<notin> set a \<Longrightarrow> c \<notin> set a' \<Longrightarrow> a @ c # t = a' @ c # t' \<Longrightarrow> a = a' \<and> t = t'"
proof (induction a arbitrary: a')
  case Nil
  then show ?case by (cases a') auto
next
  case (Cons x a)
  then show ?case by (cases a') auto
qed

lemma Itoa_inj: "Itoa (int m) = Itoa (int n) \<Longrightarrow> m = n"
proof -
  assume "Itoa (int m) = Itoa (int n)"
  then have "nat_digits m = nat_digits n" by (simp add: Itoa_def)
  then show "m = n" by (metis digits_value_nat_digits)
qed

text \<open>A length prefix that ends at a colon makes the code self-delimiting.\<close>

lemma writeSignaturePart_inj:
  assumes "writeSignaturePart s @ t = writeSignaturePart s' @ t'"
  shows "s = s' \<and> t = t'"
proof -
  from assms have "Itoa (int (length s)) @ CHR '':'' # (s @ t) = Itoa (int (length s')) @ CHR '':'' # (s' @ t')"
    by (simp add: writeSignaturePart_def)
  from split_at_unique [OF Itoa_no_colon Itoa_no_colon this] have "length s = length s'" "s @ t = s' @ t'"
    using Itoa_inj by auto
  then show ?thesis by simp
qed

lemma writeSignaturePart_eq [simp]:
  "writeSignaturePart s @ t = writeSignaturePart s' @ t' \<longleftrightarrow> s = s' \<and> t = t'"
  using writeSignaturePart_inj by blast

lemma view_signature_eq:
  "view_signature v @ t = view_signature v' @ t' \<longleftrightarrow> v = v' \<and> t = t'"
  by (cases v; cases v') (auto simp: view_signature_def)

lemma view_signature_nonempty: "view_signature v \<noteq> []"
  by (cases v) (simp add: view_signature_def)

lemma signatures_inj: "concat (map view_signature vs) = concat (map view_signature vs') \<longleftrightarrow> vs = vs'"
proof (induction vs arbitrary: vs')
  case Nil
  then show ?case by (cases vs') (simp_all add: view_signature_nonempty)
next
  case (Cons v vs)
  then show ?case by (cases vs') (auto simp: view_signature_eq view_signature_nonempty)
qed

lemma hop_signature_view: "hostInfo e name = Some hi \<Longrightarrow> hop_signature name hi = view_signature (hop_view e name)"
  by (simp add: hop_signature_def view_signature_def hop_view_def)

lemma signature_loop_known:
  "\<forall>n\<in>set chain. hostInfo e n \<noteq> None \<Longrightarrow> signature_loop e chain = Inr (concat (map (\<lambda>n. view_signature (hop_view e n)) chain))"
  by (induction chain) (auto simp: hop_signature_view)

lemma resolveChain_route: "resolveChain e host = Inr chain \<longleftrightarrow> route (host_view e) host chain"
  using chain_loop_route [of "host_view e" "[]" host "[]" chain] chain_loop_Inr [of "host_view e" host chain "[]" "[]"]
  by (auto simp: resolveChain_def)

lemma chain_known: "resolveChain e host = Inr chain \<Longrightarrow> n \<in> set chain \<Longrightarrow> n \<noteq> '''' \<and> hostInfo e n \<noteq> None"
  using route_known unfolding resolveChain_route hostInfo_def by blast

lemma connectivitySignature_view:
  "connectivitySignature e host = map_sum (\<lambda>err. err) (\<lambda>vs. concat (map view_signature vs)) (physical_route e host)"
  using chain_known [of e host] signature_loop_known [of _ e]
  by (auto simp: connectivitySignature_def physical_route_def comp_def split: sum.split)

text \<open>The signature that opening a session records is the one a later comparison computes.\<close>

lemma opened_signature:
  assumes "buildHopsWithPrefix cx e c host ttl purpose sessionMode opts = Inr (res, sig)"
  shows "connectivitySignature e host = Inr sig"
proof -
  from assms obtain chain where ch: "resolveChain e host = Inr chain"
    and sig: "sig = concat (map (\<lambda>name. case hostInfo e name of Some hi \<Rightarrow> hop_signature name hi | None \<Rightarrow> '''') chain)"
    by (auto simp: buildHopsWithPrefix_def split: sum.splits)
  have "sig = concat (map (\<lambda>n. view_signature (hop_view e n)) chain)"
    unfolding sig using chain_known [OF ch]
    by (intro arg_cong [where f = concat] map_cong) (fastforce simp: hop_signature_view split: option.split)+
  with ch signature_loop_known [of chain e] chain_known [OF ch] show ?thesis by (simp add: connectivitySignature_def)
qed

section \<open>Properties\<close>

text \<open>
  C26: the route to a host. \<open>resolveChain\<close> returns a route exactly when there is one: every hop is
  known, named by the \<open>jump\<close> of the next, none twice, the host last. Otherwise the error names an
  unknown host that the jumps lead to, or a host on a cycle of jumps they lead to.
\<close>

theorem resolveChain_correct:
  "case resolveChain e host of
     Inr chain \<Rightarrow> route (host_view e) host chain \<and> distinct chain
   | Inl err \<Rightarrow> (\<nexists>chain. route (host_view e) host chain) \<and>
       (case err of
          UnknownInChain x \<Rightarrow> (jump (host_view e))\<^sup>*\<^sup>* host x \<and> x \<noteq> '''' \<and> get (host_view e) x = None
        | BastionCycle x \<Rightarrow> (jump (host_view e))\<^sup>*\<^sup>* host x \<and> (jump (host_view e))\<^sup>+\<^sup>+ x x)"
proof (cases "resolveChain e host")
  case (Inl err)
  then have "\<nexists>chain. route (host_view e) host chain" using resolveChain_route [of e host] by auto
  with Inl chain_loop_error [of "host_view e" "[]" host "[]" err] show ?thesis
    by (auto simp: resolveChain_def split: chain_error.splits)
next
  case (Inr chain)
  then have "route (host_view e) host chain" by (simp add: resolveChain_route)
  with Inr route_distinct show ?thesis by auto
qed

text \<open>
  A connectivity signature stands for one physical route. Two signatures, of any hosts at any
  times, are equal exactly when the routes agree in the name, the address, the user, the host key
  and the jump of every hop: no field can be shifted into another.
\<close>

theorem connectivity_signature_injective:
  "connectivitySignature e host = connectivitySignature e' host' \<longleftrightarrow> physical_route e host = physical_route e' host'"
  by (cases "physical_route e host"; cases "physical_route e' host'")
    (simp_all add: connectivitySignature_view signatures_inj)

end
