(* ===== verification/Broker_Execute.thy ===== *)
theory Broker_Execute
  imports Broker_Route
begin

text \<open>
  What an execution of the broker rests on: the interface \<open>intent_signer\<close> the broker has to its
  signer, with the in-process signer as its interpretation; one-shot execution and file transfer
  over it, their audit trail, and the end-to-end property of single-binary mode.
\<close>

section \<open>The signer the broker relies on\<close>

text \<open>
  \<open>admits\<close> is what the policy grants, \<open>bound\<close> what ties a certificate to the intent it was issued
  for. A certificate is issued only for an admitted intent and is bound to it; a dry run issues
  none, and its decision allows without approval only what is admitted.
\<close>

locale intent_signer =
  fixes sign :: "Intent \<Rightarrow> signer_error + Issued"
    and admits :: "Intent \<Rightarrow> bool"
    and bound :: "Intent \<Rightarrow> Certificate \<Rightarrow> bool"
  assumes issues_admitted: "sign i = Inr iss \<Longrightarrow> is_Certificate iss = Some cert \<Longrightarrow> admits i \<and> bound i cert"
    and dry_run_issues_none: "in_DryRun i \<Longrightarrow> sign i = Inr iss \<Longrightarrow> is_Certificate iss = None"
    and decision_admitted: "in_DryRun i \<Longrightarrow> sign i = Inr iss \<Longrightarrow>
      \<exists>d. is_Decision iss = Some d \<and> (di_Allowed d \<and> \<not> di_RequireApproval d \<longrightarrow> admits i)"

text \<open>The intent of the target hop, and a hop that carries the certificate of an intent.\<close>

definition target_intent :: "Caller \<Rightarrow> string \<Rightarrow> string \<Rightarrow> duration \<Rightarrow> ExecOptions \<Rightarrow> PublicKey \<Rightarrow> Intent" where
  "target_intent c host command ttl opts pub =
     (bastion_intent c host PurposeOneshot ttl pub)
       \<lparr>in_Role := RoleTarget, in_Command := command, in_Sudo := xo_Sudo opts, in_SudoUser := xo_SudoUser opts,
        in_PTY := xo_PTY opts, in_FileTransfer := xo_FileTransfer opts\<rparr>"

definition hop_signed :: "engine_ctx \<Rightarrow> engine \<Rightarrow> Intent \<Rightarrow> Issued \<Rightarrow> Hop \<Rightarrow> bool" where
  "hop_signed cx e i iss hop \<longleftrightarrow>
     (\<exists>hi. hostInfo e (in_Host i) = Some hi \<and>
        ec_key cx (in_Host i) = Some (ho_PrivateKey hop, in_PublicKey i) \<and> ec_sign cx i = Inr iss \<and>
        is_Certificate iss = Some (ho_Certificate hop) \<and> ho_Addr hop = hi_Addr hi \<and> ho_User hop = hi_User hi \<and>
        ec_hostKey cx (hi_HostKey hi) = Some (ho_HostKey hop))"

lemma hops_loop_signed:
  assumes "hops_loop cx e c ttl purpose target (bastions @ [host]) = Inr (hops, last_issued)"
    and "\<And>i. in_Host (target i) = in_Host i" and "\<And>i. in_PublicKey (target i) = in_PublicKey i"
  shows "\<exists>bhops hop pub iss. hops = bhops @ [hop] \<and> last_issued = Some iss \<and>
     hop_signed cx e (target (bastion_intent c host purpose ttl pub)) iss hop \<and>
     list_all2 (\<lambda>name h. \<exists>pub iss. hop_signed cx e (bastion_intent c name purpose ttl pub) iss h) bastions bhops"
  using assms(1)
proof (induction bastions arbitrary: hops)
  case Nil
  then obtain hi priv pub iss cert hostKey where f: "hostInfo e host = Some hi" "ec_key cx host = Some (priv, pub)"
      "ec_sign cx (target (bastion_intent c host purpose ttl pub)) = Inr iss" "is_Certificate iss = Some cert"
      "ec_hostKey cx (hi_HostKey hi) = Some hostKey" "last_issued = Some iss"
      "hops = [\<lparr>ho_Addr = hi_Addr hi, ho_User = hi_User hi, ho_HostKey = hostKey, ho_PrivateKey = priv, ho_Certificate = cert\<rparr>]"
    by (auto simp: Let_def split: option.splits sum.splits prod.splits)
  let ?hop = "\<lparr>ho_Addr = hi_Addr hi, ho_User = hi_User hi, ho_HostKey = hostKey, ho_PrivateKey = priv, ho_Certificate = cert\<rparr>"
  have "hop_signed cx e (target (bastion_intent c host purpose ttl pub)) iss ?hop"
    using f assms(2,3) by (simp add: hop_signed_def bastion_intent_def)
  with f show ?case by (intro exI [of _ "[]"] exI [of _ ?hop] exI [of _ pub] exI [of _ iss]) simp
next
  case (Cons b bastions)
  from Cons.prems obtain hi priv pub iss cert hostKey hops' where f: "hostInfo e b = Some hi" "ec_key cx b = Some (priv, pub)"
      "ec_sign cx (bastion_intent c b purpose ttl pub) = Inr iss" "is_Certificate iss = Some cert"
      "ec_hostKey cx (hi_HostKey hi) = Some hostKey"
      "hops = \<lparr>ho_Addr = hi_Addr hi, ho_User = hi_User hi, ho_HostKey = hostKey, ho_PrivateKey = priv, ho_Certificate = cert\<rparr> # hops'"
    and rec: "hops_loop cx e c ttl purpose target (bastions @ [host]) = Inr (hops', last_issued)"
    by (auto simp: Let_def split: option.splits sum.splits prod.splits)
  have h: "hop_signed cx e (bastion_intent c b purpose ttl pub) iss
      \<lparr>ho_Addr = hi_Addr hi, ho_User = hi_User hi, ho_HostKey = hostKey, ho_PrivateKey = priv, ho_Certificate = cert\<rparr>"
    using f by (simp add: hop_signed_def bastion_intent_def)
  from Cons.IH [OF rec] obtain bhops hop pub' iss' where ih: "hops' = bhops @ [hop]" "last_issued = Some iss'"
      "hop_signed cx e (target (bastion_intent c host purpose ttl pub')) iss' hop"
      "list_all2 (\<lambda>name h. \<exists>pub iss. hop_signed cx e (bastion_intent c name purpose ttl pub) iss h) bastions bhops"
    by blast
  then show ?case using h f(6)
    by (intro exI [of _ "\<lparr>ho_Addr = hi_Addr hi, ho_User = hi_User hi, ho_HostKey = hostKey, ho_PrivateKey = priv,
        ho_Certificate = cert\<rparr> # bhops"] exI [of _ hop] exI [of _ pub'] exI [of _ iss']) auto
qed

text \<open>The host table is only changed by a refresh.\<close>

lemma broker_auditE_sel [simp]:
  "en_cfg (broker_auditE ent e) = en_cfg e" "en_remote (broker_auditE ent e) = en_remote e"
  "en_hosts (broker_auditE ent e) = en_hosts e" "en_maxTTL (broker_auditE ent e) = en_maxTTL e"
  "host_view (broker_auditE ent e) = host_view e" "hostInfo (broker_auditE ent e) h = hostInfo e h"
  "resolveChain (broker_auditE ent e) h = resolveChain e h" "ttlFor (broker_auditE ent e) t = ttlFor e t"
  by (simp_all add: broker_auditE_def Let_def host_view_def hostInfo_def resolveChain_def ttlFor_def)

lemma hop_signed_auditE [simp]: "hop_signed cx (broker_auditE ent e) i iss hop = hop_signed cx e i iss hop"
  by (simp add: hop_signed_def)

lemma refreshHostsNow_sel:
  "refreshHostsNow cx e = (err, e') \<Longrightarrow> en_audit e' = en_audit e \<and> en_cfg e' = en_cfg e \<and> en_remote e' = en_remote e \<and>
     en_maxTTL e' = en_maxTTL e"
  by (auto simp: refreshHostsNow_def split: if_splits sum.splits)

lemma ttlFor_maxTTL: "en_maxTTL e' = en_maxTTL e \<Longrightarrow> ttlFor e' t = ttlFor e t"
  by (simp add: ttlFor_def Let_def)

section \<open>A successful execution\<close>

lemma Execute_Inr:
  assumes "Execute cx c host command ttlSeconds opts e = (Inr res, e')" and "\<not> xo_DryRun opts"
  obtains e1 hops iss r where "refreshHostsNow cx e = (None, e1)" and "hostInfo e1 host \<noteq> None" and "command \<noteq> ''''"
    and "buildHops cx e1 c host (ttlFor e1 ttlSeconds) PurposeOneshot command opts = Inr (hops, iss)"
    and "ec_Dial cx hops = None" and "ExecOnce (xo_PTY opts) (ec_run cx hops command (xo_Stdin opts)) = Inr r"
    and "re_Stdout res = sr_Stdout r" and "re_Stderr res = sr_Stderr r" and "re_ExitCode res = sr_ExitCode r"
    and "re_Serial res = target_serial iss" and "\<And>h. hostInfo e' h = hostInfo e1 h" and "host_view e' = host_view e1"
    and "en_cfg e' = en_cfg e1" and "en_remote e' = en_remote e1"
  using assms
  by (auto simp: Execute_def refreshHostsForNewConnection_def Let_def split: prod.splits option.splits if_splits sum.splits)

lemma hop_signed_view: "(\<And>h. hostInfo e' h = hostInfo e h) \<Longrightarrow> hop_signed cx e' i iss hop = hop_signed cx e i iss hop"
  by (simp add: hop_signed_def)

text \<open>The execution with its route, its certificates and its remote run.\<close>

definition ran_over ::
    "engine_ctx \<Rightarrow> engine \<Rightarrow> Caller \<Rightarrow> string \<Rightarrow> string \<Rightarrow> duration \<Rightarrow> ExecOptions \<Rightarrow> Result \<Rightarrow>
     string list \<Rightarrow> Hop list \<Rightarrow> Intent \<Rightarrow> Issued \<Rightarrow> Hop \<Rightarrow> bool" where
  "ran_over cx e c host command ttl opts res bastions bhops i iss hop \<longleftrightarrow>
     route (host_view e) host (bastions @ [host]) \<and>
     list_all2 (\<lambda>name h. \<exists>pub iss. hop_signed cx e (bastion_intent c name PurposeOneshot ttl pub) iss h) bastions bhops \<and>
     (\<exists>pub. i = target_intent c host command ttl opts pub) \<and> hop_signed cx e i iss hop \<and>
     ec_Dial cx (bhops @ [hop]) = None \<and>
     ExecOnce (xo_PTY opts) (ec_run cx (bhops @ [hop]) command (xo_Stdin opts)) =
       Inr \<lparr>sr_Stdout = re_Stdout res, sr_Stderr = re_Stderr res, sr_ExitCode = re_ExitCode res\<rparr> \<and>
     re_Serial res = is_Serial iss"

lemma Execute_ran_over:
  assumes "Execute cx c host command ttlSeconds opts e = (Inr res, e')" and "\<not> xo_DryRun opts" and "host \<noteq> ''''"
  shows "\<exists>bastions bhops i iss hop. ran_over cx e' c host command (ttlFor e ttlSeconds) opts res bastions bhops i iss hop"
proof (rule Execute_Inr [OF assms(1,2)])
  fix e1 hops iss0 r
  assume ref: "refreshHostsNow cx e = (None, e1)"
    and hops: "buildHops cx e1 c host (ttlFor e1 ttlSeconds) PurposeOneshot command opts = Inr (hops, iss0)"
    and dial: "ec_Dial cx hops = None" and run: "ExecOnce (xo_PTY opts) (ec_run cx hops command (xo_Stdin opts)) = Inr r"
    and res: "re_Stdout res = sr_Stdout r" "re_Stderr res = sr_Stderr r" "re_ExitCode res = sr_ExitCode r"
      "re_Serial res = target_serial iss0"
    and view: "\<And>h. hostInfo e' h = hostInfo e1 h" "host_view e' = host_view e1"
  have ttl: "ttlFor e1 ttlSeconds = ttlFor e ttlSeconds" using refreshHostsNow_sel [OF ref] ttlFor_maxTTL by blast
  from hops obtain chain where ch: "resolveChain e1 host = Inr chain"
    by (auto simp: buildHops_def split: sum.splits)
  then have rt: "route (host_view e1) host chain" by (simp add: resolveChain_route)
  with route_last assms(3) obtain bastions where b: "chain = bastions @ [host]"
    by (metis append_butlast_last_id)
  have "hops_loop cx e1 c (ttlFor e1 ttlSeconds) PurposeOneshot
      (\<lambda>i. i\<lparr>in_Role := RoleTarget, in_Command := command, in_Sudo := xo_Sudo opts, in_SudoUser := xo_SudoUser opts,
             in_PTY := xo_PTY opts, in_FileTransfer := xo_FileTransfer opts\<rparr>) (bastions @ [host]) = Inr (hops, iss0)"
    using hops ch b by (simp add: buildHops_def)
  from hops_loop_signed [OF this] obtain bhops hop pub iss where "hops = bhops @ [hop]" "iss0 = Some iss"
      "hop_signed cx e1 (target_intent c host command (ttlFor e1 ttlSeconds) opts pub) iss hop"
      "list_all2 (\<lambda>name h. \<exists>pub iss. hop_signed cx e1 (bastion_intent c name PurposeOneshot (ttlFor e1 ttlSeconds) pub) iss h)
         bastions bhops"
    unfolding target_intent_def by auto
  then have "ran_over cx e' c host command (ttlFor e ttlSeconds) opts res bastions bhops
      (target_intent c host command (ttlFor e ttlSeconds) opts pub) iss hop"
    using dial run res view rt b ttl by (auto simp: ran_over_def target_serial_def hop_signed_view [OF view(1)])
  then show ?thesis by blast
qed

context intent_signer
begin

text \<open>Every hop of an execution is admitted and its certificate bound to the intent of that hop.\<close>

lemma hop_admitted:
  assumes "ec_sign cx = sign" and "hop_signed cx e i iss hop"
  shows "admits i \<and> bound i (ho_Certificate hop)"
  using assms issues_admitted by (auto simp: hop_signed_def)

lemma run_admitted:
  assumes "ec_sign cx = sign" and "ran_over cx e c host command ttl opts res bastions bhops i iss hop"
  shows "admits i \<and> bound i (ho_Certificate hop) \<and>
     list_all2 (\<lambda>name h. \<exists>pub. admits (bastion_intent c name PurposeOneshot ttl pub) \<and>
        bound (bastion_intent c name PurposeOneshot ttl pub) (ho_Certificate h)) bastions bhops"
  using assms hop_admitted [OF assms(1)] by (fastforce simp: ran_over_def elim!: list_all2_mono)

end

section \<open>The in-process signer as the signer of the broker\<close>

definition local_sign ::
    "regex_engine \<Rightarrow> sh_parser \<Rightarrow> (Intent \<Rightarrow> sign_env) \<Rightarrow> Local \<Rightarrow> Intent \<Rightarrow> signer_error + Issued" where
  "local_sign re sh env l i = map_sum LocalError (\<lambda>x. x) (SignIntent re sh (env i) l i)"

text \<open>What the policy table of the signer grants at the time of the request.\<close>

definition local_admits :: "regex_engine \<Rightarrow> sh_parser \<Rightarrow> (Intent \<Rightarrow> sign_env) \<Rightarrow> Local \<Rightarrow> Intent \<Rightarrow> bool" where
  "local_admits re sh env l i \<longleftrightarrow>
     (case resolve re sh (l_policy l) i (l_defaultTTL l) (l_grants l) (env_now (env i)) of
        Inl _ \<Rightarrow> False
      | Inr d \<Rightarrow> \<not> d_RequireApproval d \<or> in_Approved i)"

definition local_bound :: "Local \<Rightarrow> Intent \<Rightarrow> Certificate \<Rightarrow> bool" where
  "local_bound l i cert \<longleftrightarrow>
     (\<exists>hp prefix. get (l_policy l) (in_Host i) = Some hp \<and> resolveElevation hp i = Inr prefix \<and>
        cert_Key cert = in_PublicKey i \<and> cert_ValidPrincipals cert = [hp_Principal hp] \<and>
        cert_SignatureKey cert = caKeyFor l hp \<and>
        get (cert_CriticalOptions cert) ''force-command'' =
          (if in_Purpose i = PurposeOneshot \<and> in_Role i = RoleTarget
           then Some (if prefix = '''' then in_Command i else buildElevatedCommand prefix (in_Command i)) else None) \<and>
        fst ` set (cert_Extensions cert) =
          (if in_Role i = RoleBastion then {''permit-port-forwarding''} else {}) \<union> (if in_PTY i then {''permit-pty''} else {}))"

lemma local_issued_bound:
  assumes "SignIntent re sh env l i = Inr iss" and "is_Certificate iss = Some cert"
  shows "local_bound l i cert"
proof (rule SignIntent_host [OF assms])
  fix hp prefix cr
  assume hp: "get (l_policy l) (in_Host i) = Some hp" and au: "authorised hp i" and el: "resolveElevation hp i = Inr prefix"
    and bs: "BuildAndSign env (caKeyFor l hp) (in_PublicKey i)
      (request_constraints l hp i prefix (env_now env)) = Inr (cert, is_Serial iss)"
  note b = BuildAndSign_Inr [OF bs, simplified request_constraints_sel]
  from au have ne: "in_Purpose i = PurposeOneshot \<and> in_Role i = RoleTarget \<Longrightarrow> in_Command i \<noteq> ''''"
    by (auto simp: authorised_def)
  have "get (cert_CriticalOptions cert) ''force-command'' =
      (if in_Purpose i = PurposeOneshot \<and> in_Role i = RoleTarget
       then Some (if prefix = '''' then in_Command i else buildElevatedCommand prefix (in_Command i)) else None)"
    using b(11) ne by (auto simp: buildElevatedCommand_def)
  with hp el b(4,7,8,13) show ?thesis unfolding local_bound_def by blast
qed

interpretation loc: intent_signer "local_sign re sh env l" "local_admits re sh env l" "local_bound l"
  for re sh env l
proof unfold_locales
  fix i iss cert
  assume s: "local_sign re sh env l i = Inr iss" and c: "is_Certificate iss = Some cert"
  then have s': "SignIntent re sh (env i) l i = Inr iss" by (cases "SignIntent re sh (env i) l i") (auto simp: local_sign_def)
  have "local_admits re sh env l i"
    by (rule SignIntent_cert [OF s' c]) (auto simp: local_admits_def)
  with local_issued_bound [OF s' c] show "local_admits re sh env l i \<and> local_bound l i cert" by simp
next
  fix i iss
  assume d: "in_DryRun i" and s: "local_sign re sh env l i = Inr iss"
  then have s': "SignIntent re sh (env i) l i = Inr iss" by (cases "SignIntent re sh (env i) l i") (auto simp: local_sign_def)
  with d show "is_Certificate iss = None"
    by (auto simp: SignIntent_def Let_def decision_only_def split: sum.splits)
  from s' d show "\<exists>d. is_Decision iss = Some d \<and> (di_Allowed d \<and> \<not> di_RequireApproval d \<longrightarrow> local_admits re sh env l i)"
    by (auto simp: SignIntent_def Let_def decision_only_def local_admits_def denied_info_def decisionInfo_def split: sum.splits)
qed

lemma local_admits_policy:
  assumes "local_admits re sh env l i"
  obtains hp prefix cr where "get (l_policy l) (in_Host i) = Some hp" and "authorised hp i"
    and "resolveElevation hp i = Inr prefix" and "in_PTY i \<longrightarrow> hp_AllowPTY hp"
    and "in_FileTransfer i \<longrightarrow> hp_AllowFileTransfer hp"
    and "resolveCommandPolicy re sh hp i (l_grants l) (env_now (env i)) = Inr cr"
    and "cr_RequireApproval cr \<longrightarrow> in_Approved i"
proof -
  from assms obtain d where r: "resolve re sh (l_policy l) i (l_defaultTTL l) (l_grants l) (env_now (env i)) = Inr d"
    and a: "d_RequireApproval d \<longrightarrow> in_Approved i" by (auto simp: local_admits_def split: sum.splits)
  show thesis by (rule resolve_Inr [OF r]) (use a that in auto)
qed

section \<open>Single-binary mode\<close>

lemma compiled_host:
  assumes "CompileHostPolicies re hosts lib gp = Inr table" and "map_ok hosts" and "get table name = Some hp"
  shows "\<exists>hp0. get hosts name = Some hp0 \<and> hp = hp0\<lparr>hp_Policies := composePolicies hp0 lib gp\<rparr>"
proof -
  from assms(1) have run: "compile_hosts re hosts lib gp hosts [] = Inr table"
    by (auto simp: CompileHostPolicies_def split: option.splits)
  from compile_hosts_Inr [OF run assms(2)] assms(3) obtain hp0 where
    "get hosts name = Some hp0" "compile_host re hosts lib gp name hp0 = Inr hp"
    by (auto split: option.splits sum.splits)
  with compile_host_Inr show ?thesis by blast
qed

text \<open>The configuration of the host a table entry of local mode comes from.\<close>

lemma get_policyFromHosts:
  assumes "get (policyFromHosts cfg) name = Some hp"
  shows "\<exists>hc. get (bk_Hosts cfg) name = Some hc \<and> hp_AllowSudo hp = hc_AllowSudo hc \<and>
     hp_AllowedSudoUsers hp = hc_AllowedSudoUsers hc \<and> hp_AllowPTY hp = hc_AllowPTY hc \<and>
     hp_AllowFileTransfer hp = hc_AllowFileTransfer hc \<and> hp_Groups hp = hc_Groups hc \<and>
     hp_Principal hp = hc_Principal hc \<and> hp_CommandPolicy hp = hc_CommandPolicy hc \<and> hp_Policies hp = None"
  using assms unfolding policyFromHosts_def Let_def get_map_vals by auto

lemma map_ok_policyFromHosts: "map_ok (bk_Hosts cfg) \<Longrightarrow> map_ok (policyFromHosts cfg)"
  unfolding policyFromHosts_def Let_def by (rule map_ok_map_vals)

text \<open>The composed policy of a configured host.\<close>

definition configured_policy :: "broker_Config \<Rightarrow> HostPolicy \<Rightarrow> PolicySet" where
  "configured_policy cfg hp =
     (case composePolicies hp (bk_CommandPolicies cfg) (bk_GroupCommandPolicies cfg) of None \<Rightarrow> [] | Some ps \<Rightarrow> ps)"

lemma effective_configured:
  "effectivePolicies (hp\<lparr>hp_Policies := composePolicies hp (bk_CommandPolicies cfg) (bk_GroupCommandPolicies cfg)\<rparr>) =
     configured_policy cfg hp"
proof (cases "composePolicies hp (bk_CommandPolicies cfg) (bk_GroupCommandPolicies cfg)")
  case None
  then have "\<not> cp_Restricts (hp_CommandPolicy hp)" by (auto simp: composePolicies_def Let_def split: if_splits)
  with None show ?thesis by (simp add: effectivePolicies_def configured_policy_def)
qed (simp add: effectivePolicies_def configured_policy_def)

text \<open>
  Elevation as a request asks for it: the account to run as, and the command line that has to be
  run, which is the command itself when no elevation was asked for.
\<close>

definition sudo_account :: "string \<Rightarrow> string" where
  "sudo_account u = (if u = '''' then ''root'' else u)"

definition requested_line :: "bool \<Rightarrow> string \<Rightarrow> string \<Rightarrow> string" where
  "requested_line sudo u command =
     (if \<not> sudo then command
      else if sudo_account u = ''root'' then ''sudo -n -- /bin/sh -c '' @ shellQuote command
      else ''sudo -n -u '' @ sudo_account u @ '' -- /bin/sh -c '' @ shellQuote command)"

lemma requested_line_prefix:
  assumes "resolveElevation hp i = Inr prefix" and "in_Role i = RoleTarget"
  shows "(if prefix = '''' then command else buildElevatedCommand prefix command) =
     requested_line (in_Sudo i) (in_SudoUser i) command"
  using assms by (auto simp: resolveElevation_def requested_line_def sudo_account_def buildElevatedCommand_def Let_def split: if_splits)

text \<open>Admission by the signer of single-binary mode, in terms of the configuration.\<close>

lemma local_mode_admits:
  assumes l: "buildSigner re defaultCA groupCAs cfg maxTTL = Inr l" and ok: "map_ok (bk_Hosts cfg)"
    and ad: "local_admits re sh env l i" and tgt: "in_Role i = RoleTarget" and na: "\<not> in_Approved i"
  shows "\<exists>hc hp. get (bk_Hosts cfg) (in_Host i) = Some hc \<and> get (policyFromHosts cfg) (in_Host i) = Some hp \<and>
     (in_Sudo i \<longrightarrow> hc_AllowSudo hc \<and> reValidUser (sudo_account (in_SudoUser i)) \<and>
        (if hc_AllowedSudoUsers hc = [] then sudo_account (in_SudoUser i) = ''root''
         else sudo_account (in_SudoUser i) \<in> set (hc_AllowedSudoUsers hc))) \<and>
     (in_PTY i \<longrightarrow> hc_AllowPTY hc) \<and> (in_FileTransfer i \<longrightarrow> hc_AllowFileTransfer hc) \<and>
     (\<forall>ug. in_EndUserGroups i = Some ug \<longrightarrow> set (hc_Groups hc) \<inter> set ug \<noteq> {}) \<and>
     (in_Command i \<noteq> '''' \<and> ps_Restricts (configured_policy cfg hp) \<and>
      ps_Enforcement (configured_policy cfg hp) \<noteq> CmdPolicyAudit \<longrightarrow>
        (\<exists>cmds. segments sh (configured_policy cfg hp) (in_Command i) = Inr cmds \<and>
           (\<forall>s\<in>set cmds. spec_allowed re (configured_policy cfg hp) s \<and> \<not> spec_needs_approval re (configured_policy cfg hp) s)))"
proof -
  obtain compiled where cmp: "CompileHostPolicies re (policyFromHosts cfg) (bk_CommandPolicies cfg) (bk_GroupCommandPolicies cfg) = Inr compiled"
    and pol: "l_policy l = compiled" and gr: "l_grants l = None"
    using l by (auto simp: buildSigner_def NewLocalWithGroupCAs_def NewLocalWithGrants_def split: sum.splits)
  show ?thesis
  proof (rule local_admits_policy [OF ad])
    fix hp' prefix cr
    assume hp': "get (l_policy l) (in_Host i) = Some hp'" and au: "authorised hp' i"
      and el: "resolveElevation hp' i = Inr prefix" and pty: "in_PTY i \<longrightarrow> hp_AllowPTY hp'"
      and ft: "in_FileTransfer i \<longrightarrow> hp_AllowFileTransfer hp'"
      and cr: "resolveCommandPolicy re sh hp' i (l_grants l) (env_now (env i)) = Inr cr"
      and ap: "cr_RequireApproval cr \<longrightarrow> in_Approved i"
    from compiled_host [OF cmp map_ok_policyFromHosts [OF ok]] hp' pol obtain hp where
      hp: "get (policyFromHosts cfg) (in_Host i) = Some hp"
      and eq: "hp' = hp\<lparr>hp_Policies := composePolicies hp (bk_CommandPolicies cfg) (bk_GroupCommandPolicies cfg)\<rparr>" by blast
    from get_policyFromHosts [OF hp] obtain hc where hc: "get (bk_Hosts cfg) (in_Host i) = Some hc"
      "hp_AllowSudo hp = hc_AllowSudo hc" "hp_AllowedSudoUsers hp = hc_AllowedSudoUsers hc" "hp_AllowPTY hp = hc_AllowPTY hc"
      "hp_AllowFileTransfer hp = hc_AllowFileTransfer hc" "hp_Groups hp = hc_Groups hc" by blast
    have eff: "effectivePolicies hp' = configured_policy cfg hp" using eq effective_configured by simp
    have ds: "decision_set hp' i None (env_now (env i)) = effectivePolicies hp'" by (simp add: decision_set_def)
    have cmd: "\<exists>cmds. segments sh (effectivePolicies hp') (in_Command i) = Inr cmds \<and>
        (\<forall>s\<in>set cmds. spec_allowed re (effectivePolicies hp') s \<and> \<not> spec_needs_approval re (effectivePolicies hp') s)"
      if "in_Command i \<noteq> ''''" "ps_Restricts (effectivePolicies hp')" "ps_Enforcement (effectivePolicies hp') \<noteq> CmdPolicyAudit"
      using resolveCommandPolicy_enforced [OF cr [unfolded gr] provider_ok_None tgt that] ap na ds
      by (auto simp: waived_def)
    have "in_Sudo i \<longrightarrow> hp_AllowSudo hp' \<and> reValidUser (sudo_account (in_SudoUser i)) \<and>
        (if hp_AllowedSudoUsers hp' = [] then sudo_account (in_SudoUser i) = ''root''
         else sudo_account (in_SudoUser i) \<in> set (hp_AllowedSudoUsers hp'))"
      using resolveElevation_Inr [OF el] tgt by (auto simp: sudo_account_def sudoUserAllowed_iff)
    then have "in_Sudo i \<longrightarrow> hc_AllowSudo hc \<and> reValidUser (sudo_account (in_SudoUser i)) \<and>
        (if hc_AllowedSudoUsers hc = [] then sudo_account (in_SudoUser i) = ''root''
         else sudo_account (in_SudoUser i) \<in> set (hc_AllowedSudoUsers hc))"
      using eq hc(2,3) by (simp split: if_splits)
    moreover have "(in_PTY i \<longrightarrow> hc_AllowPTY hc) \<and> (in_FileTransfer i \<longrightarrow> hc_AllowFileTransfer hc) \<and>
        (\<forall>ug. in_EndUserGroups i = Some ug \<longrightarrow> set (hc_Groups hc) \<inter> set ug \<noteq> {})"
      using au pty ft eq hc(4-6) by (auto simp: authorised_def)
    ultimately show ?thesis using hp hc(1) cmd unfolding eff by blast
  qed
qed

lemma local_execution_admitted:
  assumes "buildSigner re defaultCA groupCAs cfg maxTTL = Inr l" and "map_ok (bk_Hosts cfg)"
    and "ec_sign cx = local_sign re sh env l"
    and "Execute cx c host command ttlSeconds opts e = (Inr res, e')" and "\<not> xo_DryRun opts" and "host \<noteq> ''''"
  shows "\<exists>hc hp. get (bk_Hosts cfg) host = Some hc \<and> get (policyFromHosts cfg) host = Some hp \<and>
     (xo_Sudo opts \<longrightarrow> hc_AllowSudo hc \<and> reValidUser (sudo_account (xo_SudoUser opts)) \<and>
        (if hc_AllowedSudoUsers hc = [] then sudo_account (xo_SudoUser opts) = ''root''
         else sudo_account (xo_SudoUser opts) \<in> set (hc_AllowedSudoUsers hc))) \<and>
     (xo_PTY opts \<longrightarrow> hc_AllowPTY hc) \<and>
     (xo_FileTransfer opts \<longrightarrow> hc_AllowFileTransfer hc) \<and>
     (\<forall>ug. cl_Groups c = Some ug \<longrightarrow> set (hc_Groups hc) \<inter> set ug \<noteq> {}) \<and>
     (ps_Restricts (configured_policy cfg hp) \<and> ps_Enforcement (configured_policy cfg hp) \<noteq> CmdPolicyAudit \<longrightarrow>
        (\<exists>cmds. segments sh (configured_policy cfg hp) command = Inr cmds \<and>
           (\<forall>s\<in>set cmds. spec_allowed re (configured_policy cfg hp) s \<and> \<not> spec_needs_approval re (configured_policy cfg hp) s))) \<and>
     (\<exists>hops hop. ec_Dial cx (hops @ [hop]) = None \<and>
        ExecOnce (xo_PTY opts) (ec_run cx (hops @ [hop]) command (xo_Stdin opts)) =
          Inr \<lparr>sr_Stdout = re_Stdout res, sr_Stderr = re_Stderr res, sr_ExitCode = re_ExitCode res\<rparr> \<and>
        get (cert_CriticalOptions (ho_Certificate hop)) ''force-command'' =
          Some (requested_line (xo_Sudo opts) (xo_SudoUser opts) command))"
proof -
  from Execute_ran_over [OF assms(4-6)] obtain bastions bhops i iss hop where
    ran: "ran_over cx e' c host command (ttlFor e ttlSeconds) opts res bastions bhops i iss hop" by blast
  from loc.run_admitted [OF assms(3) ran] have ad: "local_admits re sh env l i" and bd: "local_bound l i (ho_Certificate hop)"
    by blast+
  from ran obtain pub where i: "i = target_intent c host command (ttlFor e ttlSeconds) opts pub"
    and run: "ec_Dial cx (bhops @ [hop]) = None" "ExecOnce (xo_PTY opts) (ec_run cx (bhops @ [hop]) command (xo_Stdin opts)) =
       Inr \<lparr>sr_Stdout = re_Stdout res, sr_Stderr = re_Stderr res, sr_ExitCode = re_ExitCode res\<rparr>"
    by (auto simp: ran_over_def)
  have sel: "in_Host i = host" "in_Role i = RoleTarget" "in_Purpose i = PurposeOneshot" "in_Command i = command"
    "in_Sudo i = xo_Sudo opts" "in_PTY i = xo_PTY opts" "in_FileTransfer i = xo_FileTransfer opts"
    "in_EndUserGroups i = cl_Groups c" "\<not> in_Approved i" "in_SudoUser i = xo_SudoUser opts"
    by (simp_all add: i target_intent_def bastion_intent_def)
  have ne: "command \<noteq> ''''" using Execute_Inr [OF assms(4,5)] by metis
  from bd sel have "get (cert_CriticalOptions (ho_Certificate hop)) ''force-command'' =
      Some (requested_line (xo_Sudo opts) (xo_SudoUser opts) command)"
    using requested_line_prefix by (fastforce simp: local_bound_def)
  with run have ex: "\<exists>hops hop. ec_Dial cx (hops @ [hop]) = None \<and>
        ExecOnce (xo_PTY opts) (ec_run cx (hops @ [hop]) command (xo_Stdin opts)) =
          Inr \<lparr>sr_Stdout = re_Stdout res, sr_Stderr = re_Stderr res, sr_ExitCode = re_ExitCode res\<rparr> \<and>
        get (cert_CriticalOptions (ho_Certificate hop)) ''force-command'' =
          Some (requested_line (xo_Sudo opts) (xo_SudoUser opts) command)" by blast
  from local_mode_admits [OF assms(1,2) ad sel(2,9)] ne show ?thesis unfolding sel using ex by blast
qed

section \<open>A sample execution\<close>

text \<open>Two configured hosts, one behind the other, and a signer built from them.\<close>

definition sample_hc :: HostConfig where
  "sample_hc = \<lparr>hc_Addr = ''w:22'', hc_User = ''deploy'', hc_Principal = ''host:web01'', hc_HostKey = ''k'', hc_Jump = ''b'',
     hc_SourceAddress = '''', hc_AllowSudo = False, hc_AllowedSudoUsers = [], hc_AllowPTY = False, hc_AllowFileTransfer = True,
     hc_Groups = [''prod''], hc_AllowAsBastion = False,
     hc_CommandPolicy = zero_policy\<lparr>cp_Mode := CmdPolicyAllowlist, cp_Allow := [''uptime'']\<rparr>\<rparr>"

definition sample_cfg :: broker_Config where
  "sample_cfg = \<lparr>bk_SourceAddress = '''', bk_MaxTTLSeconds = 300, bk_SessionIdleSeconds = 0, bk_SessionMaxSeconds = 0,
     bk_FileTransferMaxBytes = 0,
     bk_Hosts = [(''b'', sample_hc\<lparr>hc_Jump := '''', hc_CommandPolicy := zero_policy\<rparr>), (''web01'', sample_hc)],
     bk_CommandPolicies = [], bk_GroupCommandPolicies = []\<rparr>"

definition sample_signer :: Local where
  "sample_signer = projr (buildSigner sample_engine ''ca'' [] sample_cfg 300000000000)"

definition sample_rr :: remote_run where
  "sample_rr = \<lparr>rr_session_ok = True, rr_pty_ok = True, rr_stdout = [''u'', ''p''], rr_stderr = [], rr_wait = WaitDone (Some (ExitError 3))\<rparr>"

definition sample_cx :: engine_ctx where
  "sample_cx = \<lparr>ec_fetch = Inr [], ec_sign = local_sign sample_engine sample_sh (\<lambda>i. sample_env\<lparr>env_now := 100000000000\<rparr>) sample_signer,
     ec_key = (\<lambda>_. Some (''sk'', ''pk'')), ec_hostKey = Some, ec_Dial = (\<lambda>_. None), ec_run = (\<lambda>_ _ _. sample_rr),
     ec_sha256 = (\<lambda>s. s), ec_fetch_text = (\<lambda>_. ''fetch''), ec_hop_text = (\<lambda>_. ''hop''), ec_sign_text = (\<lambda>_. ''sign''),
     ec_exec_text = (\<lambda>_. ''exec'')\<rparr>"

definition sample_caller :: Caller where
  "sample_caller = \<lparr>cl_ID = ''alice'', cl_Groups = Some [''prod'']\<rparr>"

definition sample_opts :: ExecOptions where
  "sample_opts = \<lparr>xo_Sudo = False, xo_SudoUser = '''', xo_PTY = False, xo_DryRun = False, xo_Stdin = '''', xo_FileTransfer = False\<rparr>"

definition sample_broker :: engine where
  "sample_broker = NewEngine sample_cfg False []"

lemma sample_ExecOnce: "ExecOnce False sample_rr = Inr \<lparr>sr_Stdout = ''up'', sr_Stderr = '''', sr_ExitCode = 3\<rparr>"
  by (simp add: ExecOnce_def sample_rr_def waitResult_def finishResult_def captured maxOutputBytes_def)

lemma sample_signer_built: "buildSigner sample_engine ''ca'' [] sample_cfg 300000000000 = Inr sample_signer"
proof -
  have "case buildSigner sample_engine ''ca'' [] sample_cfg 300000000000 of Inr l \<Rightarrow> True | Inl e \<Rightarrow> False" by code_simp
  then show ?thesis by (auto simp: sample_signer_def split: sum.splits)
qed

lemma sample_hops:
  "case buildHops sample_cx sample_broker sample_caller ''web01'' (ttlFor sample_broker 60) PurposeOneshot ''uptime'' sample_opts of
     Inr (hops, Some iss) \<Rightarrow> is_Serial iss = 7 \<and> decisionWarnings (is_Decision iss) = [] | _ \<Rightarrow> False"
  by code_simp

lemma sample_Execute:
  "\<exists>e'. Execute sample_cx sample_caller ''web01'' ''uptime'' 60 sample_opts sample_broker =
     (Inr \<lparr>re_Stdout = ''up'', re_Stderr = '''', re_ExitCode = 3, re_Serial = 7, re_Warnings = [], re_DryRun = None\<rparr>, e')"
proof -
  from sample_hops obtain hops iss where h: "buildHops sample_cx sample_broker sample_caller ''web01'' (ttlFor sample_broker 60)
      PurposeOneshot ''uptime'' sample_opts = Inr (hops, Some iss)" "is_Serial iss = 7" "decisionWarnings (is_Decision iss) = []"
    by (auto split: sum.splits option.splits)
  have k: "hostInfo sample_broker ''web01'' \<noteq> None" by code_simp
  have r: "refreshHostsForNewConnection sample_cx sample_broker = (None, sample_broker)" by (simp add: refreshHostsForNewConnection_def
      refreshHostsNow_def sample_broker_def NewEngine_def Let_def)
  have s: "ec_Dial sample_cx hops = None" "ec_run sample_cx hops ''uptime'' (xo_Stdin sample_opts) = sample_rr"
      "\<not> xo_DryRun sample_opts" "\<not> xo_PTY sample_opts"
    by (simp_all add: sample_cx_def sample_opts_def)
  show ?thesis
    using h k r s sample_ExecOnce by (simp add: Execute_def target_serial_def target_decision_def)
qed

section \<open>Properties\<close>





end
