(* ===== verification/Broker_Files.thy ===== *)
theory Broker_Files
  imports Broker_Execute
begin

text \<open>
  The audit trail of one-shot execution, the quoting of paths and commands by the broker, and file
  transfer (\<open>src/internal/broker/filetransfer.go\<close>).
\<close>

section \<open>The audit trail\<close>

lemma broker_auditE_audit:
  "en_audit (broker_auditE ent e) =
     en_audit e @ [ent\<lparr>e_User := (case hostInfo e (e_Host ent) of
        Some hi \<Rightarrow> if e_User ent = '''' then hi_User hi else e_User ent | None \<Rightarrow> e_User ent)\<rparr>]"
  by (auto simp: broker_auditE_def Let_def split: option.splits)

lemma refresh_audit: "refreshHostsForNewConnection cx e = (err, e') \<Longrightarrow> en_audit e' = en_audit e"
  using refreshHostsNow_sel by (fastforce simp: refreshHostsForNewConnection_def split: prod.splits)

text \<open>An entry of the one-shot path, told apart from the fields a particular outcome adds.\<close>

definition entry_for :: "Caller \<Rightarrow> string \<Rightarrow> string \<Rightarrow> string \<Rightarrow> Entry \<Rightarrow> bool" where
  "entry_for c host command outcome ent \<longleftrightarrow>
     e_Caller ent = cl_ID c \<and> e_Host ent = host \<and> e_Command ent = command \<and> e_Outcome ent = outcome"

section \<open>Quoting\<close>

text \<open>A rune is one ASCII byte or has no ASCII byte.\<close>

lemma rune_len_multi:
  assumes "rune_len bs = n" and "n \<noteq> 0"
  shows "n = 1 \<or> (\<forall>b\<in>set (take n bs). 128 \<le> b)"
  using assms
  by (cases bs) (auto simp: cont_def take_Cons' split: if_splits list.splits)

lemma ReplaceAll1_none: "c \<notin> set s \<Longrightarrow> ReplaceAll1 s c new = s"
  by (induction s) (auto simp: ReplaceAll1_def)

lemma ReplaceAll1_append: "ReplaceAll1 (s @ t) c new = ReplaceAll1 s c new @ ReplaceAll1 t c new"
  by (simp add: ReplaceAll1_def)

definition quote_rune :: "string \<Rightarrow> string" where
  "quote_rune r = (if r = [CHR 0x27] then [CHR 0x27, CHR 0x5C, CHR 0x27, CHR 0x27] else r)"

lemma quote_rune_bytes:
  assumes "s \<noteq> []" and "rune_len (map byte s) = n" and "n \<noteq> 0"
  shows "quote_rune (take n s) = ReplaceAll1 (take n s) (CHR 0x27) [CHR 0x27, CHR 0x5C, CHR 0x27, CHR 0x27]"
proof (cases "n = 1")
  case True
  with assms(1) obtain c where "take n s = [c]" by (cases s) auto
  then show ?thesis by (simp add: quote_rune_def ReplaceAll1_def)
next
  case False
  with rune_len_multi [OF assms(2,3)] have "\<forall>b\<in>byte ` set (take n s). 128 \<le> b" by (simp add: take_map)
  then have "CHR 0x27 \<notin> set (take n s)" by (auto simp: byte_def)
  then show ?thesis by (auto simp: quote_rune_def ReplaceAll1_none)
qed

lemma quote_runes_bytes:
  "valid_utf8 s \<Longrightarrow> concat (map quote_rune (range_runes s)) =
     ReplaceAll1 s (CHR 0x27) [CHR 0x27, CHR 0x5C, CHR 0x27, CHR 0x27]"
proof (induction s rule: range_runes.induct)
  case (1 s)
  show ?case
  proof (cases "s = []")
    case True
    then show ?thesis by (simp add: range_runes.simps ReplaceAll1_def)
  next
    case False
    let ?n = "rune_len (map byte s)"
    from 1(3) False have n: "?n \<noteq> 0" "valid_utf8 (drop ?n s)" by (auto simp: valid_utf8.simps [of s] Let_def split: if_splits)
    have "ReplaceAll1 s (CHR 0x27) [CHR 0x27, CHR 0x5C, CHR 0x27, CHR 0x27] =
        ReplaceAll1 (take ?n s) (CHR 0x27) [CHR 0x27, CHR 0x5C, CHR 0x27, CHR 0x27] @
        ReplaceAll1 (drop ?n s) (CHR 0x27) [CHR 0x27, CHR 0x5C, CHR 0x27, CHR 0x27]"
      by (simp flip: ReplaceAll1_append)
    with 1(2) [OF False refl] n False quote_rune_bytes [OF False refl n(1)] show ?thesis
      by (simp add: range_runes.simps [of s] Let_def)
  qed
qed

lemma shellQuoteSession_runes: "shellQuoteSession s = [CHR 0x27] @ concat (map quote_rune (range_runes s)) @ [CHR 0x27]"
  unfolding shellQuoteSession_def quote_rune_def by simp

lemma shellQuoteSession_valid: "valid_utf8 s \<Longrightarrow> shellQuoteSession s = shellQuote s"
  by (simp add: shellQuoteSession_runes quote_runes_bytes shellQuote_def)

lemma shellQuoteSession_word: "valid_utf8 s \<Longrightarrow> sh_word False (shellQuoteSession s) = Some (s, [])"
  by (simp add: shellQuoteSession_valid shellQuote_word)

section \<open>File transfer\<close>

lemma validateTransferPath_None:
  "validateTransferPath path = None \<longleftrightarrow>
     path \<noteq> '''' \<and> CHR 0x00 \<notin> set path \<and> CHR 0x0A \<notin> set path \<and> CHR 0x0D \<notin> set path"
  by (auto simp: validateTransferPath_def ContainsAny_def list_ex_iff)

lemma Execute_executed:
  assumes "Execute cx c host command ttlSeconds opts e = (Inr res, e')" and "\<not> xo_DryRun opts"
  shows "\<exists>ent. en_audit e' = en_audit e @ [ent] \<and> entry_for c host command ''executed'' ent \<and> e_Serial ent = re_Serial res"
  using assms refresh_audit [of cx e]
  by (auto simp: Execute_def Let_def broker_auditE_audit entry_for_def zero_entry_def
      split: prod.splits option.splits if_splits sum.splits)

lemma PutFile_Inr:
  assumes "PutFile cx c host path content mode ttlSeconds e = (Inr r, e')"
  obtains res e1 where "validateTransferPath path = None" and "int (length content) \<le> FileTransferMaxBytes e"
    and "mode = '''' \<or> mode_ok mode"
    and "Execute cx c host (put_command path mode) ttlSeconds (transfer_options content) e = (Inr res, e1)"
    and "re_ExitCode res = 0" and "ft_Size r = int (length content)" and "ft_SHA256 r = ec_sha256 cx content"
    and "ft_Serial r = re_Serial res"
    and "e' = broker_auditE (transfer_entry cx c host path (re_Serial res) ''file_put'' content) e1"
  using assms by (auto simp: PutFile_def split: option.splits if_splits prod.splits sum.splits)

lemma GetFile_Inr:
  assumes "GetFile cx c host path maxBytes ttlSeconds e = (Inr r, e')"
  obtains res e1 where "validateTransferPath path = None"
    and "Execute cx c host (get_command (get_limit e maxBytes) path) ttlSeconds (transfer_options '''') e = (Inr res, e1)"
    and "re_ExitCode res = 0" and "int (length (re_Stdout res)) \<le> get_limit e maxBytes"
    and "ft_Content r = Some (re_Stdout res)" and "ft_Size r = int (length (re_Stdout res))"
    and "ft_SHA256 r = ec_sha256 cx (re_Stdout res)" and "ft_Serial r = re_Serial res"
    and "e' = broker_auditE (transfer_entry cx c host path (re_Serial res) ''file_get'' (re_Stdout res)) e1"
  using assms by (auto simp: GetFile_def Let_def split: option.splits if_splits prod.splits sum.splits)

lemma transfer_options_sel [simp]:
  "\<not> xo_DryRun (transfer_options s)" "\<not> xo_PTY (transfer_options s)" "\<not> xo_Sudo (transfer_options s)"
  "xo_FileTransfer (transfer_options s)" "xo_Stdin (transfer_options s) = s"
  by (simp_all add: transfer_options_def)

text \<open>The standard output of a run without PTY is the captured stream.\<close>

lemma ExecOnce_stdout:
  "ExecOnce pty rr = Inr r \<Longrightarrow> sr_Stdout r = lw_output (lw_copy (rr_stdout rr) lw_new)"
  by (auto simp: ExecOnce_def finishResult_def Let_def split: if_splits sum.splits option.splits run_error.splits)

lemma captured_within:
  assumes "length (lw_output (lw_copy chunks lw_new)) \<le> maxOutputBytes"
  shows "lw_output (lw_copy chunks lw_new) = concat chunks"
  using assms by (auto simp: captured split: if_splits)

section \<open>Sample transfers\<close>

definition file_cx :: "string list \<Rightarrow> engine_ctx" where
  "file_cx out = sample_cx\<lparr>ec_sign := (\<lambda>i. Inr sample_issued),
     ec_run := (\<lambda>_ _ _. \<lparr>rr_session_ok = True, rr_pty_ok = True, rr_stdout = out, rr_stderr = [], rr_wait = WaitDone None\<rparr>)\<rparr>"

definition file_broker :: "int \<Rightarrow> engine" where
  "file_broker cap = NewEngine (sample_cfg\<lparr>bk_FileTransferMaxBytes := cap\<rparr>) False []"

lemma file_host: "host_view (file_broker cap) = map (\<lambda>(name, hc). (name, local_info hc)) (bk_Hosts sample_cfg)"
  "hostInfo (file_broker cap) ''b'' = Some (local_info (sample_hc\<lparr>hc_Jump := '''', hc_CommandPolicy := zero_policy\<rparr>))"
  by (simp_all add: host_view_def hostInfo_def file_broker_def NewEngine_def Let_def sample_cfg_def)

lemma file_chain: "resolveChain (file_broker cap) ''b'' = Inr [''b'']"
  unfolding resolveChain_def file_host by (simp add: chain_loop_from.simps sample_cfg_def local_info_def)

lemma file_Execute:
  assumes "command \<noteq> ''''"
  shows "\<exists>e'. Execute (file_cx out) sample_caller ''b'' command 60 (transfer_options s) (file_broker cap) =
     (Inr \<lparr>re_Stdout = lw_output (lw_copy out lw_new), re_Stderr = '''', re_ExitCode = 0, re_Serial = 7, re_Warnings = [],
       re_DryRun = None\<rparr>, e')"
proof -
  have refr: "refreshHostsForNewConnection (file_cx out) (file_broker cap) = (None, file_broker cap)"
    by (simp add: refreshHostsForNewConnection_def refreshHostsNow_def file_broker_def NewEngine_def Let_def)
  have run: "ExecOnce False (ec_run (file_cx out) hops command s) =
      Inr \<lparr>sr_Stdout = lw_output (lw_copy out lw_new), sr_Stderr = '''', sr_ExitCode = 0\<rparr>" for hops
    by (simp add: file_cx_def ExecOnce_def waitResult_def finishResult_def captured)
  obtain hops where "buildHops (file_cx out) (file_broker cap) sample_caller ''b'' (ttlFor (file_broker cap) 60) PurposeOneshot command
      (transfer_options s) = Inr (hops, Some sample_issued)"
    by (simp add: buildHops_def file_chain file_host file_cx_def sample_cx_def sample_issued_def)
  moreover have "ec_Dial (file_cx out) hops = None" by (simp add: file_cx_def sample_cx_def)
  moreover have "decisionWarnings (is_Decision sample_issued) = []" "is_Serial sample_issued = 7"
    by (simp_all add: decisionWarnings_def sample_issued_def)
  ultimately show ?thesis
    using assms refr run by (simp add: Execute_def file_host target_serial_def target_decision_def)
qed

lemma file_GetFile:
  assumes "int (length (lw_output (lw_copy out lw_new))) \<le> get_limit (file_broker cap) 0"
  shows "\<exists>r e'. GetFile (file_cx out) sample_caller ''b'' ''/f'' 0 60 (file_broker cap) = (Inr r, e') \<and>
     ft_Content r = Some (lw_output (lw_copy out lw_new))"
proof -
  have "get_command (get_limit (file_broker cap) 0) ''/f'' \<noteq> ''''" by (simp add: get_command_def)
  from file_Execute [OF this, of out "[]" cap] assms show ?thesis
    by (auto simp: GetFile_def validateTransferPath_def ContainsAny_def Let_def)
qed

section \<open>Properties\<close>

text \<open>
  C24: every execution leaves exactly one audit entry. A call of \<open>Execute\<close> appends one entry for its
  caller, host and command: \<open>executed\<close> with the exit code, the serial, the elevation and the PTY of
  the run for a result, a dry-run entry with the decision for a dry run, \<open>denied\<close> for an unknown
  host and \<open>error\<close> for every other failure. Only a request without a command, and a dry run for
  which no key could be made, leave none. No earlier entry is touched.
\<close>

theorem execution_audited:
  "case Execute cx c host command ttlSeconds opts e of
     (Inr res, e') \<Rightarrow>
       (\<exists>ent. en_audit e' = en_audit e @ [ent] \<and>
          (if xo_DryRun opts
           then entry_for c host command
                  (if map_option di_Allowed (re_DryRun res) = Some False then ''dry_run_denied'' else ''dry_run_allowed'') ent \<and>
                e_DryRun ent
           else entry_for c host command ''executed'' ent \<and> e_ExitCode ent = re_ExitCode res \<and>
                e_Serial ent = re_Serial res \<and> e_Elevation ent = elevationLabel opts \<and> e_PTY ent = xo_PTY opts \<and>
                \<not> e_DryRun ent))
   | (Inl (BadRequest m), e') \<Rightarrow> command = '''' \<and> en_audit e' = en_audit e
   | (Inl NoKey, e') \<Rightarrow> xo_DryRun opts \<and> en_audit e' = en_audit e
   | (Inl (UnknownHost h), e') \<Rightarrow> h = host \<and> (\<exists>ent. en_audit e' = en_audit e @ [ent] \<and> entry_for c host command ''denied'' ent)
   | (Inl err, e') \<Rightarrow> (\<exists>ent. en_audit e' = en_audit e @ [ent] \<and> entry_for c host command ''error'' ent)"
proof -
  obtain err e1 where r: "refreshHostsForNewConnection cx e = (err, e1)" by (cases "refreshHostsForNewConnection cx e")
  note a = refresh_audit [OF r]
  note d = broker_auditE_audit entry_for_def error_entry_def zero_entry_def a
  show ?thesis
  proof (cases err)
    case (Some b)
    then obtain x where "b = RefreshFailed x" using r
      by (auto simp: refreshHostsForNewConnection_def split: prod.splits)
    with Some r show ?thesis by (simp add: Execute_def d)
  next
    case None
    show ?thesis
    proof (cases "hostInfo e1 host = None \<or> command = ''''")
      case True
      with None r show ?thesis by (auto simp: Execute_def d)
    next
      case False
      then have f: "hostInfo e1 host \<noteq> None" "command \<noteq> ''''" by auto
      show ?thesis
      proof (cases "xo_DryRun opts")
        case True
        with None r f show ?thesis
          by (simp add: Execute_def dryRun_def d Let_def split: option.split sum.split prod.split)
      next
        case False
        have c: "classifySignErr x \<in> {SignerDown x, Denied x}" for x by (simp add: classifySignErr_def)
        from None r f False show ?thesis
          using c by (auto simp: Execute_def classifySignErr_def d Let_def split: option.split sum.split prod.split)
      qed
    qed
  qed
qed

text \<open>
  C25: an upload writes the given bytes to the given path. When \<open>PutFile\<close> succeeds for a path in
  valid UTF-8, the path was not empty and held no NUL or line break, the content was within the
  limit, and one command ran on the host, under a certificate for file transfer without elevation
  and with the content on its standard input: \<open>cat >\<close> and one shell word that reads back as the
  path, then \<open>chmod\<close> with a three or four digit octal mode when a mode was given. It exited with 0,
  and the audit has its execution followed by the transfer with size and digest.
\<close>

theorem upload_correct:
  assumes "PutFile cx c host path content mode ttlSeconds e = (Inr r, e')" and "valid_utf8 path" and "host \<noteq> ''''"
  shows "path \<noteq> '''' \<and> set path \<inter> {CHR 0x00, CHR 0x0A, CHR 0x0D} = {} \<and>
     int (length content) \<le> FileTransferMaxBytes e \<and>
     (\<exists>q hops hop i iss res rr. sh_word False q = Some (path, []) \<and>
        in_Command i = ''cat > '' @ q @ (if mode = '''' then '''' else '' && chmod '' @ mode @ '' '' @ q) \<and>
        (mode = '''' \<or> mode_ok mode) \<and> in_FileTransfer i \<and> \<not> in_Sudo i \<and> in_Host i = host \<and>
        hop_signed cx e' i iss hop \<and> rr = ec_run cx (hops @ [hop]) (in_Command i) content \<and>
        ExecOnce False rr = Inr res \<and> sr_ExitCode res = 0 \<and> ft_Serial r = is_Serial iss) \<and>
     (\<exists>ent put_ent. en_audit e' = en_audit e @ [ent, put_ent] \<and> e_Outcome ent = ''executed'' \<and> e_Outcome put_ent = ''file_put'' \<and>
        e_Serial ent = ft_Serial r \<and> e_Serial put_ent = ft_Serial r \<and>
        e_Command put_ent = ''path='' @ path @ '' bytes='' @ Itoa (int (length content)) @ '' sha256='' @ ec_sha256 cx content)"
proof (rule PutFile_Inr [OF assms(1)])
  fix res e1
  assume p: "validateTransferPath path = None" and sz: "int (length content) \<le> FileTransferMaxBytes e" and m: "mode = '''' \<or> mode_ok mode"
    and x: "Execute cx c host (put_command path mode) ttlSeconds (transfer_options content) e = (Inr res, e1)"
    and ex: "re_ExitCode res = 0" and ser: "ft_Serial r = re_Serial res"
    and e': "e' = broker_auditE (transfer_entry cx c host path (re_Serial res) ''file_put'' content) e1"
  from Execute_ran_over [OF x _ assms(3)] obtain bastions bhops i iss hop where
    ran: "ran_over cx e1 c host (put_command path mode) (ttlFor e ttlSeconds) (transfer_options content) res bastions bhops i iss hop"
    by auto
  let ?q = "shellQuoteSession path"
  from ran have i: "in_Command i = put_command path mode" "in_FileTransfer i" "\<not> in_Sudo i" "in_Host i = host"
    and h: "hop_signed cx e1 i iss hop" and s: "re_Serial res = is_Serial iss"
    and run: "ExecOnce False (ec_run cx (bhops @ [hop]) (put_command path mode) content) =
      Inr \<lparr>sr_Stdout = re_Stdout res, sr_Stderr = re_Stderr res, sr_ExitCode = re_ExitCode res\<rparr>"
    by (auto simp: ran_over_def target_intent_def bastion_intent_def)
  have cmd: "put_command path mode = ''cat > '' @ ?q @ (if mode = '''' then '''' else '' && chmod '' @ mode @ '' '' @ ?q)"
    by (simp add: put_command_def)
  have "\<exists>q hops hop i iss res rr. sh_word False q = Some (path, []) \<and>
        in_Command i = ''cat > '' @ q @ (if mode = '''' then '''' else '' && chmod '' @ mode @ '' '' @ q) \<and>
        (mode = '''' \<or> mode_ok mode) \<and> in_FileTransfer i \<and> \<not> in_Sudo i \<and> in_Host i = host \<and>
        hop_signed cx e' i iss hop \<and> rr = ec_run cx (hops @ [hop]) (in_Command i) content \<and>
        ExecOnce False rr = Inr res \<and> sr_ExitCode res = 0 \<and> ft_Serial r = is_Serial iss"
    using shellQuoteSession_word [OF assms(2)] i h s run ex ser cmd m e'
    by (intro exI [of _ ?q] exI [of _ bhops] exI [of _ hop] exI [of _ i] exI [of _ iss]
        exI [of _ "\<lparr>sr_Stdout = re_Stdout res, sr_Stderr = re_Stderr res, sr_ExitCode = re_ExitCode res\<rparr>"]
        exI [of _ "ec_run cx (bhops @ [hop]) (put_command path mode) content"]) simp
  moreover from Execute_executed [OF x] ser e' have
    "\<exists>ent put_ent. en_audit e' = en_audit e @ [ent, put_ent] \<and> e_Outcome ent = ''executed'' \<and> e_Outcome put_ent = ''file_put'' \<and>
        e_Serial ent = ft_Serial r \<and> e_Serial put_ent = ft_Serial r \<and>
        e_Command put_ent = ''path='' @ path @ '' bytes='' @ Itoa (int (length content)) @ '' sha256='' @ ec_sha256 cx content"
    by (auto simp: broker_auditE_audit transfer_entry_def entry_for_def)
  ultimately show ?thesis using p sz by (auto simp: validateTransferPath_None)
qed

theorem upload_correct_witness:
  "\<exists>r e'. PutFile (file_cx []) sample_caller ''b'' ''/f'' ''data'' ''0644'' 60 (file_broker 0) = (Inr r, e') \<and>
     (\<exists>ent put_ent. en_audit e' = [ent, put_ent] \<and> e_Outcome put_ent = ''file_put'')"
proof -
  have "put_command ''/f'' ''0644'' \<noteq> ''''" by (simp add: put_command_def)
  from file_Execute [OF this, of "[]" "''data''" 0] obtain r e' where
    x: "PutFile (file_cx []) sample_caller ''b'' ''/f'' ''data'' ''0644'' 60 (file_broker 0) = (Inr r, e')"
    by (auto simp: PutFile_def validateTransferPath_def ContainsAny_def mode_ok_def byte_def FileTransferMaxBytes_def
        DefaultFileTransferMaxBytes_def file_broker_def NewEngine_def Let_def sample_cfg_def)
  moreover have "valid_utf8 ''/f''" by code_simp
  moreover have "en_audit (file_broker 0) = []" by (simp add: file_broker_def NewEngine_def Let_def)
  ultimately show ?thesis using upload_correct [OF x] by fastforce
qed

text \<open>
  A download within the output cap is complete. When \<open>GetFile\<close> succeeds under a limit of at
  most 10 MiB, and \<open>head -c\<close> printed the first limit and one bytes of the file, the content returned
  is the whole file and its size is within the limit; a longer file is never cut silently.
\<close>

theorem download_complete:
  assumes "GetFile cx c host path maxBytes ttlSeconds e = (Inr r, e')" and "host \<noteq> ''''"
    and "get_limit e maxBytes \<le> int maxOutputBytes"
    and "\<And>hops. concat (rr_stdout (ec_run cx hops (get_command (get_limit e maxBytes) path) '''')) = take (nat (get_limit e maxBytes + 1)) file"
  shows "ft_Content r = Some file \<and> ft_Size r = int (length file) \<and> ft_SHA256 r = ec_sha256 cx file \<and>
     int (length file) \<le> get_limit e maxBytes"
proof (rule GetFile_Inr [OF assms(1)])
  fix res e1
  assume x: "Execute cx c host (get_command (get_limit e maxBytes) path) ttlSeconds (transfer_options '''') e = (Inr res, e1)"
    and len: "int (length (re_Stdout res)) \<le> get_limit e maxBytes"
    and f: "ft_Content r = Some (re_Stdout res)" "ft_Size r = int (length (re_Stdout res))" "ft_SHA256 r = ec_sha256 cx (re_Stdout res)"
  from Execute_ran_over [OF x _ assms(2)] obtain hops where
    "ExecOnce False (ec_run cx hops (get_command (get_limit e maxBytes) path) '''') =
       Inr \<lparr>sr_Stdout = re_Stdout res, sr_Stderr = re_Stderr res, sr_ExitCode = re_ExitCode res\<rparr>"
    by (auto simp: ran_over_def)
  from ExecOnce_stdout [OF this] have o: "re_Stdout res =
      lw_output (lw_copy (rr_stdout (ec_run cx hops (get_command (get_limit e maxBytes) path) '''')) lw_new)" by simp
  with len assms(3) have "re_Stdout res = concat (rr_stdout (ec_run cx hops (get_command (get_limit e maxBytes) path) ''''))"
    using captured_within by simp
  then have t: "re_Stdout res = take (nat (get_limit e maxBytes + 1)) file" using assms(4) by simp
  have "length file \<le> nat (get_limit e maxBytes)" using t len by (auto simp: min_def split: if_splits)
  then have "re_Stdout res = file" using t by simp
  with f len show ?thesis by simp
qed

theorem download_complete_witness:
  "\<exists>r e'. GetFile (file_cx [''da'', ''ta'']) sample_caller ''b'' ''/f'' 0 60 (file_broker 4) = (Inr r, e') \<and> ft_Content r = Some ''data''"
proof -
  have l: "get_limit (file_broker 4) 0 = 4"
    by (simp add: get_limit_def FileTransferMaxBytes_def file_broker_def NewEngine_def Let_def)
  have o: "lw_output (lw_copy [''da'', ''ta''] lw_new) = ''data''" by (simp add: captured maxOutputBytes_def)
  from file_GetFile [of "[''da'', ''ta'']" 4] l o obtain r e' where
    x: "GetFile (file_cx [''da'', ''ta'']) sample_caller ''b'' ''/f'' 0 60 (file_broker 4) = (Inr r, e')" by auto
  have "concat (rr_stdout (ec_run (file_cx [''da'', ''ta'']) hops (get_command (get_limit (file_broker 4) 0) ''/f'') '''')) =
      take (nat (get_limit (file_broker 4) 0 + 1)) ''data''" for hops
    by (simp add: l file_cx_def)
  from download_complete [OF x _ _ this] l x show ?thesis by (simp add: maxOutputBytes_def)
qed

text \<open>
  Above the output cap a download is cut silently: with a limit of 20 MiB, a file of one byte more
  than 10 MiB comes back as its first 10 MiB followed by the text that marks the truncation, with
  no error.
\<close>

theorem download_cut_silently:
  "\<exists>cx c e file r e'. rr_stdout (ec_run cx [] '''' '''') = [file] \<and> int (length file) \<le> FileTransferMaxBytes e \<and>
     GetFile cx c ''b'' ''/f'' 0 60 e = (Inr r, e') \<and> ft_Content r \<noteq> Some file"
proof -
  let ?file = "replicate (Suc maxOutputBytes) (CHR ''x'')" and ?e = "file_broker 20971520"
  have l: "get_limit ?e 0 = 20971520" "FileTransferMaxBytes ?e = 20971520"
    by (simp_all add: get_limit_def FileTransferMaxBytes_def file_broker_def NewEngine_def Let_def)
  have d: "length (nat_digits 10485760) = 8"
    by (simp add: nat_digits.simps)
  have o: "lw_output (lw_copy [?file] lw_new) = replicate maxOutputBytes (CHR ''x'') @ [CHR 0x0A] @ ''[output truncated: limit of '' @
      Itoa (int maxOutputBytes) @ '' bytes exceeded]'' @ [CHR 0x0A]"
    unfolding captured by (simp del: replicate_Suc)
  have "int (length (lw_output (lw_copy [?file] lw_new))) \<le> get_limit ?e 0"
    unfolding o l using d by (simp add: maxOutputBytes_def Itoa_def)
  from file_GetFile [OF this] obtain r e' where
    x: "GetFile (file_cx [?file]) sample_caller ''b'' ''/f'' 0 60 ?e = (Inr r, e')"
    and r: "ft_Content r = Some (lw_output (lw_copy [?file] lw_new))" by auto
  have "length (lw_output (lw_copy [?file] lw_new)) \<noteq> length ?file" unfolding o by simp
  then have "ft_Content r \<noteq> Some ?file" using r by (metis option.inject)
  moreover have "rr_stdout (ec_run (file_cx [?file]) [] '''' '''') = [?file]" by (simp add: file_cx_def)
  moreover have "int (length ?file) \<le> FileTransferMaxBytes ?e" unfolding l by (simp add: maxOutputBytes_def)
  ultimately show ?thesis using x by blast
qed

text \<open>
  A path that is not valid UTF-8 is accepted, but the command names another file: each stray byte
  becomes the encoding of U+FFFD.
\<close>

theorem invalid_path_renamed:
  "validateTransferPath [CHR ''/'', CHR 0xFF] = None \<and>
   sh_word False (shellQuoteSession [CHR ''/'', CHR 0xFF]) = Some (CHR ''/'' # rune_error, [])"
  by code_simp

end
