(* ===== verification/Sessions.thy ===== *)
theory Sessions
  imports Broker_Files
begin

text \<open>
  Persistent sessions of the broker, \<open>src/internal/broker/session.go\<close>: the manager with its limits
  and its reaper, and the operations that open, use and close a session.

  A \<open>*liveSession\<close> is shared between the map of the manager and the calls that use it, and it lives
  on after it was removed from the map. So sessions are in a store, \<open>sm_heap\<close>, and an address
  stands for the pointer. \<open>ls_closed\<close> records that the connection was closed.
\<close>

section \<open>Sessions and their manager\<close>

definition maxSessionsGlobal :: nat where
  "maxSessionsGlobal = 200"

definition maxSessionsPerCaller :: nat where
  "maxSessionsPerCaller = 20"

record liveSession =
  ls_id :: string
  ls_caller :: string
  ls_host :: string
  ls_serial :: "64 word"
  ls_mode :: string
  ls_conn :: "Hop list"
  ls_shell :: "ShellSession option"
  ls_created :: time
  ls_lastUsed :: time
  ls_busy :: int
  ls_elevationPrefix :: string
  ls_elevLabel :: string
  ls_sudo :: bool
  ls_sudoUser :: string
  ls_pty :: bool
  ls_connectivitySig :: string
  ls_recording :: bool
  ls_closed :: bool

definition live_close :: "liveSession \<Rightarrow> liveSession" where
  "live_close s = s\<lparr>ls_recording := False, ls_closed := True\<rparr>"

record sessionManager =
  sm_heap :: "liveSession list"
  sm_sessions :: "(string, nat) gomap"
  sm_idleTTL :: duration
  sm_maxLife :: duration
  sm_stopped :: bool

abbreviation obj :: "sessionManager \<Rightarrow> nat \<Rightarrow> liveSession" where
  "obj m a \<equiv> sm_heap m ! a"

definition sm_update :: "nat \<Rightarrow> (liveSession \<Rightarrow> liveSession) \<Rightarrow> sessionManager \<Rightarrow> sessionManager" where
  "sm_update a f m = m\<lparr>sm_heap := (sm_heap m)[a := f (obj m a)]\<rparr>"

definition sm_alloc :: "liveSession \<Rightarrow> sessionManager \<Rightarrow> nat \<times> sessionManager" where
  "sm_alloc s m = (length (sm_heap m), m\<lparr>sm_heap := sm_heap m @ [s]\<rparr>)"

definition newSessionManager :: "duration \<Rightarrow> duration \<Rightarrow> sessionManager" where
  "newSessionManager idle maxLife =
     \<lparr>sm_heap = [], sm_sessions = [], sm_idleTTL = idle, sm_maxLife = maxLife, sm_stopped = False\<rparr>"

definition sm_count :: "sessionManager \<Rightarrow> nat" where
  "sm_count m = length (sm_sessions m)"

text \<open>The sessions to reap: idle for too long or too old, and with no command in flight.\<close>

definition reapable :: "sessionManager \<Rightarrow> time \<Rightarrow> nat \<Rightarrow> bool" where
  "reapable m now a \<longleftrightarrow>
     \<not> ls_busy (obj m a) > 0 \<and>
     (now - ls_lastUsed (obj m a) > sm_idleTTL m \<or> now - ls_created (obj m a) > sm_maxLife m)"

definition reapExpired :: "time \<Rightarrow> sessionManager \<Rightarrow> nat list \<times> sessionManager" where
  "reapExpired now m =
     (let victims = map snd (filter (\<lambda>(sid, a). reapable m now a) (sm_sessions m));
          m' = m\<lparr>sm_sessions := filter (\<lambda>(sid, a). \<not> reapable m now a) (sm_sessions m)\<rparr>
      in (victims, fold (\<lambda>a. sm_update a live_close) victims m'))"

datatype limit_error = GlobalLimit | CallerLimit

definition sm_add :: "nat \<Rightarrow> sessionManager \<Rightarrow> limit_error option \<times> sessionManager" where
  "sm_add a m =
     (if length (sm_sessions m) \<ge> maxSessionsGlobal then (Some GlobalLimit, m)
      else if length (filter (\<lambda>(sid, b). ls_caller (obj m b) = ls_caller (obj m a)) (sm_sessions m)) \<ge> maxSessionsPerCaller
      then (Some CallerLimit, m)
      else (None, m\<lparr>sm_sessions := put (ls_id (obj m a)) a (sm_sessions m)\<rparr>))"

definition sm_get :: "string \<Rightarrow> time \<Rightarrow> sessionManager \<Rightarrow> nat option \<times> sessionManager" where
  "sm_get sid now m =
     (case get (sm_sessions m) sid of
        None \<Rightarrow> (None, m)
      | Some a \<Rightarrow> (Some a, sm_update a (\<lambda>s. s\<lparr>ls_lastUsed := now\<rparr>) m))"

definition checkout :: "string \<Rightarrow> time \<Rightarrow> sessionManager \<Rightarrow> nat option \<times> sessionManager" where
  "checkout sid now m =
     (case get (sm_sessions m) sid of
        None \<Rightarrow> (None, m)
      | Some a \<Rightarrow> (Some a, sm_update a (\<lambda>s. s\<lparr>ls_lastUsed := now, ls_busy := ls_busy s + 1\<rparr>) m))"

text \<open>The results \<open>found = false\<close>, \<open>owned = false\<close> and \<open>owned = true\<close>.\<close>

datatype ownership = NotFound | NotOwned nat | Owned nat

definition checkoutOwned :: "string \<Rightarrow> string \<Rightarrow> time \<Rightarrow> sessionManager \<Rightarrow> ownership \<times> sessionManager" where
  "checkoutOwned sid caller now m =
     (case get (sm_sessions m) sid of
        None \<Rightarrow> (NotFound, m)
      | Some a \<Rightarrow>
          if ls_caller (obj m a) \<noteq> caller then (NotOwned a, m)
          else (Owned a, sm_update a (\<lambda>s. s\<lparr>ls_lastUsed := now, ls_busy := ls_busy s + 1\<rparr>) m))"

definition checkin :: "nat \<Rightarrow> time \<Rightarrow> sessionManager \<Rightarrow> sessionManager" where
  "checkin a now m =
     sm_update a (\<lambda>s. (if ls_busy s > 0 then s\<lparr>ls_busy := ls_busy s - 1\<rparr> else s)\<lparr>ls_lastUsed := now\<rparr>) m"

definition sm_remove :: "string \<Rightarrow> sessionManager \<Rightarrow> nat option \<times> sessionManager" where
  "sm_remove sid m =
     (case get (sm_sessions m) sid of
        None \<Rightarrow> (None, m)
      | Some a \<Rightarrow> (Some a, m\<lparr>sm_sessions := del sid (sm_sessions m)\<rparr>))"

definition removeOwned :: "string \<Rightarrow> string \<Rightarrow> sessionManager \<Rightarrow> ownership \<times> sessionManager" where
  "removeOwned sid caller m =
     (case get (sm_sessions m) sid of
        None \<Rightarrow> (NotFound, m)
      | Some a \<Rightarrow>
          if ls_caller (obj m a) \<noteq> caller then (NotOwned a, m)
          else (Owned a, m\<lparr>sm_sessions := del sid (sm_sessions m)\<rparr>))"

definition closeAll :: "sessionManager \<Rightarrow> sessionManager" where
  "closeAll m =
     (if sm_stopped m then m
      else fold (\<lambda>a. sm_update a live_close) (map snd (sm_sessions m)) m\<lparr>sm_sessions := [], sm_stopped := True\<rparr>)"

section \<open>The operations of the engine\<close>

text \<open>The manager an engine starts with.\<close>

definition engine_sessions :: "broker_Config \<Rightarrow> sessionManager" where
  "engine_sessions cfg =
     (let idle = seconds (bk_SessionIdleSeconds cfg); maxLife = seconds (bk_SessionMaxSeconds cfg) in
      newSessionManager (if idle \<le> 0 then 5 * minute_ns else idle) (if maxLife \<le> 0 then 30 * minute_ns else maxLife))"

record broker_state =
  bs_engine :: engine
  bs_sessions :: sessionManager

datatype preflight_error =
    ConnectivityFailed "remote_error + chain_error"
  | ConnectivityChanged string
  | BastionRoute chain_error
  | PreflightKey
  | BastionPreflight string signer_error
  | BastionNoDecision string
  | BastionNotAllowed string
  | BastionNeedsApproval string
  | CommandPreflight signer_error
  | CommandNotAllowed
  | CommandNeedsApproval

datatype session_error =
    SessionRefresh broker_error
  | SessionUnknownHost string
  | InvalidMode string
  | SessionHops hop_error
  | SessionConnection string
  | ShellOpenFailed string
  | SessionLimit limit_error
  | UnknownSession string
  | NotOwner string
  | CommandRequired
  | NewlineInCommand
  | PreflightFailed preflight_error
  | ShellExecFailed shell_error
  | SessionExecFailed exec_error

text \<open>
  What a session operation takes from outside beside the context of the engine: the clock at its
  start and its end, a fresh session id, the opening of a shell, whether the recording of a shell
  could be opened, the runs on an open connection and the events of the shell, and error texts.
\<close>

record session_ctx =
  sc_engine :: engine_ctx
  sc_start :: time
  sc_end :: time
  sc_newSessionID :: string
  sc_OpenShell :: "bool \<Rightarrow> string \<Rightarrow> string + ShellSession"
  sc_recording :: bool
  sc_run :: "Hop list \<Rightarrow> string \<Rightarrow> remote_run"
  sc_write_ok :: bool
  sc_events :: "shell_event list"
  sc_text :: "session_error \<Rightarrow> string"

definition shell_command :: "string \<Rightarrow> string" where
  "shell_command elevPrefix = (if elevPrefix \<noteq> '''' then elevPrefix @ '' -- /bin/sh'' else ''/bin/sh'')"

definition session_audit :: "Entry \<Rightarrow> broker_state \<Rightarrow> broker_state" where
  "session_audit ent b = b\<lparr>bs_engine := broker_auditE ent (bs_engine b)\<rparr>"

definition open_failed :: "session_ctx \<Rightarrow> Caller \<Rightarrow> string \<Rightarrow> 64 word \<Rightarrow> string \<Rightarrow> session_error \<Rightarrow> broker_state \<Rightarrow>
    (session_error + string \<times> 64 word) \<times> broker_state" where
  "open_failed sx c host serial outcome err b =
     (Inl err, session_audit (zero_entry\<lparr>e_Caller := cl_ID c, e_Host := host, e_Serial := serial, e_Outcome := outcome,
                                e_Err := sc_text sx err\<rparr>) b)"

text \<open>The registration of a new session, with its shell if it has one.\<close>

definition register_session :: "session_ctx \<Rightarrow> Caller \<Rightarrow> ExecOptions \<Rightarrow> liveSession \<Rightarrow> broker_state \<Rightarrow>
    (session_error + string \<times> 64 word) \<times> broker_state" where
  "register_session sx c opts s b =
     (case sm_alloc s (bs_sessions b) of
        (a, m) \<Rightarrow>
     (case sm_add a m of
        (Some err, m) \<Rightarrow>
          open_failed sx c (ls_host s) (ls_serial s) ''denied'' (SessionLimit err) (b\<lparr>bs_sessions := sm_update a live_close m\<rparr>)
      | (None, m) \<Rightarrow>
          let m = (if ls_shell s \<noteq> None \<and> sc_recording sx then sm_update a (\<lambda>s. s\<lparr>ls_recording := True\<rparr>) m else m)
          in (Inr (ls_id s, ls_serial s),
              session_audit (zero_entry\<lparr>e_Caller := cl_ID c, e_Host := ls_host s, e_Serial := ls_serial s,
                 e_SessionID := ls_id s, e_Outcome := ''session_open'', e_Command := ''mode='' @ ls_mode s,
                 e_Elevation := elevationLabel opts, e_PTY := xo_PTY opts\<rparr>) (b\<lparr>bs_sessions := m\<rparr>))))"

definition OpenSession :: "session_ctx \<Rightarrow> Caller \<Rightarrow> string \<Rightarrow> string \<Rightarrow> int \<Rightarrow> ExecOptions \<Rightarrow> broker_state \<Rightarrow>
    (session_error + string \<times> 64 word) \<times> broker_state" where
  "OpenSession sx c host mode ttlSeconds opts b =
     (case refreshHostsForNewConnection (sc_engine sx) (bs_engine b) of
        (Some err, e) \<Rightarrow> open_failed sx c host 0 ''error'' (SessionRefresh err) (b\<lparr>bs_engine := e\<rparr>)
      | (None, e) \<Rightarrow>
     (let b = b\<lparr>bs_engine := e\<rparr>; mode = (if mode = '''' then SessionModeExec else mode) in
      if hostInfo e host = None
      then (Inl (SessionUnknownHost host),
            session_audit (zero_entry\<lparr>e_Caller := cl_ID c, e_Host := host, e_Outcome := ''denied'', e_Err := ''unknown host''\<rparr>) b)
      else if mode \<noteq> SessionModeExec \<and> mode \<noteq> SessionModeShell \<and> mode \<noteq> SessionModePTY then (Inl (InvalidMode mode), b)
      else
     (let opts = (if mode = SessionModePTY then opts\<lparr>xo_PTY := True\<rparr> else opts) in
      case buildHopsWithPrefix (sc_engine sx) e c host (ttlFor e ttlSeconds) PurposeSession mode opts of
        Inl err \<Rightarrow> open_failed sx c host 0 ''error'' (SessionHops err) b
      | Inr ((hops, iss), sig) \<Rightarrow>
     (let serial = target_serial iss; elevPrefix = (case iss of None \<Rightarrow> '''' | Some i \<Rightarrow> is_ElevationPrefix i) in
      case ec_Dial (sc_engine sx) hops of
        Some err \<Rightarrow> open_failed sx c host serial ''error'' (SessionConnection err) b
      | None \<Rightarrow>
     (let s = \<lparr>ls_id = sc_newSessionID sx, ls_caller = cl_ID c, ls_host = host, ls_serial = serial, ls_mode = mode,
               ls_conn = hops, ls_shell = None, ls_created = sc_start sx, ls_lastUsed = sc_start sx, ls_busy = 0,
               ls_elevationPrefix = elevPrefix, ls_elevLabel = elevationLabel opts, ls_sudo = xo_Sudo opts,
               ls_sudoUser = xo_SudoUser opts, ls_pty = xo_PTY opts, ls_connectivitySig = sig, ls_recording = False,
               ls_closed = False\<rparr> in
      if mode = SessionModeExec then register_session sx c opts s b
      else
        (case sc_OpenShell sx (mode = SessionModePTY) (shell_command elevPrefix) of
           Inl err \<Rightarrow> open_failed sx c host serial ''error'' (ShellOpenFailed err) b
         | Inr sh \<Rightarrow> register_session sx c opts (s\<lparr>ls_shell := Some sh, ls_elevationPrefix := ''''\<rparr>) b))))))"

text \<open>A preflight intent: a dry run of the role and purpose of the hop, without a command.\<close>

definition preflight_intent :: "engine \<Rightarrow> Caller \<Rightarrow> string \<Rightarrow> string \<Rightarrow> PublicKey \<Rightarrow> Intent" where
  "preflight_intent e c name role pub =
     (bastion_intent c name PurposeSession (en_maxTTL e) pub)\<lparr>in_Role := role, in_DryRun := True, in_Preflight := True\<rparr>"

fun preflight_bastions :: "engine_ctx \<Rightarrow> engine \<Rightarrow> Caller \<Rightarrow> PublicKey \<Rightarrow> string list \<Rightarrow> preflight_error option" where
  "preflight_bastions cx e c pub [] = None"
| "preflight_bastions cx e c pub (name # names) =
     (case ec_sign cx (preflight_intent e c name RoleBastion pub) of
        Inl err \<Rightarrow> Some (BastionPreflight name err)
      | Inr issued \<Rightarrow>
     (case is_Decision issued of
        None \<Rightarrow> Some (BastionNoDecision name)
      | Some dec \<Rightarrow>
          if \<not> di_Allowed dec then Some (BastionNotAllowed name)
          else if di_RequireApproval dec then Some (BastionNeedsApproval name)
          else preflight_bastions cx e c pub names))"

definition authorizeSessionBastions :: "engine_ctx \<Rightarrow> engine \<Rightarrow> Caller \<Rightarrow> string \<Rightarrow> preflight_error option" where
  "authorizeSessionBastions cx e c host =
     (case resolveChain e host of
        Inl err \<Rightarrow> Some (BastionRoute err)
      | Inr chain \<Rightarrow>
          if length chain \<le> 1 then None
          else
            (case ec_key cx (hd chain) of
               None \<Rightarrow> Some PreflightKey
             | Some (_, pub) \<Rightarrow> preflight_bastions cx e c pub (butlast chain)))"

definition session_intent :: "engine \<Rightarrow> Caller \<Rightarrow> liveSession \<Rightarrow> string \<Rightarrow> PublicKey \<Rightarrow> Intent" where
  "session_intent e c s command pub =
     (preflight_intent e c (ls_host s) RoleTarget pub)
       \<lparr>in_SessionMode := (if ls_mode s = ''shell'' then SessionModeShell else if ls_mode s = ''pty'' then SessionModePTY else SessionModeExec),
        in_Command := command, in_Sudo := ls_sudo s, in_SudoUser := ls_sudoUser s, in_PTY := ls_pty s\<rparr>"

text \<open>The connectivity and bastion part, which only sessions with a recorded signature have.\<close>

definition connectivity_preflight :: "engine_ctx \<Rightarrow> Caller \<Rightarrow> liveSession \<Rightarrow> engine \<Rightarrow> preflight_error option \<times> engine" where
  "connectivity_preflight cx c s e =
     (if ls_connectivitySig s = '''' then (None, e)
      else
        (case currentConnectivitySignature cx (ls_host s) e of
           (Inl err, e) \<Rightarrow> (Some (ConnectivityFailed err), e)
         | (Inr currentSig, e) \<Rightarrow>
             if currentSig \<noteq> ls_connectivitySig s then (Some (ConnectivityChanged (ls_host s)), e)
             else (authorizeSessionBastions cx e c (ls_host s), e)))"

text \<open>The decision comes back with the error as well, for the audit entry.\<close>

definition authorizeSessionExec :: "engine_ctx \<Rightarrow> Caller \<Rightarrow> liveSession \<Rightarrow> string \<Rightarrow> engine \<Rightarrow>
    preflight_error option \<times> DecisionInfo option \<times> engine" where
  "authorizeSessionExec cx c s command e =
     (case connectivity_preflight cx c s e of
        (Some err, e) \<Rightarrow> (Some err, None, e)
      | (None, e) \<Rightarrow>
     (case ec_key cx (ls_host s) of
        None \<Rightarrow> (Some PreflightKey, None, e)
      | Some (_, pub) \<Rightarrow>
     (case ec_sign cx (session_intent e c s command pub) of
        Inl err \<Rightarrow> (Some (CommandPreflight err), None, e)
      | Inr issued \<Rightarrow>
     (case is_Decision issued of
        None \<Rightarrow> (None, None, e)
      | Some dec \<Rightarrow>
          if \<not> di_Allowed dec then (Some CommandNotAllowed, Some dec, e)
          else if di_RequireApproval dec then (Some CommandNeedsApproval, Some dec, e)
          else (None, Some dec, e)))))"

definition buildElevatedExecCommand :: "string \<Rightarrow> string \<Rightarrow> string" where
  "buildElevatedExecCommand prefix command = prefix @ '' -- /bin/sh -c '' @ shellQuoteSession command"

text \<open>
  The run of a command: the result and the session afterwards; \<open>None\<close> while it has not returned.
  A session in shell or PTY mode always has its shell.
\<close>

definition session_run :: "session_ctx \<Rightarrow> string \<Rightarrow> liveSession \<Rightarrow> ((session_error + ssh_result) \<times> liveSession) option" where
  "session_run sx command s =
     (if ls_mode s = ''shell'' \<or> ls_mode s = ''pty'' then
        (case ls_shell s of
           None \<Rightarrow> None
         | Some sh \<Rightarrow>
             (case shell_Exec (sc_write_ok sx) (sc_events sx) sh of
                None \<Rightarrow> None
              | Some (res, sh, _) \<Rightarrow> Some (map_sum ShellExecFailed (\<lambda>r. r) res, s\<lparr>ls_shell := Some sh\<rparr>)))
      else
        let effectiveCommand = (if ls_mode s = ''exec'' \<and> ls_elevationPrefix s \<noteq> ''''
                                then buildElevatedExecCommand (ls_elevationPrefix s) command else command)
        in Some (map_sum SessionExecFailed (\<lambda>r. r) (ExecOnce (ls_pty s) (sc_run sx (ls_conn s) effectiveCommand)), s))"

definition session_entry :: "Caller \<Rightarrow> liveSession \<Rightarrow> string \<Rightarrow> string \<Rightarrow> string \<Rightarrow> Entry" where
  "session_entry c s sessionID command outcome =
     zero_entry\<lparr>e_Caller := cl_ID c, e_Host := ls_host s, e_Serial := ls_serial s, e_SessionID := sessionID,
                e_Command := command, e_Outcome := outcome\<rparr>"

text \<open>The body of \<open>SessionExec\<close> between the checkout of the session at \<open>a\<close> and its deferred check-in.\<close>

definition session_exec_body :: "session_ctx \<Rightarrow> Caller \<Rightarrow> string \<Rightarrow> string \<Rightarrow> nat \<Rightarrow> broker_state \<Rightarrow>
    ((session_error + Result) \<times> broker_state) option" where
  "session_exec_body sx c sessionID command a b =
     (let s = obj (bs_sessions b) a in
      if command = '''' then Some (Inl CommandRequired, b)
      else if (ls_mode s = ''shell'' \<or> ls_mode s = ''pty'') \<and> ContainsAny command [CHR 0x0A, CHR 0x0D]
      then Some (Inl NewlineInCommand, b)
      else
        (case authorizeSessionExec (sc_engine sx) c s command (bs_engine b) of
           (Some err, dec, e) \<Rightarrow>
             Some (Inl (PreflightFailed err),
                   session_audit ((session_entry c s sessionID command ''session_exec_denied'')
                     \<lparr>e_Err := sc_text sx (PreflightFailed err), e_PolicyRule := broker_decisionRule dec, e_Warning := broker_decisionWarning dec,
                      e_Elevation := ls_elevLabel s, e_PTY := ls_pty s\<rparr>) (b\<lparr>bs_engine := e\<rparr>))
         | (None, dec, e) \<Rightarrow>
             (case session_run sx command s of
                None \<Rightarrow> None
              | Some (outcome, s') \<Rightarrow>
                  let b = b\<lparr>bs_engine := e, bs_sessions := sm_update a (\<lambda>_. s') (bs_sessions b)\<rparr> in
                  (case outcome of
                     Inl err \<Rightarrow>
                       Some (Inl err, session_audit ((session_entry c s sessionID command ''error'')\<lparr>e_Err := sc_text sx err\<rparr>) b)
                   | Inr res \<Rightarrow>
                       Some (Inr \<lparr>re_Stdout = sr_Stdout res, re_Stderr = sr_Stderr res, re_ExitCode = sr_ExitCode res,
                                  re_Serial = ls_serial s, re_Warnings = decisionWarnings dec, re_DryRun = None\<rparr>,
                             session_audit ((session_entry c s sessionID command ''session_exec'')
                               \<lparr>e_ExitCode := sr_ExitCode res, e_Elevation := ls_elevLabel s, e_PTY := ls_pty s,
                                e_PolicyRule := broker_decisionRule dec, e_Warning := Join (decisionWarnings dec) ''; ''\<rparr>) b)))))"

definition SessionExec :: "session_ctx \<Rightarrow> Caller \<Rightarrow> string \<Rightarrow> string \<Rightarrow> broker_state \<Rightarrow>
    ((session_error + Result) \<times> broker_state) option" where
  "SessionExec sx c sessionID command b =
     (case checkoutOwned sessionID (cl_ID c) (sc_start sx) (bs_sessions b) of
        (NotFound, m) \<Rightarrow> Some (Inl (UnknownSession sessionID), b\<lparr>bs_sessions := m\<rparr>)
      | (NotOwned _, m) \<Rightarrow> Some (Inl (NotOwner sessionID), b\<lparr>bs_sessions := m\<rparr>)
      | (Owned a, m) \<Rightarrow>
          map_option (\<lambda>(res, b). (res, b\<lparr>bs_sessions := checkin a (sc_end sx) (bs_sessions b)\<rparr>))
            (session_exec_body sx c sessionID command a (b\<lparr>bs_sessions := m\<rparr>)))"

definition CloseSession :: "Caller \<Rightarrow> string \<Rightarrow> broker_state \<Rightarrow> session_error option \<times> broker_state" where
  "CloseSession c sessionID b =
     (case removeOwned sessionID (cl_ID c) (bs_sessions b) of
        (NotFound, m) \<Rightarrow> (Some (UnknownSession sessionID), b\<lparr>bs_sessions := m\<rparr>)
      | (NotOwned _, m) \<Rightarrow> (Some (NotOwner sessionID), b\<lparr>bs_sessions := m\<rparr>)
      | (Owned a, m) \<Rightarrow>
          (None, session_audit ((session_entry c (obj m a) sessionID '''' ''session_close''))
                   (b\<lparr>bs_sessions := sm_update a live_close m\<rparr>)))"

text \<open>A tick of the reaper, with the audit entries of the callback the engine installs.\<close>

definition reaped_entry :: "liveSession \<Rightarrow> Entry" where
  "reaped_entry s =
     zero_entry\<lparr>e_Caller := ls_caller s, e_Host := ls_host s, e_Serial := ls_serial s, e_SessionID := ls_id s,
                e_Outcome := ''session_close'', e_Err := ''reaped (idle/lifetime)''\<rparr>"

definition reap_tick :: "time \<Rightarrow> broker_state \<Rightarrow> broker_state" where
  "reap_tick now b =
     (case reapExpired now (bs_sessions b) of
        (victims, m) \<Rightarrow>
          fold (\<lambda>a. session_audit (reaped_entry (obj (bs_sessions b) a))) victims (b\<lparr>bs_sessions := m\<rparr>))"

definition elevationLabelFromPrefix :: "string \<Rightarrow> string" where
  "elevationLabelFromPrefix prefix =
     (if prefix = ''sudo -n'' then ''sudo:root''
      else
        let rest = drop 8 prefix in
        if 8 < length prefix \<and> length rest > 3 \<and> take 3 rest = ''-u '' then ''sudo:'' @ drop 3 rest else ''sudo:?'')"

definition broker_Close :: "broker_state \<Rightarrow> broker_state" where
  "broker_Close b = b\<lparr>bs_sessions := closeAll (bs_sessions b)\<rparr>"

end
