(* ===== verification/Session_Flow.thy ===== *)
theory Session_Flow
  imports Sessions
begin

text \<open>
  Sessions under interleaving. Requests of several callers, the reaper and the shutdown act on the
  manager one locked operation at a time; between the checkout and the check-in of a command any
  other step may happen. \<open>sess_reach\<close> are the states they can reach, with the commands in flight.
\<close>

section \<open>The store\<close>

lemma sm_update_sel [simp]:
  "sm_sessions (sm_update a f m) = sm_sessions m" "length (sm_heap (sm_update a f m)) = length (sm_heap m)"
  "sm_idleTTL (sm_update a f m) = sm_idleTTL m" "sm_maxLife (sm_update a f m) = sm_maxLife m"
  "sm_stopped (sm_update a f m) = sm_stopped m"
  by (simp_all add: sm_update_def)

lemma obj_update: "obj (sm_update a f m) x = (if x = a \<and> a < length (sm_heap m) then f (obj m a) else obj m x)"
  by (cases "a < length (sm_heap m)") (auto simp: sm_update_def nth_list_update list_update_beyond)

lemma fold_update_sel [simp]:
  "sm_sessions (fold (\<lambda>a. sm_update a f) as m) = sm_sessions m"
  "length (sm_heap (fold (\<lambda>a. sm_update a f) as m)) = length (sm_heap m)"
  by (induction as arbitrary: m) simp_all

lemma obj_fold_update:
  "x \<notin> set as \<Longrightarrow> obj (fold (\<lambda>a. sm_update a f) as m) x = obj m x"
  by (induction as arbitrary: m) (auto simp: obj_update)

lemma obj_fold_close:
  "ls_caller (obj (fold (\<lambda>a. sm_update a live_close) as m) x) = ls_caller (obj m x)"
  "ls_busy (obj (fold (\<lambda>a. sm_update a live_close) as m) x) = ls_busy (obj m x)"
  "ls_id (obj (fold (\<lambda>a. sm_update a live_close) as m) x) = ls_id (obj m x)"
  by (induction as arbitrary: m) (auto simp: obj_update live_close_def)

lemma fold_close_in:
  "a \<in> set vs \<Longrightarrow> distinct vs \<Longrightarrow> a < length (sm_heap m) \<Longrightarrow>
     obj (fold (\<lambda>a. sm_update a live_close) vs m) a = live_close (obj m a)"
proof (induction vs arbitrary: m)
  case (Cons v vs)
  then show ?case by (cases "a = v") (auto simp: obj_fold_update obj_update)
qed simp

section \<open>Steps\<close>

type_synonym sess_state = "sessionManager \<times> nat list"

inductive sess_step :: "sess_state \<Rightarrow> sess_state \<Rightarrow> bool" where
  opened: "ls_busy s = 0 \<Longrightarrow> \<not> ls_closed s \<Longrightarrow> sm_alloc s m = (a, m1) \<Longrightarrow> sm_add a m1 = (None, m2) \<Longrightarrow>
    sess_step (m, fl) (m2, fl)"
| rejected: "ls_busy s = 0 \<Longrightarrow> sm_alloc s m = (a, m1) \<Longrightarrow> sm_add a m1 = (Some err, m2) \<Longrightarrow>
    sess_step (m, fl) (sm_update a live_close m2, fl)"
| started: "checkoutOwned sid caller now m = (Owned a, m') \<Longrightarrow> sess_step (m, fl) (m', a # fl)"
| refused: "checkoutOwned sid caller now m = (r, m') \<Longrightarrow> (\<And>a. r \<noteq> Owned a) \<Longrightarrow> sess_step (m, fl) (m', fl)"
| shell_used: "a \<in> set fl \<Longrightarrow> sess_step (m, fl) (sm_update a (\<lambda>s. s\<lparr>ls_shell := sh\<rparr>) m, fl)"
| finished: "a \<in> set fl \<Longrightarrow> sess_step (m, fl) (checkin a now m, remove1 a fl)"
| closed: "removeOwned sid caller m = (Owned a, m') \<Longrightarrow> sess_step (m, fl) (sm_update a live_close m', fl)"
| close_refused: "removeOwned sid caller m = (r, m') \<Longrightarrow> (\<And>a. r \<noteq> Owned a) \<Longrightarrow> sess_step (m, fl) (m', fl)"
| reaped: "reapExpired now m = (victims, m') \<Longrightarrow> sess_step (m, fl) (m', fl)"
| stopped: "sess_step (m, fl) (closeAll m, fl)"

inductive sess_reach :: "duration \<Rightarrow> duration \<Rightarrow> sess_state \<Rightarrow> bool" for idle maxLife where
  reach_init: "sess_reach idle maxLife (newSessionManager idle maxLife, [])"
| reach_step: "sess_reach idle maxLife st \<Longrightarrow> sess_step st st' \<Longrightarrow> sess_reach idle maxLife st'"

inductive_cases sess_stepE: "sess_step (m, fl) st"

section \<open>The invariant\<close>

definition caller_sessions :: "sessionManager \<Rightarrow> string \<Rightarrow> nat" where
  "caller_sessions m caller = length (filter (\<lambda>(sid, a). ls_caller (obj m a) = caller) (sm_sessions m))"

text \<open>
  The map holds valid, distinct, open sessions under their ids and within both limits, and the
  busy counter of every session is the number of its commands in flight.
\<close>

definition sess_ok :: "sess_state \<Rightarrow> bool" where
  "sess_ok = (\<lambda>(m, fl).
     map_ok (sm_sessions m) \<and> distinct (map snd (sm_sessions m)) \<and>
     (\<forall>(sid, a)\<in>set (sm_sessions m). a < length (sm_heap m) \<and> ls_id (obj m a) = sid \<and> \<not> ls_closed (obj m a)) \<and>
     length (sm_sessions m) \<le> maxSessionsGlobal \<and> (\<forall>caller. caller_sessions m caller \<le> maxSessionsPerCaller) \<and>
     (\<forall>a\<in>set fl. a < length (sm_heap m)) \<and>
     (\<forall>a<length (sm_heap m). ls_busy (obj m a) = int (count_list fl a)))"

lemma sess_okD:
  assumes "sess_ok (m, fl)"
  shows "map_ok (sm_sessions m)" "distinct (map snd (sm_sessions m))"
    "\<And>sid a. (sid, a) \<in> set (sm_sessions m) \<Longrightarrow> a < length (sm_heap m) \<and> ls_id (obj m a) = sid \<and> \<not> ls_closed (obj m a)"
    "length (sm_sessions m) \<le> maxSessionsGlobal" "\<And>caller. caller_sessions m caller \<le> maxSessionsPerCaller"
    "\<And>a. a \<in> set fl \<Longrightarrow> a < length (sm_heap m)"
    "\<And>a. a < length (sm_heap m) \<Longrightarrow> ls_busy (obj m a) = int (count_list fl a)"
  using assms by (auto simp: sess_ok_def)

lemma sess_okI:
  assumes "map_ok (sm_sessions m)" "distinct (map snd (sm_sessions m))"
    "\<And>sid a. (sid, a) \<in> set (sm_sessions m) \<Longrightarrow> a < length (sm_heap m) \<and> ls_id (obj m a) = sid \<and> \<not> ls_closed (obj m a)"
    "length (sm_sessions m) \<le> maxSessionsGlobal" "\<And>caller. caller_sessions m caller \<le> maxSessionsPerCaller"
    "\<And>a. a \<in> set fl \<Longrightarrow> a < length (sm_heap m)"
    "\<And>a. a < length (sm_heap m) \<Longrightarrow> ls_busy (obj m a) = int (count_list fl a)"
  shows "sess_ok (m, fl)"
  using assms by (auto simp: sess_ok_def)

text \<open>Entries of a map with distinct values: removing some leaves fewer, and none with their addresses.\<close>

lemma filter_length_mono: "(\<And>x. x \<in> set xs \<Longrightarrow> P x \<Longrightarrow> Q x) \<Longrightarrow> length (filter P xs) \<le> length (filter Q xs)"
  by (induction xs) auto

lemma caller_sessions_cong:
  assumes "sm_sessions m' = sm_sessions m"
    and "\<And>sid a. (sid, a) \<in> set (sm_sessions m) \<Longrightarrow> ls_caller (obj m' a) = ls_caller (obj m a)"
  shows "caller_sessions m' caller = caller_sessions m caller"
  unfolding caller_sessions_def assms(1) using assms(2) by (intro arg_cong [where f = length] filter_cong) auto

text \<open>A step that keeps the map and only changes sessions outside caller, id and closing.\<close>

lemma sess_ok_same_map:
  assumes "sess_ok (m, fl)" and "sm_sessions m' = sm_sessions m" and "length (sm_heap m') = length (sm_heap m)"
    and "\<And>a. a < length (sm_heap m) \<Longrightarrow> ls_caller (obj m' a) = ls_caller (obj m a) \<and> ls_id (obj m' a) = ls_id (obj m a) \<and>
       ls_closed (obj m' a) = ls_closed (obj m a) \<and> ls_busy (obj m' a) = int (count_list fl' a)"
    and "set fl' \<subseteq> insert a0 (set fl)" and "a0 < length (sm_heap m)"
  shows "sess_ok (m', fl')"
proof (rule sess_okI)
  note d = sess_okD [OF assms(1)]
  show "map_ok (sm_sessions m')" "distinct (map snd (sm_sessions m'))" "length (sm_sessions m') \<le> maxSessionsGlobal"
    using d assms(2) by simp_all
  show "a < length (sm_heap m') \<and> ls_id (obj m' a) = sid \<and> \<not> ls_closed (obj m' a)" if "(sid, a) \<in> set (sm_sessions m')" for sid a
    using d(3) [of sid a] that assms(2,3,4) by simp
  show "caller_sessions m' caller \<le> maxSessionsPerCaller" for caller
    using caller_sessions_cong [OF assms(2)] d(3,5) assms(4) by metis
  show "a < length (sm_heap m')" if "a \<in> set fl'" for a using that assms(3,5,6) d(6) by auto
  show "ls_busy (obj m' a) = int (count_list fl' a)" if "a < length (sm_heap m')" for a
    using that assms(3,4) by simp
qed

text \<open>A step that removes entries from the map and closes the sessions removed.\<close>

lemma sess_ok_removed:
  assumes "sess_ok (m, fl)" and "sm_sessions m' = filter P (sm_sessions m)" and "length (sm_heap m') = length (sm_heap m)"
    and "\<And>a. ls_caller (obj m' a) = ls_caller (obj m a) \<and> ls_id (obj m' a) = ls_id (obj m a) \<and> ls_busy (obj m' a) = ls_busy (obj m a)"
    and "\<And>sid a. (sid, a) \<in> set (sm_sessions m) \<Longrightarrow> P (sid, a) \<Longrightarrow> ls_closed (obj m' a) = ls_closed (obj m a)"
  shows "sess_ok (m', fl)"
proof (rule sess_okI)
  note d = sess_okD [OF assms(1)]
  show "map_ok (sm_sessions m')" using d(1) assms(2) by simp
  show "distinct (map snd (sm_sessions m'))" unfolding assms(2) using d(2) by (rule distinct_map_filter)
  show "length (sm_sessions m') \<le> maxSessionsGlobal"
    unfolding assms(2) by (rule order_trans [OF length_filter_le d(4)])
  show "a < length (sm_heap m') \<and> ls_id (obj m' a) = sid \<and> \<not> ls_closed (obj m' a)" if "(sid, a) \<in> set (sm_sessions m')" for sid a
    using d(3) [of sid a] that assms(2-4) assms(5) [of sid a] by simp
  show "caller_sessions m' caller \<le> maxSessionsPerCaller" for caller
  proof -
    have "caller_sessions m' caller \<le> caller_sessions m caller"
      unfolding caller_sessions_def assms(2) using assms(4) by (auto simp: intro!: filter_length_mono)
    with d(5) show ?thesis using le_trans by blast
  qed
  show "a < length (sm_heap m')" if "a \<in> set fl" for a using that assms(3) d(6) by simp
  show "ls_busy (obj m' a) = int (count_list fl a)" if "a < length (sm_heap m')" for a
    using that assms(3,4) d(7) by simp
qed

lemma put_filter_length: "length (filter P (put k v m)) \<le> length (filter P m) + (if P (k, v) then 1 else 0)"
  by (induction m) (auto split: if_splits)

lemma put_distinct_values: "distinct (map snd m) \<Longrightarrow> v \<notin> snd ` set m \<Longrightarrow> distinct (map snd (put k v m))"
proof (induction m)
  case (Cons p m)
  have "snd ` set (put k v m) \<subseteq> insert v (snd ` set m)" using set_put_subset [of k v m] by auto
  with Cons show ?case by (cases p) auto
qed simp

lemma alloc_add:
  assumes "sm_alloc s m = (a, m1)" and "sm_add a m1 = (err, m2)"
  shows "a = length (sm_heap m)" "sm_heap m2 = sm_heap m @ [s]"
    "sm_sessions m2 = (if err = None then put (ls_id s) a (sm_sessions m) else sm_sessions m)"
    "err = None \<Longrightarrow> length (sm_sessions m) < maxSessionsGlobal \<and>
       length (filter (\<lambda>(sid, b). ls_caller (obj m1 b) = ls_caller s) (sm_sessions m)) < maxSessionsPerCaller"
    "sm_heap m1 = sm_heap m @ [s]"
  using assms by (auto simp: sm_alloc_def sm_add_def split: if_splits)

lemma sess_ok_opened:
  assumes "sess_ok (m, fl)" and "ls_busy s = 0" and "\<not> ls_closed s"
    and "sm_alloc s m = (a, m1)" and "sm_add a m1 = (None, m2)"
  shows "sess_ok (m2, fl)"
proof (rule sess_okI)
  note d = sess_okD [OF assms(1)] and al = alloc_add [OF assms(4,5), simplified]
  have new: "a \<notin> snd ` set (sm_sessions m)" "count_list fl a = 0"
    using d(3,6) al(1) by (fastforce, metis count_list_0_iff less_irrefl)
  have old: "obj m2 b = obj m b" "obj m1 b = obj m b" if "b < length (sm_heap m)" for b using that al(2,5) by (simp_all add: nth_append)
  have at: "obj m2 a = s" using al(1,2) by simp
  show "map_ok (sm_sessions m2)" "distinct (map snd (sm_sessions m2))"
    using d(1,2) al(3) new(1) by (simp_all add: put_distinct_values)
  show "b < length (sm_heap m2) \<and> ls_id (obj m2 b) = sid \<and> \<not> ls_closed (obj m2 b)" if "(sid, b) \<in> set (sm_sessions m2)" for sid b
  proof (cases "(sid, b) \<in> set (sm_sessions m)")
    case True
    with d(3) [of sid b] old [of b] al(2) show ?thesis by simp
  next
    case False
    with that al(3) set_put_subset [of "ls_id s" a "sm_sessions m"] have "sid = ls_id s" "b = a" by auto
    with at al(1,2) assms(3) show ?thesis by simp
  qed
  show "length (sm_sessions m2) \<le> maxSessionsGlobal"
    using al(3,4) length_put_le [of "ls_id s" a "sm_sessions m"] by simp
  show "caller_sessions m2 caller \<le> maxSessionsPerCaller" for caller
  proof -
    have eq: "filter (\<lambda>(sid, b). ls_caller (obj m2 b) = x) (sm_sessions m) = filter (\<lambda>(sid, b). ls_caller (obj m b) = x) (sm_sessions m)"
      "filter (\<lambda>(sid, b). ls_caller (obj m1 b) = x) (sm_sessions m) = filter (\<lambda>(sid, b). ls_caller (obj m b) = x) (sm_sessions m)" for x
      using d(3) old by (auto intro!: filter_cong)
    from al(4) eq(2) [of "ls_caller s"] have lt: "caller_sessions m (ls_caller s) < maxSessionsPerCaller"
      by (simp add: caller_sessions_def)
    have "caller_sessions m2 caller \<le> caller_sessions m caller + (if ls_caller (obj m2 a) = caller then 1 else 0)"
      unfolding caller_sessions_def al(3) eq(1) [symmetric]
      using put_filter_length [of "\<lambda>(sid, b). ls_caller (obj m2 b) = caller" "ls_id s" a "sm_sessions m"] by simp
    with lt at d(5) [of caller] show ?thesis by (auto split: if_splits)
  qed
  show "b < length (sm_heap m2)" if "b \<in> set fl" for b using d(6) [OF that] al(2) by simp
  show "ls_busy (obj m2 b) = int (count_list fl b)" if "b < length (sm_heap m2)" for b
    using that d(7) [of b] old [of b] at al(1,2) new(2) assms(2) by (cases "b = a") auto
qed

lemma sess_ok_rejected:
  assumes "sess_ok (m, fl)" and "ls_busy s = 0" and "sm_alloc s m = (a, m1)" and "sm_add a m1 = (Some err, m2)"
  shows "sess_ok (sm_update a live_close m2, fl)"
proof (rule sess_okI)
  note d = sess_okD [OF assms(1)] and al = alloc_add [OF assms(3,4), simplified]
  have old: "obj (sm_update a live_close m2) b = obj m b" if "b < length (sm_heap m)" for b
    using that al(1,2) by (simp add: obj_update nth_append)
  have new: "count_list fl a = 0" using d(6) al(1) by (metis count_list_0_iff less_irrefl)
  show "map_ok (sm_sessions (sm_update a live_close m2))" "distinct (map snd (sm_sessions (sm_update a live_close m2)))"
    "length (sm_sessions (sm_update a live_close m2)) \<le> maxSessionsGlobal"
    using d al(3) by simp_all
  show "b < length (sm_heap (sm_update a live_close m2)) \<and> ls_id (obj (sm_update a live_close m2) b) = sid \<and>
      \<not> ls_closed (obj (sm_update a live_close m2) b)" if "(sid, b) \<in> set (sm_sessions (sm_update a live_close m2))" for sid b
    using that d(3) [of sid b] old [of b] al(2,3) by simp
  show "caller_sessions (sm_update a live_close m2) caller \<le> maxSessionsPerCaller" for caller
    using caller_sessions_cong [of "sm_update a live_close m2" m] d(3,5) old al(3) by (metis sm_update_sel(1))
  show "b < length (sm_heap (sm_update a live_close m2))" if "b \<in> set fl" for b using d(6) [OF that] al(2) by simp
  show "ls_busy (obj (sm_update a live_close m2) b) = int (count_list fl b)" if "b < length (sm_heap (sm_update a live_close m2))" for b
    using that d(7) [of b] old [of b] al(1,2) new assms(2) by (cases "b = a") (auto simp: obj_update live_close_def)
qed

lemma checkoutOwned_cases:
  assumes "checkoutOwned sid caller now m = (r, m')"
  shows "(\<forall>a. r \<noteq> Owned a) \<and> m' = m \<or>
     (\<exists>a. r = Owned a \<and> get (sm_sessions m) sid = Some a \<and> ls_caller (obj m a) = caller \<and>
        m' = sm_update a (\<lambda>s. s\<lparr>ls_lastUsed := now, ls_busy := ls_busy s + 1\<rparr>) m)"
  using assms by (auto simp: checkoutOwned_def split: option.splits if_splits)

lemma removeOwned_cases:
  assumes "removeOwned sid caller m = (r, m')"
  shows "(\<forall>a. r \<noteq> Owned a) \<and> m' = m \<or>
     (\<exists>a. r = Owned a \<and> get (sm_sessions m) sid = Some a \<and> ls_caller (obj m a) = caller \<and>
        m' = m\<lparr>sm_sessions := del sid (sm_sessions m)\<rparr>)"
  using assms by (auto simp: removeOwned_def split: option.splits if_splits)

lemma sess_ok_started:
  assumes "sess_ok (m, fl)" and "checkoutOwned sid caller now m = (Owned a, m')"
  shows "sess_ok (m', a # fl)"
proof -
  from checkoutOwned_cases [OF assms(2)] have g: "get (sm_sessions m) sid = Some a"
    and m': "m' = sm_update a (\<lambda>s. s\<lparr>ls_lastUsed := now, ls_busy := ls_busy s + 1\<rparr>) m" by auto
  have a: "a < length (sm_heap m)" using sess_okD(3) [OF assms(1) get_in_set [OF g]] by simp
  show ?thesis
    by (rule sess_ok_same_map [OF assms(1), of m' "a # fl" a])
      (use a in \<open>auto simp: m' obj_update sess_okD(7) [OF assms(1)]\<close>)
qed

lemma count_list_remove1: "a \<in> set xs \<Longrightarrow> int (count_list (remove1 a xs) b) = int (count_list xs b) - (if b = a then 1 else 0)"
  by (induction xs) auto

lemma sess_ok_finished:
  assumes "sess_ok (m, fl)" and "a \<in> set fl"
  shows "sess_ok (checkin a now m, remove1 a fl)"
proof -
  note d = sess_okD [OF assms(1)]
  have a: "a < length (sm_heap m)" using d(6) assms(2) by simp
  have "0 < count_list fl a" using assms(2) by (metis count_list_0_iff neq0_conv)
  then have "ls_busy (obj m a) > 0" using d(7) [OF a] by simp
  then show ?thesis
    by (intro sess_ok_same_map [OF assms(1), of _ _ a])
      (use a d(7) count_list_remove1 [OF assms(2)] in \<open>auto simp: checkin_def obj_update dest: notin_set_remove1\<close>)
qed

lemma sess_ok_closed:
  assumes "sess_ok (m, fl)" and "removeOwned sid caller m = (Owned a, m')"
  shows "sess_ok (sm_update a live_close m', fl)"
proof -
  note d = sess_okD [OF assms(1)]
  from removeOwned_cases [OF assms(2)] have g: "get (sm_sessions m) sid = Some a"
    and m': "m' = m\<lparr>sm_sessions := del sid (sm_sessions m)\<rparr>" by auto
  have other: "b \<noteq> a" if "(k, b) \<in> set (sm_sessions m)" "k \<noteq> sid" for k b
    using d(2) get_in_set [OF g] that by (metis (no_types, lifting) distinct_map inj_onD prod.inject snd_conv)
  show ?thesis
    by (rule sess_ok_removed [OF assms(1), of _ "\<lambda>(k, b). k \<noteq> sid"])
      (auto simp: m' obj_update live_close_def AList.delete_eq case_prod_unfold eq_commute dest: other)
qed

lemma reaped_sel:
  assumes "reapExpired now m = (victims, m')"
  shows "victims = map snd (filter (\<lambda>(sid, a). reapable m now a) (sm_sessions m))"
    and "sm_sessions m' = filter (\<lambda>(sid, a). \<not> reapable m now a) (sm_sessions m)"
    and "a \<notin> set victims \<Longrightarrow> obj m' a = obj m a" and "length (sm_heap m') = length (sm_heap m)"
    and "ls_caller (obj m' a) = ls_caller (obj m a) \<and> ls_id (obj m' a) = ls_id (obj m a) \<and> ls_busy (obj m' a) = ls_busy (obj m a)"
  using assms by (auto simp: reapExpired_def Let_def obj_fold_update obj_fold_close)

lemma sess_ok_reaped:
  assumes "sess_ok (m, fl)" and "reapExpired now m = (victims, m')"
  shows "sess_ok (m', fl)"
proof -
  note r = reaped_sel [OF assms(2)]
  have "a \<notin> set victims" if "(sid, a) \<in> set (sm_sessions m)" "\<not> reapable m now a" for sid a
    using that r(1) by auto
  then show ?thesis
    using r by (intro sess_ok_removed [OF assms(1), of m' "\<lambda>(sid, a). \<not> reapable m now a"]) auto
qed

lemma sess_ok_stopped: "sess_ok (m, fl) \<Longrightarrow> sess_ok (closeAll m, fl)"
proof (cases "sm_stopped m")
  case False
  assume ok: "sess_ok (m, fl)"
  from False show ?thesis
    by (intro sess_ok_removed [OF ok, of _ "\<lambda>_. False"]) (auto simp: closeAll_def obj_fold_close)
qed (simp add: closeAll_def)

lemma sess_ok_step: "sess_step st st' \<Longrightarrow> sess_ok st \<Longrightarrow> sess_ok st'"
proof (induction rule: sess_step.induct)
  case (shell_used a fl m sh)
  then show ?case
    by (intro sess_ok_same_map [OF shell_used(2), of _ _ a]) (auto simp: obj_update sess_okD(6,7) [OF shell_used(2)])
qed (auto intro: sess_ok_opened sess_ok_rejected sess_ok_started sess_ok_finished sess_ok_closed sess_ok_reaped sess_ok_stopped
    dest: checkoutOwned_cases removeOwned_cases)

lemma sess_ok_reach: "sess_reach idle maxLife st \<Longrightarrow> sess_ok st"
proof (induction rule: sess_reach.induct)
  case reach_init
  show ?case by (simp add: sess_ok_def newSessionManager_def caller_sessions_def maxSessionsGlobal_def maxSessionsPerCaller_def)
qed (rule sess_ok_step)

section \<open>A sample run\<close>

definition sample_session :: "string \<Rightarrow> liveSession" where
  "sample_session sid = \<lparr>ls_id = sid, ls_caller = ''alice'', ls_host = ''web01'', ls_serial = 7, ls_mode = ''exec'', ls_conn = [],
     ls_shell = None, ls_created = 0, ls_lastUsed = 0, ls_busy = 0, ls_elevationPrefix = '''', ls_elevLabel = '''',
     ls_sudo = False, ls_sudoUser = '''', ls_pty = False, ls_connectivitySig = '''', ls_recording = False, ls_closed = False\<rparr>"

text \<open>Two sessions of one caller, a command running in the first.\<close>

definition sample_opened :: sessionManager where
  "sample_opened = newSessionManager 10 100 \<lparr>sm_heap := [sample_session ''s1'', sample_session ''s2''],
     sm_sessions := [(''s1'', 0), (''s2'', 1)]\<rparr>"

definition sample_running :: sessionManager where
  "sample_running = snd (checkoutOwned ''s1'' ''alice'' 5 sample_opened)"

lemma sample_running_reach: "sess_reach 10 100 (sample_running, [0])"
proof -
  let ?m1 = "newSessionManager 10 100 \<lparr>sm_heap := [sample_session ''s1''], sm_sessions := [(''s1'', 0)]\<rparr>"
  have s1: "sess_step (newSessionManager 10 100, []) (?m1, [])"
    by (rule opened [of "sample_session ''s1''"])
      (auto simp: sample_session_def sm_alloc_def sm_add_def newSessionManager_def maxSessionsGlobal_def maxSessionsPerCaller_def)
  have s2: "sess_step (?m1, []) (sample_opened, [])"
    by (rule opened [of "sample_session ''s2''"])
      (auto simp: sample_opened_def sample_session_def sm_alloc_def sm_add_def newSessionManager_def maxSessionsGlobal_def maxSessionsPerCaller_def)
  have s3: "sess_step (sample_opened, []) (sample_running, [0])"
    by (rule started [of "''s1''" "''alice''" 5]) code_simp
  show ?thesis by (rule reach_step [OF reach_step [OF reach_step [OF reach_init s1] s2] s3])
qed

section \<open>Properties\<close>

text \<open>
  C27: the session manager keeps its limits and its books. In every state that requests, the reaper
  and the shutdown can reach in any order, there are at most 200 sessions and at most 20 of any
  caller; every session in the map is open and stored under its id, in one place only; and its
  busy counter is the number of its commands in flight.
\<close>

theorem session_manager_invariant:
  assumes "sess_reach idle maxLife (m, fl)"
  shows "sm_count m \<le> 200 \<and> (\<forall>caller. caller_sessions m caller \<le> 20) \<and> distinct (map snd (sm_sessions m)) \<and>
     (\<forall>sid a. get (sm_sessions m) sid = Some a \<longrightarrow>
        ls_id (obj m a) = sid \<and> \<not> ls_closed (obj m a) \<and> ls_busy (obj m a) = int (count_list fl a))"
proof -
  note d = sess_okD [OF sess_ok_reach [OF assms]]
  have "sm_count m \<le> 200" using d(4) by (simp add: sm_count_def maxSessionsGlobal_def)
  moreover have "caller_sessions m caller \<le> 20" for caller using d(5) by (simp add: maxSessionsPerCaller_def)
  moreover have "ls_id (obj m a) = sid \<and> \<not> ls_closed (obj m a) \<and> ls_busy (obj m a) = int (count_list fl a)"
    if "get (sm_sessions m) sid = Some a" for sid a
    using d(3) [OF get_in_set [OF that]] d(7) by blast
  ultimately show ?thesis using d(2) by blast
qed

theorem session_manager_invariant_witness:
  "ls_busy (obj sample_running 0) = 1 \<and> caller_sessions sample_running ''alice'' \<le> 20"
proof -
  have g: "get (sm_sessions sample_running) ''s1'' = Some 0" by code_simp
  show ?thesis using session_manager_invariant [OF sample_running_reach] g by auto
qed

text \<open>
  The reaper takes exactly the sessions it may. In every reachable state a tick closes and
  removes the sessions of the map that are past their idle time or their lifetime and have no
  command in flight, and no other; a session with a command in flight is left as it is.
\<close>

theorem reaper_exact:
  assumes "sess_reach idle maxLife (m, fl)" and "reapExpired now m = (victims, m')"
  shows "set victims = {a. (\<exists>sid. get (sm_sessions m) sid = Some a) \<and> a \<notin> set fl \<and>
       (now - ls_lastUsed (obj m a) > sm_idleTTL m \<or> now - ls_created (obj m a) > sm_maxLife m)} \<and>
     (\<forall>sid a. get (sm_sessions m') sid = Some a \<longleftrightarrow> get (sm_sessions m) sid = Some a \<and> a \<notin> set victims) \<and>
     (\<forall>a. obj m' a = (if a \<in> set victims then live_close (obj m a) else obj m a))"
proof -
  note ok = sess_ok_reach [OF assms(1)]
  note d = sess_okD [OF ok] and r = reaped_sel [OF assms(2)]
  have busy: "ls_busy (obj m a) > 0 \<longleftrightarrow> a \<in> set fl" if "a < length (sm_heap m)" for a
    using d(7) [OF that] count_list_0_iff [of fl a] by (metis neq0_conv of_nat_0_less_iff)
  have mem: "(sid, a) \<in> set (sm_sessions m) \<longleftrightarrow> get (sm_sessions m) sid = Some a" for sid a
    using d(1) get_in_set in_set_get by metis
  have vic: "a \<in> set victims \<longleftrightarrow> (\<exists>sid. get (sm_sessions m) sid = Some a) \<and> reapable m now a" for a
    unfolding r(1) using mem by (auto simp: image_iff)
  have reapb: "reapable m now a \<longleftrightarrow> a \<notin> set fl \<and>
      (now - ls_lastUsed (obj m a) > sm_idleTTL m \<or> now - ls_created (obj m a) > sm_maxLife m)"
    if "get (sm_sessions m) sid = Some a" for sid a
    using busy d(3) [OF get_in_set [OF that]] by (auto simp: reapable_def)
  have "get (sm_sessions m') sid = Some a \<longleftrightarrow> get (sm_sessions m) sid = Some a \<and> a \<notin> set victims" for sid a
    unfolding r(2) get_filter [OF d(1)] using vic by (auto split: option.splits)
  moreover have "obj m' a = live_close (obj m a)" if "a \<in> set victims" for a
  proof -
    have dv: "distinct victims" unfolding r(1) by (rule distinct_map_filter [OF d(2)])
    from that vic obtain sid where g: "get (sm_sessions m) sid = Some a" by auto
    have "a < length (sm_heap m)" using d(3) [OF get_in_set [OF g]] by simp
    with fold_close_in [OF that dv, of "m\<lparr>sm_sessions := sm_sessions m'\<rparr>"] assms(2) show ?thesis
      using r(2) by (auto simp: reapExpired_def Let_def)
  qed
  moreover have "set victims = {a. (\<exists>sid. get (sm_sessions m) sid = Some a) \<and> a \<notin> set fl \<and>
       (now - ls_lastUsed (obj m a) > sm_idleTTL m \<or> now - ls_created (obj m a) > sm_maxLife m)}"
    using vic reapb by blast
  ultimately show ?thesis using r(3) by auto
qed

theorem reaper_exact_witness:
  "fst (reapExpired 50 sample_running) = [1] \<and> \<not> ls_closed (obj (snd (reapExpired 50 sample_running)) 0)"
proof -
  have f: "fst (reapExpired 50 sample_running) = [1]" by code_simp
  have v: "reapExpired 50 sample_running = ([1], snd (reapExpired 50 sample_running))"
    by (rule prod_eqI) (simp_all only: f fst_conv snd_conv)
  have "\<not> ls_closed (obj sample_running 0)" by code_simp
  with reaper_exact [OF sample_running_reach v] have "\<not> ls_closed (obj (snd (reapExpired 50 sample_running)) 0)" by simp
  with f show ?thesis by simp
qed

end
