(* ===== verification/Session_Auth.thy ===== *)
theory Session_Auth
  imports Session_Flow
begin

text \<open>
  Who may use a session and when a command may run in it: ownership, the policy preflight before
  every command, and the comparison of the physical route with the one the session was opened over.
\<close>

section \<open>The preflight\<close>

lemma session_audit_sel [simp]:
  "bs_sessions (session_audit ent b) = bs_sessions b" "bs_engine (session_audit ent b) = broker_auditE ent (bs_engine b)"
  by (simp_all add: session_audit_def)

lemma preflight_bastions_None:
  "preflight_bastions cx e c pub names = None \<Longrightarrow> n \<in> set names \<Longrightarrow>
     \<exists>iss d. ec_sign cx (preflight_intent e c n RoleBastion pub) = Inr iss \<and> is_Decision iss = Some d \<and>
        di_Allowed d \<and> \<not> di_RequireApproval d"
  by (induction names) (auto split: sum.splits option.splits if_splits)

text \<open>A passed preflight: the route is the recorded one and every hop is allowed now.\<close>

definition allowed_now :: "engine_ctx \<Rightarrow> Intent \<Rightarrow> bool" where
  "allowed_now cx i \<longleftrightarrow>
     (\<exists>iss. ec_sign cx i = Inr iss \<and> (\<forall>d. is_Decision iss = Some d \<longrightarrow> di_Allowed d \<and> \<not> di_RequireApproval d))"

lemma authorizeSessionBastions_None:
  assumes "authorizeSessionBastions cx e c host = None" and "resolveChain e host = Inr chain" and "n \<in> set (butlast chain)"
  shows "\<exists>pub. allowed_now cx (preflight_intent e c n RoleBastion pub)"
proof -
  have "length chain > 1" using assms(3) by (cases chain) (auto split: if_splits)
  then obtain pub where "preflight_bastions cx e c pub (butlast chain) = None"
    using assms(1,2) by (auto simp: authorizeSessionBastions_def split: option.splits prod.splits)
  from preflight_bastions_None [OF this assms(3)] show ?thesis unfolding allowed_now_def by fastforce
qed

lemma authorizeSessionExec_None:
  assumes "authorizeSessionExec cx c s command e = (None, dec, e')"
  shows "(\<exists>pub. allowed_now cx (session_intent e' c s command pub)) \<and>
     (ls_connectivitySig s \<noteq> '''' \<longrightarrow>
        connectivitySignature e' (ls_host s) = Inr (ls_connectivitySig s) \<and>
        (\<forall>chain n. resolveChain e' (ls_host s) = Inr chain \<longrightarrow> n \<in> set (butlast chain) \<longrightarrow>
           (\<exists>pub. allowed_now cx (preflight_intent e' c n RoleBastion pub))))"
proof -
  from assms obtain e1 where cp: "connectivity_preflight cx c s e = (None, e1)"
    by (auto simp: authorizeSessionExec_def split: prod.splits option.splits)
  from cp assms obtain pub iss where e1: "e' = e1" and iss: "ec_sign cx (session_intent e' c s command pub) = Inr iss"
    and dec: "is_Decision iss = dec" "\<forall>d. dec = Some d \<longrightarrow> di_Allowed d \<and> \<not> di_RequireApproval d"
    by (fastforce simp: authorizeSessionExec_def split: option.splits sum.splits if_splits prod.splits)
  then have al: "\<exists>pub. allowed_now cx (session_intent e' c s command pub)" unfolding allowed_now_def by blast
  have "connectivitySignature e1 (ls_host s) = Inr (ls_connectivitySig s) \<and> authorizeSessionBastions cx e1 c (ls_host s) = None"
    if "ls_connectivitySig s \<noteq> ''''"
    using cp that by (auto simp: connectivity_preflight_def currentConnectivitySignature_def
        split: prod.splits sum.splits if_splits option.splits)
  with al e1 authorizeSessionBastions_None show ?thesis by blast
qed

context intent_signer
begin

text \<open>For a signer with a decision for every dry run, allowed now means admitted.\<close>

lemma allowed_admitted: "ec_sign cx = sign \<Longrightarrow> in_DryRun i \<Longrightarrow> allowed_now cx i \<Longrightarrow> admits i"
  using decision_admitted by (fastforce simp: allowed_now_def)

end

section \<open>A command that ran\<close>

text \<open>The session as the command saw it: checked out, otherwise as in the map.\<close>

lemma SessionExec_Inr:
  assumes "SessionExec sx c sid command b = Some (Inr res, b')" and "get (sm_sessions (bs_sessions b)) sid = Some a"
    and "a < length (sm_heap (bs_sessions b))"
  obtains dec e1 s' r where "ls_caller (obj (bs_sessions b) a) = cl_ID c" and "command \<noteq> ''''"
    and "authorizeSessionExec (sc_engine sx) c
           ((obj (bs_sessions b) a)\<lparr>ls_lastUsed := sc_start sx, ls_busy := ls_busy (obj (bs_sessions b) a) + 1\<rparr>)
           command (bs_engine b) = (None, dec, e1)"
    and "session_run sx command
           ((obj (bs_sessions b) a)\<lparr>ls_lastUsed := sc_start sx, ls_busy := ls_busy (obj (bs_sessions b) a) + 1\<rparr>) = Some (Inr r, s')"
    and "re_Stdout res = sr_Stdout r" and "re_ExitCode res = sr_ExitCode r"
    and "\<And>h. hostInfo (bs_engine b') h = hostInfo e1 h" and "host_view (bs_engine b') = host_view e1"
    and "en_maxTTL (bs_engine b') = en_maxTTL e1"
    and "\<not> ((ls_mode (obj (bs_sessions b) a) = ''shell'' \<or> ls_mode (obj (bs_sessions b) a) = ''pty'') \<and>
            ContainsAny command [CHR 0x0A, CHR 0x0D])"
proof -
  let ?s = "(obj (bs_sessions b) a)\<lparr>ls_lastUsed := sc_start sx, ls_busy := ls_busy (obj (bs_sessions b) a) + 1\<rparr>"
  let ?m = "sm_update a (\<lambda>s. s\<lparr>ls_lastUsed := sc_start sx, ls_busy := ls_busy s + 1\<rparr>) (bs_sessions b)"
  have own: "ls_caller (obj (bs_sessions b) a) = cl_ID c"
    using assms(1,2) by (auto simp: SessionExec_def checkoutOwned_def split: if_splits)
  then obtain b1 where body: "session_exec_body sx c sid command a (b\<lparr>bs_sessions := ?m\<rparr>) = Some (Inr res, b1)"
    and b': "b' = b1\<lparr>bs_sessions := checkin a (sc_end sx) (bs_sessions b1)\<rparr>"
    using assms(1,2) by (auto simp: SessionExec_def checkoutOwned_def)
  have o: "obj ?m a = ?s" using assms(3) by (simp add: obj_update)
  from body [unfolded session_exec_body_def Let_def, simplified o broker_state.simps] own b' show thesis
    by (auto split: if_splits prod.splits option.splits sum.splits intro!: that simp: o)
qed

lemma preflight_intent_cong: "en_maxTTL e = en_maxTTL e' \<Longrightarrow> preflight_intent e c n role pub = preflight_intent e' c n role pub"
  by (simp add: preflight_intent_def)

lemma session_intent_cong:
  "en_maxTTL e = en_maxTTL e' \<Longrightarrow> session_intent e c (s\<lparr>ls_lastUsed := t, ls_busy := n\<rparr>) command pub = session_intent e' c s command pub"
  by (simp add: session_intent_def preflight_intent_def)

lemma view_cong:
  assumes "host_view e = host_view e'"
  shows "hostInfo e h = hostInfo e' h" "resolveChain e h = resolveChain e' h"
    "connectivitySignature e h = connectivitySignature e' h" "physical_route e h = physical_route e' h"
proof -
  show i: "hostInfo e h = hostInfo e' h" for h by (simp add: hostInfo_def assms)
  show r: "resolveChain e h = resolveChain e' h" by (simp add: resolveChain_def assms)
  have "hop_view e = hop_view e'" by (simp add: hop_view_def fun_eq_iff i)
  then show p: "physical_route e h = physical_route e' h" by (simp add: physical_route_def r)
  then show "connectivitySignature e h = connectivitySignature e' h" by (simp add: connectivitySignature_view)
qed

lemma SessionExec_preflighted:
  assumes "SessionExec sx c sid command b = Some (Inr res, b')" and "get (sm_sessions (bs_sessions b)) sid = Some a"
    and "a < length (sm_heap (bs_sessions b))"
  defines "s \<equiv> obj (bs_sessions b) a"
  shows "ls_caller s = cl_ID c \<and> (\<exists>pub. allowed_now (sc_engine sx) (session_intent (bs_engine b') c s command pub)) \<and>
     (ls_connectivitySig s \<noteq> '''' \<longrightarrow>
        connectivitySignature (bs_engine b') (ls_host s) = Inr (ls_connectivitySig s) \<and>
        (\<forall>chain n. resolveChain (bs_engine b') (ls_host s) = Inr chain \<longrightarrow> n \<in> set (butlast chain) \<longrightarrow>
           (\<exists>pub. allowed_now (sc_engine sx) (preflight_intent (bs_engine b') c n RoleBastion pub))))"
proof (rule SessionExec_Inr [OF assms(1-3)])
  fix dec e1
  assume own: "ls_caller (obj (bs_sessions b) a) = cl_ID c"
    and auth: "authorizeSessionExec (sc_engine sx) c
      ((obj (bs_sessions b) a)\<lparr>ls_lastUsed := sc_start sx, ls_busy := ls_busy (obj (bs_sessions b) a) + 1\<rparr>)
      command (bs_engine b) = (None, dec, e1)"
    and v: "host_view (bs_engine b') = host_view e1" and t: "en_maxTTL (bs_engine b') = en_maxTTL e1"
  from authorizeSessionExec_None [OF auth] own show ?thesis
    unfolding s_def view_cong [OF v] preflight_intent_cong [OF t] session_intent_cong [OF t [symmetric]] by simp
qed

section \<open>Opening\<close>

lemma register_session_Inr:
  assumes "register_session sx c opts s b = (Inr r, b')"
  shows "sm_heap (bs_sessions b') ! length (sm_heap (bs_sessions b)) =
      (if ls_shell s \<noteq> None \<and> sc_recording sx then s\<lparr>ls_recording := True\<rparr> else s)"
    and "host_view (bs_engine b') = host_view (bs_engine b)" and "r = (ls_id s, ls_serial s)"
    and "get (sm_sessions (bs_sessions b')) (ls_id s) = Some (length (sm_heap (bs_sessions b)))"
  using assms
  by (auto simp: register_session_def sm_alloc_def sm_add_def open_failed_def Let_def obj_update
      split: prod.splits option.splits if_splits)

lemma OpenSession_Inr:
  assumes "OpenSession sx c host mode ttlSeconds opts b = (Inr r, b')"
  shows "\<exists>s sig. sm_heap (bs_sessions b') ! length (sm_heap (bs_sessions b)) = s \<and> ls_host s = host \<and> ls_caller s = cl_ID c \<and>
     ls_connectivitySig s = sig \<and> connectivitySignature (bs_engine b') host = Inr sig \<and>
     get (sm_sessions (bs_sessions b')) (fst r) = Some (length (sm_heap (bs_sessions b)))"
proof -
  from assms obtain e1 where r: "refreshHostsForNewConnection (sc_engine sx) (bs_engine b) = (None, e1)"
    by (auto simp: OpenSession_def open_failed_def split: prod.splits option.splits)
  let ?b = "b\<lparr>bs_engine := e1\<rparr>"
  from assms r obtain res sig s opts' mode' where h: "buildHopsWithPrefix (sc_engine sx) e1 c host (ttlFor e1 ttlSeconds) PurposeSession mode' opts' = Inr (res, sig)"
    and reg: "register_session sx c opts' s ?b = (Inr r, b')"
    and s: "ls_host s = host" "ls_caller s = cl_ID c" "ls_connectivitySig s = sig"
    unfolding OpenSession_def
    by (auto simp: open_failed_def Let_def split: prod.splits option.splits if_splits sum.splits)
  note q = register_session_Inr [OF reg]
  have "connectivitySignature (bs_engine b') host = Inr sig"
    using opened_signature [OF h] view_cong(3) [OF q(2)] by simp
  with q s show ?thesis by auto
qed

lemma signature_nonempty:
  assumes "connectivitySignature e host = Inr sig" and "host \<noteq> ''''"
  shows "sig \<noteq> ''''"
proof -
  from assms(1) obtain chain where ch: "resolveChain e host = Inr chain" and sig: "sig = concat (map view_signature (map (hop_view e) chain))"
    by (cases "resolveChain e host") (auto simp: connectivitySignature_view physical_route_def)
  then have "chain \<noteq> []" using route_last assms(2) by (auto simp: resolveChain_route)
  with sig view_signature_nonempty show ?thesis by (cases chain) auto
qed

section \<open>A sample session\<close>

definition sample_sx :: session_ctx where
  "sample_sx = \<lparr>sc_engine = sample_cx, sc_start = 1, sc_end = 2, sc_newSessionID = ''s1'', sc_OpenShell = (\<lambda>_ _. Inl ''no shell''),
     sc_recording = False, sc_run = (\<lambda>_ _. sample_rr), sc_write_ok = True, sc_events = [], sc_text = (\<lambda>_. ''error'')\<rparr>"

text \<open>The bastion host of the sample configuration takes sessions: it has no command policy.\<close>

definition sample_state :: broker_state where
  "sample_state = \<lparr>bs_engine = sample_broker, bs_sessions = newSessionManager 10 100\<rparr>"

definition sample_opened_state :: broker_state where
  "sample_opened_state = snd (OpenSession sample_sx sample_caller ''b'' '''' 60 sample_opts sample_state)"

lemma sample_open: "fst (OpenSession sample_sx sample_caller ''b'' '''' 60 sample_opts sample_state) = Inr (''s1'', 7)"
  by code_simp

lemma sample_open_state:
  "OpenSession sample_sx sample_caller ''b'' '''' 60 sample_opts sample_state = (Inr (''s1'', 7), sample_opened_state)"
  by (rule prod_eqI) (simp_all only: sample_open sample_opened_state_def fst_conv snd_conv)

lemma sample_opened_facts:
  "get (sm_sessions (bs_sessions sample_opened_state)) ''s1'' = Some 0" "length (sm_heap (bs_sessions sample_opened_state)) = 1"
  "ls_mode (obj (bs_sessions sample_opened_state) 0) = ''exec''" "ls_pty (obj (bs_sessions sample_opened_state) 0) = False"
  "ls_caller (obj (bs_sessions sample_opened_state) 0) = ''alice''" "ls_host (obj (bs_sessions sample_opened_state) 0) = ''b''"
  by code_simp+

lemma sample_preflight:
  "case authorizeSessionExec sample_cx sample_caller
     ((obj (bs_sessions sample_opened_state) 0)\<lparr>ls_lastUsed := 1, ls_busy := ls_busy (obj (bs_sessions sample_opened_state) 0) + 1\<rparr>)
     ''uptime'' (bs_engine sample_opened_state) of (err, dec, e) \<Rightarrow> err = None"
  by code_simp

lemma sample_SessionExec: "\<exists>res b'. SessionExec sample_sx sample_caller ''s1'' ''uptime'' sample_opened_state = Some (Inr res, b')"
proof -
  let ?s = "(obj (bs_sessions sample_opened_state) 0)\<lparr>ls_lastUsed := 1, ls_busy := ls_busy (obj (bs_sessions sample_opened_state) 0) + 1\<rparr>"
  obtain dec e where p: "authorizeSessionExec sample_cx sample_caller ?s ''uptime'' (bs_engine sample_opened_state) = (None, dec, e)"
    using sample_preflight by (auto split: prod.splits)
  have "sc_engine sample_sx = sample_cx" "sc_start sample_sx = 1" "cl_ID sample_caller = ''alice''"
    by (simp_all add: sample_sx_def sample_caller_def)
  moreover have "\<exists>r. session_run sample_sx ''uptime'' ?s = Some (Inr r, ?s)"
    using sample_opened_facts(3,4) sample_ExecOnce by (simp add: session_run_def sample_sx_def Let_def)
  ultimately show ?thesis
    using p sample_opened_facts by (auto simp: SessionExec_def checkoutOwned_def session_exec_body_def obj_update Let_def)
qed

section \<open>Properties\<close>

text \<open>
  C28: a session is out of reach for everyone but its owner. For a session of another caller,
  running a command and closing it are refused and leave the whole state of the broker as it is:
  neither the idle timer nor the busy counter moves, and no audit entry is written.
\<close>

theorem foreign_session_untouched:
  assumes "get (sm_sessions (bs_sessions b)) sid = Some a" and "ls_caller (obj (bs_sessions b) a) \<noteq> cl_ID c"
  shows "SessionExec sx c sid command b = Some (Inl (NotOwner sid), b) \<and> CloseSession c sid b = (Some (NotOwner sid), b)"
  using assms by (simp add: SessionExec_def CloseSession_def checkoutOwned_def removeOwned_def)

theorem foreign_session_untouched_witness:
  "CloseSession \<lparr>cl_ID = ''eve'', cl_Groups = None\<rparr> ''s1'' sample_opened_state = (Some (NotOwner ''s1''), sample_opened_state)"
  using foreign_session_untouched [OF sample_opened_facts(1), of "\<lparr>cl_ID = ''eve'', cl_Groups = None\<rparr>"] sample_opened_facts(5) by simp

text \<open>
  C29: every session command passes the policy of the moment. With the in-process signer, a command
  that ran in a session belongs to the session's owner and is admitted by the signer's table at
  that time, in the mode, elevation and PTY of the session; and for a session that was opened over
  a route, the route of the current host table has the recorded signature and every bastion on it
  is admitted as a bastion.
\<close>

theorem session_command_admitted:
  assumes "ec_sign (sc_engine sx) = local_sign re sh env l"
    and "SessionExec sx c sid command b = Some (Inr res, b')" and "get (sm_sessions (bs_sessions b)) sid = Some a"
    and "a < length (sm_heap (bs_sessions b))" and "s = obj (bs_sessions b) a"
  shows "ls_caller s = cl_ID c \<and> (\<exists>pub. local_admits re sh env l (session_intent (bs_engine b') c s command pub)) \<and>
     (ls_connectivitySig s \<noteq> '''' \<longrightarrow>
        connectivitySignature (bs_engine b') (ls_host s) = Inr (ls_connectivitySig s) \<and>
        (\<forall>chain n. resolveChain (bs_engine b') (ls_host s) = Inr chain \<longrightarrow> n \<in> set (butlast chain) \<longrightarrow>
           (\<exists>pub. local_admits re sh env l (preflight_intent (bs_engine b') c n RoleBastion pub))))"
proof -
  have dry: "in_DryRun (session_intent e c s command pub)" "in_DryRun (preflight_intent e c n RoleBastion pub)" for e s n pub
    by (simp_all add: session_intent_def preflight_intent_def)
  from SessionExec_preflighted [OF assms(2-4)] loc.allowed_admitted [OF assms(1) dry(1)] loc.allowed_admitted [OF assms(1) dry(2)]
  show ?thesis unfolding assms(5) by blast
qed

theorem session_command_admitted_witness:
  "\<exists>l i. local_admits sample_engine sample_sh (\<lambda>i. sample_env\<lparr>env_now := 100000000000\<rparr>) l i \<and> in_Command i = ''uptime'' \<and> in_Host i = ''b''"
proof -
  obtain res b' where x: "SessionExec sample_sx sample_caller ''s1'' ''uptime'' sample_opened_state = Some (Inr res, b')"
    using sample_SessionExec by blast
  have sg: "ec_sign (sc_engine sample_sx) = local_sign sample_engine sample_sh (\<lambda>i. sample_env\<lparr>env_now := 100000000000\<rparr>) sample_signer"
    by (simp add: sample_sx_def sample_cx_def)
  have "(0::nat) < length (sm_heap (bs_sessions sample_opened_state))" by (simp add: sample_opened_facts(2))
  from session_command_admitted [OF sg x sample_opened_facts(1) this refl] obtain pub where
    ad: "local_admits sample_engine sample_sh (\<lambda>i. sample_env\<lparr>env_now := 100000000000\<rparr>) sample_signer
      (session_intent (bs_engine b') sample_caller (obj (bs_sessions sample_opened_state) 0) ''uptime'' pub)" by blast
  have "in_Command (session_intent (bs_engine b') sample_caller (obj (bs_sessions sample_opened_state) 0) ''uptime'' pub) = ''uptime''"
    "in_Host (session_intent (bs_engine b') sample_caller (obj (bs_sessions sample_opened_state) 0) ''uptime'' pub) = ''b''"
    by (simp_all add: session_intent_def preflight_intent_def bastion_intent_def sample_opened_facts(6))
  with ad show ?thesis by blast
qed

text \<open>
  A session never outlives its route. When a command runs in a session, at any later time and
  after any refreshes of the host table, the route to its host is the one it was opened over: the
  same bastions in the same order with the same addresses, users and host keys.
\<close>

theorem session_route_pinned:
  assumes "OpenSession sx c host mode ttlSeconds opts b = (Inr (sid, serial), b1)" and "host \<noteq> ''''"
    and "a = length (sm_heap (bs_sessions b))" and "get (sm_sessions (bs_sessions b2)) sid = Some a"
    and "ls_connectivitySig (obj (bs_sessions b2) a) = ls_connectivitySig (obj (bs_sessions b1) a)"
    and "ls_host (obj (bs_sessions b2) a) = ls_host (obj (bs_sessions b1) a)" and "a < length (sm_heap (bs_sessions b2))"
    and "SessionExec sx' c' sid command b2 = Some (Inr res, b3)"
  shows "physical_route (bs_engine b3) host = physical_route (bs_engine b1) host"
proof -
  from OpenSession_Inr [OF assms(1)] assms(3) obtain sig where h: "ls_host (obj (bs_sessions b1) a) = host"
    and g: "ls_connectivitySig (obj (bs_sessions b1) a) = sig" and s: "connectivitySignature (bs_engine b1) host = Inr sig" by auto
  have "ls_connectivitySig (obj (bs_sessions b2) a) \<noteq> ''''" using signature_nonempty [OF s assms(2)] assms(5) g by simp
  with SessionExec_preflighted [OF assms(8,4,7)] assms(5,6) h g have "connectivitySignature (bs_engine b3) host = Inr sig" by auto
  with s show ?thesis
    by (cases "physical_route (bs_engine b3) host"; cases "physical_route (bs_engine b1) host")
      (auto simp: connectivitySignature_view signatures_inj)
qed

theorem session_route_pinned_witness:
  "\<exists>b3 r. SessionExec sample_sx sample_caller ''s1'' ''uptime'' sample_opened_state = Some (r, b3) \<and>
     physical_route (bs_engine b3) ''b'' = physical_route (bs_engine sample_opened_state) ''b''"
proof -
  obtain res b' where x: "SessionExec sample_sx sample_caller ''s1'' ''uptime'' sample_opened_state = Some (Inr res, b')"
    using sample_SessionExec by blast
  have l: "(0::nat) = length (sm_heap (bs_sessions sample_state))" by (simp add: sample_state_def newSessionManager_def)
  have "(0::nat) < length (sm_heap (bs_sessions sample_opened_state))" by (simp add: sample_opened_facts(2))
  from session_route_pinned [OF sample_open_state _ l sample_opened_facts(1) refl refl this x] x show ?thesis by auto
qed

end
