(* ===== verification/GoBase64.thy ===== *)
theory GoBase64
  imports GoStrings
begin

text \<open>
  Go's \<open>base64.StdEncoding\<close> and \<open>strings.Fields\<close>, as the frontends use them. The decoder skips line
  breaks, wants the padding, and ignores the unused bits of the last group.
\<close>

section \<open>Sextets\<close>

definition b64_char :: "nat \<Rightarrow> char" where
  "b64_char n =
     (if n < 26 then char_of (65 + n) else if n < 52 then char_of (71 + n)
      else if n < 62 then char_of (n - 4) else if n = 62 then CHR ''+'' else CHR ''/'')"

definition b64_value :: "char \<Rightarrow> nat option" where
  "b64_value c =
     (let n = byte c in
      if 65 \<le> n \<and> n \<le> 90 then Some (n - 65) else if 97 \<le> n \<and> n \<le> 122 then Some (n - 71)
      else if 48 \<le> n \<and> n \<le> 57 then Some (n + 4) else if n = 43 then Some 62 else if n = 47 then Some 63 else None)"

definition b64_pad :: char where
  "b64_pad = CHR ''=''"

definition byte_char :: "nat \<Rightarrow> char" where
  "byte_char n = char_of n"

fun b64_encode_bytes :: "nat list \<Rightarrow> string" where
  "b64_encode_bytes [] = []"
| "b64_encode_bytes [a] = [b64_char (a div 4), b64_char (a mod 4 * 16), b64_pad, b64_pad]"
| "b64_encode_bytes [a, b] = [b64_char (a div 4), b64_char (a mod 4 * 16 + b div 16), b64_char (b mod 16 * 4), b64_pad]"
| "b64_encode_bytes (a # b # c # rest) =
     [b64_char (a div 4), b64_char (a mod 4 * 16 + b div 16), b64_char (b mod 16 * 4 + c div 64), b64_char (c mod 64)] @
     b64_encode_bytes rest"

definition EncodeToString :: "string \<Rightarrow> string" where
  "EncodeToString s = b64_encode_bytes (map byte s)"

text \<open>Groups of four characters; only the last may be padded.\<close>

fun b64_groups :: "string \<Rightarrow> nat list option" where
  "b64_groups [] = Some []"
| "b64_groups (w # x # y # z # rest) =
     (case (b64_value w, b64_value x) of
        (Some a, Some b) \<Rightarrow>
          if y = b64_pad then (if z = b64_pad \<and> rest = [] then Some [a * 4 + b div 16] else None)
          else
            (case b64_value y of
               None \<Rightarrow> None
             | Some c \<Rightarrow>
                 if z = b64_pad then (if rest = [] then Some [a * 4 + b div 16, b mod 16 * 16 + c div 4] else None)
                 else
                   (case (b64_value z, b64_groups rest) of
                      (Some d, Some bytes) \<Rightarrow>
                        Some ([a * 4 + b div 16, b mod 16 * 16 + c div 4, c mod 4 * 64 + d] @ bytes)
                    | _ \<Rightarrow> None))
      | _ \<Rightarrow> None)"
| "b64_groups _ = None"

definition DecodeString :: "string \<Rightarrow> string option" where
  "DecodeString s = map_option (map byte_char) (b64_groups (filter (\<lambda>c. c \<noteq> CHR 0x0A \<and> c \<noteq> CHR 0x0D) s))"

section \<open>Round trip\<close>

lemma b64_value_char: "n < 64 \<Longrightarrow> b64_value (b64_char n) = Some n"
  by (auto simp: b64_value_def b64_char_def byte_char_of Let_def byte_def)

lemma b64_char_range: "n < 64 \<Longrightarrow> byte (b64_char n) \<noteq> 10 \<and> byte (b64_char n) \<noteq> 13 \<and> byte (b64_char n) \<noteq> 61"
  by (auto simp: b64_char_def byte_char_of byte_def)

lemma b64_char_not [simp]:
  assumes "n < 64"
  shows "b64_char n \<noteq> b64_pad" "b64_char n \<noteq> CHR 0x0A" "b64_char n \<noteq> CHR 0x0D"
  using b64_char_range [OF assms] by (auto simp: b64_pad_def byte_def)

lemma sextet_parts:
  assumes "b < (256 :: nat)" "c < (256 :: nat)"
  shows "b div 4 < 64" "b div 16 < 16" "c div 64 < 4" "b mod 4 < 4" "b mod 16 < 16" "c mod 64 < 64"
  using assms by (auto intro: less_mult_imp_div_less)

lemma sextets:
  assumes "a < (256 :: nat)" "b < (256 :: nat)" "c < (256 :: nat)"
  shows "a div 4 < 64" "a mod 4 * 16 < 64" "a mod 4 * 16 + b div 16 < 64" "b mod 16 * 4 < 64" "b mod 16 * 4 + c div 64 < 64"
    "c mod 64 < 64"
  using sextet_parts [OF assms(1,3)] sextet_parts [OF assms(2,3)] by linarith+

lemma b64_groups_encode: "\<forall>x\<in>set bs. x < 256 \<Longrightarrow> b64_groups (b64_encode_bytes bs) = Some bs"
proof (induction bs rule: b64_encode_bytes.induct)
  case (2 a)
  then show ?case using sextets [of a 0 0] by (simp add: b64_value_char)
next
  case (3 a b)
  then show ?case using sextets [of a b 0] sextet_parts [of b 0] by (simp add: b64_value_char)
next
  case (4 a b c rest)
  then show ?case using sextets [of a b c] sextet_parts [of b c] by (simp add: b64_value_char)
qed simp

lemma b64_encode_chars: "\<forall>x\<in>set bs. x < 256 \<Longrightarrow> c \<in> set (b64_encode_bytes bs) \<Longrightarrow> c \<noteq> CHR 0x0A \<and> c \<noteq> CHR 0x0D"
proof (induction bs rule: b64_encode_bytes.induct)
  case (2 a)
  then show ?case using sextets [of a 0 0] by (auto simp: b64_pad_def)
next
  case (3 a b)
  then show ?case using sextets [of a b 0] by (auto simp: b64_pad_def)
next
  case (4 a b c rest)
  then show ?case using sextets [of a b c] by auto
qed simp

lemma Decode_Encode: "DecodeString (EncodeToString s) = Some s"
proof -
  have lt: "\<forall>x\<in>set (map byte s). x < 256" by (auto simp: byte_def)
  have "filter (\<lambda>c. c \<noteq> CHR 0x0A \<and> c \<noteq> CHR 0x0D) (EncodeToString s) = EncodeToString s"
    using b64_encode_chars [OF lt] by (auto simp: EncodeToString_def filter_id_conv)
  moreover have "b64_groups (EncodeToString s) = Some (map byte s)"
    using b64_groups_encode [OF lt] by (simp add: EncodeToString_def)
  moreover have "map byte_char (map byte s) = s" by (simp add: map_idI byte_char_def byte_def)
  ultimately show ?thesis by (simp add: DecodeString_def)
qed

section \<open>Fields\<close>

lemma TrimLeftSpace_start: "TrimLeftSpace s \<noteq> [] \<Longrightarrow> space_at (TrimLeftSpace s) = 0"
  by (induction s rule: TrimLeftSpace.induct) (metis TrimLeftSpace.simps gr0I)

lemma TrimLeftSpace_length: "length (TrimLeftSpace s) \<le> length s"
proof (induction s rule: TrimLeftSpace.induct)
  case (1 s)
  show ?case
  proof (cases "s \<noteq> [] \<and> space_at s > 0")
    case True
    from 1 [OF True] True show ?thesis by (simp add: TrimLeftSpace.simps [of s])
  qed (auto simp: TrimLeftSpace.simps [of s])
qed

function Fields :: "string \<Rightarrow> string list" where
  "Fields s =
     (let t = TrimLeftSpace s in
      if t = [] then [] else take_token t # Fields (drop (length (take_token t)) t))"
  by pat_completeness auto
termination
proof (relation "measure length")
  fix s t
  assume t: "t = TrimLeftSpace s" "t \<noteq> []"
  then obtain c cs where c: "t = c # cs" by (metis list.exhaust)
  have "space_at t = 0" using TrimLeftSpace_start [of s] t by simp
  then have tok: "take_token t = c # take_token cs" unfolding c by simp
  have "length t \<le> length s" unfolding t(1) by (rule TrimLeftSpace_length)
  then show "(drop (length (take_token t)) t, s) \<in> measure length" unfolding tok by (simp add: c)
qed simp

declare Fields.simps [simp del]

end
