(* ===== verification/RateLimit.thy ===== *)
theory RateLimit
  imports GoPrelude Complex_Main
begin

text \<open>
  The per-caller token bucket of the signing path, \<open>src/internal/signer/ratelimit.go\<close>.

  The bucket map is the list of its entries. Token counts are rationals: the model computes
  exactly where the code rounds to \<open>float64\<close>. The clock is an argument of each call (the code
  has it as a field, for its tests).
\<close>

section \<open>Data and operations\<close>

definition maxRateLimitKeys :: nat where
  "maxRateLimitKeys = 4096"

record rateBucket =
  rb_tokens :: rat
  rb_last :: time

type_synonym RateLimiter = "(string, rateBucket) gomap"

definition NewRateLimiter :: RateLimiter where
  "NewRateLimiter = []"

definition prune :: "time \<Rightarrow> RateLimiter \<Rightarrow> RateLimiter" where
  "prune now l = filter (\<lambda>(k, b). \<not> now - rb_last b > minute_ns) l"

text \<open>The loop of \<open>evictOldest\<close>: the pair \<open>(oldestKey, oldest)\<close>, \<open>None\<close> while \<open>first\<close> holds.\<close>

fun oldest_bucket :: "(string \<times> time) option \<Rightarrow> RateLimiter \<Rightarrow> (string \<times> time) option" where
  "oldest_bucket best [] = best"
| "oldest_bucket None ((k, b) # l) = oldest_bucket (Some (k, rb_last b)) l"
| "oldest_bucket (Some (ok, ot)) ((k, b) # l) =
     oldest_bucket (if rb_last b < ot then Some (k, rb_last b) else Some (ok, ot)) l"

definition evictOldest :: "RateLimiter \<Rightarrow> RateLimiter" where
  "evictOldest l = (case oldest_bucket None l of None \<Rightarrow> l | Some (k, _) \<Rightarrow> del k l)"

text \<open>Making room for a new key, the branch of \<open>Allow\<close> for a missing bucket.\<close>

definition make_room :: "time \<Rightarrow> RateLimiter \<Rightarrow> RateLimiter" where
  "make_room now l =
     (if length l \<ge> maxRateLimitKeys then
        let l = prune now l in
        if length l \<ge> maxRateLimitKeys then evictOldest l else l
      else l)"

definition refill :: "int \<Rightarrow> time \<Rightarrow> rateBucket \<Rightarrow> rat" where
  "refill perMin now b =
     (let capacity = of_int perMin;
          tokens = rb_tokens b + of_int (now - rb_last b) / of_int second_ns * capacity / 60
      in if tokens > capacity then capacity else tokens)"

definition Allow :: "string \<Rightarrow> int \<Rightarrow> time \<Rightarrow> RateLimiter \<Rightarrow> bool \<times> RateLimiter" where
  "Allow key perMin now l =
     (if perMin \<le> 0 then (True, l)
      else
        let (b, l) = (case get l key of
               Some b \<Rightarrow> (b, l)
             | None \<Rightarrow> (\<lparr>rb_tokens = of_int perMin, rb_last = now\<rparr>, make_room now l));
            tokens = refill perMin now b
        in if tokens < 1 then (False, put key \<lparr>rb_tokens = tokens, rb_last = now\<rparr> l)
           else (True, put key \<lparr>rb_tokens = tokens - 1, rb_last = now\<rparr> l))"

definition RetryAfter :: "int \<Rightarrow> int" where
  "RetryAfter perMin =
     (if perMin \<le> 0 then 0
      else
        let secs = 60 div perMin;
            secs = (if 60 mod perMin \<noteq> 0 then secs + 1 else secs)
        in if secs < 1 then 1 else secs)"

section \<open>The table stays bounded\<close>

definition limiter_ok :: "RateLimiter \<Rightarrow> bool" where
  "limiter_ok l \<longleftrightarrow> map_ok l \<and> length l \<le> maxRateLimitKeys"

lemma oldest_bucket_mem:
  "oldest_bucket best l = Some (k, t) \<Longrightarrow> best = Some (k, t) \<or> (\<exists>b. (k, b) \<in> set l \<and> rb_last b = t)"
  by (induction best l rule: oldest_bucket.induct) (auto split: if_splits)

lemma oldest_bucket_least:
  "oldest_bucket best l = Some (k, t) \<Longrightarrow>
     (\<forall>p\<in>set l. t \<le> rb_last (snd p)) \<and> (\<forall>k' t'. best = Some (k', t') \<longrightarrow> t \<le> t')"
  by (induction best l rule: oldest_bucket.induct) (auto split: if_splits)

lemma oldest_bucket_Some: "best \<noteq> None \<or> l \<noteq> [] \<Longrightarrow> oldest_bucket best l \<noteq> None"
  by (induction best l rule: oldest_bucket.induct) auto

lemma length_del: "map_ok m \<Longrightarrow> k \<in> fst ` set m \<Longrightarrow> Suc (length (del k m)) = length m"
proof (induction m)
  case Nil
  then show ?case by simp
next
  case (Cons p m)
  obtain a b where p: "p = (a, b)" by (cases p)
  show ?case
  proof (cases "a = k")
    case True
    with Cons.prems p have "k \<notin> fst ` set m" by (auto simp: map_ok_def)
    then have "del k m = m" by (rule delete_id)
    with True p show ?thesis by simp
  next
    case False
    with Cons p show ?thesis by (auto simp: map_ok_def)
  qed
qed

lemma evictOldest_length: "map_ok l \<Longrightarrow> l \<noteq> [] \<Longrightarrow> Suc (length (evictOldest l)) = length l"
proof -
  assume ok: "map_ok l" and "l \<noteq> []"
  then obtain k t where o: "oldest_bucket None l = Some (k, t)"
    using oldest_bucket_Some [of None l] by auto
  from oldest_bucket_mem [OF o] have "k \<in> fst ` set l" by force
  with o ok show ?thesis by (simp add: evictOldest_def length_del)
qed

lemma map_ok_make_room: "map_ok l \<Longrightarrow> map_ok (make_room now l)"
  by (auto simp: make_room_def prune_def evictOldest_def Let_def split: option.splits)

lemma make_room_length:
  assumes "limiter_ok l"
  shows "length (make_room now l) < maxRateLimitKeys"
proof -
  have pos: "0 < maxRateLimitKeys" by (simp add: maxRateLimitKeys_def)
  have p: "length (prune now l) \<le> length l" by (simp add: prune_def)
  have ok: "map_ok (prune now l)" using assms by (simp add: prune_def limiter_ok_def)
  show ?thesis
    using assms p pos evictOldest_length [OF ok]
    by (cases "prune now l = []") (auto simp: make_room_def Let_def limiter_ok_def)
qed

lemma Allow_positive:
  assumes "0 < perMin"
  shows "Allow key perMin now l =
    (let b = (case get l key of Some b \<Rightarrow> b | None \<Rightarrow> \<lparr>rb_tokens = of_int perMin, rb_last = now\<rparr>);
         l' = (if get l key = None then make_room now l else l);
         ok = (1 \<le> refill perMin now b)
     in (ok, put key \<lparr>rb_tokens = refill perMin now b - (if ok then 1 else 0), rb_last = now\<rparr> l'))"
  using assms by (auto simp: Allow_def Let_def split: option.splits)

lemma limiter_ok_Allow [inv_intros]:
  assumes "limiter_ok l"
  shows "limiter_ok (snd (Allow key perMin now l))"
proof (cases "perMin \<le> 0")
  case True
  with assms show ?thesis by (simp add: Allow_def)
next
  case False
  then have pos: "0 < perMin" by simp
  show ?thesis
  proof (cases "get l key")
    case None
    let ?l = "make_room now l"
    have "length (put key v ?l) \<le> maxRateLimitKeys" for v
      using length_put_le [of key v ?l] make_room_length [OF assms, of now] by simp
    with None assms map_ok_make_room show ?thesis
      by (simp add: Allow_positive [OF pos] Let_def limiter_ok_def)
  next
    case (Some b)
    then have "key \<in> fst ` set l" by (rule get_key)
    with Some assms show ?thesis
      by (simp add: Allow_positive [OF pos] Let_def limiter_ok_def length_put_mem)
  qed
qed

section \<open>Sequences of calls\<close>

text \<open>
  A call is its time, its caller and the limit in force for it, which the operator may change
  between calls. \<open>run\<close> makes the calls in order; the answers and the final table.
\<close>

type_synonym rate_call = "time \<times> string \<times> int"

fun run :: "rate_call list \<Rightarrow> RateLimiter \<Rightarrow> bool list \<times> RateLimiter" where
  "run [] l = ([], l)"
| "run ((now, key, perMin) # calls) l =
     (let (a, l) = Allow key perMin now l;
          (as, l) = run calls l
      in (a # as, l))"

abbreviation calling_keys :: "rate_call list \<Rightarrow> string set" where
  "calling_keys calls \<equiv> (\<lambda>(now, key, perMin). key) ` set calls"

definition granted :: "string \<Rightarrow> rate_call list \<Rightarrow> bool list \<Rightarrow> nat" where
  "granted key calls as = length (filter (\<lambda>((now, k, perMin), a). k = key \<and> a) (zip calls as))"

text \<open>
  The times the bucket of a caller that has been active within the last minute is dropped to
  make room for another caller: its next call then starts with a full bucket.
\<close>

definition lost :: "string \<Rightarrow> time \<Rightarrow> RateLimiter \<Rightarrow> RateLimiter \<Rightarrow> bool" where
  "lost key now l l' \<longleftrightarrow>
     (case get l key of None \<Rightarrow> False | Some b \<Rightarrow> get l' key = None \<and> \<not> now - rb_last b > minute_ns)"

fun evictions :: "string \<Rightarrow> rate_call list \<Rightarrow> RateLimiter \<Rightarrow> nat" where
  "evictions key [] l = 0"
| "evictions key ((now, k, perMin) # calls) l =
     (let l' = snd (Allow k perMin now l)
      in (if lost key now l l' then 1 else 0) + evictions key calls l')"

lemma granted_simps [simp]:
  "granted key [] as = 0"
  "granted key ((now, k, perMin) # calls) (a # as) = (if k = key \<and> a then 1 else 0) + granted key calls as"
  by (simp_all add: granted_def)

lemma run_Cons:
  "fst (run ((now, k, perMin) # calls) l) =
     fst (Allow k perMin now l) # fst (run calls (snd (Allow k perMin now l)))"
  "snd (run ((now, k, perMin) # calls) l) = snd (run calls (snd (Allow k perMin now l)))"
  by (simp_all add: Let_def case_prod_unfold)

lemma limiter_ok_run: "limiter_ok l \<Longrightarrow> limiter_ok (snd (run calls l))"
proof (induction calls arbitrary: l)
  case (Cons c calls)
  obtain now k perMin where "c = (now, k, perMin)" by (cases c)
  with Cons.IH [OF limiter_ok_Allow [OF Cons.prems, of k perMin now]] show ?case
    by (simp add: run_Cons del: run.simps)
qed simp

text \<open>A call leaves the table or puts the bucket of its caller, after making room for a new one.\<close>

lemma Allow_table:
  obtains "snd (Allow k perMin now l) = l"
  | v where "snd (Allow k perMin now l) = put k v (if get l k = None then make_room now l else l)"
proof (cases "0 < perMin")
  case True
  show thesis by (rule that(2)) (simp add: Allow_positive [OF True] Let_def)
qed (simp add: that(1) Allow_def)

text \<open>No bucket is dropped while the keys in use fit in the table.\<close>

definition fits :: "string set \<Rightarrow> RateLimiter \<Rightarrow> bool" where
  "fits ks l \<longleftrightarrow> map_ok l \<and> finite ks \<and> card ks \<le> maxRateLimitKeys \<and> fst ` set l \<subseteq> ks"

lemma fits_room:
  assumes "fits ks l" and "k \<in> ks" and "get l k = None"
  shows "make_room now l = l"
proof -
  have "k \<notin> fst ` set l" using assms(3) by (simp add: map_of_eq_None_iff)
  then have "fst ` set l \<subset> ks" using assms(1,2) by (auto simp: fits_def)
  then have "card (fst ` set l) < card ks" using assms(1) by (auto simp: fits_def psubset_card_mono)
  moreover have "card (fst ` set l) = length l"
    using assms(1) distinct_card [of "map fst l"] by (simp add: fits_def map_ok_def)
  ultimately show ?thesis using assms(1) by (simp add: make_room_def fits_def)
qed

lemma fits_Allow:
  assumes "fits ks l" and "k \<in> ks"
  shows "fits ks (snd (Allow k perMin now l))"
    and "\<not> lost key now l (snd (Allow k perMin now l))"
proof -
  consider "snd (Allow k perMin now l) = l" | v where "snd (Allow k perMin now l) = put k v l"
    using fits_room [OF assms, of now] by (rule_tac Allow_table [of k perMin now l]) (auto split: if_splits)
  then have "fits ks (snd (Allow k perMin now l)) \<and> \<not> lost key now l (snd (Allow k perMin now l))"
  proof cases
    case 1
    with assms(1) show ?thesis by (simp add: lost_def split: option.splits)
  next
    case (2 v)
    have "fst ` set (put k v l) \<subseteq> ks" using set_put_subset [of k v l] assms by (fastforce simp: fits_def)
    with 2 assms(1) show ?thesis by (simp add: fits_def lost_def split: option.splits)
  qed
  then show "fits ks (snd (Allow k perMin now l))" and "\<not> lost key now l (snd (Allow k perMin now l))" by simp_all
qed

lemma fits_run:
  assumes "fits ks l" and "calling_keys calls \<subseteq> ks"
  shows "fits ks (snd (run calls l))" and "evictions key calls l = 0"
  using assms
proof (induction calls arbitrary: l)
  case (Cons c calls)
  obtain now k perMin where c: "c = (now, k, perMin)" by (cases c)
  {
    case 1
    with Cons.IH(1) [OF fits_Allow(1)] show ?case by (simp add: c run_Cons del: run.simps)
  next
    case 2
    with Cons.IH(2) [OF fits_Allow(1)] fits_Allow(2) show ?case by (simp add: c)
  }
qed simp_all

text \<open>No bucket is overdrawn or from the future, as long as the clock does not go back.\<close>

definition sound_at :: "time \<Rightarrow> RateLimiter \<Rightarrow> bool" where
  "sound_at t l \<longleftrightarrow> (\<forall>(k, b)\<in>set l. 0 \<le> rb_tokens b \<and> rb_last b \<le> t)"

lemma refill_nonneg: "0 < perMin \<Longrightarrow> 0 \<le> rb_tokens b \<Longrightarrow> rb_last b \<le> now \<Longrightarrow> 0 \<le> refill perMin now b"
  by (simp add: refill_def Let_def second_ns_def)

lemma set_make_room: "set (make_room now l) \<subseteq> set l"
proof -
  have "set (evictOldest l) \<subseteq> set l" for l
    using set_del_subset [of _ l] by (fastforce simp: evictOldest_def split: option.splits)
  moreover have "set (prune now l) \<subseteq> set l" by (auto simp: prune_def)
  ultimately show ?thesis by (auto simp only: make_room_def Let_def split: if_splits)
qed

lemma sound_at_Allow:
  assumes "sound_at t l" and "t \<le> now"
  shows "sound_at now (snd (Allow k perMin now l))"
proof (cases "0 < perMin")
  case False
  with assms show ?thesis by (fastforce simp: Allow_def sound_at_def)
next
  case True
  let ?b = "case get l k of Some b \<Rightarrow> b | None \<Rightarrow> \<lparr>rb_tokens = of_int perMin, rb_last = now\<rparr>"
  have b: "0 \<le> rb_tokens ?b" "rb_last ?b \<le> now"
    using assms True get_in_set [of l k] by (fastforce simp: sound_at_def split: option.splits)+
  have "0 \<le> refill perMin now ?b" by (rule refill_nonneg [OF True b])
  moreover have "set (if get l k = None then make_room now l else l) \<subseteq> set l" using set_make_room by simp
  ultimately show ?thesis
    using assms set_put_subset [of k _ "if get l k = None then make_room now l else l"]
    by (fastforce simp: Allow_positive [OF True] Let_def sound_at_def)
qed

lemma sound_at_run:
  assumes "sound_at t l" and "sorted (t # map fst calls)" and "\<forall>t'\<in>fst ` set calls. t' \<le> fin" and "t \<le> fin"
  shows "sound_at fin (snd (run calls l))"
  using assms
proof (induction calls arbitrary: l t)
  case Nil
  then show ?case by (fastforce simp: sound_at_def)
next
  case (Cons c calls)
  obtain now k perMin where c: "c = (now, k, perMin)" by (cases c)
  with Cons.prems have "sound_at now (snd (Allow k perMin now l))" by (intro sound_at_Allow) auto
  from Cons.IH [OF this] Cons.prems c show ?case by (simp add: run_Cons del: run.simps)
qed

text \<open>
  The potential of a caller: the most requests it could be granted at once under a limit of at
  most \<open>m\<close>. Time adds to it at the rate of the limit, a granted request takes one away, pruning
  an idle bucket leaves it as it is and an eviction adds at most \<open>m\<close>.
\<close>

definition accrued :: "int \<Rightarrow> int \<Rightarrow> rat" where
  "accrued m d = of_int m * of_int d / of_int minute_ns"

definition potential :: "int \<Rightarrow> string \<Rightarrow> time \<Rightarrow> RateLimiter \<Rightarrow> rat" where
  "potential m key t l =
     (case get l key of None \<Rightarrow> of_int m | Some b \<Rightarrow> min (of_int m) (rb_tokens b + accrued m (t - rb_last b)))"

lemma accrued_add: "accrued m (a - b) + accrued m (c - a) = accrued m (c - b)"
  by (simp add: accrued_def add_divide_distrib [symmetric] algebra_simps)

lemma accrued_nonneg: "0 < m \<Longrightarrow> 0 \<le> d \<Longrightarrow> 0 \<le> accrued m d"
  by (simp add: accrued_def minute_ns_def second_ns_def)

lemma accrued_minute: "0 < m \<Longrightarrow> minute_ns < d \<Longrightarrow> of_int m \<le> accrued m d"
  by (simp add: accrued_def minute_ns_def second_ns_def field_simps)

lemma potential_le: "potential m key t l \<le> of_int m"
  by (simp add: potential_def split: option.splits)

lemma potential_nonneg:
  assumes "0 < m" and "sound_at t l"
  shows "0 \<le> potential m key t l"
proof (cases "get l key")
  case (Some b)
  with assms(2) get_in_set [OF Some] have "0 \<le> rb_tokens b" "rb_last b \<le> t" by (auto simp: sound_at_def)
  with Some assms(1) accrued_nonneg [OF assms(1), of "t - rb_last b"] show ?thesis by (simp add: potential_def)
qed (use assms in \<open>simp add: potential_def\<close>)

lemma potential_mono:
  assumes "0 < m" and "t \<le> now" and "get l' key = get l key"
  shows "potential m key now l' \<le> potential m key t l + accrued m (now - t)"
  using accrued_nonneg [OF assms(1), of "now - t"] assms
    accrued_add [of m t "rb_last (the (get l key))" now]
  by (auto simp: potential_def split: option.splits)

lemma refill_le:
  assumes "0 < perMin" and "perMin \<le> m" and "rb_last b \<le> now"
  shows "refill perMin now b \<le> min (of_int m) (rb_tokens b + accrued m (now - rb_last b))"
proof -
  have "of_int (now - rb_last b) / of_int second_ns * of_int perMin / 60 \<le> accrued m (now - rb_last b)"
    using assms mult_right_mono [of "of_int perMin :: rat" "of_int m" "of_int (now - rb_last b)"]
    by (simp add: accrued_def minute_ns_def second_ns_def field_simps)
  moreover have "(of_int perMin :: rat) \<le> of_int m" using assms(2) by simp
  ultimately show ?thesis by (auto simp: refill_def Let_def)
qed

text \<open>One call by the caller itself, and one by another caller.\<close>

lemma Allow_potential_own:
  assumes "0 < perMin" and "perMin \<le> m" and "sound_at t l" and "t \<le> now"
  shows "(if fst (Allow key perMin now l) then 1 else 0) + potential m key now (snd (Allow key perMin now l))
    \<le> potential m key t l + accrued m (now - t)"
proof -
  let ?b = "case get l key of Some b \<Rightarrow> b | None \<Rightarrow> \<lparr>rb_tokens = of_int perMin, rb_last = now\<rparr>"
  have m: "0 < m" using assms(1,2) by simp
  have "refill perMin now ?b \<le> potential m key t l + accrued m (now - t)"
  proof (cases "get l key")
    case None
    then show ?thesis using assms(2) accrued_nonneg [OF m, of "now - t"] assms(4)
      by (simp add: potential_def refill_def)
  next
    case (Some b)
    with assms(3,4) get_in_set [OF Some] have "rb_last b \<le> now" by (auto simp: sound_at_def)
    from refill_le [OF assms(1,2) this] have "refill perMin now ?b \<le> potential m key now l"
      by (simp add: potential_def Some)
    also have "\<dots> \<le> potential m key t l + accrued m (now - t)" by (rule potential_mono [OF m assms(4) refl])
    finally show ?thesis .
  qed
  then show ?thesis by (auto simp: Allow_positive [OF assms(1)] Let_def potential_def accrued_def)
qed

lemma get_make_room: "map_ok l \<Longrightarrow> get (make_room now l) key \<in> {get l key, None}"
  by (auto simp: make_room_def prune_def evictOldest_def Let_def get_filter split: option.splits)

lemma Allow_potential_other:
  assumes "0 < m" and "k \<noteq> key" and "map_ok l" and "sound_at t l" and "t \<le> now"
  shows "potential m key now (snd (Allow k perMin now l))
    \<le> potential m key t l + accrued m (now - t) +
       (if lost key now l (snd (Allow k perMin now l)) then of_int m else 0)"
proof -
  let ?l = "snd (Allow k perMin now l)"
  have kept: "get ?l key = get l key \<or> get ?l key = None"
    using assms(2) get_make_room [OF assms(3), of now key]
    by (rule_tac Allow_table [of k perMin now l]) (auto split: if_splits)
  show ?thesis
  proof (cases "get ?l key = get l key")
    case True
    from potential_mono [OF assms(1,5) True] True show ?thesis by (simp add: lost_def split: option.splits)
  next
    case False
    with kept obtain b where b: "get l key = Some b" and d: "get ?l key = None" by (cases "get l key") auto
    with assms(4) get_in_set [OF b] have s: "0 \<le> rb_tokens b" "rb_last b \<le> t" by (auto simp: sound_at_def)
    have p: "0 \<le> potential m key t l" by (rule potential_nonneg [OF assms(1,4)])
    show ?thesis
    proof (cases "now - rb_last b > minute_ns")
      case True
      from accrued_minute [OF assms(1) True] s(1) have "potential m key now l = of_int m" by (simp add: potential_def b)
      with potential_mono [OF assms(1,5) refl, of key l] d b True show ?thesis by (simp add: potential_def lost_def)
    next
      case False
      with b d p accrued_nonneg [OF assms(1), of "now - t"] assms(5) show ?thesis
        by (simp add: potential_def lost_def)
    qed
  qed
qed

lemma run_granted:
  assumes "0 < m" and "map_ok l" and "sound_at t l" and "sorted (t # map fst calls)" and "t \<le> fin"
    and "\<forall>(now, k, perMin)\<in>set calls. now \<le> fin \<and> (k = key \<longrightarrow> 0 < perMin \<and> perMin \<le> m)"
  shows "of_nat (granted key calls (fst (run calls l))) \<le>
     potential m key t l + of_nat (evictions key calls l) * of_int m + accrued m (fin - t)"
  using assms(2-)
proof (induction calls arbitrary: l t)
  case Nil
  then show ?case using potential_nonneg [OF assms(1) Nil(2), of key] accrued_nonneg [OF assms(1), of "fin - t"] by simp
next
  case (Cons c calls)
  obtain now k perMin where c: "c = (now, k, perMin)" by (cases c)
  let ?l = "snd (Allow k perMin now l)"
  have mono: "t \<le> now" "now \<le> fin" using Cons.prems(3,5) c by auto
  have ok: "map_ok ?l" using Cons.prems(1) map_ok_make_room
    by (rule_tac Allow_table [of k perMin now l]) (auto split: if_splits)
  have step: "(if k = key \<and> fst (Allow k perMin now l) then 1 else 0) + potential m key now ?l
      \<le> potential m key t l + accrued m (now - t) + (if lost key now l ?l then of_int m else 0)"
  proof (cases "k = key")
    case True
    with Cons.prems(5) c have "0 < perMin" "perMin \<le> m" by auto
    from Allow_potential_own [OF this Cons.prems(2) mono(1), of key] assms(1) True show ?thesis by (auto split: if_splits)
  next
    case False
    from Allow_potential_other [OF assms(1) False Cons.prems(1,2) mono(1)] False show ?thesis by simp
  qed
  have "of_nat (granted key calls (fst (run calls ?l))) \<le>
     potential m key now ?l + of_nat (evictions key calls ?l) * of_int m + accrued m (fin - now)"
    using Cons.IH [OF ok sound_at_Allow [OF Cons.prems(2) mono(1)]] Cons.prems c mono by auto
  moreover have "accrued m (now - t) + accrued m (fin - now) = accrued m (fin - t)" by (rule accrued_add)
  moreover have "of_nat (granted key (c # calls) (fst (run (c # calls) l))) =
      (if k = key \<and> fst (Allow k perMin now l) then 1 else 0 :: rat) + of_nat (granted key calls (fst (run calls ?l)))"
    unfolding c run_Cons by auto
  moreover have "of_nat (evictions key (c # calls) l) * of_int m =
      (if lost key now l ?l then of_int m else 0 :: rat) + of_nat (evictions key calls ?l) * of_int m"
    by (simp add: c Let_def distrib_right)
  ultimately show ?case using step by linarith
qed

section \<open>Properties\<close>

text \<open>
  C9: the rate limit holds. After any history \<open>pre\<close> of calls since the limiter was made, by any
  number of callers and under any limits, over any sequence of calls between \<open>start\<close> and \<open>fin\<close>
  (the clock does not go back), the number of requests granted to a caller, whose limit may change
  but is positive and at most \<open>m\<close> a minute in that time, is at most \<open>m\<close> plus the budget of the
  elapsed time at \<open>m\<close> a minute, plus \<open>m\<close> more for each time the full table had to drop its bucket
  less than a minute after its last call. That never happens as long as no more than 4096
  distinct callers have called.
\<close>

theorem rate_limit_holds:
  assumes "sorted (map fst pre @ start # map fst calls)" and "start \<le> fin" and "0 < m"
    and "\<forall>(now, k, perMin)\<in>set calls. now \<le> fin \<and> (k = key \<longrightarrow> 0 < perMin \<and> perMin \<le> m)"
  shows "of_nat (granted key calls (fst (run calls (snd (run pre NewRateLimiter))))) \<le>
       (1 + of_nat (evictions key calls (snd (run pre NewRateLimiter)))) * of_int m +
       (of_int m * of_int (fin - start) / of_int minute_ns :: rat) \<and>
     (card (calling_keys (pre @ calls)) \<le> maxRateLimitKeys \<longrightarrow>
       evictions key calls (snd (run pre NewRateLimiter)) = 0)"
proof
  let ?l = "snd (run pre NewRateLimiter)"
  obtain t0 where t0: "sorted (t0 # map fst pre)" "t0 \<le> start"
    using assms(1) by (cases pre) (auto simp: sorted_append)
  have "sound_at start ?l"
    using assms(1) t0 by (intro sound_at_run [where t = t0]) (auto simp: sorted_append sound_at_def NewRateLimiter_def)
  moreover have "limiter_ok ?l" by (rule limiter_ok_run) (simp add: limiter_ok_def NewRateLimiter_def)
  ultimately have "of_nat (granted key calls (fst (run calls ?l))) \<le>
      potential m key start ?l + of_nat (evictions key calls ?l) * of_int m + accrued m (fin - start)"
    using assms by (intro run_granted) (auto simp: sorted_append limiter_ok_def)
  with potential_le [of m key start ?l]
  show "of_nat (granted key calls (fst (run calls ?l))) \<le>
      (1 + of_nat (evictions key calls ?l)) * of_int m + (of_int m * of_int (fin - start) / of_int minute_ns :: rat)"
    by (simp add: accrued_def distrib_right)
  show "card (calling_keys (pre @ calls)) \<le> maxRateLimitKeys \<longrightarrow> evictions key calls ?l = 0"
  proof
    assume "card (calling_keys (pre @ calls)) \<le> maxRateLimitKeys"
    then have "fits (calling_keys (pre @ calls)) NewRateLimiter" by (simp add: fits_def NewRateLimiter_def)
    from fits_run(2) [OF fits_run(1) [OF this]] show "evictions key calls ?l = 0" by auto
  qed
qed

theorem rate_limit_holds_witness:
  "of_nat (granted ''a'' [(60, ''a'', 1), (61, ''b'', 9), (62, ''a'', 2)]
      (fst (run [(60, ''a'', 1), (61, ''b'', 9), (62, ''a'', 2)] (snd (run [(3, ''a'', 5)] NewRateLimiter))))) \<le> (4 :: rat)"
proof -
  let ?pre = "[(3, ''a'', 5)] :: rate_call list"
  let ?calls = "[(60, ''a'', 1), (61, ''b'', 9), (62, ''a'', 2)] :: rate_call list"
  have c: "card (calling_keys (?pre @ ?calls)) \<le> maxRateLimitKeys"
    by (simp add: maxRateLimitKeys_def card_insert_if)
  have "sorted (map fst ?pre @ 60 # map fst ?calls)" by simp
  from rate_limit_holds [OF this, of "60 + minute_ns" 2 "''a''"] c show ?thesis
    by (simp add: minute_ns_def second_ns_def del: run.simps evictions.simps)
qed

text \<open>
  The bucket table is bounded. From a table within its bound, no call, whatever its key,
  limit and clock, takes it above 4096 entries, and no key has two buckets.
\<close>

theorem limiter_bounded:
  assumes "map_ok l" and "length l \<le> maxRateLimitKeys"
  shows "map_ok (snd (run calls l)) \<and> length (snd (run calls l)) \<le> maxRateLimitKeys"
  using limiter_ok_run [of l calls] assms by (simp add: limiter_ok_def)

theorem limiter_bounded_witness:
  "length (snd (run [(0, ''a'', 1), (1, ''b'', 1), (2, ''a'', 3)] NewRateLimiter)) \<le> maxRateLimitKeys"
  using limiter_bounded [of NewRateLimiter "[(0, ''a'', 1), (1, ''b'', 1), (2, ''a'', 3)]"]
  by (simp add: NewRateLimiter_def map_ok_def)

text \<open>
  C10: the retry hint is sufficient. A caller that waits the advertised number of seconds
  since its last call (its bucket not being overdrawn, which a clock that goes forward
  guarantees) has its next request granted.
\<close>

theorem RetryAfter_sufficient:
  assumes "0 < perMin" and "get l key = Some b" and "0 \<le> rb_tokens b"
    and "rb_last b + RetryAfter perMin * second_ns \<le> now"
  shows "fst (Allow key perMin now l)"
proof -
  have hint: "60 \<le> RetryAfter perMin * perMin"
  proof -
    have "(60 :: int) = 60 div perMin * perMin + 60 mod perMin" by (rule div_mult_mod_eq [symmetric])
    moreover have "60 mod perMin < perMin" using assms(1) by simp
    ultimately have "60 \<le> (60 div perMin + 1) * perMin" by (simp only: distrib_right)
    moreover have "60 div perMin * perMin = 60" if "60 mod perMin = 0" using that by auto
    ultimately have "60 \<le> (if 60 mod perMin \<noteq> 0 then 60 div perMin + 1 else 60 div perMin) * perMin"
      by auto
    moreover have "(if 60 mod perMin \<noteq> 0 then 60 div perMin + 1 else 60 div perMin) \<le> RetryAfter perMin"
      using assms(1) by (auto simp: RetryAfter_def Let_def)
    ultimately show ?thesis
      using assms(1) by (meson dual_order.strict_implies_order mult_right_mono order_trans)
  qed
  have "60 * second_ns \<le> RetryAfter perMin * perMin * second_ns"
    by (rule mult_right_mono [OF hint]) (simp add: second_ns_def)
  also have "\<dots> = RetryAfter perMin * second_ns * perMin" by simp
  also have "\<dots> \<le> (now - rb_last b) * perMin"
    using assms(1,4) by (intro mult_right_mono) auto
  finally have "of_int (60 * second_ns) \<le> (of_int ((now - rb_last b) * perMin) :: rat)"
    by (simp only: of_int_le_iff)
  then have "1 \<le> (of_int (now - rb_last b) / of_int second_ns * of_int perMin / 60 :: rat)"
    by (simp add: second_ns_def)
  then have "1 \<le> refill perMin now b"
    using assms(1,3) by (simp add: refill_def Let_def)
  with assms(1,2) show ?thesis by (simp add: Allow_positive Let_def)
qed

theorem RetryAfter_sufficient_witness:
  "fst (Allow ''a'' 7 9000000000 [(''a'', \<lparr>rb_tokens = 0, rb_last = 0\<rparr>)])"
  by (rule RetryAfter_sufficient [where b = "\<lparr>rb_tokens = 0, rb_last = 0\<rparr>"])
     (simp_all add: RetryAfter_def second_ns_def)

text \<open>
  Pruning is not observable. Dropping the buckets idle for more than a minute (all with a
  token count that is not negative) changes the answer to no request, of any caller.
\<close>

theorem prune_unobservable:
  assumes "map_ok l" and "0 < perMin" and "\<forall>(k, b)\<in>set l. 0 \<le> rb_tokens b" and "now \<le> later"
  shows "fst (Allow key perMin later (prune now l)) = fst (Allow key perMin later l)"
proof -
  have gp: "get (prune now l) key =
      (case get l key of None \<Rightarrow> None | Some b \<Rightarrow> if now - rb_last b > minute_ns then None else Some b)"
    using get_filter [OF assms(1), of "\<lambda>(k, b). \<not> now - rb_last b > minute_ns" key]
    by (auto simp: prune_def split: option.splits)
  have full: "refill perMin t \<lparr>rb_tokens = of_int perMin, rb_last = t\<rparr> = of_int perMin" for t
    by (simp add: refill_def)
  have idle: "refill perMin later b = of_int perMin"
    if "get l key = Some b" and "now - rb_last b > minute_ns" for b
  proof -
    have "0 \<le> rb_tokens b" using assms(3) get_in_set [OF that(1)] by auto
    moreover have "of_int minute_ns \<le> (of_int (later - rb_last b) :: rat)"
      using that(2) assms(4) by (simp only: of_int_le_iff)
    then have "of_int minute_ns * of_int perMin \<le> (of_int (later - rb_last b) * of_int perMin :: rat)"
      using assms(2) by (intro mult_right_mono) auto
    then have "of_int perMin \<le> (of_int (later - rb_last b) / of_int second_ns * of_int perMin / 60 :: rat)"
      by (simp add: minute_ns_def second_ns_def)
    ultimately show ?thesis by (simp add: refill_def Let_def)
  qed
  show ?thesis
    using gp full [of later] idle
    by (cases "get l key") (auto simp: Allow_positive [OF assms(2)] Let_def)
qed

theorem prune_unobservable_witness:
  "fst (Allow ''a'' 2 (3 * minute_ns) (prune (2 * minute_ns) [(''a'', \<lparr>rb_tokens = 0, rb_last = 0\<rparr>)])) =
   fst (Allow ''a'' 2 (3 * minute_ns) [(''a'', \<lparr>rb_tokens = 0, rb_last = 0\<rparr>)])"
  by (rule prune_unobservable) (simp_all add: map_ok_def minute_ns_def second_ns_def)

end
