(* ===== verification/Signer_Server.thy ===== *)
theory Signer_Server
  imports Wire Audit_Log RateLimit
begin

text \<open>
  The signing service, \<open>src/cmd/signer/main.go\<close>, \<open>grants.go\<close> and \<open>policy.go\<close>, and the caller
  identity of \<open>src/internal/auth/mtls.go\<close>.

  A handler maps the request and the server state to a response and the new state. The state
  keeps the list of the audit entries handed to \<open>audit.Append\<close>, in order (what becomes of them
  is \<open>Audit_Log\<close>). The configuration file is its decoded content, \<open>None\<close> when it does not
  parse. Arguments stand for what comes from outside: the sign environment, the fresh grant
  identifier, the outcome of loading CA keys and of writing the file, and \<open>et\<close>, the text of an
  error. A request's body is decoded, \<open>None\<close> when that fails.
\<close>

section \<open>Caller identity\<close>

text \<open>\<open>unicode.IsControl\<close> on UTF-8 bytes: C0 and DEL, and the two-byte C1 range.\<close>

fun has_control :: "nat list \<Rightarrow> bool" where
  "has_control [] = False"
| "has_control (b # bs) \<longleftrightarrow> b < 32 \<or> b = 127 \<or>
     (b = 194 \<and> (case bs of [] \<Rightarrow> False | c # _ \<Rightarrow> 128 \<le> c \<and> c \<le> 159)) \<or> has_control bs"

definition CallerCN :: "string option \<Rightarrow> string option" where
  "CallerCN peer =
     (case peer of
        None \<Rightarrow> None
      | Some cn \<Rightarrow> if cn = '''' then None else if has_control (map byte cn) then None else Some cn)"

section \<open>Configuration and state\<close>

record Config =
  cfg_MaxTTLSeconds :: int
  cfg_SignRateLimitPerMin :: int
  cfg_MaxGrantTTLSeconds :: int
  cfg_ReloadCallers :: "string list"
  cfg_TrustedForwarders :: "string list"
  cfg_Hosts :: PolicyTable
  cfg_Callers :: CallerTable
  cfg_CommandPolicies :: policy_library
  cfg_GroupCommandPolicies :: group_policies

record server =
  sv_local :: Local
  sv_hosts :: PolicyTable
  sv_callers :: CallerTable
  sv_reloadCN :: "string list"
  sv_forwarders :: "string list"
  sv_signRateMin :: int
  sv_grants :: GrantStore
  sv_maxGrantTTL :: duration
  sv_rateLimiter :: RateLimiter
  sv_audit :: "Entry list"
  sv_file :: "Config option"

text \<open>The outcome of \<open>ca.LoadGroupCAs\<close>: the default CA and the CAs by group.\<close>

type_synonym ca_keys = "(CAKey \<times> (string, CAKey) gomap) option"

datatype state_error = ConfigInvalid | PolicyInvalid compile_error | CALoadFailed | HostNotFound string | NoChange | WriteFileFailed

definition parseConfig :: "Config option \<Rightarrow> Config option" where
  "parseConfig c =
     map_option (\<lambda>c. c\<lparr>cfg_Hosts := map (\<lambda>(name, hp).
       (name, if hp_MaxTTLSeconds hp > 0 then hp\<lparr>hp_MaxTTL := seconds (hp_MaxTTLSeconds hp)\<rparr> else hp))
       (cfg_Hosts c)\<rparr>) c"

definition buildState :: "regex_engine \<Rightarrow> ca_keys \<Rightarrow> Config \<Rightarrow> GrantProvider option \<Rightarrow> state_error + Local" where
  "buildState re cas cfg grants =
     (case CompileHostPolicies re (cfg_Hosts cfg) (cfg_CommandPolicies cfg) (cfg_GroupCommandPolicies cfg) of
        Inl e \<Rightarrow> Inl (PolicyInvalid e)
      | Inr compiled \<Rightarrow>
          (case cas of
             None \<Rightarrow> Inl CALoadFailed
           | Some (defaultCA, groupCAs) \<Rightarrow>
               let defaultTTL = seconds (cfg_MaxTTLSeconds cfg);
                   defaultTTL = (if defaultTTL \<le> 0 then 5 * minute_ns else defaultTTL)
               in Inr (NewLocalWithGrants defaultCA groupCAs compiled defaultTTL grants)))"

definition reloadSet :: "string list \<Rightarrow> string list" where
  "reloadSet cns = filter (\<lambda>cn. cn \<noteq> '''') cns"

text \<open>The signer reads the grant store through a pointer: its current content.\<close>

definition live_local :: "server \<Rightarrow> Local" where
  "live_local s = (sv_local s)\<lparr>l_grants := Some (store_provider (sv_grants s))\<rparr>"

definition resolveCaller :: "string \<Rightarrow> string \<Rightarrow> string list \<Rightarrow> string option" where
  "resolveCaller mtlsCN onBehalfOf forwarders =
     (if onBehalfOf = '''' then Some mtlsCN
      else if mtlsCN \<in> set forwarders then Some onBehalfOf
      else None)"

definition reload :: "regex_engine \<Rightarrow> ca_keys \<Rightarrow> server \<Rightarrow> (state_error + int) \<times> server" where
  "reload re cas s =
     (case parseConfig (sv_file s) of
        None \<Rightarrow> (Inl ConfigInvalid, s)
      | Some cfg \<Rightarrow>
          (case buildState re cas cfg (Some (store_provider (sv_grants s))) of
             Inl e \<Rightarrow> (Inl e, s)
           | Inr l \<Rightarrow>
               (Inr (int (length (cfg_Hosts cfg))),
                s\<lparr>sv_local := l, sv_hosts := cfg_Hosts cfg, sv_callers := cfg_Callers cfg,
                  sv_reloadCN := reloadSet (cfg_ReloadCallers cfg),
                  sv_forwarders := reloadSet (cfg_TrustedForwarders cfg),
                  sv_signRateMin := cfg_SignRateLimitPerMin cfg\<rparr>)))"

section \<open>Audit records\<close>

definition appendAudit :: "Entry \<Rightarrow> server \<Rightarrow> server" where
  "appendAudit e s = s\<lparr>sv_audit := sv_audit s @ [e]\<rparr>"

definition emission_command :: "WireRequest \<Rightarrow> string" where
  "emission_command req =
     ''role='' @ wr_Role req @ '' purpose='' @ wr_Purpose req @
     (if wr_SessionMode req \<noteq> '''' then '' session_mode='' @ wr_SessionMode req else []) @
     (if wr_EndUser req \<noteq> '''' then '' user='' @ wr_EndUser req else []) @
     (if wr_Sudo req then '' elev=sudo:'' @ (if wr_SudoUser req = '''' then ''root'' else wr_SudoUser req) else []) @
     (if wr_PTY req then '' pty=1'' else []) @
     (if wr_FileTransfer req then '' ft=1'' else [])"

definition emission_entry ::
    "string \<Rightarrow> WireRequest \<Rightarrow> PolicyTable \<Rightarrow> 64 word \<Rightarrow> string \<Rightarrow> DecisionInfo option \<Rightarrow> string \<Rightarrow> Entry" where
  "emission_entry caller req hosts serial outcome dec err =
     (let e = zero_entry\<lparr>e_Caller := caller,
                e_Host := (case get hosts (wr_Host req) of None \<Rightarrow> wr_Host req | Some hp \<Rightarrow> hp_Addr hp),
                e_User := (case get hosts (wr_Host req) of None \<Rightarrow> '''' | Some hp \<Rightarrow> hp_User hp),
                e_Principal := (case get hosts (wr_Host req) of None \<Rightarrow> '''' | Some hp \<Rightarrow> hp_Principal hp),
                e_Command := emission_command req, e_Serial := serial, e_Outcome := outcome\<rparr>;
          e = (case dec of None \<Rightarrow> e | Some d \<Rightarrow> e\<lparr>e_PolicyRule := di_MatchedRule d, e_Warning := di_Warning d\<rparr>)
      in e\<lparr>e_Err := err\<rparr>)"

definition auditEmission ::
    "string \<Rightarrow> WireRequest \<Rightarrow> PolicyTable \<Rightarrow> 64 word \<Rightarrow> string \<Rightarrow> DecisionInfo option \<Rightarrow> string \<Rightarrow> server \<Rightarrow> server" where
  "auditEmission caller req hosts serial outcome dec err s =
     appendAudit (emission_entry caller req hosts serial outcome dec err) s"

definition auditGrant :: "string \<Rightarrow> string \<Rightarrow> string \<Rightarrow> string list \<Rightarrow> string \<Rightarrow> string \<Rightarrow> server \<Rightarrow> server" where
  "auditGrant caller host gid allow outcome err s =
     appendAudit (zero_entry\<lparr>e_Caller := caller, e_Host := host, e_Command := ''grant '' @ gid, e_Outcome := outcome,
       e_PolicyRule := (if length allow > 0 then ''allow:'' @ Join allow '','' else ''''), e_Err := err\<rparr>) s"

definition auditReload :: "string \<Rightarrow> int \<Rightarrow> string \<Rightarrow> string \<Rightarrow> server \<Rightarrow> server" where
  "auditReload caller hosts outcome err s =
     appendAudit (zero_entry\<lparr>e_Caller := caller, e_Command := ''reload hosts='' @ Itoa hosts, e_Outcome := outcome,
       e_Err := err\<rparr>) s"

definition auditPolicy :: "string \<Rightarrow> string \<Rightarrow> string \<Rightarrow> bool \<Rightarrow> string \<Rightarrow> string \<Rightarrow> server \<Rightarrow> server" where
  "auditPolicy caller host pattern add outcome err s =
     appendAudit (zero_entry\<lparr>e_Caller := caller, e_Host := host,
       e_Command := (if add then ''policy-allow-add'' else ''policy-allow-remove''), e_Outcome := outcome,
       e_PolicyRule := (if pattern \<noteq> '''' then ''allow:'' @ pattern else ''''), e_Err := err\<rparr>) s"

section \<open>Signing\<close>

abbreviation text_response :: "int \<Rightarrow> string \<Rightarrow> http_response" where
  "text_response status t \<equiv> \<lparr>rs_status = status, rs_body = BodyText t\<rparr>"

text \<open>\<open>regexp.QuoteMeta\<close>\<close>

definition QuoteMeta :: "string \<Rightarrow> string" where
  "QuoteMeta s =
     concat (map (\<lambda>c. if c \<in> set (CHR 0x5C # ''.+*?()|[]{}^$'') then [CHR 0x5C, c] else [c]) s)"

definition learned_grant :: "string \<Rightarrow> WireRequest \<Rightarrow> duration \<Rightarrow> time \<Rightarrow> Grant" where
  "learned_grant caller req ttl now =
     \<lparr>g_ID = '''', g_Host = wr_Host req, g_Allow = [],
      g_WaiveApproval = [''^'' @ QuoteMeta (wr_Command req) @ ''$''], g_Caller = caller,
      g_EndUser = wr_EndUser req, g_Sudo = wr_Sudo req, g_SudoUser = wr_SudoUser req,
      g_Approver = wr_LearnApprover req, g_ApprovalID = wr_LearnApprovalID req, g_GrantedAt = now,
      g_ExpiresAt = now + ttl, g_waiverRE = []\<rparr>"

definition maybeLearnWaiver ::
    "regex_engine \<Rightarrow> (grant_error \<Rightarrow> string) \<Rightarrow> string \<Rightarrow> time \<Rightarrow> string \<Rightarrow> WireRequest \<Rightarrow> Issued \<Rightarrow> server \<Rightarrow> server" where
  "maybeLearnWaiver re gt newID now caller req issued s =
     (if wr_LearnTTLSeconds req \<le> 0 \<or> wr_DryRun req \<or> is_Certificate issued = None then s
      else if (case is_Decision issued of None \<Rightarrow> True | Some d \<Rightarrow> \<not> di_RequireApproval d) then
        appendAudit (zero_entry\<lparr>e_Caller := caller, e_Host := wr_Host req, e_Command := ''approval-waiver'',
          e_Outcome := ''approval-waiver-skipped'', e_ApprovalID := wr_LearnApprovalID req,
          e_ApprovedBy := wr_LearnApprover req,
          e_Err := ''command is not require_approval; nothing to waive''\<rparr>) s
      else
        let ttl = seconds (wr_LearnTTLSeconds req);
            ttl = (if sv_maxGrantTTL s > 0 \<and> ttl > sv_maxGrantTTL s then sv_maxGrantTTL s else ttl);
            g = learned_grant caller req ttl now;
            s = s\<lparr>sv_grants := snd (SupersedeWaiver g (sv_grants s))\<rparr>;
            (r, gs) = Add re newID g (sv_grants s);
            s = s\<lparr>sv_grants := gs\<rparr>;
            e = zero_entry\<lparr>e_Caller := caller, e_Host := wr_Host req,
              e_PolicyRule := ''waive_approval:'' @ ''^'' @ QuoteMeta (wr_Command req) @ ''$'',
              e_ApprovalID := wr_LearnApprovalID req, e_ApprovedBy := wr_LearnApprover req\<rparr>
        in appendAudit
             (case r of
                Inr gid \<Rightarrow> e\<lparr>e_Command := ''approval-waiver '' @ gid, e_Outcome := ''approval-waiver-created''\<rparr>
              | Inl err \<Rightarrow> e\<lparr>e_Command := ''approval-waiver'', e_Outcome := ''approval-waiver-failed'', e_Err := gt err\<rparr>) s)"

definition respondSignResult ::
    "ssh_codec \<Rightarrow> string \<Rightarrow> WireRequest \<Rightarrow> PolicyTable \<Rightarrow> Issued \<Rightarrow> server \<Rightarrow> http_response \<times> server" where
  "respondSignResult sc caller req hosts issued s =
     (if wr_DryRun req then
        let outcome = (case is_Decision issued of
                         Some d \<Rightarrow> if \<not> di_Allowed d then ''dry_run_denied'' else ''dry_run_allowed''
                       | None \<Rightarrow> ''dry_run_allowed'')
        in (\<lparr>rs_status = 200, rs_body = BodyResponse (zero_response\<lparr>ws_Decision := is_Decision issued\<rparr>)\<rparr>,
            auditEmission caller req hosts 0 outcome (is_Decision issued) '''' s)
      else case is_Certificate issued of
        None \<Rightarrow>
          (\<lparr>rs_status = 200, rs_body = BodyResponse (zero_response\<lparr>ws_Decision := is_Decision issued\<rparr>)\<rparr>,
           auditEmission caller req hosts 0 ''approval-required'' (is_Decision issued) '''' s)
      | Some cert \<Rightarrow>
          (\<lparr>rs_status = 200, rs_body = BodyResponse \<lparr>ws_Certificate = sc_MarshalCert sc cert,
              ws_Serial = is_Serial issued, ws_ElevationPrefix = is_ElevationPrefix issued,
              ws_Decision = is_Decision issued\<rparr>\<rparr>,
           auditEmission caller req hosts (is_Serial issued) ''issued'' (is_Decision issued) '''' s))"

definition signer_intent :: "string \<Rightarrow> PublicKey \<Rightarrow> bool \<Rightarrow> WireRequest \<Rightarrow> Intent" where
  "signer_intent caller pub approved req =
     \<lparr>in_Caller = caller, in_Host = wr_Host req, in_Role = wr_Role req, in_Purpose = wr_Purpose req,
      in_SessionMode = wr_SessionMode req, in_Command = wr_Command req,
      in_RequestedTTL = seconds (wr_TTLSeconds req), in_PublicKey = pub, in_Sudo = wr_Sudo req,
      in_SudoUser = wr_SudoUser req, in_PTY = wr_PTY req, in_FileTransfer = wr_FileTransfer req,
      in_DryRun = wr_DryRun req, in_Preflight = wr_Preflight req, in_Approved = approved,
      in_OnBehalfOf = '''', in_EndUser = wr_EndUser req, in_EndUserGroups = wr_EndUserGroups req,
      in_LearnTTLSeconds = 0, in_LearnApprover = '''', in_LearnApprovalID = ''''\<rparr>"

record sign_ctx =
  sx_re :: regex_engine
  sx_sh :: sh_parser
  sx_env :: sign_env
  sx_codec :: ssh_codec
  sx_newID :: string
  sx_sign_text :: "sign_error \<Rightarrow> string"
  sx_group_text :: "string \<Rightarrow> string \<Rightarrow> string"
  sx_grant_text :: "grant_error \<Rightarrow> string"

definition token_fields :: "WireRequest \<Rightarrow> (string \<times> string) list" where
  "token_fields req =
     [(''end_user'', wr_EndUser req), (''role'', wr_Role req), (''purpose'', wr_Purpose req),
      (''session_mode'', wr_SessionMode req), (''sudo_user'', wr_SudoUser req)]"

text \<open>The handler after the rate limit and the decoding of the body.\<close>

definition handleSign_request ::
    "sign_ctx \<Rightarrow> string \<Rightarrow> WireRequest \<Rightarrow> server \<Rightarrow> http_response \<times> server" where
  "handleSign_request cx cn req s =
     (case sc_ParseKey (sx_codec cx) (wr_PublicKey req) of
        None \<Rightarrow> (text_response 400 ''invalid pubkey'', s)
      | Some pub \<Rightarrow>
          (case find (\<lambda>(name, val). HasUnsafeTokenChar val) (token_fields req) of
             Some (name, _) \<Rightarrow>
               (text_response 400 (''invalid '' @ name @ '': control or whitespace characters not allowed''), s)
           | None \<Rightarrow>
            let isForwarder = (cn \<in> set (sv_forwarders s));
                effectiveApproved = (wr_Approved req \<and> isForwarder)
            in
            (case resolveCaller cn (wr_OnBehalfOf req) (sv_forwarders s) of
               None \<Rightarrow> (text_response 403 ''on_behalf_of not allowed for this caller'', s)
             | Some caller \<Rightarrow>
                 if HasUnsafeTokenChar caller
                 then (text_response 400 ''invalid caller identity: control or whitespace characters not allowed'', s)
                 else if (case HostSetForCaller caller (sv_hosts s) (sv_callers s) of
                            None \<Rightarrow> False
                          | Some hostSet \<Rightarrow> wr_Host req \<notin> set hostSet)
                 then (text_response 403 ''host not authorised'',
                       auditEmission caller req (sv_hosts s) 0 ''denied'' None
                         (sx_group_text cx (wr_Host req) caller) s)
                 else
                   (case SignIntent (sx_re cx) (sx_sh cx) (sx_env cx) (live_local s)
                           (signer_intent caller pub effectiveApproved req) of
                      Inl err \<Rightarrow>
                        (\<lparr>rs_status = 403, rs_body = BodyError err\<rparr>,
                         auditEmission caller req (sv_hosts s) 0 ''denied'' None (sx_sign_text cx err) s)
                    | Inr issued \<Rightarrow>
                        let s' = (if isForwarder \<and> wr_LearnTTLSeconds req > 0
                                  then maybeLearnWaiver (sx_re cx) (sx_grant_text cx) (sx_newID cx)
                                         (env_now (sx_env cx)) caller req issued s
                                  else s)
                        in respondSignResult (sx_codec cx) caller req (sv_hosts s) issued s'))))"

definition signer_handleSign ::
    "sign_ctx \<Rightarrow> string \<Rightarrow> string option \<Rightarrow> WireRequest option \<Rightarrow> server \<Rightarrow> http_response \<times> server" where
  "signer_handleSign cx method peer body s =
     (if method \<noteq> ''POST'' then (text_response 405 ''method not allowed'', s)
      else case CallerCN peer of
        None \<Rightarrow> (text_response 401 ''unauthenticated'', s)
      | Some cn \<Rightarrow>
          let limit = sv_signRateMin s;
              (ok, rl) = (if limit > 0 then Allow cn limit (env_now (sx_env cx)) (sv_rateLimiter s)
                          else (True, sv_rateLimiter s));
              s = s\<lparr>sv_rateLimiter := rl\<rparr>
          in if \<not> ok then (text_response 429 ''rate limit exceeded'', s)
             else case body of
               None \<Rightarrow> (text_response 400 ''invalid request'', s)
             | Some req \<Rightarrow> handleSign_request cx cn req s)"

section \<open>Hosts\<close>

definition wire_host :: "HostPolicy \<Rightarrow> WireHostInfo" where
  "wire_host hp =
     \<lparr>wh_Addr = hp_Addr hp, wh_User = hp_User hp, wh_HostKey = hp_HostKey hp, wh_Jump = hp_Jump hp,
      wh_AllowSudo = hp_AllowSudo hp, wh_AllowPTY = hp_AllowPTY hp,
      wh_AllowFileTransfer = hp_AllowFileTransfer hp, wh_Groups = hp_Groups hp\<rparr>"

definition signer_handleHosts :: "string \<Rightarrow> string option \<Rightarrow> string \<Rightarrow> server \<Rightarrow> http_response" where
  "signer_handleHosts method peer onBehalfOf s =
     (if method \<noteq> ''GET'' then text_response 405 ''method not allowed''
      else case CallerCN peer of
        None \<Rightarrow> text_response 401 ''unauthenticated''
      | Some cn \<Rightarrow>
          (case resolveCaller cn onBehalfOf (sv_forwarders s) of
             None \<Rightarrow> text_response 403 ''on_behalf_of not allowed for this caller''
           | Some caller \<Rightarrow>
               let result = map (\<lambda>(name, hp). (name, wire_host hp)) (sv_hosts s);
                   result = (case HostSetForCaller caller (sv_hosts s) (sv_callers s) of
                               None \<Rightarrow> result
                             | Some hostSet \<Rightarrow> filter (\<lambda>(name, _). name \<in> set hostSet) result);
                   result = filter (\<lambda>(name, _). case get (sv_hosts s) name of
                               None \<Rightarrow> True
                             | Some hp \<Rightarrow> AllowsCaller hp caller) result
               in \<lparr>rs_status = 200, rs_body = BodyHosts result\<rparr>))"

section \<open>Reload and policy administration\<close>

definition signer_handleReload ::
    "regex_engine \<Rightarrow> ca_keys \<Rightarrow> (state_error \<Rightarrow> string) \<Rightarrow> string \<Rightarrow> string option \<Rightarrow> server \<Rightarrow> http_response \<times> server" where
  "signer_handleReload re cas st method peer s =
     (if method \<noteq> ''POST'' then (text_response 405 ''method not allowed'', s)
      else case CallerCN peer of
        None \<Rightarrow> (text_response 401 ''unauthenticated'', s)
      | Some caller \<Rightarrow>
          if caller \<notin> set (sv_reloadCN s)
          then (text_response 403 ''not authorised to reload'', auditReload caller 0 ''reload-denied'' ''caller not authorised'' s)
          else
            (case reload re cas s of
               (Inl err, s) \<Rightarrow> (text_response 500 (st err), auditReload caller 0 ''reload-failed'' (st err) s)
             | (Inr n, s) \<Rightarrow> (\<lparr>rs_status = 200, rs_body = BodyOther\<rparr>, auditReload caller n ''reloaded'' '''' s)))"

text \<open>The body of \<open>POST /v1/policy/hosts/{host}/grants\<close>.\<close>

record grantReq =
  gq_Allow :: "string list"
  gq_TTLSeconds :: int
  gq_Caller :: string
  gq_EndUser :: string

definition handleGrantCreate ::
    "regex_engine \<Rightarrow> (grant_error \<Rightarrow> string) \<Rightarrow> string \<Rightarrow> time \<Rightarrow> string option \<Rightarrow> string \<Rightarrow> grantReq option \<Rightarrow> server \<Rightarrow>
     http_response \<times> server" where
  "handleGrantCreate re gt newID now peer host body s =
     (case CallerCN peer of
        None \<Rightarrow> (text_response 401 ''unauthenticated'', s)
      | Some caller \<Rightarrow>
          if caller \<notin> set (sv_reloadCN s)
          then (text_response 403 ''not authorised to change policy'',
                auditGrant caller host '''' [] ''grant-denied'' ''caller not authorised'' s)
          else case body of
            None \<Rightarrow> (text_response 400 ''invalid request'', s)
          | Some req \<Rightarrow>
              if length (gq_Allow req) = 0 \<or> gq_TTLSeconds req \<le> 0 then (text_response 400 ''invalid request'', s)
              else
                let ttl = seconds (gq_TTLSeconds req) in
                if sv_maxGrantTTL s > 0 \<and> ttl > sv_maxGrantTTL s
                then (text_response 400 ''ttl_seconds exceeds max_grant_ttl_seconds'',
                      auditGrant caller host '''' (gq_Allow req) ''grant-failed'' ''ttl_seconds exceeds max_grant_ttl_seconds'' s)
                else
                  (case HostAllowlistActive (sv_local s) host of
                     (exists, allowlist) \<Rightarrow>
                       if \<not> exists
                       then (text_response 404 ''unknown host'',
                             auditGrant caller host '''' (gq_Allow req) ''grant-failed'' ''unknown host'' s)
                       else if \<not> allowlist
                       then (text_response 409 ''host is not allowlist-active'',
                             auditGrant caller host '''' (gq_Allow req) ''grant-failed'' ''host is not allowlist-active'' s)
                       else
                         (case Add re newID
                             \<lparr>g_ID = '''', g_Host = host, g_Allow = gq_Allow req, g_WaiveApproval = [],
                              g_Caller = gq_Caller req, g_EndUser = gq_EndUser req, g_Sudo = False, g_SudoUser = '''',
                              g_Approver = caller, g_ApprovalID = '''', g_GrantedAt = now, g_ExpiresAt = now + ttl,
                              g_waiverRE = []\<rparr> (sv_grants s) of
                            (Inl err, gs) \<Rightarrow>
                              (text_response 400 (gt err),
                               auditGrant caller host '''' (gq_Allow req) ''grant-failed'' (gt err) (s\<lparr>sv_grants := gs\<rparr>))
                          | (Inr gid, gs) \<Rightarrow>
                              (\<lparr>rs_status = 201, rs_body = BodyOther\<rparr>,
                               auditGrant caller host gid (gq_Allow req) ''grant-created'' '''' (s\<lparr>sv_grants := gs\<rparr>)))))"

definition handleGrantList :: "time \<Rightarrow> string option \<Rightarrow> server \<Rightarrow> (http_response + Grant list) \<times> server" where
  "handleGrantList now peer s =
     (case CallerCN peer of
        None \<Rightarrow> (Inl (text_response 401 ''unauthenticated''), s)
      | Some caller \<Rightarrow>
          if caller \<notin> set (sv_reloadCN s) then (Inl (text_response 403 ''not authorised to change policy''), s)
          else (case grants_List now (sv_grants s) of (gs, st) \<Rightarrow> (Inr gs, s\<lparr>sv_grants := st\<rparr>)))"

definition handleGrantRevoke :: "string option \<Rightarrow> string \<Rightarrow> server \<Rightarrow> http_response \<times> server" where
  "handleGrantRevoke peer gid s =
     (case CallerCN peer of
        None \<Rightarrow> (text_response 401 ''unauthenticated'', s)
      | Some caller \<Rightarrow>
          if HasUnsafeTokenChar gid then (text_response 400 ''invalid grant id'', s)
          else if caller \<notin> set (sv_reloadCN s)
          then (text_response 403 ''not authorised to change policy'',
                auditGrant caller '''' gid [] ''grant-denied'' ''caller not authorised'' s)
          else
            (case Revoke gid (sv_grants s) of
               (False, gs) \<Rightarrow> (text_response 404 ''unknown grant'',
                 auditGrant caller '''' gid [] ''grant-failed'' ''unknown grant'' (s\<lparr>sv_grants := gs\<rparr>))
             | (True, gs) \<Rightarrow> (\<lparr>rs_status = 200, rs_body = BodyOther\<rparr>,
                 auditGrant caller '''' gid [] ''grant-revoked'' '''' (s\<lparr>sv_grants := gs\<rparr>))))"

text \<open>\<open>editAllow\<close> on the decoded file: only the host's command policy changes.\<close>

definition editAllow :: "Config \<Rightarrow> string \<Rightarrow> string \<Rightarrow> bool \<Rightarrow> state_error + Config" where
  "editAllow c host pattern add =
     (case get (cfg_Hosts c) host of
        None \<Rightarrow> Inl (HostNotFound host)
      | Some hp \<Rightarrow>
          let cp = hp_CommandPolicy hp;
              stored = (\<lambda>cp. c\<lparr>cfg_Hosts := put host (hp\<lparr>hp_CommandPolicy := cp\<rparr>) (cfg_Hosts c)\<rparr>)
          in if add then
               (if pattern \<in> set (cp_Allow cp) then Inl NoChange
                else
                  let cp = (if cp_Mode cp = '''' \<or> cp_Mode cp = CmdPolicyOff
                            then cp\<lparr>cp_Mode := CmdPolicyAllowlist\<rparr> else cp)
                  in Inr (stored (cp\<lparr>cp_Allow := cp_Allow cp @ [pattern]\<rparr>)))
             else
               (if pattern \<notin> set (cp_Allow cp) then Inl NoChange
                else Inr (stored (cp\<lparr>cp_Allow := remove1 pattern (cp_Allow cp)\<rparr>))))"

definition mutateAllow ::
    "regex_engine \<Rightarrow> ca_keys \<Rightarrow> bool \<Rightarrow> string \<Rightarrow> string \<Rightarrow> bool \<Rightarrow> server \<Rightarrow> (state_error + int) \<times> server" where
  "mutateAllow re cas write_ok host pattern add s =
     (case sv_file s of
        None \<Rightarrow> (Inl ConfigInvalid, s)
      | Some raw \<Rightarrow>
     (case editAllow raw host pattern add of
        Inl err \<Rightarrow> (Inl err, s)
      | Inr edited \<Rightarrow>
     (case parseConfig (Some edited) of
        None \<Rightarrow> (Inl ConfigInvalid, s)
      | Some cfg \<Rightarrow>
     (case buildState re cas cfg (Some (store_provider (sv_grants s))) of
        Inl err \<Rightarrow> (Inl err, s)
      | Inr l \<Rightarrow>
          if \<not> write_ok then (Inl WriteFileFailed, s)
          else
            (Inr (int (length (cfg_Hosts cfg))),
             s\<lparr>sv_file := Some edited, sv_local := l, sv_hosts := cfg_Hosts cfg, sv_callers := cfg_Callers cfg,
               sv_reloadCN := reloadSet (cfg_ReloadCallers cfg),
               sv_forwarders := reloadSet (cfg_TrustedForwarders cfg)\<rparr>)))))"

definition policyErrStatus :: "state_error \<Rightarrow> int" where
  "policyErrStatus err = (case err of HostNotFound _ \<Rightarrow> 404 | NoChange \<Rightarrow> 409 | _ \<Rightarrow> 500)"

definition handlePolicyAllow ::
    "regex_engine \<Rightarrow> ca_keys \<Rightarrow> bool \<Rightarrow> (state_error \<Rightarrow> string) \<Rightarrow> string \<Rightarrow> string option \<Rightarrow> string \<Rightarrow> string option \<Rightarrow>
     server \<Rightarrow> http_response \<times> server" where
  "handlePolicyAllow re cas write_ok st method peer host body s =
     (let add = (method = ''POST'') in
      if \<not> add \<and> method \<noteq> ''DELETE'' then (text_response 405 ''method not allowed'', s)
      else case CallerCN peer of
        None \<Rightarrow> (text_response 401 ''unauthenticated'', s)
      | Some caller \<Rightarrow>
          if caller \<notin> set (sv_reloadCN s)
          then (text_response 403 ''not authorised to change policy'',
                auditPolicy caller '''' '''' add ''policy-denied'' ''caller not authorised'' s)
          else case body of
            None \<Rightarrow> (text_response 400 ''invalid request'', s)
          | Some pattern \<Rightarrow>
              if pattern = '''' then (text_response 400 ''invalid request'', s)
              else if re pattern = None
              then (text_response 400 ''invalid regex'', auditPolicy caller host pattern add ''policy-failed'' ''invalid regex'' s)
              else
                (case mutateAllow re cas write_ok host pattern add s of
                   (Inl err, s) \<Rightarrow> (text_response (policyErrStatus err) (st err),
                     auditPolicy caller host pattern add ''policy-failed'' (st err) s)
                 | (Inr n, s) \<Rightarrow> (\<lparr>rs_status = 200, rs_body = BodyOther\<rparr>,
                     auditPolicy caller host pattern add ''policy-changed'' '''' s)))"

definition handlePolicyHostsRead :: "string option \<Rightarrow> server \<Rightarrow> (http_response + PolicyTable) \<times> server" where
  "handlePolicyHostsRead peer s =
     (case CallerCN peer of
        None \<Rightarrow> (Inl (text_response 401 ''unauthenticated''), s)
      | Some caller \<Rightarrow>
          let entry = (\<lambda>n outcome err. zero_entry\<lparr>e_Caller := caller,
                 e_Command := ''policy-hosts-read hosts='' @ Itoa n, e_Outcome := outcome, e_Err := err\<rparr>)
          in if caller \<notin> set (sv_reloadCN s)
             then (Inl (text_response 403 ''not authorised to read policy''),
                   appendAudit (entry 0 ''policy-read-denied'' ''caller not authorised'') s)
             else (Inr (sv_hosts s), appendAudit (entry (int (length (sv_hosts s))) ''policy-read'' '''') s))"

section \<open>Lemmas\<close>

lemma CallerCN_nonempty: "CallerCN peer = Some cn \<Longrightarrow> cn \<noteq> ''''"
  by (auto simp: CallerCN_def split: option.splits if_splits)

lemma resolveCaller_Some:
  "resolveCaller cn obo fw = Some caller \<Longrightarrow> caller = cn \<and> obo = '''' \<or> caller = obo \<and> cn \<in> set fw"
  by (auto simp: resolveCaller_def split: if_splits)

lemma maybeLearnWaiver_fields [simp]:
  "sv_hosts (maybeLearnWaiver re gt nid now caller req iss s) = sv_hosts s"
  "sv_local (maybeLearnWaiver re gt nid now caller req iss s) = sv_local s"
  by (simp_all add: maybeLearnWaiver_def appendAudit_def Let_def case_prod_unfold)

text \<open>Where a response with a certificate comes from.\<close>

lemma handleSign_request_cert:
  assumes "handleSign_request cx cn req s = (\<lparr>rs_status = st, rs_body = BodyResponse r\<rparr>, s')" and "ws_Certificate r \<noteq> ''''"
  obtains caller pub issued cert where
    "sc_ParseKey (sx_codec cx) (wr_PublicKey req) = Some pub"
    and "\<forall>(n, v)\<in>set (token_fields req). \<not> HasUnsafeTokenChar v"
    and "resolveCaller cn (wr_OnBehalfOf req) (sv_forwarders s) = Some caller" and "\<not> HasUnsafeTokenChar caller"
    and "\<forall>hs. HostSetForCaller caller (sv_hosts s) (sv_callers s) = Some hs \<longrightarrow> wr_Host req \<in> set hs"
    and "SignIntent (sx_re cx) (sx_sh cx) (sx_env cx) (live_local s)
           (signer_intent caller pub (wr_Approved req \<and> cn \<in> set (sv_forwarders s)) req) = Inr issued"
    and "is_Certificate issued = Some cert" and "r = \<lparr>ws_Certificate = sc_MarshalCert (sx_codec cx) cert,
           ws_Serial = is_Serial issued, ws_ElevationPrefix = is_ElevationPrefix issued, ws_Decision = is_Decision issued\<rparr>"
    and "sv_audit s' \<noteq> []" and "last (sv_audit s') =
           emission_entry caller req (sv_hosts s) (is_Serial issued) ''issued'' (is_Decision issued) ''''"
proof -
  from assms(1) obtain pub where pub: "sc_ParseKey (sx_codec cx) (wr_PublicKey req) = Some pub"
    by (auto simp: handleSign_request_def split: option.splits)
  with assms(1) have tf: "find (\<lambda>(n, v). HasUnsafeTokenChar v) (token_fields req) = None"
    by (auto simp: handleSign_request_def split: option.splits)
  with assms(1) pub obtain caller where rc: "resolveCaller cn (wr_OnBehalfOf req) (sv_forwarders s) = Some caller"
    by (auto simp: handleSign_request_def Let_def split: option.splits)
  with assms(1) pub tf have uc: "\<not> HasUnsafeTokenChar caller"
    by (auto simp: handleSign_request_def Let_def split: option.splits if_splits)
  with assms(1) pub tf rc have hs: "\<not> (case HostSetForCaller caller (sv_hosts s) (sv_callers s) of
      None \<Rightarrow> False | Some hostSet \<Rightarrow> wr_Host req \<notin> set hostSet)"
    by (auto simp: handleSign_request_def Let_def split: if_splits)
  with assms(1) pub tf rc uc obtain issued where iss: "SignIntent (sx_re cx) (sx_sh cx) (sx_env cx) (live_local s)
      (signer_intent caller pub (wr_Approved req \<and> cn \<in> set (sv_forwarders s)) req) = Inr issued"
    by (auto simp: handleSign_request_def Let_def split: sum.splits)
  obtain s1 where resp: "respondSignResult (sx_codec cx) caller req (sv_hosts s) issued s1 =
      (\<lparr>rs_status = st, rs_body = BodyResponse r\<rparr>, s')"
    using assms(1) pub tf rc uc hs iss by (auto simp: handleSign_request_def Let_def)
  show thesis
  proof (rule that [OF pub _ rc uc _ iss])
    show "\<forall>(n, v)\<in>set (token_fields req). \<not> HasUnsafeTokenChar v"
      using tf by (auto simp: find_None_iff)
    show "\<forall>hs. HostSetForCaller caller (sv_hosts s) (sv_callers s) = Some hs \<longrightarrow> wr_Host req \<in> set hs"
      using hs by (auto split: option.splits)
    show "is_Certificate issued = Some (the (is_Certificate issued))"
      "r = \<lparr>ws_Certificate = sc_MarshalCert (sx_codec cx) (the (is_Certificate issued)), ws_Serial = is_Serial issued,
          ws_ElevationPrefix = is_ElevationPrefix issued, ws_Decision = is_Decision issued\<rparr>"
      "sv_audit s' \<noteq> []" "last (sv_audit s') =
         emission_entry caller req (sv_hosts s) (is_Serial issued) ''issued'' (is_Decision issued) ''''"
      using resp assms(2)
      by (auto simp: respondSignResult_def auditEmission_def appendAudit_def zero_response_def
          split: if_splits option.splits)
  qed
qed

lemma signer_handleSign_request:
  assumes "signer_handleSign cx method peer body s = (\<lparr>rs_status = st, rs_body = BodyResponse r\<rparr>, s')"
  obtains cn req rl where "method = ''POST''" and "CallerCN peer = Some cn" and "body = Some req"
    and "sv_signRateMin s > 0 \<longrightarrow> fst (Allow cn (sv_signRateMin s) (env_now (sx_env cx)) (sv_rateLimiter s))"
    and "handleSign_request cx cn req (s\<lparr>sv_rateLimiter := rl\<rparr>) = (\<lparr>rs_status = st, rs_body = BodyResponse r\<rparr>, s')"
proof -
  define p where "p = (if sv_signRateMin s > 0
      then Allow (the (CallerCN peer)) (sv_signRateMin s) (env_now (sx_env cx)) (sv_rateLimiter s)
      else (True, sv_rateLimiter s))"
  from assms obtain cn req where "method = ''POST''" "CallerCN peer = Some cn" "body = Some req" "fst p"
      "handleSign_request cx cn req (s\<lparr>sv_rateLimiter := snd p\<rparr>) = (\<lparr>rs_status = st, rs_body = BodyResponse r\<rparr>, s')"
    by (auto simp: signer_handleSign_def Let_def p_def case_prod_unfold split: if_splits option.splits)
  then show thesis using that [of cn req "snd p"] by (simp add: p_def split: if_splits)
qed

section \<open>Properties\<close>

text \<open>
  C16: a certificate leaves the service only for an authenticated, resolved and audited request.
  When the response carries a certificate, the peer has a valid common name within its rate
  limit; the signer decided on that name, or on the name a trusted forwarder acted for; the host
  is in the caller's groups; the certificate is the one \<open>SignIntent\<close> issued for exactly the
  requested intent, approved only if a trusted forwarder said so; and the last audit record
  handed to the log is its "issued" record with that caller and serial.
\<close>

theorem sign_response_audited:
  assumes "signer_handleSign cx method peer body s = (\<lparr>rs_status = st, rs_body = BodyResponse r\<rparr>, s')"
    and "ws_Certificate r \<noteq> ''''"
  shows "\<exists>cn req caller pub issued cert. CallerCN peer = Some cn \<and> body = Some req \<and>
     (caller = cn \<and> wr_OnBehalfOf req = '''' \<or> caller = wr_OnBehalfOf req \<and> cn \<in> set (sv_forwarders s)) \<and>
     (sv_signRateMin s > 0 \<longrightarrow> fst (Allow cn (sv_signRateMin s) (env_now (sx_env cx)) (sv_rateLimiter s))) \<and>
     (\<forall>hs. HostSetForCaller caller (sv_hosts s) (sv_callers s) = Some hs \<longrightarrow> wr_Host req \<in> set hs) \<and>
     SignIntent (sx_re cx) (sx_sh cx) (sx_env cx) (live_local s)
       (signer_intent caller pub (wr_Approved req \<and> cn \<in> set (sv_forwarders s)) req) = Inr issued \<and>
     is_Certificate issued = Some cert \<and> ws_Certificate r = sc_MarshalCert (sx_codec cx) cert \<and>
     e_Outcome (last (sv_audit s')) = ''issued'' \<and> e_Caller (last (sv_audit s')) = caller \<and>
     e_Serial (last (sv_audit s')) = is_Serial issued"
proof (rule signer_handleSign_request [OF assms(1)])
  fix cn req rl
  let ?s = "s\<lparr>sv_rateLimiter := rl\<rparr>"
  assume cn: "CallerCN peer = Some cn" "body = Some req"
    and rate: "sv_signRateMin s > 0 \<longrightarrow> fst (Allow cn (sv_signRateMin s) (env_now (sx_env cx)) (sv_rateLimiter s))"
    and h: "handleSign_request cx cn req ?s = (\<lparr>rs_status = st, rs_body = BodyResponse r\<rparr>, s')"
  show ?thesis
  proof (rule handleSign_request_cert [OF h assms(2)])
    fix caller pub issued cert
    assume rc: "resolveCaller cn (wr_OnBehalfOf req) (sv_forwarders ?s) = Some caller"
      and hs: "\<forall>hs. HostSetForCaller caller (sv_hosts ?s) (sv_callers ?s) = Some hs \<longrightarrow> wr_Host req \<in> set hs"
      and iss: "SignIntent (sx_re cx) (sx_sh cx) (sx_env cx) (live_local ?s)
        (signer_intent caller pub (wr_Approved req \<and> cn \<in> set (sv_forwarders ?s)) req) = Inr issued"
      and cert: "is_Certificate issued = Some cert" "r = \<lparr>ws_Certificate = sc_MarshalCert (sx_codec cx) cert,
        ws_Serial = is_Serial issued, ws_ElevationPrefix = is_ElevationPrefix issued, ws_Decision = is_Decision issued\<rparr>"
      and last: "last (sv_audit s') =
        emission_entry caller req (sv_hosts ?s) (is_Serial issued) ''issued'' (is_Decision issued) ''''"
    have live: "live_local ?s = live_local s" by (simp add: live_local_def)
    have entry: "e_Outcome (last (sv_audit s')) = ''issued''" "e_Caller (last (sv_audit s')) = caller"
      "e_Serial (last (sv_audit s')) = is_Serial issued"
      by (simp_all add: last emission_entry_def Let_def split: option.splits)
    show ?thesis
      using cn rate resolveCaller_Some [OF rc] hs iss cert entry unfolding live
      by (intro exI [of _ cn] exI [of _ req] exI [of _ caller] exI [of _ pub] exI [of _ issued] exI [of _ cert]) auto
  qed
qed

definition sample_codec :: ssh_codec where
  "sample_codec = \<lparr>sc_MarshalKey = (\<lambda>k. k), sc_ParseKey = Some, sc_MarshalCert = (\<lambda>c. ''c'' @ cert_KeyId c),
     sc_ParseCert = (\<lambda>s. None)\<rparr>"

definition sample_ctx :: sign_ctx where
  "sample_ctx = \<lparr>sx_re = sample_engine, sx_sh = sample_sh, sx_env = sample_env, sx_codec = sample_codec,
     sx_newID = ''g1'', sx_sign_text = (\<lambda>e. ''denied''), sx_group_text = (\<lambda>h c. ''group''),
     sx_grant_text = (\<lambda>e. ''bad grant'')\<rparr>"

definition sample_server :: server where
  "sample_server = \<lparr>sv_local = sample_local, sv_hosts = [(''web01'', sample_host)], sv_callers = [],
     sv_reloadCN = [''admin''], sv_forwarders = [''cp''], sv_signRateMin = 0, sv_grants = [],
     sv_maxGrantTTL = 0, sv_rateLimiter = [], sv_audit = [], sv_file = None\<rparr>"

definition sample_request :: WireRequest where
  "sample_request = \<lparr>wr_Host = ''web01'', wr_Role = RoleTarget, wr_Purpose = PurposeOneshot, wr_SessionMode = '''',
     wr_Command = ''uptime'', wr_TTLSeconds = 60, wr_PublicKey = ''pk'', wr_Sudo = True, wr_SudoUser = '''',
     wr_PTY = False, wr_FileTransfer = False, wr_DryRun = False, wr_Preflight = False, wr_OnBehalfOf = '''',
     wr_Approved = False, wr_EndUser = ''alice'', wr_EndUserGroups = Some [''prod''], wr_LearnTTLSeconds = 0,
     wr_LearnApprover = '''', wr_LearnApprovalID = ''''\<rparr>"

lemma sample_sel:
  "wr_Host sample_request = ''web01''" "wr_PublicKey sample_request = ''pk''" "wr_OnBehalfOf sample_request = ''''"
  "wr_Approved sample_request = False" "wr_LearnTTLSeconds sample_request = 0" "wr_DryRun sample_request = False"
  "sv_forwarders sample_server = [''cp'']" "sv_callers sample_server = []" "sv_signRateMin sample_server = 0"
  "sv_rateLimiter sample_server = []"
  by (simp_all add: sample_request_def sample_server_def)

lemma sample_signer_intent: "signer_intent ''b1'' ''pk'' False sample_request = sample_intent"
  by (simp add: signer_intent_def sample_request_def sample_intent_def seconds_small second_ns_def)

lemma sample_tokens: "find (\<lambda>(n, v). HasUnsafeTokenChar v) (token_fields sample_request) = None"
  by (simp add: token_fields_def sample_request_def HasUnsafeTokenChar_def hasControlChar_def ContainsAny_def byte_def)

lemma CallerCN_b1: "CallerCN (Some ''b1'') = Some ''b1''"
  by (simp add: CallerCN_def byte_def)

lemma sample_handleSign:
  "\<exists>s'. signer_handleSign sample_ctx ''POST'' (Some ''b1'') (Some sample_request) sample_server =
     (\<lparr>rs_status = 200, rs_body = BodyResponse \<lparr>ws_Certificate = ''c'' @ cert_KeyId sample_cert, ws_Serial = 7,
        ws_ElevationPrefix = [], ws_Decision = is_Decision sample_issued\<rparr>\<rparr>, s')"
proof -
  have l: "live_local sample_server = sample_local"
    by (simp add: live_local_def sample_server_def sample_local_def NewLocalWithGrants_def)
  have b1: "\<not> HasUnsafeTokenChar ''b1''"
    by (simp add: HasUnsafeTokenChar_def hasControlChar_def ContainsAny_def byte_def)
  have iss: "SignIntent sample_engine sample_sh sample_env sample_local (signer_intent ''b1'' ''pk'' False sample_request) =
      Inr sample_issued"
    using sample_SignIntent by (simp add: sample_signer_intent)
  have h: "handleSign_request sample_ctx ''b1'' sample_request sample_server =
      respondSignResult sample_codec ''b1'' sample_request (sv_hosts sample_server) sample_issued sample_server"
    using iss b1 sample_tokens
    by (simp add: handleSign_request_def l sample_ctx_def sample_codec_def resolveCaller_def HostSetForCaller_def
        sample_sel)
  have same: "sample_server\<lparr>sv_rateLimiter := []\<rparr> = sample_server" by (simp add: sample_server_def)
  have "signer_handleSign sample_ctx ''POST'' (Some ''b1'') (Some sample_request) sample_server =
      respondSignResult sample_codec ''b1'' sample_request (sv_hosts sample_server) sample_issued sample_server"
    by (simp add: signer_handleSign_def CallerCN_b1 Let_def sample_sel same h)
  then show ?thesis
    by (simp add: respondSignResult_def sample_certificate sample_codec_def sample_sel) (simp add: sample_issued_def)
qed

theorem sign_response_audited_witness:
  "\<exists>s'. e_Outcome (last (sv_audit s')) = ''issued'' \<and> e_Caller (last (sv_audit s')) = ''b1'' \<and>
     snd (signer_handleSign sample_ctx ''POST'' (Some ''b1'') (Some sample_request) sample_server) = s'"
proof -
  obtain s' where h: "signer_handleSign sample_ctx ''POST'' (Some ''b1'') (Some sample_request) sample_server =
     (\<lparr>rs_status = 200, rs_body = BodyResponse \<lparr>ws_Certificate = ''c'' @ cert_KeyId sample_cert, ws_Serial = 7,
        ws_ElevationPrefix = [], ws_Decision = is_Decision sample_issued\<rparr>\<rparr>, s')"
    using sample_handleSign by blast
  from sign_response_audited [OF h] have "e_Outcome (last (sv_audit s')) = ''issued'' \<and> e_Caller (last (sv_audit s')) = ''b1''"
    by (auto simp: CallerCN_b1 sample_sel)
  with h show ?thesis by simp
qed

end
