(* ===== verification/Frontends.thy ===== *)
theory Frontends
  imports Session_Auth GoBase64 Signer_Server
begin

text \<open>
  The frontends of the broker: the verification of bearer tokens (\<open>src/internal/oauth/verifier.go\<close>),
  the caller of each frontend (\<open>src/cmd/mcp-broker-http/main.go\<close>, \<open>src/cmd/mcp-broker/main.go\<close>), the
  seven MCP tools (\<open>src/internal/mcpserver/tools.go\<close>) and the mTLS endpoint of
  \<open>src/cmd/broker/main.go\<close>.

  The signature check and the expiry of a token are the library's: its result is an argument. A
  claim is a JSON value; a number stands for the \<open>int64\<close> that the code converts it to.
\<close>

section \<open>Bearer tokens\<close>

datatype claim = ClaimString string | ClaimNumber int | ClaimList "claim list" | ClaimOther

record oauth_Config =
  oc_Issuer :: string
  oc_Audience :: string
  oc_UserClaim :: string
  oc_GroupsClaim :: string
  oc_MaxTokenAge :: duration
  oc_ClockSkew :: duration

definition defaultClockSkew :: duration where
  "defaultClockSkew = minute_ns"

record Verifier =
  ve_userClaim :: string
  ve_groupsClaim :: string
  ve_maxTokenAge :: duration
  ve_clockSkew :: duration

datatype verifier_error = IssuerRequired | AudienceRequired | DiscoveryFailed

definition NewVerifier :: "bool \<Rightarrow> oauth_Config \<Rightarrow> verifier_error + Verifier" where
  "NewVerifier discovered cfg =
     (if oc_Issuer cfg = '''' then Inl IssuerRequired
      else if oc_Audience cfg = '''' then Inl AudienceRequired
      else if \<not> discovered then Inl DiscoveryFailed
      else
        let skew = (if oc_ClockSkew cfg = 0 then defaultClockSkew else oc_ClockSkew cfg) in
        Inr \<lparr>ve_userClaim = (if oc_UserClaim cfg = '''' then ''sub'' else oc_UserClaim cfg),
             ve_groupsClaim = oc_GroupsClaim cfg, ve_maxTokenAge = oc_MaxTokenAge cfg,
             ve_clockSkew = (if skew < 0 then 0 else skew)\<rparr>)"

definition stringClaim :: "(string, claim) gomap \<Rightarrow> string \<Rightarrow> string" where
  "stringClaim claims name = (case get claims name of Some (ClaimString s) \<Rightarrow> s | _ \<Rightarrow> '''')"

text \<open>\<open>None\<close> is the nil slice.\<close>

definition stringSliceClaim :: "(string, claim) gomap \<Rightarrow> string \<Rightarrow> string list option" where
  "stringSliceClaim claims name =
     (case get claims name of
        Some (ClaimList vs) \<Rightarrow> Some (concat (map (\<lambda>v. case v of ClaimString s \<Rightarrow> [s] | _ \<Rightarrow> []) vs))
      | Some (ClaimString s) \<Rightarrow> if s = '''' then None else Some [s]
      | _ \<Rightarrow> None)"

definition scopesFromClaims :: "(string, claim) gomap \<Rightarrow> string list option" where
  "scopesFromClaims claims =
     (case get claims ''scope'' of
        Some (ClaimString s) \<Rightarrow> if s \<noteq> '''' then Some (Fields s) else stringSliceClaim claims ''scp''
      | _ \<Rightarrow> stringSliceClaim claims ''scp'')"

record TokenInfo =
  ti_Scopes :: "string list option"
  ti_Expiration :: time
  ti_UserID :: string
  ti_Groups :: "string list option"

record IDToken =
  it_Expiry :: time
  it_Claims :: "(string, claim) gomap option"

datatype token_error = TokenRejected | UnreadableClaims | UserClaimAbsent string | NotValidYet time | IatAbsent
  | IssuedInFuture time | TokenTooOld duration | GroupsClaimAbsent string

text \<open>A numeric claim, read as seconds since the epoch.\<close>

definition time_claim :: "(string, claim) gomap \<Rightarrow> string \<Rightarrow> time option" where
  "time_claim claims name = (case get claims name of Some (ClaimNumber n) \<Rightarrow> Some (n * second_ns) | _ \<Rightarrow> None)"

definition Verify :: "Verifier \<Rightarrow> time \<Rightarrow> IDToken option \<Rightarrow> token_error + TokenInfo" where
  "Verify v now idToken =
     (case idToken of
        None \<Rightarrow> Inl TokenRejected
      | Some tok \<Rightarrow>
     (case it_Claims tok of
        None \<Rightarrow> Inl UnreadableClaims
      | Some claims \<Rightarrow>
     (let ti = \<lparr>ti_Scopes = scopesFromClaims claims, ti_Expiration = it_Expiry tok,
                ti_UserID = stringClaim claims (ve_userClaim v), ti_Groups = None\<rparr>;
          iat = time_claim claims ''iat'';
          nbf = time_claim claims ''nbf''
      in
      if ti_UserID ti = '''' then Inl (UserClaimAbsent (ve_userClaim v))
      else if (case nbf of Some notBefore \<Rightarrow> now + ve_clockSkew v < notBefore | None \<Rightarrow> False)
      then Inl (NotValidYet (the nbf))
      else if ve_maxTokenAge v > 0 \<and> iat = None then Inl IatAbsent
      else if ve_maxTokenAge v > 0 \<and> the iat > now + ve_clockSkew v then Inl (IssuedInFuture (the iat))
      else if ve_maxTokenAge v > 0 \<and> now - the iat > ve_maxTokenAge v + ve_clockSkew v then Inl (TokenTooOld (now - the iat))
      else if ve_groupsClaim v \<noteq> '''' then
        (case stringSliceClaim claims (ve_groupsClaim v) of
           None \<Rightarrow> Inl (GroupsClaimAbsent (ve_groupsClaim v))
         | Some groups \<Rightarrow> Inr (ti\<lparr>ti_Groups := Some groups\<rparr>))
      else Inr ti)))"

definition httpCaller :: "TokenInfo option \<Rightarrow> Caller" where
  "httpCaller ti =
     (case ti of
        None \<Rightarrow> \<lparr>cl_ID = '''', cl_Groups = None\<rparr>
      | Some t \<Rightarrow> \<lparr>cl_ID = ti_UserID t, cl_Groups = ti_Groups t\<rparr>)"

definition stdioCaller :: Caller where
  "stdioCaller = \<lparr>cl_ID = ''mcp-stdio'', cl_Groups = None\<rparr>"

section \<open>The MCP tools\<close>

text \<open>Go visits the fields in no fixed order; only which of several offending fields is named depends on it.\<close>

definition maxInputLen :: nat where
  "maxInputLen = 64 * 1024"

datatype input_error = FieldTooLong string | FieldHasNull string

fun validateInput :: "(string, string) gomap \<Rightarrow> input_error option" where
  "validateInput [] = None"
| "validateInput ((name, val) # rest) =
     (if length val > maxInputLen then Some (FieldTooLong name)
      else if CHR 0x00 \<in> set val then Some (FieldHasNull name)
      else validateInput rest)"

text \<open>A tool answers with an error text, or with a text and a structured output.\<close>

datatype 'o tool_result = ToolError string | ToolOutput string 'o

text \<open>The texts of the errors: of the input check, of the engine, of the sessions and of base64.\<close>

record tool_text =
  tt_input :: "input_error \<Rightarrow> string"
  tt_broker :: "broker_error \<Rightarrow> string"
  tt_session :: "session_error \<Rightarrow> string"
  tt_base64 :: string

record executeInput =
  xi_Server :: string
  xi_Command :: string
  xi_TTLSeconds :: int
  xi_Sudo :: bool
  xi_SudoUser :: string
  xi_PTY :: bool
  xi_DryRun :: bool

record executeOutput =
  xu_Stdout :: string
  xu_Stderr :: string
  xu_ExitCode :: int
  xu_Serial :: "64 word"
  xu_Warnings :: "string list"

definition zero_output :: executeOutput where
  "zero_output = \<lparr>xu_Stdout = '''', xu_Stderr = '''', xu_ExitCode = 0, xu_Serial = 0, xu_Warnings = []\<rparr>"

abbreviation newline :: string where
  "newline \<equiv> [CHR 0x0A]"

text \<open>\<open>reason\<close> is the text of the error a denied decision carries.\<close>

definition renderDecision :: "(sign_error \<Rightarrow> string) \<Rightarrow> DecisionInfo \<Rightarrow> string" where
  "renderDecision reason d =
     (if di_Allowed d
      then ''[dry-run] ALLOWED'' @ (if di_RequireApproval d then '' (requires human approval before executing)'' else '''')
      else ''[dry-run] DENIED'' @ (case di_Reason d of None \<Rightarrow> '''' | Some err \<Rightarrow> if reason err = '''' then '''' else '': '' @ reason err)) @
     (if di_MatchedRule d = '''' then '''' else newline @ ''rule: '' @ di_MatchedRule d) @
     (if di_Warning d = '''' then '''' else newline @ ''warning: '' @ di_Warning d) @
     (if di_ForceCommand d = '''' then '''' else newline @ ''force-command: '' @ di_ForceCommand d) @
     (if di_TTLSeconds d > 0 then newline @ ''ttl: '' @ Itoa (di_TTLSeconds d) @ ''s'' else '''')"

definition renderResult :: "executeOutput \<Rightarrow> string" where
  "renderResult out =
     xu_Stdout out @ (if xu_Stderr out = '''' then '''' else newline @ ''[stderr]'' @ newline @ xu_Stderr out) @
     concat (map (\<lambda>w. newline @ ''[warning] '' @ w) (xu_Warnings out)) @
     newline @ ''[exit='' @ Itoa (xu_ExitCode out) @ '' serial='' @ Itoa (uint (xu_Serial out)) @ '']''"

definition output_of :: "Result \<Rightarrow> executeOutput" where
  "output_of res =
     \<lparr>xu_Stdout = re_Stdout res, xu_Stderr = re_Stderr res, xu_ExitCode = re_ExitCode res, xu_Serial = re_Serial res,
      xu_Warnings = re_Warnings res\<rparr>"

definition ssh_execute ::
    "tool_text \<Rightarrow> (sign_error \<Rightarrow> string) \<Rightarrow> engine_ctx \<Rightarrow> Caller \<Rightarrow> executeInput \<Rightarrow> engine \<Rightarrow> executeOutput tool_result \<times> engine" where
  "ssh_execute tt reason cx caller inp e =
     (case validateInput [(''server'', xi_Server inp), (''command'', xi_Command inp), (''sudo_user'', xi_SudoUser inp)] of
        Some err \<Rightarrow> (ToolError (tt_input tt err), e)
      | None \<Rightarrow>
          let opts = \<lparr>xo_Sudo = xi_Sudo inp, xo_SudoUser = xi_SudoUser inp, xo_PTY = xi_PTY inp, xo_DryRun = xi_DryRun inp,
                      xo_Stdin = '''', xo_FileTransfer = False\<rparr> in
          (case Execute cx caller (xi_Server inp) (xi_Command inp) (xi_TTLSeconds inp) opts e of
             (Inl err, e) \<Rightarrow> (ToolError (tt_broker tt err), e)
           | (Inr res, e) \<Rightarrow>
               (case re_DryRun res of
                  Some d \<Rightarrow> (ToolOutput (renderDecision reason d) zero_output, e)
                | None \<Rightarrow> (ToolOutput (renderResult (output_of res)) (output_of res), e))))"

fun list_line :: "ServerInfo \<Rightarrow> string" where
  "list_line s =
     si_Name s @ '' (sudo='' @ (if si_AllowSudo s then ''true'' else ''false'') @
     '' pty='' @ (if si_AllowPTY s then ''true'' else ''false'') @
     '' file_transfer='' @ (if si_AllowFileTransfer s then ''true'' else ''false'') @
     (if si_Jump s \<noteq> '''' then '' via='' @ si_Jump s else '''') @ '')'' @ newline"

definition ssh_list_servers :: "Caller \<Rightarrow> engine \<Rightarrow> ServerInfo list tool_result" where
  "ssh_list_servers caller e =
     (let infos = ServerInfos e caller in ToolOutput (concat (map list_line infos)) infos)"

record sessionOpenInput =
  so_Server :: string
  so_Mode :: string
  so_TTLSeconds :: int
  so_Sudo :: bool
  so_SudoUser :: string

definition ssh_session_open ::
    "tool_text \<Rightarrow> session_ctx \<Rightarrow> Caller \<Rightarrow> sessionOpenInput \<Rightarrow> broker_state \<Rightarrow> (string \<times> 64 word) tool_result \<times> broker_state" where
  "ssh_session_open tt sx caller inp b =
     (case validateInput [(''server'', so_Server inp), (''mode'', so_Mode inp), (''sudo_user'', so_SudoUser inp)] of
        Some err \<Rightarrow> (ToolError (tt_input tt err), b)
      | None \<Rightarrow>
          let opts = \<lparr>xo_Sudo = so_Sudo inp, xo_SudoUser = so_SudoUser inp, xo_PTY = False, xo_DryRun = False,
                      xo_Stdin = '''', xo_FileTransfer = False\<rparr> in
          (case OpenSession sx caller (so_Server inp) (so_Mode inp) (so_TTLSeconds inp) opts b of
             (Inl err, b) \<Rightarrow> (ToolError (tt_session tt err), b)
           | (Inr (sid, serial), b) \<Rightarrow>
               (ToolOutput (''session_id='' @ sid @ '' serial='' @ Itoa (uint serial)) (sid, serial), b)))"

definition ssh_session_exec ::
    "tool_text \<Rightarrow> session_ctx \<Rightarrow> Caller \<Rightarrow> string \<Rightarrow> string \<Rightarrow> broker_state \<Rightarrow> (executeOutput tool_result \<times> broker_state) option" where
  "ssh_session_exec tt sx caller sessionID command b =
     (case validateInput [(''session_id'', sessionID), (''command'', command)] of
        Some err \<Rightarrow> Some (ToolError (tt_input tt err), b)
      | None \<Rightarrow>
          (case SessionExec sx caller sessionID command b of
             None \<Rightarrow> None
           | Some (Inl err, b) \<Rightarrow> Some (ToolError (tt_session tt err), b)
           | Some (Inr res, b) \<Rightarrow> Some (ToolOutput (renderResult (output_of res)) (output_of res), b)))"

definition ssh_session_close :: "tool_text \<Rightarrow> Caller \<Rightarrow> string \<Rightarrow> broker_state \<Rightarrow> bool tool_result \<times> broker_state" where
  "ssh_session_close tt caller sessionID b =
     (case validateInput [(''session_id'', sessionID)] of
        Some err \<Rightarrow> (ToolError (tt_input tt err), b)
      | None \<Rightarrow>
          (case CloseSession caller sessionID b of
             (Some err, b) \<Rightarrow> (ToolError (tt_session tt err), b)
           | (None, b) \<Rightarrow> (ToolOutput ''closed'' True, b)))"

record putFileInput =
  pi_Server :: string
  pi_Path :: string
  pi_Content :: string
  pi_ContentBase64 :: bool
  pi_Mode :: string
  pi_TTLSeconds :: int

record putFileOutput =
  pu_BytesWritten :: int
  pu_SHA256 :: string
  pu_Serial :: "64 word"
  pu_Warnings :: "string list"

definition put_content :: "putFileInput \<Rightarrow> string option" where
  "put_content inp = (if pi_ContentBase64 inp then DecodeString (pi_Content inp) else Some (pi_Content inp))"

definition ssh_put_file :: "tool_text \<Rightarrow> engine_ctx \<Rightarrow> Caller \<Rightarrow> putFileInput \<Rightarrow> engine \<Rightarrow> putFileOutput tool_result \<times> engine" where
  "ssh_put_file tt cx caller inp e =
     (case validateInput [(''server'', pi_Server inp), (''path'', pi_Path inp), (''mode'', pi_Mode inp)] of
        Some err \<Rightarrow> (ToolError (tt_input tt err), e)
      | None \<Rightarrow>
     (case put_content inp of
        None \<Rightarrow> (ToolError (''invalid base64 content: '' @ tt_base64 tt), e)
      | Some content \<Rightarrow>
     (case PutFile cx caller (pi_Server inp) (pi_Path inp) content (pi_Mode inp) (pi_TTLSeconds inp) e of
        (Inl err, e) \<Rightarrow> (ToolError (tt_broker tt err), e)
      | (Inr res, e) \<Rightarrow>
          (ToolOutput (''wrote '' @ Itoa (ft_Size res) @ '' bytes to '' @ pi_Path inp @ '' (sha256='' @ ft_SHA256 res @ '') [serial='' @
             Itoa (uint (ft_Serial res)) @ '']'')
             \<lparr>pu_BytesWritten = ft_Size res, pu_SHA256 = ft_SHA256 res, pu_Serial = ft_Serial res, pu_Warnings = ft_Warnings res\<rparr>, e))))"

record getFileInput =
  gi_Server :: string
  gi_Path :: string
  gi_MaxBytes :: int
  gi_TTLSeconds :: int

record getFileOutput =
  gu_Content :: string
  gu_Base64 :: bool
  gu_Size :: int
  gu_SHA256 :: string
  gu_Serial :: "64 word"
  gu_Warnings :: "string list"

definition ssh_get_file :: "tool_text \<Rightarrow> engine_ctx \<Rightarrow> Caller \<Rightarrow> getFileInput \<Rightarrow> engine \<Rightarrow> getFileOutput tool_result \<times> engine" where
  "ssh_get_file tt cx caller inp e =
     (case validateInput [(''server'', gi_Server inp), (''path'', gi_Path inp)] of
        Some err \<Rightarrow> (ToolError (tt_input tt err), e)
      | None \<Rightarrow>
     (case GetFile cx caller (gi_Server inp) (gi_Path inp) (gi_MaxBytes inp) (gi_TTLSeconds inp) e of
        (Inl err, e) \<Rightarrow> (ToolError (tt_broker tt err), e)
      | (Inr res, e) \<Rightarrow>
          let data = (case ft_Content res of None \<Rightarrow> '''' | Some d \<Rightarrow> d);
              note = Itoa (ft_Size res) @ '' bytes'';
              tail = '' sha256='' @ ft_SHA256 res @ '' serial='' @ Itoa (uint (ft_Serial res)) @ '']'';
              out = (\<lambda>content b64. \<lparr>gu_Content = content, gu_Base64 = b64, gu_Size = ft_Size res, gu_SHA256 = ft_SHA256 res,
                       gu_Serial = ft_Serial res, gu_Warnings = ft_Warnings res\<rparr>)
          in if valid_utf8 data \<and> CHR 0x00 \<notin> set data
             then (ToolOutput (data @ newline @ ''['' @ note @ tail) (out data False), e)
             else (ToolOutput (''[binary content: '' @ note @ '', returned base64-encoded;'' @ tail) (out (EncodeToString data) True), e)))"

section \<open>The mTLS endpoint\<close>

record runRequest =
  rq_Host :: string
  rq_Command :: string
  rq_TTLSeconds :: int
  rq_Sudo :: bool
  rq_SudoUser :: string
  rq_PTY :: bool

datatype run_response = RunError int string | RunOK executeOutput

text \<open>The categories of \<open>errors.Is\<close>: 400, 404, 502 without detail, and 403 for anything else.\<close>

definition classifyError :: "(broker_error \<Rightarrow> string) \<Rightarrow> broker_error \<Rightarrow> int \<times> string" where
  "classifyError err_text err =
     (case err of
        BadRequest _ \<Rightarrow> (400, err_text err)
      | UnknownHost _ \<Rightarrow> (404, err_text err)
      | RefreshFailed _ \<Rightarrow> (502, ''upstream failure'')
      | SignerDown _ \<Rightarrow> (502, ''upstream failure'')
      | ConnectionFailed _ \<Rightarrow> (502, ''upstream failure'')
      | ExecutionFailed _ \<Rightarrow> (502, ''upstream failure'')
      | TransferFailed _ _ \<Rightarrow> (502, ''upstream failure'')
      | _ \<Rightarrow> (403, err_text err))"

text \<open>\<open>body\<close> is the decoded request, \<open>None\<close> when it is too large or not valid.\<close>

definition ssh_run ::
    "(broker_error \<Rightarrow> string) \<Rightarrow> engine_ctx \<Rightarrow> bool \<Rightarrow> string option \<Rightarrow> runRequest option \<Rightarrow> engine \<Rightarrow> run_response \<times> engine" where
  "ssh_run err_text cx is_post peer body e =
     (if \<not> is_post then (RunError 405 ''method not allowed'', e)
      else case CallerCN peer of
        None \<Rightarrow> (RunError 401 ''unauthenticated'', e)
      | Some caller \<Rightarrow>
     (case body of
        None \<Rightarrow> (RunError 400 ''invalid request'', e)
      | Some req \<Rightarrow>
     (case Execute cx \<lparr>cl_ID = caller, cl_Groups = None\<rparr> (rq_Host req) (rq_Command req) (rq_TTLSeconds req)
             \<lparr>xo_Sudo = rq_Sudo req, xo_SudoUser = rq_SudoUser req, xo_PTY = rq_PTY req, xo_DryRun = False, xo_Stdin = '''',
              xo_FileTransfer = False\<rparr> e of
        (Inl err, e) \<Rightarrow> (case classifyError err_text err of (status, msg) \<Rightarrow> (RunError status msg, e))
      | (Inr res, e) \<Rightarrow> (RunOK (output_of res), e))))"

section \<open>Lemmas\<close>

lemma validateInput_None:
  "validateInput kvs = None \<longleftrightarrow> (\<forall>(name, val)\<in>set kvs. length val \<le> maxInputLen \<and> CHR 0x00 \<notin> set val)"
  by (induction kvs rule: validateInput.induct) auto

text \<open>What a verified token guarantees.\<close>

lemma Verify_Inr:
  assumes "Verify v now tok = Inr ti"
  obtains t claims where "tok = Some t" and "it_Claims t = Some claims" and "ti_UserID ti = stringClaim claims (ve_userClaim v)"
    and "ti_UserID ti \<noteq> ''''" and "ti_Groups ti = (if ve_groupsClaim v = '''' then None else stringSliceClaim claims (ve_groupsClaim v))"
    and "ve_groupsClaim v \<noteq> '''' \<Longrightarrow> ti_Groups ti \<noteq> None"
    and "\<And>nbf. time_claim claims ''nbf'' = Some nbf \<Longrightarrow> nbf \<le> now + ve_clockSkew v"
    and "ve_maxTokenAge v > 0 \<Longrightarrow> \<exists>iat. time_claim claims ''iat'' = Some iat \<and> iat \<le> now + ve_clockSkew v \<and>
           now - iat \<le> ve_maxTokenAge v + ve_clockSkew v"
proof -
  from assms obtain t claims where t: "tok = Some t" "it_Claims t = Some claims"
    by (auto simp: Verify_def split: option.splits)
  let ?late = "\<lambda>nbf. case nbf of Some notBefore \<Rightarrow> now + ve_clockSkew v < notBefore | None \<Rightarrow> False"
  let ?iat = "time_claim claims ''iat''"
  have u: "stringClaim claims (ve_userClaim v) \<noteq> ''''" using assms t by (auto simp: Verify_def)
  have n: "\<not> ?late (time_claim claims ''nbf'')" using assms t u by (auto simp: Verify_def)
  have a: "ve_maxTokenAge v > 0 \<longrightarrow> ?iat \<noteq> None"
  proof (intro impI notI)
    assume "ve_maxTokenAge v > 0" "?iat = None"
    with assms t u n show False by (simp add: Verify_def Let_def)
  qed
  have b: "\<not> (ve_maxTokenAge v > 0 \<and> the ?iat > now + ve_clockSkew v)" using assms t u n a by (auto simp: Verify_def)
  have c: "\<not> (ve_maxTokenAge v > 0 \<and> now - the ?iat > ve_maxTokenAge v + ve_clockSkew v)"
    using assms t u n a b by (auto simp: Verify_def)
  have r: "Inr ti = (if ve_groupsClaim v \<noteq> '''' then
        (case stringSliceClaim claims (ve_groupsClaim v) of
           None \<Rightarrow> Inl (GroupsClaimAbsent (ve_groupsClaim v))
         | Some groups \<Rightarrow> Inr \<lparr>ti_Scopes = scopesFromClaims claims, ti_Expiration = it_Expiry t,
                ti_UserID = stringClaim claims (ve_userClaim v), ti_Groups = Some groups\<rparr>)
      else Inr \<lparr>ti_Scopes = scopesFromClaims claims, ti_Expiration = it_Expiry t,
                ti_UserID = stringClaim claims (ve_userClaim v), ti_Groups = None\<rparr>)"
    using assms t u n a b c by (cases "ve_maxTokenAge v > 0") (auto simp: Verify_def Let_def split: option.splits if_splits)
  show thesis
  proof (rule that [OF t])
    show "ve_maxTokenAge v > 0 \<Longrightarrow> \<exists>iat. ?iat = Some iat \<and> iat \<le> now + ve_clockSkew v \<and> now - iat \<le> ve_maxTokenAge v + ve_clockSkew v"
      using a b c by auto
    show "nbf \<le> now + ve_clockSkew v" if "time_claim claims ''nbf'' = Some nbf" for nbf
      using n that by (simp add: not_less)
  qed (use r u in \<open>auto split: if_splits option.splits\<close>)
qed

lemma verified_caller:
  assumes "Verify v now tok = Inr ti" and "ve_groupsClaim v \<noteq> ''''"
  shows "cl_ID (httpCaller (Some ti)) \<noteq> '''' \<and> (\<exists>g. cl_Groups (httpCaller (Some ti)) = Some g)"
  by (rule Verify_Inr [OF assms(1)]) (use assms(2) in \<open>auto simp: httpCaller_def\<close>)

text \<open>The hosts a caller with groups is shown.\<close>

lemma ServerInfos_names:
  "n \<in> si_Name ` set (ServerInfos e c) \<longleftrightarrow>
     (\<exists>h. (n, h) \<in> set (host_view e) \<and> (\<forall>g. cl_Groups c = Some g \<longrightarrow> set (hi_Groups h) \<inter> set g \<noteq> {}))"
proof -
  let ?P = "\<lambda>(name, h). case cl_Groups c of None \<Rightarrow> True | Some g \<Rightarrow> groupsIntersect (hi_Groups h) g"
  have "si_Name ` set (ServerInfos e c) = fst ` set (filter ?P (host_view e))"
    by (simp add: ServerInfos_def image_image case_prod_unfold)
  moreover have g: "?P (n, h) \<longleftrightarrow> (\<forall>g. cl_Groups c = Some g \<longrightarrow> set (hi_Groups h) \<inter> set g \<noteq> {})" for h
    by (auto simp: groupsIntersect_iff split: option.splits)
  moreover have "n \<in> fst ` set (filter ?P xs) \<longleftrightarrow> (\<exists>h. (n, h) \<in> set xs \<and> ?P (n, h))" for xs :: "(string, HostInfo) gomap"
    by force
  ultimately show ?thesis unfolding g by simp
qed

lemma ServerInfos_sorted: "sorted (map si_Name (ServerInfos e c))"
  by (simp add: ServerInfos_def)

lemma ssh_execute_output:
  assumes "ssh_execute tt reason cx caller inp e = (ToolOutput tx out, e')" and "\<not> xi_DryRun inp"
  obtains res opts where "Execute cx caller (xi_Server inp) (xi_Command inp) (xi_TTLSeconds inp) opts e = (Inr res, e')"
    and "opts = \<lparr>xo_Sudo = xi_Sudo inp, xo_SudoUser = xi_SudoUser inp, xo_PTY = xi_PTY inp, xo_DryRun = xi_DryRun inp,
           xo_Stdin = '''', xo_FileTransfer = False\<rparr>"
  using assms by (auto simp: ssh_execute_def Let_def split: option.splits prod.splits sum.splits)

section \<open>Properties\<close>

text \<open>
  C32: a verified token has an identity and is fresh. When \<open>Verify\<close> accepts, the token passed the
  library's checks, its user claim is a non-empty string and becomes the caller; with a groups claim
  configured the caller carries its groups, never none; a \<open>nbf\<close> claim is not further in the future
  than the tolerated skew; and under an age limit the token has an \<open>iat\<close> that is neither in the
  future beyond the skew nor older than the limit and the skew.
\<close>

theorem verified_token_fresh:
  assumes "Verify v now tok = Inr ti"
  shows "\<exists>t claims. tok = Some t \<and> it_Claims t = Some claims \<and>
     get claims (ve_userClaim v) = Some (ClaimString (ti_UserID ti)) \<and> ti_UserID ti \<noteq> '''' \<and>
     cl_ID (httpCaller (Some ti)) = ti_UserID ti \<and>
     (ve_groupsClaim v \<noteq> '''' \<longrightarrow> (\<exists>g. cl_Groups (httpCaller (Some ti)) = Some g \<and> stringSliceClaim claims (ve_groupsClaim v) = Some g)) \<and>
     (\<forall>nbf. time_claim claims ''nbf'' = Some nbf \<longrightarrow> nbf \<le> now + ve_clockSkew v) \<and>
     (ve_maxTokenAge v > 0 \<longrightarrow> (\<exists>iat. time_claim claims ''iat'' = Some iat \<and> iat \<le> now + ve_clockSkew v \<and>
        now - iat \<le> ve_maxTokenAge v + ve_clockSkew v))"
proof (rule Verify_Inr [OF assms])
  fix t claims
  assume a: "tok = Some t" "it_Claims t = Some claims" "ti_UserID ti = stringClaim claims (ve_userClaim v)" "ti_UserID ti \<noteq> ''''"
    "ti_Groups ti = (if ve_groupsClaim v = '''' then None else stringSliceClaim claims (ve_groupsClaim v))"
    "ve_groupsClaim v \<noteq> '''' \<Longrightarrow> ti_Groups ti \<noteq> None"
    and b: "\<And>nbf. time_claim claims ''nbf'' = Some nbf \<Longrightarrow> nbf \<le> now + ve_clockSkew v"
    "ve_maxTokenAge v > 0 \<Longrightarrow> \<exists>iat. time_claim claims ''iat'' = Some iat \<and> iat \<le> now + ve_clockSkew v \<and>
           now - iat \<le> ve_maxTokenAge v + ve_clockSkew v"
  have "get claims (ve_userClaim v) = Some (ClaimString (ti_UserID ti))"
    using a(3,4) by (auto simp: stringClaim_def split: option.splits claim.splits)
  with a b show ?thesis by (auto simp: httpCaller_def)
qed

text \<open>
  C33: an OIDC user stays within its groups. With a groups claim configured, in single-binary mode, a
  command that \<open>ssh_execute\<close> ran for a verified token ran on a host that shares a group with the
  token's claim, and that \<open>ssh_list_servers\<close> lists for that user.
\<close>

theorem oidc_user_confined:
  assumes "Verify v now tok = Inr ti" and "ve_groupsClaim v \<noteq> ''''"
    and "buildSigner re defaultCA groupCAs cfg maxTTL = Inr l" and "map_ok (bk_Hosts cfg)"
    and "ec_sign cx = local_sign re sh env l" and "en_cfg e = cfg" and "\<not> en_remote e"
    and "ssh_execute tt reason cx (httpCaller (Some ti)) inp e = (ToolOutput tx out, e')"
    and "\<not> xi_DryRun inp" and "xi_Server inp \<noteq> ''''"
  shows "\<exists>g hc. ti_Groups ti = Some g \<and> get (bk_Hosts cfg) (xi_Server inp) = Some hc \<and> set (hc_Groups hc) \<inter> set g \<noteq> {} \<and>
     xi_Server inp \<in> si_Name ` set (ServerInfos e (httpCaller (Some ti)))"
proof (rule ssh_execute_output [OF assms(8,9)])
  fix res opts
  assume x: "Execute cx (httpCaller (Some ti)) (xi_Server inp) (xi_Command inp) (xi_TTLSeconds inp) opts e = (Inr res, e')"
    and opts: "opts = \<lparr>xo_Sudo = xi_Sudo inp, xo_SudoUser = xi_SudoUser inp, xo_PTY = xi_PTY inp, xo_DryRun = xi_DryRun inp,
           xo_Stdin = '''', xo_FileTransfer = False\<rparr>"
  from verified_caller [OF assms(1,2)] obtain g where g: "cl_Groups (httpCaller (Some ti)) = Some g" by blast
  have dry: "\<not> xo_DryRun opts" using opts assms(9) by simp
  from local_execution_admitted [OF assms(3,4,5) x dry assms(10)] g obtain hc where
    hc: "get (bk_Hosts cfg) (xi_Server inp) = Some hc" "set (hc_Groups hc) \<inter> set g \<noteq> {}" by auto
  have "(xi_Server inp, local_info hc) \<in> set (host_view e)"
    using get_in_set [OF hc(1)] assms(6,7) by (force simp: host_view_def)
  moreover have "set (hi_Groups (local_info hc)) \<inter> set g \<noteq> {}" using hc(2) by (simp add: local_info_def)
  ultimately have "xi_Server inp \<in> si_Name ` set (ServerInfos e (httpCaller (Some ti)))"
    using g unfolding ServerInfos_names by auto
  moreover have "ti_Groups ti = Some g" using g by (simp add: httpCaller_def)
  ultimately show ?thesis using hc by blast
qed

text \<open>
  File content survives the tools. Whatever bytes \<open>ssh_get_file\<close> read, text or binary, its output
  fed into \<open>ssh_put_file\<close>, with the flag for base64 as returned, uploads exactly these bytes; and
  size, digest and serial are those of the transfer.
\<close>

theorem file_content_roundtrip:
  assumes "ssh_get_file tt cx caller inp e = (ToolOutput tx out, e')"
    and "pi_Content back = gu_Content out" and "pi_ContentBase64 back = gu_Base64 out"
  shows "\<exists>r data. GetFile cx caller (gi_Server inp) (gi_Path inp) (gi_MaxBytes inp) (gi_TTLSeconds inp) e = (Inr r, e') \<and>
     ft_Content r = Some data \<and> put_content back = Some data \<and> gu_Size out = ft_Size r \<and> gu_SHA256 out = ft_SHA256 r \<and>
     gu_Serial out = ft_Serial r"
proof -
  from assms(1) obtain r where g: "GetFile cx caller (gi_Server inp) (gi_Path inp) (gi_MaxBytes inp) (gi_TTLSeconds inp) e = (Inr r, e')"
    by (auto simp: ssh_get_file_def Let_def split: option.splits prod.splits sum.splits if_splits)
  then obtain data where d: "ft_Content r = Some data" by (auto elim: GetFile_Inr)
  have v: "validateInput [(''server'', gi_Server inp), (''path'', gi_Path inp)] = None"
    using assms(1) by (cases "validateInput [(''server'', gi_Server inp), (''path'', gi_Path inp)]")
      (simp_all add: ssh_get_file_def del: validateInput.simps)
  show ?thesis
    using assms g d v Decode_Encode [of data]
    by (auto simp: ssh_get_file_def put_content_def Let_def simp del: validateInput.simps split: if_splits)
qed

section \<open>Samples\<close>

definition sample_tt :: tool_text where
  "sample_tt = \<lparr>tt_input = (\<lambda>_. ''input''), tt_broker = (\<lambda>_. ''broker''), tt_session = (\<lambda>_. ''session''), tt_base64 = ''base64''\<rparr>"

definition sample_verifier :: Verifier where
  "sample_verifier = \<lparr>ve_userClaim = ''sub'', ve_groupsClaim = ''groups'', ve_maxTokenAge = 3600 * second_ns, ve_clockSkew = minute_ns\<rparr>"

definition sample_token :: IDToken where
  "sample_token = \<lparr>it_Expiry = 5000 * second_ns,
     it_Claims = Some [(''sub'', ClaimString ''alice''), (''iat'', ClaimNumber 1000), (''groups'', ClaimList [ClaimString ''prod''])]\<rparr>"

definition sample_ti :: TokenInfo where
  "sample_ti = \<lparr>ti_Scopes = None, ti_Expiration = 5000 * second_ns, ti_UserID = ''alice'', ti_Groups = Some [''prod'']\<rparr>"

lemma sample_verified: "Verify sample_verifier (2000 * second_ns) (Some sample_token) = Inr sample_ti"
  by code_simp

theorem verified_token_fresh_witness:
  "\<exists>claims g. it_Claims sample_token = Some claims \<and> stringSliceClaim claims ''groups'' = Some g \<and> cl_Groups (httpCaller (Some sample_ti)) = Some g"
  using verified_token_fresh [OF sample_verified] by (auto simp: sample_verifier_def)

definition sample_run :: executeInput where
  "sample_run = \<lparr>xi_Server = ''web01'', xi_Command = ''uptime'', xi_TTLSeconds = 60, xi_Sudo = False, xi_SudoUser = '''',
     xi_PTY = False, xi_DryRun = False\<rparr>"

lemma sample_ssh_execute: "\<exists>tx out e'. ssh_execute sample_tt (\<lambda>_. '''') sample_cx (httpCaller (Some sample_ti)) sample_run sample_broker = (ToolOutput tx out, e')"
proof -
  have c: "httpCaller (Some sample_ti) = sample_caller" by (simp add: httpCaller_def sample_ti_def sample_caller_def)
  have v: "validateInput [(''server'', ''web01''), (''command'', ''uptime''), (''sudo_user'', [])] = None"
    by (simp add: maxInputLen_def)
  have r: "xi_Server sample_run = ''web01''" "xi_Command sample_run = ''uptime''" "xi_TTLSeconds sample_run = 60" "xi_SudoUser sample_run = ''''"
    "xi_Sudo sample_run = False" "xi_PTY sample_run = False" "xi_DryRun sample_run = False"
    by (simp_all add: sample_run_def)
  have "\<lparr>xo_Sudo = False, xo_SudoUser = '''', xo_PTY = False, xo_DryRun = False, xo_Stdin = '''', xo_FileTransfer = False\<rparr> = sample_opts"
    by (simp add: sample_opts_def)
  with sample_Execute show ?thesis unfolding ssh_execute_def c r v Let_def by auto
qed

theorem oidc_user_confined_witness:
  "\<exists>hc. get (bk_Hosts sample_cfg) ''web01'' = Some hc \<and> set (hc_Groups hc) \<inter> {''prod''} \<noteq> {}"
proof -
  obtain tx out e' where x: "ssh_execute sample_tt (\<lambda>_. '''') sample_cx (httpCaller (Some sample_ti)) sample_run sample_broker = (ToolOutput tx out, e')"
    using sample_ssh_execute by blast
  have "ve_groupsClaim sample_verifier \<noteq> ''''" "map_ok (bk_Hosts sample_cfg)"
    "ec_sign sample_cx = local_sign sample_engine sample_sh (\<lambda>i. sample_env\<lparr>env_now := 100000000000\<rparr>) sample_signer"
    "en_cfg sample_broker = sample_cfg" "\<not> en_remote sample_broker"
    by (simp_all add: sample_verifier_def sample_cfg_def map_ok_def sample_cx_def sample_broker_def NewEngine_def Let_def)
  from oidc_user_confined [OF sample_verified this(1) sample_signer_built this(2-5) x] show ?thesis
    by (auto simp: sample_run_def sample_ti_def)
qed

theorem file_content_roundtrip_witness:
  "\<exists>out. fst (ssh_get_file sample_tt (file_cx [[CHR 0xFF, CHR 0x01]]) sample_caller
       \<lparr>gi_Server = ''b'', gi_Path = ''/f'', gi_MaxBytes = 0, gi_TTLSeconds = 60\<rparr> (file_broker 4)) = ToolOutput (fst out) (snd out) \<and>
     put_content \<lparr>pi_Server = ''b'', pi_Path = ''/g'', pi_Content = gu_Content (snd out), pi_ContentBase64 = gu_Base64 (snd out),
       pi_Mode = '''', pi_TTLSeconds = 60\<rparr> = Some [CHR 0xFF, CHR 0x01]"
proof -
  let ?inp = "\<lparr>gi_Server = ''b'', gi_Path = ''/f'', gi_MaxBytes = 0, gi_TTLSeconds = 60\<rparr>" and ?out = "[[CHR 0xFF, CHR 0x01]]"
  have o: "lw_output (lw_copy ?out lw_new) = [CHR 0xFF, CHR 0x01]" by (simp add: captured maxOutputBytes_def)
  have l: "get_limit (file_broker 4) 0 = 4"
    by (simp add: get_limit_def FileTransferMaxBytes_def file_broker_def NewEngine_def Let_def)
  from file_GetFile [of ?out 4] l o obtain r e' where
    g: "GetFile (file_cx ?out) sample_caller ''b'' ''/f'' 0 60 (file_broker 4) = (Inr r, e')" and d: "ft_Content r = Some [CHR 0xFF, CHR 0x01]" by auto
  obtain tx out where x: "ssh_get_file sample_tt (file_cx ?out) sample_caller ?inp (file_broker 4) = (ToolOutput tx out, e')"
    using g d by (cases "valid_utf8 [CHR 0xFF, CHR 0x01]") (auto simp: ssh_get_file_def maxInputLen_def Let_def)
  let ?again = "\<lparr>pi_Server = ''b'', pi_Path = ''/g'', pi_Content = gu_Content out, pi_ContentBase64 = gu_Base64 out, pi_Mode = '''', pi_TTLSeconds = 60\<rparr>"
  from file_content_roundtrip [OF x, of ?again] g d have "put_content ?again = Some [CHR 0xFF, CHR 0x01]" by auto
  with x show ?thesis by (intro exI [of _ "(tx, out)"]) simp
qed

end
