(* ===== verification/Redaction.thy ===== *)
theory Redaction
  imports Audit_Log GoStrings
begin

text \<open>
  Masking of secrets (\<open>src/internal/redact/redact.go\<close>, \<open>src/internal/redact/defaults.go\<close>) and the
  session recorder that applies it (\<open>src/internal/recording/recorder.go\<close>).

  The regular-expression library is an argument: whether a pattern compiles, the index of its group
  \<open>secret\<close>, and the matches in a text as lists of byte offsets, a pair for the match and one for each
  group, with -1 for a group that took no part.
\<close>

section \<open>Redaction rules\<close>

definition Marker :: string where
  "Marker = ''[REDACTED:''"

record Pattern =
  pa_Name :: string
  pa_Regex :: string

record redact_Config =
  rd_Patterns :: "Pattern list"
  rd_DisableDefaults :: bool

record regexp_lib =
  rx_Compile :: "string \<Rightarrow> bool"
  rx_SecretIndex :: "string \<Rightarrow> int"
  rx_FindAll :: "string \<Rightarrow> string \<Rightarrow> int list list"

text \<open>A compiled rule keeps its pattern in place of the compiled expression.\<close>

record redact_rule =
  rr_name :: string
  rr_re :: string
  rr_secretIdx :: int

text \<open>Backslash and quotes of the built-in expressions.\<close>

abbreviation bs :: string where "bs \<equiv> [CHR 0x5C]"
abbreviation dq :: string where "dq \<equiv> [CHR 0x22]"
abbreviation sq :: string where "sq \<equiv> [CHR 0x27]"

definition Defaults :: "Pattern list" where
  "Defaults =
    [\<lparr>pa_Name = ''flag-password'',
      pa_Regex = ''(?i)--?(?:password|passwd|pwd|pass|token|secret|api[-_]?key)[= ]+(?P<secret>'' @ dq @ ''[^'' @ dq @ '']+'' @ dq @ ''|'' @ sq @ ''[^'' @ sq @ '']+'' @ sq @ ''|[^'' @ bs @ ''s'' @ dq @ sq @ '']+)''\<rparr>,
     \<lparr>pa_Name = ''mysql-p-attached'',
      pa_Regex = ''(?i)'' @ bs @ ''b(?:mysql|mysqldump|mysqladmin|mariadb|mariadb-dump)'' @ bs @ ''b[^'' @ bs @ ''n|;&]*?'' @ bs @ ''s-p(?P<secret>[^'' @ bs @ ''s-][^'' @ bs @ ''s]*)''\<rparr>,
     \<lparr>pa_Name = ''env-assignment'',
      pa_Regex = ''(?i)'' @ bs @ ''b(?:[A-Z0-9]+_)*(?:PASSWORD|PASSWD|PWD|PASSPHRASE|SECRET|TOKEN|API_?KEY|ACCESS_?KEY|PRIVATE_?KEY|CREDENTIALS?|AUTH)(?:_[A-Z0-9]+)*=(?P<secret>'' @ dq @ ''[^'' @ dq @ '']+'' @ dq @ ''|'' @ sq @ ''[^'' @ sq @ '']+'' @ sq @ ''|[^'' @ bs @ ''s'' @ dq @ sq @ '']+)''\<rparr>,
     \<lparr>pa_Name = ''uri-userinfo'',
      pa_Regex = ''://[^/'' @ bs @ ''s:@]+:(?P<secret>[^@'' @ bs @ ''s/]+)@''\<rparr>,
     \<lparr>pa_Name = ''auth-header'',
      pa_Regex = ''(?i)'' @ bs @ ''b(?:authorization|proxy-authorization)'' @ bs @ ''b['' @ sq @ dq @ '']?'' @ bs @ ''s*[:=]'' @ bs @ ''s*['' @ sq @ dq @ '']?(?:bearer|basic|token)'' @ bs @ ''s+(?P<secret>[A-Za-z0-9+/=_.~-]+)''\<rparr>,
     \<lparr>pa_Name = ''curl-user'',
      pa_Regex = ''(?:^|'' @ bs @ ''s)(?:-u|--user)[= ]+[^'' @ bs @ ''s:]+:(?P<secret>'' @ dq @ ''[^'' @ dq @ '']+'' @ dq @ ''|'' @ sq @ ''[^'' @ sq @ '']+'' @ sq @ ''|[^'' @ bs @ ''s'' @ dq @ sq @ '']+)''\<rparr>,
     \<lparr>pa_Name = ''jwt'',
      pa_Regex = bs @ ''beyJ[A-Za-z0-9_-]{8,}'' @ bs @ ''.[A-Za-z0-9_-]{8,}'' @ bs @ ''.[A-Za-z0-9_-]{8,}'' @ bs @ ''b''\<rparr>,
     \<lparr>pa_Name = ''aws-key-id'',
      pa_Regex = bs @ ''b(?:AKIA|ASIA|ABIA|ACCA)[A-Z0-9]{16}'' @ bs @ ''b''\<rparr>,
     \<lparr>pa_Name = ''github-token'',
      pa_Regex = bs @ ''b(?:ghp|gho|ghu|ghs|ghr|github_pat)_[A-Za-z0-9_]{20,}'' @ bs @ ''b''\<rparr>,
     \<lparr>pa_Name = ''gitlab-token'',
      pa_Regex = bs @ ''bglpat-[A-Za-z0-9_-]{20,}'' @ bs @ ''b''\<rparr>,
     \<lparr>pa_Name = ''slack-token'',
      pa_Regex = bs @ ''bxox[baprs]-[A-Za-z0-9-]{10,}'' @ bs @ ''b''\<rparr>,
     \<lparr>pa_Name = ''private-key-block'',
      pa_Regex = ''-----BEGIN [A-Z0-9 ]*PRIVATE KEY-----(?s:.*?)(?:-----END [A-Z0-9 ]*PRIVATE KEY-----|'' @ bs @ ''z)''\<rparr>]"

text \<open>\<open>^[a-zA-Z0-9._-]{1,64}$\<close>\<close>

definition name_char :: "char \<Rightarrow> bool" where
  "name_char c \<longleftrightarrow> (let n = byte c in 97 \<le> n \<and> n \<le> 122 \<or> 65 \<le> n \<and> n \<le> 90 \<or> 48 \<le> n \<and> n \<le> 57 \<or> n \<in> {46, 95, 45})"

definition reValidName :: "string \<Rightarrow> bool" where
  "reValidName s \<longleftrightarrow> 1 \<le> length s \<and> length s \<le> 64 \<and> list_all name_char s"

datatype redact_error = InvalidRuleName nat string | InvalidRuleRegex string

fun compile_rules :: "regexp_lib \<Rightarrow> nat \<Rightarrow> Pattern list \<Rightarrow> redact_error + redact_rule list" where
  "compile_rules rx i [] = Inr []"
| "compile_rules rx i (p # pats) =
     (if \<not> reValidName (pa_Name p) then Inl (InvalidRuleName i (pa_Name p))
      else if \<not> rx_Compile rx (pa_Regex p) then Inl (InvalidRuleRegex (pa_Name p))
      else case compile_rules rx (Suc i) pats of
        Inl e \<Rightarrow> Inl e
      | Inr rules \<Rightarrow>
          Inr (\<lparr>rr_name = pa_Name p, rr_re = pa_Regex p, rr_secretIdx = rx_SecretIndex rx (pa_Regex p)\<rparr> # rules))"

text \<open>\<open>None\<close> is the nil redactor.\<close>

definition redact_New :: "regexp_lib \<Rightarrow> redact_Config option \<Rightarrow> redact_error + redact_rule list option" where
  "redact_New rx cfg =
     (let pats = (if cfg = None \<or> \<not> rd_DisableDefaults (the cfg) then Defaults else []) @
                 (case cfg of None \<Rightarrow> [] | Some c \<Rightarrow> rd_Patterns c)
      in if pats = [] then Inr None
         else case compile_rules rx 0 pats of Inl e \<Rightarrow> Inl e | Inr rules \<Rightarrow> Inr (Some rules))"

text \<open>The offsets a match asks to mask: the group when it took part, else the whole match.\<close>

definition candidate :: "int \<Rightarrow> int list \<Rightarrow> int \<times> int" where
  "candidate gi m =
     (if gi > 0 \<and> 2 * gi + 1 < int (length m) \<and> m ! nat (2 * gi) \<ge> 0
      then (m ! nat (2 * gi), m ! nat (2 * gi + 1)) else (m ! 0, m ! 1))"

fun apply_loop :: "redact_rule \<Rightarrow> string \<Rightarrow> int \<Rightarrow> int list list \<Rightarrow> string" where
  "apply_loop ru s lst [] = drop (nat lst) s"
| "apply_loop ru s lst (m # ms) =
     (let (start, stop) = candidate (rr_secretIdx ru) m in
      if start < lst then apply_loop ru s lst ms
      else if HasPrefix (drop (nat start) s) Marker then apply_loop ru s lst ms
      else take (nat (start - lst)) (drop (nat lst) s) @ Marker @ rr_name ru @ '']'' @ apply_loop ru s stop ms)"

definition apply_rule :: "regexp_lib \<Rightarrow> redact_rule \<Rightarrow> string \<Rightarrow> string" where
  "apply_rule rx ru s =
     (let ms = rx_FindAll rx (rr_re ru) s in if length ms = 0 then s else apply_loop ru s 0 ms)"

definition Redact :: "regexp_lib \<Rightarrow> redact_rule list option \<Rightarrow> string \<Rightarrow> string" where
  "Redact rx r s =
     (case r of None \<Rightarrow> s | Some rules \<Rightarrow> if s = '''' then s else fold (apply_rule rx) rules s)"

section \<open>The recorder\<close>

record Meta =
  mt_SessionID :: string
  mt_Caller :: string
  mt_Host :: string
  mt_Serial :: "64 word"
  mt_Term :: string
  mt_Width :: int
  mt_Height :: int
  mt_StartedAt :: "time option"

record cast_header =
  ch_Version :: int
  ch_Width :: int
  ch_Height :: int
  ch_Timestamp :: int
  ch_Title :: string
  ch_Term :: string
  ch_SessionID :: string
  ch_Caller :: string
  ch_Host :: string
  ch_Serial :: "64 word"
  ch_StartedAt :: time

definition DefaultMaxBytes :: int where
  "DefaultMaxBytes = 100 * 1024 * 1024"

text \<open>\<open>rc_file\<close> is the content of the file, which outlives the handle.\<close>

record Recorder =
  rc_open :: bool
  rc_file :: string
  rc_redactor :: "(string \<Rightarrow> string) option"
  rc_written :: int
  rc_maxBytes :: int
  rc_capped :: bool

text \<open>
  The environment of a call: the JSON of an event at this moment, and for a text handed to the file
  the number of bytes that reach it and whether the write reports an error.
\<close>

record rec_io =
  ri_event :: "string \<Rightarrow> string \<Rightarrow> string"
  ri_write :: "string \<Rightarrow> nat \<times> bool"

definition header_of :: "Meta \<Rightarrow> time \<Rightarrow> cast_header" where
  "header_of m wall =
     (let now = (case mt_StartedAt m of None \<Rightarrow> wall | Some t \<Rightarrow> t) in
      \<lparr>ch_Version = 2, ch_Width = (if mt_Width m \<le> 0 then 220 else mt_Width m),
       ch_Height = (if mt_Height m \<le> 0 then 40 else mt_Height m), ch_Timestamp = now div second_ns,
       ch_Title = ''session '' @ mt_SessionID m @ [CHR '' '', CHR 0xE2, CHR 0x80, CHR 0x94, CHR '' ''] @ mt_Caller m @ ''@'' @ mt_Host m,
       ch_Term = (if mt_Term m = '''' then ''xterm-256color'' else mt_Term m),
       ch_SessionID = mt_SessionID m, ch_Caller = mt_Caller m, ch_Host = mt_Host m, ch_Serial = mt_Serial m, ch_StartedAt = now\<rparr>)"

datatype open_error = CreateFailed | HeaderWriteFailed

definition rec_Open ::
    "bool \<Rightarrow> (cast_header \<Rightarrow> string) \<Rightarrow> rec_io \<Rightarrow> time \<Rightarrow> Meta \<Rightarrow> open_error + Recorder" where
  "rec_Open created marshal io wall m =
     (if \<not> created then Inl CreateFailed
      else
        let line = marshal (header_of m wall) @ [CHR 0x0A]; (n, failed) = ri_write io line in
        if failed then Inl HeaderWriteFailed
        else Inr \<lparr>rc_open = True, rc_file = take n line, rc_redactor = None, rc_written = int n,
                  rc_maxBytes = DefaultMaxBytes, rc_capped = False\<rparr>)"

definition rec_SetRedactor :: "(string \<Rightarrow> string) \<Rightarrow> Recorder \<Rightarrow> Recorder" where
  "rec_SetRedactor rd r = r\<lparr>rc_redactor := Some rd\<rparr>"

definition event_line :: "rec_io \<Rightarrow> string \<Rightarrow> string \<Rightarrow> string" where
  "event_line io ty data = ri_event io ty data @ [CHR 0x0A]"

text \<open>The result tells whether the call returned an error.\<close>

definition writeLine :: "rec_io \<Rightarrow> string \<Rightarrow> string \<Rightarrow> Recorder \<Rightarrow> bool \<times> Recorder" where
  "writeLine io ty data r =
     (let line = event_line io ty data; (n, failed) = ri_write io line in
      (failed, r\<lparr>rc_file := rc_file r @ take n line, rc_written := rc_written r + int n\<rparr>))"

definition cap_note :: "Recorder \<Rightarrow> string" where
  "cap_note r =
     [CHR 0x0D, CHR 0x0A] @ ''[recording truncated: '' @ Itoa (rc_maxBytes r) @ ''-byte limit reached]'' @ [CHR 0x0D, CHR 0x0A]"

definition rec_write :: "rec_io \<Rightarrow> string \<Rightarrow> string \<Rightarrow> Recorder \<Rightarrow> bool \<times> Recorder" where
  "rec_write io ty data r =
     (if data = '''' then (False, r)
      else if \<not> rc_open r then (False, r)
      else
        let data = (case rc_redactor r of None \<Rightarrow> data | Some f \<Rightarrow> f data) in
        if rc_maxBytes r > 0 \<and> rc_written r \<ge> rc_maxBytes r
        then (False, if rc_capped r then r else snd (writeLine io ''o'' (cap_note r) (r\<lparr>rc_capped := True\<rparr>)))
        else writeLine io ty data r)"

definition WriteOutput :: "rec_io \<Rightarrow> string \<Rightarrow> Recorder \<Rightarrow> bool \<times> Recorder" where
  "WriteOutput io data r = rec_write io ''o'' data r"

definition WriteInput :: "rec_io \<Rightarrow> string \<Rightarrow> Recorder \<Rightarrow> bool \<times> Recorder" where
  "WriteInput io data r = rec_write io ''i'' data r"

definition WriteStderr :: "rec_io \<Rightarrow> string \<Rightarrow> Recorder \<Rightarrow> bool \<times> Recorder" where
  "WriteStderr io data r = rec_write io ''e'' data r"

definition rec_Close :: "Recorder \<Rightarrow> Recorder" where
  "rec_Close r = r\<lparr>rc_open := False\<rparr>"
section \<open>What the library promises about matches\<close>

text \<open>
  \<open>FindAll\<close> returns successive matches that do not overlap, within the text, and a group that took
  part lies within its match.
\<close>

definition match_ok :: "int \<Rightarrow> int \<Rightarrow> int list \<Rightarrow> bool" where
  "match_ok lo n m \<longleftrightarrow> length m \<ge> 2 \<and> lo \<le> m ! 0 \<and> m ! 0 \<le> m ! 1 \<and> m ! 1 \<le> n \<and>
     list_all (\<lambda>g. m ! (2 * g) < 0 \<or> m ! 0 \<le> m ! (2 * g) \<and> m ! (2 * g) \<le> m ! (2 * g + 1) \<and> m ! (2 * g + 1) \<le> m ! 1)
       [0..<length m div 2]"

fun matches_ok :: "int \<Rightarrow> int \<Rightarrow> int list list \<Rightarrow> bool" where
  "matches_ok lo n [] \<longleftrightarrow> True"
| "matches_ok lo n (m # ms) \<longleftrightarrow> match_ok lo n m \<and> matches_ok (m ! 1) n ms"

definition regexp_ok :: "regexp_lib \<Rightarrow> bool" where
  "regexp_ok rx \<longleftrightarrow> (\<forall>re s. matches_ok 0 (int (length s)) (rx_FindAll rx re s))"

section \<open>The masked text, position by position\<close>

text \<open>
  What a rule finds in a text. A redaction marker is the text that a rule leaves for a secret: the
  opening, a name and the first closing bracket. The secrets of a rule are all it finds, less what
  already is a redaction marker.
\<close>

definition found_spans :: "redact_rule \<Rightarrow> int list list \<Rightarrow> (nat \<times> nat) list" where
  "found_spans ru ms = map (\<lambda>m. map_prod nat nat (candidate (rr_secretIdx ru) m)) ms"

definition is_marker :: "string \<Rightarrow> bool" where
  "is_marker t \<longleftrightarrow>
     (let rest = drop (length Marker) t
      in HasPrefix t Marker \<and> rest \<noteq> '''' \<and> last rest = CHR '']'' \<and> CHR '']'' \<notin> set (butlast rest))"

definition span_text :: "string \<Rightarrow> nat \<times> nat \<Rightarrow> string" where
  "span_text s = (\<lambda>(a, b). take (b - a) (drop a s))"

definition secret_spans :: "redact_rule \<Rightarrow> string \<Rightarrow> int list list \<Rightarrow> (nat \<times> nat) list" where
  "secret_spans ru s ms = filter (\<lambda>c. \<not> is_marker (span_text s c)) (found_spans ru ms)"

text \<open>What the code cuts out: it leaves whatever begins like a marker.\<close>

definition cuts :: "redact_rule \<Rightarrow> string \<Rightarrow> int list list \<Rightarrow> (nat \<times> nat) list" where
  "cuts ru s ms =
     filter (\<lambda>(a, b). \<not> HasPrefix (drop a s) Marker)
       (map (\<lambda>m. map_prod nat nat (candidate (rr_secretIdx ru) m)) ms)"

text \<open>
  What the masked text has at position \<open>i\<close>: a replacement for every secret that begins there, and
  the original byte unless a secret covers it.
\<close>

definition masked_at :: "string \<Rightarrow> string \<Rightarrow> (nat \<times> nat) list \<Rightarrow> nat \<Rightarrow> string" where
  "masked_at name s cs i =
     concat (map (\<lambda>_. Marker @ name @ '']'') (filter (\<lambda>c. fst c = i) cs)) @
     (if i < length s \<and> \<not> list_ex (\<lambda>c. fst c \<le> i \<and> i < snd c) cs then [s ! i] else '''')"

definition masked :: "string \<Rightarrow> string \<Rightarrow> (nat \<times> nat) list \<Rightarrow> string" where
  "masked name s cs = concat (map (masked_at name s cs) [0..<Suc (length s)])"

text \<open>The reference: each rule in turn masks its secrets in what the rules before it left.\<close>

definition mask_rule :: "regexp_lib \<Rightarrow> redact_rule \<Rightarrow> string \<Rightarrow> string" where
  "mask_rule rx ru s = masked (rr_name ru) s (secret_spans ru s (rx_FindAll rx (rr_re ru) s))"

text \<open>No rule finds anything that begins like a marker and is not one.\<close>

fun unforged :: "regexp_lib \<Rightarrow> redact_rule list \<Rightarrow> string \<Rightarrow> bool" where
  "unforged rx [] s \<longleftrightarrow> True"
| "unforged rx (ru # rules) s \<longleftrightarrow>
     (\<forall>c\<in>set (found_spans ru (rx_FindAll rx (rr_re ru) s)). HasPrefix (drop (fst c) s) Marker \<longrightarrow> is_marker (span_text s c)) \<and>
     unforged rx rules (mask_rule rx ru s)"

section \<open>Lemmas on redaction\<close>

lemma is_marker_prefix: "is_marker (span_text s c) \<Longrightarrow> HasPrefix (drop (fst c) s) Marker"
proof (cases c)
  case (Pair a b)
  assume "is_marker (span_text s c)"
  then obtain t where "take (b - a) (drop a s) = Marker @ t"
    by (auto simp: is_marker_def span_text_def HasPrefix_iff Let_def Pair)
  then have "drop a s = Marker @ t @ drop (b - a) (drop a s)"
    using append_take_drop_id [of "b - a" "drop a s"] by simp
  then show ?thesis by (auto simp: HasPrefix_iff Pair)
qed

lemma cuts_secrets:
  assumes "\<forall>c\<in>set (found_spans ru ms). HasPrefix (drop (fst c) s) Marker \<longrightarrow> is_marker (span_text s c)"
  shows "cuts ru s ms = secret_spans ru s ms"
  unfolding cuts_def secret_spans_def found_spans_def [symmetric]
  using assms is_marker_prefix by (intro filter_cong) (fastforce split: prod.splits)+

lemma candidate_ok:
  assumes "match_ok lo n m" and "candidate gi m = (a, b)"
  shows "lo \<le> a \<and> a \<le> b \<and> b \<le> m ! 1 \<and> m ! 1 \<le> n"
proof (cases "gi > 0 \<and> 2 * gi + 1 < int (length m) \<and> m ! nat (2 * gi) \<ge> 0")
  case True
  define g where "g = nat gi"
  have g: "nat (2 * gi) = 2 * g" "nat (2 * gi + 1) = 2 * g + 1" using True by (simp_all add: g_def nat_mult_distrib nat_add_distrib)
  have "g < length m div 2" using True by (simp add: g_def) linarith
  then have "m ! (2 * g) < 0 \<or> m ! 0 \<le> m ! (2 * g) \<and> m ! (2 * g) \<le> m ! (2 * g + 1) \<and> m ! (2 * g + 1) \<le> m ! 1"
    using assms(1) by (auto simp: match_ok_def list_all_iff)
  with True assms show ?thesis by (auto simp: candidate_def g match_ok_def)
next
  case False
  with assms show ?thesis by (auto simp: candidate_def match_ok_def)
qed

lemma matches_ok_mono: "matches_ok lo n ms \<Longrightarrow> lo' \<le> lo \<Longrightarrow> matches_ok lo' n ms"
  by (cases ms) (auto simp: match_ok_def)

lemma cuts_bounds:
  "matches_ok lo n ms \<Longrightarrow> 0 \<le> lo \<Longrightarrow> (a, b) \<in> set (cuts ru s ms) \<Longrightarrow> nat lo \<le> a \<and> a \<le> b \<and> int b \<le> n"
proof (induction ms arbitrary: lo)
  case Nil
  then show ?case by (simp add: cuts_def)
next
  case (Cons m ms)
  obtain x y where xy: "candidate (rr_secretIdx ru) m = (x, y)" by fastforce
  have c: "lo \<le> x" "x \<le> y" "y \<le> m ! 1" "m ! 1 \<le> n" using candidate_ok [OF _ xy] Cons.prems(1) by auto
  from Cons.prems(3) consider "a = nat x" "b = nat y" | "(a, b) \<in> set (cuts ru s ms)"
    by (auto simp: cuts_def xy split: if_splits)
  then show ?case
  proof cases
    case 1
    with c Cons.prems(2) show ?thesis by auto
  next
    case 2
    with Cons.IH [of "m ! 1"] Cons.prems c show ?thesis by auto
  qed
qed

lemma masked_clear:
  assumes "\<And>a b. (a, b) \<in> set cs \<Longrightarrow> hi \<le> a \<and> a \<le> b" and "hi \<le> length s"
  shows "concat (map (masked_at name s cs) [lo..<hi]) = take (hi - lo) (drop lo s)"
proof -
  have m: "map (masked_at name s cs) [lo..<hi] = map (\<lambda>i. [s ! i]) [lo..<hi]"
  proof (rule map_cong)
    fix i assume i: "i \<in> set [lo..<hi]"
    have "filter (\<lambda>c. fst c = i) cs = []" using assms(1) i by (fastforce simp: filter_empty_conv)
    moreover have "\<not> list_ex (\<lambda>c. fst c \<le> i \<and> i < snd c) cs" using assms(1) i by (fastforce simp: list_ex_iff)
    ultimately show "masked_at name s cs i = [s ! i]" using i assms(2) by (simp add: masked_at_def)
  qed simp
  moreover have "map (\<lambda>i. s ! i) [lo..<hi] = take (hi - lo) (drop lo s)"
    using assms(2) by (intro nth_equalityI) auto
  ultimately show ?thesis unfolding m by (simp only: concat_map_singleton)
qed

lemma upt_split: "i \<le> j \<Longrightarrow> j \<le> k \<Longrightarrow> [i..<k] = [i..<j] @ [j..<k]"
  using upt_add_eq_append [of i j "k - j"] by simp

lemma masked_covered:
  assumes "\<And>a b. (a, b) \<in> set cs \<Longrightarrow> y \<le> a"
  shows "concat (map (masked_at name s ((x, y) # cs)) [Suc x..<y]) = ''''"
proof -
  have "masked_at name s ((x, y) # cs) i = ''''" if "i \<in> set [Suc x..<y]" for i
    using assms that by (fastforce simp: masked_at_def filter_empty_conv)
  then show ?thesis by (simp add: concat_eq_Nil_conv)
qed

lemma masked_later:
  assumes "x < i" and "y \<le> i"
  shows "masked_at name s ((x, y) # cs) i = masked_at name s cs i"
  using assms by (simp add: masked_at_def)

lemma masked_step:
  assumes cs: "\<And>a b. (a, b) \<in> set cs \<Longrightarrow> y \<le> a \<and> a \<le> b" and "lo \<le> x" and "x \<le> y" and "y \<le> length s"
  shows "concat (map (masked_at name s ((x, y) # cs)) [lo..<Suc (length s)]) =
    take (x - lo) (drop lo s) @ Marker @ name @ '']'' @ concat (map (masked_at name s cs) [y..<Suc (length s)])"
proof -
  let ?M = "masked_at name s ((x, y) # cs)" and ?m = "masked_at name s cs"
  have "[lo..<Suc (length s)] = [lo..<x] @ [x..<Suc (length s)]"
    using assms by (intro upt_split) auto
  moreover have "concat (map ?M [lo..<x]) = take (x - lo) (drop lo s)"
    using assms by (intro masked_clear) (auto dest: cs)
  moreover have "concat (map ?M [x..<Suc (length s)]) = Marker @ name @ '']'' @ concat (map ?m [y..<Suc (length s)])"
  proof (cases "x = y")
    case True
    have u: "[x..<Suc (length s)] = x # [Suc x..<Suc (length s)]" using assms by (intro upt_conv_Cons) auto
    have "?M x = Marker @ name @ '']'' @ ?m x" using True by (simp add: masked_at_def)
    moreover have "map ?M [Suc x..<Suc (length s)] = map ?m [Suc x..<Suc (length s)]" using True by (auto intro: masked_later)
    ultimately show ?thesis unfolding True [symmetric] u list.map concat.simps by (simp only: append_assoc)
  next
    case False
    have "[x..<Suc (length s)] = x # [Suc x..<y] @ [y..<Suc (length s)]"
      using assms False upt_split [of "Suc x" y "Suc (length s)"] by (simp add: upt_conv_Cons del: upt_Suc)
    moreover have "?M x = Marker @ name @ '']''"
      using False assms by (auto simp: masked_at_def filter_empty_conv dest: cs)
    moreover have "map ?M [y..<Suc (length s)] = map ?m [y..<Suc (length s)]" using False assms by (auto intro: masked_later)
    moreover have "concat (map ?M [Suc x..<y]) = ''''" using cs by (intro masked_covered) auto
    ultimately show ?thesis by (simp only: list.map map_append concat.simps concat_append append_assoc append_Nil)
  qed
  ultimately show ?thesis by (simp only: map_append concat_append append_assoc)
qed

lemma apply_loop_masked:
  assumes "matches_ok lo (int (length s)) ms" and "0 \<le> lst" and "lst \<le> lo" and "lst \<le> int (length s)"
  shows "apply_loop ru s lst ms = concat (map (masked_at (rr_name ru) s (cuts ru s ms)) [nat lst..<Suc (length s)])"
  using assms
proof (induction ms arbitrary: lo lst)
  case Nil
  have "concat (map (masked_at (rr_name ru) s []) [nat lst..<length s]) = take (length s - nat lst) (drop (nat lst) s)"
    by (rule masked_clear) auto
  moreover have "nat lst \<le> length s" using Nil by linarith
  ultimately show ?case by (simp add: cuts_def masked_at_def [of _ _ _ "length s"])
next
  case (Cons m ms)
  obtain x y where xy: "candidate (rr_secretIdx ru) m = (x, y)" by fastforce
  have c: "lo \<le> x" "x \<le> y" "y \<le> m ! 1" "m ! 1 \<le> int (length s)" using candidate_ok [OF _ xy] Cons.prems(1) by auto
  have ok: "matches_ok (m ! 1) (int (length s)) ms" using Cons.prems(1) by simp
  show ?case
  proof (cases "HasPrefix (drop (nat x) s) Marker")
    case True
    then have "cuts ru s (m # ms) = cuts ru s ms" by (simp add: cuts_def xy)
    moreover have "apply_loop ru s lst (m # ms) = apply_loop ru s lst ms" using True by (simp add: xy)
    ultimately show ?thesis using Cons.IH [OF ok Cons.prems(2)] Cons.prems c by simp
  next
    case False
    then have cu: "cuts ru s (m # ms) = (nat x, nat y) # cuts ru s ms" by (simp add: cuts_def xy)
    have "nat (m ! 1) \<le> a \<and> a \<le> b" if "(a, b) \<in> set (cuts ru s ms)" for a b
      using cuts_bounds [OF ok _ that] c Cons.prems by auto
    then have b: "nat y \<le> a \<and> a \<le> b" if "(a, b) \<in> set (cuts ru s ms)" for a b
      using that c by fastforce
    have "apply_loop ru s lst (m # ms) =
        take (nat (x - lst)) (drop (nat lst) s) @ Marker @ rr_name ru @ '']'' @ apply_loop ru s y ms"
      using False c Cons.prems by (simp add: xy)
    also have "apply_loop ru s y ms = concat (map (masked_at (rr_name ru) s (cuts ru s ms)) [nat y..<Suc (length s)])"
      using Cons.prems c by (intro Cons.IH [OF ok]) auto
    also have "nat (x - lst) = nat x - nat lst" using Cons.prems by simp
    finally show ?thesis
      unfolding cu using masked_step [of "cuts ru s ms" "nat y" "nat lst" "nat x" s "rr_name ru"] b c Cons.prems by auto
  qed
qed

lemma apply_rule_masked:
  assumes "regexp_ok rx"
  shows "apply_rule rx ru s = masked (rr_name ru) s (cuts ru s (rx_FindAll rx (rr_re ru) s))"
proof -
  have ok: "matches_ok 0 (int (length s)) (rx_FindAll rx (rr_re ru) s)" using assms by (simp add: regexp_ok_def)
  have "apply_loop ru s 0 (rx_FindAll rx (rr_re ru) s) = masked (rr_name ru) s (cuts ru s (rx_FindAll rx (rr_re ru) s))"
    unfolding masked_def using apply_loop_masked [OF ok, of 0 ru] by simp
  then show ?thesis by (cases "rx_FindAll rx (rr_re ru) s") (simp_all add: apply_rule_def)
qed


section \<open>Lemmas on the recorder\<close>

text \<open>A write to the file reports fewer bytes only with an error.\<close>

definition io_ok :: "rec_io \<Rightarrow> bool" where
  "io_ok io \<longleftrightarrow> (\<forall>s. case ri_write io s of (n, failed) \<Rightarrow> n \<le> length s \<and> (failed \<or> n = length s))"

definition io_complete :: "rec_io \<Rightarrow> bool" where
  "io_complete io \<longleftrightarrow> (\<forall>s. ri_write io s = (length s, False))"

type_synonym rec_event = "rec_io \<times> string \<times> string"

definition rec_writes :: "rec_event list \<Rightarrow> Recorder \<Rightarrow> Recorder" where
  "rec_writes evs r = fold (\<lambda>(io, ty, data) r. snd (rec_write io ty data r)) evs r"

text \<open>The counter is the size of the file.\<close>

definition rec_inv :: "Recorder \<Rightarrow> bool" where
  "rec_inv r \<longleftrightarrow> rc_written r = int (length (rc_file r)) \<and> (rc_capped r \<longrightarrow> rc_maxBytes r > 0 \<and> rc_written r \<ge> rc_maxBytes r)"

definition rec_append :: "string \<Rightarrow> Recorder \<Rightarrow> Recorder" where
  "rec_append t r = r\<lparr>rc_file := rc_file r @ t, rc_written := int (length (rc_file r @ t))\<rparr>"

lemma writeLine_append:
  assumes "io_ok io" and "rec_inv r"
  obtains n where "n \<le> length (event_line io ty data)" and "snd (writeLine io ty data r) = rec_append (take n (event_line io ty data)) r"
proof -
  obtain n failed where w: "ri_write io (event_line io ty data) = (n, failed)" by fastforce
  have "case ri_write io (event_line io ty data) of (n, failed) \<Rightarrow> n \<le> length (event_line io ty data) \<and> (failed \<or> n = length (event_line io ty data))"
    using assms(1) unfolding io_ok_def by (rule spec)
  then have n: "n \<le> length (event_line io ty data)" by (simp add: w)
  have "snd (writeLine io ty data r) = rec_append (take n (event_line io ty data)) r"
    using n assms(2) by (simp add: writeLine_def w rec_append_def rec_inv_def)
  with n show thesis by (rule that)
qed

text \<open>A write leaves the recorder as it is, appends a line, or appends the note and stops.\<close>

lemma rec_write_cases:
  assumes "io_ok io" and "rec_inv r"
  obtains (same) "snd (rec_write io ty data r) = r"
    | (line) d n where "n \<le> length (event_line io ty d)" and "rc_maxBytes r > 0 \<Longrightarrow> rc_written r < rc_maxBytes r"
        and "snd (rec_write io ty data r) = rec_append (take n (event_line io ty d)) r"
    | (cap_hit) n where "n \<le> length (event_line io ''o'' (cap_note r))" and "rc_maxBytes r > 0" and "rc_written r \<ge> rc_maxBytes r"
        and "\<not> rc_capped r" and "snd (rec_write io ty data r) = rec_append (take n (event_line io ''o'' (cap_note r))) (r\<lparr>rc_capped := True\<rparr>)"
proof (cases "data = '''' \<or> \<not> rc_open r")
  case True
  then show ?thesis by (intro same) (auto simp: rec_write_def)
next
  case False
  define d where "d = (case rc_redactor r of None \<Rightarrow> data | Some f \<Rightarrow> f data)"
  show ?thesis
  proof (cases "rc_maxBytes r > 0 \<and> rc_written r \<ge> rc_maxBytes r")
    case full: True
    show ?thesis
    proof (cases "rc_capped r")
      case True
      with False full show ?thesis by (intro same) (simp add: rec_write_def Let_def)
    next
      case nc: False
      have i: "rec_inv (r\<lparr>rc_capped := True\<rparr>)" using full assms(2) by (simp add: rec_inv_def)
      show ?thesis
        by (rule writeLine_append [OF assms(1) i, of "''o''" "cap_note r"])
          (use False full nc in \<open>auto simp: rec_write_def Let_def intro: cap_hit\<close>)
    qed
  next
    case nf: False
    show ?thesis
      by (rule writeLine_append [OF assms, of ty d])
        (use False nf in \<open>auto simp: rec_write_def Let_def d_def intro: line\<close>)
  qed
qed

lemma rec_write_inv:
  assumes "rec_inv r" and "io_ok io"
  shows "rec_inv (snd (rec_write io ty data r))"
  by (rule rec_write_cases [OF assms(2,1), of ty data]) (use assms(1) in \<open>auto simp: rec_inv_def rec_append_def\<close>)

text \<open>The size stays within \<open>B\<close> until the note, and within another line after it.\<close>

definition rec_bound :: "int \<Rightarrow> int \<Rightarrow> Recorder \<Rightarrow> bool" where
  "rec_bound B L r \<longleftrightarrow> int (length (rc_file r)) \<le> B + (if rc_capped r then L else 0)"

lemma rec_write_bound:
  assumes "rec_inv r" and "io_ok io" and "rc_maxBytes r > 0" and "rec_bound B L r" and "rc_maxBytes r + L \<le> B"
    and L: "\<And>ty d. int (length (event_line io ty d)) \<le> L"
  shows "rec_bound B L (snd (rec_write io ty data r))"
  using assms(2,1)
proof (cases rule: rec_write_cases [where ty = ty and data = data])
  case same
  with assms show ?thesis by simp
next
  case (line d n)
  with L [of ty d] assms(1,3,5) show ?thesis by (auto simp: rec_bound_def rec_append_def rec_inv_def)
next
  case (cap_hit n)
  with L [of "''o''" "cap_note r"] assms(4) show ?thesis by (auto simp: rec_bound_def rec_append_def)
qed

lemma rec_write_frame [simp]:
  "rc_maxBytes (snd (rec_write io ty data r)) = rc_maxBytes r" "rc_redactor (snd (rec_write io ty data r)) = rc_redactor r"
  "rc_open (snd (rec_write io ty data r)) = rc_open r"
  by (simp_all add: rec_write_def writeLine_def Let_def split: prod.splits)

lemma rec_writes_bound:
  assumes "rec_inv r" and "rc_maxBytes r > 0" and "rec_bound B L r" and "rc_maxBytes r + L \<le> B"
    and "\<And>io ty d. io \<in> fst ` set evs \<Longrightarrow> io_ok io \<and> int (length (event_line io ty d)) \<le> L"
  shows "rec_inv (rec_writes evs r) \<and> rec_bound B L (rec_writes evs r)"
  using assms
proof (induction evs arbitrary: r)
  case Nil
  then show ?case by (simp add: rec_writes_def)
next
  case (Cons ev evs)
  obtain io ty d where ev: "ev = (io, ty, d)" by (cases ev)
  let ?r = "snd (rec_write io ty d r)"
  have "io_ok io" "\<And>ty d. int (length (event_line io ty d)) \<le> L" using Cons.prems(5) [of io] ev by force+
  with Cons.prems have "rec_inv ?r" "rec_bound B L ?r" by (auto intro: rec_write_inv rec_write_bound)
  moreover have "rc_maxBytes ?r = rc_maxBytes r" by simp
  moreover have "io_ok io \<and> int (length (event_line io ty d)) \<le> L" if "io \<in> fst ` set evs" for io ty d
    using Cons.prems(5) [of io] that by auto
  ultimately have "rec_inv (rec_writes evs ?r) \<and> rec_bound B L (rec_writes evs ?r)"
    using Cons.prems(2,4) by (intro Cons.IH) auto
  then show ?case by (simp add: rec_writes_def ev)
qed



lemma rec_writes_Cons [simp]: "rec_writes ((io, ty, d) # evs) r = rec_writes evs (snd (rec_write io ty d r))"
  by (simp add: rec_writes_def)

lemma rec_writes_capped:
  assumes "rc_capped r" and "rc_maxBytes r > 0" and "rc_written r \<ge> rc_maxBytes r"
  shows "rec_writes evs r = r"
  by (induction evs) (use assms in \<open>auto simp: rec_writes_def rec_write_def Let_def\<close>)

lemma writeLine_complete:
  "io_complete io \<Longrightarrow> rec_inv r \<Longrightarrow> snd (writeLine io ty d r) = rec_append (event_line io ty d) r"
  by (simp add: writeLine_def io_complete_def rec_append_def rec_inv_def Let_def)

lemma rec_Open_inv:
  assumes "rec_Open created marshal io wall m = Inr r" and "io_ok io"
  shows "rec_inv r \<and> \<not> rc_capped r \<and> rc_open r \<and> rc_maxBytes r = DefaultMaxBytes \<and> rc_redactor r = None \<and>
     rc_file r = marshal (header_of m wall) @ [CHR 0x0A]"
proof -
  let ?l = "marshal (header_of m wall) @ [CHR 0x0A]"
  obtain n failed where w: "ri_write io ?l = (n, failed)" by fastforce
  have "case ri_write io ?l of (n, failed) \<Rightarrow> n \<le> length ?l \<and> (failed \<or> n = length ?l)"
    using assms(2) unfolding io_ok_def by (rule spec)
  then have n: "n \<le> length ?l" "failed \<or> n = length ?l" by (simp_all add: w)
  have r: "\<not> failed" "r = \<lparr>rc_open = True, rc_file = take n ?l, rc_redactor = None, rc_written = int n,
                  rc_maxBytes = DefaultMaxBytes, rc_capped = False\<rparr>"
    using assms(1) by (cases failed; cases created; simp add: rec_Open_def w)+
  then show ?thesis using n by (simp add: rec_inv_def)
qed

text \<open>The lines the events ask for.\<close>

definition rec_lines :: "Recorder \<Rightarrow> rec_event list \<Rightarrow> string list" where
  "rec_lines r evs =
     map (\<lambda>(io, ty, d). event_line io ty (case rc_redactor r of None \<Rightarrow> d | Some f \<Rightarrow> f d)) evs"

lemma rec_writes_prefix:
  assumes "rec_inv r" and "rc_open r" and "rc_maxBytes r > 0" and "\<not> rc_capped r"
    and "\<And>io ty d. (io, ty, d) \<in> set evs \<Longrightarrow> io_complete io \<and> d \<noteq> ''''"
  shows "\<exists>k \<le> length evs. (\<forall>j<k. int (length (rc_file r @ concat (take j (rec_lines r evs)))) < rc_maxBytes r) \<and>
     (k < length evs \<longrightarrow> int (length (rc_file r @ concat (take k (rec_lines r evs)))) \<ge> rc_maxBytes r) \<and>
     rc_file (rec_writes evs r) = rc_file r @ concat (take k (rec_lines r evs)) @
       (if k < length evs then event_line (fst (evs ! k)) ''o'' (cap_note r) else '''')"
  using assms
proof (induction evs arbitrary: r)
  case Nil
  then show ?case by (simp add: rec_writes_def)
next
  case (Cons ev evs)
  obtain io ty d where ev: "ev = (io, ty, d)" by (cases ev)
  have io: "io_complete io" "d \<noteq> ''''" using Cons.prems(5) ev by auto
  show ?case
  proof (cases "rc_written r \<ge> rc_maxBytes r")
    case True
    let ?r = "rec_append (event_line io ''o'' (cap_note r)) (r\<lparr>rc_capped := True\<rparr>)"
    have "rec_inv (r\<lparr>rc_capped := True\<rparr>)" using Cons.prems True by (simp add: rec_inv_def)
    then have "snd (rec_write io ty d r) = ?r"
      using Cons.prems io True writeLine_complete by (simp add: rec_write_def Let_def)
    moreover have "rec_writes evs ?r = ?r"
      using Cons.prems(1,3) True by (intro rec_writes_capped) (auto simp: rec_append_def rec_inv_def)
    ultimately show ?thesis
      using True Cons.prems(1) by (intro exI [of _ 0]) (simp add: ev rec_append_def rec_inv_def)
  next
    case False
    define l where "l = event_line io ty (case rc_redactor r of None \<Rightarrow> d | Some f \<Rightarrow> f d)"
    define q where "q = rec_append l r"
    have w: "snd (rec_write io ty d r) = q"
      using Cons.prems io False writeLine_complete by (simp add: rec_write_def Let_def l_def q_def)
    have q: "rec_inv q" "rc_open q" "rc_maxBytes q = rc_maxBytes r" "\<not> rc_capped q" "rc_file q = rc_file r @ l" "cap_note q = cap_note r"
      "rec_lines q evs = rec_lines r evs"
      using Cons.prems by (auto simp: q_def rec_append_def rec_inv_def cap_note_def rec_lines_def)
    have ls: "rec_lines r (ev # evs) = l # rec_lines r evs" by (simp add: rec_lines_def ev l_def)
    from Cons.IH [OF q(1,2) _ q(4)] Cons.prems(3,5) obtain k where k: "k \<le> length evs"
      "\<forall>j<k. int (length (rc_file q @ concat (take j (rec_lines q evs)))) < rc_maxBytes q"
      "k < length evs \<longrightarrow> int (length (rc_file q @ concat (take k (rec_lines q evs)))) \<ge> rc_maxBytes q"
      "rc_file (rec_writes evs q) = rc_file q @ concat (take k (rec_lines q evs)) @
         (if k < length evs then event_line (fst (evs ! k)) ''o'' (cap_note q) else '''')"
      unfolding q(3) by (auto simp: q)
    have "int (length (rc_file r @ concat (take j (rec_lines r (ev # evs))))) < rc_maxBytes r" if "j < Suc k" for j
      using k(2) that False Cons.prems(1) by (cases j) (auto simp: ls q rec_inv_def)
    then show ?thesis
      using k(1,3,4) by (intro exI [of _ "Suc k"]) (simp add: ev w [unfolded ev] ls [unfolded ev] q)
  qed
qed

section \<open>Properties\<close>

lemma fold_mask:
  assumes "regexp_ok rx" and "unforged rx rules s"
  shows "fold (apply_rule rx) rules s = fold (mask_rule rx) rules s"
  using assms(2)
proof (induction rules arbitrary: s)
  case (Cons ru rules)
  then have "apply_rule rx ru s = mask_rule rx ru s"
    by (simp add: apply_rule_masked [OF assms(1)] mask_rule_def cuts_secrets)
  with Cons show ?case by simp
qed simp

text \<open>
  C34: every secret is masked. When the library returns successive matches within the text, and
  nothing that a rule finds begins with the opening of a redaction marker without being exactly
  one, the redacted text is obtained rule by rule, position by position: a replacement with the
  rule's name where a secret of the rule begins, nothing for the other bytes of the secret, and
  every other byte as it is, where the secrets are all that the rule finds except complete
  redaction markers.
\<close>

theorem Redact_masks:
  assumes "regexp_ok rx" and "unforged rx rules s"
  shows "Redact rx (Some rules) s =
    (if s = '''' then '''' else fold (\<lambda>ru t. masked (rr_name ru) t (secret_spans ru t (rx_FindAll rx (rr_re ru) t))) rules s)"
  using fold_mask [OF assms] unfolding mask_rule_def [abs_def] by (simp add: Redact_def)

text \<open>
  A recording is bounded. Whatever is written to a recorder and however the writes fail, its file
  is at most its limit, one line that began under the limit and the note about the truncation, or
  the header if that is longer; and the counter the limit is checked against is the file's size.
\<close>

theorem recording_bounded:
  assumes "rec_Open True marshal io wall m = Inr r" and "io_ok io"
    and "\<And>io ty d. io \<in> fst ` set evs \<Longrightarrow> io_ok io \<and> int (length (event_line io ty d)) \<le> L" and "0 \<le> L"
  shows "int (length (rc_file (rec_writes evs r))) \<le> max (int (length (rc_file r))) (DefaultMaxBytes + L) + L \<and>
     rc_written (rec_writes evs r) = int (length (rc_file (rec_writes evs r)))"
proof -
  let ?B = "max (int (length (rc_file r))) (DefaultMaxBytes + L)"
  note r = rec_Open_inv [OF assms(1,2)]
  have "rec_bound ?B L r" using r by (simp add: rec_bound_def)
  with r have b: "rec_inv (rec_writes evs r) \<and> rec_bound ?B L (rec_writes evs r)"
    using assms(3) by (intro rec_writes_bound) (auto simp: DefaultMaxBytes_def)
  with assms(4) show ?thesis by (auto simp: rec_bound_def rec_inv_def split: if_splits)
qed


text \<open>
  A recording is complete up to its limit. With writes that do not fail, the file holds the
  header, the lines of the events (redacted) in order, up to the first event that finds the limit
  reached, and then the note about the truncation, once.
\<close>

theorem recording_prefix:
  assumes "rec_Open True marshal io wall m = Inr r" and "io_ok io"
    and "\<And>io ty d. (io, ty, d) \<in> set evs \<Longrightarrow> io_complete io \<and> d \<noteq> ''''"
  shows "\<exists>k \<le> length evs. \<exists>body. body = concat (take k (rec_lines (rec_SetRedactor f r) evs)) \<and>
     (k < length evs \<longrightarrow> int (length (rc_file r @ body)) \<ge> DefaultMaxBytes) \<and>
     rc_file (rec_writes evs (rec_SetRedactor f r)) = marshal (header_of m wall) @ [CHR 0x0A] @ body @
       (if k < length evs then event_line (fst (evs ! k)) ''o'' (cap_note r) else '''')"
proof -
  note r = rec_Open_inv [OF assms(1,2)]
  let ?r = "rec_SetRedactor f r"
  have "rec_inv ?r" "rc_open ?r" "rc_maxBytes ?r > 0" "\<not> rc_capped ?r" "rc_file ?r = rc_file r" "cap_note ?r = cap_note r"
    using r by (simp_all add: rec_SetRedactor_def rec_inv_def DefaultMaxBytes_def cap_note_def)
  with rec_writes_prefix [of ?r evs] assms(3) r show ?thesis by (auto simp: rec_SetRedactor_def)
qed

text \<open>
  A text that begins with the marker is never masked: a rule whose secrets all begin with
  \<open>[REDACTED:\<close> leaves the text as it is, whatever follows the marker.
\<close>

lemma apply_loop_marker:
  assumes "\<And>m. m \<in> set ms \<Longrightarrow> HasPrefix (drop (nat (fst (candidate (rr_secretIdx ru) m))) s) Marker"
  shows "apply_loop ru s lst ms = drop (nat lst) s"
  using assms by (induction ms) (auto simp: Let_def case_prod_unfold)

theorem marker_prefix_kept:
  assumes "\<And>m. m \<in> set (rx_FindAll rx (rr_re ru) s) \<Longrightarrow> HasPrefix (drop (nat (fst (candidate (rr_secretIdx ru) m))) s) Marker"
  shows "apply_rule rx ru s = s"
  using apply_loop_marker [of "rx_FindAll rx (rr_re ru) s" ru s 0] assms by (simp add: apply_rule_def Let_def)

section \<open>Samples\<close>

text \<open>A library that finds one secret: what follows \<open>-p\<close> and a blank at the beginning of the text.\<close>

definition sample_rx :: regexp_lib where
  "sample_rx = \<lparr>rx_Compile = (\<lambda>_. True), rx_SecretIndex = (\<lambda>_. 1),
     rx_FindAll = (\<lambda>re s. if HasPrefix s ''-p '' then [[0, int (length s), 3, int (length s)]] else [])\<rparr>"

definition sample_rules :: "redact_rule list" where
  "sample_rules = [\<lparr>rr_name = ''pw'', rr_re = ''x'', rr_secretIdx = 1\<rparr>]"

lemma HasPrefix_length: "HasPrefix s p \<Longrightarrow> length p \<le> length s"
  by (metis HasPrefix_iff length_append le_add1)

lemma sample_rx_ok: "regexp_ok sample_rx"
  by (auto simp: regexp_ok_def sample_rx_def match_ok_def upt_rec dest!: HasPrefix_length)

theorem Redact_masks_witness:
  "Redact sample_rx (Some sample_rules) ''-p hunter2'' = ''-p [REDACTED:pw]'' \<and>
   fold (\<lambda>ru t. masked (rr_name ru) t (secret_spans ru t (rx_FindAll sample_rx (rr_re ru) t))) sample_rules ''-p hunter2'' = ''-p [REDACTED:pw]''"
proof -
  have r: "Redact sample_rx (Some sample_rules) ''-p hunter2'' = ''-p [REDACTED:pw]''" by code_simp
  have u: "unforged sample_rx sample_rules ''-p hunter2''" by code_simp
  from r show ?thesis using Redact_masks [OF sample_rx_ok u] by simp
qed

text \<open>
  The code's test is the weaker one: a secret that merely begins like a marker is not a marker, and
  stays in clear.
\<close>

theorem marker_prefix_kept_sample:
  "Redact sample_rx (Some sample_rules) ''-p [REDACTED:hunter2'' = ''-p [REDACTED:hunter2''"
  "\<not> is_marker ''[REDACTED:hunter2''" "\<not> unforged sample_rx sample_rules ''-p [REDACTED:hunter2''"
  by code_simp+

lemma compile_rules_total:
  assumes "list_all (\<lambda>p. reValidName (pa_Name p) \<and> rx_Compile rx (pa_Regex p)) ps"
  shows "\<exists>rules. compile_rules rx i ps = Inr rules \<and> map rr_name rules = map pa_Name ps"
  using assms
proof (induction ps arbitrary: i)
  case (Cons p ps)
  then obtain rules where "compile_rules rx (Suc i) ps = Inr rules" "map rr_name rules = map pa_Name ps" by fastforce
  with Cons.prems show ?case by simp
qed simp

text \<open>The built-in rules load with any library that compiles them.\<close>

theorem Defaults_load:
  assumes "list_all (\<lambda>p. rx_Compile rx (pa_Regex p)) Defaults"
  shows "\<exists>rules. redact_New rx None = Inr (Some rules) \<and> map rr_name rules = map pa_Name Defaults"
proof -
  have "list_all (\<lambda>p. reValidName (pa_Name p)) Defaults" and ne: "Defaults \<noteq> []" by code_simp+
  with assms have "list_all (\<lambda>p. reValidName (pa_Name p) \<and> rx_Compile rx (pa_Regex p)) Defaults" by (simp add: list_all_iff)
  from compile_rules_total [OF this, of 0] obtain rules where
    "compile_rules rx 0 Defaults = Inr rules" "map rr_name rules = map pa_Name Defaults" by blast
  with ne show ?thesis by (simp add: redact_New_def)
qed

definition sample_io :: rec_io where
  "sample_io = \<lparr>ri_event = (\<lambda>ty d. take 100 (ty @ d)), ri_write = (\<lambda>s. (length s, False))\<rparr>"

lemma sample_io_ok: "io_ok sample_io" "io_complete sample_io" "int (length (event_line sample_io ty d)) \<le> 101"
  by (auto simp: sample_io_def io_ok_def io_complete_def event_line_def)

definition sample_meta :: Meta where
  "sample_meta = \<lparr>mt_SessionID = ''s'', mt_Caller = ''c'', mt_Host = ''h'', mt_Serial = 1, mt_Term = '''', mt_Width = 0,
     mt_Height = 0, mt_StartedAt = None\<rparr>"

definition sample_recorder :: Recorder where
  "sample_recorder = \<lparr>rc_open = True, rc_file = ''h'' @ [CHR 0x0A], rc_redactor = None, rc_written = 2, rc_maxBytes = DefaultMaxBytes, rc_capped = False\<rparr>"

lemma sample_recorder_opened: "rec_Open True (\<lambda>_. ''h'') sample_io 0 sample_meta = Inr sample_recorder"
  by (simp add: rec_Open_def sample_io_def sample_recorder_def)

theorem recording_bounded_witness:
  "int (length (rc_file (rec_writes [(sample_io, ''o'', ''x'')] sample_recorder))) \<le> DefaultMaxBytes + 202"
  using recording_bounded [OF sample_recorder_opened sample_io_ok(1), of "[(sample_io, ''o'', ''x'')]" 101] sample_io_ok
  by (simp add: sample_recorder_def DefaultMaxBytes_def)

theorem recording_prefix_witness:
  "rc_file (rec_writes [(sample_io, ''o'', ''x'')] (rec_SetRedactor (\<lambda>_. ''y'') sample_recorder)) = ''h'' @ [CHR 0x0A] @ ''oy'' @ [CHR 0x0A]"
proof -
  let ?evs = "[(sample_io, ''o'', ''x'')]"
  from recording_prefix [OF sample_recorder_opened sample_io_ok(1), of ?evs "\<lambda>_. ''y''"] sample_io_ok(2) obtain k where
    k: "k \<le> 1" "k < 1 \<longrightarrow> int (length (rc_file sample_recorder)) \<ge> DefaultMaxBytes"
    "rc_file (rec_writes ?evs (rec_SetRedactor (\<lambda>_. ''y'') sample_recorder)) = ''h'' @ [CHR 0x0A] @
       concat (take k (rec_lines (rec_SetRedactor (\<lambda>_. ''y'') sample_recorder) ?evs)) @
       (if k < 1 then event_line (fst (?evs ! k)) ''o'' (cap_note sample_recorder) else '''')"
    by fastforce
  then have "k = 1" by (cases k) (auto simp: sample_recorder_def DefaultMaxBytes_def)
  with k show ?thesis by (simp add: rec_lines_def rec_SetRedactor_def sample_recorder_def event_line_def sample_io_def)
qed

end
