(* ===== verification/Service_Start.thy ===== *)
theory Service_Start
  imports Redaction
begin

text \<open>
  What the start of every service shares: the TLS configurations of \<open>src/internal/auth/mtls.go\<close>,
  the serving and shutdown of \<open>src/internal/httpserve/httpserve.go\<close>, the version text of
  \<open>src/internal/version/version.go\<close>, and the opening of the audit log with its key and its
  redactor, a sequence that the mains and \<open>NewEngine\<close> repeat. Loading key pairs and certificate
  pools, the file system, the network and the build information are arguments.
\<close>

section \<open>TLS configurations\<close>

datatype client_auth = NoClientCert | RequireAndVerifyClientCert

datatype tls_version = VersionTLS12 | VersionTLS13

text \<open>The fields that are not set keep Go's zero value: \<open>MinVersion\<close> 0 stands for TLS 1.2.\<close>

record tls_config =
  tc_Certificates :: "string list"
  tc_ClientAuth :: client_auth
  tc_ClientCAs :: "string list option"
  tc_RootCAs :: "string list option"
  tc_MinVersion :: tls_version

record tls_lib =
  tl_LoadX509KeyPair :: "string \<Rightarrow> string \<Rightarrow> string option"
  tl_ReadFile :: "string \<Rightarrow> string option"
  tl_AppendCertsFromPEM :: "string \<Rightarrow> string list option"

datatype tls_error = LoadCertFailed | ReadCAFailed | InvalidCA string

definition cert_pool :: "tls_lib \<Rightarrow> string \<Rightarrow> tls_error + string list" where
  "cert_pool lib caFile =
     (case tl_ReadFile lib caFile of
        None \<Rightarrow> Inl ReadCAFailed
      | Some caPEM \<Rightarrow>
          (case tl_AppendCertsFromPEM lib caPEM of None \<Rightarrow> Inl (InvalidCA caFile) | Some pool \<Rightarrow> Inr pool))"

definition ServerTLSConfig :: "tls_lib \<Rightarrow> string \<Rightarrow> string \<Rightarrow> string \<Rightarrow> tls_error + tls_config" where
  "ServerTLSConfig lib serverCertFile serverKeyFile clientCAFile =
     (case tl_LoadX509KeyPair lib serverCertFile serverKeyFile of
        None \<Rightarrow> Inl LoadCertFailed
      | Some cert \<Rightarrow>
          (case cert_pool lib clientCAFile of
             Inl e \<Rightarrow> Inl e
           | Inr pool \<Rightarrow>
               Inr \<lparr>tc_Certificates = [cert], tc_ClientAuth = RequireAndVerifyClientCert,
                    tc_ClientCAs = Some pool, tc_RootCAs = None, tc_MinVersion = VersionTLS13\<rparr>))"

definition ServerTLSConfigNoClientAuth :: "tls_lib \<Rightarrow> string \<Rightarrow> string \<Rightarrow> tls_error + tls_config" where
  "ServerTLSConfigNoClientAuth lib serverCertFile serverKeyFile =
     (case tl_LoadX509KeyPair lib serverCertFile serverKeyFile of
        None \<Rightarrow> Inl LoadCertFailed
      | Some cert \<Rightarrow>
          Inr \<lparr>tc_Certificates = [cert], tc_ClientAuth = NoClientCert, tc_ClientCAs = None, tc_RootCAs = None,
               tc_MinVersion = VersionTLS13\<rparr>)"

definition ClientTLSConfig :: "tls_lib \<Rightarrow> string \<Rightarrow> string \<Rightarrow> string \<Rightarrow> tls_error + tls_config" where
  "ClientTLSConfig lib certFile keyFile serverCAFile =
     (case tl_LoadX509KeyPair lib certFile keyFile of
        None \<Rightarrow> Inl LoadCertFailed
      | Some cert \<Rightarrow>
          (case cert_pool lib serverCAFile of
             Inl e \<Rightarrow> Inl e
           | Inr pool \<Rightarrow>
               Inr \<lparr>tc_Certificates = [cert], tc_ClientAuth = NoClientCert, tc_ClientCAs = None,
                    tc_RootCAs = Some pool, tc_MinVersion = VersionTLS13\<rparr>))"

text \<open>
  The client of \<open>src/cmd/broker-ctl/main.go\<close>, which sets no minimum version; its error for a file
  without certificates does not name the file.
\<close>

definition buildTLSConfig :: "tls_lib \<Rightarrow> string \<Rightarrow> string \<Rightarrow> string \<Rightarrow> tls_error + tls_config" where
  "buildTLSConfig lib certFile keyFile caFile =
     (case tl_LoadX509KeyPair lib certFile keyFile of
        None \<Rightarrow> Inl LoadCertFailed
      | Some cert \<Rightarrow>
          (case cert_pool lib caFile of
             Inl (InvalidCA _) \<Rightarrow> Inl (InvalidCA '''')
           | Inl e \<Rightarrow> Inl e
           | Inr pool \<Rightarrow>
               Inr \<lparr>tc_Certificates = [cert], tc_ClientAuth = NoClientCert, tc_ClientCAs = None,
                    tc_RootCAs = Some pool, tc_MinVersion = VersionTLS12\<rparr>))"

text \<open>
  The peer a server with a configuration lets through its handshake, and the common name its
  handlers see: \<open>verifies pool c\<close> tells whether the chain of the client's certificate \<open>c\<close> leads to
  the pool.
\<close>

definition handshake_peer ::
    "(string list \<Rightarrow> 'c \<Rightarrow> bool) \<Rightarrow> ('c \<Rightarrow> string) \<Rightarrow> tls_config \<Rightarrow> 'c option \<Rightarrow> string option option" where
  "handshake_peer verifies cn tc client =
     (case tc_ClientAuth tc of
        NoClientCert \<Rightarrow> Some None
      | RequireAndVerifyClientCert \<Rightarrow>
          (case client of
             None \<Rightarrow> None
           | Some c \<Rightarrow>
               if (case tc_ClientCAs tc of None \<Rightarrow> False | Some pool \<Rightarrow> verifies pool c) then Some (Some (cn c)) else None))"

section \<open>Serving\<close>

text \<open>
  What ends the wait of \<open>RunTLS\<close>: a serve error or a signal. A fatal error ends the process at
  once, without the deferred calls of the caller; a signal drains the requests and returns.
\<close>

datatype serve_end = ServeFailed string | Signalled string

datatype proc_exit = ExitFatal string | Returned "string list"

definition RunTLS :: "string \<Rightarrow> string option \<Rightarrow> serve_end \<Rightarrow> proc_exit" where
  "RunTLS name shutdownErr ev =
     (case ev of
        ServeFailed err \<Rightarrow> ExitFatal (name @ '': serve: '' @ err)
      | Signalled sig \<Rightarrow>
          Returned ((name @ '': received '' @ sig @ '', shutting down...'') #
            (case shutdownErr of None \<Rightarrow> [] | Some err \<Rightarrow> [name @ '': graceful shutdown error: '' @ err])))"

definition deferred_run :: "proc_exit \<Rightarrow> bool" where
  "deferred_run x = (case x of ExitFatal _ \<Rightarrow> False | Returned _ \<Rightarrow> True)"

section \<open>Version\<close>

record build_info =
  bi_MainVersion :: string
  bi_Settings :: "(string \<times> string) list"

definition setting_step :: "string \<times> string \<Rightarrow> string \<times> bool \<Rightarrow> string \<times> bool" where
  "setting_step st rd =
     (case st of (key, val) \<Rightarrow>
        if key = ''vcs.revision'' then (take 12 val, snd rd)
        else if key = ''vcs.modified'' then (fst rd, val = ''true'')
        else rd)"

definition vcsInfo :: "build_info \<Rightarrow> string \<times> bool" where
  "vcsInfo info = fold setting_step (bi_Settings info) ('''', False)"

definition version_String :: "string \<Rightarrow> build_info option \<Rightarrow> string" where
  "version_String injected info =
     (if injected \<noteq> '''' then injected
      else case info of
        None \<Rightarrow> ''dev''
      | Some i \<Rightarrow>
          if bi_MainVersion i \<noteq> '''' \<and> bi_MainVersion i \<noteq> ''(devel)'' then bi_MainVersion i
          else
            (case vcsInfo i of (rv, dirty) \<Rightarrow>
               if rv = '''' then ''dev''
               else if dirty then ''dev-'' @ rv @ ''-dirty''
               else ''dev-'' @ rv))"

definition vcs_time :: "build_info \<Rightarrow> string" where
  "vcs_time info = fold (\<lambda>(key, val) w. if key = ''vcs.time'' then val else w) (bi_Settings info) ''''"

record go_runtime =
  gr_Version :: string
  gr_GOOS :: string
  gr_GOARCH :: string

definition Detailed :: "go_runtime \<Rightarrow> string \<Rightarrow> build_info option \<Rightarrow> string" where
  "Detailed rt injected info =
     ''version '' @ version_String injected info @ [CHR 0x0A] @ ''  go: '' @ gr_Version rt @
     [CHR 0x0A] @ ''  platform: '' @ gr_GOOS rt @ ''/'' @ gr_GOARCH rt @
     (case info of
        None \<Rightarrow> ''''
      | Some i \<Rightarrow>
          (let (rv, _) = vcsInfo i; when = vcs_time i in
           (if rv \<noteq> '''' then [CHR 0x0A] @ ''  revision: '' @ rv else '''') @
           (if when \<noteq> '''' then [CHR 0x0A] @ ''  built: '' @ when else '''')))"

definition version_Print :: "go_runtime \<Rightarrow> string \<Rightarrow> build_info option \<Rightarrow> bool \<Rightarrow> string" where
  "version_Print rt injected info verbose =
     (if verbose then Detailed rt injected info else version_String injected info) @ [CHR 0x0A]"

section \<open>The audit log of a service\<close>

text \<open>
  \<open>seed\<close> is the content of the key file, \<open>codec\<close> the codec of the key made from its first 32
  bytes. The redactor is installed before the first record.
\<close>

datatype start_error =
    StartConfig
  | StartSigner
  | SeedUnreadable
  | SeedTooShort
  | StartAudit audit_error
  | StartRedact redact_error
  | StartTLS tls_error
  | StartNotifier string
  | StartTicker

definition SeedSize :: nat where
  "SeedSize = 32"

definition audit_start ::
    "(string \<Rightarrow> audit_codec) \<Rightarrow> regexp_lib \<Rightarrow> string option \<Rightarrow> bool \<Rightarrow> audit_fs \<Rightarrow> redact_Config option \<Rightarrow>
     start_error + (Log \<times> audit_fs \<times> redact_rule list option)" where
  "audit_start codec rx seed open_ok fs redact =
     (case seed of
        None \<Rightarrow> Inl SeedUnreadable
      | Some sd \<Rightarrow>
          if length sd < SeedSize then Inl SeedTooShort
          else
            (case audit_Open (codec (take SeedSize sd)) open_ok fs of
               Inl e \<Rightarrow> Inl (StartAudit e)
             | Inr (lg, fs) \<Rightarrow>
                 (case redact of
                    None \<Rightarrow> Inr (lg, fs, None)
                  | Some rc \<Rightarrow>
                      (case redact_New rx (Some rc) of
                         Inl e \<Rightarrow> Inl (StartRedact e)
                       | Inr None \<Rightarrow> Inr (lg, fs, None)
                       | Inr (Some rules) \<Rightarrow> Inr (SetRedactor (Some (Redact rx (Some rules))) lg, fs, Some rules)))))"

section \<open>Lemmas\<close>

lemmas tls_defs = ServerTLSConfig_def ServerTLSConfigNoClientAuth_def ClientTLSConfig_def cert_pool_def

text \<open>A server that authenticates by certificate lets no peer through that its pool does not vouch for.\<close>

lemma ServerTLSConfig_peer:
  assumes "ServerTLSConfig lib crt key ca = Inr tc" and "handshake_peer verifies cn tc client = Some peer"
  shows "\<exists>pem pool c. tl_ReadFile lib ca = Some pem \<and> tl_AppendCertsFromPEM lib pem = Some pool \<and>
     client = Some c \<and> verifies pool c \<and> peer = Some (cn c)"
  using assms by (auto simp: tls_defs handshake_peer_def split: option.splits sum.splits if_splits)

lemma server_tls13:
  "ServerTLSConfig lib crt key ca = Inr tc \<Longrightarrow> tc_MinVersion tc = VersionTLS13"
  "ClientTLSConfig lib crt key ca = Inr tc \<Longrightarrow> tc_MinVersion tc = VersionTLS13 \<and> tc_RootCAs tc \<noteq> None"
  by (auto simp: tls_defs split: option.splits sum.splits)

lemma deferred_run_RunTLS: "deferred_run (RunTLS name e ev) \<longleftrightarrow> (\<exists>sig. ev = Signalled sig)"
  by (cases ev) (simp_all add: RunTLS_def deferred_run_def)

lemma audit_start_open:
  assumes "audit_start codec rx seed ok fs redact = Inr (lg, fs', r)"
  shows "lg_open lg \<and> (\<exists>sd. seed = Some sd \<and> SeedSize \<le> length sd) \<and>
     lg_redactor lg = (case r of None \<Rightarrow> None | Some rules \<Rightarrow> Some (Redact rx (Some rules)))"
  using assms
  by (auto simp: audit_start_def audit_Open_def restoreChain_def SetRedactor_def Let_def
      split: option.splits sum.splits if_splits prod.splits list.splits)

lemma audit_start_redacts:
  assumes "audit_start codec rx seed ok fs (Some rc) = Inr (lg, fs', r)" and "r = None"
  shows "rd_DisableDefaults rc \<and> rd_Patterns rc = []"
proof -
  from assms have "redact_New rx (Some rc) = Inr None"
    by (auto simp: audit_start_def split: option.splits sum.splits if_splits)
  moreover have "Defaults \<noteq> []" by (simp add: Defaults_def)
  ultimately show ?thesis by (auto simp: redact_New_def Let_def split: sum.splits if_splits)
qed

text \<open>
  The last settings win, wherever they stand, and the revision is cut to twelve bytes.
\<close>

lemma setting_step_fold:
  "fst (fold setting_step ss rd) = (case rev (filter (\<lambda>(k, _). k = ''vcs.revision'') ss) of
      [] \<Rightarrow> fst rd | (_, v) # _ \<Rightarrow> take 12 v)"
  "snd (fold setting_step ss rd) = (case rev (filter (\<lambda>(k, _). k = ''vcs.modified'') ss) of
      [] \<Rightarrow> snd rd | (_, v) # _ \<Rightarrow> v = ''true'')"
proof (induction ss rule: rev_induct)
  case (snoc x xs)
  obtain k v where x: "x = (k, v)" by (cases x)
  { case 1 show ?case using snoc by (simp add: x setting_step_def) }
  { case 2 show ?case using snoc by (simp add: x setting_step_def) }
qed simp_all

lemma vcsInfo_short: "length (fst (vcsInfo i)) \<le> 12"
  by (simp add: vcsInfo_def setting_step_fold split: list.splits prod.splits)

end
