(* ===== verification/Engine_Life.thy ===== *)
theory Engine_Life
  imports Session_Flow Service_Start
begin

text \<open>
  The life of a broker engine, \<open>src/internal/broker/engine.go\<close>: the loading of the configuration,
  \<open>NewEngine\<close> with everything it starts, the periodic refresh of the hosts, the memo of parsed host
  keys, and \<open>Close\<close>. What is started and released is a list of events, so that a handle or a
  goroutine left behind is visible.
\<close>

section \<open>Configuration\<close>

datatype load_error = ConfigUnreadable | ConfigRejected

text \<open>\<open>decode\<close> is the strict decoder, with the value of \<open>listen\<close> beside the configuration.\<close>

definition LoadConfig ::
    "(string \<Rightarrow> ('c \<times> string) option) \<Rightarrow> string option \<Rightarrow> load_error + 'c \<times> string" where
  "LoadConfig decode content =
     (case content of
        None \<Rightarrow> Inl ConfigUnreadable
      | Some b \<Rightarrow>
          (case decode b of
             None \<Rightarrow> Inl ConfigRejected
           | Some (c, listen) \<Rightarrow> Inr (c, if listen = '''' then '':8443'' else listen)))"

record SignerClientConfig =
  sg_URL :: string
  sg_ClientCert :: string
  sg_ClientKey :: string
  sg_CA :: string
  sg_ApprovalWaitSeconds :: int

section \<open>The signer of an engine\<close>

record Remote =
  rm_url :: string
  rm_timeout :: duration
  rm_tls :: tls_config
  rm_approvalWait :: duration

definition NewRemote :: "string \<Rightarrow> tls_config \<Rightarrow> duration \<Rightarrow> Remote" where
  "NewRemote url tlsCfg timeout =
     \<lparr>rm_url = url, rm_timeout = (if timeout = 0 then 10 * second_ns else timeout), rm_tls = tlsCfg,
      rm_approvalWait = 0\<rparr>"

definition SetApprovalWait :: "duration \<Rightarrow> Remote \<Rightarrow> Remote" where
  "SetApprovalWait d r = r\<lparr>rm_approvalWait := d\<rparr>"

datatype engine_signer = RemoteSigner Remote | LocalSigner Local

datatype engine_error =
    SignerTLS tls_error
  | SignerCAKeys
  | SignerPolicy compile_error
  | EngineStart start_error
  | InitialHostLoad remote_error

record engine_env =
  ev_re :: regex_engine
  ev_tls :: tls_lib
  ev_cas :: "(CAKey \<times> (string, CAKey) gomap) option"
  ev_codec :: "string \<Rightarrow> audit_codec"
  ev_rx :: regexp_lib
  ev_seed :: "string option"
  ev_audit_ok :: bool
  ev_audit_fs :: audit_fs
  ev_hosts :: transport

record engine_config =
  eg_cfg :: broker_Config
  eg_Signer :: "SignerClientConfig option"
  eg_Redact :: "redact_Config option"
  eg_HostsRefreshSeconds :: int

definition engine_buildSigner :: "engine_env \<Rightarrow> engine_config \<Rightarrow> duration \<Rightarrow> engine_error + engine_signer" where
  "engine_buildSigner ev c maxTTL =
     (case eg_Signer c of
        Some sc \<Rightarrow>
          (case ClientTLSConfig (ev_tls ev) (sg_ClientCert sc) (sg_ClientKey sc) (sg_CA sc) of
             Inl e \<Rightarrow> Inl (SignerTLS e)
           | Inr tlsCfg \<Rightarrow>
               let r = NewRemote (sg_URL sc) tlsCfg 0 in
               Inr (RemoteSigner
                 (if sg_ApprovalWaitSeconds sc > 0 then SetApprovalWait (seconds (sg_ApprovalWaitSeconds sc)) r else r)))
      | None \<Rightarrow>
          (case ev_cas ev of
             None \<Rightarrow> Inl SignerCAKeys
           | Some (defaultCA, groupCAs) \<Rightarrow>
               (case buildSigner (ev_re ev) defaultCA groupCAs (eg_cfg c) maxTTL of
                  Inl e \<Rightarrow> Inl (SignerPolicy e)
                | Inr l \<Rightarrow> Inr (LocalSigner l))))"

section \<open>Start\<close>

datatype resource = AuditHandle | ReaperRoutine | RefreshRoutine

datatype life_event = Acquired resource | Released resource

record live_engine =
  le_engine :: engine
  le_signer :: engine_signer
  le_log :: Log
  le_redactor :: "redact_rule list option"
  le_sessions :: sessionManager
  le_refresh :: "duration option"
  le_closed :: "bool option"

abbreviation positive_or :: "duration \<Rightarrow> duration \<Rightarrow> duration" where
  "positive_or d d0 \<equiv> (if d \<le> 0 then d0 else d)"

definition refresh_interval :: "engine_config \<Rightarrow> duration" where
  "refresh_interval c = positive_or (seconds (eg_HostsRefreshSeconds c)) (5 * minute_ns)"

text \<open>
  The audit log is open when its redactor is compiled, and the reaper of the sessions runs when
  the hosts are loaded. A compilation error closes neither; a failed load closes the log only.
\<close>

definition startEngine :: "engine_env \<Rightarrow> engine_config \<Rightarrow> (engine_error + live_engine) \<times> life_event list" where
  "startEngine ev c =
     (let maxTTL = positive_or (seconds (bk_MaxTTLSeconds (eg_cfg c))) (5 * minute_ns) in
      case engine_buildSigner ev c maxTTL of
        Inl e \<Rightarrow> (Inl e, [])
      | Inr sg \<Rightarrow>
     (case audit_start (ev_codec ev) (ev_rx ev) (ev_seed ev) (ev_audit_ok ev) (ev_audit_fs ev) (eg_Redact c) of
        Inl (StartRedact e) \<Rightarrow> (Inl (EngineStart (StartRedact e)), [Acquired AuditHandle])
      | Inl e \<Rightarrow> (Inl (EngineStart e), [])
      | Inr (lg, _, redactor) \<Rightarrow>
          let e = (\<lambda>hosts refresh.
                \<lparr>le_engine = NewEngine (eg_cfg c) (eg_Signer c \<noteq> None) hosts, le_signer = sg, le_log = lg,
                 le_redactor = redactor, le_sessions = engine_sessions (eg_cfg c), le_refresh = refresh,
                 le_closed = None\<rparr>);
              started = [Acquired AuditHandle, Acquired ReaperRoutine]
          in (case sg of
                LocalSigner _ \<Rightarrow> (Inr (e [] None), started)
              | RemoteSigner _ \<Rightarrow>
                  (case FetchHosts (ev_hosts ev) of
                     Inl err \<Rightarrow> (Inl (InitialHostLoad err), started @ [Released AuditHandle])
                   | Inr h \<Rightarrow> (Inr (e h (Some (refresh_interval c))), started @ [Acquired RefreshRoutine])))))"

section \<open>Refresh and close\<close>

text \<open>One tick of \<open>startHostRefresh\<close>; a failed fetch keeps the cache.\<close>

definition refresh_tick :: "transport \<Rightarrow> live_engine \<Rightarrow> live_engine" where
  "refresh_tick tr e =
     (if le_refresh e = None \<or> le_closed e \<noteq> None then e
      else case FetchHosts tr of
        Inl _ \<Rightarrow> e
      | Inr h \<Rightarrow> e\<lparr>le_engine := (le_engine e)\<lparr>en_hosts := h\<rparr>\<rparr>)"

text \<open>\<open>close_ok\<close> is the outcome of closing the log; \<open>closeOnce\<close> keeps that of the first call.\<close>

definition engine_Close :: "bool \<Rightarrow> live_engine \<Rightarrow> bool \<times> live_engine \<times> life_event list" where
  "engine_Close close_ok e =
     (case le_closed e of
        Some ok \<Rightarrow> (ok, e, [])
      | None \<Rightarrow>
          let ok = audit_Close close_ok (le_log e) in
          (ok, e\<lparr>le_sessions := closeAll (le_sessions e), le_closed := Some ok\<rparr>,
           (if le_refresh e \<noteq> None then [Released RefreshRoutine] else []) @
           [Released ReaperRoutine, Released AuditHandle]))"

section \<open>Host keys\<close>

text \<open>
  \<open>parse\<close> is \<open>ssh.ParseAuthorizedKey\<close>. The memo holds keys and errors; the last component says
  whether the parser ran.
\<close>

type_synonym 'k key_memo = "(string, 'k option) gomap"

definition ParseHostKey :: "(string \<Rightarrow> 'k option) \<Rightarrow> string \<Rightarrow> 'k option" where
  "ParseHostKey parse line = parse line"

definition parseHostKeyCached :: "(string \<Rightarrow> 'k option) \<Rightarrow> string \<Rightarrow> 'k key_memo \<Rightarrow> 'k option \<times> 'k key_memo \<times> bool" where
  "parseHostKeyCached parse line memo =
     (case get memo line of
        Some r \<Rightarrow> (r, memo, False)
      | None \<Rightarrow> let r = ParseHostKey parse line in (r, put line r memo, True))"

fun parse_keys :: "(string \<Rightarrow> 'k option) \<Rightarrow> string list \<Rightarrow> 'k key_memo \<Rightarrow> 'k option list \<times> nat \<times> 'k key_memo" where
  "parse_keys parse [] memo = ([], 0, memo)"
| "parse_keys parse (l # ls) memo =
     (case parseHostKeyCached parse l memo of
        (r, memo, miss) \<Rightarrow>
          (case parse_keys parse ls memo of
             (rs, n, memo) \<Rightarrow> (r # rs, (if miss then Suc n else n), memo)))"

section \<open>Lemmas\<close>

definition memo_ok :: "(string \<Rightarrow> 'k option) \<Rightarrow> 'k key_memo \<Rightarrow> bool" where
  "memo_ok parse memo \<longleftrightarrow> (\<forall>line r. get memo line = Some r \<longrightarrow> r = ParseHostKey parse line)"

lemma memo_ok_cached:
  assumes "memo_ok parse memo" and "parseHostKeyCached parse line memo = (r, memo', miss)"
  shows "r = ParseHostKey parse line" and "memo_ok parse memo'" and "dom (get memo') = insert line (dom (get memo))"
    and "miss \<longleftrightarrow> line \<notin> dom (get memo)"
  using assms by (auto simp: parseHostKeyCached_def memo_ok_def update_conv Let_def split: option.splits if_splits)

text \<open>
  Memoising is transparent: any sequence of lookups returns what the parser returns for each line,
  and the parser runs once per line that the memo does not know.
\<close>

lemma parse_keys_transparent:
  assumes "memo_ok parse memo"
  shows "fst (parse_keys parse ls memo) = map (ParseHostKey parse) ls \<and>
     fst (snd (parse_keys parse ls memo)) = card (set ls - dom (get memo)) \<and>
     memo_ok parse (snd (snd (parse_keys parse ls memo)))"
  using assms
proof (induction ls arbitrary: memo)
  case (Cons l ls)
  obtain r memo' miss where c: "parseHostKeyCached parse l memo = (r, memo', miss)" by (metis surj_pair)
  note m = memo_ok_cached [OF Cons.prems c]
  have "card (set (l # ls) - dom (get memo)) = (if miss then Suc else id) (card (set ls - dom (get memo')))"
  proof -
    have "set (l # ls) - dom (get memo) = (if miss then insert l else id) (set ls - dom (get memo'))"
      using m(3,4) by auto
    moreover have "l \<notin> set ls - dom (get memo')" using m(3) by auto
    ultimately show ?thesis by simp
  qed
  with Cons.IH [OF m(2)] m(1) show ?case by (auto simp: c split: prod.splits)
qed simp

section \<open>What an engine holds\<close>

fun held_step :: "life_event \<Rightarrow> resource set \<Rightarrow> resource set" where
  "held_step (Acquired r) S = insert r S"
| "held_step (Released r) S = S - {r}"

definition held :: "life_event list \<Rightarrow> resource set" where
  "held evs = fold held_step evs {}"

lemma audit_start_remote:
  assumes "startEngine ev c = (Inr e, evs)"
  obtains sg lg fs redactor where
    "engine_buildSigner ev c (positive_or (seconds (bk_MaxTTLSeconds (eg_cfg c))) (5 * minute_ns)) = Inr sg"
    and "audit_start (ev_codec ev) (ev_rx ev) (ev_seed ev) (ev_audit_ok ev) (ev_audit_fs ev) (eg_Redact c) = Inr (lg, fs, redactor)"
    and "le_signer e = sg" and "le_log e = lg" and "le_sessions e = engine_sessions (eg_cfg c)" and "le_closed e = None"
    and "\<exists>hosts. le_engine e = NewEngine (eg_cfg c) (eg_Signer c \<noteq> None) hosts"
    and "(\<exists>l. sg = LocalSigner l) \<and> le_refresh e = None \<and> evs = [Acquired AuditHandle, Acquired ReaperRoutine] \<or>
         (\<exists>r h. sg = RemoteSigner r \<and> FetchHosts (ev_hosts ev) = Inr h \<and> en_hosts (le_engine e) = h) \<and>
         le_refresh e = Some (refresh_interval c) \<and>
         evs = [Acquired AuditHandle, Acquired ReaperRoutine, Acquired RefreshRoutine]"
proof -
  from assms obtain sg where sg:
      "engine_buildSigner ev c (positive_or (seconds (bk_MaxTTLSeconds (eg_cfg c))) (5 * minute_ns)) = Inr sg"
    by (auto simp: startEngine_def Let_def split: sum.splits)
  from assms sg obtain lg fs rd where a:
      "audit_start (ev_codec ev) (ev_rx ev) (ev_seed ev) (ev_audit_ok ev) (ev_audit_fs ev) (eg_Redact c) = Inr (lg, fs, rd)"
    by (auto simp: startEngine_def Let_def split: sum.splits start_error.splits)
  show thesis
  proof (rule that [OF sg a])
    note d = assms [unfolded startEngine_def Let_def sg sum.case a prod.case]
    show "le_signer e = sg" "le_log e = lg" "le_sessions e = engine_sessions (eg_cfg c)" "le_closed e = None"
      "\<exists>hosts. le_engine e = NewEngine (eg_cfg c) (eg_Signer c \<noteq> None) hosts"
      "(\<exists>l. sg = LocalSigner l) \<and> le_refresh e = None \<and> evs = [Acquired AuditHandle, Acquired ReaperRoutine] \<or>
         (\<exists>r h. sg = RemoteSigner r \<and> FetchHosts (ev_hosts ev) = Inr h \<and> en_hosts (le_engine e) = h) \<and>
         le_refresh e = Some (refresh_interval c) \<and>
         evs = [Acquired AuditHandle, Acquired ReaperRoutine, Acquired RefreshRoutine]"
      using d by (auto simp: NewEngine_def Let_def split: engine_signer.splits sum.splits)
  qed
qed

text \<open>
  An engine that starts is well formed. Its certificate lifetime, the idle time and the
  lifetime of its sessions and the interval of its refresh are positive whatever integers the
  configuration holds, products that wrap around included, so that no ticker panics and no
  session is reaped at once; its log is open; and it is in remote mode exactly when its signer is
  the remote one, which is exactly when the refresh runs.
\<close>

theorem started_engine_wellformed:
  assumes "startEngine ev c = (Inr e, evs)"
  shows "en_maxTTL (le_engine e) > 0 \<and> sm_idleTTL (le_sessions e) > 0 \<and> sm_maxLife (le_sessions e) > 0 \<and>
     (\<forall>d. le_refresh e = Some d \<longrightarrow> d > 0) \<and> lg_open (le_log e) \<and>
     en_remote (le_engine e) = (\<exists>r. le_signer e = RemoteSigner r) \<and>
     en_remote (le_engine e) = (le_refresh e \<noteq> None) \<and>
     sess_reach (sm_idleTTL (le_sessions e)) (sm_maxLife (le_sessions e)) (le_sessions e, [])"
  using assms
proof (rule audit_start_remote)
  fix sg lg fs rd
  assume sg: "engine_buildSigner ev c (positive_or (seconds (bk_MaxTTLSeconds (eg_cfg c))) (5 * minute_ns)) = Inr sg"
    and a: "audit_start (ev_codec ev) (ev_rx ev) (ev_seed ev) (ev_audit_ok ev) (ev_audit_fs ev) (eg_Redact c) = Inr (lg, fs, rd)"
    and e: "le_signer e = sg" "le_log e = lg" "le_sessions e = engine_sessions (eg_cfg c)" "le_closed e = None"
      "\<exists>hosts. le_engine e = NewEngine (eg_cfg c) (eg_Signer c \<noteq> None) hosts"
    and mode: "(\<exists>l. sg = LocalSigner l) \<and> le_refresh e = None \<and> evs = [Acquired AuditHandle, Acquired ReaperRoutine] \<or>
         (\<exists>r h. sg = RemoteSigner r \<and> FetchHosts (ev_hosts ev) = Inr h \<and> en_hosts (le_engine e) = h) \<and>
         le_refresh e = Some (refresh_interval c) \<and>
         evs = [Acquired AuditHandle, Acquired ReaperRoutine, Acquired RefreshRoutine]"
  have remote: "eg_Signer c \<noteq> None \<longleftrightarrow> (\<exists>r. sg = RemoteSigner r)"
    using sg by (auto simp: engine_buildSigner_def Let_def split: option.splits sum.splits)
  have pos: "0 < minute_ns" by (simp add: minute_ns_def second_ns_def)
  have m: "le_sessions e = newSessionManager (sm_idleTTL (le_sessions e)) (sm_maxLife (le_sessions e))"
    by (simp add: e engine_sessions_def newSessionManager_def Let_def)
  have "sess_reach (sm_idleTTL (le_sessions e)) (sm_maxLife (le_sessions e)) (le_sessions e, [])"
    using sess_reach.reach_init [of "sm_idleTTL (le_sessions e)" "sm_maxLife (le_sessions e)"] m by simp
  moreover have "en_maxTTL (le_engine e) > 0" "sm_idleTTL (le_sessions e) > 0" "sm_maxLife (le_sessions e) > 0"
    "refresh_interval c > 0"
    using e pos by (auto simp: NewEngine_def engine_sessions_def newSessionManager_def refresh_interval_def Let_def)
  moreover have "lg_open (le_log e)" using audit_start_open [OF a] e by simp
  moreover have "en_remote (le_engine e) = (eg_Signer c \<noteq> None)" using e by (auto simp: NewEngine_def Let_def)
  ultimately show ?thesis using mode e remote by auto
qed

text \<open>Everything an engine started is released by its first \<open>Close\<close>, and a second one changes nothing.\<close>

lemma refresh_ticks_keep:
  "le_refresh (fold refresh_tick trs e) = le_refresh e" "le_closed (fold refresh_tick trs e) = le_closed e"
  "le_sessions (fold refresh_tick trs e) = le_sessions e" "le_log (fold refresh_tick trs e) = le_log e"
  by (induction trs arbitrary: e) (auto simp: refresh_tick_def split: sum.splits)

lemma closeAll_empty: "\<not> sm_stopped m \<Longrightarrow> sm_sessions (closeAll m) = []"
  by (simp add: closeAll_def)

lemma engine_close_releases:
  assumes "startEngine ev c = (Inr e, evs)" and "engine_Close ok (fold refresh_tick trs e) = (r, e', evs')"
  shows "held (evs @ evs') = {}" and "sm_sessions (le_sessions e') = []" and "engine_Close ok2 e' = (r, e', [])"
proof -
  note k = refresh_ticks_keep [of trs e]
  show "held (evs @ evs') = {}" "sm_sessions (le_sessions e') = []" "engine_Close ok2 e' = (r, e', [])"
    by (rule audit_start_remote [OF assms(1)], insert assms(2) k,
        force simp: engine_Close_def held_def Let_def engine_sessions_def newSessionManager_def closeAll_def)+
qed

text \<open>The cached hosts are those of the last fetch that worked.\<close>

definition fetched :: "transport list \<Rightarrow> (string, HostInfo) gomap list" where
  "fetched trs = concat (map (\<lambda>tr. case FetchHosts tr of Inl _ \<Rightarrow> [] | Inr h \<Rightarrow> [h]) trs)"

lemma refresh_last_fetch:
  assumes "le_refresh e \<noteq> None" and "le_closed e = None"
  shows "en_hosts (le_engine (fold refresh_tick trs e)) = last (en_hosts (le_engine e) # fetched trs)"
  using assms
proof (induction trs arbitrary: e)
  case (Cons tr trs)
  have "le_refresh (refresh_tick tr e) \<noteq> None" "le_closed (refresh_tick tr e) = None"
    using Cons.prems refresh_ticks_keep [of "[tr]" e] by simp_all
  with Cons show ?case
    by (cases "FetchHosts tr") (auto simp: refresh_tick_def fetched_def)
qed (simp add: fetched_def)

text \<open>
  What a failed start leaves behind. When \<open>NewEngine\<close> returns an error, everything it had
  acquired is released except in two cases: an invalid redaction rule leaves the audit log open,
  and a failed initial load of the hosts leaves the reaper of the sessions running.
\<close>

theorem failed_start_leaks:
  assumes "startEngine ev c = (Inl err, evs)"
  shows "held evs = (case err of
      EngineStart (StartRedact _) \<Rightarrow> {AuditHandle} | InitialHostLoad _ \<Rightarrow> {ReaperRoutine} | _ \<Rightarrow> {})"
  using assms
  by (auto simp: startEngine_def held_def engine_buildSigner_def Let_def
      split: sum.splits start_error.splits engine_signer.splits option.splits)

section \<open>Witnesses\<close>

definition sample_engine_env :: engine_env where
  "sample_engine_env = \<lparr>ev_re = sample_engine,
     ev_tls = \<lparr>tl_LoadX509KeyPair = (\<lambda>c k. Some c), tl_ReadFile = (\<lambda>f. Some f), tl_AppendCertsFromPEM = (\<lambda>p. Some [p])\<rparr>,
     ev_cas = None, ev_codec = (\<lambda>k. list_codec), ev_rx = sample_rx, ev_seed = Some (replicate 32 CHR ''k''),
     ev_audit_ok = True, ev_audit_fs = \<lparr>fs_current = None, fs_rotated = []\<rparr>, ev_hosts = DoFailed\<rparr>"

definition sample_engine_config :: engine_config where
  "sample_engine_config = \<lparr>eg_cfg = \<lparr>bk_SourceAddress = '''', bk_MaxTTLSeconds = 9223372037, bk_SessionIdleSeconds = 0,
       bk_SessionMaxSeconds = -5, bk_FileTransferMaxBytes = 0, bk_Hosts = [], bk_CommandPolicies = [],
       bk_GroupCommandPolicies = []\<rparr>,
     eg_Signer = Some \<lparr>sg_URL = ''https://signer'', sg_ClientCert = ''c'', sg_ClientKey = ''k'', sg_CA = ''a'',
       sg_ApprovalWaitSeconds = 30\<rparr>,
     eg_Redact = None, eg_HostsRefreshSeconds = 9223372037\<rparr>"

lemmas sample_engine_defs = sample_engine_env_def sample_engine_config_def startEngine_def engine_buildSigner_def
  audit_start_def audit_Open_def restoreChain_def SeedSize_def tls_defs

theorem started_engine_wellformed_witness:
  "\<exists>e evs. startEngine (sample_engine_env\<lparr>ev_hosts := Responded \<lparr>rs_status = 200, rs_body = BodyHosts []\<rparr>\<rparr>)
      sample_engine_config = (Inr e, evs) \<and> en_maxTTL (le_engine e) > 0"
proof -
  have "\<exists>e evs. startEngine (sample_engine_env\<lparr>ev_hosts := Responded \<lparr>rs_status = 200, rs_body = BodyHosts []\<rparr>\<rparr>)
      sample_engine_config = (Inr e, evs)"
    by (simp add: sample_engine_defs Let_def FetchHosts_def)
  then obtain e evs where s: "startEngine (sample_engine_env\<lparr>ev_hosts := Responded \<lparr>rs_status = 200, rs_body = BodyHosts []\<rparr>\<rparr>)
      sample_engine_config = (Inr e, evs)" by blast
  from started_engine_wellformed [OF s] s show ?thesis by blast
qed

theorem failed_start_leaks_witness:
  "\<exists>err evs. startEngine sample_engine_env sample_engine_config = (Inl err, evs) \<and> held evs = {ReaperRoutine}"
proof -
  have "\<exists>evs. startEngine sample_engine_env sample_engine_config = (Inl (InitialHostLoad SignerUnavailable), evs)"
    by (simp add: sample_engine_defs Let_def FetchHosts_def)
  then obtain evs where s: "startEngine sample_engine_env sample_engine_config = (Inl (InitialHostLoad SignerUnavailable), evs)"
    by blast
  from failed_start_leaks [OF s] s show ?thesis by simp
qed

end
