(* ===== verification/GoMux.thy ===== *)
theory GoMux
  imports GoStrings
begin

text \<open>
  The part of \<open>net/http\<close>'s \<open>ServeMux\<close> that the services use: patterns with an optional method,
  literal segments, single-segment wildcards \<open>{name}\<close> and a trailing slash, and the choice of the
  most specific pattern. A request path is the list of its unescaped segments, the last one empty
  for a trailing slash; a path that is not clean is redirected before any pattern is tried and
  never reaches a handler.
\<close>

datatype seg = Lit string | Wild string | Multi

record mux_pattern =
  pt_method :: string
  pt_segs :: "seg list"

datatype 'h mux_result = Handler 'h "(string \<times> string) list" | NotFound | MethodNotAllowed

type_synonym 'h mux = "(string \<times> 'h) list"

section \<open>Patterns\<close>

definition seg_of :: "string \<Rightarrow> seg" where
  "seg_of s =
     (if s \<noteq> '''' \<and> hd s = CHR ''{'' \<and> last s = CHR ''}'' then Wild (butlast (tl s)) else Lit s)"

fun segs_of :: "string list \<Rightarrow> seg list" where
  "segs_of [] = []"
| "segs_of [s] = (if s = '''' then [Multi] else [seg_of s])"
| "segs_of (s # t # ss) = seg_of s # segs_of (t # ss)"

text \<open>A method, if any, is separated from the path by a blank.\<close>

definition parse_pattern :: "string \<Rightarrow> mux_pattern" where
  "parse_pattern p =
     (let method = takeWhile (\<lambda>c. c \<noteq> CHR '' '') p; path = drop (length method + 1) p in
      if path = '''' then \<lparr>pt_method = '''', pt_segs = segs_of (Split1 (CHR ''/'') (tl p))\<rparr>
      else \<lparr>pt_method = method, pt_segs = segs_of (Split1 (CHR ''/'') (tl path))\<rparr>)"

fun match_segs :: "seg list \<Rightarrow> string list \<Rightarrow> (string \<times> string) list option" where
  "match_segs [] [] = Some []"
| "match_segs (Multi # _) (_ # _) = Some []"
| "match_segs (Lit l # ps) (x # xs) = (if l = x then match_segs ps xs else None)"
| "match_segs (Wild n # ps) (x # xs) =
     (if x \<noteq> '''' then map_option (Cons (n, x)) (match_segs ps xs) else None)"
| "match_segs _ _ = None"

section \<open>Choice of the handler\<close>

text \<open>The routing tree tries a literal before a wildcard before a trailing slash at every position.\<close>

fun rank :: "seg \<Rightarrow> nat" where
  "rank (Lit _) = 2"
| "rank (Wild _) = 1"
| "rank Multi = 0"

fun more_specific :: "seg list \<Rightarrow> seg list \<Rightarrow> bool" where
  "more_specific (p # ps) (q # qs) \<longleftrightarrow> rank p > rank q \<or> rank p = rank q \<and> more_specific ps qs"
| "more_specific _ _ = False"

fun best_match ::
    "(mux_pattern \<times> 'h) list \<Rightarrow> string list \<Rightarrow> (seg list \<times> 'h \<times> (string \<times> string) list) option" where
  "best_match [] path = None"
| "best_match ((p, h) # rs) path =
     (case match_segs (pt_segs p) path of
        None \<Rightarrow> best_match rs path
      | Some bs \<Rightarrow>
          (case best_match rs path of
             None \<Rightarrow> Some (pt_segs p, h, bs)
           | Some (ss, h', bs') \<Rightarrow>
               if more_specific ss (pt_segs p) then Some (ss, h', bs') else Some (pt_segs p, h, bs)))"

definition with_method :: "string \<Rightarrow> (mux_pattern \<times> 'h) list \<Rightarrow> (mux_pattern \<times> 'h) list" where
  "with_method m rs = filter (\<lambda>(p, _). pt_method p = m) rs"

definition match_method ::
    "(mux_pattern \<times> 'h) list \<Rightarrow> string \<Rightarrow> string list \<Rightarrow> (seg list \<times> 'h \<times> (string \<times> string) list) option" where
  "match_method rs method path =
     (case best_match (with_method method rs) path of
        Some r \<Rightarrow> Some r
      | None \<Rightarrow>
          (case (if method = ''HEAD'' then best_match (with_method ''GET'' rs) path else None) of
             Some r \<Rightarrow> Some r
           | None \<Rightarrow> best_match (with_method '''' rs) path))"

text \<open>The request method is never empty.\<close>

definition serve_mux :: "'h mux \<Rightarrow> string \<Rightarrow> string list \<Rightarrow> 'h mux_result" where
  "serve_mux m method path =
     (let rs = map (\<lambda>(p, h). (parse_pattern p, h)) m in
      case match_method rs method path of
        Some (_, h, bs) \<Rightarrow> Handler h bs
      | None \<Rightarrow> if best_match rs path \<noteq> None then MethodNotAllowed else NotFound)"

section \<open>Lemmas\<close>

lemma best_match_SomeD:
  "best_match rs path = Some (ss, h, bs) \<Longrightarrow> \<exists>p. (p, h) \<in> set rs \<and> match_segs (pt_segs p) path = Some bs"
  by (induction rs path rule: best_match.induct) (auto split: option.splits if_splits)

lemma best_match_None: "best_match rs path = None \<longleftrightarrow> (\<forall>(p, h)\<in>set rs. match_segs (pt_segs p) path = None)"
  by (induction rs path rule: best_match.induct) (auto split: option.splits)

lemma match_method_SomeD:
  assumes "match_method rs method path = Some (ss, h, bs)"
  shows "\<exists>p. (p, h) \<in> set rs \<and> match_segs (pt_segs p) path = Some bs \<and>
     (pt_method p = '''' \<or> pt_method p = method \<or> pt_method p = ''GET'' \<and> method = ''HEAD'')"
  using assms
  by (auto simp: match_method_def with_method_def dest!: best_match_SomeD split: option.splits if_splits)

text \<open>A handler runs only for a request that one of its patterns describes.\<close>

lemma serve_mux_Handler:
  assumes "serve_mux m method path = Handler h bs"
  shows "\<exists>p. (p, h) \<in> set m \<and> match_segs (pt_segs (parse_pattern p)) path = Some bs \<and>
     (pt_method (parse_pattern p) \<in> {'''', method} \<or> pt_method (parse_pattern p) = ''GET'' \<and> method = ''HEAD'')"
  using assms
  by (force simp: serve_mux_def Let_def dest!: match_method_SomeD split: option.splits if_splits)

end
