(* ===== verification/Monitor.thy ===== *)
theory Monitor
  imports GoStrings "HOL-Library.Char_ord" "HOL-Library.List_Lexorder"
begin

text \<open>
  The metrics registry and its text exposition (\<open>src/internal/monitor/monitor.go\<close>). The registry is a
  state; a counter is named by its metric and, in a family, by its label value. Values are 64-bit
  integers that wrap around. \<open>gauge\<close> gives the text of a gauge's value at the time of a scrape.
\<close>

section \<open>The registry\<close>

record Vec =
  vc_label :: string
  vc_elems :: "(string, int) gomap"

record registry =
  rg_order :: "string list"
  rg_counters :: "(string, int) gomap"
  rg_vecs :: "(string, Vec) gomap"
  rg_gauges :: "string list"
  rg_help :: "(string, string) gomap"

definition std :: registry where
  "std = \<lparr>rg_order = [], rg_counters = [], rg_vecs = [], rg_gauges = [], rg_help = []\<rparr>"

definition GetCounter :: "string \<Rightarrow> string \<Rightarrow> registry \<Rightarrow> registry" where
  "GetCounter name help r =
     (if get (rg_counters r) name = None
      then r\<lparr>rg_counters := put name 0 (rg_counters r), rg_order := rg_order r @ [name], rg_help := put name help (rg_help r)\<rparr>
      else r)"

definition counter_Add :: "int \<Rightarrow> string \<Rightarrow> registry \<Rightarrow> registry" where
  "counter_Add n name r =
     (case get (rg_counters r) name of
        None \<Rightarrow> r
      | Some v \<Rightarrow> if n > 0 then r\<lparr>rg_counters := put name (wrap64 (v + n)) (rg_counters r)\<rparr> else r)"

definition counter_Inc :: "string \<Rightarrow> registry \<Rightarrow> registry" where
  "counter_Inc = counter_Add 1"

definition GetCounterVec :: "string \<Rightarrow> string \<Rightarrow> string \<Rightarrow> registry \<Rightarrow> registry" where
  "GetCounterVec name help label r =
     (if get (rg_vecs r) name = None
      then r\<lparr>rg_vecs := put name \<lparr>vc_label = label, vc_elems = []\<rparr> (rg_vecs r), rg_order := rg_order r @ [name],
             rg_help := put name help (rg_help r)\<rparr>
      else r)"

definition vec_With :: "string \<Rightarrow> Vec \<Rightarrow> Vec" where
  "vec_With value v = (if get (vc_elems v) value = None then v\<lparr>vc_elems := put value 0 (vc_elems v)\<rparr> else v)"

text \<open>\<open>With(value).Inc()\<close>, the way a family is used.\<close>

definition vec_Inc :: "string \<Rightarrow> string \<Rightarrow> registry \<Rightarrow> registry" where
  "vec_Inc name value r =
     (case get (rg_vecs r) name of
        None \<Rightarrow> r
      | Some v \<Rightarrow>
          let v = vec_With value v
          in r\<lparr>rg_vecs := put name (v\<lparr>vc_elems := put value (wrap64 (the (get (vc_elems v) value) + 1)) (vc_elems v)\<rparr>) (rg_vecs r)\<rparr>)"

definition SetGaugeFunc :: "string \<Rightarrow> string \<Rightarrow> registry \<Rightarrow> registry" where
  "SetGaugeFunc name help r =
     (let r = (if name \<notin> set (rg_gauges r) then r\<lparr>rg_order := rg_order r @ [name], rg_gauges := rg_gauges r @ [name]\<rparr> else r)
      in r\<lparr>rg_help := put name help (rg_help r)\<rparr>)"

section \<open>Exposition\<close>

definition escape_byte :: "char \<Rightarrow> string" where
  "escape_byte c =
     (if c = CHR 0x5C then [CHR 0x5C, CHR 0x5C] else if c = CHR 0x22 then [CHR 0x5C, CHR 0x22]
      else if c = CHR 0x0A then [CHR 0x5C, CHR ''n''] else [c])"

definition escapeLabel :: "string \<Rightarrow> string" where
  "escapeLabel s = concat (map escape_byte s)"

abbreviation newline :: string where "newline \<equiv> [CHR 0x0A]"

definition metric_head :: "registry \<Rightarrow> string \<Rightarrow> string \<Rightarrow> string" where
  "metric_head r name kind =
     ''# HELP '' @ name @ '' '' @ (case get (rg_help r) name of Some h \<Rightarrow> h | None \<Rightarrow> '''') @ newline @
     ''# TYPE '' @ name @ '' '' @ kind @ newline"

definition vec_line :: "string \<Rightarrow> Vec \<Rightarrow> string \<Rightarrow> string" where
  "vec_line name v lv =
     name @ ''{'' @ vc_label v @ [CHR ''='', CHR 0x22] @ escapeLabel lv @ [CHR 0x22, CHR ''}'', CHR '' ''] @
     Itoa (the (get (vc_elems v) lv)) @ newline"

definition metric_text :: "(string \<Rightarrow> string) \<Rightarrow> registry \<Rightarrow> string \<Rightarrow> string" where
  "metric_text gauge r name =
     (case get (rg_counters r) name of
        Some c \<Rightarrow> metric_head r name ''counter'' @ name @ '' '' @ Itoa c @ newline
      | None \<Rightarrow>
     (case get (rg_vecs r) name of
        Some v \<Rightarrow> metric_head r name ''counter'' @ concat (map (vec_line name v) (sort (map fst (vc_elems v))))
      | None \<Rightarrow>
          if name \<in> set (rg_gauges r) then metric_head r name ''gauge'' @ name @ '' '' @ gauge name @ newline else ''''))"

definition writeMetrics :: "(string \<Rightarrow> string) \<Rightarrow> registry \<Rightarrow> string" where
  "writeMetrics gauge r = concat (map (metric_text gauge r) (sort (rg_order r)))"

definition monitor_Mux :: "(string \<Rightarrow> string) \<Rightarrow> registry \<Rightarrow> string \<Rightarrow> string option" where
  "monitor_Mux gauge r path =
     (if path = ''/healthz'' then Some (''ok'' @ newline)
      else if path = ''/metrics'' then Some (writeMetrics gauge r)
      else None)"

section \<open>Labels\<close>

fun unescape_label :: "string \<Rightarrow> string" where
  "unescape_label [] = []"
| "unescape_label (c # s) =
     (if c = CHR 0x5C then
        (case s of [] \<Rightarrow> [c] | d # r \<Rightarrow> (if d = CHR ''n'' then CHR 0x0A else d) # unescape_label r)
      else c # unescape_label s)"

text \<open>
  A label value, which may come from a request, cannot break the exposition: it adds no line and no
  closing quote, and it can be read back.
\<close>

theorem escapeLabel_safe:
  "CHR 0x0A \<notin> set (escapeLabel s) \<and> unescape_label (escapeLabel s @ [CHR 0x22]) = s @ [CHR 0x22]"
proof
  show "CHR 0x0A \<notin> set (escapeLabel s)" by (induction s) (auto simp: escapeLabel_def escape_byte_def)
  show "unescape_label (escapeLabel s @ [CHR 0x22]) = s @ [CHR 0x22]"
    by (induction s) (auto simp: escapeLabel_def escape_byte_def)
qed

section \<open>Counting\<close>

definition vec_value :: "string \<Rightarrow> string \<Rightarrow> registry \<Rightarrow> int" where
  "vec_value name lv r =
     (case get (rg_vecs r) name of None \<Rightarrow> 0 | Some v \<Rightarrow> (case get (vc_elems v) lv of None \<Rightarrow> 0 | Some n \<Rightarrow> n))"

lemma vec_Inc_registered: "get (rg_vecs (vec_Inc name lv r)) name \<noteq> None \<longleftrightarrow> get (rg_vecs r) name \<noteq> None"
  by (auto simp: vec_Inc_def Let_def split: option.splits)

lemma vec_Inc_value:
  "get (rg_vecs r) name \<noteq> None \<Longrightarrow> vec_value name lv (vec_Inc name lv' r) = (if lv' = lv then wrap64 (vec_value name lv r + 1) else vec_value name lv r)"
  by (auto simp: vec_Inc_def vec_value_def vec_With_def Let_def split: option.splits)

text \<open>The value of a family at a label is the number of events with that label, modulo the width of the counter.\<close>

theorem vec_counts_events:
  assumes "get (rg_vecs r) name = Some v" and "vc_elems v = []"
  shows "vec_value name lv (fold (vec_Inc name) events r) = wrap64 (int (count_list events lv))"
proof -
  have w: "wrap64 (wrap64 x + 1) = wrap64 (x + 1)" for x
    by (simp add: wrap64_def mod_simps)
  have "get (rg_vecs r') name \<noteq> None \<Longrightarrow> vec_value name lv r' = wrap64 n \<Longrightarrow>
      vec_value name lv (fold (vec_Inc name) events r') = wrap64 (n + int (count_list events lv))" for r' n
  proof (induction events arbitrary: r' n)
    case (Cons e events)
    have "vec_value name lv (vec_Inc name e r') = wrap64 (n + (if e = lv then 1 else 0))"
      using Cons.prems by (simp add: vec_Inc_value w)
    then have "vec_value name lv (fold (vec_Inc name) events (vec_Inc name e r')) = wrap64 (n + (if e = lv then 1 else 0) + int (count_list events lv))"
      using Cons.prems(1) vec_Inc_registered by (intro Cons.IH) blast+
    then show ?case by (cases "e = lv") (simp_all add: add.assoc)
  qed simp
  from this [of r 0] assms show ?thesis by (simp add: vec_value_def wrap64_def)
qed

end
