(* ===== verification/Front_Service.thy ===== *)
theory Front_Service
  imports Frontends Engine_Life GoMux Monitor
begin

text \<open>
  The three frontends of the broker as processes: \<open>src/cmd/broker/main.go\<close>,
  \<open>src/cmd/mcp-broker/main.go\<close> and \<open>src/cmd/mcp-broker-http/main.go\<close>, with the guarded endpoint of
  the last one, and the monitoring listener of \<open>src/internal/monitor/monitor.go\<close>. The bearer
  middleware and the MCP handler belong to the MCP library and are arguments.
\<close>

section \<open>Start\<close>

datatype front_error =
    FrontConfig load_error
  | FrontNoOAuth
  | FrontNoResource
  | FrontEngine engine_error
  | FrontVerifier verifier_error
  | FrontTLS tls_error

record OAuthConfig =
  oa_Issuer :: string
  oa_Audience :: string
  oa_RequiredScopes :: "string list"
  oa_UserClaim :: string
  oa_GroupsClaim :: string
  oa_MaxTokenAgeSeconds :: int
  oa_ClockSkewSeconds :: int

record front_config = engine_config +
  fc_ServerCert :: string
  fc_ServerKey :: string
  fc_ClientCA :: string
  fc_OAuth :: "OAuthConfig option"
  fc_ResourceURL :: string

record frontend =
  fr_listen :: string
  fr_engine :: live_engine
  fr_tls :: "tls_config option"

definition front_engine ::
    "engine_env \<Rightarrow> (string \<Rightarrow> (front_config \<times> string) option) \<Rightarrow> string option \<Rightarrow>
     front_error + front_config \<times> string \<times> live_engine" where
  "front_engine ev decode content =
     (case LoadConfig decode content of
        Inl e \<Rightarrow> Inl (FrontConfig e)
      | Inr (c, listen) \<Rightarrow>
          (case fst (startEngine ev (engine_config.truncate c)) of
             Inl e \<Rightarrow> Inl (FrontEngine e)
           | Inr eng \<Rightarrow> Inr (c, listen, eng)))"

definition broker_main ::
    "engine_env \<Rightarrow> (string \<Rightarrow> (front_config \<times> string) option) \<Rightarrow> string option \<Rightarrow> front_error + frontend" where
  "broker_main ev decode content =
     (case front_engine ev decode content of
        Inl e \<Rightarrow> Inl e
      | Inr (c, listen, eng) \<Rightarrow>
          (case ServerTLSConfig (ev_tls ev) (fc_ServerCert c) (fc_ServerKey c) (fc_ClientCA c) of
             Inl e \<Rightarrow> Inl (FrontTLS e)
           | Inr tc \<Rightarrow> Inr \<lparr>fr_listen = listen, fr_engine = eng, fr_tls = Some tc\<rparr>))"

definition mcp_stdio_main ::
    "engine_env \<Rightarrow> (string \<Rightarrow> (front_config \<times> string) option) \<Rightarrow> string option \<Rightarrow> front_error + frontend" where
  "mcp_stdio_main ev decode content =
     (case front_engine ev decode content of
        Inl e \<Rightarrow> Inl e
      | Inr (c, listen, eng) \<Rightarrow> Inr \<lparr>fr_listen = listen, fr_engine = eng, fr_tls = None\<rparr>)"

section \<open>The HTTP frontend\<close>

definition prmPath :: string where
  "prmPath = ''/.well-known/oauth-protected-resource''"

definition maxMCPBody :: nat where
  "maxMCPBody = 2 ^ 20"

record resource_metadata =
  md_Resource :: string
  md_AuthorizationServers :: "string list"
  md_ScopesSupported :: "string list"
  md_BearerMethodsSupported :: "string list"
  md_ResourceName :: string

record mcp_endpoint =
  me_verifier :: Verifier
  me_scopes :: "string list"
  me_metadataURL :: string
  me_metadata :: resource_metadata

definition TrimRightSlash :: "string \<Rightarrow> string" where
  "TrimRightSlash s = rev (dropWhile (\<lambda>c. c = CHR ''/'') (rev s))"

definition newMux :: "bool \<Rightarrow> OAuthConfig \<Rightarrow> string \<Rightarrow> verifier_error + mcp_endpoint" where
  "newMux discovered oa resourceURL =
     (case NewVerifier discovered
        \<lparr>oc_Issuer = oa_Issuer oa, oc_Audience = oa_Audience oa, oc_UserClaim = oa_UserClaim oa,
         oc_GroupsClaim = oa_GroupsClaim oa, oc_MaxTokenAge = seconds (oa_MaxTokenAgeSeconds oa),
         oc_ClockSkew = seconds (oa_ClockSkewSeconds oa)\<rparr> of
        Inl e \<Rightarrow> Inl e
      | Inr v \<Rightarrow>
          Inr \<lparr>me_verifier = v, me_scopes = oa_RequiredScopes oa,
               me_metadataURL = TrimRightSlash resourceURL @ prmPath,
               me_metadata = \<lparr>md_Resource = resourceURL, md_AuthorizationServers = [oa_Issuer oa],
                 md_ScopesSupported = oa_RequiredScopes oa, md_BearerMethodsSupported = [''header''],
                 md_ResourceName = ''SSH Broker (MCP)''\<rparr>\<rparr>)"

definition mcp_http_main ::
    "engine_env \<Rightarrow> (string \<Rightarrow> (front_config \<times> string) option) \<Rightarrow> bool \<Rightarrow> string option \<Rightarrow>
     front_error + frontend \<times> mcp_endpoint" where
  "mcp_http_main ev decode discovered content =
     (case LoadConfig decode content of
        Inl e \<Rightarrow> Inl (FrontConfig e)
      | Inr (c, listen) \<Rightarrow>
     (case fc_OAuth c of
        None \<Rightarrow> Inl FrontNoOAuth
      | Some oa \<Rightarrow>
          if fc_ResourceURL c = '''' then Inl FrontNoResource
          else
     (case fst (startEngine ev (engine_config.truncate c)) of
        Inl e \<Rightarrow> Inl (FrontEngine e)
      | Inr eng \<Rightarrow>
     (case newMux discovered oa (fc_ResourceURL c) of
        Inl e \<Rightarrow> Inl (FrontVerifier e)
      | Inr me \<Rightarrow>
     (case ServerTLSConfigNoClientAuth (ev_tls ev) (fc_ServerCert c) (fc_ServerKey c) of
        Inl e \<Rightarrow> Inl (FrontTLS e)
      | Inr tc \<Rightarrow> Inr (\<lparr>fr_listen = listen, fr_engine = eng, fr_tls = Some tc\<rparr>, me))))))"

text \<open>
  A request: its method, path, authorisation header and body. \<open>mw\<close> is the bearer middleware, which
  answers itself (\<open>Inl\<close>) or passes a token on (\<open>Inr\<close>); \<open>checked\<close> is the OIDC library's check of
  a token. \<open>mcp\<close> is the handler behind it, which derives the caller from the token.
\<close>

record mcp_call =
  ml_method :: string
  ml_path :: "string list"
  ml_auth :: string
  ml_body :: string

datatype 'r mcp_answer =
    Metadata resource_metadata
  | Refused int
  | BodyTooLarge
  | McpAnswer 'r
  | NoRoute

datatype mcp_route = PrmRoute | McpRoute

definition mcp_mux :: "mcp_route mux" where
  "mcp_mux = [(prmPath, PrmRoute), (''/'', McpRoute)]"

type_synonym bearer = "(string \<Rightarrow> token_error + TokenInfo) \<Rightarrow> string list \<Rightarrow> string \<Rightarrow> int + TokenInfo"

text \<open>\<open>http.MaxBytesReader\<close>: the read fails beyond the limit.\<close>

definition capBody :: "nat \<Rightarrow> string \<Rightarrow> string option" where
  "capBody limit body = (if length body > limit then None else Some body)"

definition mcp_http_serve ::
    "bearer \<Rightarrow> (string \<Rightarrow> IDToken option) \<Rightarrow> time \<Rightarrow> (Caller \<Rightarrow> string \<Rightarrow> 'r) \<Rightarrow> mcp_endpoint \<Rightarrow> mcp_call \<Rightarrow> 'r mcp_answer" where
  "mcp_http_serve mw checked now mcp me rq =
     (case serve_mux mcp_mux (ml_method rq) (ml_path rq) of
        Handler PrmRoute _ \<Rightarrow> Metadata (me_metadata me)
      | Handler McpRoute _ \<Rightarrow>
          (case mw (\<lambda>tok. Verify (me_verifier me) now (checked tok)) (me_scopes me) (ml_auth rq) of
             Inl status \<Rightarrow> Refused status
           | Inr ti \<Rightarrow>
               (case capBody maxMCPBody (ml_body rq) of
                  None \<Rightarrow> BodyTooLarge
                | Some body \<Rightarrow> McpAnswer (mcp (httpCaller (Some ti)) body)))
      | _ \<Rightarrow> NoRoute)"

section \<open>The monitoring listener\<close>

datatype monitor_end = MonitorFailed string | MonitorCancelled

text \<open>The log lines of the listener: whatever happens to it, the process goes on.\<close>

definition monitor_Serve :: "string \<Rightarrow> string \<Rightarrow> monitor_end \<Rightarrow> string list" where
  "monitor_Serve addr name ev =
     (if addr = '''' then []
      else (name @ '': monitoring on http://'' @ addr @ '' (/healthz, /metrics)'') #
        (case ev of
           MonitorFailed err \<Rightarrow> [name @ '': monitoring listener failed: '' @ err]
         | MonitorCancelled \<Rightarrow> []))"

section \<open>Properties\<close>

text \<open>
  What the middleware documents: it passes on the token information its verifier returned for the
  bearer token of the header, \<open>token_of\<close>.
\<close>

definition bearer_sound :: "(string \<Rightarrow> string option) \<Rightarrow> bearer \<Rightarrow> bool" where
  "bearer_sound token_of mw \<longleftrightarrow> (\<forall>verify scopes hdr ti. mw verify scopes hdr = Inr ti \<longrightarrow>
     (\<exists>tok. token_of hdr = Some tok \<and> verify tok = Inr ti \<and> set scopes \<subseteq> set (case ti_Scopes ti of None \<Rightarrow> [] | Some ss \<Rightarrow> ss)))"

lemma mcp_route_cases:
  "serve_mux mcp_mux m path = Handler h ps \<Longrightarrow> h = PrmRoute \<Longrightarrow> path = [''.well-known'', ''oauth-protected-resource'']"
proof -
  assume "serve_mux mcp_mux m path = Handler h ps" "h = PrmRoute"
  from serve_mux_Handler [OF this(1)] this(2) have
    "match_segs (pt_segs (parse_pattern prmPath)) path = Some ps" by (auto simp: mcp_mux_def)
  moreover have "pt_segs (parse_pattern prmPath) = [Lit ''.well-known'', Lit ''oauth-protected-resource'']" by code_simp
  ultimately show ?thesis
    by (cases path; cases "tl path"; cases "tl (tl path)") (auto split: if_splits)
qed

text \<open>
  The MCP endpoint is guarded. With a middleware that keeps its documented behaviour, the handler
  of the tools runs only for a request with a bearer token that the verifier of this process
  accepted at that moment, with the required scopes, as the user of that token and with at most
  one MiB of body; the only other answer with content is the public metadata document.
\<close>

theorem mcp_endpoint_guarded:
  assumes "bearer_sound token_of mw"
  shows "case mcp_http_serve mw checked now mcp me rq of
      McpAnswer r \<Rightarrow> \<exists>tok ti. token_of (ml_auth rq) = Some tok \<and> Verify (me_verifier me) now (checked tok) = Inr ti \<and>
        set (me_scopes me) \<subseteq> set (case ti_Scopes ti of None \<Rightarrow> [] | Some ss \<Rightarrow> ss) \<and> length (ml_body rq) \<le> maxMCPBody \<and>
        r = mcp (httpCaller (Some ti)) (ml_body rq)
    | Metadata md \<Rightarrow> ml_path rq = [''.well-known'', ''oauth-protected-resource''] \<and> md = me_metadata me
    | _ \<Rightarrow> True"
proof -
  have sound: "mw verify scopes hdr = Inr ti \<Longrightarrow>
      \<exists>tok. token_of hdr = Some tok \<and> verify tok = Inr ti \<and> set scopes \<subseteq> set (case ti_Scopes ti of None \<Rightarrow> [] | Some ss \<Rightarrow> ss)"
    for verify scopes hdr ti using assms by (simp add: bearer_sound_def)
  show ?thesis
    using mcp_route_cases
    by (auto simp: mcp_http_serve_def capBody_def dest!: sound split: mux_result.splits mcp_route.splits sum.splits option.splits)
qed

lemma broker_main_authenticates:
  assumes "broker_main ev decode content = Inr fr"
  shows "\<exists>tc. fr_tls fr = Some tc \<and> tc_ClientAuth tc = RequireAndVerifyClientCert \<and> tc_MinVersion tc = VersionTLS13"
  using assms by (auto simp: broker_main_def tls_defs split: sum.splits prod.splits option.splits)

lemma newMux_metadata:
  assumes "newMux d oa url = Inr me"
  shows "md_AuthorizationServers (me_metadata me) = [oa_Issuer oa] \<and> oa_Issuer oa \<noteq> '''' \<and> oa_Audience oa \<noteq> ''''"
  using assms by (auto simp: newMux_def NewVerifier_def Let_def split: sum.splits if_splits)

theorem mcp_endpoint_guarded_witness:
  "\<exists>tok ti. Some ''t'' = Some tok \<and>
     Verify \<lparr>ve_userClaim = ''sub'', ve_groupsClaim = '''', ve_maxTokenAge = 0, ve_clockSkew = 0\<rparr> 5
       (Some \<lparr>it_Expiry = 9, it_Claims = Some [(''sub'', ClaimString ''ana'')]\<rparr>) = Inr ti \<and> ti_UserID ti = ''ana''"
proof -
  define v where "v = \<lparr>ve_userClaim = ''sub'', ve_groupsClaim = '''', ve_maxTokenAge = 0, ve_clockSkew = 0\<rparr>"
  define me where "me = \<lparr>me_verifier = v, me_scopes = [], me_metadataURL = '''',
      me_metadata = \<lparr>md_Resource = '''', md_AuthorizationServers = [], md_ScopesSupported = [], md_BearerMethodsSupported = [],
        md_ResourceName = ''''\<rparr>\<rparr>"
  define mw :: bearer where "mw = (\<lambda>verify scopes hdr. case verify hdr of
      Inl e \<Rightarrow> Inl 401
    | Inr ti \<Rightarrow> if set scopes \<subseteq> set (case ti_Scopes ti of None \<Rightarrow> [] | Some ss \<Rightarrow> ss) then Inr ti else Inl 403)"
  define checked where "checked = (\<lambda>tok :: string. Some \<lparr>it_Expiry = 9, it_Claims = Some [(''sub'', ClaimString ''ana'')]\<rparr>)"
  define rq where "rq = \<lparr>ml_method = ''POST'', ml_path = [''mcp''], ml_auth = ''t'', ml_body = ''{}''\<rparr>"
  have sound: "bearer_sound Some mw"
    unfolding bearer_sound_def mw_def by (auto split: sum.splits if_splits)
  have tok: "Verify v 5 (checked t) = Inr \<lparr>ti_Scopes = None, ti_Expiration = 9, ti_UserID = ''ana'', ti_Groups = None\<rparr>" for t
    by (simp add: Verify_def v_def checked_def stringClaim_def time_claim_def scopesFromClaims_def stringSliceClaim_def)
  have route: "serve_mux mcp_mux ''POST'' [''mcp''] = Handler McpRoute []" by code_simp
  have a: "mcp_http_serve mw checked 5 (\<lambda>c b. cl_ID c) me rq = McpAnswer ''ana''"
    by (simp add: mcp_http_serve_def rq_def route me_def mw_def tok capBody_def maxMCPBody_def httpCaller_def)
  from mcp_endpoint_guarded [OF sound, where checked = checked and now = 5 and mcp = "\<lambda>c b. cl_ID c" and me = me and rq = rq]
  show ?thesis
    unfolding a by (auto simp: rq_def me_def checked_def v_def httpCaller_def)
qed

section \<open>The registered tools\<close>

text \<open>
  A call of one of the seven tools with its input decoded, and its answer: the text and, for an
  output, its structured form. The tools share the engine and the sessions of one process; the
  value is \<open>None\<close> while a command of a session has not ended.
\<close>

datatype tool_call =
    CallExecute executeInput
  | CallListServers
  | CallSessionOpen sessionOpenInput
  | CallSessionExec string string
  | CallSessionClose string
  | CallPutFile putFileInput
  | CallGetFile getFileInput

datatype tool_answer =
    Failure string
  | Executed string executeOutput
  | Listed string "ServerInfo list"
  | Opened string "string \<times> 64 word"
  | Closed string bool
  | Stored string putFileOutput
  | Fetched string getFileOutput

fun tool_name :: "tool_call \<Rightarrow> string" where
  "tool_name (CallExecute _) = ''ssh_execute''"
| "tool_name CallListServers = ''ssh_list_servers''"
| "tool_name (CallSessionOpen _) = ''ssh_session_open''"
| "tool_name (CallSessionExec _ _) = ''ssh_session_exec''"
| "tool_name (CallSessionClose _) = ''ssh_session_close''"
| "tool_name (CallPutFile _) = ''ssh_put_file''"
| "tool_name (CallGetFile _) = ''ssh_get_file''"

fun tool_answer_of :: "(string \<Rightarrow> 'o \<Rightarrow> tool_answer) \<Rightarrow> 'o tool_result \<Rightarrow> tool_answer" where
  "tool_answer_of f (ToolError err) = Failure err"
| "tool_answer_of f (ToolOutput t out) = f t out"

definition on_engine :: "broker_state \<Rightarrow> (string \<Rightarrow> 'o \<Rightarrow> tool_answer) \<Rightarrow> 'o tool_result \<times> engine \<Rightarrow> (tool_answer \<times> broker_state) option" where
  "on_engine b f r = Some (tool_answer_of f (fst r), b\<lparr>bs_engine := snd r\<rparr>)"

definition Register ::
    "tool_text \<Rightarrow> (sign_error \<Rightarrow> string) \<Rightarrow> session_ctx \<Rightarrow> Caller \<Rightarrow> tool_call \<Rightarrow> broker_state \<Rightarrow>
     (tool_answer \<times> broker_state) option" where
  "Register tt reason sx caller c b =
     (case c of
        CallExecute inp \<Rightarrow> on_engine b Executed (ssh_execute tt reason (sc_engine sx) caller inp (bs_engine b))
      | CallListServers \<Rightarrow> Some (tool_answer_of Listed (ssh_list_servers caller (bs_engine b)), b)
      | CallSessionOpen inp \<Rightarrow> Some (apfst (tool_answer_of Opened) (ssh_session_open tt sx caller inp b))
      | CallSessionExec sid command \<Rightarrow>
          map_option (apfst (tool_answer_of Executed)) (ssh_session_exec tt sx caller sid command b)
      | CallSessionClose sid \<Rightarrow> Some (apfst (tool_answer_of Closed) (ssh_session_close tt caller sid b))
      | CallPutFile inp \<Rightarrow> on_engine b Stored (ssh_put_file tt (sc_engine sx) caller inp (bs_engine b))
      | CallGetFile inp \<Rightarrow> on_engine b Fetched (ssh_get_file tt (sc_engine sx) caller inp (bs_engine b)))"

fun checked_fields :: "tool_call \<Rightarrow> (string \<times> string) list" where
  "checked_fields (CallExecute i) = [(''server'', xi_Server i), (''command'', xi_Command i), (''sudo_user'', xi_SudoUser i)]"
| "checked_fields CallListServers = []"
| "checked_fields (CallSessionOpen i) = [(''server'', so_Server i), (''mode'', so_Mode i), (''sudo_user'', so_SudoUser i)]"
| "checked_fields (CallSessionExec sid command) = [(''session_id'', sid), (''command'', command)]"
| "checked_fields (CallSessionClose sid) = [(''session_id'', sid)]"
| "checked_fields (CallPutFile i) = [(''server'', pi_Server i), (''path'', pi_Path i), (''mode'', pi_Mode i)]"
| "checked_fields (CallGetFile i) = [(''server'', gi_Server i), (''path'', gi_Path i)]"

text \<open>An input that fails the check reaches nothing: not the engine, not a session, not the audit log.\<close>

lemma invalid_input_untouched:
  assumes "validateInput (checked_fields c) = Some err"
  shows "Register tt reason sx caller c b = Some (Failure (tt_input tt err), b)"
proof (cases c)
  case CallListServers
  with assms show ?thesis by simp
qed (use assms in \<open>simp_all add: Register_def on_engine_def ssh_execute_def ssh_session_open_def ssh_session_exec_def
    ssh_session_close_def ssh_put_file_def ssh_get_file_def\<close>)

end
