(* ===== verification/Signer_Service.thy ===== *)
theory Signer_Service
  imports Signer_Server Service_Start GoMux
begin

text \<open>
  The signing service as a process, \<open>src/cmd/signer/main.go\<close>: its start, the routes of its
  multiplexer composed with the handlers of \<open>Signer_Server\<close>, and the ways its state changes
  outside a request: SIGHUP, the watcher of the configuration file, the purge of the grants, and
  edits of the file by others. A run of the process is a sequence of these events; the mutexes of
  the Go code make each of them one step.
\<close>

section \<open>Routes\<close>

datatype signer_endpoint =
    SignRoute | HostsRoute | ReloadRoute | PolicyAllowRoute | GrantCreateRoute | GrantListRoute | GrantRevokeRoute
  | PolicyHostsRoute

definition signer_patterns :: "signer_endpoint mux" where
  "signer_patterns =
     [(''/v1/sign'', SignRoute),
      (''/v1/hosts'', HostsRoute),
      (''/v1/reload'', ReloadRoute),
      (''POST /v1/policy/hosts/{host}/allow'', PolicyAllowRoute),
      (''DELETE /v1/policy/hosts/{host}/allow'', PolicyAllowRoute),
      (''POST /v1/policy/hosts/{host}/grants'', GrantCreateRoute),
      (''GET /v1/policy/grants'', GrantListRoute),
      (''DELETE /v1/policy/grants/{id}'', GrantRevokeRoute),
      (''GET /v1/policy/hosts'', PolicyHostsRoute)]"

text \<open>A request with each body decoded the way its handler would, and what the environment adds.\<close>

record http_request =
  hr_method :: string
  hr_path :: "string list"
  hr_peer :: "string option"
  hr_onBehalfOf :: string
  hr_sign :: "WireRequest option"
  hr_grant :: "grantReq option"
  hr_allow :: "string option"

record service_ctx = sign_ctx +
  sx_cas :: ca_keys
  sx_write_ok :: bool
  sx_state_text :: "state_error \<Rightarrow> string"

datatype service_reply = Reply http_response | ReplyGrants "Grant list" | ReplyPolicy PolicyTable

fun reply_sum :: "(http_response + 'a) \<times> server \<Rightarrow> ('a \<Rightarrow> service_reply) \<Rightarrow> service_reply \<times> server" where
  "reply_sum (Inl r, s) f = (Reply r, s)"
| "reply_sum (Inr x, s) f = (f x, s)"

definition path_param :: "(string \<times> string) list \<Rightarrow> string \<Rightarrow> string" where
  "path_param ps name = (case get ps name of None \<Rightarrow> '''' | Some v \<Rightarrow> v)"

definition signer_handle ::
    "service_ctx \<Rightarrow> http_request \<Rightarrow> signer_endpoint \<Rightarrow> (string \<times> string) list \<Rightarrow> server \<Rightarrow> service_reply \<times> server" where
  "signer_handle cx rq h ps s =
     (let now = env_now (sx_env cx); reply = (\<lambda>(r, s). (Reply r, s)) in
      case h of
        SignRoute \<Rightarrow> reply (signer_handleSign (sign_ctx.truncate cx) (hr_method rq) (hr_peer rq) (hr_sign rq) s)
      | HostsRoute \<Rightarrow> (Reply (signer_handleHosts (hr_method rq) (hr_peer rq) (hr_onBehalfOf rq) s), s)
      | ReloadRoute \<Rightarrow> reply (signer_handleReload (sx_re cx) (sx_cas cx) (sx_state_text cx) (hr_method rq) (hr_peer rq) s)
      | PolicyAllowRoute \<Rightarrow>
          reply (handlePolicyAllow (sx_re cx) (sx_cas cx) (sx_write_ok cx) (sx_state_text cx) (hr_method rq) (hr_peer rq)
            (path_param ps ''host'') (hr_allow rq) s)
      | GrantCreateRoute \<Rightarrow>
          reply (handleGrantCreate (sx_re cx) (sx_grant_text cx) (sx_newID cx) now (hr_peer rq)
            (path_param ps ''host'') (hr_grant rq) s)
      | GrantListRoute \<Rightarrow> reply_sum (handleGrantList now (hr_peer rq) s) ReplyGrants
      | GrantRevokeRoute \<Rightarrow> reply (handleGrantRevoke (hr_peer rq) (path_param ps ''id'') s)
      | PolicyHostsRoute \<Rightarrow> reply_sum (handlePolicyHostsRead (hr_peer rq) s) ReplyPolicy)"

definition signer_serve :: "service_ctx \<Rightarrow> http_request \<Rightarrow> server \<Rightarrow> service_reply \<times> server" where
  "signer_serve cx rq s =
     (case serve_mux signer_patterns (hr_method rq) (hr_path rq) of
        NotFound \<Rightarrow> (Reply (text_response 404 ''404 page not found''), s)
      | MethodNotAllowed \<Rightarrow> (Reply (text_response 405 ''Method Not Allowed''), s)
      | Handler h ps \<Rightarrow> signer_handle cx rq h ps s)"

section \<open>Start\<close>

record signer_start =
  ss_file :: "Config option"
  ss_cas :: ca_keys
  ss_seed :: "string option"
  ss_audit_ok :: bool
  ss_audit_fs :: audit_fs
  ss_redact :: "redact_Config option"
  ss_tls :: tls_lib
  ss_ServerCert :: string
  ss_ServerKey :: string
  ss_ClientCA :: string
  ss_AutoReloadSeconds :: int
  ss_mtime :: "time option"

text \<open>
  The process: its server, its audit log as it was opened, its TLS configuration, the modification
  time of the file (\<open>None\<close> when it cannot be read), and the watcher's \<open>last\<close>, if it runs.
\<close>

record signer_proc =
  pr_server :: server
  pr_log :: Log
  pr_tls :: tls_config
  pr_mtime :: "time option"
  pr_last :: "time option option"

definition loadConfig :: "Config option \<Rightarrow> Config option" where
  "loadConfig file = parseConfig file"

text \<open>
  \<open>time.NewTicker\<close> panics on an interval that is not positive. The guard is on the number of
  seconds, the interval is their product with a second in 64 bits.
\<close>

definition watch_panics :: "signer_start \<Rightarrow> bool" where
  "watch_panics st \<longleftrightarrow> ss_AutoReloadSeconds st > 0 \<and> seconds (ss_AutoReloadSeconds st) \<le> 0"

definition signer_main ::
    "regex_engine \<Rightarrow> (string \<Rightarrow> audit_codec) \<Rightarrow> regexp_lib \<Rightarrow> signer_start \<Rightarrow> start_error + signer_proc" where
  "signer_main re codec rx st =
     (case loadConfig (ss_file st) of
        None \<Rightarrow> Inl StartConfig
      | Some cfg \<Rightarrow>
     (case buildState re (ss_cas st) cfg (Some (store_provider NewGrantStore)) of
        Inl _ \<Rightarrow> Inl StartSigner
      | Inr l \<Rightarrow>
     (case audit_start codec rx (ss_seed st) (ss_audit_ok st) (ss_audit_fs st) (ss_redact st) of
        Inl e \<Rightarrow> Inl e
      | Inr (lg, _, _) \<Rightarrow>
     (case ServerTLSConfig (ss_tls st) (ss_ServerCert st) (ss_ServerKey st) (ss_ClientCA st) of
        Inl e \<Rightarrow> Inl (StartTLS e)
      | Inr tc \<Rightarrow>
          if watch_panics st then Inl StartTicker
          else
          Inr \<lparr>pr_server =
                 \<lparr>sv_local = l, sv_hosts = cfg_Hosts cfg, sv_callers = cfg_Callers cfg,
                  sv_reloadCN = reloadSet (cfg_ReloadCallers cfg),
                  sv_forwarders = reloadSet (cfg_TrustedForwarders cfg),
                  sv_signRateMin = cfg_SignRateLimitPerMin cfg, sv_grants = NewGrantStore,
                  sv_maxGrantTTL = seconds (cfg_MaxGrantTTLSeconds cfg), sv_rateLimiter = NewRateLimiter,
                  sv_audit = [], sv_file = ss_file st\<rparr>,
               pr_log = lg, pr_tls = tc, pr_mtime = ss_mtime st,
               pr_last = (if ss_AutoReloadSeconds st > 0 then Some (ss_mtime st) else None)\<rparr>))))"

section \<open>Events\<close>

text \<open>A reload that no HTTP caller asked for, with the record of its outcome.\<close>

definition reload_from :: "string \<Rightarrow> regex_engine \<Rightarrow> ca_keys \<Rightarrow> (state_error \<Rightarrow> string) \<Rightarrow> server \<Rightarrow> server" where
  "reload_from origin re cas et s =
     (case reload re cas s of
        (Inl err, s) \<Rightarrow> auditReload origin 0 ''reload-failed'' (et err) s
      | (Inr n, s) \<Rightarrow> auditReload origin n ''reloaded'' '''' s)"

text \<open>One tick of \<open>watchConfig\<close>. A file that cannot be examined has the zero time.\<close>

definition watchConfig_tick :: "regex_engine \<Rightarrow> ca_keys \<Rightarrow> (state_error \<Rightarrow> string) \<Rightarrow> signer_proc \<Rightarrow> signer_proc" where
  "watchConfig_tick re cas et p =
     (case pr_last p of
        None \<Rightarrow> p
      | Some seen \<Rightarrow>
          (let mt = pr_mtime p in
           if mt = None \<or> mt = seen then p
           else p\<lparr>pr_last := Some mt, pr_server := reload_from ''auto-reload'' re cas et (pr_server p)\<rparr>))"

datatype signer_event =
    HttpRequest service_ctx http_request "time option"
  | Sighup ca_keys "state_error \<Rightarrow> string"
  | WatchTick ca_keys "state_error \<Rightarrow> string"
  | PurgeTick time
  | FileEdited "Config option" "time option"

text \<open>
  An HTTP request that rewrites the file gives it a new modification time; every other event
  leaves that time as it is.
\<close>

fun signer_step :: "regex_engine \<Rightarrow> signer_event \<Rightarrow> signer_proc \<Rightarrow> signer_proc" where
  "signer_step re (HttpRequest cx rq mt) p =
     (let s' = snd (signer_serve (cx\<lparr>sx_re := re\<rparr>) rq (pr_server p)) in
      p\<lparr>pr_server := s', pr_mtime := (if sv_file s' = sv_file (pr_server p) then pr_mtime p else mt)\<rparr>)"
| "signer_step re (Sighup cas et) p = p\<lparr>pr_server := reload_from ''SIGHUP'' re cas et (pr_server p)\<rparr>"
| "signer_step re (WatchTick cas et) p = watchConfig_tick re cas et p"
| "signer_step re (PurgeTick now) p =
     p\<lparr>pr_server := (pr_server p)\<lparr>sv_grants := snd (grants_Purge now (sv_grants (pr_server p)))\<rparr>\<rparr>"
| "signer_step re (FileEdited file mt) p =
     p\<lparr>pr_server := (pr_server p)\<lparr>sv_file := file\<rparr>, pr_mtime := mt\<rparr>"

definition signer_run :: "regex_engine \<Rightarrow> signer_event list \<Rightarrow> signer_proc \<Rightarrow> signer_proc" where
  "signer_run re evs p = fold (signer_step re) evs p"

inductive signer_reach ::
    "regex_engine \<Rightarrow> (string \<Rightarrow> audit_codec) \<Rightarrow> regexp_lib \<Rightarrow> signer_proc \<Rightarrow> bool" for re codec rx where
  start: "signer_main re codec rx st = Inr p \<Longrightarrow> signer_reach re codec rx p"
| step: "signer_reach re codec rx p \<Longrightarrow> signer_reach re codec rx (signer_step re ev p)"

section \<open>What a request can change\<close>

text \<open>The part of the state that decides what is signed and for whom, apart from the runtime grants.\<close>

definition policy_state ::
    "server \<Rightarrow> Local \<times> PolicyTable \<times> CallerTable \<times> string list \<times> string list \<times> int \<times> duration \<times> Config option" where
  "policy_state s =
     (sv_local s, sv_hosts s, sv_callers s, sv_reloadCN s, sv_forwarders s, sv_signRateMin s, sv_maxGrantTTL s, sv_file s)"

definition peer_in :: "http_request \<Rightarrow> string list \<Rightarrow> bool" where
  "peer_in rq cns = (case CallerCN (hr_peer rq) of None \<Rightarrow> False | Some cn \<Rightarrow> cn \<in> set cns)"

lemma policy_state_audit [simp]:
  "policy_state (appendAudit e s) = policy_state s" "sv_grants (appendAudit e s) = sv_grants s"
  by (simp_all add: policy_state_def appendAudit_def)

lemma policy_state_grants [simp]:
  "policy_state (s\<lparr>sv_grants := g\<rparr>) = policy_state s" "policy_state (s\<lparr>sv_rateLimiter := r\<rparr>) = policy_state s"
  by (simp_all add: policy_state_def)

lemmas audit_calls = auditEmission_def auditGrant_def auditReload_def auditPolicy_def

lemma maybeLearnWaiver_policy [simp]:
  "policy_state (maybeLearnWaiver re gt nid now caller req iss s) = policy_state s"
  by (simp add: maybeLearnWaiver_def Let_def case_prod_unfold)

lemma respondSignResult_state [simp]:
  "policy_state (snd (respondSignResult sc caller req hosts iss s)) = policy_state s"
  "sv_grants (snd (respondSignResult sc caller req hosts iss s)) = sv_grants s"
  by (simp_all add: respondSignResult_def Let_def audit_calls split: option.splits)

lemma handleSign_request_policy:
  "policy_state (snd (handleSign_request cx cn req s)) = policy_state s"
  by (simp add: handleSign_request_def Let_def audit_calls split: option.splits sum.splits prod.splits)

lemma handleSign_request_grants:
  "cn \<notin> set (sv_forwarders s) \<Longrightarrow> sv_grants (snd (handleSign_request cx cn req s)) = sv_grants s"
  by (simp add: handleSign_request_def Let_def audit_calls split: option.splits sum.splits prod.splits)

lemma handleSign_policy: "policy_state (snd (signer_handleSign cx m peer body s)) = policy_state s"
  by (simp add: signer_handleSign_def Let_def case_prod_unfold handleSign_request_policy split: option.splits)

lemma handleSign_grants:
  "(\<And>cn. CallerCN peer = Some cn \<Longrightarrow> cn \<notin> set (sv_forwarders s)) \<Longrightarrow>
     sv_grants (snd (signer_handleSign cx m peer body s)) = sv_grants s"
  by (simp add: signer_handleSign_def Let_def case_prod_unfold handleSign_request_grants split: option.splits)

text \<open>Every administrative handler turns away a caller outside \<open>reload_callers\<close> before it changes anything.\<close>

lemma admin_refused:
  assumes "\<And>cn. CallerCN peer = Some cn \<Longrightarrow> cn \<notin> set (sv_reloadCN s)"
  shows "policy_state (snd (signer_handleReload re cas et m peer s)) = policy_state s"
    and "sv_grants (snd (signer_handleReload re cas et m peer s)) = sv_grants s"
    and "policy_state (snd (handlePolicyAllow re cas w et m peer host b s)) = policy_state s"
    and "sv_grants (snd (handlePolicyAllow re cas w et m peer host b s)) = sv_grants s"
    and "policy_state (snd (handleGrantCreate re gt nid now peer host gb s)) = policy_state s"
    and "sv_grants (snd (handleGrantCreate re gt nid now peer host gb s)) = sv_grants s"
    and "handleGrantList now peer s \<in> range (\<lambda>r. (Inl r, s))"
    and "policy_state (snd (handleGrantRevoke peer gid s)) = policy_state s"
    and "sv_grants (snd (handleGrantRevoke peer gid s)) = sv_grants s"
    and "policy_state (snd (handlePolicyHostsRead peer s)) = policy_state s"
    and "sv_grants (snd (handlePolicyHostsRead peer s)) = sv_grants s"
    and "\<exists>r. fst (handlePolicyHostsRead peer s) = Inl r"
  using assms
  by (auto simp: signer_handleReload_def handlePolicyAllow_def handleGrantCreate_def handleGrantList_def
      handleGrantRevoke_def handlePolicyHostsRead_def Let_def audit_calls split: option.splits)

lemma snd_reply_sum [simp]: "snd (reply_sum p f) = snd p"
  by (cases "(p, f)" rule: reply_sum.cases) simp_all

lemma signer_serve_refused:
  assumes "\<not> peer_in rq (sv_reloadCN s)"
  shows "policy_state (snd (signer_serve cx rq s)) = policy_state s"
    and "\<not> peer_in rq (sv_forwarders s) \<Longrightarrow> sv_grants (snd (signer_serve cx rq s)) = sv_grants s"
proof -
  have out: "\<And>cn. CallerCN (hr_peer rq) = Some cn \<Longrightarrow> cn \<notin> set (sv_reloadCN s)"
    using assms by (auto simp: peer_in_def)
  have lst: "snd (handleGrantList now (hr_peer rq) s) = s" for now
    using admin_refused(7) [OF out] by (metis (no_types, lifting) imageE snd_conv)
  show "policy_state (snd (signer_serve cx rq s)) = policy_state s"
    by (simp add: signer_serve_def signer_handle_def Let_def case_prod_unfold handleSign_policy admin_refused [OF out] lst
        split: mux_result.splits signer_endpoint.splits)
  assume "\<not> peer_in rq (sv_forwarders s)"
  then have fw: "\<And>cn. CallerCN (hr_peer rq) = Some cn \<Longrightarrow> cn \<notin> set (sv_forwarders s)"
    by (auto simp: peer_in_def)
  show "sv_grants (snd (signer_serve cx rq s)) = sv_grants s"
    by (simp add: signer_serve_def signer_handle_def Let_def case_prod_unfold handleSign_grants [OF fw] admin_refused [OF out]
        lst split: mux_result.splits signer_endpoint.splits)
qed

fun request_of :: "signer_event \<Rightarrow> http_request option" where
  "request_of (HttpRequest cx rq mt) = Some rq"
| "request_of _ = None"

text \<open>
  C17: no sequence of HTTP requests, whatever their routes, methods and bodies, from peers that
  are not in \<open>reload_callers\<close> changes the policy, the callers' groups, the lists of trusted names,
  the rate limit or the configuration file; and if none of the peers is a trusted forwarder
  either, the runtime grants and waivers stay as they were.
\<close>

theorem signer_configuration_protected:
  assumes "\<forall>ev\<in>set evs. \<exists>rq. request_of ev = Some rq \<and> \<not> peer_in rq (sv_reloadCN (pr_server p))"
  shows "policy_state (pr_server (signer_run re evs p)) = policy_state (pr_server p) \<and>
     ((\<forall>ev\<in>set evs. \<forall>rq. request_of ev = Some rq \<longrightarrow> \<not> peer_in rq (sv_forwarders (pr_server p))) \<longrightarrow>
      sv_grants (pr_server (signer_run re evs p)) = sv_grants (pr_server p))"
  using assms
proof (induction evs arbitrary: p)
  case (Cons ev evs)
  then obtain cx rq mt where ev: "ev = HttpRequest cx rq mt" "\<not> peer_in rq (sv_reloadCN (pr_server p))"
    by (cases ev) auto
  let ?p = "signer_step re ev p"
  have same: "policy_state (pr_server ?p) = policy_state (pr_server p)"
    using signer_serve_refused(1) [OF ev(2)] by (simp add: ev(1) Let_def)
  have lists: "sv_reloadCN (pr_server ?p) = sv_reloadCN (pr_server p)"
    "sv_forwarders (pr_server ?p) = sv_forwarders (pr_server p)"
    using same by (simp_all add: policy_state_def)
  have grants: "\<not> peer_in rq (sv_forwarders (pr_server p)) \<Longrightarrow> sv_grants (pr_server ?p) = sv_grants (pr_server p)"
    using signer_serve_refused(2) [OF ev(2)] by (simp add: ev(1) Let_def)
  have rq: "request_of ev = Some rq" by (simp add: ev(1))
  have run: "signer_run re (ev # evs) p = signer_run re evs ?p" by (simp add: signer_run_def)
  have "\<forall>ev\<in>set evs. \<exists>rq. request_of ev = Some rq \<and> \<not> peer_in rq (sv_reloadCN (pr_server ?p))"
    using Cons.prems unfolding lists by simp
  from Cons.IH [OF this] show ?case
    unfolding run same lists using grants rq by auto
qed (simp add: signer_run_def)

section \<open>Well-formed states\<close>

text \<open>
  The state a configuration installs: the signer's compiled policy, the table of the hosts, the
  callers and the two lists of names all come from the same, validated configuration.
\<close>

definition installed :: "regex_engine \<Rightarrow> Config \<Rightarrow> server \<Rightarrow> bool" where
  "installed re cfg s \<longleftrightarrow>
     (\<exists>raw. parseConfig (Some raw) = Some cfg) \<and>
     CompileHostPolicies re (cfg_Hosts cfg) (cfg_CommandPolicies cfg) (cfg_GroupCommandPolicies cfg) =
       Inr (l_policy (sv_local s)) \<and>
     l_defaultTTL (sv_local s) > 0 \<and>
     sv_hosts s = cfg_Hosts cfg \<and> sv_callers s = cfg_Callers cfg \<and>
     sv_reloadCN s = reloadSet (cfg_ReloadCallers cfg) \<and> sv_forwarders s = reloadSet (cfg_TrustedForwarders cfg)"

definition server_wf :: "regex_engine \<Rightarrow> server \<Rightarrow> bool" where
  "server_wf re s \<longleftrightarrow> (\<exists>cfg. installed re cfg s) \<and> store_ok re (sv_grants s)"

lemma buildState_Inr:
  assumes "buildState re cas cfg gp = Inr l"
  shows "CompileHostPolicies re (cfg_Hosts cfg) (cfg_CommandPolicies cfg) (cfg_GroupCommandPolicies cfg) = Inr (l_policy l)"
    and "l_defaultTTL l > 0"
  using assms
  by (auto simp: buildState_def NewLocalWithGrants_def minute_ns_def second_ns_def Let_def
      split: sum.splits option.splits)

lemma server_wf_policy:
  assumes "policy_state s' = policy_state s" and "store_ok re (sv_grants s')" and "server_wf re s"
  shows "server_wf re s'"
  using assms by (simp add: server_wf_def installed_def policy_state_def)

lemma server_wf_audit [simp]: "server_wf re (appendAudit e s) = server_wf re s"
  by (simp add: server_wf_def installed_def appendAudit_def)

lemma server_wfI:
  assumes "parseConfig fc = Some cfg" and "buildState re cas cfg gp = Inr (sv_local s)"
    and "sv_hosts s = cfg_Hosts cfg" and "sv_callers s = cfg_Callers cfg"
    and "sv_reloadCN s = reloadSet (cfg_ReloadCallers cfg)"
    and "sv_forwarders s = reloadSet (cfg_TrustedForwarders cfg)" and "store_ok re (sv_grants s)"
  shows "server_wf re s"
proof -
  from assms(1) obtain raw where "parseConfig (Some raw) = Some cfg"
    by (cases fc) (auto simp: parseConfig_def)
  with assms buildState_Inr [OF assms(2)] show ?thesis
    unfolding server_wf_def installed_def by blast
qed

lemma server_wf_reload [inv_intros]:
  assumes "server_wf re s"
  shows "server_wf re (snd (reload re cas s))"
proof -
  have g: "store_ok re (sv_grants s)" using assms by (simp add: server_wf_def)
  show ?thesis
    unfolding reload_def using assms g by (simp split: option.split sum.split) (auto intro: server_wfI)
qed

lemma server_wf_mutateAllow [inv_intros]:
  assumes "server_wf re s"
  shows "server_wf re (snd (mutateAllow re cas w host pattern add s))"
proof -
  have g: "store_ok re (sv_grants s)" using assms by (simp add: server_wf_def)
  show ?thesis
    unfolding mutateAllow_def using assms g by (simp split: option.split sum.split) (auto intro: server_wfI)
qed

lemma store_ok_maybeLearnWaiver [inv_intros]:
  "store_ok re (sv_grants s) \<Longrightarrow> store_ok re (sv_grants (maybeLearnWaiver re gt nid now caller req iss s))"
  by (simp add: maybeLearnWaiver_def Let_def case_prod_unfold store_ok_Add store_ok_SupersedeWaiver)

lemma store_ok_handleSign [inv_intros]:
  assumes "store_ok (sx_re cx) (sv_grants s)"
  shows "store_ok (sx_re cx) (sv_grants (snd (signer_handleSign cx m peer body s)))"
proof -
  have "store_ok (sx_re cx) (sv_grants (snd (handleSign_request cx cn req s)))"
    if "store_ok (sx_re cx) (sv_grants s)" for cn req s
    using that
    by (simp add: handleSign_request_def Let_def audit_calls store_ok_maybeLearnWaiver
        split: option.splits sum.splits prod.splits)
  with assms show ?thesis
    by (simp add: signer_handleSign_def Let_def case_prod_unfold split: option.splits)
qed

lemma handleGrantCreate_state:
  "policy_state (snd (handleGrantCreate re gt nid now peer host b s)) = policy_state s"
  "store_ok re (sv_grants s) \<Longrightarrow> store_ok re (sv_grants (snd (handleGrantCreate re gt nid now peer host b s)))"
proof -
  have add: "store_ok re (sv_grants s) \<Longrightarrow> Add re nid g (sv_grants s) = (r, gs) \<Longrightarrow> store_ok re gs" for g r gs
    using store_ok_Add [of re "sv_grants s" nid g] by simp
  show "policy_state (snd (handleGrantCreate re gt nid now peer host b s)) = policy_state s"
    by (simp add: handleGrantCreate_def Let_def audit_calls split: option.split prod.split sum.split)
  assume "store_ok re (sv_grants s)"
  then show "store_ok re (sv_grants (snd (handleGrantCreate re gt nid now peer host b s)))"
    by (simp add: handleGrantCreate_def Let_def audit_calls add split: option.split prod.split sum.split)
qed

lemma grant_admin_state:
  "policy_state (snd (handleGrantList now peer s)) = policy_state s"
  "store_ok re (sv_grants s) \<Longrightarrow> store_ok re (sv_grants (snd (handleGrantList now peer s)))"
  "policy_state (snd (handleGrantRevoke peer gid s)) = policy_state s"
  "store_ok re (sv_grants s) \<Longrightarrow> store_ok re (sv_grants (snd (handleGrantRevoke peer gid s)))"
  "policy_state (snd (handlePolicyHostsRead peer s)) = policy_state s"
  "sv_grants (snd (handlePolicyHostsRead peer s)) = sv_grants s"
proof -
  have revoke: "store_ok re (sv_grants s) \<Longrightarrow> Revoke gid (sv_grants s) = (r, gs) \<Longrightarrow> store_ok re gs" for r gs
    using store_ok_Revoke [of re "sv_grants s" gid] by simp
  have lst: "store_ok re (sv_grants s) \<Longrightarrow> grants_List now (sv_grants s) = (r, gs) \<Longrightarrow> store_ok re gs" for r gs
    using store_ok_List [of re "sv_grants s" now] by simp
  show "policy_state (snd (handleGrantList now peer s)) = policy_state s"
    by (simp add: handleGrantList_def split: option.split prod.split)
  show "store_ok re (sv_grants s) \<Longrightarrow> store_ok re (sv_grants (snd (handleGrantList now peer s)))"
    by (simp add: handleGrantList_def lst split: option.split prod.split)
  show "policy_state (snd (handleGrantRevoke peer gid s)) = policy_state s"
    by (simp add: handleGrantRevoke_def audit_calls split: option.split prod.split bool.split)
  show "store_ok re (sv_grants s) \<Longrightarrow> store_ok re (sv_grants (snd (handleGrantRevoke peer gid s)))"
    by (simp add: handleGrantRevoke_def audit_calls revoke split: option.split prod.split bool.split)
  show "policy_state (snd (handlePolicyHostsRead peer s)) = policy_state s"
    "sv_grants (snd (handlePolicyHostsRead peer s)) = sv_grants s"
    by (simp_all add: handlePolicyHostsRead_def Let_def split: option.split)
qed

lemma server_wf_reload_admin:
  assumes "server_wf re s"
  shows "server_wf re (snd (signer_handleReload re cas et m peer s))"
    and "server_wf re (snd (handlePolicyAllow re cas w et m peer host b s))"
    and "server_wf re (reload_from origin re cas et s)"
proof -
  have r: "reload re cas s = (x, s') \<Longrightarrow> server_wf re s'" for x s'
    using server_wf_reload [OF assms, of cas] by simp
  have m: "mutateAllow re cas w host pat add s = (x, s') \<Longrightarrow> server_wf re s'" for pat add x s'
    using server_wf_mutateAllow [OF assms, of cas w host pat add] by simp
  show "server_wf re (snd (signer_handleReload re cas et m peer s))"
    by (simp add: signer_handleReload_def audit_calls assms r split: option.split prod.split sum.split)
  show "server_wf re (snd (handlePolicyAllow re cas w et m peer host b s))"
    by (simp add: handlePolicyAllow_def Let_def audit_calls assms m split: option.split prod.split sum.split)
  show "server_wf re (reload_from origin re cas et s)"
    by (simp add: reload_from_def audit_calls r split: prod.split sum.split)
qed

lemma server_wf_serve [inv_intros]:
  assumes wf: "server_wf (sx_re cx) s"
  shows "server_wf (sx_re cx) (snd (signer_serve cx rq s))"
proof -
  have g: "store_ok (sx_re cx) (sv_grants s)" using wf by (simp add: server_wf_def)
  have re: "sx_re (sign_ctx.truncate cx) = sx_re cx" by (simp add: sign_ctx.defs)
  note keep = server_wf_policy [OF _ _ wf]
  have sign: "server_wf (sx_re cx) (snd (signer_handleSign (sign_ctx.truncate cx) m peer b s))" for m peer b
    using store_ok_handleSign [of "sign_ctx.truncate cx" s m peer b] g
    by (intro keep handleSign_policy) (simp add: re)
  have create: "server_wf (sx_re cx) (snd (handleGrantCreate (sx_re cx) gt nid now peer host b s))" for gt nid now peer host b
    by (intro keep handleGrantCreate_state g)
  have grants: "server_wf (sx_re cx) (snd (handleGrantList now peer s))" "server_wf (sx_re cx) (snd (handleGrantRevoke peer gid s))"
    "server_wf (sx_re cx) (snd (handlePolicyHostsRead peer s))" for now peer gid
    by (auto intro!: keep grant_admin_state g simp: grant_admin_state(6))
  show ?thesis
    by (simp add: signer_serve_def signer_handle_def Let_def case_prod_unfold wf sign create grants server_wf_reload_admin
        split: mux_result.split signer_endpoint.split)
qed

lemma server_wf_step [inv_intros]:
  assumes "server_wf re (pr_server p)"
  shows "server_wf re (pr_server (signer_step re ev p))"
proof (cases ev)
  case (HttpRequest cx rq mt)
  show ?thesis using server_wf_serve [of "cx\<lparr>sx_re := re\<rparr>" "pr_server p" rq] assms by (simp add: HttpRequest Let_def)
next
  case (WatchTick cas et)
  show ?thesis
    using assms server_wf_reload_admin(3) [OF assms] by (simp add: WatchTick watchConfig_tick_def Let_def split: option.split)
next
  case (PurgeTick now)
  show ?thesis
    using assms by (auto simp: PurgeTick server_wf_def installed_def intro: store_ok_Purge)
next
  case (FileEdited fc mt)
  show ?thesis using assms by (simp add: FileEdited server_wf_def installed_def)
qed (use assms server_wf_reload_admin(3) [OF assms] in simp)

lemma signer_main_wf:
  assumes "signer_main re codec rx st = Inr p"
  shows "server_wf re (pr_server p)" and "lg_open (pr_log p)"
    and "ServerTLSConfig (ss_tls st) (ss_ServerCert st) (ss_ServerKey st) (ss_ClientCA st) = Inr (pr_tls p)"
proof -
  from assms obtain cfg where cfg: "parseConfig (ss_file st) = Some cfg"
    by (auto simp: signer_main_def loadConfig_def split: option.splits)
  from assms cfg obtain l where l: "buildState re (ss_cas st) cfg (Some (store_provider NewGrantStore)) = Inr l"
    by (auto simp: signer_main_def loadConfig_def split: sum.splits)
  from assms cfg l obtain lg fs r where a:
      "audit_start codec rx (ss_seed st) (ss_audit_ok st) (ss_audit_fs st) (ss_redact st) = Inr (lg, fs, r)"
    by (auto simp: signer_main_def loadConfig_def split: sum.splits)
  from assms cfg l a obtain tc where tls:
      "ServerTLSConfig (ss_tls st) (ss_ServerCert st) (ss_ServerKey st) (ss_ClientCA st) = Inr tc"
    by (auto simp: signer_main_def loadConfig_def split: sum.splits)
  from assms cfg l a tls have w: "\<not> watch_panics st"
    by (auto simp: signer_main_def loadConfig_def)
  note p = assms [unfolded signer_main_def loadConfig_def cfg option.case l sum.case a prod.case tls if_not_P [OF w]
      sum.inject, symmetric]
  show "server_wf re (pr_server p)"
    by (rule server_wfI [OF cfg, of re "ss_cas st" "Some (store_provider NewGrantStore)"])
      (simp_all add: p l store_ok_new)
  show "lg_open (pr_log p)" using audit_start_open [OF a] by (simp add: p)
  show "ServerTLSConfig (ss_tls st) (ss_ServerCert st) (ss_ServerKey st) (ss_ClientCA st) = Inr (pr_tls p)"
    by (simp add: p tls)
qed

text \<open>
  C18: the state of the service is well formed at every moment. In every process reached from a
  successful start by any events (requests of any peers, signals, ticks, edits of the file to any
  content), the policy the signer decides with, the hosts shown to callers, the callers' groups
  and the two lists of trusted names come from one configuration that was validated as a whole;
  every grant in the store is one the store accepts; the default lifetime is positive; no list of
  trusted names holds the empty name.
\<close>

theorem signer_state_wellformed:
  assumes "signer_reach re codec rx p"
  shows "server_wf re (pr_server p) \<and>
     '''' \<notin> set (sv_reloadCN (pr_server p)) \<union> set (sv_forwarders (pr_server p))"
proof -
  have wf: "server_wf re (pr_server p)"
    using assms by (induction rule: signer_reach.induct) (auto intro: signer_main_wf server_wf_step)
  then show ?thesis by (auto simp: server_wf_def installed_def reloadSet_def)
qed

section \<open>The watcher\<close>

lemma watch_interval_overflow: "ss_AutoReloadSeconds st = 9223372037 \<Longrightarrow> watch_panics st"
  by (simp add: watch_panics_def seconds_def wrap64_def second_ns_def)

lemma reload_keeps_on_error:
  "fst (reload re cas s) = Inl e \<Longrightarrow> snd (reload re cas s) = s"
  by (simp add: reload_def split: option.splits sum.splits)

lemma reload_installs:
  assumes "parseConfig (sv_file s) = Some cfg" and "buildState re cas cfg (Some (store_provider (sv_grants s))) = Inr l"
  shows "installed re cfg (snd (reload re cas s)) \<and> sv_local (snd (reload re cas s)) = l"
proof -
  obtain raw where "parseConfig (Some raw) = Some cfg"
    using assms(1) by (cases "sv_file s") (auto simp: parseConfig_def)
  then show ?thesis
    using assms buildState_Inr [OF assms(2)] by (auto simp: reload_def installed_def)
qed

text \<open>A valid edit is in force after the next tick.\<close>

lemma watch_picks_up_edit:
  assumes "pr_last p = Some seen" and "Some mt \<noteq> seen" and "parseConfig (Some raw) = Some cfg"
    and "buildState re cas cfg (Some (store_provider (sv_grants (pr_server p)))) = Inr l"
  shows "installed re cfg (pr_server (signer_run re [FileEdited (Some raw) (Some mt), WatchTick cas et] p))"
proof -
  define s where "s = (pr_server p)\<lparr>sv_file := Some raw\<rparr>"
  have "installed re cfg (snd (reload re cas s)) \<and> sv_local (snd (reload re cas s)) = l"
    by (rule reload_installs) (use assms in \<open>simp_all add: s_def\<close>)
  moreover have "reload re cas s = (Inr n, s') \<or> (\<exists>e. reload re cas s = (Inl e, s'))" if "snd (reload re cas s) = s'"
      "n = projr (fst (reload re cas s))" for n s'
    using that by (cases "reload re cas s"; cases "fst (reload re cas s)") auto
  ultimately have "installed re cfg (reload_from ''auto-reload'' re cas et s)"
    by (auto simp: reload_from_def audit_calls appendAudit_def installed_def split: prod.splits sum.splits)
  then show ?thesis using assms(1,2) by (simp add: signer_run_def watchConfig_tick_def s_def Let_def)
qed

fun tick_event :: "signer_event \<Rightarrow> bool" where
  "tick_event (WatchTick cas et) = True"
| "tick_event _ = False"

lemma watch_idle:
  assumes "pr_last p = Some (pr_mtime p)" and "\<forall>ev\<in>set ticks. tick_event ev"
  shows "signer_run re ticks p = p"
  using assms(2)
proof (induction ticks)
  case (Cons ev ticks)
  then obtain cas et where "ev = WatchTick cas et" by (cases ev) auto
  with Cons assms(1) show ?case by (simp add: signer_run_def watchConfig_tick_def)
qed (simp add: signer_run_def)

text \<open>
  An automatic reload that fails is not retried. When a tick finds a changed file and the
  reload fails, for whatever reason (an unreachable key vault too), no later tick reloads the
  file as long as its modification time stays the same, even when the reload would succeed by
  then: the old policy stays in force.
\<close>

theorem failed_auto_reload_not_retried:
  assumes "pr_last p = Some seen" and "pr_mtime p = Some mt" and "seen \<noteq> Some mt"
    and "fst (reload re cas (pr_server p)) = Inl err" and "\<forall>ev\<in>set ticks. tick_event ev"
  shows "policy_state (pr_server (signer_run re (WatchTick cas et # ticks) p)) = policy_state (pr_server p)"
proof -
  let ?p = "signer_step re (WatchTick cas et) p"
  have "pr_last ?p = Some (pr_mtime ?p)" using assms(1-3) by (simp add: watchConfig_tick_def)
  then have "signer_run re ticks ?p = ?p" using assms(5) by (rule watch_idle)
  moreover have "reload re cas (pr_server p) = (Inl err, pr_server p)"
    using assms(4) reload_keeps_on_error [OF assms(4)] by (metis prod.collapse)
  then have "policy_state (pr_server ?p) = policy_state (pr_server p)"
    using assms(1-3) by (simp add: watchConfig_tick_def reload_from_def audit_calls)
  ultimately show ?thesis by (simp add: signer_run_def)
qed

section \<open>Witnesses\<close>

definition sample_config :: Config where
  "sample_config = \<lparr>cfg_MaxTTLSeconds = 300, cfg_SignRateLimitPerMin = 0, cfg_MaxGrantTTLSeconds = 0,
     cfg_ReloadCallers = [''admin''], cfg_TrustedForwarders = [''cp''], cfg_Hosts = [(''web01'', sample_host)],
     cfg_Callers = [], cfg_CommandPolicies = [], cfg_GroupCommandPolicies = []\<rparr>"

definition sample_start :: signer_start where
  "sample_start = \<lparr>ss_file = Some sample_config, ss_cas = Some (''ca'', []), ss_seed = Some (replicate 32 CHR ''k''),
     ss_audit_ok = True, ss_audit_fs = \<lparr>fs_current = None, fs_rotated = []\<rparr>, ss_redact = None,
     ss_tls = \<lparr>tl_LoadX509KeyPair = (\<lambda>c k. Some c), tl_ReadFile = (\<lambda>f. Some f), tl_AppendCertsFromPEM = (\<lambda>p. Some [p])\<rparr>,
     ss_ServerCert = ''crt'', ss_ServerKey = ''key'', ss_ClientCA = ''ca.crt'', ss_AutoReloadSeconds = 5, ss_mtime = Some 1\<rparr>"

definition sample_service_ctx :: service_ctx where
  "sample_service_ctx = \<lparr>sx_re = sample_engine, sx_sh = sample_sh, sx_env = sample_env, sx_codec = sample_codec,
     sx_newID = ''g1'', sx_sign_text = (\<lambda>e. ''denied''), sx_group_text = (\<lambda>h c. ''group''),
     sx_grant_text = (\<lambda>e. ''bad grant''), sx_cas = None, sx_write_ok = True, sx_state_text = (\<lambda>e. ''failed'')\<rparr>"

text \<open>A broker tries to add an allow rule to a host.\<close>

definition sample_intrusion :: http_request where
  "sample_intrusion = \<lparr>hr_method = ''POST'', hr_path = [''v1'', ''policy'', ''hosts'', ''web01'', ''allow''],
     hr_peer = Some ''b1'', hr_onBehalfOf = '''', hr_sign = None, hr_grant = None, hr_allow = Some ''.*''\<rparr>"

definition sample_proc :: signer_proc where
  "sample_proc = \<lparr>pr_server = sample_server\<lparr>sv_file := Some sample_config\<rparr>, pr_log = fresh_log,
     pr_tls = \<lparr>tc_Certificates = [''crt''], tc_ClientAuth = RequireAndVerifyClientCert, tc_ClientCAs = Some [''ca.crt''],
       tc_RootCAs = None, tc_MinVersion = VersionTLS13\<rparr>,
     pr_mtime = Some 2, pr_last = Some (Some 1)\<rparr>"

lemma sample_intrusion_route:
  "serve_mux signer_patterns (hr_method sample_intrusion) (hr_path sample_intrusion) =
     Handler PolicyAllowRoute [(''host'', ''web01'')]"
  by code_simp

theorem signer_configuration_protected_witness:
  "sv_local (pr_server (signer_run sample_engine [HttpRequest sample_service_ctx sample_intrusion None] sample_proc)) =
     sample_local \<and>
   sv_grants (pr_server (signer_run sample_engine [HttpRequest sample_service_ctx sample_intrusion None] sample_proc)) = []"
proof -
  have "\<not> peer_in sample_intrusion (sv_reloadCN (pr_server sample_proc))"
    "\<not> peer_in sample_intrusion (sv_forwarders (pr_server sample_proc))"
    by (simp_all add: peer_in_def sample_intrusion_def sample_proc_def sample_server_def CallerCN_b1)
  with signer_configuration_protected [of "[HttpRequest sample_service_ctx sample_intrusion None]" sample_proc sample_engine]
  show ?thesis by (simp add: policy_state_def) (simp add: sample_proc_def sample_server_def)
qed

lemma sample_config_parsed: "parseConfig (Some sample_config) = Some sample_config"
  by (simp add: parseConfig_def sample_config_def sample_host_def)

lemma sample_build: "\<exists>l. buildState sample_engine (Some (''ca'', [])) sample_config gp = Inr l"
proof -
  have "CompileHostPolicies sample_engine (cfg_Hosts sample_config) (cfg_CommandPolicies sample_config)
      (cfg_GroupCommandPolicies sample_config) = Inr [(''web01'', sample_host\<lparr>hp_Policies := Some [sample_policy]\<rparr>)]"
    by (simp add: sample_config_def CompileHostPolicies_def compile_host_def composePolicies_def group_names_def
        cp_Validate_def cp_Restricts_def cp_Active_def sample_defs)
  then show ?thesis by (simp add: buildState_def Let_def)
qed

lemma sample_main: "\<exists>p. signer_main sample_engine (\<lambda>k. list_codec) sample_rx sample_start = Inr p"
proof -
  obtain l where l: "buildState sample_engine (Some (''ca'', [])) sample_config (Some (store_provider NewGrantStore)) = Inr l"
    using sample_build by blast
  show ?thesis
    by (simp add: signer_main_def loadConfig_def sample_start_def sample_config_parsed l audit_start_def audit_Open_def
        restoreChain_def SeedSize_def tls_defs watch_panics_def seconds_small second_ns_def)
qed

theorem signer_state_wellformed_witness:
  "\<exists>p. signer_reach sample_engine (\<lambda>k. list_codec) sample_rx p \<and> server_wf sample_engine (pr_server p) \<and>
     pr_mtime p = Some 7"
proof -
  obtain p where "signer_main sample_engine (\<lambda>k. list_codec) sample_rx sample_start = Inr p" using sample_main by blast
  then have r: "signer_reach sample_engine (\<lambda>k. list_codec) sample_rx (signer_step sample_engine (FileEdited None (Some 7)) p)"
    by (intro signer_reach.intros)
  from signer_state_wellformed [OF r] r show ?thesis by (intro exI conjI) auto
qed

theorem failed_auto_reload_not_retried_witness:
  "sv_local (pr_server (signer_run sample_engine
      [WatchTick None (\<lambda>e. ''vault down''), WatchTick (Some (''ca'', [])) (\<lambda>e. '''')] sample_proc)) = sample_local \<and>
   (\<exists>n. fst (reload sample_engine (Some (''ca'', [])) (pr_server sample_proc)) = Inr n)"
proof -
  obtain l where l: "buildState sample_engine (Some (''ca'', [])) sample_config
      (Some (store_provider (sv_grants sample_server))) = Inr l" using sample_build by blast
  have ok: "\<exists>n. fst (reload sample_engine (Some (''ca'', [])) (pr_server sample_proc)) = Inr n"
    by (simp add: reload_def sample_proc_def sample_config_parsed l)
  have fail: "\<exists>e. fst (reload sample_engine None (pr_server sample_proc)) = Inl e"
    by (simp add: reload_def sample_proc_def sample_config_parsed buildState_def split: sum.split)
  then obtain e where e: "fst (reload sample_engine None (pr_server sample_proc)) = Inl e" by blast
  have "policy_state (pr_server (signer_run sample_engine
      (WatchTick None (\<lambda>e. ''vault down'') # [WatchTick (Some (''ca'', [])) (\<lambda>e. '''')]) sample_proc)) =
     policy_state (pr_server sample_proc)"
    by (rule failed_auto_reload_not_retried [OF _ _ _ e, of "Some 1" 2]) (simp_all add: sample_proc_def)
  with ok show ?thesis by (simp add: policy_state_def) (simp add: sample_proc_def sample_server_def)
qed

end
