(* ===== verification/Approval.thy ===== *)
theory Approval
  imports Wire
begin

text \<open>
  The approval registry of the control plane, \<open>src/internal/control/approval.go\<close>.

  The registry is the list of its entries and the waiting time. Every method runs under the
  registry's mutex; \<open>Create\<close> takes it twice, and its two critical sections are the definitions
  \<open>Create_purge\<close> and \<open>Create_insert\<close>. The clock of each critical section is an argument, and
  \<open>newID\<close> is the argument \<open>aid\<close> (\<open>None\<close> when the random source fails).
\<close>

section \<open>Data\<close>

datatype Status = StatusPending | StatusApproved | StatusDenied | StatusExpired

text \<open>\<open>ap_DecidedAt\<close> is \<open>None\<close> for the zero time.\<close>

record Approval =
  ap_ID :: string
  ap_Caller :: string
  ap_EndUser :: string
  ap_Host :: string
  ap_Command :: string
  ap_Sudo :: bool
  ap_SudoUser :: string
  ap_Rule :: string
  ap_Status :: Status
  ap_CreatedAt :: time
  ap_DecidedBy :: string
  ap_DecidedAt :: "time option"
  ap_LearnTTL :: duration
  ap_req :: WireRequest
  ap_consumed :: bool
  ap_issuing :: bool

record Registry =
  rg_items :: "(string, Approval) gomap"
  rg_ttl :: duration

datatype registry_error = RandomFailed | UnknownApproval string | NotPending string Status

section \<open>Operations\<close>

definition WithRedactedCommand :: "(string \<Rightarrow> string) option \<Rightarrow> Approval \<Rightarrow> Approval" where
  "WithRedactedCommand r a = (case r of None \<Rightarrow> a | Some f \<Rightarrow> a\<lparr>ap_Command := f (ap_Command a)\<rparr>)"

definition NewRegistry :: "duration \<Rightarrow> Registry" where
  "NewRegistry ttl = \<lparr>rg_items = [], rg_ttl = (if ttl \<le> 0 then 2 * minute_ns else ttl)\<rparr>"

definition expireLocked :: "duration \<Rightarrow> time \<Rightarrow> Approval \<Rightarrow> Approval" where
  "expireLocked ttl now a =
     (let expire = (if \<not> ap_consumed a then a\<lparr>ap_Status := StatusExpired\<rparr> else a) in
      case ap_Status a of
        StatusPending \<Rightarrow> if now - ap_CreatedAt a \<le> ttl then a else expire
      | StatusApproved \<Rightarrow>
          if ap_consumed a \<or> ap_issuing a then a
          else
            let anchor = (case ap_DecidedAt a of None \<Rightarrow> ap_CreatedAt a | Some t \<Rightarrow> t)
            in if now - anchor \<le> ttl then a else expire
      | _ \<Rightarrow> a)"

definition purgeLocked :: "time \<Rightarrow> Registry \<Rightarrow> Registry" where
  "purgeLocked now r =
     r\<lparr>rg_items := filter (\<lambda>(aid, a). \<not> now - ap_CreatedAt a > wrap64 (2 * rg_ttl r)) (rg_items r)\<rparr>"

definition new_approval :: "string \<Rightarrow> WireRequest \<Rightarrow> string \<Rightarrow> DecisionInfo option \<Rightarrow> time \<Rightarrow> Approval" where
  "new_approval aid req caller dec now =
     \<lparr>ap_ID = aid, ap_Caller = caller, ap_EndUser = wr_EndUser req, ap_Host = wr_Host req,
      ap_Command = wr_Command req, ap_Sudo = wr_Sudo req, ap_SudoUser = wr_SudoUser req,
      ap_Rule = (case dec of None \<Rightarrow> '''' | Some d \<Rightarrow> di_MatchedRule d), ap_Status = StatusPending,
      ap_CreatedAt = now, ap_DecidedBy = '''', ap_DecidedAt = None, ap_LearnTTL = 0, ap_req = req,
      ap_consumed = False, ap_issuing = False\<rparr>"

definition Create_purge :: "time \<Rightarrow> Registry \<Rightarrow> Registry" where
  "Create_purge now r = purgeLocked now r"

definition Create_insert :: "string \<Rightarrow> Approval \<Rightarrow> Registry \<Rightarrow> Registry" where
  "Create_insert aid a r = r\<lparr>rg_items := put aid a (rg_items r)\<rparr>"

definition Create ::
    "string option \<Rightarrow> WireRequest \<Rightarrow> string \<Rightarrow> DecisionInfo option \<Rightarrow> time \<Rightarrow> Registry \<Rightarrow>
     (registry_error + Approval) \<times> Registry" where
  "Create aid req caller dec now r =
     (case aid of
        None \<Rightarrow> (Inl RandomFailed, r)
      | Some aid \<Rightarrow>
          let r = Create_purge now r;
              a = new_approval aid req caller dec now
          in (Inr a, Create_insert aid a r))"

text \<open>The map holds pointers: \<open>expireLocked\<close> updates the entry in place.\<close>

definition touch :: "time \<Rightarrow> string \<Rightarrow> Registry \<Rightarrow> (Approval \<times> Registry) option" where
  "touch now aid r =
     (case get (rg_items r) aid of
        None \<Rightarrow> None
      | Some a \<Rightarrow>
          let a = expireLocked (rg_ttl r) now a
          in Some (a, r\<lparr>rg_items := put aid a (rg_items r)\<rparr>))"

definition reg_Get :: "time \<Rightarrow> string \<Rightarrow> Registry \<Rightarrow> Approval option \<times> Registry" where
  "reg_Get now aid r = (case touch now aid r of None \<Rightarrow> (None, r) | Some (a, r) \<Rightarrow> (Some a, r))"

definition Request :: "string \<Rightarrow> Registry \<Rightarrow> WireRequest option" where
  "Request aid r = map_option ap_req (get (rg_items r) aid)"

definition reg_Decide ::
    "time \<Rightarrow> string \<Rightarrow> bool \<Rightarrow> string \<Rightarrow> duration \<Rightarrow> Registry \<Rightarrow> (registry_error + Approval) \<times> Registry" where
  "reg_Decide now aid approve by_cn learnTTL r =
     (case touch now aid r of
        None \<Rightarrow> (Inl (UnknownApproval aid), r)
      | Some (a, r) \<Rightarrow>
          if ap_Status a \<noteq> StatusPending then (Inl (NotPending aid (ap_Status a)), r)
          else
            let a = (if approve
                     then (let a = a\<lparr>ap_Status := StatusApproved\<rparr>
                           in if learnTTL > 0 then a\<lparr>ap_LearnTTL := learnTTL\<rparr> else a)
                     else a\<lparr>ap_Status := StatusDenied\<rparr>);
                a = a\<lparr>ap_DecidedBy := by_cn, ap_DecidedAt := Some now\<rparr>
            in (Inr a, r\<lparr>rg_items := put aid a (rg_items r)\<rparr>))"

definition BeginConsume :: "time \<Rightarrow> string \<Rightarrow> Registry \<Rightarrow> (bool \<times> bool) \<times> Registry" where
  "BeginConsume now aid r =
     (case touch now aid r of
        None \<Rightarrow> ((False, False), r)
      | Some (a, r) \<Rightarrow>
          if ap_Status a \<noteq> StatusApproved \<or> ap_consumed a then ((False, False), r)
          else if ap_issuing a then ((False, True), r)
          else ((True, False), r\<lparr>rg_items := put aid (a\<lparr>ap_issuing := True\<rparr>) (rg_items r)\<rparr>))"

definition FinishConsume :: "string \<Rightarrow> bool \<Rightarrow> Registry \<Rightarrow> Registry" where
  "FinishConsume aid success r =
     (case get (rg_items r) aid of
        None \<Rightarrow> r
      | Some a \<Rightarrow>
          let a = (if success then a\<lparr>ap_consumed := True\<rparr> else a)
          in r\<lparr>rg_items := put aid (a\<lparr>ap_issuing := False\<rparr>) (rg_items r)\<rparr>)"

definition reg_List :: "time \<Rightarrow> Registry \<Rightarrow> Approval list \<times> Registry" where
  "reg_List now r =
     (let r = purgeLocked now r;
          items = map (\<lambda>(aid, a). (aid, expireLocked (rg_ttl r) now a)) (rg_items r)
      in (map snd items, r\<lparr>rg_items := items\<rparr>))"

section \<open>Lemmas on expiry\<close>

lemma expireLocked_fields [simp]:
  "ap_consumed (expireLocked ttl now a) = ap_consumed a" "ap_issuing (expireLocked ttl now a) = ap_issuing a"
  "ap_Caller (expireLocked ttl now a) = ap_Caller a" "ap_req (expireLocked ttl now a) = ap_req a"
  "ap_DecidedBy (expireLocked ttl now a) = ap_DecidedBy a" "ap_CreatedAt (expireLocked ttl now a) = ap_CreatedAt a"
  "ap_DecidedAt (expireLocked ttl now a) = ap_DecidedAt a" "ap_ID (expireLocked ttl now a) = ap_ID a"
  "ap_LearnTTL (expireLocked ttl now a) = ap_LearnTTL a"
  by (auto simp: expireLocked_def Let_def split: Status.splits)

lemma expireLocked_status:
  "ap_Status (expireLocked ttl now a) = ap_Status a \<or>
     ap_Status (expireLocked ttl now a) = StatusExpired \<and> \<not> ap_consumed a \<and>
     (ap_Status a = StatusPending \<or> ap_Status a = StatusApproved \<and> \<not> ap_issuing a)"
  by (auto simp: expireLocked_def Let_def split: Status.splits)

text \<open>What a request must satisfy to be redeemed: approved, in its window, neither burned nor claimed.\<close>

definition redeemable :: "duration \<Rightarrow> time \<Rightarrow> Approval \<Rightarrow> bool" where
  "redeemable ttl now a \<longleftrightarrow> ap_Status a = StatusApproved \<and> \<not> ap_consumed a \<and> \<not> ap_issuing a \<and>
     now - (case ap_DecidedAt a of None \<Rightarrow> ap_CreatedAt a | Some t \<Rightarrow> t) \<le> ttl"

lemma BeginConsume_started_iff:
  "fst (fst (BeginConsume now aid r)) \<longleftrightarrow>
     (\<exists>a. get (rg_items r) aid = Some a \<and> redeemable (rg_ttl r) now a)"
  by (auto simp: BeginConsume_def touch_def redeemable_def expireLocked_def Let_def
      split: option.splits Status.splits if_splits)

section \<open>The approval workflow as a state machine\<close>

text \<open>
  The registry together with a record of what happened: the requests created (with their
  originator), the approvals given, the pollers that claimed a request and are talking to the
  signer, and the requests for which the signer answered with a usable result. The clock does
  not go back. Identifiers are 128 random bits; a new one is taken to be fresh.
\<close>

record flow =
  fl_reg :: Registry
  fl_now :: time
  fl_created :: "(string, string \<times> WireRequest) gomap"
  fl_approved :: "(string \<times> string) list"
  fl_claims :: "string list"
  fl_issued :: "string list"

text \<open>
  One step per critical section, as the handlers of \<open>src/cmd/control-plane/main.go\<close> use them:
  a decision is only made for an approver other than the originator (\<open>handleApprovalDecide\<close>),
  and \<open>FinishConsume\<close> only follows a successful \<open>BeginConsume\<close> (\<open>handleResult\<close>).
\<close>

inductive flow_step :: "string set \<Rightarrow> flow \<Rightarrow> flow \<Rightarrow> bool" for approvers where
  step_tick: "fl_now f \<le> now \<Longrightarrow> flow_step approvers f (f\<lparr>fl_now := now\<rparr>)"
| step_purge: "flow_step approvers f (f\<lparr>fl_reg := Create_purge (fl_now f) (fl_reg f)\<rparr>)"
| step_insert: "get (fl_created f) aid = None \<Longrightarrow>
    flow_step approvers f (f\<lparr>fl_reg := Create_insert aid (new_approval aid req caller dec (fl_now f)) (fl_reg f),
      fl_created := put aid (caller, req) (fl_created f)\<rparr>)"
| step_get: "reg_Get (fl_now f) aid (fl_reg f) = (a, r) \<Longrightarrow> flow_step approvers f (f\<lparr>fl_reg := r\<rparr>)"
| step_list: "reg_List (fl_now f) (fl_reg f) = (as, r) \<Longrightarrow> flow_step approvers f (f\<lparr>fl_reg := r\<rparr>)"
| step_decide: "cn \<in> approvers \<Longrightarrow> \<forall>a. get (rg_items (fl_reg f)) aid = Some a \<longrightarrow> ap_Caller a \<noteq> cn \<Longrightarrow>
    reg_Decide (fl_now f) aid approve cn learnTTL (fl_reg f) = (res, r) \<Longrightarrow>
    flow_step approvers f (f\<lparr>fl_reg := r,
      fl_approved := (if isl res \<or> \<not> approve then fl_approved f else (aid, cn) # fl_approved f)\<rparr>)"
| step_begin: "BeginConsume (fl_now f) aid (fl_reg f) = ((started, retry), r) \<Longrightarrow>
    flow_step approvers f (f\<lparr>fl_reg := r, fl_claims := (if started then aid # fl_claims f else fl_claims f)\<rparr>)"
| step_finish: "aid \<in> set (fl_claims f) \<Longrightarrow>
    flow_step approvers f (f\<lparr>fl_reg := FinishConsume aid ok (fl_reg f), fl_claims := remove1 aid (fl_claims f),
      fl_issued := (if ok then aid # fl_issued f else fl_issued f)\<rparr>)"

definition flow_start :: "duration \<Rightarrow> time \<Rightarrow> flow" where
  "flow_start ttl now = \<lparr>fl_reg = NewRegistry ttl, fl_now = now, fl_created = [], fl_approved = [],
     fl_claims = [], fl_issued = []\<rparr>"

inductive flow_reach :: "string set \<Rightarrow> duration \<Rightarrow> flow \<Rightarrow> bool" for approvers ttl where
  flow_init: "flow_reach approvers ttl (flow_start ttl now)"
| flow_next: "flow_reach approvers ttl f \<Longrightarrow> flow_step approvers f f' \<Longrightarrow> flow_reach approvers ttl f'"

subsection \<open>Invariant\<close>

text \<open>What holds of one entry, given the record of the workflow.\<close>

definition entry_ok :: "string set \<Rightarrow> flow \<Rightarrow> string \<Rightarrow> Approval \<Rightarrow> bool" where
  "entry_ok approvers f aid a \<longleftrightarrow>
     get (fl_created f) aid = Some (ap_Caller a, ap_req a) \<and>
     (ap_issuing a \<longleftrightarrow> aid \<in> set (fl_claims f)) \<and> (ap_consumed a \<longleftrightarrow> aid \<in> set (fl_issued f)) \<and>
     (ap_issuing a \<or> ap_consumed a \<longrightarrow> ap_Status a = StatusApproved) \<and>
     (ap_Status a = StatusApproved \<longrightarrow>
        (aid, ap_DecidedBy a) \<in> set (fl_approved f) \<and> ap_DecidedBy a \<in> approvers \<and> ap_DecidedBy a \<noteq> ap_Caller a \<and>
        (\<exists>t. ap_DecidedAt a = Some t \<and> t \<le> ap_CreatedAt a + rg_ttl (fl_reg f) \<and> t \<le> fl_now f))"

text \<open>What holds of an identifier that was claimed or issued, whether or not its entry is still there.\<close>

definition used_ok :: "string set \<Rightarrow> flow \<Rightarrow> string \<Rightarrow> bool" where
  "used_ok approvers f aid \<longleftrightarrow> (\<exists>caller req cn. get (fl_created f) aid = Some (caller, req) \<and>
     (aid, cn) \<in> set (fl_approved f) \<and> cn \<in> approvers \<and> cn \<noteq> caller)"

definition flow_ok :: "string set \<Rightarrow> flow \<Rightarrow> bool" where
  "flow_ok approvers f \<longleftrightarrow> map_ok (rg_items (fl_reg f)) \<and> 0 < rg_ttl (fl_reg f) \<and>
     (\<forall>aid a. get (rg_items (fl_reg f)) aid = Some a \<longrightarrow> entry_ok approvers f aid a) \<and>
     distinct (fl_claims f @ fl_issued f) \<and>
     (\<forall>aid\<in>set (fl_claims f) \<union> set (fl_issued f). used_ok approvers f aid)"

lemma flow_ok_start: "flow_ok approvers (flow_start ttl now)"
  by (simp add: flow_ok_def flow_start_def NewRegistry_def minute_ns_def second_ns_def)

lemma entry_ok_expire:
  "entry_ok approvers f aid a \<Longrightarrow> entry_ok approvers f aid (expireLocked ttl now a)"
  using expireLocked_status [of ttl now a] by (auto simp: entry_ok_def)

lemma entry_ok_reg:
  "rg_ttl r = rg_ttl (fl_reg f) \<Longrightarrow> entry_ok approvers (f\<lparr>fl_reg := r\<rparr>) aid a \<longleftrightarrow> entry_ok approvers f aid a"
  by (simp add: entry_ok_def)

lemma used_ok_reg [simp]:
  "used_ok approvers (f\<lparr>fl_reg := r\<rparr>) aid = used_ok approvers f aid"
  by (simp add: used_ok_def)

text \<open>A step that changes the registry only, entry by entry.\<close>

lemma flow_ok_reg:
  assumes "flow_ok approvers f" and "map_ok (rg_items r)" and "rg_ttl r = rg_ttl (fl_reg f)"
    and "\<And>aid a. get (rg_items r) aid = Some a \<Longrightarrow> entry_ok approvers f aid a"
  shows "flow_ok approvers (f\<lparr>fl_reg := r\<rparr>)"
  using assms by (simp add: flow_ok_def entry_ok_reg)

lemma touch_Some:
  assumes "touch now aid r = Some (a, r')"
  obtains a0 where "get (rg_items r) aid = Some a0" and "a = expireLocked (rg_ttl r) now a0"
    and "r' = r\<lparr>rg_items := put aid a (rg_items r)\<rparr>"
  using assms by (auto simp: touch_def Let_def split: option.splits)

lemma flow_ok_touch:
  assumes "flow_ok approvers f" and "touch now aid (fl_reg f) = Some (a, r)"
  shows "flow_ok approvers (f\<lparr>fl_reg := r\<rparr>)" and "entry_ok approvers f aid a"
proof -
  obtain a0 where a0: "get (rg_items (fl_reg f)) aid = Some a0" "a = expireLocked (rg_ttl (fl_reg f)) now a0"
      "r = (fl_reg f)\<lparr>rg_items := put aid a (rg_items (fl_reg f))\<rparr>"
    using assms(2) by (rule touch_Some)
  with assms(1) show e: "entry_ok approvers f aid a" by (auto simp: flow_ok_def entry_ok_expire)
  show "flow_ok approvers (f\<lparr>fl_reg := r\<rparr>)"
    using assms(1) a0 e by (intro flow_ok_reg) (auto simp: flow_ok_def split: if_splits)
qed

lemma map_ok_purge: "map_ok (rg_items r) \<Longrightarrow> map_ok (rg_items (purgeLocked now r))"
  by (simp add: purgeLocked_def)

lemma get_purge:
  "map_ok (rg_items r) \<Longrightarrow> get (rg_items (purgeLocked now r)) aid = Some a \<Longrightarrow> get (rg_items r) aid = Some a"
  using get_filter [of "rg_items r" "\<lambda>(aid, a). \<not> now - ap_CreatedAt a > wrap64 (2 * rg_ttl r)" aid]
  by (auto simp: purgeLocked_def split: option.splits if_splits)

lemma flow_ok_purge:
  "flow_ok approvers f \<Longrightarrow> flow_ok approvers (f\<lparr>fl_reg := purgeLocked now (fl_reg f)\<rparr>)"
  by (rule flow_ok_reg) (auto simp: flow_ok_def purgeLocked_def dest: get_purge [unfolded purgeLocked_def, simplified])

lemma flow_ok_list:
  assumes "flow_ok approvers f" and "reg_List now (fl_reg f) = (as, r)"
  shows "flow_ok approvers (f\<lparr>fl_reg := r\<rparr>)"
proof -
  let ?p = "purgeLocked now (fl_reg f)"
  from flow_ok_purge [OF assms(1), of now]
  have p: "map_ok (rg_items ?p)" "\<And>aid a. get (rg_items ?p) aid = Some a \<Longrightarrow> entry_ok approvers f aid a"
    using assms(1) get_purge [of "fl_reg f"] by (auto simp: flow_ok_def)
  have r: "r = ?p\<lparr>rg_items := map (\<lambda>(aid, a). (aid, expireLocked (rg_ttl ?p) now a)) (rg_items ?p)\<rparr>"
    using assms(2) by (simp add: reg_List_def Let_def)
  show ?thesis
    using assms(1) p
    by (intro flow_ok_reg) (auto simp: r get_map_vals entry_ok_expire map_ok_map_vals purgeLocked_def)
qed

lemma flow_ok_decide:
  assumes ok: "flow_ok approvers f" and cn: "cn \<in> approvers"
    and other: "\<forall>a. get (rg_items (fl_reg f)) aid = Some a \<longrightarrow> ap_Caller a \<noteq> cn"
    and d: "reg_Decide (fl_now f) aid approve cn learnTTL (fl_reg f) = (res, r)"
  shows "flow_ok approvers (f\<lparr>fl_reg := r,
      fl_approved := (if isl res \<or> \<not> approve then fl_approved f else (aid, cn) # fl_approved f)\<rparr>)"
proof (cases "touch (fl_now f) aid (fl_reg f)")
  case None
  with d ok show ?thesis by (auto simp: reg_Decide_def)
next
  case (Some p)
  then obtain a r1 where t: "touch (fl_now f) aid (fl_reg f) = Some (a, r1)" by (cases p) auto
  obtain a0 where a0: "get (rg_items (fl_reg f)) aid = Some a0"
      "a = expireLocked (rg_ttl (fl_reg f)) (fl_now f) a0"
      "r1 = (fl_reg f)\<lparr>rg_items := put aid a (rg_items (fl_reg f))\<rparr>"
    using t by (rule touch_Some)
  show ?thesis
  proof (cases "ap_Status a = StatusPending")
    case False
    with d t have "isl res" "r = r1" by (auto simp: reg_Decide_def)
    with flow_ok_touch(1) [OF ok t] show ?thesis by simp
  next
    case True
    from flow_ok_touch(2) [OF ok t] True have e: "entry_ok approvers f aid a"
      and ni: "\<not> ap_issuing a" "\<not> ap_consumed a" by (auto simp: entry_ok_def)
    have win: "fl_now f \<le> ap_CreatedAt a + rg_ttl (fl_reg f)"
      using True a0(2) ni by (auto simp: expireLocked_def Let_def split: Status.splits if_splits)
    define b where "b = (if approve
        then (let a = a\<lparr>ap_Status := StatusApproved\<rparr> in if learnTTL > 0 then a\<lparr>ap_LearnTTL := learnTTL\<rparr> else a)
        else a\<lparr>ap_Status := StatusDenied\<rparr>)\<lparr>ap_DecidedBy := cn, ap_DecidedAt := Some (fl_now f)\<rparr>"
    have rr: "\<not> isl res" "r = (fl_reg f)\<lparr>rg_items := put aid b (rg_items (fl_reg f))\<rparr>"
      using d t True a0(3) by (auto simp: reg_Decide_def b_def Let_def)
    let ?f = "f\<lparr>fl_reg := r, fl_approved := (if isl res \<or> \<not> approve then fl_approved f else (aid, cn) # fl_approved f)\<rparr>"
    have "entry_ok approvers ?f aid b"
      using e ni cn other a0 win rr(1) by (auto simp: entry_ok_def b_def Let_def rr(2))
    moreover have "entry_ok approvers ?f k x" if "get (rg_items (fl_reg f)) k = Some x" for k x
      using ok that by (auto simp: flow_ok_def entry_ok_def rr(2))
    moreover have "used_ok approvers ?f k" if "used_ok approvers f k" for k
      using that by (auto simp: used_ok_def)
    ultimately show ?thesis
      using ok by (auto simp: flow_ok_def rr(2) split: if_splits)
  qed
qed

lemma flow_ok_begin:
  assumes ok: "flow_ok approvers f" and b: "BeginConsume (fl_now f) aid (fl_reg f) = ((started, retry), r)"
  shows "flow_ok approvers (f\<lparr>fl_reg := r, fl_claims := (if started then aid # fl_claims f else fl_claims f)\<rparr>)"
proof (cases "touch (fl_now f) aid (fl_reg f)")
  case None
  with b ok show ?thesis by (auto simp: BeginConsume_def)
next
  case (Some p)
  then obtain a r1 where t: "touch (fl_now f) aid (fl_reg f) = Some (a, r1)" by (cases p) auto
  note ok1 = flow_ok_touch [OF ok t]
  show ?thesis
  proof (cases "ap_Status a \<noteq> StatusApproved \<or> ap_consumed a \<or> ap_issuing a")
    case True
    with b t have "\<not> started" "r = r1" by (auto simp: BeginConsume_def split: if_splits)
    with ok1(1) show ?thesis by simp
  next
    case False
    with b t have s: "started" and r: "r = r1\<lparr>rg_items := put aid (a\<lparr>ap_issuing := True\<rparr>) (rg_items r1)\<rparr>"
      by (auto simp: BeginConsume_def)
    let ?f = "f\<lparr>fl_reg := r, fl_claims := aid # fl_claims f\<rparr>"
    have ttl: "rg_ttl r = rg_ttl (fl_reg f)" using t r by (auto elim: touch_Some)
    have new: "aid \<notin> set (fl_claims f)" "aid \<notin> set (fl_issued f)"
      using ok1(2) False by (auto simp: entry_ok_def)
    have "entry_ok approvers ?f aid (a\<lparr>ap_issuing := True\<rparr>)"
      using ok1(2) False by (auto simp: entry_ok_def ttl)
    moreover have "entry_ok approvers ?f k x" if "get (rg_items r1) k = Some x" "k \<noteq> aid" for k x
      using ok1(1) that by (auto simp: flow_ok_def entry_ok_def ttl r)
    moreover have "used_ok approvers ?f aid"
      using ok1(2) False by (auto simp: entry_ok_def used_ok_def)
    moreover have "used_ok approvers ?f k" if "used_ok approvers f k" for k
      using that by (simp add: used_ok_def)
    ultimately show ?thesis
      using ok1(1) new s by (auto simp: flow_ok_def r split: if_splits)
  qed
qed

lemma flow_ok_finish:
  assumes ok: "flow_ok approvers f" and c: "aid \<in> set (fl_claims f)"
  shows "flow_ok approvers (f\<lparr>fl_reg := FinishConsume aid success (fl_reg f), fl_claims := remove1 aid (fl_claims f),
      fl_issued := (if success then aid # fl_issued f else fl_issued f)\<rparr>)"
proof -
  let ?r = "FinishConsume aid success (fl_reg f)"
  let ?f = "f\<lparr>fl_reg := ?r, fl_claims := remove1 aid (fl_claims f),
      fl_issued := (if success then aid # fl_issued f else fl_issued f)\<rparr>"
  have dist: "distinct (fl_claims f)" "distinct (fl_issued f)" "aid \<notin> set (fl_issued f)"
    "set (fl_claims f) \<inter> set (fl_issued f) = {}"
    using ok c by (auto simp: flow_ok_def)
  have ttl: "rg_ttl ?r = rg_ttl (fl_reg f)" by (simp add: FinishConsume_def Let_def split: option.splits)
  have "entry_ok approvers ?f k x" if "get (rg_items ?r) k = Some x" for k x
  proof (cases "k = aid")
    case False
    with that have "get (rg_items (fl_reg f)) k = Some x"
      by (auto simp: FinishConsume_def Let_def split: option.splits)
    with ok False dist show ?thesis by (auto simp: flow_ok_def entry_ok_def ttl)
  next
    case True
    with that obtain a where a: "get (rg_items (fl_reg f)) aid = Some a"
      and x: "x = (if success then a\<lparr>ap_consumed := True\<rparr> else a)\<lparr>ap_issuing := False\<rparr>"
      by (auto simp: FinishConsume_def Let_def split: option.splits)
    from ok a have "entry_ok approvers f aid a" by (simp add: flow_ok_def)
    with True x c dist show ?thesis by (auto simp: entry_ok_def ttl)
  qed
  moreover have "used_ok approvers ?f k" if "used_ok approvers f k" for k
    using that by (simp add: used_ok_def)
  moreover have "map_ok (rg_items ?r)"
    using ok by (auto simp: flow_ok_def FinishConsume_def Let_def split: option.splits)
  ultimately show ?thesis
    using ok c dist ttl by (auto simp: flow_ok_def)
qed

lemma flow_step_ok:
  assumes "flow_step approvers f f'" and "flow_ok approvers f"
  shows "flow_ok approvers f'"
  using assms
proof (induction rule: flow_step.induct)
  case (step_tick f now)
  then show ?case by (fastforce simp: flow_ok_def entry_ok_def used_ok_def)
next
  case (step_purge f)
  then show ?case unfolding Create_purge_def by (rule flow_ok_purge)
next
  case (step_insert f aid req caller dec)
  have "\<not> used_ok approvers f aid" using step_insert(1) by (auto simp: used_ok_def)
  with step_insert(2) have new: "aid \<notin> set (fl_claims f)" "aid \<notin> set (fl_issued f)"
    by (auto simp: flow_ok_def)
  from step_insert new show ?case
    by (auto simp: flow_ok_def entry_ok_def used_ok_def Create_insert_def new_approval_def split: if_splits)
next
  case (step_get f aid a r)
  then show ?case using flow_ok_touch(1) [of approvers f "fl_now f" aid]
    by (auto simp: reg_Get_def split: option.splits prod.splits)
next
  case (step_list f as r)
  then show ?case by (auto intro: flow_ok_list)
next
  case (step_decide cn f aid approve learnTTL res r)
  then show ?case by (intro flow_ok_decide) auto
next
  case (step_begin f aid started retry r)
  then show ?case by (intro flow_ok_begin) auto
next
  case (step_finish aid f success)
  then show ?case by (intro flow_ok_finish) auto
qed

lemma flow_reach_ok: "flow_reach approvers ttl f \<Longrightarrow> flow_ok approvers f"
  by (induction rule: flow_reach.induct) (auto intro: flow_ok_start flow_step_ok)

section \<open>Properties\<close>

text \<open>
  C15: an approval issues at most once. In every reachable state of the workflow, with any
  number of concurrent pollers, failed and retried signer calls, expiries and purges, each
  request identifier has had at most one successful issuance, and none while another poller
  holds it.
\<close>

theorem approval_issues_once:
  assumes "flow_reach approvers ttl f"
  shows "distinct (fl_issued f) \<and> distinct (fl_claims f) \<and> set (fl_issued f) \<inter> set (fl_claims f) = {}"
  using flow_reach_ok [OF assms] by (auto simp: flow_ok_def)

text \<open>A run: created by \<open>b1\<close>, approved by \<open>boss\<close> (\<open>approved_flow\<close>), then claimed and issued.\<close>

definition sample_wire :: WireRequest where
  "sample_wire = \<lparr>wr_Host = ''web01'', wr_Role = RoleTarget, wr_Purpose = PurposeOneshot, wr_SessionMode = '''',
     wr_Command = ''reboot'', wr_TTLSeconds = 60, wr_PublicKey = ''pk'', wr_Sudo = False, wr_SudoUser = '''',
     wr_PTY = False, wr_FileTransfer = False, wr_DryRun = False, wr_Preflight = False, wr_OnBehalfOf = '''',
     wr_Approved = False, wr_EndUser = '''', wr_EndUserGroups = None, wr_LearnTTLSeconds = 0,
     wr_LearnApprover = '''', wr_LearnApprovalID = ''''\<rparr>"

definition approved_flow :: flow where
  "approved_flow =
     (let f = flow_start 100 0;
          f = f\<lparr>fl_reg := Create_insert ''a1'' (new_approval ''a1'' sample_wire ''b1'' None 0) (fl_reg f),
                fl_created := put ''a1'' (''b1'', sample_wire) (fl_created f)\<rparr>
      in f\<lparr>fl_reg := snd (reg_Decide 0 ''a1'' True ''boss'' 0 (fl_reg f)), fl_approved := [(''a1'', ''boss'')]\<rparr>)"

lemma approved_flow_reach: "flow_reach {''boss''} 100 approved_flow"
proof -
  define f0 where "f0 = flow_start 100 0"
  define f1 where "f1 = f0\<lparr>fl_reg := Create_insert ''a1'' (new_approval ''a1'' sample_wire ''b1'' None (fl_now f0)) (fl_reg f0),
      fl_created := put ''a1'' (''b1'', sample_wire) (fl_created f0)\<rparr>"
  have r1: "flow_reach {''boss''} 100 f1"
    unfolding f1_def by (rule flow_next [OF _ step_insert]) (simp_all add: f0_def flow_init, simp add: flow_start_def)
  have other: "\<forall>a. get (rg_items (fl_reg f1)) ''a1'' = Some a \<longrightarrow> ap_Caller a \<noteq> ''boss''"
    by (simp add: f0_def f1_def Create_insert_def new_approval_def flow_start_def NewRegistry_def)
  obtain res r where d: "reg_Decide (fl_now f1) ''a1'' True ''boss'' 0 (fl_reg f1) = (res, r)"
    by (cases "reg_Decide (fl_now f1) ''a1'' True ''boss'' 0 (fl_reg f1)")
  from flow_next [OF r1 step_decide [OF _ other d]]
  have "flow_reach {''boss''} 100 (f1\<lparr>fl_reg := r,
      fl_approved := (if isl res \<or> \<not> True then fl_approved f1 else (''a1'', ''boss'') # fl_approved f1)\<rparr>)" by simp
  moreover have "f1\<lparr>fl_reg := r,
      fl_approved := (if isl res \<or> \<not> True then fl_approved f1 else (''a1'', ''boss'') # fl_approved f1)\<rparr> = approved_flow"
    using d by (auto simp: approved_flow_def Let_def f0_def f1_def flow_start_def NewRegistry_def
        Create_insert_def new_approval_def reg_Decide_def touch_def expireLocked_def)
  ultimately show ?thesis by simp
qed

definition sample_flow :: flow where
  "sample_flow =
     (let f = approved_flow;
          f = f\<lparr>fl_reg := snd (BeginConsume 0 ''a1'' (fl_reg f)), fl_claims := [''a1'']\<rparr>
      in f\<lparr>fl_reg := FinishConsume ''a1'' True (fl_reg f), fl_claims := [], fl_issued := [''a1'']\<rparr>)"

lemmas flow_defs = approved_flow_def Let_def flow_start_def NewRegistry_def Create_insert_def
  new_approval_def reg_Decide_def touch_def expireLocked_def BeginConsume_def

lemma approved_flow_begin:
  "BeginConsume (fl_now approved_flow) ''a1'' (fl_reg approved_flow) =
     ((True, False), snd (BeginConsume 0 ''a1'' (fl_reg approved_flow)))"
  by (simp add: flow_defs)

lemma sample_flow_reach: "flow_reach {''boss''} 100 sample_flow"
proof -
  define f where "f = approved_flow\<lparr>fl_reg := snd (BeginConsume 0 ''a1'' (fl_reg approved_flow)),
      fl_claims := (if True then ''a1'' # fl_claims approved_flow else fl_claims approved_flow)\<rparr>"
  have r: "flow_reach {''boss''} 100 f"
    unfolding f_def by (rule flow_next [OF approved_flow_reach step_begin [OF approved_flow_begin]])
  have c: "''a1'' \<in> set (fl_claims f)" by (simp add: f_def)
  from flow_next [OF r step_finish [OF c, of _ True]]
  have "flow_reach {''boss''} 100 (f\<lparr>fl_reg := FinishConsume ''a1'' True (fl_reg f),
      fl_claims := remove1 ''a1'' (fl_claims f), fl_issued := ''a1'' # fl_issued f\<rparr>)" by simp
  moreover have "f\<lparr>fl_reg := FinishConsume ''a1'' True (fl_reg f),
      fl_claims := remove1 ''a1'' (fl_claims f), fl_issued := ''a1'' # fl_issued f\<rparr> = sample_flow"
    by (simp add: f_def sample_flow_def flow_defs)
  ultimately show ?thesis by simp
qed

lemma sample_flow_issued: "fl_issued sample_flow = [''a1'']" "fl_created sample_flow = [(''a1'', ''b1'', sample_wire)]"
  by (simp_all add: sample_flow_def flow_defs)

theorem approval_issues_once_witness: "distinct (fl_issued sample_flow) \<and> ''a1'' \<in> set (fl_issued sample_flow)"
  using approval_issues_once [OF sample_flow_reach] by (simp add: sample_flow_issued)

text \<open>
  Four eyes. Whatever was issued, or is being issued, was created by an originator and
  approved by an authorised approver who is not that originator.
\<close>

theorem approval_four_eyes:
  assumes "flow_reach approvers ttl f" and "aid \<in> set (fl_issued f) \<union> set (fl_claims f)"
  shows "\<exists>caller req cn. get (fl_created f) aid = Some (caller, req) \<and> (aid, cn) \<in> set (fl_approved f) \<and>
     cn \<in> approvers \<and> cn \<noteq> caller"
  using flow_reach_ok [OF assms(1)] assms(2) by (auto simp: flow_ok_def used_ok_def)

theorem approval_four_eyes_witness:
  "\<exists>cn. (''a1'', cn) \<in> set (fl_approved sample_flow) \<and> cn \<in> {''boss''} \<and> cn \<noteq> ''b1''"
proof -
  have "''a1'' \<in> set (fl_issued sample_flow) \<union> set (fl_claims sample_flow)" by (simp add: sample_flow_issued)
  from approval_four_eyes [OF sample_flow_reach this] show ?thesis by (auto simp: sample_flow_issued)
qed

text \<open>
  What is forwarded is what was approved. As long as an entry is in the registry, the
  request kept for forwarding and the recorded originator are exactly those of its creation.
\<close>

theorem approval_request_immutable:
  assumes "flow_reach approvers ttl f" and "Request aid (fl_reg f) = Some req"
  shows "\<exists>caller. get (fl_created f) aid = Some (caller, req)"
  using flow_reach_ok [OF assms(1)] assms(2) by (auto simp: flow_ok_def entry_ok_def Request_def)

theorem approval_request_immutable_witness:
  "\<exists>caller. get (fl_created sample_flow) ''a1'' = Some (caller, sample_wire)"
proof (rule approval_request_immutable [OF sample_flow_reach])
  show "Request ''a1'' (fl_reg sample_flow) = Some sample_wire"
    by (simp add: sample_flow_def Request_def FinishConsume_def flow_defs)
qed

text \<open>
  Purging never loses a decision that can still be used. In a reachable state, an entry
  that a poller could redeem now survives the purge that \<open>Create\<close> and \<open>List\<close> perform, as long as
  twice the lifetime is a duration.
\<close>

theorem redeemable_not_purged:
  assumes "flow_reach approvers ttl f" and "get (rg_items (fl_reg f)) aid = Some a"
    and "redeemable (rg_ttl (fl_reg f)) (fl_now f) a" and "0 \<le> rg_ttl (fl_reg f)" and "2 * rg_ttl (fl_reg f) < 2 ^ 63"
  shows "get (rg_items (purgeLocked (fl_now f) (fl_reg f))) aid = Some a"
proof -
  note ok = flow_reach_ok [OF assms(1)]
  from ok assms(2) have "entry_ok approvers f aid a" and m: "map_ok (rg_items (fl_reg f))"
    by (auto simp: flow_ok_def)
  then obtain t where "ap_DecidedAt a = Some t" "t \<le> ap_CreatedAt a + rg_ttl (fl_reg f)"
    using assms(3) by (auto simp: entry_ok_def redeemable_def)
  then have "fl_now f - ap_CreatedAt a \<le> 2 * rg_ttl (fl_reg f)"
    using assms(3) by (simp add: redeemable_def)
  moreover have "wrap64 (2 * rg_ttl (fl_reg f)) = 2 * rg_ttl (fl_reg f)" using assms(4,5) by (intro wrap64_id) auto
  ultimately show ?thesis
    using assms(2) get_filter [OF m, of "\<lambda>(aid, a). \<not> fl_now f - ap_CreatedAt a > 2 * rg_ttl (fl_reg f)" aid]
    by (simp add: purgeLocked_def)
qed

theorem redeemable_not_purged_witness:
  "get (rg_items (purgeLocked (fl_now approved_flow) (fl_reg approved_flow))) ''a1'' \<noteq> None"
proof -
  obtain a where a: "get (rg_items (fl_reg approved_flow)) ''a1'' = Some a"
    and "redeemable (rg_ttl (fl_reg approved_flow)) (fl_now approved_flow) a"
    by (simp add: flow_defs redeemable_def)
  from redeemable_not_purged [OF approved_flow_reach this] show ?thesis by (simp add: flow_defs)
qed

text \<open>
  A failed forward does not burn the approval. After a claim whose signer call fails, the
  request can be claimed again for as long as it is in its window; after a claim that succeeds
  it never can.
\<close>

theorem failed_forward_retryable:
  assumes "BeginConsume now aid r = ((True, retry), r')" and "now \<le> later"
    and "get (rg_items r) aid = Some a" and "ap_DecidedAt a = Some t" and "later - t \<le> rg_ttl r"
  shows "fst (fst (BeginConsume later aid (FinishConsume aid False r'))) \<and>
     \<not> fst (fst (BeginConsume later aid (FinishConsume aid True r')))"
proof -
  have red: "redeemable (rg_ttl r) now a"
    using BeginConsume_started_iff [of now aid r] assms(1,3) by auto
  then have "expireLocked (rg_ttl r) now a = a"
    by (auto simp: redeemable_def expireLocked_def Let_def)
  with red assms(1,3) have r': "get (rg_items r') aid = Some (a\<lparr>ap_issuing := True\<rparr>)" "rg_ttl r' = rg_ttl r"
    by (auto simp: BeginConsume_def touch_def redeemable_def Let_def)
  have f: "get (rg_items (FinishConsume aid ok r')) aid =
      Some (a\<lparr>ap_consumed := (ok \<or> ap_consumed a), ap_issuing := False\<rparr>)" "rg_ttl (FinishConsume aid ok r') = rg_ttl r" for ok
    using r' by (simp_all add: FinishConsume_def Let_def)
  show ?thesis
    using red assms(4,5) unfolding BeginConsume_started_iff by (simp add: f redeemable_def)
qed

theorem failed_forward_retryable_witness:
  "let r = fl_reg approved_flow; r' = snd (BeginConsume 0 ''a1'' r) in
     fst (fst (BeginConsume 5 ''a1'' (FinishConsume ''a1'' False r')))"
proof -
  have b: "BeginConsume 0 ''a1'' (fl_reg approved_flow) =
      ((True, False), snd (BeginConsume 0 ''a1'' (fl_reg approved_flow)))"
    by (simp add: flow_defs)
  obtain a where a: "get (rg_items (fl_reg approved_flow)) ''a1'' = Some a" "ap_DecidedAt a = Some 0"
    by (simp add: flow_defs)
  have "5 - 0 \<le> rg_ttl (fl_reg approved_flow)" by (simp add: flow_defs)
  from failed_forward_retryable [OF b _ a this] show ?thesis by (simp add: Let_def)
qed

end
