(* ===== verification/Behavior.thy ===== *)
theory Behavior
  imports GoPrelude
begin

text \<open>
  The behaviour guardrails of the control plane, \<open>src/internal/control/behavior.go\<close>: a sliding
  rate window and the hosts and commands each subject has been seen with, in bounded memory.

  The maps used as sets (\<open>hosts\<close>, \<open>cmds\<close>) are lists without repetition; the subject table is
  the list of its entries. The clock is an argument: each operation reads it once.
\<close>

section \<open>Data\<close>

abbreviation BehaviorOff :: string where "BehaviorOff \<equiv> ''off''"
abbreviation BehaviorObserve :: string where "BehaviorObserve \<equiv> ''observe''"
abbreviation BehaviorEnforce :: string where "BehaviorEnforce \<equiv> ''enforce''"

definition defaultMaxSubjects :: int where "defaultMaxSubjects = 4096"
definition defaultSubjectTTL :: duration where "defaultSubjectTTL = 24 * 60 * minute_ns"
definition defaultMaxDistinctHosts :: int where "defaultMaxDistinctHosts = 1024"

record BehaviorConfig =
  bc_Mode :: string
  bc_RateLimitPerMin :: int
  bc_MaxSubjects :: int
  bc_SubjectTTLMinutes :: int
  bc_MaxDistinctPerSubject :: int

record subjectState =
  ss_events :: "time list"
  ss_hosts :: "string list"
  ss_cmds :: "string list"
  ss_lastSeen :: time

record BehaviorTracker =
  bt_cfg :: BehaviorConfig
  bt_subjects :: "(string, subjectState) gomap"
  bt_maxSubjects :: int
  bt_subjectTTL :: duration
  bt_maxDistinct :: int

section \<open>Operations\<close>

definition NewBehaviorTracker :: "BehaviorConfig \<Rightarrow> BehaviorTracker" where
  "NewBehaviorTracker cfg =
     (let ttl = wrap64 (bc_SubjectTTLMinutes cfg * minute_ns) in
      \<lparr>bt_cfg = cfg, bt_subjects = [],
       bt_maxSubjects = (if bc_MaxSubjects cfg \<le> 0 then defaultMaxSubjects else bc_MaxSubjects cfg),
       bt_subjectTTL = (if ttl \<le> 0 then defaultSubjectTTL else ttl),
       bt_maxDistinct = (if bc_MaxDistinctPerSubject cfg \<le> 0 then defaultMaxDistinctHosts
                         else bc_MaxDistinctPerSubject cfg)\<rparr>)"

definition Enabled :: "BehaviorTracker \<Rightarrow> bool" where
  "Enabled t \<longleftrightarrow> bc_Mode (bt_cfg t) = BehaviorObserve \<or> bc_Mode (bt_cfg t) = BehaviorEnforce"

definition Enforcing :: "BehaviorTracker \<Rightarrow> bool" where
  "Enforcing t \<longleftrightarrow> bc_Mode (bt_cfg t) = BehaviorEnforce"

definition firstToken :: "string \<Rightarrow> string" where
  "firstToken command = take_token (TrimLeftSpace command)"

definition learnLocked :: "BehaviorTracker \<Rightarrow> string \<Rightarrow> string \<Rightarrow> subjectState \<Rightarrow> subjectState" where
  "learnLocked t host fp st =
     (let st = (if int (length (ss_hosts st)) < bt_maxDistinct t
                then st\<lparr>ss_hosts := List.insert host (ss_hosts st)\<rparr> else st)
      in if fp \<noteq> '''' \<and> int (length (ss_cmds st)) < bt_maxDistinct t
         then st\<lparr>ss_cmds := List.insert fp (ss_cmds st)\<rparr> else st)"

text \<open>The loop of \<open>evictLocked\<close>: the entries that stay, and \<open>(oldestKey, oldestSeen)\<close>.\<close>

fun evict_scan ::
    "time \<Rightarrow> (string, subjectState) gomap \<Rightarrow> string \<times> time \<Rightarrow>
     (string, subjectState) gomap \<times> string \<times> time" where
  "evict_scan cutoff [] best = ([], best)"
| "evict_scan cutoff ((k, st) # subjects) (oldestKey, oldestSeen) =
     (if ss_lastSeen st < cutoff then evict_scan cutoff subjects (oldestKey, oldestSeen)
      else
        let best = (if oldestKey = '''' \<or> ss_lastSeen st < oldestSeen then (k, ss_lastSeen st)
                    else (oldestKey, oldestSeen));
            (kept, best) = evict_scan cutoff subjects best
        in ((k, st) # kept, best))"

definition evictLocked :: "time \<Rightarrow> BehaviorTracker \<Rightarrow> BehaviorTracker" where
  "evictLocked now t =
     (if int (length (bt_subjects t)) < bt_maxSubjects t then t
      else
        let (kept, oldestKey, oldestSeen) = evict_scan (now - bt_subjectTTL t) (bt_subjects t) ('''', 0)
        in if int (length kept) \<ge> bt_maxSubjects t \<and> oldestKey \<noteq> ''''
           then t\<lparr>bt_subjects := del oldestKey kept\<rparr>
           else t\<lparr>bt_subjects := kept\<rparr>)"

definition new_subject :: subjectState where
  "new_subject = \<lparr>ss_events = [], ss_hosts = [], ss_cmds = [], ss_lastSeen = 0\<rparr>"

text \<open>The lookup at the head of \<open>Check\<close> and \<open>Learn\<close>: the entry, or a new one after making room.\<close>

definition subject_entry :: "time \<Rightarrow> string \<Rightarrow> BehaviorTracker \<Rightarrow> subjectState \<times> BehaviorTracker" where
  "subject_entry now subject t =
     (case get (bt_subjects t) subject of
        Some st \<Rightarrow> (st\<lparr>ss_lastSeen := now\<rparr>, t)
      | None \<Rightarrow> (new_subject\<lparr>ss_lastSeen := now\<rparr>, evictLocked now t))"

text \<open>The sliding window: the kept events, this one appended.\<close>

definition window :: "time \<Rightarrow> time list \<Rightarrow> time list" where
  "window now events = filter (\<lambda>e. e > now - minute_ns) events @ [now]"

definition novelties :: "BehaviorTracker \<Rightarrow> string \<Rightarrow> string \<Rightarrow> subjectState \<Rightarrow> string list" where
  "novelties t host fp st =
     (if host \<notin> set (ss_hosts st) \<and> \<not> int (length (ss_hosts st)) \<ge> bt_maxDistinct t
      then [''new-host:'' @ host] else []) @
     (if fp \<noteq> '''' \<and> fp \<notin> set (ss_cmds st) \<and> \<not> int (length (ss_cmds st)) \<ge> bt_maxDistinct t
      then [''new-command:'' @ fp] else [])"

definition Check ::
    "time \<Rightarrow> string \<Rightarrow> string \<Rightarrow> string \<Rightarrow> BehaviorTracker \<Rightarrow> (string list \<times> bool) \<times> BehaviorTracker" where
  "Check now subject host command t =
     (if \<not> Enabled t then (([], False), t)
      else
        let seen = (get (bt_subjects t) subject \<noteq> None);
            (st, t) = subject_entry now subject t;
            limited = bc_RateLimitPerMin (bt_cfg t) > 0;
            st = (if limited then st\<lparr>ss_events := window now (ss_events st)\<rparr> else st);
            exceeded = (limited \<and> int (length (ss_events st)) > bc_RateLimitPerMin (bt_cfg t));
            fp = firstToken command;
            anomalies = (if exceeded then [''rate-exceeded''] else []) @
                        (if seen then novelties t host fp st else []);
            st = (if \<not> Enforcing t \<or> length anomalies = 0 then learnLocked t host fp st else st)
        in ((anomalies, exceeded), t\<lparr>bt_subjects := put subject st (bt_subjects t)\<rparr>))"

definition Learn :: "time \<Rightarrow> string \<Rightarrow> string \<Rightarrow> string \<Rightarrow> BehaviorTracker \<Rightarrow> BehaviorTracker" where
  "Learn now subject host command t =
     (if \<not> Enabled t then t
      else
        let (st, t) = subject_entry now subject t
        in t\<lparr>bt_subjects := put subject (learnLocked t host (firstToken command) st) (bt_subjects t)\<rparr>)"

section \<open>Bounded memory\<close>

definition subject_ok :: "int \<Rightarrow> subjectState \<Rightarrow> bool" where
  "subject_ok m st \<longleftrightarrow> distinct (ss_hosts st) \<and> distinct (ss_cmds st) \<and>
     int (length (ss_hosts st)) \<le> m \<and> int (length (ss_cmds st)) \<le> m"

definition tracker_ok :: "BehaviorTracker \<Rightarrow> bool" where
  "tracker_ok t \<longleftrightarrow> map_ok (bt_subjects t) \<and> 0 < bt_maxSubjects t \<and> 0 < bt_maxDistinct t \<and>
     int (length (bt_subjects t)) \<le> bt_maxSubjects t \<and> '''' \<notin> fst ` set (bt_subjects t) \<and>
     (\<forall>(k, st)\<in>set (bt_subjects t). subject_ok (bt_maxDistinct t) st)"

lemma tracker_ok_new: "tracker_ok (NewBehaviorTracker cfg)"
  by (simp add: tracker_ok_def NewBehaviorTracker_def Let_def defaultMaxSubjects_def
      defaultMaxDistinctHosts_def)

lemma length_insert_less: "int (length xs) < m \<Longrightarrow> int (length (List.insert x xs)) \<le> m"
  by (simp add: List.insert_def)

lemma subject_ok_learn:
  "subject_ok m st \<Longrightarrow> bt_maxDistinct t = m \<Longrightarrow> subject_ok m (learnLocked t host fp st)"
  by (auto simp: subject_ok_def learnLocked_def Let_def intro: length_insert_less)

lemma evict_scan_fst: "fst (evict_scan cutoff subjects best) = filter (\<lambda>(k, st). \<not> ss_lastSeen st < cutoff) subjects"
  by (induction cutoff subjects best rule: evict_scan.induct) (auto simp: Let_def case_prod_unfold)

lemma evict_scan_key:
  "'''' \<notin> fst ` set subjects \<Longrightarrow> evict_scan cutoff subjects (bk, bt) = (kept, k, t) \<Longrightarrow>
     (k = bk \<and> (bk \<noteq> '''' \<or> kept = [])) \<or> k \<in> fst ` set kept"
proof (induction cutoff subjects "(bk, bt)" arbitrary: bk bt kept rule: evict_scan.induct)
  case (1 cutoff)
  then show ?case by simp
next
  case (2 cutoff key st subjects bk bt)
  show ?case
  proof (cases "ss_lastSeen st < cutoff")
    case True
    with 2(1) [OF True] 2(3,4) show ?thesis by simp
  next
    case False
    define nb where "nb = (if bk = '''' \<or> ss_lastSeen st < bt then (key, ss_lastSeen st) else (bk, bt))"
    obtain kept' where r: "evict_scan cutoff subjects nb = (kept', k, t)" and k: "kept = (key, st) # kept'"
      using 2(4) False by (auto simp: nb_def Let_def split: prod.splits)
    have nk: "fst nb = key \<or> (fst nb = bk \<and> bk \<noteq> '''')" by (auto simp: nb_def)
    from 2(3) have no: "'''' \<notin> fst ` set subjects" by simp
    have "k = fst nb \<and> (fst nb \<noteq> '''' \<or> kept' = []) \<or> k \<in> fst ` set kept'"
      using 2(2) [OF False, of "fst nb" "snd nb" kept'] no r by (simp add: nb_def)
    with nk k show ?thesis by auto
  qed
qed

lemma evictLocked_fields [simp]:
  "bt_cfg (evictLocked now t) = bt_cfg t" "bt_maxSubjects (evictLocked now t) = bt_maxSubjects t"
  "bt_maxDistinct (evictLocked now t) = bt_maxDistinct t" "bt_subjectTTL (evictLocked now t) = bt_subjectTTL t"
  by (auto simp: evictLocked_def Let_def split: prod.splits)

lemma evictLocked_cases:
  obtains (same) "bt_subjects (evictLocked now t) = bt_subjects t"
  | P where "bt_subjects (evictLocked now t) = filter P (bt_subjects t)"
  | P k where "bt_subjects (evictLocked now t) = del k (filter P (bt_subjects t))"
proof -
  let ?P = "\<lambda>(k, st). \<not> ss_lastSeen st < now - bt_subjectTTL t"
  obtain kept k s where e: "evict_scan (now - bt_subjectTTL t) (bt_subjects t) ('''', 0) = (kept, k, s)"
    by (cases "evict_scan (now - bt_subjectTTL t) (bt_subjects t) ('''', 0)")
  then have "kept = filter ?P (bt_subjects t)"
    using evict_scan_fst [of "now - bt_subjectTTL t" "bt_subjects t" "('''', 0)"] by simp
  with e have "bt_subjects (evictLocked now t) \<in>
      {bt_subjects t, filter ?P (bt_subjects t), del k (filter ?P (bt_subjects t))}"
    by (simp add: evictLocked_def)
  then show thesis using that by blast
qed

lemma evictLocked_subset: "set (bt_subjects (evictLocked now t)) \<subseteq> set (bt_subjects t)"
proof (rule evictLocked_cases [of now t])
  fix P k
  assume "bt_subjects (evictLocked now t) = del k (filter P (bt_subjects t))"
  then show ?thesis using set_del_subset [of k "filter P (bt_subjects t)"] by auto
qed auto

lemma map_ok_evict: "map_ok (bt_subjects t) \<Longrightarrow> map_ok (bt_subjects (evictLocked now t))"
  by (rule evictLocked_cases [of now t]) auto

lemma length_del_mem: "k \<in> fst ` set m \<Longrightarrow> length (del k m) < length m"
  by (induction m) (auto simp: le_imp_less_Suc length_delete_le)

lemma evictLocked_room:
  assumes "tracker_ok t"
  shows "int (length (bt_subjects (evictLocked now t))) < bt_maxSubjects t"
proof (cases "int (length (bt_subjects t)) < bt_maxSubjects t")
  case True
  then show ?thesis by (simp add: evictLocked_def)
next
  case False
  obtain kept k s where e: "evict_scan (now - bt_subjectTTL t) (bt_subjects t) ('''', 0) = (kept, k, s)"
    by (cases "evict_scan (now - bt_subjectTTL t) (bt_subjects t) ('''', 0)")
  have no: "'''' \<notin> fst ` set (bt_subjects t)" using assms by (simp add: tracker_ok_def)
  have kept: "kept = filter (\<lambda>(k, st). \<not> ss_lastSeen st < now - bt_subjectTTL t) (bt_subjects t)"
    using evict_scan_fst [of "now - bt_subjectTTL t" "bt_subjects t" "('''', 0)"] e by simp
  then have le: "length kept \<le> length (bt_subjects t)" and "'''' \<notin> fst ` set kept"
    using no by auto
  with evict_scan_key [OF no e] have "kept = [] \<or> (k \<noteq> '''' \<and> k \<in> fst ` set kept)" by blast
  then have "kept = [] \<or> k \<noteq> '''' \<and> length (del k kept) < length kept"
    using length_del_mem [of k kept] by blast
  with e le assms False show ?thesis
    by (auto simp: evictLocked_def Let_def tracker_ok_def)
qed


text \<open>Storing an entry obtained from \<open>subject_entry\<close> keeps the invariant.\<close>

lemma subject_entry_ok:
  assumes "tracker_ok t" and "subject_entry now subject t = (st, t')" and "subject \<noteq> ''''"
  shows "subject_ok (bt_maxDistinct t) st" and "bt_cfg t' = bt_cfg t" and "bt_maxDistinct t' = bt_maxDistinct t"
    and "subject_ok (bt_maxDistinct t) st' \<Longrightarrow> tracker_ok (t'\<lparr>bt_subjects := put subject st' (bt_subjects t')\<rparr>)"
proof -
  have sub: "set (bt_subjects t') \<subseteq> set (bt_subjects t)"
    and f: "bt_cfg t' = bt_cfg t" "bt_maxDistinct t' = bt_maxDistinct t" "bt_maxSubjects t' = bt_maxSubjects t"
    and mo: "map_ok (bt_subjects t')"
    using assms(1,2) evictLocked_subset map_ok_evict
    by (auto simp: subject_entry_def tracker_ok_def split: option.splits)
  show "subject_ok (bt_maxDistinct t) st"
    using assms(1,2) by (auto simp: subject_entry_def subject_ok_def new_subject_def tracker_ok_def
        split: option.splits dest!: get_in_set)
  show "bt_cfg t' = bt_cfg t" and "bt_maxDistinct t' = bt_maxDistinct t" by (simp_all add: f)
  have len: "int (length (put subject st' (bt_subjects t'))) \<le> bt_maxSubjects t"
  proof (cases "get (bt_subjects t) subject")
    case None
    then have "t' = evictLocked now t" using assms(2) by (simp add: subject_entry_def)
    with evictLocked_room [OF assms(1), of now] length_put_le [of subject st' "bt_subjects t'"]
    show ?thesis by simp
  next
    case (Some x)
    then have "t' = t" and "subject \<in> fst ` set (bt_subjects t)"
      using assms(2) Some get_key [OF Some] by (auto simp: subject_entry_def)
    with assms(1) show ?thesis by (simp add: length_put_mem tracker_ok_def)
  qed
  show "tracker_ok (t'\<lparr>bt_subjects := put subject st' (bt_subjects t')\<rparr>)" if "subject_ok (bt_maxDistinct t) st'"
  proof -
    have in_t: "p = (subject, st') \<or> p \<in> set (bt_subjects t)" if "p \<in> set (put subject st' (bt_subjects t'))" for p
      using that sub set_put_subset [of subject st' "bt_subjects t'"] by blast
    then have "'''' \<notin> fst ` set (put subject st' (bt_subjects t'))"
      using assms(1,3) unfolding tracker_ok_def by fastforce
    moreover have "\<forall>(k, s)\<in>set (put subject st' (bt_subjects t')). subject_ok (bt_maxDistinct t) s"
      using assms(1) that in_t unfolding tracker_ok_def by fastforce
    ultimately show ?thesis
      using assms(1) f mo len by (simp add: tracker_ok_def)
  qed
qed

lemma tracker_ok_Check [inv_intros]:
  assumes "tracker_ok t" and "subject \<noteq> ''''"
  shows "tracker_ok (snd (Check now subject host command t))"
proof (cases "Enabled t")
  case True
  obtain st t' where e: "subject_entry now subject t = (st, t')" by (cases "subject_entry now subject t")
  note ok = subject_entry_ok [OF assms(1) e assms(2)]
  from ok(1) have "subject_ok (bt_maxDistinct t') (st\<lparr>ss_events := ev\<rparr>)" for ev
    by (simp add: ok(3) subject_ok_def)
  then have ev: "subject_ok (bt_maxDistinct t) (st\<lparr>ss_events := ev\<rparr>)" for ev by (simp add: ok(3))
  show ?thesis
    using True e ok(1,3) ev subject_ok_learn [OF ev ok(3)] subject_ok_learn [OF ok(1) ok(3)]
    by (auto simp: Check_def Let_def intro!: ok(4))
qed (simp add: Check_def assms)

lemma tracker_ok_Learn [inv_intros]:
  assumes "tracker_ok t" and "subject \<noteq> ''''"
  shows "tracker_ok (Learn now subject host command t)"
proof (cases "Enabled t")
  case True
  obtain st t' where e: "subject_entry now subject t = (st, t')" by (cases "subject_entry now subject t")
  note ok = subject_entry_ok [OF assms(1) e assms(2)]
  from True e ok(1) show ?thesis
    by (auto simp: Learn_def Let_def intro!: ok(4) subject_ok_learn [OF _ ok(3)])
qed (simp add: Learn_def assms)

section \<open>Sequences of operations\<close>

datatype behavior_op =
    OpCheck time string string string
  | OpLearn time string string string

fun op_subject :: "behavior_op \<Rightarrow> string" where
  "op_subject (OpCheck now s h c) = s"
| "op_subject (OpLearn now s h c) = s"

fun apply_op :: "behavior_op \<Rightarrow> BehaviorTracker \<Rightarrow> BehaviorTracker" where
  "apply_op (OpCheck now s h c) t = snd (Check now s h c t)"
| "apply_op (OpLearn now s h c) t = Learn now s h c t"

text \<open>The times of the checks of one subject, in order.\<close>

definition checks_of :: "string \<Rightarrow> behavior_op list \<Rightarrow> time list" where
  "checks_of s ops = concat (map (\<lambda>x. case x of OpCheck now s' h c \<Rightarrow> if s' = s then [now] else [] | _ \<Rightarrow> []) ops)"

lemma checks_of_append [simp]: "checks_of s (xs @ ys) = checks_of s xs @ checks_of s ys"
  by (simp add: checks_of_def)

text \<open>While the subjects in use fit in the table nothing is evicted.\<close>

definition subjects_fit :: "string set \<Rightarrow> BehaviorTracker \<Rightarrow> bool" where
  "subjects_fit ks t \<longleftrightarrow> map_ok (bt_subjects t) \<and> finite ks \<and> int (card ks) \<le> bt_maxSubjects t \<and>
     fst ` set (bt_subjects t) \<subseteq> ks"

lemma evictLocked_fit:
  assumes "subjects_fit ks t" and "s \<in> ks" and "get (bt_subjects t) s = None"
  shows "evictLocked now t = t"
proof -
  have "s \<notin> fst ` set (bt_subjects t)" using assms(3) by (simp add: map_of_eq_None_iff)
  then have "fst ` set (bt_subjects t) \<subset> ks" using assms(1,2) by (auto simp: subjects_fit_def)
  then have "card (fst ` set (bt_subjects t)) < card ks"
    using assms(1) by (auto simp: subjects_fit_def psubset_card_mono)
  moreover have "card (fst ` set (bt_subjects t)) = length (bt_subjects t)"
    using assms(1) distinct_card [of "map fst (bt_subjects t)"] by (simp add: subjects_fit_def map_ok_def)
  ultimately show ?thesis using assms(1) by (simp add: evictLocked_def subjects_fit_def)
qed

lemma subject_entry_fit:
  assumes "subjects_fit ks t" and "s \<in> ks"
  shows "subject_entry now s t =
    ((case get (bt_subjects t) s of Some st \<Rightarrow> st | None \<Rightarrow> new_subject)\<lparr>ss_lastSeen := now\<rparr>, t)"
  using evictLocked_fit [OF assms] by (auto simp: subject_entry_def split: option.splits)

lemma learnLocked_events [simp]: "ss_events (learnLocked t h fp st) = ss_events st"
  by (simp add: learnLocked_def Let_def)

text \<open>What one operation does to the table when nothing is evicted.\<close>

definition events_of :: "BehaviorTracker \<Rightarrow> string \<Rightarrow> time list" where
  "events_of t s = (case get (bt_subjects t) s of None \<Rightarrow> [] | Some st \<Rightarrow> ss_events st)"

lemma apply_op_fit:
  assumes "subjects_fit ks t" and "op_subject x \<in> ks" and "Enabled t" and "0 < bc_RateLimitPerMin (bt_cfg t)"
  shows "subjects_fit ks (apply_op x t)" and "bt_cfg (apply_op x t) = bt_cfg t"
    and "events_of (apply_op x t) s =
      (case x of OpCheck now s' h c \<Rightarrow> if s' = s then window now (events_of t s) else events_of t s
       | OpLearn now s' h c \<Rightarrow> events_of t s)"
proof -
  obtain st where x: "apply_op x t = t\<lparr>bt_subjects := put (op_subject x) st (bt_subjects t)\<rparr>"
    and ev: "ss_events st = (case x of OpCheck now s' h c \<Rightarrow> window now (events_of t s')
       | OpLearn now s' h c \<Rightarrow> events_of t s')"
    using assms(3,4) subject_entry_fit [OF assms(1,2)]
    by (cases x) (auto simp: Check_def Learn_def Let_def events_of_def new_subject_def split: option.splits)
  show "subjects_fit ks (apply_op x t)"
    using assms(1,2) set_put_subset [of "op_subject x" st "bt_subjects t"]
    by (fastforce simp: x subjects_fit_def)
  show "bt_cfg (apply_op x t) = bt_cfg t" by (simp add: x)
  show "events_of (apply_op x t) s =
      (case x of OpCheck now s' h c \<Rightarrow> if s' = s then window now (events_of t s) else events_of t s
       | OpLearn now s' h c \<Rightarrow> events_of t s)"
    using ev unfolding x by (cases x) (auto simp: events_of_def)
qed

lemma sorted_snoc_last: "sorted (xs @ [y]) \<Longrightarrow> xs = [] \<or> last xs \<le> y"
  by (cases xs rule: rev_cases) (auto simp: sorted_append)

lemma window_mono:
  "before \<le> now \<Longrightarrow> window now (filter (\<lambda>e. e > before - minute_ns) xs) = window now xs"
  by (auto simp: window_def intro!: filter_cong)

text \<open>The stored window holds the subject's checks of the last minute.\<close>

lemma events_invariant:
  assumes "0 < bc_RateLimitPerMin cfg" and "bc_Mode cfg = BehaviorObserve \<or> bc_Mode cfg = BehaviorEnforce"
    and "int (card (op_subject ` set ops)) \<le> bt_maxSubjects (NewBehaviorTracker cfg)"
    and "sorted (checks_of s ops)"
  shows "subjects_fit (op_subject ` set ops) (fold apply_op ops (NewBehaviorTracker cfg)) \<and>
     bt_cfg (fold apply_op ops (NewBehaviorTracker cfg)) = cfg \<and>
     events_of (fold apply_op ops (NewBehaviorTracker cfg)) s =
       filter (\<lambda>e. e > last (checks_of s ops) - minute_ns) (checks_of s ops)"
proof -
  let ?ks = "op_subject ` set ops"
  have "subjects_fit ?ks (fold apply_op xs (NewBehaviorTracker cfg)) \<and>
     bt_cfg (fold apply_op xs (NewBehaviorTracker cfg)) = cfg \<and>
     events_of (fold apply_op xs (NewBehaviorTracker cfg)) s =
       filter (\<lambda>e. e > last (checks_of s xs) - minute_ns) (checks_of s xs)"
    if "set xs \<subseteq> set ops" and "sorted (checks_of s xs)" for xs
    using that
  proof (induction xs rule: rev_induct)
    case Nil
    then show ?case using assms(3)
      by (simp add: subjects_fit_def NewBehaviorTracker_def Let_def events_of_def checks_of_def)
  next
    case (snoc x xs)
    let ?t = "fold apply_op xs (NewBehaviorTracker cfg)"
    have IH: "subjects_fit ?ks ?t" "bt_cfg ?t = cfg"
      "events_of ?t s = filter (\<lambda>e. e > last (checks_of s xs) - minute_ns) (checks_of s xs)"
      using snoc by (auto simp: sorted_append)
    have en: "Enabled ?t" "0 < bc_RateLimitPerMin (bt_cfg ?t)" "op_subject x \<in> ?ks"
      using IH(2) assms(1,2) snoc.prems(1) by (auto simp: Enabled_def)
    note a = apply_op_fit [OF IH(1) en(3,1,2)]
    have "events_of (apply_op x ?t) s =
        filter (\<lambda>e. e > last (checks_of s (xs @ [x])) - minute_ns) (checks_of s (xs @ [x]))"
    proof (cases "\<exists>now h c. x = OpCheck now s h c")
      case True
      then obtain now h c where x: "x = OpCheck now s h c" by blast
      then have cx: "checks_of s [x] = [now]" by (simp add: checks_of_def)
      have "checks_of s xs = [] \<or> last (checks_of s xs) \<le> now"
        using snoc.prems(2) cx sorted_snoc_last [of "checks_of s xs" now] by simp
      then have "window now (events_of ?t s) = window now (checks_of s xs)"
        using window_mono [of "last (checks_of s xs)" now] IH(3) by auto
      with a(3) [of s] x cx show ?thesis by (simp add: window_def minute_ns_def second_ns_def)
    next
      case False
      then have "checks_of s [x] = []"
        by (cases x) (auto simp: checks_of_def)
      with a(3) [of s] IH(3) False show ?thesis by (cases x) auto
    qed
    with a(1,2) IH(2) show ?case by simp
  qed
  from this [of ops] assms(4) show ?thesis by simp
qed

section \<open>Properties\<close>

text \<open>
  Bounded memory. After any sequence of operations on a new tracker, by subjects with a
  name, the table has at most its configured number of subjects (4096 when unset), each subject
  at most the configured number of distinct hosts and of distinct commands (1024 when unset).
\<close>

theorem tracker_bounded:
  assumes "\<forall>x\<in>set ops. op_subject x \<noteq> ''''"
  shows "let t = fold apply_op ops (NewBehaviorTracker cfg) in
     int (length (bt_subjects t)) \<le> bt_maxSubjects t \<and>
     (\<forall>s st. get (bt_subjects t) s = Some st \<longrightarrow>
        int (length (ss_hosts st)) \<le> bt_maxDistinct t \<and> int (length (ss_cmds st)) \<le> bt_maxDistinct t)"
proof -
  have "tracker_ok (fold apply_op ops t)" if "tracker_ok t" for t
    using assms that
  proof (induction ops arbitrary: t)
    case (Cons x ops)
    then show ?case by (cases x) (auto simp: tracker_ok_Check tracker_ok_Learn)
  qed simp
  from this [OF tracker_ok_new, of cfg] show ?thesis
    by (fastforce simp: Let_def tracker_ok_def subject_ok_def dest: get_in_set)
qed

definition sample_behavior :: BehaviorConfig where
  "sample_behavior = \<lparr>bc_Mode = BehaviorEnforce, bc_RateLimitPerMin = 1, bc_MaxSubjects = 0,
     bc_SubjectTTLMinutes = 0, bc_MaxDistinctPerSubject = 0\<rparr>"

theorem tracker_bounded_witness:
  "int (length (bt_subjects (fold apply_op [OpCheck 0 ''b1'' ''web01'' ''ls'']
     (NewBehaviorTracker sample_behavior)))) \<le> 4096"
  using tracker_bounded [of "[OpCheck 0 ''b1'' ''web01'' ''ls'']" sample_behavior]
  by (simp add: Let_def NewBehaviorTracker_def sample_behavior_def Check_def Enabled_def
      subject_entry_def evictLocked_def defaultMaxSubjects_def)

text \<open>
  The rate window is exact. With a rate limit set and no more subjects than the table has
  room for, a check reports the limit as exceeded exactly when the subject's checks of the last
  minute, this one included and blocked ones counted, are more than the limit.
\<close>

theorem rate_window_exact:
  assumes "0 < bc_RateLimitPerMin cfg" and "bc_Mode cfg = BehaviorObserve \<or> bc_Mode cfg = BehaviorEnforce"
    and "int (card (op_subject ` set (ops @ [OpCheck now s h c]))) \<le> bt_maxSubjects (NewBehaviorTracker cfg)"
    and "sorted (checks_of s ops @ [now])"
  shows "snd (fst (Check now s h c (fold apply_op ops (NewBehaviorTracker cfg)))) \<longleftrightarrow>
     int (length (filter (\<lambda>e. e > now - minute_ns) (checks_of s ops @ [now]))) > bc_RateLimitPerMin cfg"
proof -
  let ?all = "ops @ [OpCheck now s h c]"
  let ?t = "fold apply_op ops (NewBehaviorTracker cfg)"
  have "op_subject ` set ops \<subseteq> op_subject ` set ?all" by auto
  then have "card (op_subject ` set ops) \<le> card (op_subject ` set ?all)" by (intro card_mono) auto
  then have c: "int (card (op_subject ` set ops)) \<le> bt_maxSubjects (NewBehaviorTracker cfg)"
    using assms(3) by linarith
  have "sorted (checks_of s ops)" using assms(4) by (simp add: sorted_append)
  note inv = events_invariant [OF assms(1,2) c this]
  have mx: "bt_maxSubjects ?t = bt_maxSubjects (NewBehaviorTracker cfg)"
  proof -
    have "bt_maxSubjects (apply_op x t) = bt_maxSubjects t" for x t
      by (cases x) (auto simp: Check_def Learn_def Let_def subject_entry_def split: option.splits)
    then show ?thesis by (induction ops rule: rev_induct) auto
  qed
  have fit: "subjects_fit (op_subject ` set ?all) ?t"
    using inv assms(3) mx by (auto simp: subjects_fit_def)
  have en: "Enabled ?t" "bt_cfg ?t = cfg" using inv assms(2) by (simp_all add: Enabled_def)
  have "checks_of s ops = [] \<or> last (checks_of s ops) \<le> now"
    using assms(4) by (rule sorted_snoc_last)
  then have w: "window now (events_of ?t s) = window now (checks_of s ops)"
    using window_mono [of "last (checks_of s ops)" now] inv by auto
  have "s \<in> op_subject ` set ?all" by simp
  note entry = subject_entry_fit [OF fit this, of now]
  have "snd (fst (Check now s h c ?t)) \<longleftrightarrow>
      int (length (window now (events_of ?t s))) > bc_RateLimitPerMin cfg"
    using en assms(1) entry
    by (auto simp: Check_def Let_def events_of_def new_subject_def split: option.splits)
  then show ?thesis using w by (simp add: window_def minute_ns_def second_ns_def)
qed

theorem rate_window_exact_witness:
  "snd (fst (Check 5 ''b1'' ''web01'' ''ls''
     (fold apply_op [OpCheck 0 ''b1'' ''web01'' ''ls''] (NewBehaviorTracker sample_behavior))))"
proof -
  have "0 < bc_RateLimitPerMin sample_behavior" "bc_Mode sample_behavior = BehaviorEnforce"
    "int (card (op_subject ` set ([OpCheck 0 ''b1'' ''web01'' ''ls''] @ [OpCheck 5 ''b1'' ''web01'' ''ls'']))) \<le>
      bt_maxSubjects (NewBehaviorTracker sample_behavior)"
    by (simp_all add: sample_behavior_def NewBehaviorTracker_def Let_def defaultMaxSubjects_def)
  moreover have "checks_of ''b1'' [OpCheck 0 ''b1'' ''web01'' ''ls''] = [0]" by (simp add: checks_of_def)
  ultimately show ?thesis
    using rate_window_exact [of sample_behavior "[OpCheck 0 ''b1'' ''web01'' ''ls'']" 5 "''b1''" "''web01''" "''ls''"]
    by (simp add: sample_behavior_def minute_ns_def second_ns_def del: fold.simps)
qed

text \<open>
  In enforce mode a novelty stays flagged until it is learned. An unapproved request for a
  new host or command leaves the subject's baseline as it was, so the same request is flagged
  again for the same novelties; after \<open>Learn\<close>, a check of that host and command flags nothing
  but, possibly, the rate.
\<close>

theorem novelty_until_learned:
  assumes "Enforcing t" and "get (bt_subjects t) s = Some st" and "0 < bt_maxDistinct t"
    and "novelties t host (firstToken cmd) st \<noteq> []"
  shows "(\<exists>st'. get (bt_subjects (snd (Check now s host cmd t))) s = Some st' \<and>
        ss_hosts st' = ss_hosts st \<and> ss_cmds st' = ss_cmds st) \<and>
     set (novelties t host (firstToken cmd) st) \<subseteq>
        set (fst (fst (Check later s host cmd (snd (Check now s host cmd t))))) \<and>
     set (fst (fst (Check later s host cmd (Learn now s host cmd t)))) \<subseteq> {''rate-exceeded''}"
proof -
  have en: "Enabled t" using assms(1) by (simp add: Enabled_def Enforcing_def)
  define ev where "ev = (if bc_RateLimitPerMin (bt_cfg t) > 0 then window now (ss_events st) else ss_events st)"
  define st' where "st' = st\<lparr>ss_lastSeen := now, ss_events := ev\<rparr>"
  have nov: "novelties t host fp (x\<lparr>ss_lastSeen := a, ss_events := e\<rparr>) = novelties t host fp x"
    "novelties t host fp (x\<lparr>ss_lastSeen := a\<rparr>) = novelties t host fp x" for fp x a e
    by (simp_all add: novelties_def)
  have c1: "snd (Check now s host cmd t) = t\<lparr>bt_subjects := put s st' (bt_subjects t)\<rparr>"
    using assms en nov
    by (auto simp: Check_def Let_def subject_entry_def st'_def ev_def Enforcing_def)
  then have g: "get (bt_subjects (snd (Check now s host cmd t))) s = Some st'"
    and same: "ss_hosts st' = ss_hosts st" "ss_cmds st' = ss_cmds st"
    by (simp_all add: st'_def)
  have n': "novelties (u\<lparr>bt_subjects := z\<rparr>) host fp x = novelties u host fp x" for u z fp x
    by (simp add: novelties_def)
  have n2: "novelties t host fp st' = novelties t host fp st" for fp
    by (simp add: novelties_def same)
  have again: "set (novelties t host (firstToken cmd) st) \<subseteq>
      set (fst (fst (Check later s host cmd (snd (Check now s host cmd t)))))"
    using assms en
    by (auto simp: Check_def [of later] Let_def subject_entry_def c1 n' Enabled_def nov n2 [unfolded st'_def]
        st'_def novelties_def)
  have learned: "novelties t host fp (x\<lparr>ss_lastSeen := a\<rparr>) = []"
    "novelties t host fp (x\<lparr>ss_lastSeen := a, ss_events := e\<rparr>) = []"
    if "x = learnLocked t host fp y" for fp x y a e
    using that assms(3) by (auto simp: novelties_def learnLocked_def Let_def)
  have "set (fst (fst (Check later s host cmd (Learn now s host cmd t)))) \<subseteq> {''rate-exceeded''}"
    using assms(2) en learned
    by (auto simp: Check_def [of later] Learn_def Let_def subject_entry_def n' Enabled_def)
  with g same again show ?thesis by blast
qed

theorem novelty_until_learned_witness:
  "let t = NewBehaviorTracker sample_behavior;
       t = snd (Check 0 ''b1'' ''web01'' ''ls'' t)
   in ''new-host:db01'' \<in> set (fst (fst (Check 2 ''b1'' ''db01'' ''ls'' (snd (Check 1 ''b1'' ''db01'' ''ls'' t)))))"
proof -
  define st where "st = \<lparr>ss_events = [0], ss_hosts = [''web01''], ss_cmds = [''ls''], ss_lastSeen = 0\<rparr>"
  have ft: "firstToken ''ls'' = ''ls''"
    by (simp add: firstToken_def TrimLeftSpace.simps space_at_def byte_def)
  define t where "t = snd (Check 0 ''b1'' ''web01'' ''ls'' (NewBehaviorTracker sample_behavior))"
  have t: "t = (NewBehaviorTracker sample_behavior)\<lparr>bt_subjects := [(''b1'', st)]\<rparr>"
    by (simp add: t_def st_def Check_def NewBehaviorTracker_def sample_behavior_def Let_def Enabled_def
        subject_entry_def evictLocked_def new_subject_def defaultMaxSubjects_def learnLocked_def
        defaultMaxDistinctHosts_def window_def ft)
  have n: "novelties t ''db01'' (firstToken ''ls'') st = [''new-host:db01'']"
    by (simp add: novelties_def t st_def ft NewBehaviorTracker_def sample_behavior_def Let_def
        defaultMaxDistinctHosts_def)
  have "Enforcing t" "get (bt_subjects t) ''b1'' = Some st" "0 < bt_maxDistinct t"
    by (simp_all add: t Enforcing_def NewBehaviorTracker_def sample_behavior_def Let_def
        defaultMaxDistinctHosts_def)
  from novelty_until_learned [OF this, of "''db01''" "''ls''" 1 2] n show ?thesis
    by (simp add: Let_def t_def)
qed

end
