(* ===== verification/Control_Plane.thy ===== *)
theory Control_Plane
  imports Signer_Server Approval Behavior
begin

text \<open>
  The control plane, \<open>src/cmd/control-plane/main.go\<close>: the handlers over the approval registry, the
  behaviour tracker and the client of the signing service.

  A handler maps the request and the server state to a response and the new state. The state
  keeps, in order, the audit entries handed to \<open>audit.Append\<close> and the approvals handed to the
  notifier, whose failure is only logged. The context \<open>cp_ctx\<close> holds what a handler takes from
  outside: the clock, a fresh identifier, the codec of keys and certificates, and the outcome of
  \<open>remote.SignIntent\<close> for each intent (no handler calls it twice). \<open>handleResult\<close> and
  \<open>handleApprovalDecide\<close> take the registry's lock several times; they are the composition of one
  definition per critical section, and \<open>cp_step\<close> interleaves those sections.
\<close>

section \<open>Configuration and state\<close>

record cp_Config =
  cpc_SignCallers :: "string list"
  cpc_Notifier :: string
  cpc_WebhookURL :: string
  cpc_TimeoutSeconds :: int
  cpc_Callers :: "string list"
  cpc_TeamsFormat :: string
  cpc_Behavior :: BehaviorConfig
  cpc_TrustedForwarders :: "string list"

record cp_server =
  cs_registry :: Registry
  cs_behavior :: BehaviorTracker
  cs_audit :: "Entry list"
  cs_notified :: "Approval list"
  cs_redactor :: "(string \<Rightarrow> string) option"
  cs_approveCN :: "string list"
  cs_signCN :: "string list"
  cs_forwarders :: "string list"

record cp_ctx =
  cc_now :: time
  cc_newID :: "string option"
  cc_codec :: ssh_codec
  cc_remote :: "Intent \<Rightarrow> remote_error + Issued"
  cc_text :: "remote_error \<Rightarrow> string"
  cc_reg_text :: "registry_error \<Rightarrow> string"

datatype config_error = BadNotifier string | BadTeamsFormat string | BadBehaviorMode string
  | BadURL | CleartextWebhook | BadScheme string

text \<open>\<open>url\<close> is \<open>url.Parse\<close> as scheme and host name, \<open>ip\<close> is \<open>net.ParseIP\<close> followed by \<open>IsLoopback\<close>.\<close>

definition isLoopbackHost :: "(string \<Rightarrow> bool option) \<Rightarrow> string \<Rightarrow> bool" where
  "isLoopbackHost ip host = (if host = ''localhost'' then True else case ip host of Some b \<Rightarrow> b | None \<Rightarrow> False)"

definition validateConfig ::
    "(string \<Rightarrow> (string \<times> string) option) \<Rightarrow> (string \<Rightarrow> bool option) \<Rightarrow> cp_Config \<Rightarrow> config_error option" where
  "validateConfig url ip c =
     (if cpc_Notifier c \<notin> {'''', ''log'', ''webhook'', ''teams''} then Some (BadNotifier (cpc_Notifier c))
      else if cpc_TeamsFormat c \<notin> {'''', ''workflow'', ''adaptivecard'', ''messagecard''}
      then Some (BadTeamsFormat (cpc_TeamsFormat c))
      else if bc_Mode (cpc_Behavior c) \<notin> {'''', BehaviorOff, BehaviorObserve, BehaviorEnforce}
      then Some (BadBehaviorMode (bc_Mode (cpc_Behavior c)))
      else if (cpc_Notifier c = ''webhook'' \<or> cpc_Notifier c = ''teams'') \<and> cpc_WebhookURL c \<noteq> '''' then
        (case url (cpc_WebhookURL c) of
           None \<Rightarrow> Some BadURL
         | Some (scheme, host) \<Rightarrow>
             if scheme = ''https'' then None
             else if scheme = ''http'' then (if \<not> isLoopbackHost ip host then Some CleartextWebhook else None)
             else Some (BadScheme scheme))
      else None)"

definition cnSet :: "string list \<Rightarrow> string list" where
  "cnSet cns = remdups (filter (\<lambda>cn. cn \<noteq> '''') cns)"

text \<open>The server that \<open>main\<close> builds from a configuration.\<close>

definition cp_new :: "(string \<Rightarrow> string) option \<Rightarrow> cp_Config \<Rightarrow> cp_server" where
  "cp_new redactor c =
     \<lparr>cs_registry = NewRegistry (seconds (cpc_TimeoutSeconds c)),
      cs_behavior = NewBehaviorTracker (cpc_Behavior c), cs_audit = [], cs_notified = [],
      cs_redactor = redactor, cs_approveCN = cnSet (cpc_Callers c), cs_signCN = cnSet (cpc_SignCallers c),
      cs_forwarders = cnSet (cpc_TrustedForwarders c)\<rparr>"

section \<open>Identity and helpers\<close>

definition isSignCaller :: "string \<Rightarrow> cp_server \<Rightarrow> bool" where
  "isSignCaller cn s =
     (if length (cs_signCN s) > 0 then cn \<in> set (cs_signCN s) else cn \<notin> set (cs_approveCN s))"

definition signCaller :: "string option \<Rightarrow> cp_server \<Rightarrow> http_response + string" where
  "signCaller peer s =
     (case CallerCN peer of
        None \<Rightarrow> Inl (text_response 401 ''unauthenticated'')
      | Some cn \<Rightarrow>
          if \<not> isSignCaller cn s then Inl (text_response 403 ''not authorised to request signing'') else Inr cn)"

definition approver :: "string option \<Rightarrow> cp_server \<Rightarrow> string option" where
  "approver peer s =
     (case CallerCN peer of None \<Rightarrow> None | Some cn \<Rightarrow> if cn \<in> set (cs_approveCN s) then Some cn else None)"

definition auditE :: "Entry \<Rightarrow> cp_server \<Rightarrow> cp_server" where
  "auditE e s = s\<lparr>cs_audit := cs_audit s @ [e]\<rparr>"

definition intentFrom :: "ssh_codec \<Rightarrow> WireRequest \<Rightarrow> string \<Rightarrow> bool \<Rightarrow> Intent option" where
  "intentFrom sc req onBehalfOf approved =
     map_option (\<lambda>pub.
       \<lparr>in_Caller = '''', in_Host = wr_Host req, in_Role = wr_Role req, in_Purpose = wr_Purpose req,
        in_SessionMode = wr_SessionMode req, in_Command = wr_Command req,
        in_RequestedTTL = seconds (wr_TTLSeconds req), in_PublicKey = pub, in_Sudo = wr_Sudo req,
        in_SudoUser = wr_SudoUser req, in_PTY = wr_PTY req, in_FileTransfer = wr_FileTransfer req,
        in_DryRun = wr_DryRun req, in_Preflight = wr_Preflight req, in_Approved = approved,
        in_OnBehalfOf = onBehalfOf, in_EndUser = wr_EndUser req, in_EndUserGroups = wr_EndUserGroups req,
        in_LearnTTLSeconds = 0, in_LearnApprover = '''', in_LearnApprovalID = ''''\<rparr>)
       (sc_ParseKey sc (wr_PublicKey req))"

definition guardrailSubject :: "string \<Rightarrow> string \<Rightarrow> cp_server \<Rightarrow> string" where
  "guardrailSubject brokerCN endUser s =
     (if brokerCN \<in> set (cs_forwarders s) \<and> endUser \<noteq> '''' then brokerCN @ '':'' @ endUser else brokerCN)"

definition decisionRule :: "DecisionInfo option \<Rightarrow> string" where
  "decisionRule dec = (case dec of None \<Rightarrow> '''' | Some d \<Rightarrow> di_MatchedRule d)"

definition decisionWarning :: "DecisionInfo option \<Rightarrow> string" where
  "decisionWarning dec = (case dec of None \<Rightarrow> '''' | Some d \<Rightarrow> di_Warning d)"

text \<open>The fields every record of a sign request has.\<close>

definition request_entry :: "string \<Rightarrow> WireRequest \<Rightarrow> string \<Rightarrow> Entry" where
  "request_entry cn req outcome =
     zero_entry\<lparr>e_Caller := cn, e_Host := wr_Host req, e_Command := wr_Command req, e_Outcome := outcome\<rparr>"

section \<open>The sign path\<close>

text \<open>\<open>signer.DecisionInfo{RequireApproval: true, MatchedRule: rule}\<close>\<close>

definition approval_info :: "string \<Rightarrow> DecisionInfo" where
  "approval_info rule =
     \<lparr>di_Allowed = False, di_Reason = None, di_RequireApproval = True, di_MatchedRule = rule,
      di_ForceCommand = '''', di_TTLSeconds = 0, di_Elevation = '''', di_Enforcement = '''',
      di_Warning = '''', di_WouldDeny = False, di_WouldRequireApproval = False\<rparr>"

definition requireApproval ::
    "cp_ctx \<Rightarrow> string \<Rightarrow> WireRequest \<Rightarrow> string \<Rightarrow> string \<Rightarrow> cp_server \<Rightarrow> http_response \<times> cp_server" where
  "requireApproval cx brokerCN req rule anomaly s =
     (let req = (if brokerCN \<notin> set (cs_forwarders s) then req\<lparr>wr_EndUser := ''''\<rparr> else req) in
      case Create (cc_newID cx) req brokerCN (Some (approval_info rule)) (cc_now cx) (cs_registry s) of
        (Inl err, r) \<Rightarrow> (text_response 500 ''could not create approval request'', s\<lparr>cs_registry := r\<rparr>)
      | (Inr a, r) \<Rightarrow>
          let s = s\<lparr>cs_registry := r, cs_notified := cs_notified s @ [WithRedactedCommand (cs_redactor s) a]\<rparr>;
              s = auditE ((request_entry brokerCN req ''approval-required'')
                    \<lparr>e_ApprovalID := ap_ID a, e_PolicyRule := rule, e_Anomaly := anomaly\<rparr>) s
          in (\<lparr>rs_status = 202, rs_body = BodyApproval (ap_ID a) ''pending''\<rparr>, s))"

text \<open>\<open>None\<close> when the request may proceed, the response already sent otherwise.\<close>

definition checkBehaviorGuardrails ::
    "cp_ctx \<Rightarrow> string \<Rightarrow> WireRequest \<Rightarrow> cp_server \<Rightarrow> http_response option \<times> cp_server" where
  "checkBehaviorGuardrails cx brokerCN req s =
     (let subject = guardrailSubject brokerCN (wr_EndUser req) s;
          ((anomalies, exceeded), t) = Check (cc_now cx) subject (wr_Host req) (wr_Command req) (cs_behavior s);
          s = s\<lparr>cs_behavior := t\<rparr>
      in if \<not> Enforcing t then
           (None,
            if length anomalies > 0 \<or> exceeded
            then auditE ((request_entry brokerCN req ''anomaly'')\<lparr>e_Anomaly := Join anomalies '',''\<rparr>) s
            else s)
         else if exceeded then
           (Some (text_response 429 ''rate limit exceeded''),
            auditE ((request_entry brokerCN req ''rate-limited'')\<lparr>e_Anomaly := ''rate-exceeded''\<rparr>) s)
         else if length anomalies > 0 then
           (case intentFrom (cc_codec cx) req brokerCN False of
              None \<Rightarrow> (Some (text_response 400 ''invalid pubkey''), s)
            | Some din \<Rightarrow>
                let d = cc_remote cx (din\<lparr>in_DryRun := True\<rparr>) in
                if (case d of Inl err \<Rightarrow> True
                            | Inr issued \<Rightarrow> (case is_Decision issued of None \<Rightarrow> True | Some i \<Rightarrow> \<not> di_Allowed i))
                then (Some (text_response 403 ''command not allowed''),
                      auditE ((request_entry brokerCN req ''denied'')
                        \<lparr>e_Anomaly := Join anomalies '','',
                         e_Err := (case d of Inl err \<Rightarrow> cc_text cx err | Inr _ \<Rightarrow> '''')\<rparr>) s)
                else
                  (let (resp, s) = requireApproval cx brokerCN req ''behavior'' (Join anomalies '','') s
                   in (Some resp, s)))
         else (None, s))"

definition forwardSignResult ::
    "cp_ctx \<Rightarrow> string \<Rightarrow> WireRequest \<Rightarrow> Issued \<Rightarrow> cp_server \<Rightarrow> http_response \<times> cp_server" where
  "forwardSignResult cx brokerCN req issued s =
     (case is_Certificate issued of
        Some cert \<Rightarrow>
          (\<lparr>rs_status = 200, rs_body = BodyResponse
              \<lparr>ws_Certificate = sc_MarshalCert (cc_codec cx) cert, ws_Serial = is_Serial issued,
               ws_ElevationPrefix = is_ElevationPrefix issued, ws_Decision = is_Decision issued\<rparr>\<rparr>,
           auditE ((request_entry brokerCN req ''forwarded'')
             \<lparr>e_Serial := is_Serial issued, e_PolicyRule := decisionRule (is_Decision issued),
              e_Warning := decisionWarning (is_Decision issued)\<rparr>) s)
      | None \<Rightarrow>
          (case is_Decision issued of
             Some d \<Rightarrow>
               if di_RequireApproval d then requireApproval cx brokerCN req (di_MatchedRule d) '''' s
               else (text_response 502 ''signer response missing certificate'', s)
           | None \<Rightarrow> (text_response 502 ''signer response missing certificate'', s)))"

text \<open>The dry-run branch of \<open>handleSign\<close>, before and after the guardrails.\<close>

definition pass_decision :: "cp_ctx \<Rightarrow> string \<Rightarrow> WireRequest \<Rightarrow> http_response" where
  "pass_decision cx brokerCN req =
     (case intentFrom (cc_codec cx) req brokerCN False of
        None \<Rightarrow> text_response 400 ''invalid pubkey''
      | Some i \<Rightarrow>
          (case cc_remote cx i of
             Inl err \<Rightarrow> text_response 403 (cc_text cx err)
           | Inr issued \<Rightarrow>
               \<lparr>rs_status = 200, rs_body = BodyResponse (zero_response\<lparr>ws_Decision := is_Decision issued\<rparr>)\<rparr>))"

definition cp_handleSign ::
    "cp_ctx \<Rightarrow> string option \<Rightarrow> WireRequest option \<Rightarrow> cp_server \<Rightarrow> http_response \<times> cp_server" where
  "cp_handleSign cx peer body s =
     (case signCaller peer s of
        Inl resp \<Rightarrow> (resp, s)
      | Inr brokerCN \<Rightarrow>
          (case body of
             None \<Rightarrow> (text_response 400 ''invalid request'', s)
           | Some req \<Rightarrow>
               if wr_DryRun req \<and> \<not> wr_Preflight req then (pass_decision cx brokerCN req, s)
               else
                 (case (if Enabled (cs_behavior s) then checkBehaviorGuardrails cx brokerCN req s else (None, s)) of
                    (Some resp, s) \<Rightarrow> (resp, s)
                  | (None, s) \<Rightarrow>
                      if wr_DryRun req then (pass_decision cx brokerCN req, s)
                      else
                        (case intentFrom (cc_codec cx) req brokerCN False of
                           None \<Rightarrow> (text_response 400 ''invalid pubkey'', s)
                         | Some i \<Rightarrow>
                             (case cc_remote cx i of
                                Inl err \<Rightarrow>
                                  (text_response 403 (cc_text cx err),
                                   auditE ((request_entry brokerCN req ''denied'')\<lparr>e_Err := cc_text cx err\<rparr>) s)
                              | Inr issued \<Rightarrow> forwardSignResult cx brokerCN req issued s)))))"

section \<open>The result of an approval\<close>

definition approval_entry :: "Approval \<Rightarrow> string \<Rightarrow> Entry" where
  "approval_entry a outcome =
     zero_entry\<lparr>e_Caller := ap_Caller a, e_Host := ap_Host a, e_Command := ap_Command a, e_Outcome := outcome,
       e_ApprovalID := ap_ID a\<rparr>"

definition learnBehaviorApproval :: "time \<Rightarrow> Approval \<Rightarrow> WireRequest \<Rightarrow> cp_server \<Rightarrow> cp_server" where
  "learnBehaviorApproval now a req s =
     (if ap_Rule a \<noteq> ''behavior'' \<or> \<not> Enabled (cs_behavior s) then s
      else s\<lparr>cs_behavior := Learn now (guardrailSubject (ap_Caller a) (wr_EndUser req) s)
                              (wr_Host req) (wr_Command req) (cs_behavior s)\<rparr>)"

text \<open>Up to the \<open>switch\<close>; \<open>Inr a\<close> is the branch of an approved request.\<close>

definition result_lookup ::
    "cp_ctx \<Rightarrow> string option \<Rightarrow> string \<Rightarrow> cp_server \<Rightarrow> (http_response + Approval) \<times> cp_server" where
  "result_lookup cx peer aid s =
     (case signCaller peer s of
        Inl resp \<Rightarrow> (Inl resp, s)
      | Inr pollerCN \<Rightarrow>
          (case reg_Get (cc_now cx) aid (cs_registry s) of
             (None, r) \<Rightarrow> (Inl (text_response 404 ''unknown request''), s\<lparr>cs_registry := r\<rparr>)
           | (Some a, r) \<Rightarrow>
               let s = s\<lparr>cs_registry := r\<rparr> in
               if ap_Caller a \<noteq> pollerCN then (Inl (text_response 403 ''not authorised''), s)
               else
                 (case ap_Status a of
                    StatusPending \<Rightarrow> (Inl \<lparr>rs_status = 202, rs_body = BodyStatus ''pending''\<rparr>, s)
                  | StatusDenied \<Rightarrow>
                      (Inl (text_response 403 ''approval denied''),
                       auditE ((approval_entry a ''approval-denied'')\<lparr>e_ApprovedBy := ap_DecidedBy a\<rparr>) s)
                  | StatusExpired \<Rightarrow>
                      (Inl (text_response 408 ''approval expired''), auditE (approval_entry a ''approval-timeout'') s)
                  | StatusApproved \<Rightarrow> (Inr a, s))))"

text \<open>The claim: \<open>None\<close> when it is held and the handler goes on.\<close>

definition result_claim :: "cp_ctx \<Rightarrow> string \<Rightarrow> cp_server \<Rightarrow> http_response option \<times> cp_server" where
  "result_claim cx aid s =
     (case BeginConsume (cc_now cx) aid (cs_registry s) of
        ((started, retry), r) \<Rightarrow>
          (if \<not> started
           then Some (if retry then \<lparr>rs_status = 202, rs_body = BodyStatus ''issuing''\<rparr>
                      else text_response 410 ''approval already used'')
           else None,
           s\<lparr>cs_registry := r\<rparr>))"

text \<open>The request of a missing entry is the zero value.\<close>

definition zero_request :: WireRequest where
  "zero_request = \<lparr>wr_Host = '''', wr_Role = '''', wr_Purpose = '''', wr_SessionMode = '''', wr_Command = '''',
     wr_TTLSeconds = 0, wr_PublicKey = '''', wr_Sudo = False, wr_SudoUser = '''', wr_PTY = False,
     wr_FileTransfer = False, wr_DryRun = False, wr_Preflight = False, wr_OnBehalfOf = '''', wr_Approved = False,
     wr_EndUser = '''', wr_EndUserGroups = None, wr_LearnTTLSeconds = 0, wr_LearnApprover = '''',
     wr_LearnApprovalID = ''''\<rparr>"

definition result_request :: "string \<Rightarrow> cp_server \<Rightarrow> WireRequest" where
  "result_request aid s = (case Request aid (cs_registry s) of Some req \<Rightarrow> req | None \<Rightarrow> zero_request)"

text \<open>The intent of the approved forward, with the learn request of an approve-and-learn decision.\<close>

definition approved_intent :: "ssh_codec \<Rightarrow> Approval \<Rightarrow> WireRequest \<Rightarrow> Intent option" where
  "approved_intent sc a req =
     map_option (\<lambda>i.
       if ap_LearnTTL a > 0
       then i\<lparr>in_LearnTTLSeconds := quot (ap_LearnTTL a) second_ns, in_LearnApprover := ap_DecidedBy a,
              in_LearnApprovalID := ap_ID a\<rparr>
       else i) (intentFrom sc req (ap_Caller a) True)"

text \<open>The forward of a claimed request: the response, \<open>consumeOK\<close> and the state before \<open>FinishConsume\<close>.\<close>

definition result_forward ::
    "cp_ctx \<Rightarrow> Approval \<Rightarrow> WireRequest \<Rightarrow> cp_server \<Rightarrow> (http_response \<times> bool) \<times> cp_server" where
  "result_forward cx a req s =
     (let failed = (\<lambda>err. ((text_response 502 ''signing after approval failed'', False),
                           auditE ((approval_entry a ''error'')\<lparr>e_Err := err\<rparr>) s));
          granted = (\<lambda>serial body. ((\<lparr>rs_status = 200, rs_body = BodyResponse body\<rparr>, True),
                      auditE ((approval_entry a ''approval-granted'')\<lparr>e_Serial := serial, e_ApprovedBy := ap_DecidedBy a\<rparr>)
                        (learnBehaviorApproval (cc_now cx) a req s)))
      in case approved_intent (cc_codec cx) a req of
           None \<Rightarrow> ((text_response 400 ''invalid pubkey'', False), s)
         | Some i \<Rightarrow>
             (case cc_remote cx i of
                Inl err \<Rightarrow> failed (cc_text cx err)
              | Inr issued \<Rightarrow>
                  if wr_DryRun req then
                    (if is_Decision issued = None then failed ''signer response missing decision''
                     else granted 0 (zero_response\<lparr>ws_Decision := is_Decision issued\<rparr>))
                  else
                    (case is_Certificate issued of
                       None \<Rightarrow> failed ''signer response missing certificate''
                     | Some cert \<Rightarrow>
                         granted (is_Serial issued)
                           \<lparr>ws_Certificate = sc_MarshalCert (cc_codec cx) cert, ws_Serial = is_Serial issued,
                            ws_ElevationPrefix = is_ElevationPrefix issued, ws_Decision = is_Decision issued\<rparr>)))"

definition result_finish :: "string \<Rightarrow> bool \<Rightarrow> cp_server \<Rightarrow> cp_server" where
  "result_finish aid consumeOK s = s\<lparr>cs_registry := FinishConsume aid consumeOK (cs_registry s)\<rparr>"

definition handleResult :: "cp_ctx \<Rightarrow> string option \<Rightarrow> string \<Rightarrow> cp_server \<Rightarrow> http_response \<times> cp_server" where
  "handleResult cx peer aid s =
     (case result_lookup cx peer aid s of
        (Inl resp, s) \<Rightarrow> (resp, s)
      | (Inr a, s) \<Rightarrow>
          (case result_claim cx aid s of
             (Some resp, s) \<Rightarrow> (resp, s)
           | (None, s) \<Rightarrow>
               (case result_forward cx a (result_request aid s) s of
                  ((resp, consumeOK), s) \<Rightarrow> (resp, result_finish aid consumeOK s))))"

section \<open>Hosts and decisions\<close>

definition cp_host :: "HostInfo \<Rightarrow> WireHostInfo" where
  "cp_host h =
     \<lparr>wh_Addr = hi_Addr h, wh_User = hi_User h, wh_HostKey = hi_HostKey h, wh_Jump = hi_Jump h,
      wh_AllowSudo = hi_AllowSudo h, wh_AllowPTY = hi_AllowPTY h, wh_AllowFileTransfer = False,
      wh_Groups = hi_Groups h\<rparr>"

text \<open>\<open>fetch\<close> is the transport of \<open>GET /v1/hosts\<close> on behalf of a broker.\<close>

definition cp_handleHosts :: "cp_ctx \<Rightarrow> (string \<Rightarrow> transport) \<Rightarrow> string option \<Rightarrow> cp_server \<Rightarrow> http_response" where
  "cp_handleHosts cx fetch peer s =
     (case signCaller peer s of
        Inl resp \<Rightarrow> resp
      | Inr brokerCN \<Rightarrow>
          (case FetchHosts (fetch brokerCN) of
             Inl err \<Rightarrow> text_response 502 (cc_text cx err)
           | Inr hosts \<Rightarrow>
               \<lparr>rs_status = 200, rs_body = BodyHosts (map (\<lambda>(name, h). (name, cp_host h)) hosts)\<rparr>))"

definition handleApprovalsList ::
    "cp_ctx \<Rightarrow> string option \<Rightarrow> cp_server \<Rightarrow> (http_response + Approval list) \<times> cp_server" where
  "handleApprovalsList cx peer s =
     (case approver peer s of
        None \<Rightarrow> (Inl (text_response 403 ''not authorised''), s)
      | Some _ \<Rightarrow>
          (case reg_List (cc_now cx) (cs_registry s) of (l, r) \<Rightarrow> (Inr l, s\<lparr>cs_registry := r\<rparr>)))"

record decide_body =
  db_Approve :: bool
  db_Learn :: bool
  db_TTLSeconds :: int

text \<open>Up to the decision: the approver and the waiver time of a decision that goes on.\<close>

definition decide_check ::
    "cp_ctx \<Rightarrow> string option \<Rightarrow> string \<Rightarrow> string \<Rightarrow> decide_body option \<Rightarrow> cp_server \<Rightarrow>
     (http_response + string \<times> bool \<times> duration) \<times> cp_server" where
  "decide_check cx peer contentType aid body s =
     (case approver peer s of
        None \<Rightarrow> (Inl (text_response 403 ''not authorised to approve''), s)
      | Some cn \<Rightarrow>
          if contentType \<noteq> ''application/json'' \<and> \<not> HasPrefix contentType ''application/json;''
          then (Inl (text_response 415 ''Content-Type must be application/json''), s)
          else (case body of
            None \<Rightarrow> (Inl (text_response 400 ''invalid request''), s)
          | Some b \<Rightarrow>
              if db_Approve b \<and> db_Learn b \<and> db_TTLSeconds b \<le> 0
              then (Inl (text_response 400 ''learn requires ttl_seconds > 0''), s)
              else
                let learnTTL = (if db_Approve b \<and> db_Learn b then seconds (db_TTLSeconds b) else 0) in
                (case reg_Get (cc_now cx) aid (cs_registry s) of
                   (Some pending, r) \<Rightarrow>
                     if ap_Caller pending = cn
                     then (Inl (text_response 403 ''self-approval not allowed: request originator cannot decide it''),
                           auditE ((approval_entry pending ''self-approval-rejected'')\<lparr>e_ApprovedBy := cn\<rparr>)
                             (s\<lparr>cs_registry := r\<rparr>))
                     else (Inr (cn, db_Approve b, learnTTL), s\<lparr>cs_registry := r\<rparr>)
                 | (None, r) \<Rightarrow> (Inr (cn, db_Approve b, learnTTL), s\<lparr>cs_registry := r\<rparr>))))"

definition decide_commit ::
    "cp_ctx \<Rightarrow> string \<Rightarrow> string \<Rightarrow> bool \<Rightarrow> duration \<Rightarrow> cp_server \<Rightarrow> (http_response + Approval) \<times> cp_server" where
  "decide_commit cx cn aid approve learnTTL s =
     (case reg_Decide (cc_now cx) aid approve cn learnTTL (cs_registry s) of
        (Inl err, r) \<Rightarrow> (Inl (text_response 409 (cc_reg_text cx err)), s\<lparr>cs_registry := r\<rparr>)
      | (Inr a, r) \<Rightarrow>
          let outcome = (if approve
                         then (if learnTTL > 0 then ''approval-decision-allow-learn'' else ''approval-decision-allow'')
                         else ''approval-denied'')
          in (Inr a, auditE ((approval_entry a outcome)\<lparr>e_ApprovedBy := cn\<rparr>) (s\<lparr>cs_registry := r\<rparr>)))"

definition handleApprovalDecide ::
    "cp_ctx \<Rightarrow> string option \<Rightarrow> string \<Rightarrow> string \<Rightarrow> decide_body option \<Rightarrow> cp_server \<Rightarrow>
     (http_response + Approval) \<times> cp_server" where
  "handleApprovalDecide cx peer contentType aid body s =
     (case decide_check cx peer contentType aid body s of
        (Inl resp, s) \<Rightarrow> (Inl resp, s)
      | (Inr (cn, approve, learnTTL), s) \<Rightarrow> decide_commit cx cn aid approve learnTTL s)"

section \<open>Lemmas\<close>

lemma Check_cfg: "Check now subject host command t = (res, t') \<Longrightarrow> bt_cfg t' = bt_cfg t"
  by (auto simp: Check_def subject_entry_def evictLocked_def Let_def case_prod_unfold split: option.splits if_splits)

lemma intentFrom_Some:
  "intentFrom sc req obo approved = Some i \<Longrightarrow>
     in_EndUser i = wr_EndUser req \<and> in_OnBehalfOf i = obo \<and> in_Approved i = approved \<and>
     in_DryRun i = wr_DryRun req \<and> in_Command i = wr_Command req \<and> in_Host i = wr_Host req"
  by (auto simp: intentFrom_def)

text \<open>A request held back by the guardrails: no result leaves, and the signer sees a dry run at most.\<close>

lemma requireApproval_response:
  "rs_status (fst (requireApproval cx cn req rule anomaly s)) \<in> {202, 500} \<and>
   rs_body (fst (requireApproval cx cn req rule anomaly s)) \<noteq> BodyResponse r \<and>
   requireApproval (cx\<lparr>cc_remote := remote'\<rparr>) cn req rule anomaly s = requireApproval cx cn req rule anomaly s"
  by (auto simp: requireApproval_def Create_def Let_def split: option.splits sum.splits)

section \<open>Properties\<close>

text \<open>
  C22: the guardrails are enforced. In enforce mode, a request that is not a pure dry run and whose
  rate is exceeded or whose host or command is new to its subject gets neither a certificate nor
  a decision: it is refused, or held for approval, or it fails. Whatever the signer would answer
  to anything but a dry run has no influence on the outcome.
\<close>

theorem guardrails_enforced:
  assumes "signCaller peer s = Inr cn" and "Enforcing (cs_behavior s)" and "\<not> wr_DryRun req \<or> wr_Preflight req"
    and "Check (cc_now cx) (guardrailSubject cn (wr_EndUser req) s) (wr_Host req) (wr_Command req) (cs_behavior s) =
           ((anomalies, exceeded), t)"
    and "anomalies \<noteq> [] \<or> exceeded"
    and "\<And>i. in_DryRun i \<Longrightarrow> remote' i = cc_remote cx i"
  shows "rs_status (fst (cp_handleSign cx peer (Some req) s)) \<in> {202, 400, 403, 429, 500} \<and>
     rs_body (fst (cp_handleSign cx peer (Some req) s)) \<noteq> BodyResponse r \<and>
     cp_handleSign (cx\<lparr>cc_remote := remote'\<rparr>) peer (Some req) s = cp_handleSign cx peer (Some req) s"
proof -
  have en: "Enabled (cs_behavior s)" and t: "Enforcing t"
    using assms(2) Check_cfg [OF assms(4)] by (auto simp: Enabled_def Enforcing_def)
  have h: "cp_handleSign cx' peer (Some req) s =
      (the (fst (checkBehaviorGuardrails cx' cn req s)), snd (checkBehaviorGuardrails cx' cn req s))"
    if "fst (checkBehaviorGuardrails cx' cn req s) \<noteq> None" for cx'
    using that assms(1,3) en by (cases "checkBehaviorGuardrails cx' cn req s") (auto simp: cp_handleSign_def)
  let ?cx = "cx\<lparr>cc_remote := remote'\<rparr>"
  have same: "checkBehaviorGuardrails ?cx cn req s = checkBehaviorGuardrails cx cn req s"
    using assms(4,6) requireApproval_response [of cx cn req]
    by (simp add: checkBehaviorGuardrails_def Let_def split: option.split sum.split)
  obtain resp s' where g: "checkBehaviorGuardrails cx cn req s = (Some resp, s')"
      "rs_status resp \<in> {202, 400, 403, 429, 500}" "rs_body resp \<noteq> BodyResponse r"
    using assms(4,5) t requireApproval_response [of cx cn req "''behavior''" "Join anomalies '',''" "s\<lparr>cs_behavior := t\<rparr>" r]
    by (cases "requireApproval cx cn req ''behavior'' (Join anomalies '','') (s\<lparr>cs_behavior := t\<rparr>)")
      (fastforce simp: checkBehaviorGuardrails_def Let_def split: option.splits if_splits)
  show ?thesis using h [of cx] h [of ?cx] g by (simp add: same)
qed

text \<open>The tracker of a subject that has been seen with another host, in enforce mode.\<close>

definition guard_tracker :: BehaviorTracker where
  "guard_tracker = \<lparr>bt_cfg = \<lparr>bc_Mode = BehaviorEnforce, bc_RateLimitPerMin = 0, bc_MaxSubjects = 10,
       bc_SubjectTTLMinutes = 10, bc_MaxDistinctPerSubject = 10\<rparr>,
     bt_subjects = [(''b1'', \<lparr>ss_events = [], ss_hosts = [''db01''], ss_cmds = [''reboot''], ss_lastSeen = 0\<rparr>)],
     bt_maxSubjects = 10, bt_subjectTTL = 10 * minute_ns, bt_maxDistinct = 10\<rparr>"

definition guard_server :: cp_server where
  "guard_server = \<lparr>cs_registry = NewRegistry 0, cs_behavior = guard_tracker, cs_audit = [], cs_notified = [],
     cs_redactor = None, cs_approveCN = [''boss''], cs_signCN = [], cs_forwarders = []\<rparr>"

definition guard_ctx :: cp_ctx where
  "guard_ctx = \<lparr>cc_now = 0, cc_newID = Some ''a1'', cc_codec = sample_codec, cc_remote = (\<lambda>i. Inr sample_issued),
     cc_text = (\<lambda>e. ''error''), cc_reg_text = (\<lambda>e. ''error'')\<rparr>"

lemma guard_caller: "signCaller (Some ''b1'') guard_server = Inr ''b1''"
  by (simp add: signCaller_def isSignCaller_def guard_server_def CallerCN_b1)

lemma guard_check: "\<exists>t. Check (cc_now guard_ctx) (guardrailSubject ''b1'' (wr_EndUser sample_wire) guard_server)
    (wr_Host sample_wire) (wr_Command sample_wire) (cs_behavior guard_server) = (([''new-host:web01''], False), t)"
proof -
  have "firstToken ''reboot'' = ''reboot''" by (simp add: firstToken_def; code_simp)
  then show ?thesis
    by (simp add: Check_def guard_server_def guard_tracker_def Enabled_def Enforcing_def guardrailSubject_def sample_wire_def
        subject_entry_def novelties_def guard_ctx_def Let_def)
qed

theorem guardrails_enforced_witness:
  "rs_status (fst (cp_handleSign guard_ctx (Some ''b1'') (Some sample_wire) guard_server)) \<in> {202, 400, 403, 429, 500} \<and>
   cp_handleSign (guard_ctx\<lparr>cc_remote := (\<lambda>i. if in_DryRun i then Inr sample_issued else Inl Cancelled)\<rparr>)
     (Some ''b1'') (Some sample_wire) guard_server = cp_handleSign guard_ctx (Some ''b1'') (Some sample_wire) guard_server"
proof -
  obtain t where c: "Check (cc_now guard_ctx) (guardrailSubject ''b1'' (wr_EndUser sample_wire) guard_server)
      (wr_Host sample_wire) (wr_Command sample_wire) (cs_behavior guard_server) = (([''new-host:web01''], False), t)"
    using guard_check by blast
  have e: "Enforcing (cs_behavior guard_server)" by (simp add: guard_server_def guard_tracker_def Enforcing_def)
  have d: "\<not> wr_DryRun sample_wire \<or> wr_Preflight sample_wire" by (simp add: sample_wire_def)
  show ?thesis
    using guardrails_enforced [OF guard_caller e d c, where remote' = "\<lambda>i. if in_DryRun i then Inr sample_issued else Inl Cancelled"]
    by (simp add: guard_ctx_def)
qed

text \<open>
  The end user a broker claims. For a broker that is not a trusted forwarder the approval path
  records and forwards no end user; but on the direct path, with the guardrails off, the claimed
  end user reaches the signer unchanged, in the intent whose certificate is returned.
\<close>

theorem untrusted_end_user_forwarded:
  assumes "signCaller peer s = Inr cn" and "cn \<notin> set (cs_forwarders s)" and "\<not> Enabled (cs_behavior s)"
    and "\<not> wr_DryRun req" and "intentFrom (cc_codec cx) req cn False = Some i" and "cc_remote cx i = Inr issued"
    and "is_Certificate issued = Some cert" and "cc_newID cx = Some aid"
  shows "in_EndUser i = wr_EndUser req \<and> rs_status (fst (cp_handleSign cx peer (Some req) s)) = 200 \<and>
     (\<exists>a. get (rg_items (cs_registry (snd (requireApproval cx cn req rule anomaly s)))) aid = Some a \<and>
          ap_EndUser a = '''' \<and> wr_EndUser (ap_req a) = '''')"
  using assms intentFrom_Some [OF assms(5)]
  by (simp add: cp_handleSign_def forwardSignResult_def requireApproval_def Create_def Create_insert_def new_approval_def
      auditE_def Let_def)

definition direct_server :: cp_server where
  "direct_server = guard_server\<lparr>cs_behavior := guard_tracker\<lparr>bt_cfg := (bt_cfg guard_tracker)\<lparr>bc_Mode := ''''\<rparr>\<rparr>\<rparr>"

theorem untrusted_end_user_forwarded_witness:
  "\<exists>i. in_EndUser i = ''ciso'' \<and> cc_remote guard_ctx i = Inr sample_issued \<and>
     rs_status (fst (cp_handleSign guard_ctx (Some ''b1'') (Some (sample_wire\<lparr>wr_EndUser := ''ciso''\<rparr>)) direct_server)) = 200"
proof -
  let ?req = "sample_wire\<lparr>wr_EndUser := ''ciso''\<rparr>"
  obtain i where i: "intentFrom (cc_codec guard_ctx) ?req ''b1'' False = Some i"
    by (simp add: intentFrom_def guard_ctx_def sample_codec_def)
  have r: "cc_remote guard_ctx i = Inr sample_issued" "cc_newID guard_ctx = Some ''a1''" by (simp_all add: guard_ctx_def)
  have s: "signCaller (Some ''b1'') direct_server = Inr ''b1''" "''b1'' \<notin> set (cs_forwarders direct_server)"
    "\<not> Enabled (cs_behavior direct_server)"
    by (simp_all add: direct_server_def signCaller_def isSignCaller_def guard_server_def guard_tracker_def Enabled_def CallerCN_b1)
  have d: "\<not> wr_DryRun ?req" by (simp add: sample_wire_def)
  from untrusted_end_user_forwarded [OF s d i r(1) sample_certificate r(2)] r(1) show ?thesis
    by (intro exI [of _ i]) simp
qed

text \<open>
  What a broker sees of the hosts behind the control plane: the list of the signing service,
  host by host, except that no host is ever shown as allowing file transfer.
\<close>

theorem hosts_through_control_plane:
  assumes "signCaller peer s = Inr cn" and "FetchHosts (fetch cn) = Inr hosts"
  shows "FetchHosts (Responded (cp_handleHosts cx fetch peer s)) =
     Inr (map (\<lambda>(name, h). (name, h\<lparr>hi_AllowFileTransfer := False\<rparr>)) hosts)"
  using assms by (simp add: cp_handleHosts_def FetchHosts_def cp_host_def host_info_def case_prod_unfold)

theorem hosts_through_control_plane_witness:
  "\<exists>fetch h. FetchHosts (fetch ''b1'') = Inr [(''web01'', h)] \<and> hi_AllowFileTransfer h \<and>
     FetchHosts (Responded (cp_handleHosts guard_ctx fetch (Some ''b1'') guard_server)) =
       Inr [(''web01'', h\<lparr>hi_AllowFileTransfer := False\<rparr>)]"
proof -
  let ?w = "\<lparr>wh_Addr = ''10.0.0.5:22'', wh_User = ''deploy'', wh_HostKey = ''k'', wh_Jump = '''', wh_AllowSudo = False,
    wh_AllowPTY = False, wh_AllowFileTransfer = True, wh_Groups = []\<rparr>"
  let ?f = "\<lambda>cn. Responded \<lparr>rs_status = 200, rs_body = BodyHosts [(''web01'', ?w)]\<rparr>"
  have f: "FetchHosts (?f ''b1'') = Inr [(''web01'', host_info ?w)]" by (simp add: FetchHosts_def)
  from hosts_through_control_plane [OF guard_caller, where fetch = ?f, OF f, where cx = guard_ctx] f show ?thesis
    by (intro exI [of _ ?f] exI [of _ "host_info ?w"]) (simp add: host_info_def)
qed

end
