(* ===== verification/Control_Flow.thy ===== *)
theory Control_Flow
  imports Control_Plane
begin

text \<open>
  The control plane as a state machine: the critical sections of its handlers, interleaved in any
  order, with a signer whose answers are arbitrary. The machine refines the workflow of \<open>Approval\<close>,
  so its guarantees hold of the handlers as they are written.
\<close>

section \<open>The control plane as a state machine\<close>

text \<open>
  A handler between two of its critical sections: a poller that saw an approved request, one that
  holds the claim, one that has read the request to forward, and an approver that passed the
  checks of \<open>handleApprovalDecide\<close>.
\<close>

datatype activity =
    Polled string Approval
  | Claimed string Approval
  | Forwarding string Approval WireRequest
  | Deciding string string bool duration

text \<open>
  The server, its clock and the handlers under way; and a record of what happened: the requests
  created with their originator, the approvals given, and for each usable answer of the signer
  to an approved request the intent sent and the response returned to the poller.
\<close>

record cp_world =
  cw_server :: cp_server
  cw_now :: time
  cw_active :: "activity list"
  cw_created :: "(string, string \<times> WireRequest) gomap"
  cw_approved :: "(string \<times> string) list"
  cw_issued :: "(string \<times> Intent \<times> http_response) list"

definition record_created :: "string option \<Rightarrow> cp_server \<Rightarrow> (string, string \<times> WireRequest) gomap \<Rightarrow>
    (string, string \<times> WireRequest) gomap" where
  "record_created newID s created =
     (case newID of
        None \<Rightarrow> created
      | Some aid \<Rightarrow>
          (case get (rg_items (cs_registry s)) aid of
             None \<Rightarrow> created
           | Some a \<Rightarrow> put aid (ap_Caller a, ap_req a) created))"

text \<open>
  The steps. The signer's answers are arbitrary (\<open>cx\<close> is not constrained but for its clock and
  codec). A new identifier, 128 random bits, is neither one used before nor one an approver has
  already named.
\<close>

inductive cp_step :: "ssh_codec \<Rightarrow> cp_world \<Rightarrow> cp_world \<Rightarrow> bool" for sc where
  cp_tick: "cw_now w \<le> now \<Longrightarrow> cp_step sc w (w\<lparr>cw_now := now\<rparr>)"
| cp_sign: "cc_now cx = cw_now w \<Longrightarrow> cc_codec cx = sc \<Longrightarrow>
    (case cc_newID cx of None \<Rightarrow> True | Some aid \<Rightarrow> get (cw_created w) aid = None \<and>
       (\<forall>cn approve ttl. Deciding cn aid approve ttl \<notin> set (cw_active w))) \<Longrightarrow>
    cp_handleSign cx peer body (cw_server w) = (resp, s) \<Longrightarrow>
    cp_step sc w (w\<lparr>cw_server := s, cw_created := record_created (cc_newID cx) s (cw_created w)\<rparr>)"
| cp_list: "cc_now cx = cw_now w \<Longrightarrow> handleApprovalsList cx peer (cw_server w) = (resp, s) \<Longrightarrow>
    cp_step sc w (w\<lparr>cw_server := s\<rparr>)"
| cp_poll: "cc_now cx = cw_now w \<Longrightarrow> result_lookup cx peer aid (cw_server w) = (res, s) \<Longrightarrow>
    cp_step sc w (w\<lparr>cw_server := s,
      cw_active := (case res of Inl _ \<Rightarrow> cw_active w | Inr a \<Rightarrow> Polled aid a # cw_active w)\<rparr>)"
| cp_claim: "cc_now cx = cw_now w \<Longrightarrow> cw_active w = before @ Polled aid a # after \<Longrightarrow>
    result_claim cx aid (cw_server w) = (res, s) \<Longrightarrow>
    cp_step sc w (w\<lparr>cw_server := s,
      cw_active := (if res = None then Claimed aid a # before @ after else before @ after)\<rparr>)"
| cp_read: "cw_active w = before @ Claimed aid a # after \<Longrightarrow>
    cp_step sc w (w\<lparr>cw_active := before @ Forwarding aid a (result_request aid (cw_server w)) # after\<rparr>)"
| cp_forward: "cc_now cx = cw_now w \<Longrightarrow> cc_codec cx = sc \<Longrightarrow> cw_active w = before @ Forwarding aid a req # after \<Longrightarrow>
    result_forward cx a req (cw_server w) = ((resp, consumeOK), s) \<Longrightarrow>
    cp_step sc w (w\<lparr>cw_server := result_finish aid consumeOK s, cw_active := before @ after,
      cw_issued := (if consumeOK then (aid, the (approved_intent sc a req), resp) # cw_issued w else cw_issued w)\<rparr>)"
| cp_decide: "cc_now cx = cw_now w \<Longrightarrow> decide_check cx peer ct aid body (cw_server w) = (res, s) \<Longrightarrow>
    cp_step sc w (w\<lparr>cw_server := s,
      cw_active := (case res of Inl _ \<Rightarrow> cw_active w
                    | Inr (cn, approve, ttl) \<Rightarrow> Deciding cn aid approve ttl # cw_active w)\<rparr>)"
| cp_commit: "cc_now cx = cw_now w \<Longrightarrow> cw_active w = before @ Deciding cn aid approve ttl # after \<Longrightarrow>
    decide_commit cx cn aid approve ttl (cw_server w) = (res, s) \<Longrightarrow>
    cp_step sc w (w\<lparr>cw_server := s, cw_active := before @ after,
      cw_approved := (if isl res \<or> \<not> approve then cw_approved w else (aid, cn) # cw_approved w)\<rparr>)"

definition cp_start :: "(string \<Rightarrow> string) option \<Rightarrow> cp_Config \<Rightarrow> time \<Rightarrow> cp_world" where
  "cp_start redactor c now = \<lparr>cw_server = cp_new redactor c, cw_now = now, cw_active = [], cw_created = [],
     cw_approved = [], cw_issued = []\<rparr>"

inductive cp_reach :: "ssh_codec \<Rightarrow> cp_Config \<Rightarrow> cp_world \<Rightarrow> bool" for sc c where
  cp_init: "cp_reach sc c (cp_start redactor c now)"
| cp_next: "cp_reach sc c w \<Longrightarrow> cp_step sc w w' \<Longrightarrow> cp_reach sc c w'"

section \<open>Refinement of the approval workflow\<close>

text \<open>The claims held by the handlers under way, and the workflow state of a world.\<close>

fun claim_of :: "activity \<Rightarrow> string list" where
  "claim_of (Claimed aid a) = [aid]"
| "claim_of (Forwarding aid a req) = [aid]"
| "claim_of (Polled aid a) = []"
| "claim_of (Deciding cn aid approve ttl) = []"

definition flow_of :: "cp_world \<Rightarrow> flow" where
  "flow_of w = \<lparr>fl_reg = cs_registry (cw_server w), fl_now = cw_now w, fl_created = cw_created w,
     fl_approved = cw_approved w, fl_claims = concat (map claim_of (cw_active w)), fl_issued = map fst (cw_issued w)\<rparr>"

text \<open>What an approval seen by a poller guarantees, and what the handlers under way rely on.\<close>

definition snapshot_ok :: "string set \<Rightarrow> cp_world \<Rightarrow> string \<Rightarrow> Approval \<Rightarrow> bool" where
  "snapshot_ok approvers w aid a \<longleftrightarrow> get (cw_created w) aid = Some (ap_Caller a, ap_req a) \<and>
     (aid, ap_DecidedBy a) \<in> set (cw_approved w) \<and> ap_DecidedBy a \<in> approvers \<and> ap_DecidedBy a \<noteq> ap_Caller a"

fun active_ok :: "string set \<Rightarrow> cp_world \<Rightarrow> activity \<Rightarrow> bool" where
  "active_ok approvers w (Polled aid a) = snapshot_ok approvers w aid a"
| "active_ok approvers w (Claimed aid a) = snapshot_ok approvers w aid a"
| "active_ok approvers w (Forwarding aid a req) \<longleftrightarrow>
     snapshot_ok approvers w aid a \<and> (req = ap_req a \<or> req = zero_request)"
| "active_ok approvers w (Deciding cn aid approve ttl) \<longleftrightarrow>
     cn \<in> approvers \<and> (\<forall>a. get (rg_items (cs_registry (cw_server w))) aid = Some a \<longrightarrow> ap_Caller a \<noteq> cn)"

text \<open>What is known of an issued response.\<close>

definition issue_ok :: "ssh_codec \<Rightarrow> string set \<Rightarrow> cp_world \<Rightarrow> string \<times> Intent \<times> http_response \<Rightarrow> bool" where
  "issue_ok sc approvers w p \<longleftrightarrow>
     (case p of (aid, i, resp) \<Rightarrow>
        \<exists>a. snapshot_ok approvers w aid a \<and>
            (approved_intent sc a (ap_req a) = Some i \<or> approved_intent sc a zero_request = Some i))"

abbreviation approvers_of :: "cp_Config \<Rightarrow> string set" where
  "approvers_of c \<equiv> set (cnSet (cpc_Callers c))"

definition world_ok :: "ssh_codec \<Rightarrow> cp_Config \<Rightarrow> cp_world \<Rightarrow> bool" where
  "world_ok sc c w \<longleftrightarrow> cs_approveCN (cw_server w) = cnSet (cpc_Callers c) \<and>
     flow_reach (approvers_of c) (seconds (cpc_TimeoutSeconds c)) (flow_of w) \<and>
     (\<forall>t\<in>set (cw_active w). active_ok (approvers_of c) w t) \<and>
     (\<forall>p\<in>set (cw_issued w). issue_ok sc (approvers_of c) w p)"

text \<open>Only the registry operations touch the registry, and no handler changes the configured names.\<close>

lemma auditE_fields [simp]:
  "cs_registry (auditE e s) = cs_registry s" "cs_approveCN (auditE e s) = cs_approveCN s"
  "cs_behavior (auditE e s) = cs_behavior s" "cs_forwarders (auditE e s) = cs_forwarders s"
  "cs_signCN (auditE e s) = cs_signCN s"
  by (simp_all add: auditE_def)

lemma learnBehaviorApproval_fields [simp]:
  "cs_registry (learnBehaviorApproval now a req s) = cs_registry s"
  "cs_approveCN (learnBehaviorApproval now a req s) = cs_approveCN s"
  by (simp_all add: learnBehaviorApproval_def)

text \<open>The effect of a sign request on the registry: none, or one entry after a purge.\<close>

definition registry_effect :: "cp_ctx \<Rightarrow> string \<Rightarrow> cp_server \<Rightarrow> cp_server \<Rightarrow> bool" where
  "registry_effect cx cn s s' \<longleftrightarrow> cs_approveCN s' = cs_approveCN s \<and>
     (cs_registry s' = cs_registry s \<or>
      (\<exists>aid req dec. cc_newID cx = Some aid \<and> cs_registry s' =
         Create_insert aid (new_approval aid req cn dec (cc_now cx)) (Create_purge (cc_now cx) (cs_registry s))))"

lemma registry_effect_refl [simp]: "registry_effect cx cn s s"
  by (simp add: registry_effect_def)

lemma requireApproval_effect: "registry_effect cx cn s (snd (requireApproval cx cn req rule anomaly s))"
  by (auto simp: registry_effect_def requireApproval_def Create_def Let_def split: option.splits sum.splits)

lemma forwardSignResult_effect: "registry_effect cx cn s (snd (forwardSignResult cx cn req issued s))"
  using requireApproval_effect [of cx cn s req]
  by (auto simp: forwardSignResult_def registry_effect_def split: option.splits)

lemma checkBehaviorGuardrails_effect:
  "registry_effect cx cn s (snd (checkBehaviorGuardrails cx cn req s)) \<and>
   (fst (checkBehaviorGuardrails cx cn req s) = None \<longrightarrow>
      cs_registry (snd (checkBehaviorGuardrails cx cn req s)) = cs_registry s \<and>
      cs_approveCN (snd (checkBehaviorGuardrails cx cn req s)) = cs_approveCN s)"
  using requireApproval_effect [of cx cn "s\<lparr>cs_behavior := snd (Check (cc_now cx)
      (guardrailSubject cn (wr_EndUser req) s) (wr_Host req) (wr_Command req) (cs_behavior s))\<rparr>" req]
  by (auto simp: checkBehaviorGuardrails_def registry_effect_def Let_def case_prod_unfold split: option.splits)

lemma cp_handleSign_effect: "\<exists>cn. registry_effect cx cn s (snd (cp_handleSign cx peer body s))"
proof (cases "signCaller peer s")
  case (Inl resp)
  then show ?thesis by (simp add: cp_handleSign_def)
next
  case (Inr cn)
  define p where "p req = (if Enabled (cs_behavior s) then checkBehaviorGuardrails cx cn req s else (None, s))" for req
  have g: "registry_effect cx cn s (snd (p req))"
    and n: "fst (p req) = None \<Longrightarrow> cs_registry (snd (p req)) = cs_registry s \<and> cs_approveCN (snd (p req)) = cs_approveCN s"
    for req using checkBehaviorGuardrails_effect [of cx cn s req] by (auto simp: p_def)
  have f: "fst (p req) = None \<Longrightarrow> registry_effect cx cn s (snd (forwardSignResult cx cn req issued (snd (p req))))"
    for req issued
    using forwardSignResult_effect [of cx cn "snd (p req)" req issued] n by (simp add: registry_effect_def)
  have "registry_effect cx cn s (snd (cp_handleSign cx peer (Some req) s))" for req
  proof -
    have a: "registry_effect cx cn s s1 \<Longrightarrow> registry_effect cx cn s (auditE e s1)" for e s1
      by (simp add: registry_effect_def)
    obtain r s1 where p: "p req = (r, s1)" by fastforce
    then show ?thesis
      using g [of req] f [of req] a unfolding cp_handleSign_def Inr sum.case option.case p_def [symmetric]
      by (cases r) (auto split: option.split sum.split)
  qed
  moreover have "registry_effect cx cn s (snd (cp_handleSign cx peer None s))" by (simp add: cp_handleSign_def Inr)
  ultimately show ?thesis by (cases body) blast+
qed

text \<open>The sections of the other handlers, as the registry operations they perform.\<close>

lemma handleApprovalsList_effect:
  assumes "handleApprovalsList cx peer s = (res, s')"
  shows "cs_approveCN s' = cs_approveCN s"
    and "s' = s \<or> (\<exists>l r. reg_List (cc_now cx) (cs_registry s) = (l, r) \<and> cs_registry s' = r)"
  using assms by (auto simp: handleApprovalsList_def split: option.splits prod.splits)

lemma result_lookup_effect:
  assumes "result_lookup cx peer aid s = (res, s')"
  shows "cs_approveCN s' = cs_approveCN s"
    and "cs_registry s' = cs_registry s \<or> (\<exists>a. reg_Get (cc_now cx) aid (cs_registry s) = (a, cs_registry s'))"
    and "res = Inr a \<Longrightarrow> reg_Get (cc_now cx) aid (cs_registry s) = (Some a, cs_registry s') \<and> ap_Status a = StatusApproved"
  using assms
  by (auto simp: result_lookup_def Let_def split: sum.splits prod.splits option.splits if_splits Status.splits)

lemma result_claim_effect:
  assumes "result_claim cx aid s = (res, s')"
  shows "cs_approveCN s' = cs_approveCN s"
    and "\<exists>retry. BeginConsume (cc_now cx) aid (cs_registry s) = ((res = None, retry), cs_registry s')"
  using assms by (auto simp: result_claim_def split: prod.splits if_splits)

lemma result_forward_effect:
  assumes "result_forward cx a req s = ((resp, ok), s')"
  shows "cs_approveCN s' = cs_approveCN s" and "cs_registry s' = cs_registry s"
    and "ok \<Longrightarrow> \<exists>i issued. approved_intent (cc_codec cx) a req = Some i \<and> cc_remote cx i = Inr issued \<and>
           rs_status resp = 200"
  using assms by (auto simp: result_forward_def Let_def split: option.splits sum.splits if_splits)

lemma decide_check_effect:
  assumes "decide_check cx peer ct aid body s = (res, s')"
  shows "cs_approveCN s' = cs_approveCN s"
    and "cs_registry s' = cs_registry s \<or> (\<exists>a. reg_Get (cc_now cx) aid (cs_registry s) = (a, cs_registry s'))"
    and "res = Inr (cn, approve, ttl) \<Longrightarrow> cn \<in> set (cs_approveCN s) \<and>
           (\<forall>a. get (rg_items (cs_registry s)) aid = Some a \<longrightarrow> ap_Caller a \<noteq> cn)"
  using assms
  by (auto simp: decide_check_def approver_def reg_Get_def touch_def Let_def
      split: option.splits prod.splits if_splits)

lemma decide_commit_effect:
  assumes "decide_commit cx cn aid approve ttl s = (res, s')"
  shows "cs_approveCN s' = cs_approveCN s"
    and "\<exists>res'. reg_Decide (cc_now cx) aid approve cn ttl (cs_registry s) = (res', cs_registry s') \<and> isl res' = isl res"
  using assms by (auto simp: decide_commit_def Let_def split: sum.splits prod.splits)

subsection \<open>Preservation\<close>

text \<open>The record of the workflow only grows, so what was established of an approval stays.\<close>

definition extends :: "cp_world \<Rightarrow> cp_world \<Rightarrow> bool" where
  "extends w w' \<longleftrightarrow> (\<forall>aid v. get (cw_created w) aid = Some v \<longrightarrow> get (cw_created w') aid = Some v) \<and>
     set (cw_approved w) \<subseteq> set (cw_approved w')"

lemma extends_refl: "cw_created w' = cw_created w \<Longrightarrow> cw_approved w' = cw_approved w \<Longrightarrow> extends w w'"
  by (simp add: extends_def)

lemma snapshot_ok_extends: "extends w w' \<Longrightarrow> snapshot_ok approvers w aid a \<Longrightarrow> snapshot_ok approvers w' aid a"
  by (auto simp: extends_def snapshot_ok_def)

lemma issue_ok_extends: "extends w w' \<Longrightarrow> issue_ok sc approvers w p \<Longrightarrow> issue_ok sc approvers w' p"
  using snapshot_ok_extends by (fastforce simp: issue_ok_def)

lemma active_ok_extends:
  assumes "extends w w'" and "active_ok approvers w t"
    and "\<And>cn aid approve ttl a'. t = Deciding cn aid approve ttl \<Longrightarrow>
           get (rg_items (cs_registry (cw_server w'))) aid = Some a' \<Longrightarrow>
           \<exists>a. get (rg_items (cs_registry (cw_server w))) aid = Some a \<and> ap_Caller a = ap_Caller a'"
  shows "active_ok approvers w' t"
  using assms by (cases t) (auto intro: snapshot_ok_extends dest: assms(3))

text \<open>An invariant step: the workflow takes steps, the record grows, the new handlers under way are fine.\<close>

lemma flow_reach_steps: "(flow_step A)\<^sup>*\<^sup>* f f' \<Longrightarrow> flow_reach A ttl f \<Longrightarrow> flow_reach A ttl f'"
  by (induction rule: rtranclp_induct) (auto intro: flow_next)

lemma world_ok_entry:
  assumes "world_ok sc c w" and "get (rg_items (cs_registry (cw_server w))) aid = Some a"
  shows "entry_ok (approvers_of c) (flow_of w) aid a"
  using flow_reach_ok assms by (auto simp: world_ok_def flow_ok_def flow_of_def)

text \<open>An entry of the registry only appears with the creation of its identifier.\<close>

lemma get_filter_None: "get m k = None \<Longrightarrow> get (filter P m) k = None"
  by (induction m) (auto split: if_splits)

lemma flow_step_created: "flow_step A f f' \<Longrightarrow> get (fl_created f') aid = None \<Longrightarrow> get (fl_created f) aid = None"
  by (induction rule: flow_step.induct) (auto split: if_splits)

lemma flow_step_absent:
  assumes "flow_step A f f'" and "get (rg_items (fl_reg f)) aid = None" and "get (rg_items (fl_reg f')) aid \<noteq> None"
  shows "get (fl_created f) aid = None \<and> get (fl_created f') aid \<noteq> None"
  using assms
proof (induction rule: flow_step.induct)
  case (step_insert f aid' req caller dec)
  then show ?case by (auto simp: Create_insert_def split: if_splits)
qed (auto simp: Create_purge_def purgeLocked_def reg_Get_def touch_def reg_List_def reg_Decide_def BeginConsume_def
    FinishConsume_def Let_def get_filter_None get_map_vals split: option.splits if_splits)

lemma flow_steps_absent:
  assumes "(flow_step A)\<^sup>*\<^sup>* f f'" and "get (rg_items (fl_reg f)) aid = None"
  shows "get (rg_items (fl_reg f')) aid = None \<or> get (fl_created f) aid = None \<and> get (fl_created f') aid \<noteq> None"
  using assms(1)
proof (induction rule: rtranclp_induct)
  case base
  show ?case using assms(2) by simp
next
  case (step f1 f2)
  have "get (fl_created f1) aid = None \<Longrightarrow> get (fl_created f) aid = None"
    using step.hyps(1) by (induction rule: rtranclp_induct) (auto dest: flow_step_created)
  then show ?case using step.IH flow_step_absent [OF step.hyps(2), of aid] flow_step_created [OF step.hyps(2), of aid]
    by (cases "get (fl_created f2) aid"; cases "get (rg_items (fl_reg f2)) aid") auto
qed

lemma world_ok_intro:
  assumes "world_ok sc c w" and "cs_approveCN (cw_server w') = cs_approveCN (cw_server w)"
    and "(flow_step (approvers_of c))\<^sup>*\<^sup>* (flow_of w) (flow_of w')" and "extends w w'"
    and "\<And>t. t \<in> set (cw_active w') \<Longrightarrow> t \<in> set (cw_active w) \<or> active_ok (approvers_of c) w' t"
    and "\<And>p. p \<in> set (cw_issued w') \<Longrightarrow> p \<in> set (cw_issued w) \<or> issue_ok sc (approvers_of c) w' p"
    and "\<And>cn aid approve ttl. Deciding cn aid approve ttl \<in> set (cw_active w) \<Longrightarrow>
           get (cw_created w') aid = get (cw_created w) aid"
  shows "world_ok sc c w'"
proof -
  have r: "flow_reach (approvers_of c) (seconds (cpc_TimeoutSeconds c)) (flow_of w')"
    using flow_reach_steps [OF assms(3)] assms(1) by (simp add: world_ok_def)
  have d: "\<exists>a. get (rg_items (cs_registry (cw_server w))) aid = Some a \<and> ap_Caller a = ap_Caller a'"
    if "Deciding cn aid approve ttl \<in> set (cw_active w)" "get (rg_items (cs_registry (cw_server w'))) aid = Some a'"
    for cn aid approve ttl a'
  proof -
    have "get (rg_items (cs_registry (cw_server w))) aid \<noteq> None"
      using flow_steps_absent [OF assms(3), of aid] assms(7) [OF that(1)] that(2) by (fastforce simp: flow_of_def)
    moreover have "entry_ok (approvers_of c) (flow_of w') aid a'"
      using flow_reach_ok [OF r] that(2) by (auto simp: flow_ok_def flow_of_def)
    ultimately show ?thesis
      using world_ok_entry [OF assms(1), of aid] assms(7) [OF that(1)] by (auto simp: entry_ok_def flow_of_def)
  qed
  have "active_ok (approvers_of c) w' t" if "t \<in> set (cw_active w')" for t
    using assms(5) [OF that]
  proof
    assume t: "t \<in> set (cw_active w)"
    with assms(1) have "active_ok (approvers_of c) w t" by (simp add: world_ok_def)
    with assms(4) show ?thesis by (rule active_ok_extends) (use t d in blast)
  qed
  moreover have "\<forall>p\<in>set (cw_issued w'). issue_ok sc (approvers_of c) w' p"
    using assms(1,6) issue_ok_extends [OF assms(4)] by (metis world_ok_def)
  ultimately show ?thesis using r assms(1,2) by (simp add: world_ok_def)
qed

lemma reg_Get_caller:
  "reg_Get now aid r = (x, r') \<Longrightarrow> get (rg_items r') aid = Some a' \<Longrightarrow>
     \<exists>a. get (rg_items r) aid = Some a \<and> ap_Caller a = ap_Caller a'"
  by (auto simp: reg_Get_def touch_def Let_def split: option.splits)

text \<open>An approved entry that \<open>Get\<close> returns.\<close>

lemma snapshot_ok_Get:
  assumes "world_ok sc c w" and "reg_Get (cw_now w) aid (cs_registry (cw_server w)) = (Some a, r)"
    and "ap_Status a = StatusApproved"
  shows "snapshot_ok (approvers_of c) w aid a"
proof -
  obtain a0 where "get (rg_items (cs_registry (cw_server w))) aid = Some a0"
      "a = expireLocked (rg_ttl (cs_registry (cw_server w))) (cw_now w) a0"
    using assms(2) by (auto simp: reg_Get_def touch_def Let_def split: option.splits)
  with world_ok_entry [OF assms(1)] have "entry_ok (approvers_of c) (flow_of w) aid a" by (auto intro: entry_ok_expire)
  with assms(3) show ?thesis by (simp add: snapshot_ok_def entry_ok_def flow_of_def)
qed

lemma claims_middle [simp]:
  "concat (map claim_of (before @ t # after)) = concat (map claim_of before) @ claim_of t @ concat (map claim_of after)"
  by simp

lemma flow_step_1: "flow_step A f f' \<Longrightarrow> (flow_step A)\<^sup>*\<^sup>* f f'"
  by (rule r_into_rtranclp)

lemma world_ok_sign:
  assumes w: "world_ok sc c w" and cx: "cc_now cx = cw_now w"
    and fresh: "case cc_newID cx of None \<Rightarrow> True | Some aid \<Rightarrow> get (cw_created w) aid = None \<and>
       (\<forall>cn approve ttl. Deciding cn aid approve ttl \<notin> set (cw_active w))"
    and h: "cp_handleSign cx peer body (cw_server w) = (resp, s)"
  shows "world_ok sc c (w\<lparr>cw_server := s, cw_created := record_created (cc_newID cx) s (cw_created w)\<rparr>)" (is "world_ok sc c ?w")
proof -
  from cp_handleSign_effect [of cx "cw_server w" peer body] h obtain cn where e: "registry_effect cx cn (cw_server w) s"
    by auto
  have old: "get (rg_items (cs_registry (cw_server w))) aid = None" if "cc_newID cx = Some aid" for aid
    using world_ok_entry [OF w, of aid] fresh that by (cases "get (rg_items (cs_registry (cw_server w))) aid")
      (auto simp: entry_ok_def flow_of_def)
  have steps: "(flow_step (approvers_of c))\<^sup>*\<^sup>* (flow_of w) (flow_of ?w)"
  proof (cases "cs_registry s = cs_registry (cw_server w)")
    case True
    then have "record_created (cc_newID cx) s (cw_created w) = cw_created w"
      using old by (auto simp: record_created_def split: option.split)
    with True show ?thesis by (simp add: flow_of_def)
  next
    case False
    with e obtain aid req dec where a: "cc_newID cx = Some aid" and r: "cs_registry s = Create_insert aid
        (new_approval aid req cn dec (cw_now w)) (Create_purge (cw_now w) (cs_registry (cw_server w)))"
      by (auto simp: registry_effect_def cx)
    let ?f = "(flow_of w)\<lparr>fl_reg := Create_purge (fl_now (flow_of w)) (fl_reg (flow_of w))\<rparr>"
    have "flow_step (approvers_of c) (flow_of w) ?f" by (rule step_purge)
    moreover have "flow_step (approvers_of c) ?f (flow_of ?w)"
      using step_insert [where f = ?f and aid = aid and req = req and caller = cn and dec = dec and approvers = "approvers_of c"] fresh a
      by (simp add: flow_of_def r record_created_def Create_insert_def new_approval_def)
    ultimately show ?thesis by (meson converse_rtranclp_into_rtranclp flow_step_1)
  qed
  show ?thesis
  proof (rule world_ok_intro [OF w _ steps])
    show "cs_approveCN (cw_server ?w) = cs_approveCN (cw_server w)" using e by (simp add: registry_effect_def)
    show "extends w ?w" using fresh by (auto simp: extends_def record_created_def split: option.splits)
    show "get (cw_created ?w) aid = get (cw_created w) aid" if "Deciding cn aid approve ttl \<in> set (cw_active w)"
      for cn aid approve ttl using fresh that by (auto simp: record_created_def split: option.splits)
  qed simp_all
qed

text \<open>A section that is one operation of the workflow and starts no other handler.\<close>

lemma world_ok_registry:
  assumes "world_ok sc c w" and "cs_approveCN s = cs_approveCN (cw_server w)"
    and "cs_registry s = cs_registry (cw_server w) \<or>
      flow_step (approvers_of c) (flow_of w) ((flow_of w)\<lparr>fl_reg := cs_registry s\<rparr>)"
    and "concat (map claim_of ts) = concat (map claim_of (cw_active w))"
    and "\<And>t. t \<in> set ts \<Longrightarrow> t \<in> set (cw_active w) \<or> active_ok (approvers_of c) (w\<lparr>cw_server := s, cw_active := ts\<rparr>) t"
  shows "world_ok sc c (w\<lparr>cw_server := s, cw_active := ts\<rparr>)"
proof (rule world_ok_intro [OF assms(1)])
  show "(flow_step (approvers_of c))\<^sup>*\<^sup>* (flow_of w) (flow_of (w\<lparr>cw_server := s, cw_active := ts\<rparr>))"
    using assms(3,4) by (auto simp: flow_of_def intro: flow_step_1)
qed (use assms in \<open>auto intro: extends_refl\<close>)

lemma world_ok_poll:
  assumes w: "world_ok sc c w" and cx: "cc_now cx = cw_now w" and h: "result_lookup cx peer aid (cw_server w) = (res, s)"
  shows "world_ok sc c (w\<lparr>cw_server := s,
      cw_active := (case res of Inl _ \<Rightarrow> cw_active w | Inr a \<Rightarrow> Polled aid a # cw_active w)\<rparr>)"
proof (rule world_ok_registry [OF w])
  note e = result_lookup_effect [OF h, unfolded cx]
  show "cs_approveCN s = cs_approveCN (cw_server w)" by (rule e)
  show "cs_registry s = cs_registry (cw_server w) \<or>
      flow_step (approvers_of c) (flow_of w) ((flow_of w)\<lparr>fl_reg := cs_registry s\<rparr>)"
    using e(2) step_get [of "flow_of w" aid _ "cs_registry s"] by (auto simp: flow_of_def)
  show "t \<in> set (cw_active w) \<or> active_ok (approvers_of c) (w\<lparr>cw_server := s,
      cw_active := (case res of Inl _ \<Rightarrow> cw_active w | Inr a \<Rightarrow> Polled aid a # cw_active w)\<rparr>) t"
    if "t \<in> set (case res of Inl _ \<Rightarrow> cw_active w | Inr a \<Rightarrow> Polled aid a # cw_active w)" for t
    using that e(3) snapshot_ok_Get [OF w] by (auto simp: snapshot_ok_def split: sum.splits)
qed (simp split: sum.split)

lemma world_ok_decide:
  assumes w: "world_ok sc c w" and cx: "cc_now cx = cw_now w" and h: "decide_check cx peer ct aid body (cw_server w) = (res, s)"
  shows "world_ok sc c (w\<lparr>cw_server := s, cw_active := (case res of Inl _ \<Rightarrow> cw_active w
                    | Inr (cn, approve, ttl) \<Rightarrow> Deciding cn aid approve ttl # cw_active w)\<rparr>)"
    (is "world_ok sc c ?w")
proof (rule world_ok_registry [OF w])
  note e = decide_check_effect [OF h, unfolded cx]
  show "cs_approveCN s = cs_approveCN (cw_server w)" by (rule e)
  show "cs_registry s = cs_registry (cw_server w) \<or>
      flow_step (approvers_of c) (flow_of w) ((flow_of w)\<lparr>fl_reg := cs_registry s\<rparr>)"
    using e(2) step_get [of "flow_of w" aid _ "cs_registry s"] by (auto simp: flow_of_def)
  have d: "\<exists>a. get (rg_items (cs_registry (cw_server w))) aid = Some a \<and> ap_Caller a = ap_Caller a'"
    if "get (rg_items (cs_registry s)) aid = Some a'" for a'
    using e(2) that by (auto dest: reg_Get_caller)
  show "t \<in> set (cw_active w) \<or> active_ok (approvers_of c) ?w t"
    if "t \<in> set (case res of Inl _ \<Rightarrow> cw_active w | Inr (cn, approve, ttl) \<Rightarrow> Deciding cn aid approve ttl # cw_active w)" for t
    using that e(3) w d by (fastforce simp: world_ok_def split: sum.splits prod.splits)
qed (simp split: sum.split prod.split)

lemma world_ok_claim:
  assumes w: "world_ok sc c w" and cx: "cc_now cx = cw_now w" and act: "cw_active w = before @ Polled aid a # after"
    and h: "result_claim cx aid (cw_server w) = (res, s)"
  shows "world_ok sc c (w\<lparr>cw_server := s, cw_active := (if res = None then Claimed aid a # before @ after else before @ after)\<rparr>)"
    (is "world_ok sc c ?w")
proof (rule world_ok_intro [OF w])
  from result_claim_effect(2) [OF h, unfolded cx] obtain retry where
    b: "BeginConsume (fl_now (flow_of w)) aid (fl_reg (flow_of w)) = ((res = None, retry), cs_registry s)"
    by (auto simp: flow_of_def)
  show "(flow_step (approvers_of c))\<^sup>*\<^sup>* (flow_of w) (flow_of ?w)"
    using flow_step_1 [OF step_begin [OF b, of "approvers_of c"]] by (auto simp: flow_of_def act split: if_splits)
  show "cs_approveCN (cw_server ?w) = cs_approveCN (cw_server w)" using result_claim_effect(1) [OF h] by simp
  show "t \<in> set (cw_active w) \<or> active_ok (approvers_of c) ?w t" if "t \<in> set (cw_active ?w)" for t
  proof -
    have "snapshot_ok (approvers_of c) w aid a" using w act by (simp add: world_ok_def)
    then show ?thesis using that by (auto simp: act snapshot_ok_def split: if_splits)
  qed
qed (auto intro: extends_refl)

lemma world_ok_read:
  assumes w: "world_ok sc c w" and act: "cw_active w = before @ Claimed aid a # after"
  shows "world_ok sc c (w\<lparr>cw_active := before @ Forwarding aid a (result_request aid (cw_server w)) # after\<rparr>)" (is "world_ok sc c ?w")
proof (rule world_ok_intro [OF w])
  show "(flow_step (approvers_of c))\<^sup>*\<^sup>* (flow_of w) (flow_of ?w)" by (simp add: flow_of_def act)
  have s: "snapshot_ok (approvers_of c) w aid a" using w act by (simp add: world_ok_def)
  have "result_request aid (cw_server w) \<in> {ap_req a, zero_request}"
    using s world_ok_entry [OF w, of aid]
    by (auto simp: result_request_def Request_def snapshot_ok_def entry_ok_def flow_of_def split: option.split)
  with s show "t \<in> set (cw_active w) \<or> active_ok (approvers_of c) ?w t" if "t \<in> set (cw_active ?w)" for t
    using that by (auto simp: act snapshot_ok_def)
qed (auto intro: extends_refl)

lemma world_ok_forward:
  assumes w: "world_ok sc c w" and cx: "cc_codec cx = sc" and act: "cw_active w = before @ Forwarding aid a req # after"
    and h: "result_forward cx a req (cw_server w) = ((resp, consumeOK), s)"
  shows "world_ok sc c (w\<lparr>cw_server := result_finish aid consumeOK s, cw_active := before @ after,
      cw_issued := (if consumeOK then (aid, the (approved_intent sc a req), resp) # cw_issued w else cw_issued w)\<rparr>)"
    (is "world_ok sc c ?w")
proof (rule world_ok_intro [OF w])
  note e = result_forward_effect [OF h]
  have ok: "active_ok (approvers_of c) w (Forwarding aid a req)" using w act by (simp add: world_ok_def)
  have "distinct (fl_claims (flow_of w))"
    using w flow_reach_ok by (auto simp: world_ok_def flow_ok_def)
  then have rm: "remove1 aid (fl_claims (flow_of w)) = concat (map claim_of (before @ after))"
    by (simp add: flow_of_def act remove1_append)
  have "aid \<in> set (fl_claims (flow_of w))" by (simp add: flow_of_def act)
  from step_finish [OF this, of "approvers_of c" consumeOK] rm e(2)
  have "flow_step (approvers_of c) (flow_of w) (flow_of ?w)"
    by (simp add: flow_of_def result_finish_def if_distrib cong: if_cong)
  then show "(flow_step (approvers_of c))\<^sup>*\<^sup>* (flow_of w) (flow_of ?w)" by (rule flow_step_1)
  show "cs_approveCN (cw_server ?w) = cs_approveCN (cw_server w)" using e(1) by (simp add: result_finish_def)
  show "p \<in> set (cw_issued w) \<or> issue_ok sc (approvers_of c) ?w p" if "p \<in> set (cw_issued ?w)" for p
  proof -
    have "issue_ok sc (approvers_of c) ?w (aid, the (approved_intent sc a req), resp)" if consumeOK
    proof -
      from e(3) [OF that] cx obtain i where "approved_intent sc a req = Some i" by auto
      with ok show ?thesis by (auto simp: issue_ok_def snapshot_ok_def)
    qed
    then show ?thesis using that by (auto split: if_splits)
  qed
qed (auto simp: act intro: extends_refl)

lemma world_ok_commit:
  assumes w: "world_ok sc c w" and cx: "cc_now cx = cw_now w" and act: "cw_active w = before @ Deciding cn aid approve ttl # after"
    and h: "decide_commit cx cn aid approve ttl (cw_server w) = (res, s)"
  shows "world_ok sc c (w\<lparr>cw_server := s, cw_active := before @ after,
      cw_approved := (if isl res \<or> \<not> approve then cw_approved w else (aid, cn) # cw_approved w)\<rparr>)" (is "world_ok sc c ?w")
proof (rule world_ok_intro [OF w])
  have ok: "active_ok (approvers_of c) w (Deciding cn aid approve ttl)" using w act by (simp add: world_ok_def)
  from decide_commit_effect(2) [OF h, unfolded cx] obtain res' where
    d: "reg_Decide (fl_now (flow_of w)) aid approve cn ttl (fl_reg (flow_of w)) = (res', cs_registry s)" "isl res' = isl res"
    by (auto simp: flow_of_def)
  have "flow_step (approvers_of c) (flow_of w) (flow_of ?w)"
    using step_decide [OF _ _ d(1), of "approvers_of c"] ok d(2) by (simp add: flow_of_def act cong: if_cong)
  then show "(flow_step (approvers_of c))\<^sup>*\<^sup>* (flow_of w) (flow_of ?w)" by (rule flow_step_1)
  show "cs_approveCN (cw_server ?w) = cs_approveCN (cw_server w)" using decide_commit_effect(1) [OF h] by simp
  show "extends w ?w" by (auto simp: extends_def)
qed (auto simp: act)

lemma world_ok_list:
  assumes w: "world_ok sc c w" and cx: "cc_now cx = cw_now w" and h: "handleApprovalsList cx peer (cw_server w) = (resp, s)"
  shows "world_ok sc c (w\<lparr>cw_server := s\<rparr>)"
proof -
  note e = handleApprovalsList_effect [OF h, unfolded cx]
  have "world_ok sc c (w\<lparr>cw_server := s, cw_active := cw_active w\<rparr>)"
  proof (rule world_ok_registry [OF w])
    show "cs_registry s = cs_registry (cw_server w) \<or>
        flow_step (approvers_of c) (flow_of w) ((flow_of w)\<lparr>fl_reg := cs_registry s\<rparr>)"
      using e(2) step_list [of "flow_of w" _ "cs_registry s"] by (auto simp: flow_of_def)
  qed (use e in auto)
  then show ?thesis by simp
qed

lemma world_ok_tick:
  assumes w: "world_ok sc c w" and "cw_now w \<le> now"
  shows "world_ok sc c (w\<lparr>cw_now := now\<rparr>)"
proof (rule world_ok_intro [OF w])
  have "flow_step (approvers_of c) (flow_of w) (flow_of (w\<lparr>cw_now := now\<rparr>))"
    using step_tick [of "flow_of w" now "approvers_of c"] assms(2) by (simp add: flow_of_def)
  then show "(flow_step (approvers_of c))\<^sup>*\<^sup>* (flow_of w) (flow_of (w\<lparr>cw_now := now\<rparr>))" by (rule flow_step_1)
qed (auto intro: extends_refl)

lemma world_ok_start: "world_ok sc c (cp_start redactor c now)"
  using flow_init [of "approvers_of c" "seconds (cpc_TimeoutSeconds c)" now]
  by (simp add: world_ok_def cp_start_def cp_new_def flow_of_def flow_start_def)

lemma cp_step_ok: "cp_step sc w w' \<Longrightarrow> world_ok sc c w \<Longrightarrow> world_ok sc c w'"
  by (induction rule: cp_step.induct)
    (blast intro: world_ok_tick world_ok_sign world_ok_list world_ok_poll world_ok_claim world_ok_read
      world_ok_forward world_ok_commit world_ok_decide)+

lemma cp_reach_ok: "cp_reach sc c w \<Longrightarrow> world_ok sc c w"
  by (induction rule: cp_reach.induct) (auto intro: world_ok_start cp_step_ok)

section \<open>A run\<close>

text \<open>\<open>b1\<close> asks for a gated command, \<open>boss\<close> approves it, and the poll of \<open>b1\<close> gets the certificate.\<close>

definition run_codec :: ssh_codec where
  "run_codec = sample_codec\<lparr>sc_ParseKey := (\<lambda>s. if s = '''' then None else Some s)\<rparr>"

definition run_config :: cp_Config where
  "run_config = \<lparr>cpc_SignCallers = [], cpc_Notifier = '''', cpc_WebhookURL = '''', cpc_TimeoutSeconds = 120,
     cpc_Callers = [''boss''], cpc_TeamsFormat = '''',
     cpc_Behavior = \<lparr>bc_Mode = '''', bc_RateLimitPerMin = 0, bc_MaxSubjects = 0, bc_SubjectTTLMinutes = 0,
       bc_MaxDistinctPerSubject = 0\<rparr>, cpc_TrustedForwarders = []\<rparr>"

definition run_ctx :: cp_ctx where
  "run_ctx = \<lparr>cc_now = 0, cc_newID = Some ''a1'', cc_codec = run_codec,
     cc_remote = (\<lambda>i. Inr (if in_Approved i then sample_issued else decision_only (Some (approval_info ''r'')))),
     cc_text = (\<lambda>e. ''error''), cc_reg_text = (\<lambda>e. ''error'')\<rparr>"

definition run_pending :: Approval where
  "run_pending = new_approval ''a1'' sample_wire ''b1'' (Some (approval_info ''r'')) 0"

definition run_approved :: Approval where
  "run_approved = run_pending\<lparr>ap_Status := StatusApproved, ap_DecidedBy := ''boss'', ap_DecidedAt := Some 0\<rparr>"

text \<open>The servers of the run, but for their audit entries and notifications.\<close>

definition run_server :: "Approval list \<Rightarrow> Entry list \<Rightarrow> Approval list \<Rightarrow> cp_server" where
  "run_server items audit notified =
     (cp_new None run_config)\<lparr>cs_registry := \<lparr>rg_items = map (\<lambda>a. (''a1'', a)) items, rg_ttl = 120 * second_ns\<rparr>,
       cs_audit := audit, cs_notified := notified\<rparr>"

lemmas run_defs = run_server_def run_pending_def run_approved_def run_ctx_def run_config_def cp_new_def
  new_approval_def approval_info_def sample_wire_def cnSet_def NewBehaviorTracker_def run_codec_def sample_codec_def

lemma run_names: "CallerCN (Some ''b1'') = Some ''b1''" "CallerCN (Some ''boss'') = Some ''boss''"
  by (simp_all add: CallerCN_def byte_def)

lemma run_start: "cp_new None run_config = run_server [] [] []"
  by (simp add: run_defs NewRegistry_def seconds_small second_ns_def Let_def)

lemma run_sign:
  "\<exists>resp al nl. cp_handleSign run_ctx (Some ''b1'') (Some sample_wire) (run_server [] [] []) = (resp, run_server [run_pending] al nl)"
  by (simp add: cp_handleSign_def signCaller_def isSignCaller_def run_names Enabled_def intentFrom_def
      forwardSignResult_def requireApproval_def Create_def Create_purge_def purgeLocked_def Create_insert_def
      decision_only_def auditE_def run_defs Let_def)

lemma run_decide:
  "\<exists>al'. decide_check run_ctx (Some ''boss'') ''application/json'' ''a1'' (Some \<lparr>db_Approve = True, db_Learn = False, db_TTLSeconds = 0\<rparr>)
     (run_server [run_pending] al nl) = (Inr (''boss'', True, 0), run_server [run_pending] al' nl)"
  by (simp add: decide_check_def approver_def run_names reg_Get_def touch_def expireLocked_def run_defs Let_def second_ns_def)

lemma run_commit:
  "\<exists>res al'. decide_commit run_ctx ''boss'' ''a1'' True 0 (run_server [run_pending] al nl) =
     (Inr res, run_server [run_approved] al' nl)"
  by (simp add: decide_commit_def reg_Decide_def touch_def expireLocked_def auditE_def run_defs Let_def second_ns_def)

lemma run_poll:
  "\<exists>al'. result_lookup run_ctx (Some ''b1'') ''a1'' (run_server [run_approved] al nl) =
     (Inr run_approved, run_server [run_approved] al' nl)"
  by (simp add: result_lookup_def signCaller_def isSignCaller_def run_names reg_Get_def touch_def expireLocked_def
      run_defs Let_def second_ns_def)

lemma run_claim:
  "result_claim run_ctx ''a1'' (run_server [run_approved] al nl) =
     (None, run_server [run_approved\<lparr>ap_issuing := True\<rparr>] al nl)"
  by (simp add: result_claim_def BeginConsume_def touch_def expireLocked_def run_defs Let_def second_ns_def)

lemma run_forward:
  "\<exists>resp s. result_forward run_ctx run_approved sample_wire (run_server [run_approved\<lparr>ap_issuing := True\<rparr>] al nl) = ((resp, True), s)"
  by (simp add: result_forward_def approved_intent_def intentFrom_def sample_certificate run_defs Let_def)

lemma run_ctx_fields: "cc_now run_ctx = 0" "cc_codec run_ctx = run_codec" "cc_newID run_ctx = Some ''a1''"
  by (simp_all add: run_ctx_def)

lemma run_reach_approved: "\<exists>w al nl. cp_reach run_codec run_config w \<and> cw_server w = run_server [run_approved] al nl \<and>
    cw_now w = 0 \<and> cw_active w = [] \<and> cw_issued w = [] \<and> get (cw_created w) ''a1'' = Some (''b1'', sample_wire)"
proof -
  note cx = run_ctx_fields
  define w0 where "w0 = cp_start None run_config 0"
  have w0: "cw_server w0 = run_server [] [] []" "cw_now w0 = 0" "cw_created w0 = []" "cw_active w0 = []" "cw_issued w0 = []"
    by (simp_all add: w0_def cp_start_def run_start)
  obtain resp al nl where s: "cp_handleSign run_ctx (Some ''b1'') (Some sample_wire) (cw_server w0) =
      (resp, run_server [run_pending] al nl)" using run_sign w0(1) by metis
  define w1 where "w1 = w0\<lparr>cw_server := run_server [run_pending] al nl,
    cw_created := record_created (cc_newID run_ctx) (run_server [run_pending] al nl) (cw_created w0)\<rparr>"
  have r1: "cp_reach run_codec run_config w1"
    unfolding w1_def by (rule cp_next [OF _ cp_sign [OF _ _ _ s]]) (simp_all add: cx w0, simp add: w0_def cp_init)
  obtain al2 where d: "decide_check run_ctx (Some ''boss'') ''application/json'' ''a1'' (Some \<lparr>db_Approve = True, db_Learn = False, db_TTLSeconds = 0\<rparr>)
      (cw_server w1) = (Inr (''boss'', True, 0), run_server [run_pending] al2 nl)" using run_decide by (auto simp: w1_def)
  define w2 where "w2 = w1\<lparr>cw_server := run_server [run_pending] al2 nl, cw_active := [Deciding ''boss'' ''a1'' True 0]\<rparr>"
  have r2: "cp_reach run_codec run_config w2"
    using cp_next [OF r1 cp_decide [OF _ d]] by (simp add: w2_def cx w1_def w0)
  obtain res al3 where c: "decide_commit run_ctx ''boss'' ''a1'' True 0 (cw_server w2) = (Inr res, run_server [run_approved] al3 nl)"
    using run_commit [of al2 nl] by (auto simp: w2_def)
  define w3 where "w3 = w2\<lparr>cw_server := run_server [run_approved] al3 nl, cw_active := [], cw_approved := (''a1'', ''boss'') # cw_approved w2\<rparr>"
  have r3: "cp_reach run_codec run_config w3"
    using cp_next [OF r2 cp_commit [where before = "[]" and after = "[]", OF _ _ c]] by (simp add: w3_def cx w2_def w1_def w0)
  show ?thesis
    using r3 by (intro exI [of _ w3] exI [of _ al3] exI [of _ nl])
      (simp add: w3_def w2_def w1_def w0 cx record_created_def run_server_def run_pending_def new_approval_def)
qed

lemma run_reach: "\<exists>w resp. cp_reach run_codec run_config w \<and>
    cw_issued w = [(''a1'', the (approved_intent run_codec run_approved sample_wire), resp)] \<and>
    get (cw_created w) ''a1'' = Some (''b1'', sample_wire)"
proof -
  note cx = run_ctx_fields
  obtain w3 al3 nl where r3: "cp_reach run_codec run_config w3" and w3: "cw_server w3 = run_server [run_approved] al3 nl"
    "cw_now w3 = 0" "cw_active w3 = []" "cw_issued w3 = []" "get (cw_created w3) ''a1'' = Some (''b1'', sample_wire)"
    using run_reach_approved by blast
  obtain al4 where p: "result_lookup run_ctx (Some ''b1'') ''a1'' (cw_server w3) = (Inr run_approved, run_server [run_approved] al4 nl)"
    using run_poll by (auto simp: w3)
  define w4 where "w4 = w3\<lparr>cw_server := run_server [run_approved] al4 nl, cw_active := [Polled ''a1'' run_approved]\<rparr>"
  have r4: "cp_reach run_codec run_config w4"
    using cp_next [OF r3 cp_poll [OF _ p]] by (simp add: w4_def cx w3)
  have q: "result_claim run_ctx ''a1'' (cw_server w4) = (None, run_server [run_approved\<lparr>ap_issuing := True\<rparr>] al4 nl)"
    by (simp add: w4_def run_claim)
  define w5 where "w5 = w4\<lparr>cw_server := run_server [run_approved\<lparr>ap_issuing := True\<rparr>] al4 nl, cw_active := [Claimed ''a1'' run_approved]\<rparr>"
  have r5: "cp_reach run_codec run_config w5"
    using cp_next [OF r4 cp_claim [where before = "[]" and after = "[]" and a = run_approved, OF _ _ q]]
    by (simp add: w5_def cx w4_def w3)
  define w6 where "w6 = w5\<lparr>cw_active := [Forwarding ''a1'' run_approved sample_wire]\<rparr>"
  have "result_request ''a1'' (cw_server w5) = sample_wire"
    by (simp add: w5_def result_request_def Request_def run_server_def run_approved_def run_pending_def new_approval_def)
  with cp_next [OF r5 cp_read [where before = "[]" and after = "[]" and aid = "''a1''" and a = run_approved]]
  have r6: "cp_reach run_codec run_config w6" by (simp add: w6_def w5_def)
  obtain resp' s' where f: "result_forward run_ctx run_approved sample_wire (cw_server w6) = ((resp', True), s')"
    using run_forward by (fastforce simp: w6_def w5_def)
  define w7 where "w7 = w6\<lparr>cw_server := result_finish ''a1'' True s', cw_active := [],
      cw_issued := [(''a1'', the (approved_intent run_codec run_approved sample_wire), resp')]\<rparr>"
  have "cp_reach run_codec run_config w7"
    using cp_next [OF r6 cp_forward [where before = "[]" and after = "[]" and aid = "''a1''", OF _ _ _ f]]
    by (simp add: w7_def cx w6_def w5_def w4_def w3)
  then show ?thesis
    by (intro exI [of _ w7] exI [of _ resp']) (simp add: w7_def w6_def w5_def w4_def w3)
qed

section \<open>Properties\<close>

text \<open>
  C19: the control plane implements the approval workflow. Every state its handlers can reach, with
  any interleaving of their critical sections, any answers of the signer and any requests, is a
  state of the workflow, whose approvers are exactly the configured names.
\<close>

theorem control_plane_refines_workflow:
  assumes "cp_reach sc c w"
  shows "flow_reach (set (cnSet (cpc_Callers c))) (seconds (cpc_TimeoutSeconds c)) (flow_of w)"
  using cp_reach_ok [OF assms] by (simp add: world_ok_def)

theorem control_plane_refines_workflow_witness:
  "\<exists>w. flow_reach {''boss''} (120 * second_ns) (flow_of w) \<and> fl_issued (flow_of w) = [''a1'']"
proof -
  obtain w resp where w: "cp_reach run_codec run_config w"
    "cw_issued w = [(''a1'', the (approved_intent run_codec run_approved sample_wire), resp)]"
    using run_reach by blast
  from control_plane_refines_workflow [OF w(1)] w(2) show ?thesis
    by (intro exI [of _ w]) (simp add: run_config_def cnSet_def seconds_small second_ns_def flow_of_def)
qed

text \<open>
  C20: what is issued after approval is what was asked and approved. For every response of
  \<open>handleResult\<close> that carries a result: the identifier's request was recorded with its originator,
  an approver other than the originator approved it, the intent sent to the signer is the one of
  that request on behalf of that originator, marked approved, with at most the learn request of
  that approver added; and no identifier has two such responses.
\<close>

theorem issued_is_approved_request:
  assumes "cp_reach sc c w" and "sc_ParseKey sc '''' = None" and "(aid, i, resp) \<in> set (cw_issued w)"
  shows "distinct (map fst (cw_issued w)) \<and>
     (\<exists>caller req cn i0. get (cw_created w) aid = Some (caller, req) \<and>
        (aid, cn) \<in> set (cw_approved w) \<and> cn \<in> set (cnSet (cpc_Callers c)) \<and> cn \<noteq> caller \<and>
        intentFrom sc req caller True = Some i0 \<and>
        (i = i0 \<or> (\<exists>t. 0 < t \<and> (\<exists>lid. i = i0\<lparr>in_LearnTTLSeconds := quot t second_ns, in_LearnApprover := cn,
           in_LearnApprovalID := lid\<rparr>))))"
proof -
  have ok: "world_ok sc c w" by (rule cp_reach_ok [OF assms(1)])
  then have "distinct (fl_issued (flow_of w))" using flow_reach_ok by (auto simp: world_ok_def flow_ok_def)
  then have "distinct (map fst (cw_issued w))" by (simp add: flow_of_def)
  moreover have zero: "approved_intent sc a zero_request = None" for a
    using assms(2) by (simp add: approved_intent_def intentFrom_def zero_request_def)
  from ok assms(3) obtain a where a: "snapshot_ok (approvers_of c) w aid a" "approved_intent sc a (ap_req a) = Some i"
    by (auto simp: world_ok_def issue_ok_def zero)
  from a(2) obtain i0 where "intentFrom sc (ap_req a) (ap_Caller a) True = Some i0"
      "i = i0 \<or> 0 < ap_LearnTTL a \<and> i = i0\<lparr>in_LearnTTLSeconds := quot (ap_LearnTTL a) second_ns,
         in_LearnApprover := ap_DecidedBy a, in_LearnApprovalID := ap_ID a\<rparr>"
    by (auto simp: approved_intent_def split: if_splits)
  with a(1) have "\<exists>caller req cn i0. get (cw_created w) aid = Some (caller, req) \<and>
        (aid, cn) \<in> set (cw_approved w) \<and> cn \<in> set (cnSet (cpc_Callers c)) \<and> cn \<noteq> caller \<and>
        intentFrom sc req caller True = Some i0 \<and>
        (i = i0 \<or> (\<exists>t. 0 < t \<and> (\<exists>lid. i = i0\<lparr>in_LearnTTLSeconds := quot t second_ns, in_LearnApprover := cn,
           in_LearnApprovalID := lid\<rparr>)))"
    by (intro exI [of _ "ap_Caller a"] exI [of _ "ap_req a"] exI [of _ "ap_DecidedBy a"] exI [of _ i0])
      (auto simp: snapshot_ok_def)
  ultimately show ?thesis by blast
qed

theorem issued_is_approved_request_witness:
  "\<exists>(w :: cp_world) i resp cn. (''a1'', i, resp) \<in> set (cw_issued w) \<and> (''a1'', cn) \<in> set (cw_approved w) \<and> cn \<in> {''boss''} \<and> cn \<noteq> ''b1''"
proof -
  obtain w resp where w: "cp_reach run_codec run_config w"
    "cw_issued w = [(''a1'', the (approved_intent run_codec run_approved sample_wire), resp)]"
    "get (cw_created w) ''a1'' = Some (''b1'', sample_wire)" using run_reach by blast
  have key: "sc_ParseKey run_codec '''' = None" by (simp add: run_codec_def)
  have i: "(''a1'', the (approved_intent run_codec run_approved sample_wire), resp) \<in> set (cw_issued w)" by (simp add: w(2))
  from issued_is_approved_request [OF w(1) key i] w(3)
  obtain cn where cn: "(''a1'', cn) \<in> set (cw_approved w)" "cn \<in> set (cnSet (cpc_Callers run_config))" "cn \<noteq> ''b1''" by auto
  have "set (cnSet (cpc_Callers run_config)) = {''boss''}" by (simp add: run_config_def cnSet_def)
  then show ?thesis
    using i cn by (intro exI [of _ w] exI [of _ "the (approved_intent run_codec run_approved sample_wire)"] exI [of _ resp]
        exI [of _ cn] conjI) simp_all
qed

end
