(* ===== verification/GoJson.thy ===== *)
theory GoJson
  imports GoStrings "HOL-Library.Char_ord" "HOL-Library.List_Lexorder"
begin

text \<open>
  JSON values and the part of \<open>encoding/json\<close> that the sources use to read and write their
  configuration, with the removal of comments of \<open>src/internal/confcheck/confcheck.go\<close>.

  A \<open>json.RawMessage\<close> is the JSON value it holds; white space is not modelled. A number is its
  literal. A nil and an empty slice or map are the same list. The text parser and printer are
  arguments of the definitions that use them.
\<close>

section \<open>Values\<close>

datatype json = JNull | JBool bool | JNum string | JStr string | JArr "json list" | JObj "(string \<times> json) list"

text \<open>A string is written with U+FFFD for each byte that is not UTF-8.\<close>

definition utf8_text :: "string \<Rightarrow> string" where
  "utf8_text s = concat (range_runes s)"

definition json_strings :: "string list \<Rightarrow> json" where
  "json_strings ss = JArr (map (\<lambda>s. JStr (utf8_text s)) ss)"

text \<open>A map is written with its keys in order.\<close>

definition encode_map :: "('v \<Rightarrow> json) \<Rightarrow> (string, 'v) gomap \<Rightarrow> json" where
  "encode_map enc m = JObj (map (\<lambda>(k, v). (utf8_text k, enc v)) (sort_key fst m))"

section \<open>Decoding\<close>

text \<open>A decoder updates the value it is given; \<open>null\<close> leaves it unchanged.\<close>

fun dec_string :: "json \<Rightarrow> string \<Rightarrow> string option" where
  "dec_string JNull s = Some s"
| "dec_string (JStr t) s = Some t"
| "dec_string _ s = None"

fun dec_bool :: "json \<Rightarrow> bool \<Rightarrow> bool option" where
  "dec_bool JNull b = Some b"
| "dec_bool (JBool c) b = Some c"
| "dec_bool _ b = None"

fun dec_number :: "json \<Rightarrow> int \<Rightarrow> int option" where
  "dec_number JNull i = Some i"
| "dec_number (JNum lit) i = Atoi lit"
| "dec_number _ i = None"

fun dec_elems :: "json list \<Rightarrow> string list option" where
  "dec_elems [] = Some []"
| "dec_elems (j # js) =
     (case dec_string j '''' of
        None \<Rightarrow> None
      | Some s \<Rightarrow> (case dec_elems js of None \<Rightarrow> None | Some ss \<Rightarrow> Some (s # ss)))"

fun dec_strings :: "json \<Rightarrow> string list \<Rightarrow> string list option" where
  "dec_strings JNull ss = Some []"
| "dec_strings (JArr js) ss = dec_elems js"
| "dec_strings _ ss = None"

text \<open>Names are compared without regard to case, by the simple folding of Unicode.\<close>

definition upper :: "char \<Rightarrow> char" where
  "upper c = (if 97 \<le> byte c \<and> byte c \<le> 122 then char_of (byte c - 32) else c)"

fun fold_name :: "string \<Rightarrow> string" where
  "fold_name [] = []"
| "fold_name (c # s) =
     (if take 2 (c # s) = [CHR 0xC5, CHR 0xBF] then CHR ''S'' # fold_name (drop 1 s)
      else if take 3 (c # s) = [CHR 0xE2, CHR 0x84, CHR 0xAA] then CHR ''K'' # fold_name (drop 2 s)
      else upper c # fold_name s)"

type_synonym 's json_field = "string \<times> (json \<Rightarrow> 's \<Rightarrow> 's option)"

definition match_field :: "'s json_field list \<Rightarrow> string \<Rightarrow> 's json_field option" where
  "match_field fs k =
     (case find (\<lambda>(n, _). n = k) fs of
        Some f \<Rightarrow> Some f
      | None \<Rightarrow> find (\<lambda>(n, _). fold_name n = fold_name k) fs)"

fun decode_members :: "bool \<Rightarrow> 's json_field list \<Rightarrow> (string \<times> json) list \<Rightarrow> 's \<Rightarrow> 's option" where
  "decode_members strict fs [] s = Some s"
| "decode_members strict fs ((k, j) # ms) s =
     (case match_field fs k of
        None \<Rightarrow> if strict then None else decode_members strict fs ms s
      | Some (_, set_field) \<Rightarrow>
          (case set_field j s of None \<Rightarrow> None | Some s' \<Rightarrow> decode_members strict fs ms s'))"

definition decode_struct :: "bool \<Rightarrow> 's json_field list \<Rightarrow> json \<Rightarrow> 's \<Rightarrow> 's option" where
  "decode_struct strict fs j s =
     (case j of JNull \<Rightarrow> Some s | JObj ms \<Rightarrow> decode_members strict fs ms s | _ \<Rightarrow> None)"

fun decode_entries :: "(json \<Rightarrow> 'v option) \<Rightarrow> (string \<times> json) list \<Rightarrow> (string, 'v) gomap \<Rightarrow> (string, 'v) gomap option" where
  "decode_entries dec [] m = Some m"
| "decode_entries dec ((k, j) # ms) m =
     (case dec j of None \<Rightarrow> None | Some v \<Rightarrow> decode_entries dec ms (put k v m))"

definition decode_map :: "(json \<Rightarrow> 'v option) \<Rightarrow> json \<Rightarrow> (string, 'v) gomap option" where
  "decode_map dec j = (case j of JNull \<Rightarrow> Some [] | JObj ms \<Rightarrow> decode_entries dec ms [] | _ \<Rightarrow> None)"

section \<open>Comments\<close>

definition HasSuffix :: "string \<Rightarrow> string \<Rightarrow> bool" where
  "HasSuffix s p \<longleftrightarrow> length p \<le> length s \<and> drop (length s - length p) s = p"

definition isCommentKey :: "string \<Rightarrow> json \<Rightarrow> bool" where
  "isCommentKey k val =
     (if \<not> HasPrefix k ''_'' \<or> k = ''_default'' then False
      else if HasSuffix k ''_comment'' \<or> HasSuffix k ''_example'' then True
      else case val of JObj _ \<Rightarrow> False | JArr _ \<Rightarrow> False | _ \<Rightarrow> True)"

fun strip :: "json \<Rightarrow> json"
and strip_members :: "(string \<times> json) list \<Rightarrow> (string \<times> json) list"
and strip_list :: "json list \<Rightarrow> json list" where
  "strip (JObj ms) = JObj (strip_members ms)"
| "strip (JArr js) = JArr (strip_list js)"
| "strip v = v"
| "strip_members [] = []"
| "strip_members ((k, val) # ms) =
     (if isCommentKey k val then strip_members ms else (k, strip val) # strip_members ms)"
| "strip_list [] = []"
| "strip_list (j # js) = strip j # strip_list js"

definition StripUnderscoreKeys :: "(string \<Rightarrow> json option) \<Rightarrow> (json \<Rightarrow> string) \<Rightarrow> string \<Rightarrow> string option" where
  "StripUnderscoreKeys parse print raw = (case parse raw of None \<Rightarrow> None | Some v \<Rightarrow> Some (print (strip v)))"

text \<open>\<open>dec strict\<close> decodes into the type of the configuration, rejecting unknown members when strict.\<close>

definition DecodeStrict :: "(string \<Rightarrow> json option) \<Rightarrow> (bool \<Rightarrow> json \<Rightarrow> 'c option) \<Rightarrow> string \<Rightarrow> 'c option" where
  "DecodeStrict parse dec b = (case parse b of None \<Rightarrow> None | Some j \<Rightarrow> dec True j)"

definition Strict :: "(string \<Rightarrow> json option) \<Rightarrow> (json \<Rightarrow> string) \<Rightarrow> (bool \<Rightarrow> json \<Rightarrow> 'c option) \<Rightarrow> string \<Rightarrow> 'c option" where
  "Strict parse print dec raw =
     (case parse raw of
        None \<Rightarrow> None
      | Some j \<Rightarrow>
     (case dec False j of
        None \<Rightarrow> None
      | Some v \<Rightarrow>
     (case StripUnderscoreKeys parse print raw of
        None \<Rightarrow> None
      | Some clean \<Rightarrow> (case DecodeStrict parse dec clean of None \<Rightarrow> None | Some _ \<Rightarrow> Some v))))"

section \<open>Lemmas\<close>

lemma utf8_text_valid [simp]: "valid_utf8 s \<Longrightarrow> utf8_text s = s"
  by (simp add: utf8_text_def concat_range_runes)

lemma dec_elems_strings [simp]: "list_all valid_utf8 ss \<Longrightarrow> dec_elems (map (\<lambda>s. JStr (utf8_text s)) ss) = Some ss"
  by (induction ss) auto

lemma dec_strings_json [simp]: "list_all valid_utf8 ss \<Longrightarrow> dec_strings (json_strings ss) old = Some ss"
  by (simp add: json_strings_def)

lemma decode_entries_get:
  assumes "\<And>k v. (k, v) \<in> set ms \<Longrightarrow> dec (enc v) = Some v" and "distinct (map fst ms)"
  shows "\<exists>m'. decode_entries dec (map (\<lambda>(k, v). (k, enc v)) ms) m = Some m' \<and> (map_ok m \<longrightarrow> map_ok m') \<and>
     get m' = (\<lambda>k. case get ms k of None \<Rightarrow> get m k | Some v \<Rightarrow> Some v)"
  using assms
proof (induction ms arbitrary: m)
  case Nil
  then show ?case by simp
next
  case (Cons kv ms)
  obtain k v where kv: "kv = (k, v)" by fastforce
  have "dec (enc v) = Some v" using Cons.prems(1) [of k v] kv by simp
  moreover have "get ms k = None" using Cons.prems(2) kv by (simp add: map_of_eq_None_iff)
  moreover obtain m' where "decode_entries dec (map (\<lambda>(k, v). (k, enc v)) ms) (put k v m) = Some m'"
    "map_ok (put k v m) \<longrightarrow> map_ok m'" "get m' = (\<lambda>k'. case get ms k' of None \<Rightarrow> get (put k v m) k' | Some v \<Rightarrow> Some v)"
    using Cons.IH [of "put k v m"] Cons.prems by auto
  ultimately show ?case by (auto simp: kv fun_eq_iff split: option.splits)
qed

text \<open>What is written with valid keys is read back, in another order.\<close>

lemma decode_encode_map:
  assumes "map_ok m" and "\<And>k v. (k, v) \<in> set m \<Longrightarrow> valid_utf8 k \<and> dec (enc v) = Some v"
  shows "\<exists>m'. decode_map dec (encode_map enc m) = Some m' \<and> map_ok m' \<and> get m' = get m"
proof -
  let ?ms = "sort_key fst m"
  have k: "map (\<lambda>(k, v). (utf8_text k, enc v)) ?ms = map (\<lambda>(k, v). (k, enc v)) ?ms"
    using assms(2) by (auto intro!: map_cong)
  have d: "distinct (map fst ?ms)" using assms(1) by (simp add: map_ok_def distinct_map inj_on_def)
  have "get ?ms k = get m k" for k
  proof (cases "get m k")
    case None
    then have "get ?ms k = None" by (simp add: map_of_eq_None_iff)
    with None show ?thesis by simp
  next
    case (Some v)
    then have "(k, v) \<in> set ?ms" by (auto dest: map_of_SomeD)
    with d Some show ?thesis by simp
  qed
  moreover obtain m' where "decode_entries dec (map (\<lambda>(k, v). (k, enc v)) ?ms) [] = Some m'" "map_ok m'"
    "get m' = (\<lambda>k. case get ?ms k of None \<Rightarrow> get [] k | Some v \<Rightarrow> Some v)"
    using decode_entries_get [of ?ms dec enc "[]"] assms(2) d by auto
  ultimately show ?thesis unfolding decode_map_def encode_map_def k by (auto simp: fun_eq_iff split: option.splits)
qed

lemma strip_scalar_kind:
  "isCommentKey k (strip v) = isCommentKey k v"
  by (cases v) (auto simp: isCommentKey_def)

lemma strip_idem:
  "strip (strip v) = strip v" "strip_members (strip_members ms) = strip_members ms" "strip_list (strip_list js) = strip_list js"
  by (induction v and ms and js rule: strip_strip_members_strip_list.induct) (auto simp: strip_scalar_kind)

text \<open>Members that are not comments stay, in order; their values are stripped.\<close>

lemma strip_members_exact:
  "strip_members ms = map (\<lambda>(k, v). (k, strip v)) (filter (\<lambda>(k, v). \<not> isCommentKey k v) ms)"
  by (induction ms) auto

end
