(* ===== verification/Notify.thy ===== *)
theory Notify
  imports Control_Plane GoJson "HOL-Library.Multiset"
begin

text \<open>
  What an approver is shown of a pending request: the notifications of
  \<open>src/internal/control/notifier.go\<close> and \<open>src/internal/control/teams.go\<close> and the web page of
  \<open>src/cmd/control-plane/ui.go\<close>.

  A notifier returns what it sends; \<open>post\<close> is the outcome of the HTTP request, a status or \<open>None\<close>. The
  encoding of an approval as JSON, \<open>%q\<close> and the format of times are arguments. The page is given by
  the data of its template.
\<close>

section \<open>Log and webhook\<close>

definition elevation_label :: "Approval \<Rightarrow> string" where
  "elevation_label a = (if ap_Sudo a then ''sudo:'' @ (if ap_SudoUser a = '''' then ''root'' else ap_SudoUser a) else ''none'')"

definition LogNotifier_Notify :: "(string \<Rightarrow> string) \<Rightarrow> Approval \<Rightarrow> string" where
  "LogNotifier_Notify q a =
     ''[approval] PENDING id='' @ ap_ID a @ '' caller='' @ ap_Caller a @ '' user='' @ ap_EndUser a @ '' host='' @ ap_Host a @
     '' cmd='' @ q (ap_Command a) @ '' elevation='' @ elevation_label a @ '' rule='' @ ap_Rule a"

datatype notify_error = SerialisingFailed | PostFailed | WebhookReturned int

definition WebhookNotifier_Notify :: "(Approval \<Rightarrow> json option) \<Rightarrow> (json \<Rightarrow> int option) \<Rightarrow> Approval \<Rightarrow> notify_error option" where
  "WebhookNotifier_Notify marshal post a =
     (case marshal a of
        None \<Rightarrow> Some SerialisingFailed
      | Some body \<Rightarrow>
     (case post body of
        None \<Rightarrow> Some PostFailed
      | Some status \<Rightarrow> if status \<ge> 300 then Some (WebhookReturned status) else None))"

section \<open>Teams\<close>

abbreviation TeamsFormatWorkflow :: string where "TeamsFormatWorkflow \<equiv> ''workflow''"
abbreviation TeamsFormatAdaptiveCard :: string where "TeamsFormatAdaptiveCard \<equiv> ''adaptivecard''"
abbreviation TeamsFormatMessageCard :: string where "TeamsFormatMessageCard \<equiv> ''messagecard''"

record TeamsNotifier =
  tn_url :: string
  tn_format :: string
  tn_approvalURLTemplate :: string

definition NewTeamsNotifier :: "string \<Rightarrow> string \<Rightarrow> string \<Rightarrow> TeamsNotifier" where
  "NewTeamsNotifier url format template =
     \<lparr>tn_url = url, tn_format = (if format = '''' \<or> format = TeamsFormatAdaptiveCard then TeamsFormatWorkflow else format),
      tn_approvalURLTemplate = template\<rparr>"

text \<open>\<open>strings.ReplaceAll\<close> of the placeholder.\<close>

fun replace_id :: "string \<Rightarrow> string \<Rightarrow> string" where
  "replace_id new [] = []"
| "replace_id new (c # s) = (if take 4 (c # s) = ''{id}'' then new @ replace_id new (drop 3 s) else c # replace_id new s)"

definition renderURL :: "TeamsNotifier \<Rightarrow> string \<Rightarrow> string" where
  "renderURL t aid = (if tn_approvalURLTemplate t = '''' then '''' else replace_id aid (tn_approvalURLTemplate t))"

definition status_text :: "Status \<Rightarrow> string" where
  "status_text st = (case st of StatusPending \<Rightarrow> ''pending'' | StatusApproved \<Rightarrow> ''approved'' | StatusDenied \<Rightarrow> ''denied'' | StatusExpired \<Rightarrow> ''expired'')"

abbreviation text_of :: "string \<Rightarrow> json" where
  "text_of s \<equiv> JStr (utf8_text s)"

definition approvalFacts :: "(time \<Rightarrow> string) \<Rightarrow> Approval \<Rightarrow> (string \<times> string) list" where
  "approvalFacts rfc a =
     (let raw = [(''Approval ID'', ap_ID a), (''Status'', status_text (ap_Status a)), (''Created'', rfc (ap_CreatedAt a)),
                 (''Host'', ap_Host a), (''Command'', ap_Command a), (''Caller (broker)'', ap_Caller a)] @
                (if ap_EndUser a \<noteq> '''' then [(''End user'', ap_EndUser a)] else []) @
                (if ap_Sudo a then [(''Elevation'', ''sudo '' @ [CHR 0xE2, CHR 0x86, CHR 0x92] @ '' '' @
                    (if ap_SudoUser a \<noteq> '''' then ap_SudoUser a else ''root''))] else []) @
                (if ap_Rule a \<noteq> '''' then [(''Policy rule'', ap_Rule a)] else [])
      in filter (\<lambda>(k, v). v \<noteq> '''') raw)"

definition facts_json :: "(string \<times> string) list \<Rightarrow> json" where
  "facts_json fs = JArr (map (\<lambda>(k, v). JObj [(''name'', JStr k), (''value'', text_of v)]) fs)"

definition title_text :: string where
  "title_text = ''SSH Broker '' @ [CHR 0xE2, CHR 0x80, CHR 0x94] @ '' Approval Required''"

text \<open>Objects are written with their members in order.\<close>

definition buildAdaptiveCard :: "(time \<Rightarrow> string) \<Rightarrow> TeamsNotifier \<Rightarrow> Approval \<Rightarrow> json" where
  "buildAdaptiveCard rfc t a =
     (let url = renderURL t (ap_ID a) in
      JObj ([(''$schema'', JStr ''http://adaptivecards.io/schemas/adaptive-card.json'')] @
        (if url \<noteq> '''' then [(''actions'', JArr [JObj [(''title'', JStr ''View request''), (''type'', JStr ''Action.OpenUrl''), (''url'', text_of url)]])] else []) @
        [(''body'', JArr [
            JObj [(''color'', JStr ''Warning''), (''size'', JStr ''Medium''), (''text'', JStr title_text), (''type'', JStr ''TextBlock''),
                  (''weight'', JStr ''Bolder''), (''wrap'', JBool True)],
            JObj [(''text'', JStr ''An AI agent action is waiting for human approval before a certificate is issued.''), (''type'', JStr ''TextBlock''),
                  (''wrap'', JBool True)],
            JObj [(''facts'', facts_json (approvalFacts rfc a)), (''type'', JStr ''FactSet'')]]),
         (''type'', JStr ''AdaptiveCard''), (''version'', JStr ''1.4'')]))"

definition buildWorkflowEnvelope :: "(time \<Rightarrow> string) \<Rightarrow> TeamsNotifier \<Rightarrow> Approval \<Rightarrow> json" where
  "buildWorkflowEnvelope rfc t a =
     JObj [(''attachments'', JArr [JObj [(''content'', buildAdaptiveCard rfc t a),
              (''contentType'', JStr ''application/vnd.microsoft.card.adaptive''), (''contentUrl'', JNull)]]),
           (''type'', JStr ''message'')]"

definition buildMessageCard :: "(time \<Rightarrow> string) \<Rightarrow> TeamsNotifier \<Rightarrow> Approval \<Rightarrow> json" where
  "buildMessageCard rfc t a =
     (let url = renderURL t (ap_ID a) in
      JObj ([(''@context'', JStr ''http://schema.org/extensions''), (''@type'', JStr ''MessageCard'')] @
        (if url \<noteq> '''' then [(''potentialAction'', JArr [JObj [(''@type'', JStr ''OpenUri''), (''name'', JStr ''View request''),
             (''targets'', JArr [JObj [(''os'', JStr ''default''), (''uri'', text_of url)]])]])] else []) @
        [(''sections'', JArr [JObj [(''activitySubtitle'', JStr ''An AI agent action is waiting for human approval.''),
             (''activityTitle'', JStr title_text), (''facts'', facts_json (approvalFacts rfc a)), (''markdown'', JBool False)]]),
         (''summary'', text_of (''Approval required: '' @ ap_Command a @ '' on '' @ ap_Host a)), (''themeColor'', JStr ''FFA500'')]))"

definition teams_payload :: "(time \<Rightarrow> string) \<Rightarrow> TeamsNotifier \<Rightarrow> Approval \<Rightarrow> json" where
  "teams_payload rfc t a = (if tn_format t = TeamsFormatMessageCard then buildMessageCard rfc t a else buildWorkflowEnvelope rfc t a)"

definition TeamsNotifier_Notify :: "(time \<Rightarrow> string) \<Rightarrow> (json \<Rightarrow> int option) \<Rightarrow> TeamsNotifier \<Rightarrow> Approval \<Rightarrow> notify_error option" where
  "TeamsNotifier_Notify rfc post t a =
     (case post (teams_payload rfc t a) of
        None \<Rightarrow> Some PostFailed
      | Some status \<Rightarrow> if status \<ge> 300 then Some (WebhookReturned status) else None)"

section \<open>The web page\<close>

text \<open>Pending requests first, then newest first; the library's sort leaves the order of ties open.\<close>

definition ui_before :: "Approval \<Rightarrow> Approval \<Rightarrow> bool" where
  "ui_before a b =
     (if (ap_Status a = StatusPending) \<noteq> (ap_Status b = StatusPending) then ap_Status a = StatusPending
      else ap_CreatedAt b < ap_CreatedAt a)"

definition ui_sort :: "Approval list \<Rightarrow> Approval list" where
  "ui_sort as = sort_key (\<lambda>a. - ap_CreatedAt a) (filter (\<lambda>a. ap_Status a = StatusPending) as) @
     sort_key (\<lambda>a. - ap_CreatedAt a) (filter (\<lambda>a. ap_Status a \<noteq> StatusPending) as)"

definition handleUIList :: "cp_ctx \<Rightarrow> string option \<Rightarrow> cp_server \<Rightarrow> (http_response + Approval list) \<times> cp_server" where
  "handleUIList cx peer s =
     (case approver peer s of
        None \<Rightarrow> (Inl (text_response 403 ''not authorised''), s)
      | Some _ \<Rightarrow>
          (case reg_List (cc_now cx) (cs_registry s) of (l, r) \<Rightarrow> (Inr (ui_sort l), s\<lparr>cs_registry := r\<rparr>)))"

definition handleUIDetail :: "cp_ctx \<Rightarrow> string option \<Rightarrow> string \<Rightarrow> cp_server \<Rightarrow> (http_response + Approval \<times> bool) \<times> cp_server" where
  "handleUIDetail cx peer aid s =
     (case approver peer s of
        None \<Rightarrow> (Inl (text_response 403 ''not authorised''), s)
      | Some _ \<Rightarrow>
          (case reg_Get (cc_now cx) aid (cs_registry s) of
             (None, r) \<Rightarrow> (Inl (text_response 404 ''approval not found''), s\<lparr>cs_registry := r\<rparr>)
           | (Some a, r) \<Rightarrow> (Inr (a, ap_Status a = StatusPending), s\<lparr>cs_registry := r\<rparr>)))"


section \<open>What the approver sees\<close>

fun occurs :: "json \<Rightarrow> json \<Rightarrow> bool"
and occurs_members :: "json \<Rightarrow> (string \<times> json) list \<Rightarrow> bool"
and occurs_elems :: "json \<Rightarrow> json list \<Rightarrow> bool" where
  "occurs x (JObj ms) \<longleftrightarrow> x = JObj ms \<or> occurs_members x ms"
| "occurs x (JArr js) \<longleftrightarrow> x = JArr js \<or> occurs_elems x js"
| "occurs x j \<longleftrightarrow> x = j"
| "occurs_members x [] \<longleftrightarrow> False"
| "occurs_members x ((k, j) # ms) \<longleftrightarrow> occurs x j \<or> occurs_members x ms"
| "occurs_elems x [] \<longleftrightarrow> False"
| "occurs_elems x (j # js) \<longleftrightarrow> occurs x j \<or> occurs_elems x js"

lemma occurs_members_append [simp]: "occurs_members x (a @ b) \<longleftrightarrow> occurs_members x a \<or> occurs_members x b"
  by (induction a) auto

lemma occurs_refl [simp]: "occurs j j"
  by (cases j) simp_all

text \<open>The value of a fact that is only listed when it is not empty.\<close>

definition shown :: "string \<Rightarrow> string option" where
  "shown v = (if v = '''' then None else Some v)"

abbreviation nonempty_facts :: "(string \<times> string) list \<Rightarrow> (string \<times> string) list" where
  "nonempty_facts \<equiv> filter (\<lambda>(k, v). v \<noteq> '''')"

lemma fact_steps:
  "get (nonempty_facts ((k, v) # rest)) x = (if x = k \<and> v \<noteq> '''' then Some v else get (nonempty_facts rest) x)"
  "get (nonempty_facts ((if c then [(k, v)] else []) @ rest)) x = (if x = k \<and> c \<and> v \<noteq> '''' then Some v else get (nonempty_facts rest) x)"
  "get (nonempty_facts (if c then [(k, v)] else [])) x = (if x = k \<and> c \<and> v \<noteq> '''' then Some v else None)"
  by auto

text \<open>
  A Teams notification tells the approver what a certificate would be for, and nothing that is
  private. In either format the card has the list of facts; the host, the command and the caller are
  in it, the end user when there is one, and the elevation exactly when the command would run under
  \<open>sudo\<close>, with the account; and the stored request does not influence what is sent.
\<close>

theorem teams_shows_request:
  "let facts = approvalFacts rfc a in
   occurs (facts_json facts) (teams_payload rfc t a) \<and> get facts ''Host'' = shown (ap_Host a) \<and> get facts ''Command'' = shown (ap_Command a) \<and>
   get facts ''Caller (broker)'' = shown (ap_Caller a) \<and> get facts ''End user'' = shown (ap_EndUser a) \<and>
   get facts ''Elevation'' = (if ap_Sudo a then Some (''sudo '' @ [CHR 0xE2, CHR 0x86, CHR 0x92] @ '' '' @
     (if ap_SudoUser a = '''' then ''root'' else ap_SudoUser a)) else None) \<and>
   (\<forall>r. teams_payload rfc t (a\<lparr>ap_req := r\<rparr>) = teams_payload rfc t a)"
proof -
  have "get (approvalFacts rfc a) ''Host'' = shown (ap_Host a)" "get (approvalFacts rfc a) ''Command'' = shown (ap_Command a)"
    "get (approvalFacts rfc a) ''Caller (broker)'' = shown (ap_Caller a)" "get (approvalFacts rfc a) ''End user'' = shown (ap_EndUser a)"
    "get (approvalFacts rfc a) ''Elevation'' = (if ap_Sudo a then Some (''sudo '' @ [CHR 0xE2, CHR 0x86, CHR 0x92] @ '' '' @
      (if ap_SudoUser a = '''' then ''root'' else ap_SudoUser a)) else None)"
    unfolding approvalFacts_def Let_def append.simps fact_steps by (simp_all add: shown_def)
  moreover have "occurs (facts_json (approvalFacts rfc a)) (teams_payload rfc t a)"
    by (simp add: teams_payload_def buildMessageCard_def buildWorkflowEnvelope_def buildAdaptiveCard_def Let_def)
  moreover have "teams_payload rfc t (a\<lparr>ap_req := r\<rparr>) = teams_payload rfc t a" for r
  proof -
    let ?b = "a\<lparr>ap_req := r\<rparr>"
    have sel: "ap_ID ?b = ap_ID a" "ap_Status ?b = ap_Status a" "ap_CreatedAt ?b = ap_CreatedAt a" "ap_Host ?b = ap_Host a"
      "ap_Command ?b = ap_Command a" "ap_Caller ?b = ap_Caller a" "ap_EndUser ?b = ap_EndUser a" "ap_Sudo ?b = ap_Sudo a"
      "ap_SudoUser ?b = ap_SudoUser a" "ap_Rule ?b = ap_Rule a" by simp_all
    have "approvalFacts rfc ?b = approvalFacts rfc a" unfolding approvalFacts_def sel ..
    then show ?thesis unfolding teams_payload_def buildMessageCard_def buildWorkflowEnvelope_def buildAdaptiveCard_def sel by simp
  qed
  ultimately show ?thesis by (simp add: Let_def)
qed

text \<open>The list on the page is the registry's, in the order of the comparison.\<close>

theorem ui_list_ordered:
  "mset (ui_sort as) = mset as \<and> sorted_wrt (\<lambda>a b. \<not> ui_before b a) (ui_sort as)"
proof
  show "mset (ui_sort as) = mset as" by (simp add: ui_sort_def)
  have "sorted_wrt (\<lambda>a b. - ap_CreatedAt a \<le> - ap_CreatedAt b) (sort_key (\<lambda>a. - ap_CreatedAt a) xs)" for xs
    using sorted_sort_key [of "\<lambda>a. - ap_CreatedAt a" xs] by (simp add: sorted_map)
  then have s: "sorted_wrt (\<lambda>a b. \<not> ui_before b a) (sort_key (\<lambda>a. - ap_CreatedAt a) (filter P as))"
    if "\<And>a b. P a \<Longrightarrow> P b \<Longrightarrow> (ap_Status a = StatusPending) = (ap_Status b = StatusPending)" for P
    by (rule sorted_wrt_mono_rel [rotated]) (use that in \<open>auto simp: ui_before_def\<close>)
  show "sorted_wrt (\<lambda>a b. \<not> ui_before b a) (ui_sort as)"
    unfolding ui_sort_def sorted_wrt_append by (intro conjI s) (auto simp: ui_before_def)
qed

end
