(* ===== verification/Control_Service.thy ===== *)
theory Control_Service
  imports Control_Flow Notify Service_Start GoMux
begin

text \<open>
  The control plane as a process, \<open>src/cmd/control-plane/main.go\<close>: the loading of its
  configuration, its start with the choice of the notifier, the gauge of pending requests, and
  the routes of its multiplexer composed with the handlers of \<open>Control_Plane\<close> and \<open>Notify\<close>.
\<close>

section \<open>Start\<close>

datatype notifier = LogSink | WebhookSink string | TeamsSink TeamsNotifier

record cp_start_env =
  ce_config :: "cp_Config option"
  ce_ApprovalURLTemplate :: string
  ce_url :: "string \<Rightarrow> (string \<times> string) option"
  ce_ip :: "string \<Rightarrow> bool option"
  ce_tls :: tls_lib
  ce_signer_files :: "string \<times> string \<times> string"
  ce_server_files :: "string \<times> string \<times> string"
  ce_seed :: "string option"
  ce_audit_ok :: bool
  ce_audit_fs :: audit_fs
  ce_redact :: "redact_Config option"

record cp_proc =
  cq_server :: cp_server
  cq_notifier :: notifier
  cq_log :: Log
  cq_signer_tls :: tls_config
  cq_tls :: tls_config

definition cp_loadConfig ::
    "(string \<Rightarrow> (string \<times> string) option) \<Rightarrow> (string \<Rightarrow> bool option) \<Rightarrow> cp_Config option \<Rightarrow> cp_Config option" where
  "cp_loadConfig url ip decoded =
     (case decoded of None \<Rightarrow> None | Some c \<Rightarrow> (case validateConfig url ip c of Some _ \<Rightarrow> None | None \<Rightarrow> Some c))"

definition choose_notifier :: "cp_Config \<Rightarrow> string \<Rightarrow> start_error + notifier" where
  "choose_notifier c template =
     (if cpc_Notifier c = '''' \<or> cpc_Notifier c = ''log'' then Inr LogSink
      else if cpc_Notifier c = ''webhook'' then
        (if cpc_WebhookURL c = '''' then Inl (StartNotifier ''notifier=webhook requires webhook_url'')
         else Inr (WebhookSink (cpc_WebhookURL c)))
      else if cpc_Notifier c = ''teams'' then
        (if cpc_WebhookURL c = '''' then Inl (StartNotifier ''notifier=teams requires webhook_url'')
         else Inr (TeamsSink (NewTeamsNotifier (cpc_WebhookURL c) (cpc_TeamsFormat c) template)))
      else Inl (StartNotifier ''invalid approval.notifier''))"

definition cp_main ::
    "(string \<Rightarrow> audit_codec) \<Rightarrow> regexp_lib \<Rightarrow> cp_start_env \<Rightarrow> start_error + cp_proc" where
  "cp_main codec rx st =
     (case cp_loadConfig (ce_url st) (ce_ip st) (ce_config st) of
        None \<Rightarrow> Inl StartConfig
      | Some c \<Rightarrow>
     (case (case ce_signer_files st of (crt, key, ca) \<Rightarrow> ClientTLSConfig (ce_tls st) crt key ca) of
        Inl e \<Rightarrow> Inl (StartTLS e)
      | Inr signerTLS \<Rightarrow>
     (case audit_start codec rx (ce_seed st) (ce_audit_ok st) (ce_audit_fs st) (ce_redact st) of
        Inl e \<Rightarrow> Inl e
      | Inr (lg, _, rules) \<Rightarrow>
     (case choose_notifier c (ce_ApprovalURLTemplate st) of
        Inl e \<Rightarrow> Inl e
      | Inr nf \<Rightarrow>
     (case (case ce_server_files st of (crt, key, ca) \<Rightarrow> ServerTLSConfig (ce_tls st) crt key ca) of
        Inl e \<Rightarrow> Inl (StartTLS e)
      | Inr tc \<Rightarrow>
          Inr \<lparr>cq_server = cp_new (map_option (\<lambda>r. Redact rx (Some r)) rules) c, cq_notifier = nf, cq_log = lg,
               cq_signer_tls = signerTLS, cq_tls = tc\<rparr>)))))"

text \<open>The gauge lists the registry, which purges and expires entries, and counts the pending ones.\<close>

definition pending_gauge :: "time \<Rightarrow> cp_server \<Rightarrow> nat \<times> cp_server" where
  "pending_gauge now s =
     (case reg_List now (cs_registry s) of
        (as, r) \<Rightarrow> (length (filter (\<lambda>a. ap_Status a = StatusPending) as), s\<lparr>cs_registry := r\<rparr>))"

section \<open>Routes\<close>

datatype cp_route =
    CpSign | CpHosts | CpResult | CpApprovals | CpDecide | CpUIList | CpUIDetail

definition cp_mux :: "cp_route mux" where
  "cp_mux =
     [(''POST /v1/sign'', CpSign),
      (''GET /v1/hosts'', CpHosts),
      (''GET /v1/sign/result/{id}'', CpResult),
      (''GET /v1/approvals'', CpApprovals),
      (''POST /v1/approvals/{id}'', CpDecide),
      (''GET /ui/approvals'', CpUIList),
      (''GET /ui/approvals/{id}'', CpUIDetail)]"

record cp_request =
  cr_method :: string
  cr_path :: "string list"
  cr_peer :: "string option"
  cr_contentType :: string
  cr_sign :: "WireRequest option"
  cr_decide :: "decide_body option"

datatype cp_reply =
    CpReply http_response
  | CpReplyApprovals "Approval list"
  | CpReplyApproval Approval
  | CpPage "Approval list"
  | CpDetailPage "Approval \<times> bool"

fun cp_reply_sum :: "(http_response + 'a) \<times> cp_server \<Rightarrow> ('a \<Rightarrow> cp_reply) \<Rightarrow> cp_reply \<times> cp_server" where
  "cp_reply_sum (Inl r, s) f = (CpReply r, s)"
| "cp_reply_sum (Inr x, s) f = (f x, s)"

definition id_param :: "(string \<times> string) list \<Rightarrow> string" where
  "id_param ps = (case get ps ''id'' of None \<Rightarrow> '''' | Some v \<Rightarrow> v)"

definition cp_handle ::
    "cp_ctx \<Rightarrow> (string \<Rightarrow> transport) \<Rightarrow> cp_request \<Rightarrow> cp_route \<Rightarrow> (string \<times> string) list \<Rightarrow> cp_server \<Rightarrow>
     cp_reply \<times> cp_server" where
  "cp_handle cx fetch rq h ps s =
     (let reply = (\<lambda>(r, s). (CpReply r, s)); aid = id_param ps in
      case h of
        CpSign \<Rightarrow> reply (cp_handleSign cx (cr_peer rq) (cr_sign rq) s)
      | CpHosts \<Rightarrow> (CpReply (cp_handleHosts cx fetch (cr_peer rq) s), s)
      | CpResult \<Rightarrow> reply (handleResult cx (cr_peer rq) aid s)
      | CpApprovals \<Rightarrow> cp_reply_sum (handleApprovalsList cx (cr_peer rq) s) CpReplyApprovals
      | CpDecide \<Rightarrow> cp_reply_sum (handleApprovalDecide cx (cr_peer rq) (cr_contentType rq) aid (cr_decide rq) s) CpReplyApproval
      | CpUIList \<Rightarrow> cp_reply_sum (handleUIList cx (cr_peer rq) s) CpPage
      | CpUIDetail \<Rightarrow> cp_reply_sum (handleUIDetail cx (cr_peer rq) aid s) CpDetailPage)"

definition cp_serve ::
    "cp_ctx \<Rightarrow> (string \<Rightarrow> transport) \<Rightarrow> cp_request \<Rightarrow> cp_server \<Rightarrow> cp_reply \<times> cp_server" where
  "cp_serve cx fetch rq s =
     (case serve_mux cp_mux (cr_method rq) (cr_path rq) of
        NotFound \<Rightarrow> (CpReply (text_response 404 ''404 page not found''), s)
      | MethodNotAllowed \<Rightarrow> (CpReply (text_response 405 ''Method Not Allowed''), s)
      | Handler h ps \<Rightarrow> cp_handle cx fetch rq h ps s)"

section \<open>The notifier of a started process\<close>

lemma cp_loadConfig_valid:
  "cp_loadConfig url ip d = Some c \<Longrightarrow> d = Some c \<and> validateConfig url ip c = None"
  by (simp add: cp_loadConfig_def split: option.splits)

text \<open>The default branch of the choice is dead: the configuration was checked before.\<close>

lemma choose_notifier_valid:
  assumes "validateConfig url ip c = None"
  shows "choose_notifier c t \<noteq> Inl (StartNotifier ''invalid approval.notifier'')"
  using assms by (auto simp: validateConfig_def choose_notifier_def split: if_splits)

fun sink_url :: "notifier \<Rightarrow> string option" where
  "sink_url LogSink = None"
| "sink_url (WebhookSink u) = Some u"
| "sink_url (TeamsSink t) = Some (tn_url t)"

lemma choose_notifier_url:
  assumes "validateConfig url ip c = None" and "choose_notifier c t = Inr nf" and "sink_url nf = Some u"
  shows "\<exists>scheme host. url u = Some (scheme, host) \<and>
     (scheme = ''https'' \<or> scheme = ''http'' \<and> isLoopbackHost ip host)"
proof -
  have u: "cpc_WebhookURL c = u" "u \<noteq> ''''" "cpc_Notifier c = ''webhook'' \<or> cpc_Notifier c = ''teams''"
    using assms(2,3) by (auto simp: choose_notifier_def NewTeamsNotifier_def split: if_splits)
  with assms(1) show ?thesis by (auto simp: validateConfig_def split: if_splits option.splits)
qed

lemma cp_main_notifier:
  assumes "cp_main codec rx st = Inr p" and "sink_url (cq_notifier p) = Some u"
  shows "\<exists>scheme host. ce_url st u = Some (scheme, host) \<and>
     (scheme = ''https'' \<or> scheme = ''http'' \<and> isLoopbackHost (ce_ip st) host)"
proof -
  from assms(1) obtain c where c: "cp_loadConfig (ce_url st) (ce_ip st) (ce_config st) = Some c"
      and n: "choose_notifier c (ce_ApprovalURLTemplate st) = Inr (cq_notifier p)"
    by (fastforce simp: cp_main_def split: option.splits sum.splits prod.splits)
  from choose_notifier_url [OF _ n assms(2)] cp_loadConfig_valid [OF c] show ?thesis by blast
qed

section \<open>Separation of the roles\<close>

text \<open>The identifiers of the approved requests.\<close>

definition approved_ids :: "cp_server \<Rightarrow> string set" where
  "approved_ids s = {aid. \<exists>a. (aid, a) \<in> set (rg_items (cs_registry s)) \<and> ap_Status a = StatusApproved}"

definition reg_approved :: "Registry \<Rightarrow> string set" where
  "reg_approved r = {aid. \<exists>a. (aid, a) \<in> set (rg_items r) \<and> ap_Status a = StatusApproved}"

lemma approved_ids_reg: "approved_ids s = reg_approved (cs_registry s)"
  by (simp add: approved_ids_def reg_approved_def)

lemma reg_approved_put:
  assumes "ap_Status a = StatusApproved \<Longrightarrow> aid \<in> reg_approved r"
  shows "reg_approved (r\<lparr>rg_items := put aid a (rg_items r)\<rparr>) \<subseteq> reg_approved r"
  using set_put_subset [of aid a "rg_items r"] assms by (fastforce simp: reg_approved_def)

lemma expireLocked_approved: "ap_Status (expireLocked ttl now a) = StatusApproved \<Longrightarrow> ap_Status a = StatusApproved"
  by (auto simp: expireLocked_def Let_def split: Status.splits if_splits)

lemma reg_approved_touch:
  assumes "touch now aid r = Some (a, r')"
  shows "reg_approved r' \<subseteq> reg_approved r" and "(aid, a) \<in> set (rg_items r')"
    and "ap_Status a = StatusApproved \<Longrightarrow> aid \<in> reg_approved r"
proof -
  from assms obtain a0 where a0: "get (rg_items r) aid = Some a0" "a = expireLocked (rg_ttl r) now a0"
      "r' = r\<lparr>rg_items := put aid a (rg_items r)\<rparr>"
    by (auto simp: touch_def Let_def split: option.splits)
  have mem: "(aid, a0) \<in> set (rg_items r)" using a0(1) by (rule map_of_SomeD)
  show st: "ap_Status a = StatusApproved \<Longrightarrow> aid \<in> reg_approved r"
    using mem expireLocked_approved a0(2) by (auto simp: reg_approved_def)
  show "reg_approved r' \<subseteq> reg_approved r" unfolding a0(3) by (rule reg_approved_put) (rule st)
  have "get (rg_items r') aid = Some a" by (simp add: a0(3) update_conv)
  then show "(aid, a) \<in> set (rg_items r')" by (rule map_of_SomeD)
qed

lemma reg_approved_ops:
  "reg_approved (snd (reg_Get now aid r)) \<subseteq> reg_approved r"
  "reg_approved (snd (BeginConsume now aid r)) \<subseteq> reg_approved r"
  "reg_approved (FinishConsume aid ok r) \<subseteq> reg_approved r"
  "reg_approved (Create_purge now r) \<subseteq> reg_approved r"
  "reg_approved (snd (reg_List now r)) \<subseteq> reg_approved r"
proof -
  show "reg_approved (snd (reg_Get now aid r)) \<subseteq> reg_approved r"
    using reg_approved_touch(1) by (fastforce simp: reg_Get_def split: option.splits)
  show "reg_approved (snd (BeginConsume now aid r)) \<subseteq> reg_approved r"
  proof (cases "touch now aid r")
    case (Some p)
    obtain a r' where p: "p = (a, r')" by (cases p)
    note t = reg_approved_touch [OF Some [unfolded p]]
    have "reg_approved (r'\<lparr>rg_items := put aid (a\<lparr>ap_issuing := True\<rparr>) (rg_items r')\<rparr>) \<subseteq> reg_approved r'"
      by (rule reg_approved_put) (use t(2) in \<open>auto simp: reg_approved_def\<close>)
    with t(1) show ?thesis by (simp add: BeginConsume_def Some p) blast
  qed (simp add: BeginConsume_def)
  show "reg_approved (FinishConsume aid ok r) \<subseteq> reg_approved r"
  proof (cases "get (rg_items r) aid")
    case (Some a)
    have "reg_approved (r\<lparr>rg_items := put aid b (rg_items r)\<rparr>) \<subseteq> reg_approved r" if "ap_Status b = ap_Status a" for b
      by (rule reg_approved_put) (use that Some in \<open>auto simp: reg_approved_def dest: map_of_SomeD\<close>)
    then show ?thesis by (simp add: FinishConsume_def Some Let_def)
  qed (simp add: FinishConsume_def)
  show "reg_approved (Create_purge now r) \<subseteq> reg_approved r"
    by (auto simp: reg_approved_def Create_purge_def purgeLocked_def)
  show "reg_approved (snd (reg_List now r)) \<subseteq> reg_approved r"
    by (auto simp: reg_approved_def reg_List_def purgeLocked_def Let_def dest: expireLocked_approved)
qed

lemma registry_effect_approved:
  assumes "registry_effect cx cn s s'"
  shows "approved_ids s' \<subseteq> approved_ids s"
proof -
  have "reg_approved (Create_insert aid (new_approval aid req cn dec now) r) \<subseteq> reg_approved r" for aid req dec now r
    unfolding Create_insert_def by (rule reg_approved_put) (simp add: new_approval_def)
  with reg_approved_ops(4) assms show ?thesis
    unfolding approved_ids_reg registry_effect_def by (elim conjE disjE exE) (auto, blast)
qed

lemma handleResult_approved: "approved_ids (snd (handleResult cx peer aid s)) \<subseteq> approved_ids s"
proof -
  have look: "approved_ids (snd (result_lookup cx peer aid s)) \<subseteq> approved_ids s"
    using reg_approved_ops(1) [of "cc_now cx" aid "cs_registry s"]
    by (auto simp: result_lookup_def approved_ids_reg auditE_def Let_def split: sum.splits prod.splits option.splits Status.splits)
  have claim: "approved_ids (snd (result_claim cx aid s)) \<subseteq> approved_ids s" for s
    using reg_approved_ops(2) [of "cc_now cx" aid "cs_registry s"]
    by (auto simp: result_claim_def approved_ids_reg split: prod.splits)
  have fwd: "approved_ids (snd (result_forward cx a req s)) = approved_ids s" for a req s
    by (simp add: result_forward_def approved_ids_reg auditE_def learnBehaviorApproval_def Let_def split: option.split sum.split)
  have fin: "approved_ids (result_finish aid ok s) \<subseteq> approved_ids s" for ok s
    using reg_approved_ops(3) [of aid ok "cs_registry s"] by (simp add: result_finish_def approved_ids_reg)
  obtain r1 s1 where 1: "result_lookup cx peer aid s = (r1, s1)" by fastforce
  obtain r2 s2 where 2: "result_claim cx aid s1 = (r2, s2)" by fastforce
  obtain r3 ok s3 where 3: "result_forward cx (projr r1) (result_request aid s2) s2 = ((r3, ok), s3)"
    by (metis surj_pair)
  have c: "approved_ids s1 \<subseteq> approved_ids s" "approved_ids s2 \<subseteq> approved_ids s1" "approved_ids s3 = approved_ids s2"
    "approved_ids (result_finish aid ok s3) \<subseteq> approved_ids s3"
    using look claim [of s1] fwd [of "projr r1" "result_request aid s2" s2] fin [of ok s3] by (simp_all add: 1 2 3)
  then show ?thesis by (cases r1; cases r2) (use 3 in \<open>auto simp: handleResult_def 1 2\<close>)
qed

lemma approval_pages_approved:
  "approved_ids (snd (handleApprovalsList cx peer s)) \<subseteq> approved_ids s"
  "approved_ids (snd (handleUIList cx peer s)) \<subseteq> approved_ids s"
  "approved_ids (snd (handleUIDetail cx peer aid s)) \<subseteq> approved_ids s"
  using reg_approved_ops(5) [of "cc_now cx" "cs_registry s"] reg_approved_ops(1) [of "cc_now cx" aid "cs_registry s"]
  by (auto simp: handleApprovalsList_def handleUIList_def handleUIDetail_def approved_ids_reg
      split: option.splits prod.splits)

lemma decide_not_approver:
  "approver peer s = None \<Longrightarrow> snd (handleApprovalDecide cx peer ct aid b s) = s"
  by (simp add: handleApprovalDecide_def decide_check_def)

lemma snd_cp_reply_sum [simp]: "snd (cp_reply_sum p f) = snd p"
  by (cases "(p, f)" rule: cp_reply_sum.cases) simp_all

lemma cp_serve_approved:
  assumes "approver (cr_peer rq) s = None"
  shows "approved_ids (snd (cp_serve cx fetch rq s)) \<subseteq> approved_ids s"
proof -
  have sign: "approved_ids (snd (cp_handleSign cx (cr_peer rq) b s)) \<subseteq> approved_ids s" for b
    using cp_handleSign_effect registry_effect_approved by blast
  show ?thesis
    using sign handleResult_approved approval_pages_approved
    by (simp add: cp_serve_def cp_handle_def Let_def case_prod_unfold decide_not_approver [OF assms]
        split: mux_result.split cp_route.split)
qed

definition may_sign :: "string option \<Rightarrow> cp_server \<Rightarrow> bool" where
  "may_sign peer s = (case CallerCN peer of None \<Rightarrow> False | Some cn \<Rightarrow> isSignCaller cn s)"

lemma not_may_sign:
  assumes "\<not> may_sign peer s"
  obtains resp where "signCaller peer s = Inl resp" and "rs_status resp \<in> {401, 403}"
  using assms by (auto simp: may_sign_def signCaller_def split: option.splits)

lemma decide_independent:
  "handleApprovalDecide (cx\<lparr>cc_remote := r\<rparr>) peer ct aid b s = handleApprovalDecide cx peer ct aid b s"
  "handleApprovalsList (cx\<lparr>cc_remote := r\<rparr>) peer s = handleApprovalsList cx peer s"
  "handleUIList (cx\<lparr>cc_remote := r\<rparr>) peer s = handleUIList cx peer s"
  "handleUIDetail (cx\<lparr>cc_remote := r\<rparr>) peer aid s = handleUIDetail cx peer aid s"
proof -
  have cx: "cc_now (cx\<lparr>cc_remote := r\<rparr>) = cc_now cx" "cc_reg_text (cx\<lparr>cc_remote := r\<rparr>) = cc_reg_text cx" by simp_all
  show "handleApprovalDecide (cx\<lparr>cc_remote := r\<rparr>) peer ct aid b s = handleApprovalDecide cx peer ct aid b s"
    "handleApprovalsList (cx\<lparr>cc_remote := r\<rparr>) peer s = handleApprovalsList cx peer s"
    "handleUIList (cx\<lparr>cc_remote := r\<rparr>) peer s = handleUIList cx peer s"
    "handleUIDetail (cx\<lparr>cc_remote := r\<rparr>) peer aid s = handleUIDetail cx peer aid s"
    unfolding handleApprovalDecide_def decide_check_def decide_commit_def handleApprovalsList_def handleUIList_def
      handleUIDetail_def cx by (rule refl)+
qed

lemma cp_serve_independent:
  assumes "\<not> may_sign (cr_peer rq) s"
  shows "cp_serve (cx\<lparr>cc_remote := r\<rparr>) fetch' rq s = cp_serve cx fetch rq s"
proof -
  obtain resp where r: "signCaller (cr_peer rq) s = Inl resp" using assms by (rule not_may_sign)
  show ?thesis
    by (simp add: cp_serve_def cp_handle_def Let_def decide_independent cp_handleSign_def cp_handleHosts_def
        handleResult_def result_lookup_def r split: mux_result.split cp_route.split)
qed

text \<open>
  C21: the roles of the control plane are separate. Whatever its route, method and body, a request
  of a peer that may not sign has an answer and an effect that do not depend on what the signing
  service would say, to a sign request or to a fetch of the hosts: nothing of the service reaches
  such a peer. A request of a peer that is no approver never makes a request approved. And without
  a list of sign callers no peer has both roles.
\<close>

theorem control_plane_roles:
  "(\<not> may_sign (cr_peer rq) s \<longrightarrow>
      cp_serve (cx\<lparr>cc_remote := remote'\<rparr>) fetch' rq s = cp_serve cx fetch rq s) \<and>
   (approver (cr_peer rq) s = None \<longrightarrow> approved_ids (snd (cp_serve cx fetch rq s)) \<subseteq> approved_ids s) \<and>
   (cs_signCN s = [] \<longrightarrow> \<not> (may_sign (cr_peer rq) s \<and> approver (cr_peer rq) s \<noteq> None))"
  using cp_serve_independent cp_serve_approved
  by (auto simp: may_sign_def isSignCaller_def approver_def split: option.splits if_splits)

section \<open>Witness\<close>

text \<open>A peer without any role asks for a certificate.\<close>

definition cp_intrusion :: cp_request where
  "cp_intrusion = \<lparr>cr_method = ''POST'', cr_path = [''v1'', ''sign''], cr_peer = Some ''root'', cr_contentType = '''',
     cr_sign = Some sample_request, cr_decide = None\<rparr>"

definition cp_roles_server :: cp_server where
  "cp_roles_server = cp_new None (run_config\<lparr>cpc_SignCallers := [''b1''], cpc_Callers := [''alice'']\<rparr>)"

theorem control_plane_roles_witness:
  "cp_serve (run_ctx\<lparr>cc_remote := (\<lambda>i. Inr sample_issued)\<rparr>) (\<lambda>b. DoFailed) cp_intrusion cp_roles_server =
     cp_serve (run_ctx\<lparr>cc_remote := (\<lambda>i. Inl BuildRequestFailed)\<rparr>) (\<lambda>b. BuildFailed) cp_intrusion cp_roles_server \<and>
   fst (cp_serve run_ctx (\<lambda>b. DoFailed) cp_intrusion cp_roles_server) =
     CpReply (text_response 403 ''not authorised to request signing'')"
proof -
  have cn: "CallerCN (Some ''root'') = Some ''root''" by (simp add: CallerCN_def byte_def)
  have "\<not> may_sign (cr_peer cp_intrusion) cp_roles_server"
    by (simp add: may_sign_def cp_intrusion_def cn isSignCaller_def cp_roles_server_def cp_new_def cnSet_def)
  then have "cp_serve (run_ctx\<lparr>cc_remote := a\<rparr>) f cp_intrusion cp_roles_server =
      cp_serve run_ctx (\<lambda>b. DoFailed) cp_intrusion cp_roles_server" for a f
    using control_plane_roles [of cp_intrusion cp_roles_server a run_ctx f "\<lambda>b. DoFailed"] by blast
  moreover have "serve_mux cp_mux ''POST'' [''v1'', ''sign''] = Handler CpSign []" by code_simp
  ultimately show ?thesis
    by (simp add: cp_serve_def cp_handle_def cp_intrusion_def cp_handleSign_def signCaller_def cn isSignCaller_def
        cp_roles_server_def cp_new_def cnSet_def)
qed

end
