(* ===== verification/Policy_Tools.thy ===== *)
theory Policy_Tools
  imports Local_Signer Audit_Log GoStrings
    "HOL-Library.Char_ord" "HOL-Library.List_Lexorder" "HOL-Library.Product_Lexorder"
begin

text \<open>
  The operator's view of the command policy: the recommendations mined from an audit log
  (\<open>src/internal/policyrec/policyrec.go\<close>) and the offline subcommands \<open>explain\<close> and \<open>recommend\<close> of
  \<open>broker-ctl policy\<close> with the rendering of grants (\<open>src/cmd/broker-ctl/policy.go\<close>).

  Files are arguments (their content, or \<open>None\<close> when they cannot be read or parsed); a call of
  \<open>fatalf\<close> is an error value. The zero time is \<open>None\<close> and is before every other time.
\<close>

section \<open>Recommendations\<close>

datatype SuggestionType = Promote | DeadRule | Friction

record Suggestion =
  sg_Type :: SuggestionType
  sg_Host :: string
  sg_Pattern :: string
  sg_Count :: int
  sg_Callers :: int
  sg_Approved :: int
  sg_FirstSeen :: "time option"
  sg_LastSeen :: "time option"
  sg_Samples :: "string list"

record rec_Options =
  ro_Host :: string
  ro_Since :: "time option"
  ro_MinCount :: int

record stat =
  st_count :: int
  st_approved :: int
  st_callers :: "(string, unit) gomap option"
  st_first :: "time option"
  st_last :: "time option"
  st_samples :: "string list"

definition zero_stat :: stat where
  "zero_stat = \<lparr>st_count = 0, st_approved = 0, st_callers = None, st_first = None, st_last = None, st_samples = []\<rparr>"

fun time_Before :: "time option \<Rightarrow> time option \<Rightarrow> bool" where
  "time_Before _ None = False"
| "time_Before None (Some _) = True"
| "time_Before (Some a) (Some b) = (a < b)"

definition observe :: "Entry \<Rightarrow> bool \<Rightarrow> stat \<Rightarrow> stat" where
  "observe e approved s =
     (let s = (if st_callers s = None then s\<lparr>st_callers := Some [], st_first := e_Time e\<rparr> else s);
          s = s\<lparr>st_count := st_count s + 1\<rparr>;
          s = (if approved then s\<lparr>st_approved := st_approved s + 1\<rparr> else s);
          s = s\<lparr>st_callers := map_option (put (e_Caller e) ()) (st_callers s)\<rparr>;
          s = (if time_Before (e_Time e) (st_first s) then s\<lparr>st_first := e_Time e\<rparr> else s);
          s = (if time_Before (st_last s) (e_Time e) then s\<lparr>st_last := e_Time e\<rparr> else s)
      in if length (st_samples s) < 3 \<and> e_Command e \<notin> set (st_samples s)
         then s\<lparr>st_samples := st_samples s @ [e_Command e]\<rparr> else s)"

type_synonym rec_key = "string \<times> string"
type_synonym stats = "(rec_key, stat) gomap"

definition at_observe :: "rec_key \<Rightarrow> Entry \<Rightarrow> bool \<Rightarrow> stats \<Rightarrow> stats" where
  "at_observe k e approved m = put k (observe e approved (case get m k of None \<Rightarrow> zero_stat | Some s \<Rightarrow> s)) m"

definition isApprovalGrant :: "string \<Rightarrow> bool" where
  "isApprovalGrant outcome \<longleftrightarrow>
     outcome \<in> {''approval-granted'', ''approval-decision-allow'', ''approval-decision-allow-learn''}"

definition ruleArg :: "string \<Rightarrow> string \<Rightarrow> string option" where
  "ruleArg rule prefix = (if HasPrefix rule prefix then Some (drop (length prefix) rule) else None)"

text \<open>Whether an entry is within the options and on a host of the policy.\<close>

definition in_window :: "rec_Options \<Rightarrow> Entry \<Rightarrow> bool" where
  "in_window opts e \<longleftrightarrow>
     \<not> (e_Command e = '''' \<or> e_Host e = '''') \<and> \<not> (ro_Host opts \<noteq> '''' \<and> e_Host e \<noteq> ro_Host opts) \<and>
     \<not> (ro_Since opts \<noteq> None \<and> time_Before (e_Time e) (ro_Since opts))"

definition entry_ran :: "Entry \<Rightarrow> bool" where
  "entry_ran e \<longleftrightarrow>
     isApprovalGrant (e_Outcome e) \<or> e_Outcome e = ''executed'' \<or> e_Outcome e = ''session_exec'' \<or> e_Outcome e = ''dry_run_allowed''"

definition entry_refused :: "Entry \<Rightarrow> bool" where
  "entry_refused e \<longleftrightarrow> e_Outcome e = ''denied'' \<or> e_Outcome e = ''session_exec_denied'' \<or> e_Outcome e = ''dry_run_denied''"

definition set_of :: "HostPolicy \<Rightarrow> PolicySet" where
  "set_of hp = (case hp_Policies hp of None \<Rightarrow> [] | Some ps \<Rightarrow> ps)"

text \<open>The maps of the loop: \<open>promote\<close>, \<open>friction\<close> and \<open>usedRule\<close>.\<close>

type_synonym rec_state = "stats \<times> stats \<times> (rec_key, bool) gomap"

definition mark_used :: "string \<Rightarrow> string \<Rightarrow> string \<Rightarrow> (rec_key, bool) gomap \<Rightarrow> (rec_key, bool) gomap" where
  "mark_used host rule prefix used =
     (case ruleArg rule prefix of Some pat \<Rightarrow> put (host, pat) True used | None \<Rightarrow> used)"

definition recommend_step ::
    "regex_engine \<Rightarrow> sh_parser \<Rightarrow> PolicyTable \<Rightarrow> rec_Options \<Rightarrow> Entry \<Rightarrow> rec_state \<Rightarrow> rec_state" where
  "recommend_step re sh compiled opts e st =
     (case st of (promote, friction, used) \<Rightarrow>
      if \<not> in_window opts e then st
      else case get compiled (e_Host e) of
        None \<Rightarrow> st
      | Some hp \<Rightarrow>
          (case Decide re sh (set_of hp) (e_Command e) of
             (allowed, _, rule, derr) \<Rightarrow>
               if derr \<noteq> None then st
               else
                 let used = mark_used (e_Host e) rule ''deny:'' (mark_used (e_Host e) rule ''allow:'' used);
                     approved = isApprovalGrant (e_Outcome e)
                 in if \<not> allowed \<and> entry_ran e
                    then (at_observe (e_Host e, e_Command e) e approved promote, friction, used)
                    else if \<not> allowed \<and> entry_refused e
                    then (promote, at_observe (e_Host e, e_Command e) e approved friction, used)
                    else (promote, friction, used)))"

text \<open>\<open>regexp.QuoteMeta\<close>: a backslash before each byte with a meaning of its own.\<close>

definition regex_special :: "char set" where
  "regex_special = set ([CHR 0x5C] @ ''.+*?()|[]{}^$'')"

definition QuoteMeta :: "string \<Rightarrow> string" where
  "QuoteMeta s = concat (map (\<lambda>c. if c \<in> regex_special then [CHR 0x5C, c] else [c]) s)"

definition anchored :: "string \<Rightarrow> string" where
  "anchored cmd = ''^'' @ QuoteMeta cmd @ ''$''"

definition buildCmd :: "SuggestionType \<Rightarrow> stats \<Rightarrow> int \<Rightarrow> bool \<Rightarrow> Suggestion list" where
  "buildCmd t m minCount anchor =
     map (\<lambda>((host, item), s).
        \<lparr>sg_Type = t, sg_Host = host, sg_Pattern = (if anchor then anchored item else item), sg_Count = st_count s,
         sg_Callers = (case st_callers s of None \<Rightarrow> 0 | Some c \<Rightarrow> int (length c)), sg_Approved = st_approved s,
         sg_FirstSeen = st_first s, sg_LastSeen = st_last s, sg_Samples = st_samples s\<rparr>)
       (filter (\<lambda>(k, s). \<not> st_count s < minCount) m)"

definition dead_rule :: "string \<Rightarrow> string \<Rightarrow> Suggestion" where
  "dead_rule host pat =
     \<lparr>sg_Type = DeadRule, sg_Host = host, sg_Pattern = pat, sg_Count = 0, sg_Callers = 0, sg_Approved = 0,
      sg_FirstSeen = None, sg_LastSeen = None, sg_Samples = []\<rparr>"

definition buildDeadRules :: "PolicyTable \<Rightarrow> (rec_key, bool) gomap \<Rightarrow> rec_Options \<Rightarrow> Suggestion list" where
  "buildDeadRules compiled used opts =
     concat (map (\<lambda>(host, hp).
       if ro_Host opts \<noteq> '''' \<and> host \<noteq> ro_Host opts then []
       else concat (map (\<lambda>cp.
              map (dead_rule host) (filter (\<lambda>pat. get used (host, pat) \<noteq> Some True) (cp_Allow cp @ cp_Deny cp)))
            (set_of hp))) compiled)"

definition Recommend ::
    "regex_engine \<Rightarrow> sh_parser \<Rightarrow> Entry list \<Rightarrow> PolicyTable \<Rightarrow> rec_Options \<Rightarrow> Suggestion list" where
  "Recommend re sh entries compiled opts =
     (let opts = (if ro_MinCount opts < 1 then opts\<lparr>ro_MinCount := 1\<rparr> else opts);
          (promote, friction, used) = fold (recommend_step re sh compiled opts) entries ([], [], []);
          out = buildCmd Promote promote (ro_MinCount opts) True @ buildCmd Friction friction (ro_MinCount opts) False @
                buildDeadRules compiled used opts
      in sort_key (\<lambda>s. (- sg_Count s, sg_Host s)) out)"

section \<open>broker-ctl policy\<close>

record policyConfig =
  pc_Hosts :: PolicyTable
  pc_CommandPolicies :: policy_library
  pc_GroupCommandPolicies :: group_policies

datatype ctl_error = ReadConfigFailed | InvalidPolicyConfig compile_error | CtlHostNotFound string
  | OpenAuditFailed | ReadAuditFailed

definition loadAuditEntries :: "audit_codec \<Rightarrow> string option \<Rightarrow> ctl_error + Entry list" where
  "loadAuditEntries ac file =
     (case file of
        None \<Rightarrow> Inl OpenAuditFailed
      | Some content \<Rightarrow>
          (case scan_lines content of
             (ls, ok) \<Rightarrow>
               if \<not> ok then Inl ReadAuditFailed
               else Inr (List.map_filter (ac_Unmarshal ac) (filter (\<lambda>l. length l \<noteq> 0) ls))))"

definition cmdPolicyRecommend ::
    "regex_engine \<Rightarrow> sh_parser \<Rightarrow> audit_codec \<Rightarrow> policyConfig option \<Rightarrow> string option \<Rightarrow> rec_Options \<Rightarrow>
     ctl_error + nat \<times> Suggestion list" where
  "cmdPolicyRecommend re sh ac config log_file opts =
     (case config of
        None \<Rightarrow> Inl ReadConfigFailed
      | Some cfg \<Rightarrow>
     (case CompileHostPolicies re (pc_Hosts cfg) (pc_CommandPolicies cfg) (pc_GroupCommandPolicies cfg) of
        Inl err \<Rightarrow> Inl (InvalidPolicyConfig err)
      | Inr compiled \<Rightarrow>
     (case loadAuditEntries ac log_file of
        Inl err \<Rightarrow> Inl err
      | Inr entries \<Rightarrow> Inr (length entries, Recommend re sh entries compiled opts))))"

abbreviation nl :: string where "nl \<equiv> [CHR 0x0A]"

text \<open>The em dash and the other characters outside ASCII in the output.\<close>

abbreviation em_dash :: string where "em_dash \<equiv> [CHR 0xE2, CHR 0x80, CHR 0x94]"
abbreviation times_sign :: string where "times_sign \<equiv> [CHR 0xC3, CHR 0x97]"
abbreviation middle_dot :: string where "middle_dot \<equiv> [CHR 0xC2, CHR 0xB7]"
abbreviation right_arrow :: string where "right_arrow \<equiv> [CHR 0xE2, CHR 0x86, CHR 0x92]"

definition dash :: "string \<Rightarrow> string" where
  "dash s = (if s = '''' then em_dash else s)"

definition dashJoin :: "string list \<Rightarrow> string" where
  "dashJoin ss = (if length ss = 0 then em_dash else Join ss '','')"

text \<open>\<open>day\<close> formats a time as a date.\<close>

definition recommendation_text :: "(time option \<Rightarrow> string) \<Rightarrow> Suggestion \<Rightarrow> string" where
  "recommendation_text day s =
     (case sg_Type s of
        Promote \<Rightarrow>
          nl @ ''  [PROMOTE]  '' @ sg_Host s @ ''   '' @ sg_Pattern s @ nl @
          ''     '' @ Itoa (sg_Count s) @ times_sign @ '' '' @ middle_dot @ '' '' @ Itoa (sg_Callers s) @ '' callers '' @ middle_dot @
          '' '' @ Itoa (sg_Approved s) @ '' human-approved '' @ middle_dot @ '' last '' @ day (sg_LastSeen s) @ nl @
          (case sg_Samples s of [] \<Rightarrow> '''' | x # _ \<Rightarrow> ''     e.g. '' @ x @ nl) @
          ''     '' @ right_arrow @ '' add to the allowlist of '' @ sg_Host s @ '' if intended'' @ nl
      | Friction \<Rightarrow>
          nl @ ''  [FRICTION] '' @ sg_Host s @ ''   denied '' @ Itoa (sg_Count s) @ times_sign @ '' : '' @ sg_Pattern s @ nl
      | DeadRule \<Rightarrow>
          nl @ ''  [DEAD]     '' @ sg_Host s @ ''   '' @ sg_Pattern s @ ''   (0 matches in window '' @ right_arrow @ '' review/remove)'' @ nl)"

definition printRecommendations :: "(time option \<Rightarrow> string) \<Rightarrow> string \<Rightarrow> nat \<Rightarrow> Suggestion list \<Rightarrow> string" where
  "printRecommendations day logPath n sugs =
     ''Policy recommendations (from '' @ logPath @ '', '' @ Itoa (int n) @ '' entries)'' @ nl @
     (if length sugs = 0 then ''  (no suggestions)'' @ nl
      else concat (map (recommendation_text day) sugs) @ nl @
        ''Advisory only '' @ em_dash @ '' nothing was changed. Review before applying.'' @ nl)"

section \<open>broker-ctl policy explain\<close>

text \<open>\<open>%-16s\<close> pads with blanks on the right to a width in runes.\<close>

definition pad_right :: "nat \<Rightarrow> string \<Rightarrow> string" where
  "pad_right w s = s @ replicate (w - length (range_runes s)) (CHR '' '')"

definition policyLabel :: "CommandPolicy \<Rightarrow> string" where
  "policyLabel cp =
     (let parts =
        (if cp_Mode cp = CmdPolicyAllowlist then [''allowlist(allow:'' @ Itoa (int (length (cp_Allow cp))) @ '')'']
         else if cp_Mode cp = CmdPolicyDenylist then [''denylist(deny:'' @ Itoa (int (length (cp_Deny cp))) @ '')'']
         else []) @
        (if length (cp_RequireApproval cp) > 0 then [''approval:'' @ Itoa (int (length (cp_RequireApproval cp)))] else []) @
        (if cp_ShellParse cp then [''shell_parse''] else []) @
        (if cp_Enforcement cp = CmdPolicyAudit then [''audit''] else [])
      in if length parts = 0 then ''off'' else Join parts '' '')"

definition contributor_line :: "string \<Rightarrow> string \<Rightarrow> CommandPolicy \<Rightarrow> string" where
  "contributor_line n g cp = pad_right 16 n @ '' ['' @ g @ ''] '' @ policyLabel cp"

fun contributors_add :: "policy_library \<Rightarrow> string \<Rightarrow> string list \<Rightarrow> string list \<times> string list \<Rightarrow> string list \<times> string list" where
  "contributors_add lib g [] acc = acc"
| "contributors_add lib g (n # names) (seen, out) =
     (if n \<in> set seen then contributors_add lib g names (seen, out)
      else case get lib n of
        None \<Rightarrow> contributors_add lib g names (seen, out)
      | Some cp \<Rightarrow> contributors_add lib g names (n # seen, out @ [contributor_line n g cp]))"

definition policyContributors :: "HostPolicy \<Rightarrow> policyConfig \<Rightarrow> string list" where
  "policyContributors hp cfg =
     (let lib = pc_CommandPolicies cfg; gp = pc_GroupCommandPolicies cfg;
          acc = contributors_add lib ''_default'' (group_names gp ''_default'') ([], []);
          acc = fold (\<lambda>g acc. contributors_add lib g (group_names gp g) acc) (hp_Groups hp) acc;
          out = snd acc
      in if cp_Restricts (hp_CommandPolicy hp) then out @ [contributor_line ''<inline>'' ''host'' (hp_CommandPolicy hp)] else out)"

definition sessionStatus :: "PolicySet \<Rightarrow> string" where
  "sessionStatus eff =
     (if ps_Restricts eff then ''exec preflighted; shell/pty rejected (command policy active)'' else ''allowed'')"

text \<open>The line that states the decision; \<open>errtext\<close> is the text of an error of \<open>Decide\<close>.\<close>

definition decision_line :: "regex_engine \<Rightarrow> sh_parser \<Rightarrow> (decide_error \<Rightarrow> string) \<Rightarrow> PolicySet \<Rightarrow> string \<Rightarrow> string" where
  "decision_line re sh errtext eff command =
     (case Decide re sh eff command of
        (allowed, approval, rule, err) \<Rightarrow>
          let auditMode = (ps_Enforcement eff = CmdPolicyAudit) in
          (case err of
             Some x \<Rightarrow>
               if auditMode then ''Decision: ALLOWED with audit warning (would error: '' @ errtext x @ '')'' @ nl
               else ''Decision: ERROR ('' @ errtext x @ '')'' @ nl
           | None \<Rightarrow>
               if \<not> allowed then
                 (if auditMode then ''Decision: ALLOWED with audit warning (would deny; rule: '' @ rule @ '')'' @ nl
                  else ''Decision: DENIED  (rule: '' @ rule @ '')'' @ nl)
               else if approval then
                 (if auditMode then ''Decision: ALLOWED with audit warning (would require approval; rule: '' @ rule @ '')'' @ nl
                  else ''Decision: ALLOWED, requires approval  (rule: '' @ rule @ '')'' @ nl)
               else ''Decision: ALLOWED  (rule: '' @ dash rule @ '')'' @ nl))"

definition printDecision :: "regex_engine \<Rightarrow> sh_parser \<Rightarrow> (decide_error \<Rightarrow> string) \<Rightarrow> PolicySet \<Rightarrow> string \<Rightarrow> string" where
  "printDecision re sh errtext eff command = nl @ ''Command: '' @ command @ nl @ decision_line re sh errtext eff command"

definition cmdPolicyExplain ::
    "regex_engine \<Rightarrow> sh_parser \<Rightarrow> (decide_error \<Rightarrow> string) \<Rightarrow> policyConfig option \<Rightarrow> string \<Rightarrow> string \<Rightarrow> ctl_error + string" where
  "cmdPolicyExplain re sh errtext config host command =
     (case config of
        None \<Rightarrow> Inl ReadConfigFailed
      | Some cfg \<Rightarrow>
     (case get (pc_Hosts cfg) host of
        None \<Rightarrow> Inl (CtlHostNotFound host)
      | Some hp \<Rightarrow>
     (case CompileHostPolicies re (pc_Hosts cfg) (pc_CommandPolicies cfg) (pc_GroupCommandPolicies cfg) of
        Inl err \<Rightarrow> Inl (InvalidPolicyConfig err)
      | Inr compiled \<Rightarrow>
          let eff = (case get compiled host of None \<Rightarrow> [] | Some chp \<Rightarrow> set_of chp) in
          Inr (''Host:   '' @ host @ nl @ ''Groups: '' @ dashJoin (hp_Groups hp) @ nl @
            ''Effective command policies (composed; union of allows, deny wins):'' @ nl @
            concat (map (\<lambda>line. ''  - '' @ line @ nl) (policyContributors hp cfg)) @
            (if length eff = 0 then ''  (none '' @ em_dash @ '' no command restriction; every command is allowed)'' @ nl else '''') @
            ''Sessions: '' @ sessionStatus eff @ nl @
            (if command \<noteq> '''' then printDecision re sh errtext eff command else '''')))))"

section \<open>broker-ctl policy grants\<close>

definition grantRules :: "Grant \<Rightarrow> string" where
  "grantRules g =
     Join ((if length (g_Allow g) > 0 then [''allow['' @ Join (g_Allow g) '' | '' @ '']''] else []) @
           (if length (g_WaiveApproval g) > 0 then [''waive-approval['' @ Join (g_WaiveApproval g) '' | '' @ '']''] else [])) '' ''"

definition grantScope :: "Grant \<Rightarrow> string" where
  "grantScope g =
     (let parts = (if g_Caller g \<noteq> '''' then [''caller='' @ g_Caller g] else []) @
                  (if g_EndUser g \<noteq> '''' then [''user='' @ g_EndUser g] else [])
      in if length parts = 0 then ''any'' else Join parts '','')"


section \<open>Buckets\<close>

text \<open>
  A loop that updates one bucket of a map per element: what a bucket holds at the end is the run of
  the elements that went into it.
\<close>

definition bucket_step :: "('x \<Rightarrow> bool) \<Rightarrow> ('x \<Rightarrow> 'k) \<Rightarrow> ('x \<Rightarrow> 's \<Rightarrow> 's) \<Rightarrow> 's \<Rightarrow> 'x \<Rightarrow> ('k, 's) gomap \<Rightarrow> ('k, 's) gomap" where
  "bucket_step c k f z x m = (if c x then put (k x) (f x (case get m (k x) of None \<Rightarrow> z | Some s \<Rightarrow> s)) m else m)"

lemma bucket_fold:
  "get (fold (bucket_step c k f z) xs m) b =
     (let ys = filter (\<lambda>x. c x \<and> k x = b) xs in
      if ys = [] then get m b else Some (fold f ys (case get m b of None \<Rightarrow> z | Some s \<Rightarrow> s)))"
  by (induction xs arbitrary: m) (auto simp: bucket_step_def Let_def)

lemma bucket_map_ok: "map_ok m \<Longrightarrow> map_ok (fold (bucket_step c k f z) xs m)"
  by (induction xs arbitrary: m) (auto simp: bucket_step_def)

lemma bucket_mem:
  "(b, s) \<in> set (fold (bucket_step c k f z) xs []) \<longleftrightarrow>
     filter (\<lambda>x. c x \<and> k x = b) xs \<noteq> [] \<and> s = fold f (filter (\<lambda>x. c x \<and> k x = b) xs) z"
proof -
  let ?m = "fold (bucket_step c k f z) xs []"
  have "(b, s) \<in> set ?m \<longleftrightarrow> get ?m b = Some s"
    using in_set_get [OF bucket_map_ok [OF map_ok_Nil], of b s] get_in_set by metis
  then show ?thesis unfolding bucket_fold by (auto simp: Let_def)
qed

section \<open>Lemmas on the recommendations\<close>

lemma QuoteMeta_simps [simp]:
  "QuoteMeta [] = []"
  "QuoteMeta (c # s) = (if c \<in> regex_special then CHR 0x5C # c # QuoteMeta s else c # QuoteMeta s)"
  by (simp_all add: QuoteMeta_def)

lemma backslash_special: "CHR 0x5C \<in> regex_special"
  by (simp add: regex_special_def)

lemma QuoteMeta_inj: "QuoteMeta s = QuoteMeta t \<Longrightarrow> s = t"
proof (induction s arbitrary: t)
  case Nil
  then show ?case by (cases t) (auto split: if_splits)
next
  case (Cons c s)
  then obtain d t' where t: "t = d # t'" by (cases t) (auto split: if_splits)
  have "c = d \<and> QuoteMeta s = QuoteMeta t'"
    using Cons.prems backslash_special unfolding t by (auto split: if_splits)
  with Cons.IH t show ?case by simp
qed

lemma anchored_inj [simp]: "anchored a = anchored b \<longleftrightarrow> a = b"
  by (auto simp: anchored_def dest: QuoteMeta_inj)

text \<open>An entry that was decided without an error, with the verdict and the rule.\<close>

definition decided :: "regex_engine \<Rightarrow> sh_parser \<Rightarrow> PolicyTable \<Rightarrow> rec_Options \<Rightarrow> Entry \<Rightarrow> (bool \<times> string) option" where
  "decided re sh compiled opts e =
     (if \<not> in_window opts e then None
      else case get compiled (e_Host e) of
        None \<Rightarrow> None
      | Some hp \<Rightarrow>
          (case Decide re sh (set_of hp) (e_Command e) of
             (allowed, _, rule, derr) \<Rightarrow> if derr = None then Some (allowed, rule) else None))"

text \<open>The entries behind a promotion, and those behind a friction report.\<close>

definition against_policy :: "regex_engine \<Rightarrow> sh_parser \<Rightarrow> PolicyTable \<Rightarrow> rec_Options \<Rightarrow> Entry \<Rightarrow> bool" where
  "against_policy re sh compiled opts e \<longleftrightarrow>
     (case decided re sh compiled opts e of Some (allowed, rule) \<Rightarrow> \<not> allowed | None \<Rightarrow> False)"

abbreviation entry_key :: "Entry \<Rightarrow> rec_key" where
  "entry_key e \<equiv> (e_Host e, e_Command e)"

abbreviation observe_entry :: "Entry \<Rightarrow> stat \<Rightarrow> stat" where
  "observe_entry e \<equiv> observe e (isApprovalGrant (e_Outcome e))"

definition use_step :: "regex_engine \<Rightarrow> sh_parser \<Rightarrow> PolicyTable \<Rightarrow> rec_Options \<Rightarrow> Entry \<Rightarrow> (rec_key, bool) gomap \<Rightarrow> (rec_key, bool) gomap" where
  "use_step re sh compiled opts e used =
     (case decided re sh compiled opts e of
        None \<Rightarrow> used
      | Some (allowed, rule) \<Rightarrow> mark_used (e_Host e) rule ''deny:'' (mark_used (e_Host e) rule ''allow:'' used))"

lemma recommend_step_split:
  "recommend_step re sh compiled opts e (p, f, u) =
     (bucket_step (\<lambda>e. against_policy re sh compiled opts e \<and> entry_ran e) entry_key observe_entry zero_stat e p,
      bucket_step (\<lambda>e. against_policy re sh compiled opts e \<and> \<not> entry_ran e \<and> entry_refused e) entry_key observe_entry zero_stat e f,
      use_step re sh compiled opts e u)"
  by (cases "in_window opts e"; cases "get compiled (e_Host e)")
    (auto simp: recommend_step_def bucket_step_def use_step_def against_policy_def decided_def at_observe_def Let_def split: prod.splits)

lemma recommend_fold_split:
  "fold (recommend_step re sh compiled opts) es (p, f, u) =
     (fold (bucket_step (\<lambda>e. against_policy re sh compiled opts e \<and> entry_ran e) entry_key observe_entry zero_stat) es p,
      fold (bucket_step (\<lambda>e. against_policy re sh compiled opts e \<and> \<not> entry_ran e \<and> entry_refused e) entry_key observe_entry zero_stat) es f,
      fold (use_step re sh compiled opts) es u)"
  by (induction es arbitrary: p f u) (auto simp: recommend_step_split)

text \<open>What the statistics of a bucket say of its entries.\<close>

definition stat_of :: "Entry list \<Rightarrow> stat \<Rightarrow> bool" where
  "stat_of es s \<longleftrightarrow>
     st_count s = int (length es) \<and> st_approved s = int (length (filter (\<lambda>e. isApprovalGrant (e_Outcome e)) es)) \<and>
     (es = [] \<longrightarrow> s = zero_stat) \<and>
     (es \<noteq> [] \<longrightarrow> (\<exists>cs. st_callers s = Some cs \<and> map_ok cs \<and> fst ` set cs = e_Caller ` set es))"

lemma put_keys: "fst ` set (put k v m) = insert k (fst ` set m)"
  by (induction m) auto

lemma stat_of_observe:
  assumes "stat_of es s"
  shows "stat_of (es @ [e]) (observe_entry e s)"
proof (cases "es = []")
  case True
  with assms show ?thesis by (auto simp: stat_of_def observe_def zero_stat_def Let_def map_ok_def)
next
  case False
  with assms obtain cs where cs: "st_callers s = Some cs" "map_ok cs" "fst ` set cs = e_Caller ` set es" by (auto simp: stat_of_def)
  have "st_callers (observe_entry e s) = Some (put (e_Caller e) () cs)" by (simp add: observe_def Let_def cs(1))
  moreover have "map_ok (put (e_Caller e) () cs)" using cs(2) by simp
  moreover have "fst ` set (put (e_Caller e) () cs) = e_Caller ` set (es @ [e])" by (simp add: put_keys cs(3))
  moreover have "st_count (observe_entry e s) = st_count s + 1"
    "st_approved (observe_entry e s) = st_approved s + (if isApprovalGrant (e_Outcome e) then 1 else 0)"
    by (simp_all add: observe_def Let_def)
  ultimately show ?thesis using assms by (simp add: stat_of_def)
qed

lemma stat_of_fold: "stat_of es (fold observe_entry es zero_stat)"
proof (induction es rule: rev_induct)
  case Nil
  then show ?case by (simp add: stat_of_def zero_stat_def)
next
  case (snoc e es)
  with stat_of_observe show ?case by simp
qed


lemma against_policy_MinCount [simp]:
  "against_policy re sh compiled (opts\<lparr>ro_MinCount := n\<rparr>) = against_policy re sh compiled opts"
  "decided re sh compiled (opts\<lparr>ro_MinCount := n\<rparr>) = decided re sh compiled opts"
  by (simp_all add: fun_eq_iff against_policy_def decided_def in_window_def)

lemma buildCmd_type: "s \<in> set (buildCmd t m n a) \<Longrightarrow> sg_Type s = t"
  by (auto simp: buildCmd_def)

lemma buildDeadRules_type: "s \<in> set (buildDeadRules compiled used opts) \<Longrightarrow> sg_Type s = DeadRule"
  by (auto simp: buildDeadRules_def dead_rule_def split: if_splits)

lemma set_Recommend:
  "set (Recommend re sh es compiled opts) =
     (let n = max 1 (ro_MinCount opts);
          bucket = (\<lambda>c. fold (bucket_step c entry_key observe_entry zero_stat) es []) in
      set (buildCmd Promote (bucket (\<lambda>e. against_policy re sh compiled opts e \<and> entry_ran e)) n True) \<union>
      set (buildCmd Friction (bucket (\<lambda>e. against_policy re sh compiled opts e \<and> \<not> entry_ran e \<and> entry_refused e)) n False) \<union>
      set (buildDeadRules compiled (fold (use_step re sh compiled opts) es []) opts))"
proof -
  have u: "use_step re sh compiled (opts\<lparr>ro_MinCount := n\<rparr>) = use_step re sh compiled opts" for n
    by (simp add: fun_eq_iff use_step_def)
  have d: "buildDeadRules compiled used (opts\<lparr>ro_MinCount := n\<rparr>) = buildDeadRules compiled used opts" for n used
    by (simp add: buildDeadRules_def)
  show ?thesis
    by (cases "ro_MinCount opts < 1") (auto simp: Recommend_def recommend_fold_split u d Let_def max_def)
qed

lemma buildCmd_Bex:
  "(\<exists>s\<in>set (buildCmd t m n anchor). P s) \<longleftrightarrow>
     (\<exists>host item st. ((host, item), st) \<in> set m \<and> \<not> st_count st < n \<and>
        P \<lparr>sg_Type = t, sg_Host = host, sg_Pattern = (if anchor then anchored else (\<lambda>c. c)) item, sg_Count = st_count st,
           sg_Callers = (case st_callers st of None \<Rightarrow> 0 | Some c \<Rightarrow> int (length c)), sg_Approved = st_approved st,
           sg_FirstSeen = st_first st, sg_LastSeen = st_last st, sg_Samples = st_samples st\<rparr>)"
  by (cases anchor) (force simp: buildCmd_def)+

text \<open>A suggestion that \<open>buildCmd\<close> makes of a bucket.\<close>

lemma buildCmd_bucket:
  assumes "item_of = (if anchor then anchored else (\<lambda>c. c))"
  shows "(\<exists>s. s \<in> set (buildCmd t (fold (bucket_step c entry_key observe_entry zero_stat) es []) n anchor) \<and>
       sg_Host s = host \<and> sg_Pattern s = item_of cmd \<and> sg_Count s = k \<and> sg_Callers s = callers \<and> sg_Approved s = approved) \<longleftrightarrow>
     (let obs = filter (\<lambda>e. c e \<and> e_Host e = host \<and> e_Command e = cmd) es in
      obs \<noteq> [] \<and> k \<ge> n \<and> k = int (length obs) \<and> callers = int (card (e_Caller ` set obs)) \<and>
      approved = int (length (filter (\<lambda>e. isApprovalGrant (e_Outcome e)) obs)))"
    (is "?l \<longleftrightarrow> ?r")
proof -
  define obs where "obs = filter (\<lambda>e. c e \<and> e_Host e = host \<and> e_Command e = cmd) es"
  have key: "filter (\<lambda>e. c e \<and> entry_key e = (host, cmd)) es = obs" by (simp add: obs_def)
  define st where "st = fold observe_entry obs zero_stat"
  have inj: "item_of a = item_of b \<longleftrightarrow> a = b" for a b by (simp add: assms)
  have st: "st_count st = int (length obs)" "st_approved st = int (length (filter (\<lambda>e. isApprovalGrant (e_Outcome e)) obs))"
    using stat_of_fold [of obs] by (simp_all add: stat_of_def st_def)
  have cl: "(case st_callers st of None \<Rightarrow> 0 | Some cs \<Rightarrow> int (length cs)) = int (card (e_Caller ` set obs))" if "obs \<noteq> []"
  proof -
    from stat_of_fold [of obs] that obtain cs where cs: "st_callers st = Some cs" "map_ok cs" "fst ` set cs = e_Caller ` set obs"
      by (auto simp: stat_of_def st_def)
    then have "length cs = card (e_Caller ` set obs)" by (metis map_ok_def distinct_card length_map set_map)
    with cs(1) show ?thesis by simp
  qed
  have m: "((host, cmd), s) \<in> set (fold (bucket_step c entry_key observe_entry zero_stat) es []) \<longleftrightarrow> obs \<noteq> [] \<and> s = st" for s
    unfolding bucket_mem key st_def by simp
  have "?l \<longleftrightarrow> (\<exists>s. ((host, cmd), s) \<in> set (fold (bucket_step c entry_key observe_entry zero_stat) es []) \<and> \<not> st_count s < n \<and>
      k = st_count s \<and> callers = (case st_callers s of None \<Rightarrow> 0 | Some cs \<Rightarrow> int (length cs)) \<and> approved = st_approved s)"
    unfolding Bex_def [symmetric] buildCmd_Bex by (auto simp: inj assms [symmetric])
  also have "\<dots> \<longleftrightarrow> obs \<noteq> [] \<and> \<not> st_count st < n \<and> k = st_count st \<and>
      callers = (case st_callers st of None \<Rightarrow> 0 | Some cs \<Rightarrow> int (length cs)) \<and> approved = st_approved st"
    unfolding m by blast
  also have "\<dots> \<longleftrightarrow> obs \<noteq> [] \<and> k \<ge> n \<and> k = int (length obs) \<and> callers = int (card (e_Caller ` set obs)) \<and>
      approved = int (length (filter (\<lambda>e. isApprovalGrant (e_Outcome e)) obs))"
    unfolding st using cl by (cases "obs = []") auto
  finally show ?thesis by (simp only: Let_def obs_def)
qed

section \<open>Properties\<close>

text \<open>
  Promotions are exact. \<open>Recommend\<close> proposes to promote a command on a host exactly when the
  window of the log holds at least the required number of entries in which the command ran there,
  or was approved by a person, although the current policy does not allow it; the proposal is the
  anchored literal command, and its support, distinct callers and human approvals are counted over
  exactly these entries. Rejections by a person, timeouts and self-approvals count for nothing.
\<close>

theorem recommend_promotes_exact:
  "(\<exists>s. s \<in> set (Recommend re sh es compiled opts) \<and> sg_Type s = Promote \<and> sg_Host s = host \<and> sg_Pattern s = anchored cmd \<and>
      sg_Count s = k \<and> sg_Callers s = callers \<and> sg_Approved s = approved) \<longleftrightarrow>
   (let obs = filter (\<lambda>e. against_policy re sh compiled opts e \<and> entry_ran e \<and> e_Host e = host \<and> e_Command e = cmd) es in
      obs \<noteq> [] \<and> k \<ge> ro_MinCount opts \<and> k = int (length obs) \<and> callers = int (card (e_Caller ` set obs)) \<and>
      approved = int (length (filter (\<lambda>e. isApprovalGrant (e_Outcome e)) obs)))"
    (is "?l \<longleftrightarrow> ?r")
proof -
  let ?c = "\<lambda>e. against_policy re sh compiled opts e \<and> entry_ran e"
  let ?B = "buildCmd Promote (fold (bucket_step ?c entry_key observe_entry zero_stat) es []) (max 1 (ro_MinCount opts)) True"
  have "s \<in> set (Recommend re sh es compiled opts) \<and> sg_Type s = Promote \<longleftrightarrow> s \<in> set ?B" for s
    unfolding set_Recommend Let_def using buildCmd_type buildDeadRules_type by fastforce
  then have "?l \<longleftrightarrow> (\<exists>s. s \<in> set ?B \<and> sg_Host s = host \<and> sg_Pattern s = anchored cmd \<and>
      sg_Count s = k \<and> sg_Callers s = callers \<and> sg_Approved s = approved)" by auto
  also have "\<dots> \<longleftrightarrow> ?r"
  proof -
    have "max 1 (ro_MinCount opts) \<le> k \<longleftrightarrow> ro_MinCount opts \<le> k" if "obs \<noteq> []" "k = int (length obs)" for obs :: "Entry list"
      using that by (cases obs) auto
    then have "obs \<noteq> [] \<and> max 1 (ro_MinCount opts) \<le> k \<and> k = int (length obs) \<and> R \<longleftrightarrow> obs \<noteq> [] \<and> ro_MinCount opts \<le> k \<and> k = int (length obs) \<and> R"
      for obs :: "Entry list" and R by blast
    then show ?thesis
      unfolding buildCmd_bucket [of anchored True, OF if_P [OF TrueI, symmetric]] Let_def conj_assoc by (simp only: max.commute)
  qed
  finally show ?thesis .
qed


text \<open>What a rule added to one allowlist of a set does to the decisions of the set.\<close>

abbreviation widen :: "PolicySet \<Rightarrow> CommandPolicy \<Rightarrow> string \<Rightarrow> PolicySet \<Rightarrow> PolicySet" where
  "widen pre p pat post \<equiv> pre @ p\<lparr>cp_Allow := cp_Allow p @ [pat]\<rparr> # post"

lemma widen_spec:
  assumes "cp_Mode p = CmdPolicyAllowlist"
  shows "spec_denied re (widen pre p pat post) = spec_denied re (pre @ p # post)"
    and "hasAllowlist (widen pre p pat post)"
    and "hasAllowlist (pre @ p # post)"
    and "segments sh (widen pre p pat post) line = segments sh (pre @ p # post) line"
    and "spec_allowlisted re (widen pre p pat post) c \<longleftrightarrow> spec_allowlisted re (pre @ p # post) c \<or> matches re pat c"
    and "compiles re (pre @ p # post) \<Longrightarrow> re pat \<noteq> None \<Longrightarrow> compiles re (widen pre p pat post)"
  using assms by (auto simp: spec_denied_def fun_eq_iff hasAllowlist_def segments_def shellParse_def spec_allowlisted_def compiles_def)

lemma Decide_fst:
  "compiles re ps \<Longrightarrow> segments sh ps line = Inr cmds \<Longrightarrow> fst (Decide re sh ps line) \<longleftrightarrow> (\<forall>c\<in>set cmds. spec_allowed re ps c)"
  using Decide_never_errors_when_compiled [of re ps sh line cmds] by auto

text \<open>
  The effect of a promotion. Adding a proposed rule to an allowlist of a host allows, of the
  lines whose simple commands were allowed already, exactly those in which some of them are the
  promoted command: a denied command stays denied, nothing else is let in; and a line that does not
  contain the promoted text as one simple command, as a compound line does not, is decided as before.
\<close>

theorem promoted_rule_effect:
  assumes "compiles re (pre @ p # post)" and "cp_Mode p = CmdPolicyAllowlist" and "re (anchored cmd) = Some (\<lambda>c. c = cmd)"
    and "segments sh (pre @ p # post) line = Inr cmds"
  shows "(fst (Decide re sh (widen pre p (anchored cmd) post) line) \<longleftrightarrow>
      (\<forall>c\<in>set cmds. \<not> spec_denied re (pre @ p # post) c \<and> (spec_allowlisted re (pre @ p # post) c \<or> c = cmd))) \<and>
    (cmd \<notin> set cmds \<longrightarrow> fst (Decide re sh (widen pre p (anchored cmd) post) line) = fst (Decide re sh (pre @ p # post) line))"
proof -
  note w = widen_spec [OF assms(2)]
  have c: "compiles re (widen pre p (anchored cmd) post)" using w(6) assms(1,3) by simp
  have s: "segments sh (widen pre p (anchored cmd) post) line = Inr cmds" using w(4) assms(4) by simp
  have sa: "spec_allowed re (widen pre p (anchored cmd) post) c \<longleftrightarrow>
      \<not> spec_denied re (pre @ p # post) c \<and> (spec_allowlisted re (pre @ p # post) c \<or> c = cmd)" for c
    unfolding spec_allowed_def w(1,5) matches_def assms(3) option.case using w(2) by blast
  from Decide_fst [OF c s] have all: "fst (Decide re sh (widen pre p (anchored cmd) post) line) \<longleftrightarrow>
      (\<forall>c\<in>set cmds. \<not> spec_denied re (pre @ p # post) c \<and> (spec_allowlisted re (pre @ p # post) c \<or> c = cmd))"
    by (simp only: sa)
  have "spec_allowed re (pre @ p # post) c \<longleftrightarrow> \<not> spec_denied re (pre @ p # post) c \<and> spec_allowlisted re (pre @ p # post) c" for c
    unfolding spec_allowed_def using w(3) by blast
  then show ?thesis unfolding all Decide_fst [OF assms(1,4)] by blast
qed

lemma ruleArg_Some: "ruleArg rule prefix = Some pat \<longleftrightarrow> rule = prefix @ pat"
  by (auto simp: ruleArg_def HasPrefix_iff)

lemma use_step_get:
  "get (use_step re sh compiled opts e used) (host, pat) = Some True \<longleftrightarrow>
     get used (host, pat) = Some True \<or>
     e_Host e = host \<and> (\<exists>allowed rule. decided re sh compiled opts e = Some (allowed, rule) \<and> rule \<in> {''allow:'' @ pat, ''deny:'' @ pat})"
  by (auto simp: use_step_def mark_used_def ruleArg_Some split: option.splits prod.splits)
    (auto simp: ruleArg_def HasPrefix_iff)

lemma use_fold_get:
  "get (fold (use_step re sh compiled opts) es used) (host, pat) = Some True \<longleftrightarrow>
     get used (host, pat) = Some True \<or>
     (\<exists>e\<in>set es. e_Host e = host \<and>
        (\<exists>allowed rule. decided re sh compiled opts e = Some (allowed, rule) \<and> rule \<in> {''allow:'' @ pat, ''deny:'' @ pat}))"
  by (induction es arbitrary: used) (auto simp: use_step_get)

lemma in_concat_map: "y \<in> set (concat (map f xs)) \<longleftrightarrow> (\<exists>x\<in>set xs. y \<in> set (f x))"
  by simp

lemma dead_rule_eq: "dead_rule h p = dead_rule h' p' \<longleftrightarrow> h = h' \<and> p = p'"
  by (simp add: dead_rule_def)

lemma buildDeadRules_mem:
  "s \<in> set (buildDeadRules compiled used opts) \<longleftrightarrow>
     (\<exists>host hp cp pat. (host, hp) \<in> set compiled \<and> ro_Host opts \<in> {'''', host} \<and> cp \<in> set (set_of hp) \<and>
        pat \<in> set (cp_Allow cp) \<union> set (cp_Deny cp) \<and> get used (host, pat) \<noteq> Some True \<and> s = dead_rule host pat)"
    (is "_ \<longleftrightarrow> ?r")
proof
  assume "s \<in> set (buildDeadRules compiled used opts)"
  then obtain x where "x \<in> set compiled" "s \<in> set (case x of (host, hp) \<Rightarrow>
       if ro_Host opts \<noteq> '''' \<and> host \<noteq> ro_Host opts then []
       else concat (map (\<lambda>cp. map (dead_rule host) (filter (\<lambda>pat. get used (host, pat) \<noteq> Some True) (cp_Allow cp @ cp_Deny cp))) (set_of hp)))"
    unfolding buildDeadRules_def set_concat set_map by blast
  moreover obtain host hp where "x = (host, hp)" by fastforce
  ultimately have h: "(host, hp) \<in> set compiled" "ro_Host opts \<in> {'''', host}"
    "s \<in> set (concat (map (\<lambda>cp. map (dead_rule host) (filter (\<lambda>pat. get used (host, pat) \<noteq> Some True) (cp_Allow cp @ cp_Deny cp))) (set_of hp)))"
    by (auto split: if_splits)
  from h(3) obtain cp where cp: "cp \<in> set (set_of hp)"
    "s \<in> set (map (dead_rule host) (filter (\<lambda>pat. get used (host, pat) \<noteq> Some True) (cp_Allow cp @ cp_Deny cp)))"
    unfolding in_concat_map by blast
  from cp(2) obtain pat where "pat \<in> set (cp_Allow cp) \<union> set (cp_Deny cp)" "get used (host, pat) \<noteq> Some True" "s = dead_rule host pat"
    unfolding set_map set_filter set_append by blast
  with h(1,2) cp(1) show ?r by blast
next
  assume ?r
  then obtain host hp cp pat where h: "(host, hp) \<in> set compiled" "ro_Host opts \<in> {'''', host}" "cp \<in> set (set_of hp)"
    "pat \<in> set (cp_Allow cp) \<union> set (cp_Deny cp)" "get used (host, pat) \<noteq> Some True" "s = dead_rule host pat" by blast
  then show "s \<in> set (buildDeadRules compiled used opts)"
    by (auto simp: buildDeadRules_def intro!: bexI [of _ "(host, hp)"] bexI [of _ cp])
qed

text \<open>
  Dead rules are exact with respect to the reported rule: a pattern of a host is reported dead
  exactly when no decided entry of the window on that host names it as the rule of its decision.
\<close>

theorem dead_rules_exact:
  "(\<exists>s. s \<in> set (Recommend re sh es compiled opts) \<and> sg_Type s = DeadRule \<and> sg_Host s = host \<and> sg_Pattern s = pat) \<longleftrightarrow>
   ro_Host opts \<in> {'''', host} \<and>
   (\<exists>hp cp. (host, hp) \<in> set compiled \<and> cp \<in> set (set_of hp) \<and> pat \<in> set (cp_Allow cp) \<union> set (cp_Deny cp)) \<and>
   \<not> (\<exists>e\<in>set es. e_Host e = host \<and>
        (\<exists>allowed rule. decided re sh compiled opts e = Some (allowed, rule) \<and> rule \<in> {''allow:'' @ pat, ''deny:'' @ pat}))"
    (is "?l \<longleftrightarrow> ?r")
proof -
  let ?used = "fold (use_step re sh compiled opts) es []"
  have "s \<in> set (Recommend re sh es compiled opts) \<and> sg_Type s = DeadRule \<longleftrightarrow> s \<in> set (buildDeadRules compiled ?used opts)" for s
    unfolding set_Recommend Let_def using buildCmd_type buildDeadRules_type by fastforce
  then have "?l \<longleftrightarrow> (\<exists>s \<in> set (buildDeadRules compiled ?used opts). sg_Host s = host \<and> sg_Pattern s = pat)" by auto
  also have "\<dots> \<longleftrightarrow> ro_Host opts \<in> {'''', host} \<and>
      (\<exists>hp cp. (host, hp) \<in> set compiled \<and> cp \<in> set (set_of hp) \<and> pat \<in> set (cp_Allow cp) \<union> set (cp_Deny cp)) \<and>
      get ?used (host, pat) \<noteq> Some True"
      (is "_ \<longleftrightarrow> ?m")
  proof
    assume "\<exists>s \<in> set (buildDeadRules compiled ?used opts). sg_Host s = host \<and> sg_Pattern s = pat"
    then obtain s where s: "s \<in> set (buildDeadRules compiled ?used opts)" "sg_Host s = host" "sg_Pattern s = pat" by blast
    from s(1) obtain h p where sh: "s = dead_rule h p" unfolding buildDeadRules_mem by blast
    from s(2,3) have hp: "h = host" "p = pat" unfolding sh by (simp_all add: dead_rule_def)
    from s(1) show ?m unfolding sh hp buildDeadRules_mem dead_rule_eq by blast
  next
    assume ?m
    then have "dead_rule host pat \<in> set (buildDeadRules compiled ?used opts)" unfolding buildDeadRules_mem by blast
    then show "\<exists>s \<in> set (buildDeadRules compiled ?used opts). sg_Host s = host \<and> sg_Pattern s = pat"
      by (rule bexI [rotated]) (simp add: dead_rule_def)
  qed
  finally show ?thesis unfolding use_fold_get by simp
qed


section \<open>Explain\<close>

text \<open>
  Where a policy of the effective set comes from: the policy \<open>n\<close> of the library, by the default
  group or a group of the host, or the host's own policy.
\<close>

definition contributes :: "HostPolicy \<Rightarrow> policyConfig \<Rightarrow> string \<Rightarrow> string \<Rightarrow> CommandPolicy \<Rightarrow> bool" where
  "contributes hp cfg n g cp \<longleftrightarrow>
     n = ''<inline>'' \<and> g = ''host'' \<and> cp = hp_CommandPolicy hp \<and> cp_Restricts cp \<or>
     (g = ''_default'' \<or> g \<in> set (hp_Groups hp)) \<and> n \<in> set (group_names (pc_GroupCommandPolicies cfg) g) \<and>
     get (pc_CommandPolicies cfg) n = Some cp"

definition labelled :: "(string \<Rightarrow> string \<Rightarrow> CommandPolicy \<Rightarrow> bool) \<Rightarrow> string list \<Rightarrow> PolicySet \<Rightarrow> bool" where
  "labelled P lines ps \<longleftrightarrow> list_all2 (\<lambda>l cp. \<exists>n g. P n g cp \<and> l = contributor_line n g cp) lines ps"

lemma labelled_Nil [simp]: "labelled P [] ps \<longleftrightarrow> ps = []" "labelled P ls [] \<longleftrightarrow> ls = []"
  by (simp_all add: labelled_def)

lemma labelled_snoc [simp]: "labelled P out ps \<Longrightarrow> P n g cp \<Longrightarrow> labelled P (out @ [contributor_line n g cp]) (ps @ [cp])"
  unfolding labelled_def by (intro list_all2_appendI) auto

lemma contributors_add_sim:
  assumes "labelled P out ps" and "\<forall>n\<in>set names. \<forall>cp. get lib n = Some cp \<longrightarrow> P n g cp"
  shows "fst (contributors_add lib g names (seen, out)) = fst (add_policies lib names (seen, ps)) \<and>
     labelled P (snd (contributors_add lib g names (seen, out))) (snd (add_policies lib names (seen, ps)))"
  using assms
  by (induction lib names "(seen, ps)" arbitrary: seen ps out rule: add_policies.induct)
    (auto split: option.splits)

lemma contributors_fold_sim:
  assumes "fst acc = fst acc'" and "labelled P (snd acc) (snd acc')"
    and "\<forall>g\<in>set gs. \<forall>n\<in>set (group_names gp g). \<forall>cp. get lib n = Some cp \<longrightarrow> P n g cp"
  shows "labelled P (snd (fold (\<lambda>g acc. contributors_add lib g (group_names gp g) acc) gs acc))
     (snd (fold (\<lambda>g acc. add_policies lib (group_names gp g) acc) gs acc'))"
  using assms
proof (induction gs arbitrary: acc acc')
  case (Cons g gs)
  obtain seen out ps where a: "acc = (seen, out)" "acc' = (seen, ps)" using Cons.prems(1) by (cases acc; cases acc') auto
  have "\<forall>n\<in>set (group_names gp g). \<forall>cp. get lib n = Some cp \<longrightarrow> P n g cp" using Cons.prems(3) by simp
  from contributors_add_sim [where P = P and g = g and lib = lib, OF _ this, of out ps seen] a Cons.prems show ?case
    by (simp only: fold_simps comp_def) (rule Cons.IH; simp)
qed simp

lemma policyContributors_labelled:
  "labelled (contributes hp cfg) (policyContributors hp cfg)
     (case composePolicies hp (pc_CommandPolicies cfg) (pc_GroupCommandPolicies cfg) of None \<Rightarrow> [] | Some ps \<Rightarrow> ps)"
proof -
  let ?lib = "pc_CommandPolicies cfg" and ?gp = "pc_GroupCommandPolicies cfg" and ?P = "contributes hp cfg"
  let ?out = "snd (fold (\<lambda>g acc. contributors_add ?lib g (group_names ?gp g) acc) (hp_Groups hp)
       (contributors_add ?lib ''_default'' (group_names ?gp ''_default'') ([], [])))"
    and ?ps = "snd (fold (\<lambda>g acc. add_policies ?lib (group_names ?gp g) acc) (hp_Groups hp)
       (add_policies ?lib (group_names ?gp ''_default'') ([], [])))"
  have "\<forall>n\<in>set (group_names ?gp ''_default''). \<forall>cp. get ?lib n = Some cp \<longrightarrow> ?P n ''_default'' cp"
    by (simp add: contributes_def)
  from contributors_add_sim [where P = ?P and g = "''_default''" and lib = ?lib, OF _ this, of "[]" "[]" "[]"] have l: "labelled ?P ?out ?ps"
    by (intro contributors_fold_sim) (auto simp: contributes_def)
  have "labelled ?P (?out @ [contributor_line ''<inline>'' ''host'' (hp_CommandPolicy hp)]) (?ps @ [hp_CommandPolicy hp])"
    if "cp_Restricts (hp_CommandPolicy hp)"
    using that by (intro labelled_snoc [OF l]) (simp add: contributes_def)
  with l show ?thesis by (auto simp: policyContributors_def composePolicies_def Let_def)
qed

text \<open>The beginning of the decision line that the signer's answer for a command calls for.\<close>

definition expected_verdict :: "sign_error + commandPolicyResult \<Rightarrow> string" where
  "expected_verdict r =
     (case r of
        Inl (CommandPolicyError _ _) \<Rightarrow> ''Decision: ERROR''
      | Inl _ \<Rightarrow> ''Decision: DENIED''
      | Inr res \<Rightarrow>
          if cr_WouldDeny res \<or> cr_WouldRequireApproval res then ''Decision: ALLOWED with audit warning''
          else if cr_RequireApproval res then ''Decision: ALLOWED, requires approval''
          else ''Decision: ALLOWED  (rule: '')"

lemma Decide_unrestricted:
  assumes "\<not> ps_Restricts ps" and "\<not> shellParse ps"
  shows "\<exists>rule. Decide re sh ps command = (True, False, rule, None)"
proof (cases "ps = []")
  case True
  then show ?thesis by (simp add: Decide_def)
next
  case False
  have none: "\<not> (cp_Mode p = CmdPolicyDenylist)" "cp_RequireApproval p = []" "\<not> (cp_Mode p = CmdPolicyAllowlist)" if "p \<in> set ps" for p
    using assms(1) that by (auto simp: ps_Restricts_def list_ex_iff cp_Restricts_def cp_Active_def)
  have e: "scan_set re sel pats command qs = NoMatch" if "\<And>p. p \<in> set qs \<Longrightarrow> \<not> sel p \<or> pats p = []" for sel pats qs
    using that by (induction qs) auto
  have "decideOne re ps command = (True, False, '''', None)"
    using none by (simp add: decideOne_def e hasAllowlist_def list_ex_iff)
  then show ?thesis using False assms(2) by (simp add: Decide_def)
qed

text \<open>
  C35: \<open>policy explain\<close> tells what the signer does, apart from runtime grants. For an accepted
  configuration its whole output is the heading, one line per policy of the host's effective set,
  in the order of composition and each naming the library policy and the group (or the host) that
  the policy comes from, a note when there is none, the state of sessions and, for a command, the
  command and a verdict; and that verdict is the one the signer without runtime grants reaches for
  a one-shot command on the host: an error, a denial, an audit warning, an approval, or a plain
  permission. This holds unless the effective set restricts nothing and yet asks for shell parsing.
\<close>

theorem explain_agrees:
  assumes "CompileHostPolicies re (pc_Hosts cfg) (pc_CommandPolicies cfg) (pc_GroupCommandPolicies cfg) = Inr compiled"
    and "map_ok (pc_Hosts cfg)" and "get (pc_Hosts cfg) host = Some hp" and "in_Role i = RoleTarget" and "in_Purpose i \<noteq> PurposeSession"
    and "\<And>chp. get compiled host = Some chp \<Longrightarrow> shellParse (effectivePolicies chp) \<Longrightarrow> ps_Restricts (effectivePolicies chp)"
  shows "\<exists>chp lines verdict. get compiled host = Some chp \<and>
     list_all2 (\<lambda>l cp. \<exists>n g. contributes hp cfg n g cp \<and> l = contributor_line n g cp) lines (effectivePolicies chp) \<and>
     HasPrefix verdict (expected_verdict (resolveCommandPolicy re sh chp i None now)) \<and>
     cmdPolicyExplain re sh errtext (Some cfg) host (in_Command i) =
       Inr (''Host:   '' @ host @ nl @ ''Groups: '' @ dashJoin (hp_Groups hp) @ nl @
         ''Effective command policies (composed; union of allows, deny wins):'' @ nl @
         concat (map (\<lambda>l. ''  - '' @ l @ nl) lines) @
         (if effectivePolicies chp = [] then ''  (none '' @ em_dash @ '' no command restriction; every command is allowed)'' @ nl else '''') @
         ''Sessions: '' @ (if ps_Restricts (effectivePolicies chp)
           then ''exec preflighted; shell/pty rejected (command policy active)'' else ''allowed'') @ nl @
         (if in_Command i = '''' then '''' else nl @ ''Command: '' @ in_Command i @ nl @ verdict))"
proof -
  define chp where "chp = hp\<lparr>hp_Policies := composePolicies hp (pc_CommandPolicies cfg) (pc_GroupCommandPolicies cfg)\<rparr>"
  have chp: "get compiled host = Some chp" using CompileHostPolicies_get(1) [OF assms(1,2)] assms(3) by (simp add: chp_def)
  have eff: "effectivePolicies chp = set_of chp"
    unfolding chp_def effectivePolicies_composed by (simp add: set_of_def)
  have ls: "list_all2 (\<lambda>l cp. \<exists>n g. contributes hp cfg n g cp \<and> l = contributor_line n g cp)
      (policyContributors hp cfg) (effectivePolicies chp)"
    using policyContributors_labelled unfolding labelled_def chp_def effectivePolicies_composed .
  let ?d = "decision_line re sh errtext (effectivePolicies chp) (in_Command i)"
  have v: "HasPrefix ?d (expected_verdict (resolveCommandPolicy re sh chp i None now))"
  proof (cases "ps_Restricts (effectivePolicies chp)")
    case True
    obtain a n r e where D: "Decide re sh (effectivePolicies chp) (in_Command i) = (a, n, r, e)" by (metis prod_cases4)
    show ?thesis
      using True assms(4,5) by (cases e; cases a; cases n; cases "ps_Enforcement (effectivePolicies chp) = CmdPolicyAudit")
        (simp_all add: resolveCommandPolicy_def decision_set_def decision_line_def D expected_verdict_def zero_result_def Let_def HasPrefix_def)
  next
    case False
    with assms(6) [OF chp] have "\<not> shellParse (effectivePolicies chp)" by blast
    with Decide_unrestricted False obtain rule where "Decide re sh (effectivePolicies chp) (in_Command i) = (True, False, rule, None)" by blast
    with False show ?thesis
      by (simp add: resolveCommandPolicy_def decision_set_def decision_line_def expected_verdict_def zero_result_def Let_def HasPrefix_def)
  qed
  show ?thesis
    using assms(1,3) chp ls v
    by (intro exI [of _ chp] exI [of _ "policyContributors hp cfg"] exI [of _ ?d])
      (simp add: cmdPolicyExplain_def printDecision_def sessionStatus_def eff Let_def)
qed

section \<open>Samples\<close>

text \<open>An engine in which a pattern matches the text it is the anchored literal of.\<close>

definition literal_engine :: regex_engine where
  "literal_engine pat = Some (\<lambda>c. anchored c = pat)"

definition empty_allowlist :: CommandPolicy where
  "empty_allowlist = zero_policy\<lparr>cp_Mode := CmdPolicyAllowlist\<rparr>"

theorem promoted_rule_effect_witness:
  "fst (Decide literal_engine sample_sh (widen [] empty_allowlist (anchored ''ls'') []) ''ls'') \<and>
   \<not> fst (Decide literal_engine sample_sh (widen [] empty_allowlist (anchored ''ls'') []) ''rm'')"
proof -
  have c: "compiles literal_engine ([] @ empty_allowlist # [])" by (simp add: compiles_def literal_engine_def)
  have m: "cp_Mode empty_allowlist = CmdPolicyAllowlist" by (simp add: empty_allowlist_def)
  have r: "literal_engine (anchored ''ls'') = Some (\<lambda>c. c = ''ls'')" by (simp add: literal_engine_def fun_eq_iff)
  have s: "segments sample_sh ([] @ empty_allowlist # []) l = Inr [l]" for l
    by (simp add: segments_def shellParse_def empty_allowlist_def zero_policy_def)
  from promoted_rule_effect [OF c m r s, of "''ls''"] promoted_rule_effect [OF c m r s, of "''rm''"] show ?thesis
    by (auto simp: spec_defs empty_allowlist_def zero_policy_def)
qed

definition sample_policy_config :: policyConfig where
  "sample_policy_config = \<lparr>pc_Hosts = [(''web01'', sample_host)], pc_CommandPolicies = [], pc_GroupCommandPolicies = []\<rparr>"

lemma sample_policy_compiled:
  "CompileHostPolicies sample_engine [(''web01'', sample_host)] [] [] = Inr [(''web01'', sample_host\<lparr>hp_Policies := Some [sample_policy]\<rparr>)]"
  by (simp add: CompileHostPolicies_def compile_host_def composePolicies_def group_names_def cp_Validate_def cp_Restricts_def
      cp_Active_def sample_defs)

theorem explain_agrees_witness:
  "\<exists>pre verdict. cmdPolicyExplain sample_engine sample_sh (\<lambda>_. '''') (Some sample_policy_config) ''web01'' ''uptime'' = Inr (pre @ verdict) \<and>
     HasPrefix verdict ''Decision: ALLOWED  (rule: ''"
proof -
  let ?chp = "sample_host\<lparr>hp_Policies := Some [sample_policy]\<rparr>"
  have c: "CompileHostPolicies sample_engine (pc_Hosts sample_policy_config) (pc_CommandPolicies sample_policy_config)
      (pc_GroupCommandPolicies sample_policy_config) = Inr [(''web01'', ?chp)]"
    using sample_policy_compiled by (simp add: sample_policy_config_def)
  have o: "map_ok (pc_Hosts sample_policy_config)" "get (pc_Hosts sample_policy_config) ''web01'' = Some sample_host"
    "in_Role sample_intent = RoleTarget" "in_Purpose sample_intent \<noteq> PurposeSession"
    by (simp_all add: sample_policy_config_def map_ok_def sample_intent_def)
  have s: "ps_Restricts (effectivePolicies chp)" if "get [(''web01'', ?chp)] ''web01'' = Some chp" for chp
    using that by (auto simp: effectivePolicies_def ps_Restricts_def cp_Restricts_def cp_Active_def sample_policy_def zero_policy_def)
  have e: "expected_verdict (resolveCommandPolicy sample_engine sample_sh ?chp sample_intent None 0) = ''Decision: ALLOWED  (rule: ''"
    by code_simp
  have k: "in_Command sample_intent = ''uptime''" by (simp add: sample_intent_def)
  have more: "\<exists>pre. a @ b = pre @ v" if "\<exists>pre. b = pre @ v" for a b v :: string
    using that by (metis append_assoc)
  from explain_agrees [OF c o s, where errtext = "\<lambda>_. ''''" and sh = sample_sh and now = 0, unfolded k]
  obtain lines verdict where v: "HasPrefix verdict ''Decision: ALLOWED  (rule: ''"
    and out: "cmdPolicyExplain sample_engine sample_sh (\<lambda>_. '''') (Some sample_policy_config) ''web01'' ''uptime'' =
       Inr (''Host:   '' @ ''web01'' @ nl @ ''Groups: '' @ dashJoin (hp_Groups sample_host) @ nl @
         ''Effective command policies (composed; union of allows, deny wins):'' @ nl @
         concat (map (\<lambda>l. ''  - '' @ l @ nl) lines) @
         (if effectivePolicies ?chp = [] then ''  (none '' @ em_dash @ '' no command restriction; every command is allowed)'' @ nl else '''') @
         ''Sessions: '' @ (if ps_Restricts (effectivePolicies ?chp)
           then ''exec preflighted; shell/pty rejected (command policy active)'' else ''allowed'') @ nl @
         (if ''uptime'' = '''' then '''' else nl @ ''Command: '' @ ''uptime'' @ nl @ verdict))"
    using e by auto
  have "\<exists>pre. nl @ ''Command: '' @ ''uptime'' @ nl @ verdict = pre @ verdict" by (intro more exI [of _ "[]"]) simp
  then have "\<exists>pre. (if ''uptime'' = '''' then '''' else nl @ ''Command: '' @ ''uptime'' @ nl @ verdict) = pre @ verdict" by simp
  then have "\<exists>pre. projr (cmdPolicyExplain sample_engine sample_sh (\<lambda>_. '''') (Some sample_policy_config) ''web01'' ''uptime'') = pre @ verdict"
    unfolding out sum.sel by - (rule more)+
  with v out show ?thesis by (metis sum.sel(2))
qed

text \<open>
  A pattern reported dead may be the one that lets an observed command through: with a rule that
  asks for approval of the same command, the decision names that rule instead, so the allow pattern
  is reported dead although the command ran, and without it the command is denied.
\<close>

theorem dead_rule_in_use:
  "let p = zero_policy\<lparr>cp_Mode := CmdPolicyAllowlist, cp_Allow := [''ls'', ''id''], cp_RequireApproval := [''ls'']\<rparr>;
       e = zero_entry\<lparr>e_Host := ''h'', e_Command := ''ls'', e_Outcome := ''executed''\<rparr>;
       opts = \<lparr>ro_Host = '''', ro_Since = None, ro_MinCount = 1\<rparr>
   in dead_rule ''h'' ''ls'' \<in> set (Recommend sample_engine sample_sh [e] [(''h'', sample_host\<lparr>hp_Policies := Some [p]\<rparr>)] opts) \<and>
      fst (Decide sample_engine sample_sh [p] ''ls'') \<and>
      \<not> fst (Decide sample_engine sample_sh [p\<lparr>cp_Allow := [''id'']\<rparr>] ''ls'')"
  by code_simp

text \<open>
  The exception to the agreement: a policy that restricts nothing but asks for shell parsing makes
  \<open>policy explain\<close> report an error for a line the parser refuses, although the signer allows it.
\<close>

theorem explain_disagrees_unrestricted:
  assumes "sh_Parse sh command = Inl msg" and "in_Role i = RoleTarget" and "in_Command i = command"
    and "hp_Policies hp = Some [zero_policy\<lparr>cp_ShellParse := True\<rparr>]"
  shows "HasPrefix (decision_line re sh errtext (set_of hp) command) ''Decision: ERROR'' \<and>
     resolveCommandPolicy re sh hp i None now = Inr zero_result"
  using assms
  by (simp add: decision_line_def set_of_def Decide_def shellParse_def extractCommands_def zero_policy_def ps_Enforcement_def
      cp_Restricts_def cp_Active_def HasPrefix_def resolveCommandPolicy_def decision_set_def effectivePolicies_def ps_Restricts_def)

end
