(* ===== verification/Ctl_Config.thy ===== *)
theory Ctl_Config
  imports GoJson Policy_Tools
begin

text \<open>
  The subcommands of \<open>broker-ctl\<close> that edit the signer's configuration file: hosts, CA keys and
  callers (\<open>src/cmd/broker-ctl/main.go\<close>).

  The file is a text; \<open>parse\<close> and \<open>print\<close> are the JSON library's. A subcommand takes its parsed flags,
  with the names of those that were given, and the content of the file (\<open>None\<close> when it cannot be
  read), and returns an error, with the file unchanged, or the new content. A raw map that is \<open>None\<close>
  is the nil map, on which an assignment panics.
\<close>

section \<open>The file\<close>

type_synonym raw_config = "(string, json) gomap"

datatype edit_error = EditUsage | HostKeyRequired | HostKeyExclusive | HostKeyFailed | EditReadFailed | EditParseFailed
  | NilMapPanic | EditExists string | EditNotFound string | EditPolicyInvalid | EditWriteFailed | EditFlagMissing | EditUnsupportedType string

definition loadRaw :: "(string \<Rightarrow> json option) \<Rightarrow> string option \<Rightarrow> edit_error + raw_config option" where
  "loadRaw parse file =
     (case file of
        None \<Rightarrow> Inl EditReadFailed
      | Some data \<Rightarrow>
     (case parse data of
        None \<Rightarrow> Inl EditParseFailed
      | Some JNull \<Rightarrow> Inr None
      | Some j \<Rightarrow> (case decode_map Some j of None \<Rightarrow> Inl EditParseFailed | Some raw \<Rightarrow> Inr (Some raw))))"

abbreviation raw_get :: "raw_config option \<Rightarrow> string \<Rightarrow> json option" where
  "raw_get raw k \<equiv> Option.bind raw (\<lambda>m. get m k)"

definition writeRaw :: "(json \<Rightarrow> string) \<Rightarrow> bool \<Rightarrow> raw_config \<Rightarrow> edit_error + string" where
  "writeRaw print ok raw =
     (if ok then Inr (print (encode_map (\<lambda>j. j) raw) @ [CHR 0x0A]) else Inl EditWriteFailed)"

text \<open>The last step of each edit: the section is set in the raw map and the file is replaced.\<close>

definition write_section :: "(json \<Rightarrow> string) \<Rightarrow> bool \<Rightarrow> string \<Rightarrow> json \<Rightarrow> raw_config option \<Rightarrow> edit_error + string" where
  "write_section print ok key value raw =
     (case raw of None \<Rightarrow> Inl NilMapPanic | Some m \<Rightarrow> writeRaw print ok (put key value m))"

definition splitComma :: "string \<Rightarrow> string list" where
  "splitComma s = filter (\<lambda>p. p \<noteq> '''') (map TrimSpace (Split1 (CHR '','') s))"

section \<open>Host entries\<close>

record hostEntry =
  he_Addr :: string
  he_User :: string
  he_HostKey :: string
  he_Jump :: string
  he_Principal :: string
  he_SourceAddress :: string
  he_MaxTTLSeconds :: int
  he_AllowAsBastion :: bool
  he_AllowedCallers :: "string list"
  he_AllowSudo :: bool
  he_AllowedSudoUsers :: "string list"
  he_AllowPTY :: bool
  he_AllowFileTransfer :: bool
  he_Groups :: "string list"
  he_CommandPolicy :: "json option"

definition zero_host :: hostEntry where
  "zero_host = \<lparr>he_Addr = '''', he_User = '''', he_HostKey = '''', he_Jump = '''', he_Principal = '''', he_SourceAddress = '''',
     he_MaxTTLSeconds = 0, he_AllowAsBastion = False, he_AllowedCallers = [], he_AllowSudo = False, he_AllowedSudoUsers = [],
     he_AllowPTY = False, he_AllowFileTransfer = False, he_Groups = [], he_CommandPolicy = None\<rparr>"

definition host_fields :: "hostEntry json_field list" where
  "host_fields =
     [(''addr'', \<lambda>j h. map_option (\<lambda>v. h\<lparr>he_Addr := v\<rparr>) (dec_string j (he_Addr h))),
      (''user'', \<lambda>j h. map_option (\<lambda>v. h\<lparr>he_User := v\<rparr>) (dec_string j (he_User h))),
      (''host_key'', \<lambda>j h. map_option (\<lambda>v. h\<lparr>he_HostKey := v\<rparr>) (dec_string j (he_HostKey h))),
      (''jump'', \<lambda>j h. map_option (\<lambda>v. h\<lparr>he_Jump := v\<rparr>) (dec_string j (he_Jump h))),
      (''principal'', \<lambda>j h. map_option (\<lambda>v. h\<lparr>he_Principal := v\<rparr>) (dec_string j (he_Principal h))),
      (''source_address'', \<lambda>j h. map_option (\<lambda>v. h\<lparr>he_SourceAddress := v\<rparr>) (dec_string j (he_SourceAddress h))),
      (''max_ttl_seconds'', \<lambda>j h. map_option (\<lambda>v. h\<lparr>he_MaxTTLSeconds := v\<rparr>) (dec_number j (he_MaxTTLSeconds h))),
      (''allow_as_bastion'', \<lambda>j h. map_option (\<lambda>v. h\<lparr>he_AllowAsBastion := v\<rparr>) (dec_bool j (he_AllowAsBastion h))),
      (''allowed_callers'', \<lambda>j h. map_option (\<lambda>v. h\<lparr>he_AllowedCallers := v\<rparr>) (dec_strings j (he_AllowedCallers h))),
      (''allow_sudo'', \<lambda>j h. map_option (\<lambda>v. h\<lparr>he_AllowSudo := v\<rparr>) (dec_bool j (he_AllowSudo h))),
      (''allowed_sudo_users'', \<lambda>j h. map_option (\<lambda>v. h\<lparr>he_AllowedSudoUsers := v\<rparr>) (dec_strings j (he_AllowedSudoUsers h))),
      (''allow_pty'', \<lambda>j h. map_option (\<lambda>v. h\<lparr>he_AllowPTY := v\<rparr>) (dec_bool j (he_AllowPTY h))),
      (''allow_file_transfer'', \<lambda>j h. map_option (\<lambda>v. h\<lparr>he_AllowFileTransfer := v\<rparr>) (dec_bool j (he_AllowFileTransfer h))),
      (''groups'', \<lambda>j h. map_option (\<lambda>v. h\<lparr>he_Groups := v\<rparr>) (dec_strings j (he_Groups h))),
      (''command_policy'', \<lambda>j h. Some (h\<lparr>he_CommandPolicy := Some j\<rparr>))]"

definition decode_host :: "json \<Rightarrow> hostEntry option" where
  "decode_host j = decode_struct False host_fields j zero_host"

text \<open>Members with \<open>omitempty\<close>.\<close>

definition omit_string :: "string \<Rightarrow> string \<Rightarrow> (string \<times> json) list" where
  "omit_string k s = (if s = '''' then [] else [(k, JStr (utf8_text s))])"

definition omit_bool :: "string \<Rightarrow> bool \<Rightarrow> (string \<times> json) list" where
  "omit_bool k b = (if b then [(k, JBool True)] else [])"

definition omit_strings :: "string \<Rightarrow> string list \<Rightarrow> (string \<times> json) list" where
  "omit_strings k ss = (if ss = [] then [] else [(k, json_strings ss)])"

definition omit_number :: "string \<Rightarrow> int \<Rightarrow> (string \<times> json) list" where
  "omit_number k i = (if i = 0 then [] else [(k, JNum (Itoa i))])"

definition omit_raw :: "string \<Rightarrow> json option \<Rightarrow> (string \<times> json) list" where
  "omit_raw k j = (case j of None \<Rightarrow> [] | Some v \<Rightarrow> [(k, v)])"

definition encode_host :: "hostEntry \<Rightarrow> json" where
  "encode_host h = JObj (
     [(''addr'', JStr (utf8_text (he_Addr h))), (''user'', JStr (utf8_text (he_User h))), (''host_key'', JStr (utf8_text (he_HostKey h)))] @
     omit_string ''jump'' (he_Jump h) @ [(''principal'', JStr (utf8_text (he_Principal h)))] @
     omit_string ''source_address'' (he_SourceAddress h) @
     omit_number ''max_ttl_seconds'' (he_MaxTTLSeconds h) @
     omit_bool ''allow_as_bastion'' (he_AllowAsBastion h) @ omit_strings ''allowed_callers'' (he_AllowedCallers h) @
     omit_bool ''allow_sudo'' (he_AllowSudo h) @ omit_strings ''allowed_sudo_users'' (he_AllowedSudoUsers h) @
     omit_bool ''allow_pty'' (he_AllowPTY h) @ omit_bool ''allow_file_transfer'' (he_AllowFileTransfer h) @
     omit_strings ''groups'' (he_Groups h) @
     omit_raw ''command_policy'' (he_CommandPolicy h))"

definition extractHosts :: "raw_config option \<Rightarrow> (string, hostEntry) gomap option" where
  "extractHosts raw = (case raw_get raw ''hosts'' of None \<Rightarrow> Some [] | Some j \<Rightarrow> decode_map decode_host j)"

definition writeHosts :: "(json \<Rightarrow> string) \<Rightarrow> bool \<Rightarrow> raw_config option \<Rightarrow> (string, hostEntry) gomap \<Rightarrow> edit_error + string" where
  "writeHosts print ok raw hosts = write_section print ok ''hosts'' (encode_map encode_host hosts) raw"

section \<open>Command policies\<close>

record commandPolicyJSON =
  cj_Mode :: string
  cj_Enforcement :: string
  cj_Allow :: "string list"
  cj_Deny :: "string list"
  cj_RequireApproval :: "string list"
  cj_ShellParse :: bool

definition zero_policyJSON :: commandPolicyJSON where
  "zero_policyJSON = \<lparr>cj_Mode = '''', cj_Enforcement = '''', cj_Allow = [], cj_Deny = [], cj_RequireApproval = [], cj_ShellParse = False\<rparr>"

definition policy_fields :: "commandPolicyJSON json_field list" where
  "policy_fields =
     [(''mode'', \<lambda>j p. map_option (\<lambda>v. p\<lparr>cj_Mode := v\<rparr>) (dec_string j (cj_Mode p))),
      (''enforcement'', \<lambda>j p. map_option (\<lambda>v. p\<lparr>cj_Enforcement := v\<rparr>) (dec_string j (cj_Enforcement p))),
      (''allow'', \<lambda>j p. map_option (\<lambda>v. p\<lparr>cj_Allow := v\<rparr>) (dec_strings j (cj_Allow p))),
      (''deny'', \<lambda>j p. map_option (\<lambda>v. p\<lparr>cj_Deny := v\<rparr>) (dec_strings j (cj_Deny p))),
      (''require_approval'', \<lambda>j p. map_option (\<lambda>v. p\<lparr>cj_RequireApproval := v\<rparr>) (dec_strings j (cj_RequireApproval p))),
      (''shell_parse'', \<lambda>j p. map_option (\<lambda>v. p\<lparr>cj_ShellParse := v\<rparr>) (dec_bool j (cj_ShellParse p)))]"

definition decode_policy :: "json \<Rightarrow> commandPolicyJSON option" where
  "decode_policy j = decode_struct False policy_fields j zero_policyJSON"

definition encode_policy :: "commandPolicyJSON \<Rightarrow> json" where
  "encode_policy p = JObj (
     omit_string ''mode'' (cj_Mode p) @ omit_string ''enforcement'' (cj_Enforcement p) @ omit_strings ''allow'' (cj_Allow p) @
     omit_strings ''deny'' (cj_Deny p) @ omit_strings ''require_approval'' (cj_RequireApproval p) @ omit_bool ''shell_parse'' (cj_ShellParse p))"

record policy_flags =
  pf_mode :: string
  pf_enforcement :: string
  pf_allow :: string
  pf_deny :: string
  pf_requireApproval :: string
  pf_shellParse :: bool

definition buildCommandPolicyJSON :: "policy_flags \<Rightarrow> json" where
  "buildCommandPolicyJSON f =
     encode_policy \<lparr>cj_Mode = pf_mode f, cj_Enforcement = pf_enforcement f, cj_Allow = splitComma (pf_allow f), cj_Deny = splitComma (pf_deny f),
       cj_RequireApproval = splitComma (pf_requireApproval f), cj_ShellParse = pf_shellParse f\<rparr>"

definition merge_policy :: "string list \<Rightarrow> policy_flags \<Rightarrow> commandPolicyJSON \<Rightarrow> commandPolicyJSON" where
  "merge_policy given f p =
     (let p = (if ''policy-mode'' \<in> set given then p\<lparr>cj_Mode := pf_mode f\<rparr> else p);
          p = (if ''policy-enforcement'' \<in> set given then p\<lparr>cj_Enforcement := pf_enforcement f\<rparr> else p);
          p = (if ''allow'' \<in> set given then p\<lparr>cj_Allow := splitComma (pf_allow f)\<rparr> else p);
          p = (if ''deny'' \<in> set given then p\<lparr>cj_Deny := splitComma (pf_deny f)\<rparr> else p);
          p = (if ''require-approval'' \<in> set given then p\<lparr>cj_RequireApproval := splitComma (pf_requireApproval f)\<rparr> else p)
      in if ''shell-parse'' \<in> set given then p\<lparr>cj_ShellParse := pf_shellParse f\<rparr> else p)"

definition mergeCommandPolicyJSON :: "json option \<Rightarrow> string list \<Rightarrow> policy_flags \<Rightarrow> json option" where
  "mergeCommandPolicyJSON existing given f =
     (case (case existing of None \<Rightarrow> Some zero_policyJSON | Some j \<Rightarrow> decode_policy j) of
        None \<Rightarrow> None
      | Some p \<Rightarrow> Some (encode_policy (merge_policy given f p)))"

definition commandPolicyLabel :: "json option \<Rightarrow> string" where
  "commandPolicyLabel raw =
     (case raw of
        None \<Rightarrow> em_dash
      | Some j \<Rightarrow>
     (case decode_struct False (filter (\<lambda>(n, _). n \<noteq> ''shell_parse'') policy_fields) j zero_policyJSON of
        None \<Rightarrow> ''?''
      | Some p \<Rightarrow>
          let count = (\<lambda>name xs. name @ ''('' @ Itoa (int (length xs)) @ '')'');
              label = (if cj_Mode p = ''allowlist'' then count ''allowlist'' (cj_Allow p)
                       else if cj_Mode p = ''denylist'' then count ''denylist'' (cj_Deny p)
                       else if cj_Mode p = ''off'' then
                         (if length (cj_RequireApproval p) > 0 then count ''off+approval'' (cj_RequireApproval p) else ''off'')
                       else if length (cj_RequireApproval p) > 0 then count ''approval'' (cj_RequireApproval p) else em_dash)
          in if cj_Enforcement p = ''audit'' \<and> label \<noteq> em_dash then label @ '' audit'' else label))"

section \<open>host add, host remove\<close>

record host_flags =
  hf_given :: "string list"
  hf_name :: string
  hf_addr :: string
  hf_user :: string
  hf_hostKey :: string
  hf_scan :: bool
  hf_principal :: string
  hf_ttl :: int
  hf_jump :: string
  hf_srcAddr :: string
  hf_sudo :: bool
  hf_sudoUsers :: string
  hf_pty :: bool
  hf_fileTransfer :: bool
  hf_groups :: string
  hf_callers :: string
  hf_bastion :: bool
  hf_force :: bool
  hf_policy :: policy_flags

definition mergeUnsetHostFields :: "hostEntry \<Rightarrow> string list \<Rightarrow> hostEntry \<Rightarrow> hostEntry" where
  "mergeUnsetHostFields existing given hp =
     (let hp = (if ''principal'' \<notin> set given then hp\<lparr>he_Principal := he_Principal existing\<rparr> else hp);
          hp = (if ''ttl'' \<notin> set given then hp\<lparr>he_MaxTTLSeconds := he_MaxTTLSeconds existing\<rparr> else hp);
          hp = (if ''jump'' \<notin> set given then hp\<lparr>he_Jump := he_Jump existing\<rparr> else hp);
          hp = (if ''source-address'' \<notin> set given then hp\<lparr>he_SourceAddress := he_SourceAddress existing\<rparr> else hp);
          hp = (if ''bastion'' \<notin> set given then hp\<lparr>he_AllowAsBastion := he_AllowAsBastion existing\<rparr> else hp);
          hp = (if ''sudo'' \<notin> set given then hp\<lparr>he_AllowSudo := he_AllowSudo existing\<rparr> else hp);
          hp = (if ''sudo-users'' \<notin> set given then hp\<lparr>he_AllowedSudoUsers := he_AllowedSudoUsers existing\<rparr> else hp);
          hp = (if ''pty'' \<notin> set given then hp\<lparr>he_AllowPTY := he_AllowPTY existing\<rparr> else hp);
          hp = (if ''file-transfer'' \<notin> set given then hp\<lparr>he_AllowFileTransfer := he_AllowFileTransfer existing\<rparr> else hp);
          hp = (if ''groups'' \<notin> set given then hp\<lparr>he_Groups := he_Groups existing\<rparr> else hp)
      in if ''callers'' \<notin> set given then hp\<lparr>he_AllowedCallers := he_AllowedCallers existing\<rparr> else hp)"

definition host_of_flags :: "host_flags \<Rightarrow> string \<Rightarrow> hostEntry" where
  "host_of_flags f hk =
     zero_host\<lparr>he_Addr := hf_addr f, he_User := hf_user f, he_HostKey := hk,
       he_Principal := (if hf_principal f = '''' then ''host:'' @ hf_name f else hf_principal f), he_MaxTTLSeconds := hf_ttl f,
       he_Jump := hf_jump f, he_SourceAddress := hf_srcAddr f, he_AllowAsBastion := hf_bastion f, he_AllowSudo := hf_sudo f,
       he_AllowedSudoUsers := (if hf_sudoUsers f \<noteq> '''' then splitComma (hf_sudoUsers f) else []), he_AllowPTY := hf_pty f,
       he_AllowFileTransfer := hf_fileTransfer f, he_Groups := (if hf_groups f \<noteq> '''' then splitComma (hf_groups f) else []),
       he_AllowedCallers := (if hf_callers f \<noteq> '''' then splitComma (hf_callers f) else [])\<rparr>"

definition policySet :: "string list \<Rightarrow> bool" where
  "policySet given \<longleftrightarrow>
     list_ex (\<lambda>n. n \<in> set given) [''policy-mode'', ''policy-enforcement'', ''allow'', ''deny'', ''require-approval'', ''shell-parse'']"

text \<open>The entry that is stored, from the one of the flags and the existing one.\<close>

definition updated_host :: "host_flags \<Rightarrow> hostEntry \<Rightarrow> hostEntry option \<Rightarrow> edit_error + hostEntry" where
  "updated_host f hp existing =
     (let given = hf_given f in
      case existing of
        None \<Rightarrow> Inr (if policySet given then hp\<lparr>he_CommandPolicy := Some (buildCommandPolicyJSON (hf_policy f))\<rparr> else hp)
      | Some old \<Rightarrow>
          if \<not> hf_force f then Inl (EditExists (hf_name f))
          else
            let hp = mergeUnsetHostFields old given hp in
            if \<not> policySet given then Inr (hp\<lparr>he_CommandPolicy := he_CommandPolicy old\<rparr>)
            else case mergeCommandPolicyJSON (he_CommandPolicy old) given (hf_policy f) of
              None \<Rightarrow> Inl EditPolicyInvalid
            | Some cp \<Rightarrow> Inr (hp\<lparr>he_CommandPolicy := Some cp\<rparr>))"

text \<open>\<open>acquired\<close> is the result of \<open>acquireHostKey\<close>.\<close>

definition cmdHostAdd ::
    "(string \<Rightarrow> json option) \<Rightarrow> (json \<Rightarrow> string) \<Rightarrow> bool \<Rightarrow> string option \<Rightarrow> host_flags \<Rightarrow> string option \<Rightarrow> edit_error + string" where
  "cmdHostAdd parse print ok acquired f file =
     (if hf_name f = '''' \<or> hf_addr f = '''' \<or> hf_user f = '''' then Inl EditUsage
      else if \<not> hf_scan f \<and> hf_hostKey f = '''' then Inl HostKeyRequired
      else if hf_scan f \<and> hf_hostKey f \<noteq> '''' then Inl HostKeyExclusive
      else case acquired of
        None \<Rightarrow> Inl HostKeyFailed
      | Some hk \<Rightarrow>
     (case loadRaw parse file of
        Inl err \<Rightarrow> Inl err
      | Inr raw \<Rightarrow>
     (case extractHosts raw of
        None \<Rightarrow> Inl EditParseFailed
      | Some hosts \<Rightarrow>
     (case updated_host f (host_of_flags f hk) (get hosts (hf_name f)) of
        Inl err \<Rightarrow> Inl err
      | Inr hp \<Rightarrow> writeHosts print ok raw (put (hf_name f) hp hosts)))))"

definition cmdHostRemove ::
    "(string \<Rightarrow> json option) \<Rightarrow> (json \<Rightarrow> string) \<Rightarrow> bool \<Rightarrow> string \<Rightarrow> string option \<Rightarrow> edit_error + string" where
  "cmdHostRemove parse print ok name file =
     (case loadRaw parse file of
        Inl err \<Rightarrow> Inl err
      | Inr raw \<Rightarrow>
     (case extractHosts raw of
        None \<Rightarrow> Inl EditParseFailed
      | Some hosts \<Rightarrow>
          if get hosts name = None then Inl (EditNotFound name)
          else writeHosts print ok raw (del name hosts)))"

section \<open>host list\<close>

definition boolStr :: "bool \<Rightarrow> string" where
  "boolStr b = (if b then ''yes'' else ''no'')"

text \<open>A row as its cells, before \<open>tabwriter\<close> aligns the columns.\<close>

definition host_row :: "string \<Rightarrow> hostEntry \<Rightarrow> string list" where
  "host_row n h =
     [n, he_Addr h, he_User h, he_Principal h, Itoa (he_MaxTTLSeconds h) @ ''s'', dash (he_Jump h), dash (he_SourceAddress h),
      boolStr (he_AllowSudo h), dashJoin (he_AllowedSudoUsers h), boolStr (he_AllowPTY h), boolStr (he_AllowFileTransfer h),
      boolStr (he_AllowAsBastion h), dashJoin (he_Groups h), dashJoin (he_AllowedCallers h), commandPolicyLabel (he_CommandPolicy h)]"

definition host_header :: "string list" where
  "host_header = [''NAME'', ''ADDR'', ''USER'', ''PRINCIPAL'', ''TTL'', ''JUMP'', ''SRC_ADDR'', ''SUDO'', ''SUDO_USERS'', ''PTY'', ''FT'',
     ''BASTION'', ''GROUPS'', ''CALLERS'', ''POLICY'']"

text \<open>\<open>None\<close> is the note that no hosts are configured.\<close>

definition renderHostTable :: "(string, hostEntry) gomap \<Rightarrow> string list list option" where
  "renderHostTable hosts =
     (if length hosts = 0 then None
      else Some (host_header # map (\<lambda>n. host_row n (the (get hosts n))) (sort (map fst hosts))))"

definition cmdHostList :: "(string \<Rightarrow> json option) \<Rightarrow> string option \<Rightarrow> edit_error + string list list option" where
  "cmdHostList parse file =
     (case loadRaw parse file of
        Inl err \<Rightarrow> Inl err
      | Inr raw \<Rightarrow> (case extractHosts raw of None \<Rightarrow> Inl EditParseFailed | Some hosts \<Rightarrow> Inr (renderHostTable hosts)))"

text \<open>The remote variant decodes the body of the signer's answer.\<close>

definition fetchRemoteHosts :: "(string \<Rightarrow> json option) \<Rightarrow> (int \<times> string) option \<Rightarrow> (string, hostEntry) gomap option" where
  "fetchRemoteHosts parse resp =
     (case resp of
        None \<Rightarrow> None
      | Some (status, body) \<Rightarrow>
          if status \<noteq> 200 then None else Option.bind (parse body) (decode_map decode_host))"

section \<open>ca-keys\<close>

record caKeyEntry =
  ck_Type :: string
  ck_Path :: string
  ck_VaultURL :: string
  ck_KeyName :: string

definition encode_caKey :: "caKeyEntry \<Rightarrow> json" where
  "encode_caKey k = JObj ([(''type'', JStr (utf8_text (ck_Type k)))] @ omit_string ''path'' (ck_Path k) @
     omit_string ''vault_url'' (ck_VaultURL k) @ omit_string ''key_name'' (ck_KeyName k))"

definition caKey_fields :: "caKeyEntry json_field list" where
  "caKey_fields =
     [(''type'', \<lambda>j k. map_option (\<lambda>v. k\<lparr>ck_Type := v\<rparr>) (dec_string j (ck_Type k))),
      (''path'', \<lambda>j k. map_option (\<lambda>v. k\<lparr>ck_Path := v\<rparr>) (dec_string j (ck_Path k))),
      (''vault_url'', \<lambda>j k. map_option (\<lambda>v. k\<lparr>ck_VaultURL := v\<rparr>) (dec_string j (ck_VaultURL k))),
      (''key_name'', \<lambda>j k. map_option (\<lambda>v. k\<lparr>ck_KeyName := v\<rparr>) (dec_string j (ck_KeyName k)))]"

definition extractCAKeys :: "raw_config option \<Rightarrow> raw_config option" where
  "extractCAKeys raw = (case raw_get raw ''ca_keys'' of None \<Rightarrow> Some [] | Some j \<Rightarrow> decode_map Some j)"

definition writeCAKeys :: "(json \<Rightarrow> string) \<Rightarrow> bool \<Rightarrow> raw_config option \<Rightarrow> raw_config \<Rightarrow> edit_error + string" where
  "writeCAKeys print ok raw keys = write_section print ok ''ca_keys'' (encode_map (\<lambda>j. j) keys) raw"

definition cmdCAKeysAdd ::
    "(string \<Rightarrow> json option) \<Rightarrow> (json \<Rightarrow> string) \<Rightarrow> bool \<Rightarrow> string \<Rightarrow> caKeyEntry \<Rightarrow> bool \<Rightarrow> string option \<Rightarrow> edit_error + string" where
  "cmdCAKeysAdd parse print ok name k force file =
     (if name = '''' \<or> ck_Type k = '''' then Inl EditUsage
      else if ck_Type k \<notin> {''pem'', ''akv''} then Inl (EditUnsupportedType (ck_Type k))
      else if ck_Type k = ''pem'' \<and> ck_Path k = '''' then Inl EditFlagMissing
      else if ck_Type k = ''akv'' \<and> (ck_VaultURL k = '''' \<or> ck_KeyName k = '''') then Inl EditFlagMissing
      else case loadRaw parse file of
        Inl err \<Rightarrow> Inl err
      | Inr raw \<Rightarrow>
     (case extractCAKeys raw of
        None \<Rightarrow> Inl EditParseFailed
      | Some keys \<Rightarrow>
          if get keys name \<noteq> None \<and> \<not> force then Inl (EditExists name)
          else writeCAKeys print ok raw (put name (encode_caKey k) keys)))"

definition cmdCAKeysRemove ::
    "(string \<Rightarrow> json option) \<Rightarrow> (json \<Rightarrow> string) \<Rightarrow> bool \<Rightarrow> string \<Rightarrow> string option \<Rightarrow> edit_error + string" where
  "cmdCAKeysRemove parse print ok name file =
     (case loadRaw parse file of
        Inl err \<Rightarrow> Inl err
      | Inr raw \<Rightarrow>
     (case extractCAKeys raw of
        None \<Rightarrow> Inl EditParseFailed
      | Some keys \<Rightarrow>
          if get keys name = None then Inl (EditNotFound name) else writeCAKeys print ok raw (del name keys)))"

definition caKey_row :: "string \<Rightarrow> caKeyEntry \<Rightarrow> string list" where
  "caKey_row n k =
     [n, ck_Type k, if ck_Type k = ''akv'' then ck_VaultURL k @ '' (key: '' @ ck_KeyName k @ '')'' else ck_Path k]"

fun caKey_rows :: "raw_config \<Rightarrow> string list \<Rightarrow> edit_error + string list list" where
  "caKey_rows keys [] = Inr []"
| "caKey_rows keys (n # ns) =
     (case decode_struct False caKey_fields (the (get keys n)) \<lparr>ck_Type = '''', ck_Path = '''', ck_VaultURL = '''', ck_KeyName = ''''\<rparr> of
        None \<Rightarrow> Inl EditParseFailed
      | Some k \<Rightarrow> (case caKey_rows keys ns of Inl err \<Rightarrow> Inl err | Inr rows \<Rightarrow> Inr (caKey_row n k # rows)))"

definition cmdCAKeysList :: "(string \<Rightarrow> json option) \<Rightarrow> string option \<Rightarrow> edit_error + string list list option" where
  "cmdCAKeysList parse file =
     (case loadRaw parse file of
        Inl err \<Rightarrow> Inl err
      | Inr raw \<Rightarrow>
     (case extractCAKeys raw of
        None \<Rightarrow> Inl EditParseFailed
      | Some keys \<Rightarrow>
          if length keys = 0 then Inr None
          else case caKey_rows keys (sort (map fst keys)) of
            Inl err \<Rightarrow> Inl err
          | Inr rows \<Rightarrow> Inr (Some ([''NAME'', ''TYPE'', ''DETAIL''] # rows))))"

section \<open>callers\<close>

record callerEntry =
  ce_AllowedGroups :: "string list"

definition encode_caller :: "callerEntry \<Rightarrow> json" where
  "encode_caller c = JObj [(''allowed_groups'', json_strings (ce_AllowedGroups c))]"

definition caller_fields :: "callerEntry json_field list" where
  "caller_fields = [(''allowed_groups'', \<lambda>j c. map_option (\<lambda>v. c\<lparr>ce_AllowedGroups := v\<rparr>) (dec_strings j (ce_AllowedGroups c)))]"

definition decode_caller :: "json \<Rightarrow> callerEntry option" where
  "decode_caller j = decode_struct False caller_fields j \<lparr>ce_AllowedGroups = []\<rparr>"

definition extractCallers :: "raw_config option \<Rightarrow> (string, callerEntry) gomap option" where
  "extractCallers raw = (case raw_get raw ''callers'' of None \<Rightarrow> Some [] | Some j \<Rightarrow> decode_map decode_caller j)"

definition writeCallers :: "(json \<Rightarrow> string) \<Rightarrow> bool \<Rightarrow> raw_config option \<Rightarrow> (string, callerEntry) gomap \<Rightarrow> edit_error + string" where
  "writeCallers print ok raw callers = write_section print ok ''callers'' (encode_map encode_caller callers) raw"

text \<open>\<open>groups\<close> is \<open>None\<close> when the flag was not given.\<close>

definition cmdCallersAdd ::
    "(string \<Rightarrow> json option) \<Rightarrow> (json \<Rightarrow> string) \<Rightarrow> bool \<Rightarrow> string \<Rightarrow> string option \<Rightarrow> bool \<Rightarrow> string option \<Rightarrow> edit_error + string" where
  "cmdCallersAdd parse print ok name groups force file =
     (if name = '''' \<or> groups = None then Inl EditUsage
      else
        let entry = \<lparr>ce_AllowedGroups = splitComma (the groups)\<rparr> in
        case loadRaw parse file of
        Inl err \<Rightarrow> Inl err
      | Inr raw \<Rightarrow>
     (case extractCallers raw of
        None \<Rightarrow> Inl EditParseFailed
      | Some callers \<Rightarrow>
          if get callers name \<noteq> None \<and> \<not> force then Inl (EditExists name)
          else writeCallers print ok raw (put name entry callers)))"

definition cmdCallersRemove ::
    "(string \<Rightarrow> json option) \<Rightarrow> (json \<Rightarrow> string) \<Rightarrow> bool \<Rightarrow> string \<Rightarrow> string option \<Rightarrow> edit_error + string" where
  "cmdCallersRemove parse print ok name file =
     (case loadRaw parse file of
        Inl err \<Rightarrow> Inl err
      | Inr raw \<Rightarrow>
     (case extractCallers raw of
        None \<Rightarrow> Inl EditParseFailed
      | Some callers \<Rightarrow>
          if get callers name = None then Inl (EditNotFound name) else writeCallers print ok raw (del name callers)))"

definition cmdCallersList :: "(string \<Rightarrow> json option) \<Rightarrow> string option \<Rightarrow> edit_error + string list list option" where
  "cmdCallersList parse file =
     (case loadRaw parse file of
        Inl err \<Rightarrow> Inl err
      | Inr raw \<Rightarrow>
     (case extractCallers raw of
        None \<Rightarrow> Inl EditParseFailed
      | Some callers \<Rightarrow>
          if length callers = 0 then Inr None
          else Inr (Some ([''NAME'', ''ALLOWED_GROUPS''] #
                 map (\<lambda>n. [n, dashJoin (ce_AllowedGroups (the (get callers n)))]) (sort (map fst callers))))))"

end
