(* ===== verification/Ctl_Client.thy ===== *)
theory Ctl_Client
  imports Ctl_Config GoBase64
begin

text \<open>
  The client side of \<open>broker-ctl\<close>: its parameters file and their precedence
  (\<open>src/cmd/broker-ctl/clientconfig.go\<close>), and the helpers that find the signer's address, its process
  and a host's key (\<open>src/cmd/broker-ctl/main.go\<close>). Files, the environment, processes and external
  commands are arguments.
\<close>

section \<open>Paths\<close>

text \<open>\<open>path/filepath\<close> on Unix; the elements of a cleaned path are accumulated in reverse.\<close>

fun clean_elems :: "bool \<Rightarrow> string list \<Rightarrow> string list \<Rightarrow> string list" where
  "clean_elems rooted acc [] = rev acc"
| "clean_elems rooted acc (x # xs) =
     (if x = '''' \<or> x = ''.'' then clean_elems rooted acc xs
      else if x = ''..'' then
        (case acc of
           y # ys \<Rightarrow> if y \<noteq> ''..'' then clean_elems rooted ys xs else clean_elems rooted (''..'' # acc) xs
         | [] \<Rightarrow> if rooted then clean_elems rooted [] xs else clean_elems rooted [''..''] xs)
      else clean_elems rooted (x # acc) xs)"

definition IsAbs :: "string \<Rightarrow> bool" where
  "IsAbs p \<longleftrightarrow> HasPrefix p ''/''"

definition CleanPath :: "string \<Rightarrow> string" where
  "CleanPath p =
     (let out = Join (clean_elems (IsAbs p) [] (Split1 (CHR ''/'') p)) ''/''
      in if IsAbs p then CHR ''/'' # out else if out = '''' then ''.'' else out)"

definition JoinPath :: "string list \<Rightarrow> string" where
  "JoinPath xs = (case filter (\<lambda>x. x \<noteq> '''') xs of [] \<Rightarrow> '''' | ys \<Rightarrow> CleanPath (Join ys ''/''))"

definition DirPath :: "string \<Rightarrow> string" where
  "DirPath p = CleanPath (rev (dropWhile (\<lambda>c. c \<noteq> CHR ''/'') (rev p)))"

definition BasePath :: "string \<Rightarrow> string" where
  "BasePath p =
     (if p = '''' then ''.''
      else let q = dropWhile (\<lambda>c. c = CHR ''/'') (rev p)
           in if q = [] then ''/'' else rev (takeWhile (\<lambda>c. c \<noteq> CHR ''/'') q))"

section \<open>The parameters file\<close>

record clientTarget =
  ct_URL :: string
  ct_Cert :: string
  ct_Key :: string
  ct_CA :: string

record clientConfig =
  cc_Signer :: clientTarget
  cc_ControlPlane :: clientTarget

definition zero_target :: clientTarget where
  "zero_target = \<lparr>ct_URL = '''', ct_Cert = '''', ct_Key = '''', ct_CA = ''''\<rparr>"

definition zero_client :: clientConfig where
  "zero_client = \<lparr>cc_Signer = zero_target, cc_ControlPlane = zero_target\<rparr>"

definition target_fields :: "clientTarget json_field list" where
  "target_fields =
     [(''url'', \<lambda>j t. map_option (\<lambda>v. t\<lparr>ct_URL := v\<rparr>) (dec_string j (ct_URL t))),
      (''cert'', \<lambda>j t. map_option (\<lambda>v. t\<lparr>ct_Cert := v\<rparr>) (dec_string j (ct_Cert t))),
      (''key'', \<lambda>j t. map_option (\<lambda>v. t\<lparr>ct_Key := v\<rparr>) (dec_string j (ct_Key t))),
      (''ca'', \<lambda>j t. map_option (\<lambda>v. t\<lparr>ct_CA := v\<rparr>) (dec_string j (ct_CA t)))]"

definition client_fields :: "clientConfig json_field list" where
  "client_fields =
     [(''signer'', \<lambda>j c. map_option (\<lambda>v. c\<lparr>cc_Signer := v\<rparr>) (decode_struct False target_fields j (cc_Signer c))),
      (''control_plane'', \<lambda>j c. map_option (\<lambda>v. c\<lparr>cc_ControlPlane := v\<rparr>) (decode_struct False target_fields j (cc_ControlPlane c)))]"

record ccCandidate =
  cand_path :: string
  cand_required :: bool

definition clientConfigCandidates :: "string \<Rightarrow> (string \<Rightarrow> string) \<Rightarrow> string option \<Rightarrow> ccCandidate list" where
  "clientConfigCandidates clientConfigPath Getenv UserConfigDir =
     (if clientConfigPath \<noteq> '''' then [\<lparr>cand_path = clientConfigPath, cand_required = True\<rparr>] else []) @
     (let p = Getenv ''BROKER_CTL_CONFIG'' in if p \<noteq> '''' then [\<lparr>cand_path = p, cand_required = True\<rparr>] else []) @
     (case UserConfigDir of
        None \<Rightarrow> []
      | Some dir \<Rightarrow> [\<lparr>cand_path = JoinPath [dir, ''broker-ctl'', ''config.json''], cand_required = False\<rparr>]) @
     [\<lparr>cand_path = ''/etc/ssh-broker/broker-ctl.json'', cand_required = False\<rparr>]"

datatype file_read = FileContent string | FileMissing | FileUnreadable

fun loadClientConfigFrom ::
    "(string \<Rightarrow> json option) \<Rightarrow> (string \<Rightarrow> file_read) \<Rightarrow> ccCandidate list \<Rightarrow> string + clientConfig \<times> string" where
  "loadClientConfigFrom parse readf [] = Inr (zero_client, '''')"
| "loadClientConfigFrom parse readf (c # cs) =
     (case readf (cand_path c) of
        FileMissing \<Rightarrow> if \<not> cand_required c then loadClientConfigFrom parse readf cs else Inl (cand_path c)
      | FileUnreadable \<Rightarrow> Inl (cand_path c)
      | FileContent b \<Rightarrow>
          (case Option.bind (parse b) (\<lambda>j. decode_struct False client_fields j zero_client) of
             None \<Rightarrow> Inl (cand_path c)
           | Some cfg \<Rightarrow> Inr (cfg, cand_path c)))"

text \<open>
  The first load is kept for the process; \<open>cached\<close> is its result. An error ends the process with the
  name of the file.
\<close>

definition loadClientConfig ::
    "(clientConfig \<times> string) option \<Rightarrow> (string \<Rightarrow> json option) \<Rightarrow> (string \<Rightarrow> file_read) \<Rightarrow> ccCandidate list \<Rightarrow> string + clientConfig \<times> string" where
  "loadClientConfig cached parse readf cands =
     (case cached of
        Some c \<Rightarrow> Inr c
      | None \<Rightarrow>
          (case loadClientConfigFrom parse readf cands of
             Inl err \<Rightarrow> Inl err
           | Inr (cfg, path) \<Rightarrow> Inr (cfg, if path \<noteq> '''' then DirPath path else '''')))"

section \<open>Precedence\<close>

text \<open>A flag set: the flags it defines with their current values, and the names the user gave.\<close>

record flag_set =
  fl_values :: "(string, string) gomap"
  fl_given :: "string list"

definition apply_target :: "(string \<Rightarrow> string) \<Rightarrow> string \<Rightarrow> string \<Rightarrow> string \<times> string \<times> string \<times> bool \<Rightarrow> flag_set \<Rightarrow> flag_set" where
  "apply_target Getenv env fileDir param fs =
     (case param of (name, envSuffix, fileVal, isPath) \<Rightarrow>
       let set_to = (\<lambda>v. fs\<lparr>fl_values := put name v (fl_values fs)\<rparr>) in
       if name \<in> set (fl_given fs) then fs
       else case get (fl_values fs) name of
         None \<Rightarrow> fs
       | Some cur \<Rightarrow>
           let v = Getenv (env @ envSuffix) in
           if v \<noteq> '''' then set_to v
           else if fileVal \<noteq> '''' then set_to fileVal
           else if isPath \<and> fileDir \<noteq> '''' \<and> cur \<noteq> '''' \<and> \<not> IsAbs cur then set_to (JoinPath [fileDir, cur])
           else fs)"

definition resolveTarget :: "(string \<Rightarrow> string) \<Rightarrow> string \<Rightarrow> clientTarget \<Rightarrow> string \<Rightarrow> flag_set \<Rightarrow> flag_set" where
  "resolveTarget Getenv env file fileDir fs =
     fold (apply_target Getenv env fileDir)
       [(''url'', ''_URL'', ct_URL file, False), (''cert'', ''_CERT'', ct_Cert file, True),
        (''key'', ''_KEY'', ct_Key file, True), (''ca'', ''_CA'', ct_CA file, True)] fs"

definition resolveSignerTarget :: "(string \<Rightarrow> string) \<Rightarrow> string + clientConfig \<times> string \<Rightarrow> flag_set \<Rightarrow> string + flag_set" where
  "resolveSignerTarget Getenv loaded fs =
     (case loaded of Inl err \<Rightarrow> Inl err | Inr (cfg, dir) \<Rightarrow> Inr (resolveTarget Getenv ''BROKER_CTL_SIGNER'' (cc_Signer cfg) dir fs))"

definition resolveControlPlaneTarget :: "(string \<Rightarrow> string) \<Rightarrow> string + clientConfig \<times> string \<Rightarrow> flag_set \<Rightarrow> string + flag_set" where
  "resolveControlPlaneTarget Getenv loaded fs =
     (case loaded of Inl err \<Rightarrow> Inl err | Inr (cfg, dir) \<Rightarrow> Inr (resolveTarget Getenv ''BROKER_CTL_CP'' (cc_ControlPlane cfg) dir fs))"

text \<open>The flags of the commands and their defaults.\<close>

definition signerFlags :: "(string, string) gomap" where
  "signerFlags = [(''url'', ''''), (''cert'', ''./pki/broker.crt''), (''key'', ''./pki/broker.key''), (''ca'', ''./pki/mtls_ca.crt'')]"

definition approvalFlags :: "(string, string) gomap" where
  "approvalFlags = [(''url'', ''127.0.0.1:7443''), (''cert'', ''./pki/broker-admin.crt''), (''key'', ''./pki/broker-admin.key''), (''ca'', ''./pki/mtls_ca.crt'')]"

section \<open>The signer's address and process\<close>

definition listen_fields :: "string json_field list" where
  "listen_fields = [(''listen'', dec_string)]"

definition readSignerURL :: "(string \<Rightarrow> json option) \<Rightarrow> string option \<Rightarrow> string option" where
  "readSignerURL parse file =
     Option.bind file (\<lambda>data.
     Option.bind (parse data) (\<lambda>j.
     Option.bind (decode_struct False listen_fields j '''') (\<lambda>listen.
       if listen = '''' then None
       else if HasPrefix listen '':'' then Some (''127.0.0.1'' @ listen)
       else Some listen)))"

definition readPID :: "string option \<Rightarrow> int option" where
  "readPID file = Option.bind file (\<lambda>data. Atoi (TrimSpace data))"

definition commandLooksLikeSigner :: "string \<Rightarrow> bool" where
  "commandLooksLikeSigner cmdline =
     (case Fields cmdline of [] \<Rightarrow> False | argv0 # _ \<Rightarrow> fold_name (BasePath argv0) = fold_name ''signer'')"

text \<open>\<open>alive\<close> is the probe with signal 0, \<open>ps\<close> the output of the \<open>ps\<close> command.\<close>

definition isSignerProcess :: "(int \<Rightarrow> bool) \<Rightarrow> (int \<Rightarrow> string option) \<Rightarrow> int \<Rightarrow> bool" where
  "isSignerProcess alive ps pid =
     (if \<not> alive pid then False else case ps pid of None \<Rightarrow> False | Some out \<Rightarrow> commandLooksLikeSigner out)"

section \<open>Host keys\<close>

datatype addr_error = MissingPort | TooManyColons | OtherAddrError

text \<open>\<open>net.SplitHostPort\<close>.\<close>

definition LastIndexByte :: "string \<Rightarrow> char \<Rightarrow> nat option" where
  "LastIndexByte s c = (if c \<in> set s then Some (length s - 1 - length (takeWhile (\<lambda>x. x \<noteq> c) (rev s))) else None)"

definition IndexByte :: "string \<Rightarrow> char \<Rightarrow> nat option" where
  "IndexByte s c = (if c \<in> set s then Some (length (takeWhile (\<lambda>x. x \<noteq> c) s)) else None)"

definition SplitHostPort :: "string \<Rightarrow> addr_error + string \<times> string" where
  "SplitHostPort hostport =
     (case LastIndexByte hostport (CHR '':'') of
        None \<Rightarrow> Inl MissingPort
      | Some i \<Rightarrow>
          (let finish = (\<lambda>host j k.
                 if CHR ''['' \<in> set (drop j hostport) \<or> CHR '']'' \<in> set (drop k hostport) then Inl OtherAddrError
                 else Inr (host, drop (i + 1) hostport))
           in if HasPrefix hostport ''['' then
                (case IndexByte hostport (CHR '']'') of
                   None \<Rightarrow> Inl OtherAddrError
                 | Some e \<Rightarrow>
                     if e + 1 = length hostport then Inl MissingPort
                     else if e + 1 = i then finish (drop 1 (take e hostport)) 1 (e + 1)
                     else if hostport ! (e + 1) = CHR '':'' then Inl TooManyColons
                     else Inl MissingPort)
              else if CHR '':'' \<in> set (take i hostport) then Inl TooManyColons
              else finish (take i hostport) 0 0))"

definition splitHostPortDefault :: "string \<Rightarrow> (string \<times> string) option" where
  "splitHostPortDefault addr =
     (case SplitHostPort addr of
        Inr (host, port) \<Rightarrow> Some (host, if port = '''' then ''22'' else port)
      | Inl err \<Rightarrow>
          if err \<noteq> OtherAddrError then
            let host = (if HasPrefix addr ''['' then drop 1 addr else addr);
                host = (if HasSuffix host '']'' then butlast host else host)
            in Some (host, ''22'')
          else None)"

fun keyscan_lines :: "string list \<Rightarrow> string option" where
  "keyscan_lines [] = None"
| "keyscan_lines (line # ls) =
     (let line = TrimSpace line in
      if line = '''' \<or> HasPrefix line ''#'' then keyscan_lines ls
      else let parts = Fields line
           in if length parts \<ge> 3 then Some (Join (drop 1 parts) '' '') else keyscan_lines ls)"

text \<open>\<open>keyscan host port\<close> is the output of \<open>ssh-keyscan\<close>.\<close>

definition sshKeyscan :: "(string \<Rightarrow> string \<Rightarrow> string option) \<Rightarrow> string \<Rightarrow> string \<Rightarrow> string option" where
  "sshKeyscan keyscan host port = Option.bind (keyscan host port) (\<lambda>out. keyscan_lines (Split1 (CHR 0x0A) out))"

definition acquireHostKey :: "(string \<Rightarrow> string \<Rightarrow> string option) \<Rightarrow> string option \<Rightarrow> bool \<Rightarrow> string \<Rightarrow> string \<Rightarrow> string option" where
  "acquireHostKey keyscan stdin use_scan hostKeyFlag addr =
     (if use_scan then Option.bind (splitHostPortDefault addr) (\<lambda>(host, port). sshKeyscan keyscan host port)
      else if hostKeyFlag = ''-'' then map_option TrimSpace stdin
      else Some hostKeyFlag)"


section \<open>Paths that stay absolute\<close>

lemma IsAbs_Nil [simp]: "\<not> IsAbs ''''"
  by (simp add: IsAbs_def HasPrefix_def)

lemma IsAbs_Cons [simp]: "IsAbs (c # s) \<longleftrightarrow> c = CHR ''/''"
  by (simp add: IsAbs_def HasPrefix_def)

lemma IsAbs_append: "IsAbs p \<Longrightarrow> IsAbs (p @ q)"
  by (cases p) simp_all

lemma IsAbs_CleanPath: "IsAbs p \<Longrightarrow> IsAbs (CleanPath p)"
  by (simp add: CleanPath_def Let_def)

lemma IsAbs_Join: "IsAbs d \<Longrightarrow> IsAbs (Join (d # xs) sep)"
  by (cases xs) (simp_all add: IsAbs_append)

lemma IsAbs_JoinPath: "IsAbs d \<Longrightarrow> IsAbs (JoinPath (d # xs))"
  by (cases d) (simp_all add: JoinPath_def IsAbs_CleanPath IsAbs_Join)

lemma IsAbs_DirPath: "IsAbs p \<Longrightarrow> IsAbs (DirPath p)"
proof -
  assume "IsAbs p"
  then obtain q where p: "p = CHR ''/'' # q" by (cases p) auto
  have "dropWhile (\<lambda>c. c \<noteq> CHR ''/'') (rev p) = dropWhile (\<lambda>c. c \<noteq> CHR ''/'') (rev q) @ [CHR ''/''] "
    by (simp add: p dropWhile_append dropWhile_eq_Nil_conv)
  then show ?thesis by (simp add: DirPath_def IsAbs_CleanPath)
qed

lemma CleanPath_nonempty: "CleanPath p \<noteq> ''''"
  by (simp add: CleanPath_def Let_def)

section \<open>Precedence of the parameters\<close>

lemma loaded_from_candidate:
  "loadClientConfigFrom parse readf cs = Inr (cfg, path) \<Longrightarrow> path \<noteq> '''' \<Longrightarrow> path \<in> cand_path ` set cs"
  by (induction cs) (auto split: file_read.splits if_splits option.splits)

lemma apply_target_get:
  "get (fl_values (apply_target Getenv env dir (name, suffix, val, path) fs)) n =
     (if n \<noteq> name \<or> name \<in> set (fl_given fs) then get (fl_values fs) n
      else map_option (\<lambda>cur. if Getenv (env @ suffix) \<noteq> '''' then Getenv (env @ suffix) else if val \<noteq> '''' then val
        else if path \<and> dir \<noteq> '''' \<and> cur \<noteq> '''' \<and> \<not> IsAbs cur then JoinPath [dir, cur] else cur) (get (fl_values fs) n))"
  by (cases "get (fl_values fs) name") (auto simp: apply_target_def Let_def)

lemma apply_target_given [simp]: "fl_given (apply_target Getenv env dir p fs) = fl_given fs"
  by (cases p) (auto simp: apply_target_def Let_def split: option.splits)

text \<open>The value of a parameter after the resolution.\<close>

definition target_value :: "(string \<Rightarrow> string) \<Rightarrow> string \<Rightarrow> string \<Rightarrow> bool \<Rightarrow> string \<Rightarrow> string \<Rightarrow> string" where
  "target_value Getenv var val isPath dir cur =
     (if Getenv var \<noteq> '''' then Getenv var else if val \<noteq> '''' then val
      else if isPath \<and> dir \<noteq> '''' \<and> cur \<noteq> '''' \<and> \<not> IsAbs cur then JoinPath [dir, cur] else cur)"

lemma resolveTarget_get:
  assumes "(name, suffix, val, path) \<in> {(''url'', ''_URL'', ct_URL t, False), (''cert'', ''_CERT'', ct_Cert t, True),
      (''key'', ''_KEY'', ct_Key t, True), (''ca'', ''_CA'', ct_CA t, True)}"
  shows "get (fl_values (resolveTarget Getenv env t dir fs)) name =
     (if name \<in> set (fl_given fs) then get (fl_values fs) name
      else map_option (target_value Getenv (env @ suffix) val path dir) (get (fl_values fs) name))"
  using assms
  by (elim insertE emptyE)
    (simp_all add: resolveTarget_def apply_target_get target_value_def [abs_def] cong: if_cong)

text \<open>
  Trust material never comes from the working directory by accident. When no parameters file is named
  by flag or environment, a file that is found is at an absolute path; and then the certificate, the
  key and the CA are what the user, the environment or that file says, or absolute paths.
\<close>

theorem client_trust_not_from_cwd:
  assumes "Getenv ''BROKER_CTL_CONFIG'' = ''''" and "\<And>d. ucd = Some d \<Longrightarrow> IsAbs d"
    and "loadClientConfig None parse readf (clientConfigCandidates '''' Getenv ucd) = Inr (cfg, dir)" and "dir \<noteq> ''''"
    and "(name, suffix, val) \<in> {(''cert'', ''_CERT'', ct_Cert t), (''key'', ''_KEY'', ct_Key t), (''ca'', ''_CA'', ct_CA t)}"
    and "get (fl_values (resolveTarget Getenv env t dir fs)) name = Some v"
  shows "IsAbs dir \<and> (name \<in> set (fl_given fs) \<and> get (fl_values fs) name = Some v \<or>
     v \<noteq> '''' \<and> v = Getenv (env @ suffix) \<or> v \<noteq> '''' \<and> v = val \<or> v = '''' \<or> IsAbs v)"
proof -
  obtain path where p: "loadClientConfigFrom parse readf (clientConfigCandidates '''' Getenv ucd) = Inr (cfg, path)"
    and d: "path \<noteq> ''''" "dir = DirPath path"
    using assms(3,4) by (auto simp: loadClientConfig_def split: sum.splits if_splits)
  have "path \<in> cand_path ` set (clientConfigCandidates '''' Getenv ucd)" by (rule loaded_from_candidate [OF p d(1)])
  then have "IsAbs path"
    using assms(1,2) by (auto simp: clientConfigCandidates_def Let_def intro: IsAbs_JoinPath split: option.splits)
  then have abs: "IsAbs dir" unfolding d(2) by (rule IsAbs_DirPath)
  have "(name, suffix, val, True) \<in> {(''url'', ''_URL'', ct_URL t, False), (''cert'', ''_CERT'', ct_Cert t, True),
      (''key'', ''_KEY'', ct_Key t, True), (''ca'', ''_CA'', ct_CA t, True)}" using assms(5) by auto
  from assms(6) [unfolded resolveTarget_get [OF this]] show ?thesis
    using abs IsAbs_JoinPath [OF abs] by (auto simp: target_value_def split: if_splits)
qed

section \<open>Addresses\<close>

lemma LastIndexByte_append: "c \<notin> set b \<Longrightarrow> LastIndexByte (a @ c # b) c = Some (length a)"
  by (simp add: LastIndexByte_def takeWhile_append2) (simp add: takeWhile_append)

lemma IndexByte_append: "c \<notin> set a \<Longrightarrow> IndexByte (a @ c # b) c = Some (length a)"
  by (simp add: IndexByte_def takeWhile_append)

definition bare :: "string \<Rightarrow> bool" where
  "bare s \<longleftrightarrow> CHR ''['' \<notin> set s \<and> CHR '']'' \<notin> set s"

lemma bare_not_bracketed: "bare s \<Longrightarrow> \<not> HasPrefix s ''[''" "bare s \<Longrightarrow> \<not> HasSuffix s '']''"
proof -
  show "bare s \<Longrightarrow> \<not> HasPrefix s ''[''" by (cases s) (auto simp: bare_def HasPrefix_def)
  show "bare s \<Longrightarrow> \<not> HasSuffix s '']''" by (cases s rule: rev_cases) (auto simp: bare_def HasSuffix_def)
qed

lemma split_plain:
  assumes "bare host" and "bare port" and "CHR '':'' \<notin> set port" and "host \<noteq> ''''" and "CHR '':'' \<notin> set host"
  shows "splitHostPortDefault (host @ '':'' @ port) = Some (host, if port = '''' then ''22'' else port)"
    and "splitHostPortDefault host = Some (host, ''22'')"
proof -
  have "\<not> HasPrefix (host @ CHR '':'' # port) ''[''" using assms(1,4) by (cases host) (auto simp: bare_def HasPrefix_def)
  then have "SplitHostPort (host @ CHR '':'' # port) = Inr (host, port)"
    using assms by (simp add: SplitHostPort_def LastIndexByte_append bare_def)
  then show "splitHostPortDefault (host @ '':'' @ port) = Some (host, if port = '''' then ''22'' else port)"
    by (simp add: splitHostPortDefault_def)
  have "SplitHostPort host = Inl MissingPort" using assms(5) by (simp add: SplitHostPort_def LastIndexByte_def)
  then show "splitHostPortDefault host = Some (host, ''22'')"
    using bare_not_bracketed [OF assms(1)] by (simp add: splitHostPortDefault_def)
qed

lemma split_bracketed:
  assumes "bare host" and "bare port" and "CHR '':'' \<notin> set port"
  shows "splitHostPortDefault (''['' @ host @ '']:'' @ port) = Some (host, if port = '''' then ''22'' else port)"
    and "splitHostPortDefault (''['' @ host @ '']'') = Some (host, ''22'')"
proof -
  let ?a = "CHR ''['' # host"
  have "LastIndexByte (?a @ CHR '']'' # CHR '':'' # port) (CHR '':'') = Some (length host + 2)"
    using LastIndexByte_append [OF assms(3), of "?a @ '']''"] by simp
  moreover have "IndexByte (?a @ CHR '']'' # CHR '':'' # port) (CHR '']'') = Some (length host + 1)"
    using IndexByte_append [of "CHR '']''" ?a] assms(1) by (simp add: bare_def)
  moreover have "HasPrefix (?a @ CHR '']'' # CHR '':'' # port) ''[''" by (simp add: HasPrefix_def)
  ultimately have "SplitHostPort (?a @ CHR '']'' # CHR '':'' # port) = Inr (host, port)"
    using assms(1,2) by (simp add: SplitHostPort_def bare_def)
  then show "splitHostPortDefault (''['' @ host @ '']:'' @ port) = Some (host, if port = '''' then ''22'' else port)"
    by (simp add: splitHostPortDefault_def)
  have "IndexByte (?a @ '']'') (CHR '']'') = Some (length host + 1)"
    using IndexByte_append [of "CHR '']''" ?a "[]"] assms(1) by (simp add: bare_def)
  then have "SplitHostPort (?a @ '']'') = Inl MissingPort" by (simp add: SplitHostPort_def HasPrefix_def split: option.splits)
  then show "splitHostPortDefault (''['' @ host @ '']'') = Some (host, ''22'')"
    by (simp add: splitHostPortDefault_def HasPrefix_def HasSuffix_def)
qed

lemma split_literal:
  assumes "bare host" and "2 \<le> count_list host (CHR '':'')"
  shows "splitHostPortDefault host = Some (host, ''22'')"
proof -
  have "CHR '':'' \<in> set host" using assms(2) by (metis count_list_0_iff not_numeral_le_zero)
  then obtain x y where h: "host = x @ CHR '':'' # y" "CHR '':'' \<notin> set y" by (meson split_list_last)
  then have "count_list host (CHR '':'') = count_list x (CHR '':'') + 1" by (simp add: count_list_append)
  with assms(2) have "CHR '':'' \<in> set x" by (metis Suc_1 add.commute add_0 count_notin not_less_eq_eq order.refl plus_1_eq_Suc)
  then have "SplitHostPort host = Inl TooManyColons"
    using bare_not_bracketed(1) [OF assms(1)] LastIndexByte_append [OF h(2), of x] by (simp add: SplitHostPort_def h(1))
  then show ?thesis using bare_not_bracketed [OF assms(1)] by (simp add: splitHostPortDefault_def)
qed

text \<open>
  Every documented form of an address is split as meant: a name or an IPv4 address with and without a
  port, and an IPv6 literal in brackets with and without a port or bare; the port defaults to 22.
\<close>

theorem splitHostPortDefault_forms:
  assumes "bare host" and "bare port" and "CHR '':'' \<notin> set port" and "host \<noteq> ''''"
  shows "(CHR '':'' \<notin> set host \<longrightarrow>
       splitHostPortDefault (host @ '':'' @ port) = Some (host, if port = '''' then ''22'' else port) \<and>
       splitHostPortDefault host = Some (host, ''22'')) \<and>
     splitHostPortDefault (''['' @ host @ '']:'' @ port) = Some (host, if port = '''' then ''22'' else port) \<and>
     splitHostPortDefault (''['' @ host @ '']'') = Some (host, ''22'') \<and>
     (2 \<le> count_list host (CHR '':'') \<longrightarrow> splitHostPortDefault host = Some (host, ''22''))"
  using split_plain [OF assms] split_bracketed [OF assms(1-3)] split_literal [OF assms(1)] by blast

theorem splitHostPortDefault_forms_witness:
  "splitHostPortDefault ''[::1]:2222'' = Some (''::1'', ''2222'') \<and> splitHostPortDefault ''[::1]'' = Some (''::1'', ''22'') \<and>
   splitHostPortDefault ''::1'' = Some (''::1'', ''22'')"
proof -
  have "bare ''::1''" "bare ''2222''" "CHR '':'' \<notin> set ''2222''" "''::1'' \<noteq> ''''" "2 \<le> count_list ''::1'' (CHR '':'')"
    by (simp_all add: bare_def)
  with splitHostPortDefault_forms [OF this(1-4)] show ?thesis by simp
qed

section \<open>A sample\<close>

text \<open>A file under the user's directory that sets only the address: the trust anchor is next to it.\<close>

definition sample_client_read :: "string \<Rightarrow> file_read" where
  "sample_client_read p = (if p = ''/home/op/.config/broker-ctl/config.json'' then FileContent ''x'' else FileMissing)"

definition sample_client_parse :: "string \<Rightarrow> json option" where
  "sample_client_parse b = Some (JObj [(''signer'', JObj [(''url'', JStr ''10.0.0.5:9443'')])])"

lemma sample_client_load:
  "loadClientConfig None sample_client_parse sample_client_read (clientConfigCandidates '''' (\<lambda>_. '''') (Some ''/home/op/.config'')) =
     Inr (zero_client\<lparr>cc_Signer := zero_target\<lparr>ct_URL := ''10.0.0.5:9443''\<rparr>\<rparr>, ''/home/op/.config/broker-ctl'')"
  "get (fl_values (resolveTarget (\<lambda>_. '''') ''BROKER_CTL_SIGNER'' (zero_target\<lparr>ct_URL := ''10.0.0.5:9443''\<rparr>) ''/home/op/.config/broker-ctl''
     \<lparr>fl_values = signerFlags, fl_given = []\<rparr>)) ''ca'' = Some ''/home/op/.config/broker-ctl/pki/mtls_ca.crt''"
  by code_simp+

theorem client_trust_not_from_cwd_witness:
  "IsAbs ''/home/op/.config/broker-ctl'' \<and> IsAbs ''/home/op/.config/broker-ctl/pki/mtls_ca.crt''"
proof -
  have d: "''/home/op/.config/broker-ctl'' \<noteq> ''''" by simp
  have m: "(''ca'', ''_CA'', '''') \<in> {(''cert'', ''_CERT'', ct_Cert (zero_target\<lparr>ct_URL := ''10.0.0.5:9443''\<rparr>)),
      (''key'', ''_KEY'', ct_Key (zero_target\<lparr>ct_URL := ''10.0.0.5:9443''\<rparr>)), (''ca'', ''_CA'', ct_CA (zero_target\<lparr>ct_URL := ''10.0.0.5:9443''\<rparr>))}"
    by (simp add: zero_target_def)
  have u: "Some ''/home/op/.config'' = Some d \<Longrightarrow> IsAbs d" for d by auto
  show ?thesis using client_trust_not_from_cwd [OF refl u sample_client_load(1) d m sample_client_load(2)] by simp
qed

end
