(* ===== verification/Ctl_Requests.thy ===== *)
theory Ctl_Requests
  imports Ctl_Client Signer_Service Policy_Tools
begin

text \<open>
  The subcommands of \<open>broker-ctl\<close> that call the services: runtime grants and allow rules
  (\<open>src/cmd/broker-ctl/policy.go\<close>), reload and approvals (\<open>src/cmd/broker-ctl/main.go\<close>), and the routes of
  the signing service they arrive at (\<open>src/cmd/signer/main.go\<close>).

  A command sends requests through \<open>net\<close>, which takes and returns the state of what it reaches; the
  body of a request is the JSON value. A response is a status and a text, \<open>None\<close> when none comes.
  Seconds of a duration are counted in integers instead of float64.
\<close>

section \<open>URLs\<close>

definition hex_digit :: "nat \<Rightarrow> char" where
  "hex_digit n = (if n < 10 then char_of (48 + n) else char_of (55 + n))"

definition hex_value :: "char \<Rightarrow> nat" where
  "hex_value c = (let b = byte c in if b \<le> 57 then b - 48 else if b \<le> 70 then b - 55 else b - 87)"

definition is_hex :: "char \<Rightarrow> bool" where
  "is_hex c = (let b = byte c in 48 \<le> b \<and> b \<le> 57 \<or> 65 \<le> b \<and> b \<le> 70 \<or> 97 \<le> b \<and> b \<le> 102)"

text \<open>\<open>url.PathEscape\<close>: what a path segment keeps as it is.\<close>

definition segment_char :: "char \<Rightarrow> bool" where
  "segment_char c =
     (let b = byte c in 48 \<le> b \<and> b \<le> 57 \<or> 65 \<le> b \<and> b \<le> 90 \<or> 97 \<le> b \<and> b \<le> 122 \<or>
        c \<in> set ''-_.~$&+:=@'')"

definition PathEscape :: "string \<Rightarrow> string" where
  "PathEscape s =
     concat (map (\<lambda>c. if segment_char c then [c] else [CHR ''%'', hex_digit (byte c div 16), hex_digit (byte c mod 16)]) s)"

fun PathUnescape :: "string \<Rightarrow> string option" where
  "PathUnescape [] = Some []"
| "PathUnescape (c # s) =
     (if c = CHR ''%'' then
        (case s of
           a # b # r \<Rightarrow>
             if is_hex a \<and> is_hex b then map_option (\<lambda>t. char_of (16 * hex_value a + hex_value b) # t) (PathUnescape r) else None
         | _ \<Rightarrow> None)
      else map_option (\<lambda>t. c # t) (PathUnescape s))"

section \<open>Sending\<close>

record http_req =
  hq_method :: string
  hq_base :: string
  hq_path :: string
  hq_body :: "json option"

type_synonym 's net = "http_req \<Rightarrow> 's \<Rightarrow> (int \<times> string) option \<times> 's"

datatype client_error = ClientUsage | TargetInvalid string | NoSignerURL | TLSFailed | RequestFailed
  | Rejected int string | BadResponse | TTLNotPositive | MissingRequestID

definition policyHTTP :: "(string \<Rightarrow> json option) \<Rightarrow> string option \<Rightarrow> bool \<Rightarrow> string \<Rightarrow> client_error + string" where
  "policyHTTP parse configFile tls_ok url =
     (case (if url = '''' then readSignerURL parse configFile else Some url) of
        None \<Rightarrow> Inl NoSignerURL
      | Some url \<Rightarrow> if tls_ok then Inr (''https://'' @ url) else Inl TLSFailed)"

text \<open>One exchange: the body of a response with the expected status, the error otherwise.\<close>

definition exchange :: "'s net \<Rightarrow> http_req \<Rightarrow> int \<Rightarrow> 's \<Rightarrow> (client_error + string) \<times> 's" where
  "exchange net req status s =
     (case net req s of
        (None, s) \<Rightarrow> (Inl RequestFailed, s)
      | (Some (st, rb), s) \<Rightarrow> if st \<noteq> status then (Inl (Rejected st (TrimSpace rb)), s) else (Inr rb, s))"

section \<open>Grants and allow rules\<close>

record grant_flags =
  gf_host :: string
  gf_allow :: string
  gf_ttl :: duration
  gf_caller :: string
  gf_endUser :: string

definition grant_body :: "grant_flags \<Rightarrow> json" where
  "grant_body f =
     JObj [(''allow'', json_strings [gf_allow f]), (''caller'', JStr (utf8_text (gf_caller f))),
           (''end_user'', JStr (utf8_text (gf_endUser f))), (''ttl_seconds'', JNum (Itoa (gf_ttl f div second_ns)))]"

definition granted_fields :: "(string \<times> string) json_field list" where
  "granted_fields = [(''id'', \<lambda>j (i, e). map_option (\<lambda>v. (v, e)) (dec_string j i)),
     (''expires_at'', \<lambda>j (i, e). map_option (\<lambda>v. (i, v)) (dec_string j e))]"

text \<open>What is printed: the identifier and the expiry of the answer, as far as it can be decoded.\<close>

definition cmdPolicyGrant ::
    "(string \<Rightarrow> json option) \<Rightarrow> 's net \<Rightarrow> client_error + string \<Rightarrow> grant_flags \<Rightarrow> 's \<Rightarrow> (client_error + string \<times> string) \<times> 's" where
  "cmdPolicyGrant parse net base f s =
     (if gf_host f = '''' \<or> gf_allow f = '''' \<or> gf_ttl f \<le> 0 then (Inl ClientUsage, s)
      else case base of
        Inl err \<Rightarrow> (Inl err, s)
      | Inr base \<Rightarrow>
          (case exchange net \<lparr>hq_method = ''POST'', hq_base = base, hq_path = ''/v1/policy/hosts/'' @ PathEscape (gf_host f) @ ''/grants'',
                  hq_body = Some (grant_body f)\<rparr> 201 s of
             (Inl err, s) \<Rightarrow> (Inl err, s)
           | (Inr rb, s) \<Rightarrow>
               (Inr (case Option.bind (parse rb) (\<lambda>j. decode_struct False granted_fields j ('''', '''')) of
                       None \<Rightarrow> ('''', '''') | Some r \<Rightarrow> r), s)))"

text \<open>\<open>dec\<close> decodes the list of grants, \<open>rfc\<close> formats a time.\<close>

definition cmdPolicyGrants ::
    "(string \<Rightarrow> Grant list option) \<Rightarrow> (time \<Rightarrow> string) \<Rightarrow> 's net \<Rightarrow> client_error + string \<Rightarrow> bool \<Rightarrow> 's \<Rightarrow>
     (client_error + string + string list list option) \<times> 's" where
  "cmdPolicyGrants dec rfc net base asJSON s =
     (case base of
        Inl err \<Rightarrow> (Inl err, s)
      | Inr base \<Rightarrow>
          (case exchange net \<lparr>hq_method = ''GET'', hq_base = base, hq_path = ''/v1/policy/grants'', hq_body = None\<rparr> 200 s of
             (Inl err, s) \<Rightarrow> (Inl err, s)
           | (Inr rb, s) \<Rightarrow>
               if asJSON then (Inr (Inl (if rb \<noteq> [] \<and> last rb \<noteq> CHR 0x0A then rb @ [CHR 0x0A] else rb)), s)
               else (case dec rb of
                 None \<Rightarrow> (Inl BadResponse, s)
               | Some [] \<Rightarrow> (Inr (Inr None), s)
               | Some gs \<Rightarrow> (Inr (Inr (Some ([''ID'', ''HOST'', ''EXPIRES (UTC)'', ''SCOPE'', ''RULES''] #
                   map (\<lambda>g. [g_ID g, g_Host g, rfc (g_ExpiresAt g), grantScope g, grantRules g]) gs))), s))))"

definition cmdPolicyRevoke :: "'s net \<Rightarrow> client_error + string \<Rightarrow> string list \<Rightarrow> 's \<Rightarrow> (client_error + string) \<times> 's" where
  "cmdPolicyRevoke net base args s =
     (if length args \<noteq> 1 then (Inl ClientUsage, s)
      else case base of
        Inl err \<Rightarrow> (Inl err, s)
      | Inr base \<Rightarrow>
          (case exchange net \<lparr>hq_method = ''DELETE'', hq_base = base, hq_path = ''/v1/policy/grants/'' @ PathEscape (args ! 0), hq_body = None\<rparr> 200 s of
             (Inl err, s) \<Rightarrow> (Inl err, s)
           | (Inr rb, s) \<Rightarrow> (Inr (args ! 0), s)))"

definition cmdPolicyMutate :: "'s net \<Rightarrow> client_error + string \<Rightarrow> bool \<Rightarrow> string \<Rightarrow> string \<Rightarrow> 's \<Rightarrow> (client_error + string) \<times> 's" where
  "cmdPolicyMutate net base add host allow s =
     (if host = '''' \<or> allow = '''' then (Inl ClientUsage, s)
      else case base of
        Inl err \<Rightarrow> (Inl err, s)
      | Inr base \<Rightarrow>
          exchange net \<lparr>hq_method = (if add then ''POST'' else ''DELETE''), hq_base = base,
              hq_path = ''/v1/policy/hosts/'' @ PathEscape host @ ''/allow'',
              hq_body = Some (JObj [(''pattern'', JStr (utf8_text allow))])\<rparr> 200 s)"

section \<open>Reload\<close>

datatype reload_result = ReloadSignalled int | ReloadSignalFailed int | ReloadedHTTP int | ReloadError client_error

definition reload_fields :: "(int \<times> string) json_field list" where
  "reload_fields = [(''status'', \<lambda>j r. map_option (\<lambda>_. r) (dec_string j '''')),
     (''hosts'', \<lambda>j (n, e). map_option (\<lambda>v. (v, e)) (dec_number j n)),
     (''error'', \<lambda>j (n, e). map_option (\<lambda>v. (n, v)) (dec_string j e))]"

text \<open>The request of the fallback; a body that does not decode is an error whatever the status.\<close>

definition reload_http :: "(string \<Rightarrow> json option) \<Rightarrow> 's net \<Rightarrow> client_error + string \<Rightarrow> 's \<Rightarrow> reload_result \<times> 's" where
  "reload_http parse net base s =
     (case base of
        Inl err \<Rightarrow> (ReloadError err, s)
      | Inr base \<Rightarrow>
          (case net \<lparr>hq_method = ''POST'', hq_base = base, hq_path = ''/v1/reload'', hq_body = None\<rparr> s of
             (None, s) \<Rightarrow> (ReloadError RequestFailed, s)
           | (Some (st, rb), s) \<Rightarrow>
               (case Option.bind (parse rb) (\<lambda>j. decode_struct False reload_fields j (0, '''')) of
                  None \<Rightarrow> (ReloadError BadResponse, s)
                | Some (hosts, err) \<Rightarrow> if st \<noteq> 200 then (ReloadError (Rejected st err), s) else (ReloadedHTTP hosts, s))))"

text \<open>\<open>kill_ok\<close> tells whether the signal could be sent.\<close>

definition cmdReload ::
    "(string \<Rightarrow> json option) \<Rightarrow> (int \<Rightarrow> bool) \<Rightarrow> (int \<Rightarrow> string option) \<Rightarrow> (int \<Rightarrow> bool) \<Rightarrow> string option \<Rightarrow> 's net \<Rightarrow>
     client_error + string \<Rightarrow> 's \<Rightarrow> reload_result \<times> 's" where
  "cmdReload parse alive ps kill_ok pidFile net base s =
     (case readPID pidFile of
        Some pid \<Rightarrow>
          if isSignerProcess alive ps pid then (if kill_ok pid then ReloadSignalled pid else ReloadSignalFailed pid, s)
          else reload_http parse net base s
      | None \<Rightarrow> reload_http parse net base s)"

section \<open>Approvals\<close>

record approval_item =
  ai_ID :: string
  ai_Caller :: string
  ai_EndUser :: string
  ai_Host :: string
  ai_Command :: string
  ai_Sudo :: bool
  ai_SudoUser :: string
  ai_Rule :: string
  ai_Status :: string

text \<open>\<open>%q\<close> is an argument.\<close>

definition approval_line :: "(string \<Rightarrow> string) \<Rightarrow> approval_item \<Rightarrow> string" where
  "approval_line q it =
     (let user = (if ai_EndUser it = '''' then ''-'' else ai_EndUser it);
          elev = (if ai_Sudo it then ''sudo:'' @ (if ai_SudoUser it = '''' then ''root'' else ai_SudoUser it) else ''none'')
      in ai_ID it @ ''  ['' @ ai_Status it @ '']  caller='' @ ai_Caller it @ '' user='' @ user @ '' host='' @ ai_Host it @
         '' elevation='' @ elev @ [CHR 0x0A] @ ''    cmd='' @ q (ai_Command it) @ '' rule='' @ ai_Rule it @ [CHR 0x0A])"

definition cmdApprovalList ::
    "(string \<Rightarrow> approval_item list option) \<Rightarrow> (string \<Rightarrow> string) \<Rightarrow> 's net \<Rightarrow> client_error + string \<Rightarrow> bool \<Rightarrow> 's \<Rightarrow>
     (client_error + string) \<times> 's" where
  "cmdApprovalList dec q net base asJSON s =
     (case base of
        Inl err \<Rightarrow> (Inl err, s)
      | Inr base \<Rightarrow>
          (case exchange net \<lparr>hq_method = ''GET'', hq_base = base, hq_path = ''/v1/approvals'', hq_body = None\<rparr> 200 s of
             (Inl err, s) \<Rightarrow> (Inl err, s)
           | (Inr body, s) \<Rightarrow>
               if asJSON then (Inr (body @ [CHR 0x0A]), s)
               else (case dec body of
                 None \<Rightarrow> (Inl BadResponse, s)
               | Some items \<Rightarrow> (Inr (if items = [] then ''(no pending requests)'' @ [CHR 0x0A] else concat (map (approval_line q) items)), s))))"

text \<open>\<open>learn\<close> carries the value of \<open>--ttl\<close> when the flag \<open>--learn\<close> of an approval is given.\<close>

definition decide_json :: "bool \<Rightarrow> duration option \<Rightarrow> json" where
  "decide_json approve learn =
     JObj ([(''approve'', JBool approve)] @
       (case learn of Some ttl \<Rightarrow> if approve then [(''learn'', JBool True), (''ttl_seconds'', JNum (Itoa (ttl div second_ns)))] else []
        | None \<Rightarrow> []))"

definition cmdApprovalDecide ::
    "'s net \<Rightarrow> client_error + string \<Rightarrow> bool \<Rightarrow> duration option \<Rightarrow> string list \<Rightarrow> 's \<Rightarrow> (client_error + string) \<times> 's" where
  "cmdApprovalDecide net base approve learn args s =
     (case args of
        [] \<Rightarrow> (Inl MissingRequestID, s)
      | aid # _ \<Rightarrow>
          if approve \<and> (case learn of Some ttl \<Rightarrow> ttl \<le> 0 | None \<Rightarrow> False) then (Inl TTLNotPositive, s)
          else case base of
            Inl err \<Rightarrow> (Inl err, s)
          | Inr base \<Rightarrow>
              (case exchange net \<lparr>hq_method = ''POST'', hq_base = base, hq_path = ''/v1/approvals/'' @ aid,
                      hq_body = Some (decide_json approve learn)\<rparr> 200 s of
                 (Inl err, s) \<Rightarrow> (Inl err, s)
               | (Inr rb, s) \<Rightarrow> (Inr aid, s)))"

section \<open>The routes of the signing service\<close>

text \<open>
  \<open>http.ServeMux\<close> on a path as the client writes it: a path with an empty or a dot segment is redirected
  to its clean form; the others are split and each segment is unescaped before the patterns are
  tried. A segment that is not a valid escape stays as it is.
\<close>

datatype signer_route = Routed "signer_endpoint mux_result" | RouteRedirect

definition unescaped :: "string \<Rightarrow> string" where
  "unescaped seg = (case PathUnescape seg of Some v \<Rightarrow> v | None \<Rightarrow> seg)"

definition signer_mux :: "string \<Rightarrow> string \<Rightarrow> signer_route" where
  "signer_mux method path =
     (let segs = drop 1 (Split1 (CHR ''/'') path) in
      if \<not> HasPrefix path ''/'' \<or> list_ex (\<lambda>x. x \<in> {'''', ''.'', ''..''}) segs then RouteRedirect
      else Routed (serve_mux signer_patterns method (map unescaped segs)))"

definition grantReq_fields :: "grantReq json_field list" where
  "grantReq_fields =
     [(''allow'', \<lambda>j r. map_option (\<lambda>v. r\<lparr>gq_Allow := v\<rparr>) (dec_strings j (gq_Allow r))),
      (''ttl_seconds'', \<lambda>j r. map_option (\<lambda>v. r\<lparr>gq_TTLSeconds := v\<rparr>) (dec_number j (gq_TTLSeconds r))),
      (''caller'', \<lambda>j r. map_option (\<lambda>v. r\<lparr>gq_Caller := v\<rparr>) (dec_string j (gq_Caller r))),
      (''end_user'', \<lambda>j r. map_option (\<lambda>v. r\<lparr>gq_EndUser := v\<rparr>) (dec_string j (gq_EndUser r)))]"

definition decode_grantReq :: "json \<Rightarrow> grantReq option" where
  "decode_grantReq j = decode_struct False grantReq_fields j \<lparr>gq_Allow = [], gq_TTLSeconds = 0, gq_Caller = '''', gq_EndUser = ''''\<rparr>"

definition pattern_fields :: "string json_field list" where
  "pattern_fields = [(''pattern'', dec_string)]"

text \<open>
  The signing service as a network for the policy commands, for a client with the certificate \<open>peer\<close>;
  \<open>body\<close> gives the text of a response. The other routes are not answered here.
\<close>

definition signer_net ::
    "regex_engine \<Rightarrow> ca_keys \<Rightarrow> (grant_error \<Rightarrow> string) \<Rightarrow> (state_error \<Rightarrow> string) \<Rightarrow> (http_response \<Rightarrow> string) \<Rightarrow> bool \<Rightarrow> string \<Rightarrow> time \<Rightarrow>
     string option \<Rightarrow> server net" where
  "signer_net re cas gt st body write_ok newID now peer req s =
     (let answer = (\<lambda>(resp, s). (Some (rs_status resp, body resp), s)) in
      case signer_mux (hq_method req) (hq_path req) of
        RouteRedirect \<Rightarrow> (None, s)
      | Routed NotFound \<Rightarrow> (Some (404, ''404 page not found''), s)
      | Routed MethodNotAllowed \<Rightarrow> (Some (405, ''Method Not Allowed''), s)
      | Routed (Handler h ps) \<Rightarrow>
          (case h of
             GrantCreateRoute \<Rightarrow>
               answer (handleGrantCreate re gt newID now peer (path_param ps ''host'')
                 (Option.bind (hq_body req) decode_grantReq) s)
           | GrantRevokeRoute \<Rightarrow> answer (handleGrantRevoke peer (path_param ps ''id'') s)
           | PolicyAllowRoute \<Rightarrow>
               answer (handlePolicyAllow re cas write_ok st (hq_method req) peer (path_param ps ''host'')
                 (Option.bind (hq_body req) (\<lambda>j. decode_struct False pattern_fields j '''')) s)
           | _ \<Rightarrow> (None, s)))"


section \<open>Escaped segments\<close>

lemma hex_digit_ok: "n < 16 \<Longrightarrow> is_hex (hex_digit n) \<and> hex_value (hex_digit n) = n"
  by (auto simp: is_hex_def hex_digit_def hex_value_def byte_char_of Let_def)

lemma hex_digit_no_slash: "n < 16 \<Longrightarrow> hex_digit n \<noteq> CHR ''/''"
  using hex_digit_ok [of n] by (auto simp: is_hex_def byte_def Let_def)

lemma segment_char_plain: "segment_char c \<Longrightarrow> c \<noteq> CHR ''/'' \<and> c \<noteq> CHR ''%''"
  by (auto simp: segment_char_def byte_def Let_def)

lemma PathEscape_simps [simp]:
  "PathEscape [] = []"
  "PathEscape (c # s) = (if segment_char c then [c] else [CHR ''%'', hex_digit (byte c div 16), hex_digit (byte c mod 16)]) @ PathEscape s"
  by (simp_all add: PathEscape_def)

lemma byte_nibbles: "byte c div 16 < 16 \<and> byte c mod 16 < 16 \<and> char_of (16 * (byte c div 16) + byte c mod 16) = c"
proof -
  have "byte c < 256" unfolding byte_def by (rule nat_of_char_less_256)
  then show ?thesis by (simp add: less_mult_imp_div_less) (simp add: byte_def)
qed

lemma PathUnescape_PathEscape [simp]: "PathUnescape (PathEscape s) = Some s"
proof (induction s)
  case (Cons c s)
  show ?case
  proof (cases "segment_char c")
    case True
    with Cons segment_char_plain [OF True] show ?thesis by simp
  next
    case False
    with Cons byte_nibbles [of c] hex_digit_ok show ?thesis by simp
  qed
qed simp

lemma PathEscape_no_slash: "CHR ''/'' \<notin> set (PathEscape s)"
proof (induction s)
  case (Cons c s)
  have "hex_digit (byte c div 16) \<noteq> CHR ''/''" "hex_digit (byte c mod 16) \<noteq> CHR ''/''"
    using byte_nibbles [of c] hex_digit_no_slash by blast+
  with Cons segment_char_plain [of c] show ?case by (auto simp: eq_commute [of "CHR ''/''"])
qed simp

lemma PathEscape_inj: "PathEscape s = PathEscape t \<Longrightarrow> s = t"
  by (metis PathUnescape_PathEscape option.inject)

lemma PathEscape_dots: "s \<notin> {'''', ''.'', ''..''} \<Longrightarrow> PathEscape s \<notin> {'''', ''.'', ''..''}"
proof -
  assume s: "s \<notin> {'''', ''.'', ''..''}"
  have "PathEscape '''' = ''''" "PathEscape ''.'' = ''.''" "PathEscape ''..'' = ''..''"
    by (simp_all add: segment_char_def)
  then have "PathEscape s = '''' \<Longrightarrow> s = ''''" "PathEscape s = ''.'' \<Longrightarrow> s = ''.''" "PathEscape s = ''..'' \<Longrightarrow> s = ''..''"
    using PathEscape_inj by metis+
  with s show ?thesis by blast
qed

lemma Split1_path: "CHR ''/'' \<notin> set a \<Longrightarrow> Split1 (CHR ''/'') (a @ CHR ''/'' # s) = a # Split1 (CHR ''/'') s"
  by (simp add: Split1_append)

lemma host_path_segments:
  assumes "CHR ''/'' \<notin> set seg" and "CHR ''/'' \<notin> set last_seg"
  shows "Split1 (CHR ''/'') (''/v1/policy/hosts/'' @ seg @ CHR ''/'' # last_seg) = ['''', ''v1'', ''policy'', ''hosts'', seg, last_seg]"
  using Split1_path [of "''''"] Split1_path [of "''v1''"] Split1_path [of "''policy''"] Split1_path [of "''hosts''"] Split1_path [OF assms(1)]
    Split1_nosep [OF assms(2)] by simp

lemma signer_patterns_parsed:
  "map (\<lambda>(p, h). (parse_pattern p, h)) signer_patterns =
    (let pat = (\<lambda>m segs. \<lparr>pt_method = m, pt_segs = segs\<rparr>) in
     [(pat '''' [Lit ''v1'', Lit ''sign''], SignRoute), (pat '''' [Lit ''v1'', Lit ''hosts''], HostsRoute),
      (pat '''' [Lit ''v1'', Lit ''reload''], ReloadRoute),
      (pat ''POST'' [Lit ''v1'', Lit ''policy'', Lit ''hosts'', Wild ''host'', Lit ''allow''], PolicyAllowRoute),
      (pat ''DELETE'' [Lit ''v1'', Lit ''policy'', Lit ''hosts'', Wild ''host'', Lit ''allow''], PolicyAllowRoute),
      (pat ''POST'' [Lit ''v1'', Lit ''policy'', Lit ''hosts'', Wild ''host'', Lit ''grants''], GrantCreateRoute),
      (pat ''GET'' [Lit ''v1'', Lit ''policy'', Lit ''grants''], GrantListRoute),
      (pat ''DELETE'' [Lit ''v1'', Lit ''policy'', Lit ''grants'', Wild ''id''], GrantRevokeRoute),
      (pat ''GET'' [Lit ''v1'', Lit ''policy'', Lit ''hosts''], PolicyHostsRoute)])"
  by code_simp

lemmas serve_signer = serve_mux_def signer_patterns_parsed match_method_def with_method_def Let_def

lemma serve_host_path:
  assumes "host \<noteq> ''''"
  shows "serve_mux signer_patterns ''POST'' [''v1'', ''policy'', ''hosts'', host, ''grants''] = Handler GrantCreateRoute [(''host'', host)]"
    and "serve_mux signer_patterns ''POST'' [''v1'', ''policy'', ''hosts'', host, ''allow''] = Handler PolicyAllowRoute [(''host'', host)]"
    and "serve_mux signer_patterns ''DELETE'' [''v1'', ''policy'', ''hosts'', host, ''allow''] = Handler PolicyAllowRoute [(''host'', host)]"
  using assms by (simp_all add: serve_signer)

lemma serve_grant_path:
  "gid \<noteq> '''' \<Longrightarrow> serve_mux signer_patterns ''DELETE'' [''v1'', ''policy'', ''grants'', gid] = Handler GrantRevokeRoute [(''id'', gid)]"
  by (simp add: serve_signer)

lemma path_param_single [simp]: "path_param [(n, v)] n = v"
  by (simp add: path_param_def)

text \<open>The literal segments of the routes need no unescaping, and an escaped segment is read back.\<close>

lemma unescaped_simps [simp]:
  "unescaped ''v1'' = ''v1''" "unescaped ''policy'' = ''policy''" "unescaped ''hosts'' = ''hosts''"
  "unescaped ''grants'' = ''grants''" "unescaped ''allow'' = ''allow''" "unescaped (PathEscape s) = s"
  by (simp_all add: unescaped_def)

lemma mux_host:
  assumes "host \<notin> {'''', ''.'', ''..''}"
  shows "signer_mux ''POST'' (''/v1/policy/hosts/'' @ PathEscape host @ ''/grants'') = Routed (Handler GrantCreateRoute [(''host'', host)])"
    and "m \<in> {''POST'', ''DELETE''} \<Longrightarrow> signer_mux m (''/v1/policy/hosts/'' @ PathEscape host @ ''/allow'') = Routed (Handler PolicyAllowRoute [(''host'', host)])"
proof -
  note d = PathEscape_dots [OF assms]
  have g: "Split1 (CHR ''/'') (''/v1/policy/hosts/'' @ PathEscape host @ ''/grants'') = ['''', ''v1'', ''policy'', ''hosts'', PathEscape host, ''grants'']"
    using host_path_segments [OF PathEscape_no_slash, of "''grants''" host] by simp
  have a: "Split1 (CHR ''/'') (''/v1/policy/hosts/'' @ PathEscape host @ ''/allow'') = ['''', ''v1'', ''policy'', ''hosts'', PathEscape host, ''allow'']"
    using host_path_segments [OF PathEscape_no_slash, of "''allow''" host] by simp
  show "signer_mux ''POST'' (''/v1/policy/hosts/'' @ PathEscape host @ ''/grants'') = Routed (Handler GrantCreateRoute [(''host'', host)])"
    unfolding signer_mux_def g using d assms by (simp add: HasPrefix_def serve_host_path)
  show "m \<in> {''POST'', ''DELETE''} \<Longrightarrow> signer_mux m (''/v1/policy/hosts/'' @ PathEscape host @ ''/allow'') = Routed (Handler PolicyAllowRoute [(''host'', host)])"
    unfolding signer_mux_def a using d assms by (auto simp: HasPrefix_def serve_host_path)
qed

lemma mux_grant:
  assumes "gid \<notin> {'''', ''.'', ''..''}"
  shows "signer_mux ''DELETE'' (''/v1/policy/grants/'' @ PathEscape gid) = Routed (Handler GrantRevokeRoute [(''id'', gid)])"
proof -
  have "Split1 (CHR ''/'') (''/v1/policy/grants/'' @ PathEscape gid) = ['''', ''v1'', ''policy'', ''grants'', PathEscape gid]"
    using Split1_path [of "''''"] Split1_path [of "''v1''"] Split1_path [of "''policy''"] Split1_path [of "''grants''"]
      Split1_nosep [OF PathEscape_no_slash [of gid]] by simp
  then show ?thesis
    unfolding signer_mux_def using PathEscape_dots [OF assms] assms by (simp add: HasPrefix_def serve_grant_path)
qed

section \<open>End to end\<close>

lemma grantReq_field [simp]:
  "match_field grantReq_fields ''allow'' = Some (''allow'', \<lambda>j r. map_option (\<lambda>v. r\<lparr>gq_Allow := v\<rparr>) (dec_strings j (gq_Allow r)))"
  "match_field grantReq_fields ''ttl_seconds'' = Some (''ttl_seconds'', \<lambda>j r. map_option (\<lambda>v. r\<lparr>gq_TTLSeconds := v\<rparr>) (dec_number j (gq_TTLSeconds r)))"
  "match_field grantReq_fields ''caller'' = Some (''caller'', \<lambda>j r. map_option (\<lambda>v. r\<lparr>gq_Caller := v\<rparr>) (dec_string j (gq_Caller r)))"
  "match_field grantReq_fields ''end_user'' = Some (''end_user'', \<lambda>j r. map_option (\<lambda>v. r\<lparr>gq_EndUser := v\<rparr>) (dec_string j (gq_EndUser r)))"
  by (simp_all add: match_field_def grantReq_fields_def)

text \<open>The values of the flags: text in UTF-8, a duration of 64 bits.\<close>

definition grant_flags_ok :: "grant_flags \<Rightarrow> bool" where
  "grant_flags_ok f \<longleftrightarrow> valid_utf8 (gf_allow f) \<and> valid_utf8 (gf_caller f) \<and> valid_utf8 (gf_endUser f) \<and> gf_ttl f < 2 ^ 63 \<and>
     gf_host f \<notin> {''.'', ''..''}"

lemma decode_grant_body:
  assumes "grant_flags_ok f" and "0 < gf_ttl f"
  shows "decode_grantReq (grant_body f) =
     Some \<lparr>gq_Allow = [gf_allow f], gq_TTLSeconds = gf_ttl f div second_ns, gq_Caller = gf_caller f, gq_EndUser = gf_endUser f\<rparr>"
proof -
  have "0 \<le> gf_ttl f div second_ns" "gf_ttl f div second_ns < 2 ^ 63"
    using assms by (auto simp: grant_flags_ok_def second_ns_def div_less_iff_less_mult pos_imp_zdiv_nonneg_iff)
  then have "Atoi (Itoa (gf_ttl f div second_ns)) = Some (gf_ttl f div second_ns)" by (intro Atoi_Itoa) simp_all
  then show ?thesis
    using assms(1) by (simp add: decode_grantReq_def grant_body_def decode_struct_def grant_flags_ok_def)
qed


lemma handleGrantCreate_created:
  assumes "handleGrantCreate re gt newID now peer host (Some req) s = (resp, s')" and "rs_status resp = 201"
  shows "\<exists>cn g. CallerCN peer = Some cn \<and> cn \<in> set (sv_reloadCN s) \<and> HostAllowlistActive (sv_local s) host = (True, True) \<and> gq_TTLSeconds req > 0 \<and>
     (sv_maxGrantTTL s > 0 \<longrightarrow> seconds (gq_TTLSeconds req) \<le> sv_maxGrantTTL s) \<and>
     s' = auditGrant cn host newID (gq_Allow req) ''grant-created'' '''' (s\<lparr>sv_grants := put newID g (sv_grants s)\<rparr>) \<and>
     g_ID g = newID \<and> g_Host g = host \<and> g_Allow g = gq_Allow req \<and> g_WaiveApproval g = [] \<and> g_Caller g = gq_Caller req \<and>
     g_EndUser g = gq_EndUser req \<and> g_Approver g = cn \<and> g_ExpiresAt g = now + seconds (gq_TTLSeconds req)"
proof -
  obtain cn where cn: "CallerCN peer = Some cn" using assms by (cases "CallerCN peer") (auto simp: handleGrantCreate_def)
  obtain ex al where ha: "HostAllowlistActive (sv_local s) host = (ex, al)" by fastforce
  let ?g = "\<lparr>g_ID = '''', g_Host = host, g_Allow = gq_Allow req, g_WaiveApproval = [], g_Caller = gq_Caller req, g_EndUser = gq_EndUser req,
     g_Sudo = False, g_SudoUser = '''', g_Approver = cn, g_ApprovalID = '''', g_GrantedAt = now, g_ExpiresAt = now + seconds (gq_TTLSeconds req),
     g_waiverRE = []\<rparr>"
  obtain r gs where add: "Add re newID ?g (sv_grants s) = (r, gs)" by fastforce
  have main: "cn \<in> set (sv_reloadCN s)" "ex" "al" "gq_TTLSeconds req > 0" "\<not> (sv_maxGrantTTL s > 0 \<and> seconds (gq_TTLSeconds req) > sv_maxGrantTTL s)"
      "\<exists>gid. r = Inr gid \<and> s' = auditGrant cn host gid (gq_Allow req) ''grant-created'' '''' (s\<lparr>sv_grants := gs\<rparr>)"
    using assms unfolding handleGrantCreate_def cn ha Let_def
    by (auto simp: add split: if_splits sum.splits)
  from main(6) obtain gid where r: "r = Inr gid" and s': "s' = auditGrant cn host gid (gq_Allow req) ''grant-created'' '''' (s\<lparr>sv_grants := gs\<rparr>)"
    by blast
  have "\<exists>g. gid = newID \<and> gs = put newID g (sv_grants s) \<and> g_ID g = newID \<and> g_Host g = host \<and> g_Allow g = gq_Allow req \<and>
      g_WaiveApproval g = [] \<and> g_Caller g = gq_Caller req \<and> g_EndUser g = gq_EndUser req \<and> g_Approver g = cn \<and>
      g_ExpiresAt g = now + seconds (gq_TTLSeconds req)"
    using add r by (auto simp: Add_def Let_def split: if_splits option.splits sum.splits)
  with cn ha main s' show ?thesis by auto
qed

text \<open>
  C38: \<open>policy grant\<close> does what its flags say, from the command line to the signer's state. When it succeeds
  against the signing service, the client is an operator, the host named by the flag, whatever
  characters its name has, is an allowlist host, and the store has one more grant: for that host, of
  exactly that pattern and scope, that expires at most the requested time from now and within the
  service's limit; and the audit log has the matching entry.
\<close>

theorem grant_end_to_end:
  assumes "grant_flags_ok f"
    and "cmdPolicyGrant parse (signer_net re cas gt st body write_ok newID now peer) base f s = (Inr r, s')"
  shows "\<exists>cn g. CallerCN peer = Some cn \<and> cn \<in> set (sv_reloadCN s) \<and> HostAllowlistActive (sv_local s) (gf_host f) = (True, True) \<and>
     sv_grants s' = put newID g (sv_grants s) \<and> g_Host g = gf_host f \<and> g_Allow g = [gf_allow f] \<and> g_WaiveApproval g = [] \<and>
     g_Caller g = gf_caller f \<and> g_EndUser g = gf_endUser f \<and> g_Approver g = cn \<and>
     now < g_ExpiresAt g \<and> g_ExpiresAt g \<le> now + gf_ttl f \<and> (sv_maxGrantTTL s > 0 \<longrightarrow> g_ExpiresAt g \<le> now + sv_maxGrantTTL s) \<and>
     (\<exists>e. sv_audit s' = sv_audit s @ [e] \<and> e_Caller e = cn \<and> e_Host e = gf_host f \<and> e_Outcome e = ''grant-created'')"
proof -
  let ?net = "signer_net re cas gt st body write_ok newID now peer"
  have host: "gf_host f \<noteq> ''''" and ttl: "0 < gf_ttl f" using assms(2) by (auto simp: cmdPolicyGrant_def split: if_splits)
  from host assms(1) have h: "gf_host f \<notin> {'''', ''.'', ''..''}" by (auto simp: grant_flags_ok_def)
  obtain b where b: "base = Inr b" using assms(2) by (cases base) (auto simp: cmdPolicyGrant_def split: if_splits)
  let ?req = "\<lparr>hq_method = ''POST'', hq_base = b, hq_path = ''/v1/policy/hosts/'' @ PathEscape (gf_host f) @ ''/grants'', hq_body = Some (grant_body f)\<rparr>"
  let ?q = "\<lparr>gq_Allow = [gf_allow f], gq_TTLSeconds = gf_ttl f div second_ns, gq_Caller = gf_caller f, gq_EndUser = gf_endUser f\<rparr>"
  have "fst (exchange ?net ?req 201 s) \<in> range Inr" "snd (exchange ?net ?req 201 s) = s'"
    using assms(2) unfolding cmdPolicyGrant_def b by (auto split: if_splits prod.splits sum.splits)
  moreover obtain resp s1 where hg: "handleGrantCreate re gt newID now peer (gf_host f) (Some ?q) s = (resp, s1)" by fastforce
  have "?net ?req s = (Some (rs_status resp, body resp), s1)"
    using mux_host(1) [OF h] hg decode_grant_body [OF assms(1) ttl] by (simp add: signer_net_def)
  ultimately have st: "rs_status resp = 201" "s1 = s'" by (auto simp: exchange_def split: if_splits)
  obtain cn g where c: "CallerCN peer = Some cn" "cn \<in> set (sv_reloadCN s)" "HostAllowlistActive (sv_local s) (gf_host f) = (True, True)"
    and pos: "gf_ttl f div second_ns > 0" and lim: "sv_maxGrantTTL s > 0 \<longrightarrow> seconds (gf_ttl f div second_ns) \<le> sv_maxGrantTTL s"
    and s': "s' = auditGrant cn (gf_host f) newID [gf_allow f] ''grant-created'' '''' (s\<lparr>sv_grants := put newID g (sv_grants s)\<rparr>)"
    and g: "g_Host g = gf_host f" "g_Allow g = [gf_allow f]" "g_WaiveApproval g = []" "g_Caller g = gf_caller f" "g_EndUser g = gf_endUser f"
      "g_Approver g = cn" "g_ExpiresAt g = now + seconds (gf_ttl f div second_ns)"
    using handleGrantCreate_created [OF hg st(1)] st(2) by auto
  have le: "gf_ttl f div second_ns * second_ns \<le> gf_ttl f" by (simp add: second_ns_def)
  then have sec: "seconds (gf_ttl f div second_ns) = gf_ttl f div second_ns * second_ns"
    using assms(1) pos unfolding seconds_def by (intro wrap64_id) (auto simp: grant_flags_ok_def second_ns_def)
  have "now < g_ExpiresAt g" "g_ExpiresAt g \<le> now + gf_ttl f" using g(7) sec le pos by (simp_all add: second_ns_def)
  moreover have "sv_maxGrantTTL s > 0 \<longrightarrow> g_ExpiresAt g \<le> now + sv_maxGrantTTL s" using g(7) lim by simp
  moreover have "sv_grants s' = put newID g (sv_grants s)" by (simp add: s' auditGrant_def appendAudit_def)
  moreover have "\<exists>e. sv_audit s' = sv_audit s @ [e] \<and> e_Caller e = cn \<and> e_Host e = gf_host f \<and> e_Outcome e = ''grant-created''"
    by (simp add: s' auditGrant_def appendAudit_def)
  ultimately show ?thesis using c g by blast
qed

text \<open>A successful \<open>policy revoke\<close> leaves no grant with that identifier.\<close>

theorem revoke_end_to_end:
  assumes "gid \<notin> {'''', ''.'', ''..''}" and "cmdPolicyRevoke (signer_net re cas gt st body write_ok newID now peer) base [gid] s = (Inr r, s')"
  shows "get (sv_grants s) gid \<noteq> None \<and> get (sv_grants s') gid = None"
proof -
  let ?net = "signer_net re cas gt st body write_ok newID now peer"
  obtain b where b: "base = Inr b" using assms(2) by (cases base) (auto simp: cmdPolicyRevoke_def)
  let ?req = "\<lparr>hq_method = ''DELETE'', hq_base = b, hq_path = ''/v1/policy/grants/'' @ PathEscape gid, hq_body = None\<rparr>"
  obtain resp s1 where hr: "handleGrantRevoke peer gid s = (resp, s1)" by fastforce
  have "?net ?req s = (Some (rs_status resp, body resp), s1)" using mux_grant [OF assms(1)] hr by (simp add: signer_net_def)
  then have "rs_status resp = 200" "s1 = s'"
    using assms(2) by (auto simp: cmdPolicyRevoke_def b exchange_def split: if_splits)
  with hr show ?thesis
    by (auto simp: handleGrantRevoke_def Revoke_def auditGrant_def appendAudit_def split: option.splits if_splits prod.splits bool.splits)
qed


section \<open>A sample\<close>

definition grant_server :: server where
  "grant_server = sample_server\<lparr>sv_reloadCN := [''ops''], sv_grants := [], sv_maxGrantTTL := 0,
     sv_local := sample_local\<lparr>l_policy := [(''web/01'', sample_host\<lparr>hp_Policies := Some [zero_policy\<lparr>cp_Mode := CmdPolicyAllowlist, cp_Allow := [''id'']\<rparr>]\<rparr>)]\<rparr>\<rparr>"

definition sample_grant :: grant_flags where
  "sample_grant = \<lparr>gf_host = ''web/01'', gf_allow = ''ls'', gf_ttl = 7200 * second_ns, gf_caller = '''', gf_endUser = ''ana''\<rparr>"

abbreviation grant_net :: "server net" where
  "grant_net \<equiv> signer_net sample_engine None (\<lambda>_. '''') (\<lambda>_. '''') (\<lambda>_. '''') True ''g1'' 5 (Some ''ops'')"

lemma sample_grant_ok: "grant_flags_ok sample_grant" "gf_host sample_grant = ''web/01''" "gf_allow sample_grant = ''ls''"
  "0 < gf_ttl sample_grant" "gf_ttl sample_grant div second_ns = 7200"
proof -
  have "valid_utf8 ''ls''" "valid_utf8 ''ana''" "valid_utf8 ''''" by code_simp+
  then show "grant_flags_ok sample_grant" by (simp add: grant_flags_ok_def sample_grant_def second_ns_def)
qed (simp_all add: sample_grant_def second_ns_def)

lemma sample_grant_handled:
  "\<exists>s'. handleGrantCreate sample_engine (\<lambda>_. '''') ''g1'' 5 (Some ''ops'') ''web/01''
      (Some \<lparr>gq_Allow = [''ls''], gq_TTLSeconds = 7200, gq_Caller = '''', gq_EndUser = ''ana''\<rparr>) grant_server =
     (\<lparr>rs_status = 201, rs_body = BodyOther\<rparr>, s')"
proof -
  have "CallerCN (Some ''ops'') = Some ''ops''" by code_simp
  moreover have "HostAllowlistActive (sv_local grant_server) ''web/01'' = (True, True)" by code_simp
  moreover have "first_invalid sample_engine [''ls''] = None" by code_simp
  ultimately show ?thesis
    by (simp add: handleGrantCreate_def grant_server_def Add_def Let_def canonicalGrantSudoUser_def)
qed

theorem grant_end_to_end_witness:
  "\<exists>s' g. cmdPolicyGrant (\<lambda>_. None) grant_net (Inr ''https://signer'') sample_grant grant_server = (Inr ('''', ''''), s') \<and>
     get (sv_grants s') ''g1'' = Some g \<and> g_Host g = ''web/01'' \<and> g_Allow g = [''ls''] \<and> g_EndUser g = ''ana'' \<and> g_ExpiresAt g \<le> 5 + 7200 * second_ns"
proof -
  obtain s' where h: "handleGrantCreate sample_engine (\<lambda>_. '''') ''g1'' 5 (Some ''ops'') ''web/01''
      (Some \<lparr>gq_Allow = [''ls''], gq_TTLSeconds = 7200, gq_Caller = '''', gq_EndUser = ''ana''\<rparr>) grant_server =
     (\<lparr>rs_status = 201, rs_body = BodyOther\<rparr>, s')" using sample_grant_handled by blast
  have d: "decode_grantReq (grant_body sample_grant) =
      Some \<lparr>gq_Allow = [''ls''], gq_TTLSeconds = 7200, gq_Caller = '''', gq_EndUser = ''ana''\<rparr>"
    using decode_grant_body [OF sample_grant_ok(1,4)] unfolding sample_grant_ok by (simp add: sample_grant_def)
  have m: "signer_mux ''POST'' (''/v1/policy/hosts/'' @ PathEscape ''web/01'' @ ''/grants'') = Routed (Handler GrantCreateRoute [(''host'', ''web/01'')])"
    by (rule mux_host(1)) simp
  have e: "exchange grant_net \<lparr>hq_method = ''POST'', hq_base = ''https://signer'', hq_path = ''/v1/policy/hosts/'' @ PathEscape ''web/01'' @ ''/grants'',
      hq_body = Some (grant_body sample_grant)\<rparr> 201 grant_server = (Inr '''', s')"
    unfolding exchange_def signer_net_def http_req.simps m Let_def by (simp add: d h)
  have c: "cmdPolicyGrant (\<lambda>_. None) grant_net (Inr ''https://signer'') sample_grant grant_server = (Inr ('''', ''''), s')"
    using sample_grant_ok(4) unfolding cmdPolicyGrant_def sample_grant_ok(2,3) sum.case e by simp
  from grant_end_to_end [OF sample_grant_ok(1) c] obtain g where
    "sv_grants s' = put ''g1'' g (sv_grants grant_server)" "g_Host g = ''web/01''" "g_Allow g = [''ls'']" "g_EndUser g = ''ana''"
    "g_ExpiresAt g \<le> 5 + gf_ttl sample_grant" unfolding sample_grant_ok by (auto simp: sample_grant_def)
  then have "get (sv_grants s') ''g1'' = Some g \<and> g_Host g = ''web/01'' \<and> g_Allow g = [''ls''] \<and> g_EndUser g = ''ana'' \<and> g_ExpiresAt g \<le> 5 + 7200 * second_ns"
    by (simp add: sample_grant_def)
  with c show ?thesis by blast
qed

end
