(* ===== verification/Json_Text.thy ===== *)
theory Json_Text
  imports GoJson
begin

text \<open>
  The contract of the JSON library with its clients: what a client prints is read back, and what is
  read is well formed. The contract is satisfiable: a printer and a parser of length-prefixed text
  meet it. The nesting limit of the library's decoder is not represented.
\<close>

section \<open>Well-formed values\<close>

definition span :: "('a \<Rightarrow> bool) \<Rightarrow> 'a list \<Rightarrow> 'a list \<times> 'a list" where
  "span P xs = (takeWhile P xs, dropWhile P xs)"

text \<open>The grammar of numbers.\<close>

definition exponent_ok :: "string \<Rightarrow> bool" where
  "exponent_ok s \<longleftrightarrow>
     (case s of
        [] \<Rightarrow> True
      | c # r \<Rightarrow> c \<in> {CHR ''e'', CHR ''E''} \<and>
          (let ds = (case r of d # r' \<Rightarrow> if d \<in> {CHR ''+'', CHR ''-''} then r' else r | [] \<Rightarrow> [])
           in ds \<noteq> [] \<and> list_all is_digit ds))"

definition number_lit :: "string \<Rightarrow> bool" where
  "number_lit s \<longleftrightarrow>
     (let s = (if HasPrefix s ''-'' then drop 1 s else s);
          (ds, r) = span is_digit s
      in ds \<noteq> [] \<and> (hd ds = CHR ''0'' \<longrightarrow> length ds = 1) \<and>
         (case r of
            [] \<Rightarrow> True
          | c # r' \<Rightarrow>
              if c = CHR ''.'' then (let (fs, e) = span is_digit r' in fs \<noteq> [] \<and> exponent_ok e)
              else exponent_ok r))"

fun json_ok :: "json \<Rightarrow> bool"
and members_ok :: "(string \<times> json) list \<Rightarrow> bool"
and elems_ok :: "json list \<Rightarrow> bool" where
  "json_ok (JStr s) \<longleftrightarrow> valid_utf8 s"
| "json_ok (JNum lit) \<longleftrightarrow> number_lit lit"
| "json_ok (JObj ms) \<longleftrightarrow> members_ok ms"
| "json_ok (JArr js) \<longleftrightarrow> elems_ok js"
| "json_ok _ \<longleftrightarrow> True"
| "members_ok [] \<longleftrightarrow> True"
| "members_ok ((k, j) # ms) \<longleftrightarrow> valid_utf8 k \<and> json_ok j \<and> members_ok ms"
| "elems_ok [] \<longleftrightarrow> True"
| "elems_ok (j # js) \<longleftrightarrow> json_ok j \<and> elems_ok js"

text \<open>The library reads back what it prints, followed by a newline, and what it reads is well formed.\<close>

definition json_lib_ok :: "(string \<Rightarrow> json option) \<Rightarrow> (json \<Rightarrow> string) \<Rightarrow> bool" where
  "json_lib_ok parse print \<longleftrightarrow>
     (\<forall>j. json_ok j \<longrightarrow> parse (print j @ [CHR 0x0A]) = Some j) \<and> (\<forall>t j. parse t = Some j \<longrightarrow> json_ok j)"

lemma members_ok_iff: "members_ok ms \<longleftrightarrow> (\<forall>(k, j)\<in>set ms. valid_utf8 k \<and> json_ok j)"
  by (induction ms) auto

lemma elems_ok_iff: "elems_ok js \<longleftrightarrow> (\<forall>j\<in>set js. json_ok j)"
  by (induction js) auto

lemma members_ok_append [simp]: "members_ok (a @ b) \<longleftrightarrow> members_ok a \<and> members_ok b"
  by (auto simp: members_ok_iff)

lemma json_strings_ok: "list_all valid_utf8 ss \<Longrightarrow> json_ok (json_strings ss)"
  by (auto simp: json_strings_def elems_ok_iff list_all_iff)

section \<open>Printed integers\<close>

lemma nat_digits_leading: "0 < n \<Longrightarrow> hd (nat_digits n) \<noteq> CHR ''0''"
proof (induction n rule: nat_digits.induct)
  case (1 n)
  show ?case
  proof (cases "n < 10")
    case True
    then have "of_char (hd (nat_digits n)) = 48 + n" by (simp add: nat_digits.simps [of n])
    moreover have "of_char (CHR ''0'') = (48 :: nat)" by simp
    ultimately show ?thesis using 1(2) by (metis add_cancel_right_right less_irrefl)
  next
    case False
    then have "hd (nat_digits n) = hd (nat_digits (n div 10))"
      using nat_digits_ok(1) [of "n div 10"] by (simp add: nat_digits.simps [of n])
    with 1 False show ?thesis by simp
  qed
qed

lemma number_lit_digits: "ds \<noteq> [] \<Longrightarrow> list_all is_digit ds \<Longrightarrow> (hd ds = CHR ''0'' \<longrightarrow> length ds = 1) \<Longrightarrow> number_lit ds \<and> number_lit (CHR ''-'' # ds)"
proof -
  assume ds: "ds \<noteq> []" "list_all is_digit ds" "hd ds = CHR ''0'' \<longrightarrow> length ds = 1"
  then have "\<not> HasPrefix ds ''-''" by (cases ds) (auto simp: HasPrefix_def is_digit_def byte_def)
  moreover have "span is_digit ds = (ds, [])"
    using ds(2) by (simp add: span_def takeWhile_eq_all_conv dropWhile_eq_Nil_conv list_all_iff)
  moreover have "HasPrefix (CHR ''-'' # ds) ''-''" by (simp add: HasPrefix_def)
  ultimately show ?thesis using ds by (simp add: number_lit_def)
qed

lemma number_lit_Itoa [simp]: "number_lit (Itoa i)"
proof -
  have "hd (nat_digits n) = CHR ''0'' \<longrightarrow> length (nat_digits n) = 1" for n
    using nat_digits_leading [of n] by (cases n) (simp_all add: nat_digits.simps)
  then show ?thesis using number_lit_digits nat_digits_ok unfolding Itoa_def by (metis (full_types))
qed

section \<open>Length-prefixed text\<close>

definition print_text :: "string \<Rightarrow> string" where
  "print_text s = replicate (length s) (CHR ''1'') @ CHR ''0'' # s"

definition parse_text :: "string \<Rightarrow> (string \<times> string) option" where
  "parse_text t =
     (let n = length (takeWhile (\<lambda>c. c = CHR ''1'') t); r = drop (Suc n) t
      in if length r < n then None else Some (take n r, drop n r))"

fun print_json :: "json \<Rightarrow> string"
and print_members :: "(string \<times> json) list \<Rightarrow> string"
and print_elems :: "json list \<Rightarrow> string" where
  "print_json JNull = ''n''"
| "print_json (JBool b) = (if b then ''t'' else ''f'')"
| "print_json (JNum lit) = CHR ''#'' # print_text lit"
| "print_json (JStr s) = CHR ''s'' # print_text s"
| "print_json (JArr js) = CHR ''['' # print_elems js"
| "print_json (JObj ms) = CHR ''{'' # print_members ms"
| "print_members [] = ''}''"
| "print_members ((k, j) # ms) = CHR '','' # print_text k @ print_json j @ print_members ms"
| "print_elems [] = '']''"
| "print_elems (j # js) = CHR '','' # print_json j @ print_elems js"

fun parse_json :: "nat \<Rightarrow> string \<Rightarrow> (json \<times> string) option"
and parse_members :: "nat \<Rightarrow> string \<Rightarrow> ((string \<times> json) list \<times> string) option"
and parse_elems :: "nat \<Rightarrow> string \<Rightarrow> (json list \<times> string) option" where
  "parse_json 0 t = None"
| "parse_json (Suc n) t =
     (case t of
        [] \<Rightarrow> None
      | c # r \<Rightarrow>
          if c = CHR ''n'' then Some (JNull, r)
          else if c = CHR ''t'' then Some (JBool True, r)
          else if c = CHR ''f'' then Some (JBool False, r)
          else if c = CHR ''#'' then map_option (\<lambda>(s, r). (JNum s, r)) (parse_text r)
          else if c = CHR ''s'' then map_option (\<lambda>(s, r). (JStr s, r)) (parse_text r)
          else if c = CHR ''['' then map_option (\<lambda>(js, r). (JArr js, r)) (parse_elems n r)
          else if c = CHR ''{'' then map_option (\<lambda>(ms, r). (JObj ms, r)) (parse_members n r)
          else None)"
| "parse_members 0 t = None"
| "parse_members (Suc n) t =
     (case t of
        [] \<Rightarrow> None
      | c # r \<Rightarrow>
          if c = CHR ''}'' then Some ([], r)
          else Option.bind (parse_text r) (\<lambda>(k, r).
               Option.bind (parse_json n r) (\<lambda>(j, r).
               map_option (\<lambda>(ms, r). ((k, j) # ms, r)) (parse_members n r))))"
| "parse_elems 0 t = None"
| "parse_elems (Suc n) t =
     (case t of
        [] \<Rightarrow> None
      | c # r \<Rightarrow>
          if c = CHR '']'' then Some ([], r)
          else Option.bind (parse_json n r) (\<lambda>(j, r). map_option (\<lambda>(js, r). (j # js, r)) (parse_elems n r)))"

definition parse_file :: "string \<Rightarrow> json option" where
  "parse_file t =
     (case parse_json (Suc (length t)) t of
        Some (j, r) \<Rightarrow> if r = [CHR 0x0A] \<and> json_ok j then Some j else None
      | None \<Rightarrow> None)"

lemma parse_print_text [simp]: "parse_text (print_text s @ r) = Some (s, r)"
proof -
  have "takeWhile (\<lambda>c. c = CHR ''1'') (print_text s @ r) = replicate (length s) (CHR ''1'')"
    by (simp add: print_text_def takeWhile_append)
  then show ?thesis by (simp add: parse_text_def Let_def) (simp add: print_text_def)
qed

lemma parse_print:
  "length (print_json j) \<le> n \<Longrightarrow> parse_json n (print_json j @ r) = Some (j, r)"
  "length (print_members ms) \<le> n \<Longrightarrow> parse_members n (print_members ms @ r) = Some (ms, r)"
  "length (print_elems js) \<le> n \<Longrightarrow> parse_elems n (print_elems js @ r) = Some (js, r)"
proof (induction j and ms and js arbitrary: n r and n r and n r rule: print_json_print_members_print_elems.induct)
  case 1
  then show ?case by (cases n) auto
next
  case (2 b)
  then show ?case by (cases n; cases b) auto
next
  case (3 lit)
  then show ?case by (cases n) auto
next
  case (4 s)
  then show ?case by (cases n) auto
next
  case (5 js)
  then show ?case by (cases n) auto
next
  case (6 ms)
  then show ?case by (cases n) auto
next
  case 7
  then show ?case by (cases n) auto
next
  case (8 k j ms)
  then show ?case by (cases n) auto
next
  case 9
  then show ?case by (cases n) auto
next
  case (10 j js)
  then show ?case by (cases n) auto
qed

lemma print_json_ok: "json_lib_ok parse_file print_json"
proof -
  have "parse_json (Suc (length (print_json j) + 1)) (print_json j @ [CHR 0x0A]) = Some (j, [CHR 0x0A])" for j
    by (rule parse_print(1)) simp
  then show ?thesis unfolding json_lib_ok_def parse_file_def by (auto split: option.splits prod.splits if_splits)
qed

end
