(* ===== verification/Ctl_Edit.thy ===== *)
theory Ctl_Edit
  imports Ctl_Config Json_Text
begin

text \<open>
  What the editing subcommands of \<open>broker-ctl\<close> change in the configuration file: the frame of each
  edit, once for every section, and its effect on the entry that is edited.
\<close>

section \<open>Well-formed values\<close>

definition host_ok :: "hostEntry \<Rightarrow> bool" where
  "host_ok h \<longleftrightarrow>
     list_all valid_utf8 ([he_Addr h, he_User h, he_HostKey h, he_Jump h, he_Principal h, he_SourceAddress h] @
       he_AllowedCallers h @ he_AllowedSudoUsers h @ he_Groups h) \<and>
     - (2 ^ 63) \<le> he_MaxTTLSeconds h \<and> he_MaxTTLSeconds h < 2 ^ 63 \<and>
     (case he_CommandPolicy h of None \<Rightarrow> True | Some j \<Rightarrow> json_ok j)"

section \<open>Decoding what was encoded\<close>

lemma decode_members_append:
  "decode_members strict fs (a @ b) s = Option.bind (decode_members strict fs a s) (decode_members strict fs b)"
  by (induction strict fs a s rule: decode_members.induct) (auto split: option.splits)

lemma decode_one:
  "match_field fs k = Some (n, set_field) \<Longrightarrow> decode_members strict fs [(k, j)] s = set_field j s"
  by (simp split: option.splits)

text \<open>The fields of a host, found by name.\<close>

lemma host_field [simp]:
  "match_field host_fields ''addr'' = Some (''addr'', \<lambda>j h. map_option (\<lambda>v. h\<lparr>he_Addr := v\<rparr>) (dec_string j (he_Addr h)))"
  "match_field host_fields ''user'' = Some (''user'', \<lambda>j h. map_option (\<lambda>v. h\<lparr>he_User := v\<rparr>) (dec_string j (he_User h)))"
  "match_field host_fields ''host_key'' = Some (''host_key'', \<lambda>j h. map_option (\<lambda>v. h\<lparr>he_HostKey := v\<rparr>) (dec_string j (he_HostKey h)))"
  "match_field host_fields ''jump'' = Some (''jump'', \<lambda>j h. map_option (\<lambda>v. h\<lparr>he_Jump := v\<rparr>) (dec_string j (he_Jump h)))"
  "match_field host_fields ''principal'' = Some (''principal'', \<lambda>j h. map_option (\<lambda>v. h\<lparr>he_Principal := v\<rparr>) (dec_string j (he_Principal h)))"
  "match_field host_fields ''source_address'' = Some (''source_address'', \<lambda>j h. map_option (\<lambda>v. h\<lparr>he_SourceAddress := v\<rparr>) (dec_string j (he_SourceAddress h)))"
  "match_field host_fields ''max_ttl_seconds'' = Some (''max_ttl_seconds'', \<lambda>j h. map_option (\<lambda>v. h\<lparr>he_MaxTTLSeconds := v\<rparr>) (dec_number j (he_MaxTTLSeconds h)))"
  "match_field host_fields ''allow_as_bastion'' = Some (''allow_as_bastion'', \<lambda>j h. map_option (\<lambda>v. h\<lparr>he_AllowAsBastion := v\<rparr>) (dec_bool j (he_AllowAsBastion h)))"
  "match_field host_fields ''allowed_callers'' = Some (''allowed_callers'', \<lambda>j h. map_option (\<lambda>v. h\<lparr>he_AllowedCallers := v\<rparr>) (dec_strings j (he_AllowedCallers h)))"
  "match_field host_fields ''allow_sudo'' = Some (''allow_sudo'', \<lambda>j h. map_option (\<lambda>v. h\<lparr>he_AllowSudo := v\<rparr>) (dec_bool j (he_AllowSudo h)))"
  "match_field host_fields ''allowed_sudo_users'' = Some (''allowed_sudo_users'', \<lambda>j h. map_option (\<lambda>v. h\<lparr>he_AllowedSudoUsers := v\<rparr>) (dec_strings j (he_AllowedSudoUsers h)))"
  "match_field host_fields ''allow_pty'' = Some (''allow_pty'', \<lambda>j h. map_option (\<lambda>v. h\<lparr>he_AllowPTY := v\<rparr>) (dec_bool j (he_AllowPTY h)))"
  "match_field host_fields ''allow_file_transfer'' = Some (''allow_file_transfer'', \<lambda>j h. map_option (\<lambda>v. h\<lparr>he_AllowFileTransfer := v\<rparr>) (dec_bool j (he_AllowFileTransfer h)))"
  "match_field host_fields ''groups'' = Some (''groups'', \<lambda>j h. map_option (\<lambda>v. h\<lparr>he_Groups := v\<rparr>) (dec_strings j (he_Groups h)))"
  "match_field host_fields ''command_policy'' = Some (''command_policy'', \<lambda>j h. Some (h\<lparr>he_CommandPolicy := Some j\<rparr>))"
  by (simp_all add: match_field_def host_fields_def)

lemmas omit_defs = omit_string_def omit_bool_def omit_strings_def omit_number_def omit_raw_def

abbreviation dec_seg :: "(string \<times> json) list \<Rightarrow> hostEntry \<Rightarrow> hostEntry option" where
  "dec_seg \<equiv> decode_members False host_fields"

lemma host_segments:
  "valid_utf8 v \<Longrightarrow> he_Jump s = '''' \<Longrightarrow> dec_seg (omit_string ''jump'' v) s = Some (s\<lparr>he_Jump := v\<rparr>)"
  "valid_utf8 v \<Longrightarrow> he_SourceAddress s = '''' \<Longrightarrow> dec_seg (omit_string ''source_address'' v) s = Some (s\<lparr>he_SourceAddress := v\<rparr>)"
  "- (2 ^ 63) \<le> i \<Longrightarrow> i < 2 ^ 63 \<Longrightarrow> he_MaxTTLSeconds s = 0 \<Longrightarrow>
     dec_seg (omit_number ''max_ttl_seconds'' i) s = Some (s\<lparr>he_MaxTTLSeconds := i\<rparr>)"
  "\<not> he_AllowAsBastion s \<Longrightarrow> dec_seg (omit_bool ''allow_as_bastion'' b) s = Some (s\<lparr>he_AllowAsBastion := b\<rparr>)"
  "list_all valid_utf8 ss \<Longrightarrow> he_AllowedCallers s = [] \<Longrightarrow> dec_seg (omit_strings ''allowed_callers'' ss) s = Some (s\<lparr>he_AllowedCallers := ss\<rparr>)"
  "\<not> he_AllowSudo s \<Longrightarrow> dec_seg (omit_bool ''allow_sudo'' b) s = Some (s\<lparr>he_AllowSudo := b\<rparr>)"
  "list_all valid_utf8 ss \<Longrightarrow> he_AllowedSudoUsers s = [] \<Longrightarrow> dec_seg (omit_strings ''allowed_sudo_users'' ss) s = Some (s\<lparr>he_AllowedSudoUsers := ss\<rparr>)"
  "\<not> he_AllowPTY s \<Longrightarrow> dec_seg (omit_bool ''allow_pty'' b) s = Some (s\<lparr>he_AllowPTY := b\<rparr>)"
  "\<not> he_AllowFileTransfer s \<Longrightarrow> dec_seg (omit_bool ''allow_file_transfer'' b) s = Some (s\<lparr>he_AllowFileTransfer := b\<rparr>)"
  "list_all valid_utf8 ss \<Longrightarrow> he_Groups s = [] \<Longrightarrow> dec_seg (omit_strings ''groups'' ss) s = Some (s\<lparr>he_Groups := ss\<rparr>)"
  "he_CommandPolicy s = None \<Longrightarrow> dec_seg (omit_raw ''command_policy'' cp) s = Some (s\<lparr>he_CommandPolicy := cp\<rparr>)"
  by (simp_all add: omit_defs Atoi_Itoa split: option.splits)

lemma host_head:
  assumes "valid_utf8 a" "valid_utf8 u" "valid_utf8 k"
  shows "dec_seg [(''addr'', JStr (utf8_text a)), (''user'', JStr (utf8_text u)), (''host_key'', JStr (utf8_text k))] s =
     Some (s\<lparr>he_Addr := a, he_User := u, he_HostKey := k\<rparr>)"
  using assms by simp

lemma host_principal: "valid_utf8 v \<Longrightarrow> dec_seg [(''principal'', JStr (utf8_text v))] s = Some (s\<lparr>he_Principal := v\<rparr>)"
  by simp

lemma decode_encode_host: "host_ok h \<Longrightarrow> decode_host (encode_host h) = Some h"
  unfolding decode_host_def encode_host_def decode_struct_def json.case decode_members_append
  by (simp add: host_ok_def host_head host_principal host_segments zero_host_def del: decode_members.simps utf8_text_valid)


lemma omit_ok:
  "valid_utf8 k \<Longrightarrow> valid_utf8 s \<Longrightarrow> members_ok (omit_string k s)" "valid_utf8 k \<Longrightarrow> members_ok (omit_bool k b)"
  "valid_utf8 k \<Longrightarrow> list_all valid_utf8 ss \<Longrightarrow> members_ok (omit_strings k ss)" "valid_utf8 k \<Longrightarrow> members_ok (omit_number k i)"
  "valid_utf8 k \<Longrightarrow> (case j of None \<Rightarrow> True | Some v \<Rightarrow> json_ok v) \<Longrightarrow> members_ok (omit_raw k j)"
  by (auto simp: omit_defs json_strings_ok split: option.splits)

lemma names_valid:
  "list_all (\<lambda>(n, _). valid_utf8 n) host_fields" "list_all (\<lambda>(n, _). valid_utf8 n) policy_fields"
  "list_all (\<lambda>(n, _). valid_utf8 n) caller_fields"
  by code_simp+

lemma encode_host_ok: "host_ok h \<Longrightarrow> json_ok (encode_host h)"
  using names_valid(1) unfolding encode_host_def host_ok_def host_fields_def by (simp add: omit_ok)

lemma policy_field [simp]:
  "match_field policy_fields ''mode'' = Some (''mode'', \<lambda>j p. map_option (\<lambda>v. p\<lparr>cj_Mode := v\<rparr>) (dec_string j (cj_Mode p)))"
  "match_field policy_fields ''enforcement'' = Some (''enforcement'', \<lambda>j p. map_option (\<lambda>v. p\<lparr>cj_Enforcement := v\<rparr>) (dec_string j (cj_Enforcement p)))"
  "match_field policy_fields ''allow'' = Some (''allow'', \<lambda>j p. map_option (\<lambda>v. p\<lparr>cj_Allow := v\<rparr>) (dec_strings j (cj_Allow p)))"
  "match_field policy_fields ''deny'' = Some (''deny'', \<lambda>j p. map_option (\<lambda>v. p\<lparr>cj_Deny := v\<rparr>) (dec_strings j (cj_Deny p)))"
  "match_field policy_fields ''require_approval'' = Some (''require_approval'', \<lambda>j p. map_option (\<lambda>v. p\<lparr>cj_RequireApproval := v\<rparr>) (dec_strings j (cj_RequireApproval p)))"
  "match_field policy_fields ''shell_parse'' = Some (''shell_parse'', \<lambda>j p. map_option (\<lambda>v. p\<lparr>cj_ShellParse := v\<rparr>) (dec_bool j (cj_ShellParse p)))"
  by (simp_all add: match_field_def policy_fields_def)

abbreviation dec_pol :: "(string \<times> json) list \<Rightarrow> commandPolicyJSON \<Rightarrow> commandPolicyJSON option" where
  "dec_pol \<equiv> decode_members False policy_fields"

lemma policy_segments:
  "valid_utf8 v \<Longrightarrow> cj_Mode s = '''' \<Longrightarrow> dec_pol (omit_string ''mode'' v) s = Some (s\<lparr>cj_Mode := v\<rparr>)"
  "valid_utf8 v \<Longrightarrow> cj_Enforcement s = '''' \<Longrightarrow> dec_pol (omit_string ''enforcement'' v) s = Some (s\<lparr>cj_Enforcement := v\<rparr>)"
  "list_all valid_utf8 ss \<Longrightarrow> cj_Allow s = [] \<Longrightarrow> dec_pol (omit_strings ''allow'' ss) s = Some (s\<lparr>cj_Allow := ss\<rparr>)"
  "list_all valid_utf8 ss \<Longrightarrow> cj_Deny s = [] \<Longrightarrow> dec_pol (omit_strings ''deny'' ss) s = Some (s\<lparr>cj_Deny := ss\<rparr>)"
  "list_all valid_utf8 ss \<Longrightarrow> cj_RequireApproval s = [] \<Longrightarrow> dec_pol (omit_strings ''require_approval'' ss) s = Some (s\<lparr>cj_RequireApproval := ss\<rparr>)"
  "\<not> cj_ShellParse s \<Longrightarrow> dec_pol (omit_bool ''shell_parse'' b) s = Some (s\<lparr>cj_ShellParse := b\<rparr>)"
  by (simp_all add: omit_defs)

definition policy_ok :: "commandPolicyJSON \<Rightarrow> bool" where
  "policy_ok p \<longleftrightarrow> list_all valid_utf8 ([cj_Mode p, cj_Enforcement p] @ cj_Allow p @ cj_Deny p @ cj_RequireApproval p)"

lemma decode_encode_policy: "policy_ok p \<Longrightarrow> decode_policy (encode_policy p) = Some p"
  unfolding decode_policy_def encode_policy_def decode_struct_def json.case decode_members_append
  by (simp add: policy_ok_def policy_segments zero_policyJSON_def del: decode_members.simps)

lemma encode_policy_ok: "policy_ok p \<Longrightarrow> json_ok (encode_policy p)"
  using names_valid(2) unfolding encode_policy_def policy_ok_def policy_fields_def by (simp add: omit_ok)

text \<open>A decoded value has well-formed strings, whatever the object looks like.\<close>

lemma valid_utf8_Nil [simp]: "valid_utf8 []"
  by (simp add: valid_utf8.simps)

lemma dec_string_ok: "json_ok j \<Longrightarrow> valid_utf8 s \<Longrightarrow> dec_string j s = Some t \<Longrightarrow> valid_utf8 t"
  by (cases j) auto

lemma dec_elems_ok: "elems_ok js \<Longrightarrow> dec_elems js = Some ss \<Longrightarrow> list_all valid_utf8 ss"
  by (induction js arbitrary: ss) (auto split: option.splits dest: dec_string_ok [OF _ valid_utf8_Nil])

lemma dec_strings_ok: "json_ok j \<Longrightarrow> dec_strings j old = Some ss \<Longrightarrow> list_all valid_utf8 ss"
  by (cases j) (auto simp: dec_elems_ok)

lemma dec_number_range: "dec_number j i = Some n \<Longrightarrow> - (2 ^ 63) \<le> i \<Longrightarrow> i < 2 ^ 63 \<Longrightarrow> - (2 ^ 63) \<le> n \<and> n < 2 ^ 63"
  by (cases j) (auto simp: Atoi_def Let_def split: if_splits list.splits prod.splits)

lemma decode_members_inv:
  assumes "\<And>n set_field j s s'. (n, set_field) \<in> set fs \<Longrightarrow> json_ok j \<Longrightarrow> Q s \<Longrightarrow> set_field j s = Some s' \<Longrightarrow> Q s'"
  shows "members_ok ms \<Longrightarrow> Q s \<Longrightarrow> decode_members strict fs ms s = Some s' \<Longrightarrow> Q s'"
proof (induction ms arbitrary: s)
  case (Cons kj ms)
  obtain k j where kj: "kj = (k, j)" by fastforce
  show ?case
  proof (cases "match_field fs k")
    case None
    with Cons kj show ?thesis by (auto split: if_splits)
  next
    case (Some f)
    obtain n set_field where f: "f = (n, set_field)" by fastforce
    have mem: "(n, set_field) \<in> set fs"
      using Some unfolding match_field_def f by (auto simp: find_Some_iff split: option.splits) (metis nth_mem)+
    from Some f kj Cons.prems obtain s1 where s1: "set_field j s = Some s1" "decode_members strict fs ms s1 = Some s'"
      by (auto split: option.splits)
    with assms [OF mem, of j s s1] Cons.prems kj have "Q s1" by simp
    with Cons.IH s1 Cons.prems kj show ?thesis by simp
  qed
qed simp

lemma decode_struct_inv:
  assumes "\<And>n set_field j s s'. (n, set_field) \<in> set fs \<Longrightarrow> json_ok j \<Longrightarrow> Q s \<Longrightarrow> set_field j s = Some s' \<Longrightarrow> Q s'"
    and "json_ok j" and "Q s" and "decode_struct strict fs j s = Some s'"
  shows "Q s'"
proof (cases j)
  case (JObj ms)
  with assms(2,4) have "members_ok ms" "decode_members strict fs ms s = Some s'" by (simp_all add: decode_struct_def)
  show ?thesis
    by (rule decode_members_inv [where Q = Q and fs = fs and ms = ms and s = s and strict = strict])
      (use assms(1,3) \<open>members_ok ms\<close> \<open>decode_members strict fs ms s = Some s'\<close> in blast)+
qed (use assms(3,4) in \<open>simp_all add: decode_struct_def\<close>)

text \<open>A field that keeps a predicate on the struct, by the kind of its decoder.\<close>

definition field_keeps :: "('s \<Rightarrow> bool) \<Rightarrow> 's json_field \<Rightarrow> bool" where
  "field_keeps Q f \<longleftrightarrow> (\<forall>j s s'. json_ok j \<longrightarrow> Q s \<longrightarrow> snd f j s = Some s' \<longrightarrow> Q s')"

lemma field_keeps_string:
  "(\<And>s. Q s \<Longrightarrow> valid_utf8 (sel s)) \<Longrightarrow> (\<And>s v. Q s \<Longrightarrow> valid_utf8 v \<Longrightarrow> Q (upd v s)) \<Longrightarrow>
     field_keeps Q (n, \<lambda>j s. map_option (\<lambda>v. upd v s) (dec_string j (sel s)))"
  by (auto simp: field_keeps_def dest: dec_string_ok)

lemma field_keeps_strings:
  "(\<And>s v. Q s \<Longrightarrow> list_all valid_utf8 v \<Longrightarrow> Q (upd v s)) \<Longrightarrow>
     field_keeps Q (n, \<lambda>j s. map_option (\<lambda>v. upd v s) (dec_strings j (sel s)))"
  by (auto simp: field_keeps_def dest: dec_strings_ok)

lemma field_keeps_bool:
  "(\<And>s v. Q s \<Longrightarrow> Q (upd v s)) \<Longrightarrow> field_keeps Q (n, \<lambda>j s. map_option (\<lambda>v. upd v s) (dec_bool j (sel s)))"
  by (auto simp: field_keeps_def)

lemma field_keeps_number:
  assumes "\<And>s. Q s \<Longrightarrow> - (2 ^ 63) \<le> sel s \<and> sel s < 2 ^ 63"
    and "\<And>s v. Q s \<Longrightarrow> - (2 ^ 63) \<le> v \<Longrightarrow> v < 2 ^ 63 \<Longrightarrow> Q (upd v s)"
  shows "field_keeps Q (n, \<lambda>j s. map_option (\<lambda>v. upd v s) (dec_number j (sel s)))"
proof -
  have "Q (upd v s)" if "Q s" "dec_number j (sel s) = Some v" for j s v
    using that assms(1) [OF that(1)] dec_number_range [of j "sel s" v] assms(2) [OF that(1)] by blast
  then show ?thesis by (auto simp: field_keeps_def)
qed

lemma field_keeps_raw: "(\<And>s j. Q s \<Longrightarrow> json_ok j \<Longrightarrow> Q (upd j s)) \<Longrightarrow> field_keeps Q (n, \<lambda>j s. Some (upd j s))"
  by (auto simp: field_keeps_def)

lemmas field_keeps_intros = field_keeps_string field_keeps_strings field_keeps_bool field_keeps_number field_keeps_raw

lemma decode_struct_keeps:
  assumes "list_all (field_keeps Q) fs" and "json_ok j" and "Q s" and "decode_struct strict fs j s = Some s'"
  shows "Q s'"
  by (rule decode_struct_inv [where Q = Q, OF _ assms(2-4)]) (use assms(1) in \<open>fastforce simp: list_all_iff field_keeps_def\<close>)

lemma host_fields_keep: "list_all (field_keeps host_ok) host_fields"
  unfolding host_fields_def list.pred_inject(2)
  by (intro conjI list.pred_inject(1); (rule field_keeps_intros; simp add: host_ok_def))

lemma policy_fields_keep: "list_all (field_keeps policy_ok) policy_fields"
  unfolding policy_fields_def list.pred_inject(2)
  by (intro conjI list.pred_inject(1); (rule field_keeps_intros; simp add: policy_ok_def))

lemma decode_host_ok: "json_ok j \<Longrightarrow> decode_host j = Some h \<Longrightarrow> host_ok h"
  unfolding decode_host_def
  by (rule decode_struct_keeps [OF host_fields_keep]) (simp_all add: host_ok_def zero_host_def)

lemma decode_policy_ok: "json_ok j \<Longrightarrow> decode_policy j = Some p \<Longrightarrow> policy_ok p"
  unfolding decode_policy_def
  by (rule decode_struct_keeps [OF policy_fields_keep]) (simp_all add: policy_ok_def zero_policyJSON_def)


section \<open>One section of the file\<close>

definition entries_ok :: "('v \<Rightarrow> bool) \<Rightarrow> (string, 'v) gomap \<Rightarrow> bool" where
  "entries_ok P m \<longleftrightarrow> map_ok m \<and> (\<forall>(k, v)\<in>set m. valid_utf8 k \<and> P v)"

lemma entries_ok_Nil [simp]: "entries_ok P []"
  by (simp add: entries_ok_def)

lemma entries_ok_put [simp]: "entries_ok P m \<Longrightarrow> valid_utf8 k \<Longrightarrow> P v \<Longrightarrow> entries_ok P (put k v m)"
  using set_put_subset [of k v m] by (fastforce simp: entries_ok_def)

lemma entries_ok_del [simp]: "entries_ok P m \<Longrightarrow> entries_ok P (del k m)"
  using set_del_subset [of k m] by (fastforce simp: entries_ok_def)

lemma decode_entries_ok:
  assumes "\<And>j v. json_ok j \<Longrightarrow> dec j = Some v \<Longrightarrow> P v"
  shows "members_ok ms \<Longrightarrow> entries_ok P m \<Longrightarrow> decode_entries dec ms m = Some m' \<Longrightarrow> entries_ok P m'"
proof (induction ms arbitrary: m)
  case (Cons kj ms)
  obtain k j where kj: "kj = (k, j)" by fastforce
  with Cons.prems obtain v where v: "dec j = Some v" "decode_entries dec ms (put k v m) = Some m'"
    by (auto split: option.splits)
  have "valid_utf8 k" "json_ok j" "members_ok ms" using Cons.prems kj by simp_all
  moreover from this have "P v" using assms v(1) by blast
  ultimately show ?case using Cons.IH [of "put k v m"] Cons.prems(2) v(2) by simp
qed simp

lemma decode_map_ok:
  "(\<And>j v. json_ok j \<Longrightarrow> dec j = Some v \<Longrightarrow> P v) \<Longrightarrow> json_ok j \<Longrightarrow> decode_map dec j = Some m \<Longrightarrow> entries_ok P m"
  by (cases j) (auto simp: decode_map_def intro: decode_entries_ok [where P = P and dec = dec and m = "[]"])

lemma encode_map_ok: "(\<And>v. P v \<Longrightarrow> json_ok (enc v)) \<Longrightarrow> entries_ok P m \<Longrightarrow> json_ok (encode_map enc m)"
  by (auto simp: encode_map_def members_ok_iff entries_ok_def)

lemma loadRaw_ok:
  assumes "json_lib_ok parse print" and "loadRaw parse file = Inr (Some raw)"
  shows "entries_ok json_ok raw"
proof -
  obtain data j where "file = Some data" "parse data = Some j" and d: "decode_map Some j = Some raw"
    using assms(2) by (auto simp: loadRaw_def split: option.splits json.splits)
  then have "json_ok j" using assms(1) by (auto simp: json_lib_ok_def)
  then show ?thesis by (rule decode_map_ok [rotated]) (use d in auto)
qed

text \<open>
  A section of the configuration: a key of the file that holds a map, with the encoding and the
  decoding of its entries. An entry that is well formed is read back as it was written, and only
  such entries are read.
\<close>

locale config_section =
  fixes key :: string and enc :: "'v \<Rightarrow> json" and dec :: "json \<Rightarrow> 'v option" and good :: "'v \<Rightarrow> bool"
  assumes key_valid: "valid_utf8 key"
    and dec_enc: "good v \<Longrightarrow> dec (enc v) = Some v"
    and enc_good: "good v \<Longrightarrow> json_ok (enc v)"
    and dec_good: "json_ok j \<Longrightarrow> dec j = Some v \<Longrightarrow> good v"
begin

lemma extract_good:
  assumes "entries_ok json_ok raw" and "(case get raw key of None \<Rightarrow> Some [] | Some j \<Rightarrow> decode_map dec j) = Some m"
  shows "entries_ok good m"
proof (cases "get raw key")
  case None
  with assms(2) show ?thesis by simp
next
  case (Some j)
  with assms(1) have "json_ok j" by (auto simp: entries_ok_def dest: get_in_set)
  with Some assms(2) show ?thesis by (auto intro: decode_map_ok [of dec good, OF dec_good])
qed

text \<open>The frame of an edit: every other section is as before, and this one reads back as written.\<close>

lemma write_frame:
  assumes lib: "json_lib_ok parse print" and raw: "entries_ok json_ok raw" and m: "entries_ok good m"
    and w: "write_section print ok key (encode_map enc m) (Some raw) = Inr text"
  shows "\<exists>raw' m'. loadRaw parse (Some text) = Inr (Some raw') \<and> (\<forall>k. k \<noteq> key \<longrightarrow> get raw' k = get raw k) \<and>
     (case get raw' key of None \<Rightarrow> Some [] | Some j \<Rightarrow> decode_map dec j) = Some m' \<and> get m' = get m"
proof -
  let ?r = "put key (encode_map enc m) raw"
  have em: "json_ok (encode_map enc m)" using m by (intro encode_map_ok [where P = good]) (auto intro: enc_good)
  then have r: "entries_ok json_ok ?r" using raw key_valid by simp
  then have "json_ok (encode_map (\<lambda>j. j) ?r)" by (intro encode_map_ok [where P = json_ok]) auto
  moreover have "text = print (encode_map (\<lambda>j. j) ?r) @ [CHR 0x0A]"
    using w by (auto simp: write_section_def writeRaw_def split: if_splits)
  ultimately have p: "parse text = Some (encode_map (\<lambda>j. j) ?r)" using lib by (simp add: json_lib_ok_def)
  obtain raw' where raw': "decode_map Some (encode_map (\<lambda>j. j) ?r) = Some raw'" "get raw' = get ?r"
    using decode_encode_map [of ?r Some "\<lambda>j. j"] r by (auto simp: entries_ok_def)
  obtain m' where m': "decode_map dec (encode_map enc m) = Some m'" "get m' = get m"
    using decode_encode_map [of m dec enc] m dec_enc by (fastforce simp: entries_ok_def)
  have "loadRaw parse (Some text) = Inr (Some raw')"
    using p raw'(1) by (auto simp: loadRaw_def encode_map_def)
  then show ?thesis using raw'(2) m' by auto
qed

end

lemma section_names_valid: "list_all valid_utf8 [''hosts'', ''ca_keys'', ''callers'']"
  by code_simp

definition caller_ok :: "callerEntry \<Rightarrow> bool" where
  "caller_ok c \<longleftrightarrow> list_all valid_utf8 (ce_AllowedGroups c)"

lemma caller_field [simp]:
  "match_field caller_fields ''allowed_groups'' =
     Some (''allowed_groups'', \<lambda>j c. map_option (\<lambda>v. c\<lparr>ce_AllowedGroups := v\<rparr>) (dec_strings j (ce_AllowedGroups c)))"
  by (simp add: match_field_def caller_fields_def)

lemma caller_fields_keep: "list_all (field_keeps caller_ok) caller_fields"
  unfolding caller_fields_def list.pred_inject(2)
  by (intro conjI list.pred_inject(1); (rule field_keeps_intros; simp add: caller_ok_def))

interpretation hosts: config_section "''hosts''" encode_host decode_host host_ok
  using section_names_valid by unfold_locales (auto simp: decode_encode_host encode_host_ok dest: decode_host_ok)

interpretation keys: config_section "''ca_keys''" "\<lambda>j. j" Some json_ok
  using section_names_valid by unfold_locales auto

interpretation callers: config_section "''callers''" encode_caller decode_caller caller_ok
proof
  show "valid_utf8 ''callers''" using section_names_valid by simp
  show "caller_ok v \<Longrightarrow> decode_caller (encode_caller v) = Some v" for v
    by (simp add: decode_caller_def encode_caller_def decode_struct_def caller_ok_def)
  show "caller_ok v \<Longrightarrow> json_ok (encode_caller v)" for v
    using names_valid(3) by (simp add: encode_caller_def caller_ok_def json_strings_ok caller_fields_def)
  show "json_ok j \<Longrightarrow> decode_caller j = Some v \<Longrightarrow> caller_ok v" for j v
    unfolding decode_caller_def by (rule decode_struct_keeps [OF caller_fields_keep]) (simp_all add: caller_ok_def)
qed


section \<open>Editing hosts\<close>

text \<open>The strings of the flags are UTF-8 and the TTL is a 64-bit integer.\<close>

definition flags_ok :: "host_flags \<Rightarrow> string \<Rightarrow> bool" where
  "flags_ok f hk \<longleftrightarrow> valid_utf8 (hf_name f) \<and> host_ok (host_of_flags f hk) \<and>
     (let p = hf_policy f in
      list_all valid_utf8 ([pf_mode p, pf_enforcement p] @ splitComma (pf_allow p) @ splitComma (pf_deny p) @ splitComma (pf_requireApproval p)))"

lemma upd_if:
  "(if c then h\<lparr>he_Principal := s\<rparr> else h) = h\<lparr>he_Principal := if c then s else he_Principal h\<rparr>"
  "(if c then h\<lparr>he_MaxTTLSeconds := i\<rparr> else h) = h\<lparr>he_MaxTTLSeconds := if c then i else he_MaxTTLSeconds h\<rparr>"
  "(if c then h\<lparr>he_Jump := s\<rparr> else h) = h\<lparr>he_Jump := if c then s else he_Jump h\<rparr>"
  "(if c then h\<lparr>he_SourceAddress := s\<rparr> else h) = h\<lparr>he_SourceAddress := if c then s else he_SourceAddress h\<rparr>"
  "(if c then h\<lparr>he_AllowAsBastion := b\<rparr> else h) = h\<lparr>he_AllowAsBastion := if c then b else he_AllowAsBastion h\<rparr>"
  "(if c then h\<lparr>he_AllowSudo := b\<rparr> else h) = h\<lparr>he_AllowSudo := if c then b else he_AllowSudo h\<rparr>"
  "(if c then h\<lparr>he_AllowedSudoUsers := ss\<rparr> else h) = h\<lparr>he_AllowedSudoUsers := if c then ss else he_AllowedSudoUsers h\<rparr>"
  "(if c then h\<lparr>he_AllowPTY := b\<rparr> else h) = h\<lparr>he_AllowPTY := if c then b else he_AllowPTY h\<rparr>"
  "(if c then h\<lparr>he_AllowFileTransfer := b\<rparr> else h) = h\<lparr>he_AllowFileTransfer := if c then b else he_AllowFileTransfer h\<rparr>"
  "(if c then h\<lparr>he_Groups := ss\<rparr> else h) = h\<lparr>he_Groups := if c then ss else he_Groups h\<rparr>"
  "(if c then h\<lparr>he_AllowedCallers := ss\<rparr> else h) = h\<lparr>he_AllowedCallers := if c then ss else he_AllowedCallers h\<rparr>"
  by (cases c; simp)+

lemma merge_unset:
  "mergeUnsetHostFields old given hp =
     hp\<lparr>he_Principal := if ''principal'' \<notin> set given then he_Principal old else he_Principal hp,
       he_MaxTTLSeconds := if ''ttl'' \<notin> set given then he_MaxTTLSeconds old else he_MaxTTLSeconds hp,
       he_Jump := if ''jump'' \<notin> set given then he_Jump old else he_Jump hp,
       he_SourceAddress := if ''source-address'' \<notin> set given then he_SourceAddress old else he_SourceAddress hp,
       he_AllowAsBastion := if ''bastion'' \<notin> set given then he_AllowAsBastion old else he_AllowAsBastion hp,
       he_AllowSudo := if ''sudo'' \<notin> set given then he_AllowSudo old else he_AllowSudo hp,
       he_AllowedSudoUsers := if ''sudo-users'' \<notin> set given then he_AllowedSudoUsers old else he_AllowedSudoUsers hp,
       he_AllowPTY := if ''pty'' \<notin> set given then he_AllowPTY old else he_AllowPTY hp,
       he_AllowFileTransfer := if ''file-transfer'' \<notin> set given then he_AllowFileTransfer old else he_AllowFileTransfer hp,
       he_Groups := if ''groups'' \<notin> set given then he_Groups old else he_Groups hp,
       he_AllowedCallers := if ''callers'' \<notin> set given then he_AllowedCallers old else he_AllowedCallers hp\<rparr>"
  unfolding mergeUnsetHostFields_def Let_def upd_if by simp


lemma merge_host_ok: "host_ok old \<Longrightarrow> host_ok hp \<Longrightarrow> he_CommandPolicy hp = None \<Longrightarrow> host_ok (mergeUnsetHostFields old given hp)"
  unfolding merge_unset by (simp add: host_ok_def)

lemma host_ok_policy: "host_ok h \<Longrightarrow> (case cp of None \<Rightarrow> True | Some j \<Rightarrow> json_ok j) \<Longrightarrow> host_ok (h\<lparr>he_CommandPolicy := cp\<rparr>)"
  by (simp add: host_ok_def)

lemma merge_policy_ok: "policy_ok p \<Longrightarrow> flags_ok f hk \<Longrightarrow> policy_ok (merge_policy given (hf_policy f) p)"
  by (simp add: policy_ok_def flags_ok_def merge_policy_def Let_def)

lemma zero_policy_ok: "policy_ok zero_policyJSON"
  by (simp add: policy_ok_def zero_policyJSON_def)

lemma host_of_flags_policy [simp]: "he_CommandPolicy (host_of_flags f hk) = None"
  by (simp add: host_of_flags_def zero_host_def)

text \<open>The policy that an existing host has, for the merge.\<close>

definition policy_before :: "json option \<Rightarrow> commandPolicyJSON option" where
  "policy_before j = (case j of None \<Rightarrow> Some zero_policyJSON | Some j \<Rightarrow> decode_policy j)"

lemma policy_before_ok: "policy_before j = Some p \<Longrightarrow> (case j of None \<Rightarrow> True | Some v \<Rightarrow> json_ok v) \<Longrightarrow> policy_ok p"
  by (auto simp: policy_before_def zero_policy_ok dest: decode_policy_ok split: option.splits)

lemma updated_host_ok:
  assumes "flags_ok f hk" and "case old of None \<Rightarrow> True | Some h \<Rightarrow> host_ok h"
    and "updated_host f (host_of_flags f hk) old = Inr hp"
  shows "host_ok hp"
proof (cases old)
  case None
  have "policy_ok \<lparr>cj_Mode = pf_mode (hf_policy f), cj_Enforcement = pf_enforcement (hf_policy f),
      cj_Allow = splitComma (pf_allow (hf_policy f)), cj_Deny = splitComma (pf_deny (hf_policy f)),
      cj_RequireApproval = splitComma (pf_requireApproval (hf_policy f)), cj_ShellParse = pf_shellParse (hf_policy f)\<rparr>"
    using assms(1) by (simp add: flags_ok_def policy_ok_def Let_def)
  then have "json_ok (buildCommandPolicyJSON (hf_policy f))" unfolding buildCommandPolicyJSON_def by (rule encode_policy_ok)
  with None assms show ?thesis
    by (auto simp: updated_host_def Let_def flags_ok_def host_ok_policy split: if_splits)
next
  case (Some h)
  let ?m = "mergeUnsetHostFields h (hf_given f) (host_of_flags f hk)"
  have h: "host_ok h" using assms(2) Some by simp
  have m: "host_ok ?m" using assms(1) by (intro merge_host_ok [OF h]) (simp_all add: flags_ok_def)
  have cp: "case he_CommandPolicy h of None \<Rightarrow> True | Some j \<Rightarrow> json_ok j" using h by (simp add: host_ok_def)
  show ?thesis
  proof (cases "policySet (hf_given f)")
    case False
    with Some assms(3) have "hp = ?m\<lparr>he_CommandPolicy := he_CommandPolicy h\<rparr>"
      by (auto simp: updated_host_def Let_def split: if_splits)
    then show ?thesis using host_ok_policy [OF m cp] by simp
  next
    case True
    then obtain p where p: "policy_before (he_CommandPolicy h) = Some p"
      and hp: "hp = ?m\<lparr>he_CommandPolicy := Some (encode_policy (merge_policy (hf_given f) (hf_policy f) p))\<rparr>"
      using Some assms(3)
      by (auto simp: updated_host_def Let_def mergeCommandPolicyJSON_def policy_before_def split: if_splits option.splits)
    have "json_ok (encode_policy (merge_policy (hf_given f) (hf_policy f) p))"
      by (intro encode_policy_ok merge_policy_ok [OF policy_before_ok [OF p cp] assms(1)])
    then show ?thesis unfolding hp by (intro host_ok_policy [OF m]) simp
  qed
qed

text \<open>A successful \<open>host add\<close>, step by step.\<close>

lemma cmdHostAdd_steps:
  assumes "cmdHostAdd parse print ok acquired f file = Inr text"
  obtains hk raw hosts hp where "acquired = Some hk" "loadRaw parse file = Inr (Some raw)" "extractHosts (Some raw) = Some hosts"
    "updated_host f (host_of_flags f hk) (get hosts (hf_name f)) = Inr hp"
    "write_section print ok ''hosts'' (encode_map encode_host (put (hf_name f) hp hosts)) (Some raw) = Inr text"
proof -
  obtain hk r hosts hp where "acquired = Some hk" "loadRaw parse file = Inr r" "extractHosts r = Some hosts"
    "updated_host f (host_of_flags f hk) (get hosts (hf_name f)) = Inr hp"
    and w: "write_section print ok ''hosts'' (encode_map encode_host (put (hf_name f) hp hosts)) r = Inr text"
    using assms unfolding cmdHostAdd_def writeHosts_def by (auto split: if_splits option.splits sum.splits)
  moreover obtain raw where "r = Some raw" using w by (auto simp: write_section_def split: option.splits)
  ultimately show thesis using that by simp
qed

lemma extractHosts_entries: "entries_ok json_ok raw \<Longrightarrow> extractHosts (Some raw) = Some hosts \<Longrightarrow> entries_ok host_ok hosts"
  unfolding extractHosts_def by (rule hosts.extract_good [of raw]) simp_all

lemma entries_ok_get: "entries_ok P m \<Longrightarrow> get m k = Some v \<Longrightarrow> valid_utf8 k \<and> P v"
  by (auto simp: entries_ok_def dest: get_in_set)


lemma hosts_written:
  assumes "json_lib_ok parse print" and "entries_ok json_ok raw" and "entries_ok host_ok m"
    and "write_section print ok ''hosts'' (encode_map encode_host m) (Some raw) = Inr text"
  obtains raw' hosts' where "loadRaw parse (Some text) = Inr (Some raw')" "\<forall>k. k \<noteq> ''hosts'' \<longrightarrow> get raw' k = get raw k"
    "extractHosts (Some raw') = Some hosts'" "get hosts' = get m"
  unfolding extractHosts_def using hosts.write_frame [OF assms] by auto

text \<open>What an update may change: a field only when its flag was given.\<close>

definition policy_kept :: "string list \<Rightarrow> commandPolicyJSON \<Rightarrow> commandPolicyJSON \<Rightarrow> bool" where
  "policy_kept given p p' \<longleftrightarrow>
     (''policy-mode'' \<in> set given \<or> cj_Mode p' = cj_Mode p) \<and>
     (''policy-enforcement'' \<in> set given \<or> cj_Enforcement p' = cj_Enforcement p) \<and>
     (''allow'' \<in> set given \<or> cj_Allow p' = cj_Allow p) \<and> (''deny'' \<in> set given \<or> cj_Deny p' = cj_Deny p) \<and>
     (''require-approval'' \<in> set given \<or> cj_RequireApproval p' = cj_RequireApproval p) \<and>
     (''shell-parse'' \<in> set given \<or> cj_ShellParse p' = cj_ShellParse p)"

definition host_kept :: "string list \<Rightarrow> hostEntry \<Rightarrow> hostEntry \<Rightarrow> bool" where
  "host_kept given h h' \<longleftrightarrow>
     (''principal'' \<in> set given \<or> he_Principal h' = he_Principal h) \<and>
     (''ttl'' \<in> set given \<or> he_MaxTTLSeconds h' = he_MaxTTLSeconds h) \<and> (''jump'' \<in> set given \<or> he_Jump h' = he_Jump h) \<and>
     (''source-address'' \<in> set given \<or> he_SourceAddress h' = he_SourceAddress h) \<and>
     (''bastion'' \<in> set given \<or> he_AllowAsBastion h' = he_AllowAsBastion h) \<and>
     (''sudo'' \<in> set given \<or> he_AllowSudo h' = he_AllowSudo h) \<and>
     (''sudo-users'' \<in> set given \<or> he_AllowedSudoUsers h' = he_AllowedSudoUsers h) \<and>
     (''pty'' \<in> set given \<or> he_AllowPTY h' = he_AllowPTY h) \<and>
     (''file-transfer'' \<in> set given \<or> he_AllowFileTransfer h' = he_AllowFileTransfer h) \<and>
     (''groups'' \<in> set given \<or> he_Groups h' = he_Groups h) \<and>
     (''callers'' \<in> set given \<or> he_AllowedCallers h' = he_AllowedCallers h) \<and>
     (if policySet given
      then \<exists>p p'. policy_before (he_CommandPolicy h) = Some p \<and> policy_before (he_CommandPolicy h') = Some p' \<and> policy_kept given p p'
      else he_CommandPolicy h' = he_CommandPolicy h)"

lemma merge_policy_kept: "policy_kept given p (merge_policy given f p)"
  by (simp add: policy_kept_def merge_policy_def Let_def)

lemma updated_host_kept:
  assumes f: "flags_ok f hk" and h: "host_ok h" and u: "updated_host f (host_of_flags f hk) (Some h) = Inr hp"
  shows "host_kept (hf_given f) h hp \<and> he_Addr hp = hf_addr f \<and> he_User hp = hf_user f \<and> he_HostKey hp = hk"
proof (cases "policySet (hf_given f)")
  case False
  with u have hp: "hp = (mergeUnsetHostFields h (hf_given f) (host_of_flags f hk))\<lparr>he_CommandPolicy := he_CommandPolicy h\<rparr>"
    by (auto simp: updated_host_def Let_def split: if_splits)
  show ?thesis unfolding host_kept_def if_not_P [OF False] by (intro conjI) (simp_all add: hp merge_unset host_of_flags_def)
next
  case True
  let ?mp = "merge_policy (hf_given f) (hf_policy f)"
  obtain p where p: "policy_before (he_CommandPolicy h) = Some p"
    and hp: "hp = (mergeUnsetHostFields h (hf_given f) (host_of_flags f hk))\<lparr>he_CommandPolicy := Some (encode_policy (?mp p))\<rparr>"
    using True u by (auto simp: updated_host_def Let_def mergeCommandPolicyJSON_def policy_before_def split: if_splits option.splits)
  have "policy_ok p" using policy_before_ok [OF p] h by (simp add: host_ok_def)
  then have "policy_before (Some (encode_policy (?mp p))) = Some (?mp p)"
    using merge_policy_ok [OF _ f] by (simp add: policy_before_def decode_encode_policy)
  then have "\<exists>p' p''. policy_before (he_CommandPolicy h) = Some p' \<and> policy_before (he_CommandPolicy hp) = Some p'' \<and>
      policy_kept (hf_given f) p' p''"
    using p merge_policy_kept by (auto simp: hp)
  then show ?thesis unfolding host_kept_def if_P [OF True] by (intro conjI) (simp_all add: hp merge_unset host_of_flags_def)
qed

text \<open>
  C36: a successful \<open>host add --force\<close> of a host that exists changes that host only, as the services read the
  file. Every other top-level section has the same value as before, every other host decodes to the same
  entry, and the host itself keeps every field, and its command policy every part, whose flag was not given;
  in particular the mode of the firewall stays when \<open>--policy-mode\<close> is left out. Members of a host that its
  entry does not decode, such as comments, are not covered: they are dropped (\<open>inline_comment_lost\<close>).
\<close>

theorem host_update_frame:
  assumes "json_lib_ok parse print" and "flags_ok f hk"
    and "loadRaw parse file = Inr (Some raw)" and "extractHosts (Some raw) = Some hosts" and "get hosts (hf_name f) = Some old"
    and "cmdHostAdd parse print ok (Some hk) f file = Inr text"
  shows "\<exists>raw' hosts' hp. loadRaw parse (Some text) = Inr (Some raw') \<and> (\<forall>k. k \<noteq> ''hosts'' \<longrightarrow> get raw' k = get raw k) \<and>
     extractHosts (Some raw') = Some hosts' \<and> (\<forall>n. n \<noteq> hf_name f \<longrightarrow> get hosts' n = get hosts n) \<and>
     get hosts' (hf_name f) = Some hp \<and> host_kept (hf_given f) old hp \<and>
     he_Addr hp = hf_addr f \<and> he_User hp = hf_user f \<and> he_HostKey hp = hk"
proof -
  obtain hp where hp: "updated_host f (host_of_flags f hk) (Some old) = Inr hp"
    and w: "write_section print ok ''hosts'' (encode_map encode_host (put (hf_name f) hp hosts)) (Some raw) = Inr text"
    using cmdHostAdd_steps [OF assms(6)] assms(3-5) by (metis option.inject sum.inject(2))
  have raw: "entries_ok json_ok raw" by (rule loadRaw_ok [OF assms(1,3)])
  have hosts: "entries_ok host_ok hosts" by (rule extractHosts_entries [OF raw assms(4)])
  have old: "host_ok old" using entries_ok_get [OF hosts assms(5)] by simp
  have "host_ok hp" using updated_host_ok [OF assms(2) _ hp] old by simp
  then have m: "entries_ok host_ok (put (hf_name f) hp hosts)" using hosts assms(2) by (simp add: flags_ok_def)
  obtain raw' hosts' where "loadRaw parse (Some text) = Inr (Some raw')" "\<forall>k. k \<noteq> ''hosts'' \<longrightarrow> get raw' k = get raw k"
    "extractHosts (Some raw') = Some hosts'" "get hosts' = get (put (hf_name f) hp hosts)"
    by (rule hosts_written [OF assms(1) raw m w])
  then show ?thesis using updated_host_kept [OF assms(2) old hp] by auto
qed

text \<open>
  A successful \<open>host remove\<close> removes the named host and nothing else: every other host and every other
  section of the file reads back as before.
\<close>

theorem host_remove_frame:
  assumes "json_lib_ok parse print" and "loadRaw parse file = Inr (Some raw)" and "extractHosts (Some raw) = Some hosts"
    and "cmdHostRemove parse print ok name file = Inr text"
  shows "\<exists>raw' hosts'. loadRaw parse (Some text) = Inr (Some raw') \<and> (\<forall>k. k \<noteq> ''hosts'' \<longrightarrow> get raw' k = get raw k) \<and>
     extractHosts (Some raw') = Some hosts' \<and> (\<forall>n. get hosts' n = (if n = name then None else get hosts n))"
proof -
  have raw: "entries_ok json_ok raw" by (rule loadRaw_ok [OF assms(1,2)])
  have m: "entries_ok host_ok (del name hosts)" using extractHosts_entries [OF raw assms(3)] by simp
  have w: "write_section print ok ''hosts'' (encode_map encode_host (del name hosts)) (Some raw) = Inr text"
    using assms(2-4) by (auto simp: cmdHostRemove_def writeHosts_def split: if_splits)
  obtain raw' hosts' where "loadRaw parse (Some text) = Inr (Some raw')" "\<forall>k. k \<noteq> ''hosts'' \<longrightarrow> get raw' k = get raw k"
    "extractHosts (Some raw') = Some hosts'" "get hosts' = get (del name hosts)"
    by (rule hosts_written [OF assms(1) raw m w])
  then show ?thesis by auto
qed


section \<open>Editing callers\<close>

text \<open>The callers as the signer loads them from the same section.\<close>

definition callerTable :: "(string, callerEntry) gomap \<Rightarrow> CallerTable" where
  "callerTable m = map (\<lambda>(cn, c). (cn, \<lparr>AllowedGroups = ce_AllowedGroups c\<rparr>)) m"

lemma callerTable_get: "get (callerTable m) cn = map_option (\<lambda>c. \<lparr>AllowedGroups = ce_AllowedGroups c\<rparr>) (get m cn)"
  by (induction m) (auto simp: callerTable_def)

lemma HostSetForCaller_get:
  assumes "get m' cn = get m cn" and "get m' DefaultCallerKey = get m DefaultCallerKey"
  shows "HostSetForCaller cn policy (callerTable m') = HostSetForCaller cn policy (callerTable m)"
  unfolding HostSetForCaller_def callerTable_get assms ..

lemma HostSetForCaller_entry:
  "get m cn = Some c \<Longrightarrow> \<exists>hs. HostSetForCaller cn policy (callerTable m) = Some hs \<and>
     set hs = {name. \<exists>hp. (name, hp) \<in> set policy \<and> set (hp_Groups hp) \<inter> set (ce_AllowedGroups c) \<noteq> {}}"
  by (auto simp: HostSetForCaller_def callerTable_get list_ex_iff) force+

lemma extractCallers_entries: "entries_ok json_ok raw \<Longrightarrow> extractCallers (Some raw) = Some m \<Longrightarrow> entries_ok caller_ok m"
  unfolding extractCallers_def by (rule callers.extract_good [of raw]) simp_all

lemma callers_written:
  assumes "json_lib_ok parse print" and "entries_ok json_ok raw" and "entries_ok caller_ok m"
    and "write_section print ok ''callers'' (encode_map encode_caller m) (Some raw) = Inr text"
  obtains raw' m' where "loadRaw parse (Some text) = Inr (Some raw')" "\<forall>k. k \<noteq> ''callers'' \<longrightarrow> get raw' k = get raw k"
    "extractCallers (Some raw') = Some m'" "get m' = get m"
  unfolding extractCallers_def using callers.write_frame [OF assms] by auto

text \<open>
  After a successful \<open>callers add\<close> the signer gives that caller exactly the hosts that share a group with
  the groups of the flag; the reach of every other caller and every other section of the file is as
  before, unless the entry is the default one.
\<close>

theorem callers_add_effective:
  assumes "json_lib_ok parse print" and "valid_utf8 name" and "list_all valid_utf8 (splitComma groups)"
    and "loadRaw parse file = Inr (Some raw)" and "extractCallers (Some raw) = Some m"
    and "cmdCallersAdd parse print ok name (Some groups) force file = Inr text"
  shows "\<exists>raw' m'. loadRaw parse (Some text) = Inr (Some raw') \<and> (\<forall>k. k \<noteq> ''callers'' \<longrightarrow> get raw' k = get raw k) \<and>
     extractCallers (Some raw') = Some m' \<and>
     (\<forall>policy. \<exists>hs. HostSetForCaller name policy (callerTable m') = Some hs \<and>
        set hs = {h. \<exists>hp. (h, hp) \<in> set policy \<and> set (hp_Groups hp) \<inter> set (splitComma groups) \<noteq> {}}) \<and>
     (\<forall>policy cn. cn \<noteq> name \<and> name \<noteq> DefaultCallerKey \<longrightarrow>
        HostSetForCaller cn policy (callerTable m') = HostSetForCaller cn policy (callerTable m))"
proof -
  let ?e = "\<lparr>ce_AllowedGroups = splitComma groups\<rparr>"
  have raw: "entries_ok json_ok raw" by (rule loadRaw_ok [OF assms(1,4)])
  have put: "entries_ok caller_ok (put name ?e m)"
    using extractCallers_entries [OF raw assms(5)] assms(2,3) by (simp add: caller_ok_def)
  have w: "write_section print ok ''callers'' (encode_map encode_caller (put name ?e m)) (Some raw) = Inr text"
    using assms(4-6) by (auto simp: cmdCallersAdd_def writeCallers_def Let_def split: if_splits)
  obtain raw' m' where r: "loadRaw parse (Some text) = Inr (Some raw')" "\<forall>k. k \<noteq> ''callers'' \<longrightarrow> get raw' k = get raw k"
    "extractCallers (Some raw') = Some m'" and m': "get m' = get (put name ?e m)"
    by (rule callers_written [OF assms(1) raw put w])
  have "get m' name = Some ?e" using m' by simp
  from HostSetForCaller_entry [OF this]
  have e: "\<exists>hs. HostSetForCaller name policy (callerTable m') = Some hs \<and>
     set hs = {h. \<exists>hp. (h, hp) \<in> set policy \<and> set (hp_Groups hp) \<inter> set (splitComma groups) \<noteq> {}}" for policy by simp
  have c: "HostSetForCaller cn policy (callerTable m') = HostSetForCaller cn policy (callerTable m)"
    if "cn \<noteq> name \<and> name \<noteq> DefaultCallerKey" for policy cn
    using that m' by (intro HostSetForCaller_get) auto
  show ?thesis by (intro exI [of _ raw'] exI [of _ m'] conjI allI impI r e c) (use r(2) in auto)
qed


section \<open>A sample file\<close>

definition sample_policyJSON :: json where
  "sample_policyJSON = JObj [(''mode'', JStr ''allowlist''), (''allow'', JArr [JStr ''^uptime$''])]"

definition sample_web :: json where
  "sample_web = JObj [(''addr'', JStr ''10.0.0.1:22''), (''user'', JStr ''ops''), (''host_key'', JStr ''k1''), (''principal'', JStr ''host:web01''),
     (''max_ttl_seconds'', JNum ''120''), (''allow_sudo'', JBool True), (''groups'', JArr [JStr ''prod'']), (''command_policy'', sample_policyJSON)]"

definition sample_db :: json where
  "sample_db = JObj [(''addr'', JStr ''10.0.0.2:22''), (''user'', JStr ''ops''), (''host_key'', JStr ''k2''), (''principal'', JStr ''host:db01'')]"

definition sample_raw :: raw_config where
  "sample_raw = [(''listen'', JStr '':7443''), (''hosts'', JObj [(''web01'', sample_web), (''db01'', sample_db)]),
     (''callers'', JObj [(''broker-dev'', JObj [(''allowed_groups'', JArr [JStr ''dev''])])])]"

definition sample_text :: string where
  "sample_text = print_json (JObj sample_raw) @ [CHR 0x0A]"

text \<open>An update that adds a deny rule and gives no other optional flag.\<close>

definition sample_flags :: host_flags where
  "sample_flags = \<lparr>hf_given = [''name'', ''addr'', ''user'', ''host-key'', ''deny'', ''force''], hf_name = ''web01'', hf_addr = ''10.0.0.9:22'',
     hf_user = ''ops'', hf_hostKey = ''k9'', hf_scan = False, hf_principal = '''', hf_ttl = 120, hf_jump = '''', hf_srcAddr = '''', hf_sudo = False,
     hf_sudoUsers = '''', hf_pty = False, hf_fileTransfer = False, hf_groups = '''', hf_callers = '''', hf_bastion = False, hf_force = True,
     hf_policy = \<lparr>pf_mode = '''', pf_enforcement = '''', pf_allow = '''', pf_deny = ''^rm'', pf_requireApproval = '''', pf_shellParse = False\<rparr>\<rparr>"

lemma sample_raw_ok: "json_ok (JObj sample_raw)" "flags_ok sample_flags ''k9''"
  by code_simp+

definition sample_rev :: raw_config where
  "sample_rev = the (decode_map Some (JObj sample_raw))"

lemma sample_load: "loadRaw parse_file (Some sample_text) = Inr (Some sample_rev)"
proof -
  have "parse_file sample_text = Some (JObj sample_raw)"
    using print_json_ok sample_raw_ok(1) unfolding json_lib_ok_def sample_text_def by blast
  moreover have "decode_map Some (JObj sample_raw) = Some sample_rev" by code_simp
  ultimately show ?thesis by (simp add: loadRaw_def)
qed

definition sample_hosts :: "(string, hostEntry) gomap" where
  "sample_hosts = the (extractHosts (Some sample_rev))"

lemma sample_hosts_read: "extractHosts (Some sample_rev) = Some sample_hosts"
  "map_option (\<lambda>h. (he_AllowSudo h, policy_before (he_CommandPolicy h))) (get sample_hosts ''web01'') =
     Some (True, Some (zero_policyJSON\<lparr>cj_Mode := ''allowlist'', cj_Allow := [''^uptime$'']\<rparr>))"
  "map_option he_Addr (get sample_hosts ''db01'') = Some ''10.0.0.2:22''" "get sample_rev ''listen'' = Some (JStr '':7443'')"
  by code_simp+

lemma sample_updated:
  "case updated_host sample_flags (host_of_flags sample_flags ''k9'') (get sample_hosts ''web01'') of Inl _ \<Rightarrow> False | Inr _ \<Rightarrow> True"
  by code_simp

lemma sample_add: "\<exists>text. cmdHostAdd parse_file print_json True (Some ''k9'') sample_flags (Some sample_text) = Inr text"
proof -
  obtain hp where "updated_host sample_flags (host_of_flags sample_flags ''k9'') (get sample_hosts ''web01'') = Inr hp"
    using sample_updated by (auto split: sum.splits)
  moreover have "hf_name sample_flags = ''web01''" "hf_addr sample_flags \<noteq> ''''" "hf_user sample_flags \<noteq> ''''"
    "hf_hostKey sample_flags \<noteq> ''''" "\<not> hf_scan sample_flags" by (simp_all add: sample_flags_def)
  ultimately show ?thesis
    by (simp add: cmdHostAdd_def sample_load sample_hosts_read(1) writeHosts_def write_section_def writeRaw_def)
qed

text \<open>The update keeps the allowlist mode, the elevation of the host and the other host.\<close>

theorem host_update_frame_witness:
  "\<exists>out raw' hosts' hp p. cmdHostAdd parse_file print_json True (Some ''k9'') sample_flags (Some sample_text) = Inr out \<and>
     loadRaw parse_file (Some out) = Inr (Some raw') \<and> get raw' ''listen'' = Some (JStr '':7443'') \<and>
     extractHosts (Some raw') = Some hosts' \<and> map_option he_Addr (get hosts' ''db01'') = Some ''10.0.0.2:22'' \<and>
     get hosts' ''web01'' = Some hp \<and> he_Addr hp = ''10.0.0.9:22'' \<and> he_AllowSudo hp \<and>
     policy_before (he_CommandPolicy hp) = Some p \<and> cj_Mode p = ''allowlist'' \<and> cj_Allow p = [''^uptime$'']"
proof -
  obtain out where t: "cmdHostAdd parse_file print_json True (Some ''k9'') sample_flags (Some sample_text) = Inr out"
    using sample_add by blast
  obtain old where old: "get sample_hosts ''web01'' = Some old" "he_AllowSudo old"
    "policy_before (he_CommandPolicy old) = Some (zero_policyJSON\<lparr>cj_Mode := ''allowlist'', cj_Allow := [''^uptime$'']\<rparr>)"
    using sample_hosts_read(2) by auto
  have g: "hf_name sample_flags = ''web01''" "hf_addr sample_flags = ''10.0.0.9:22''" by (simp_all add: sample_flags_def)
  have n: "policySet (hf_given sample_flags)" "''sudo'' \<notin> set (hf_given sample_flags)" "''policy-mode'' \<notin> set (hf_given sample_flags)"
    "''allow'' \<notin> set (hf_given sample_flags)" by (simp_all add: sample_flags_def policySet_def)
  obtain raw' hosts' hp where r: "loadRaw parse_file (Some out) = Inr (Some raw')" "\<forall>k. k \<noteq> ''hosts'' \<longrightarrow> get raw' k = get sample_rev k"
    "extractHosts (Some raw') = Some hosts'" "\<forall>n. n \<noteq> ''web01'' \<longrightarrow> get hosts' n = get sample_hosts n"
    "get hosts' ''web01'' = Some hp" and k: "host_kept (hf_given sample_flags) old hp" and a: "he_Addr hp = ''10.0.0.9:22''"
    using host_update_frame [OF print_json_ok sample_raw_ok(2) sample_load sample_hosts_read(1) _ t] old(1) unfolding g by blast
  have s: "he_AllowSudo hp" using k n(2) old(2) unfolding host_kept_def by blast
  obtain q p where "policy_before (he_CommandPolicy old) = Some q" "policy_before (he_CommandPolicy hp) = Some p"
    "policy_kept (hf_given sample_flags) q p"
    using k unfolding host_kept_def if_P [OF n(1)] by blast
  then have p: "policy_before (he_CommandPolicy hp) = Some p" "cj_Mode p = ''allowlist''" "cj_Allow p = [''^uptime$'']"
    using old(3) n(3,4) unfolding policy_kept_def by (auto dest: sym)
  have l: "get raw' ''listen'' = Some (JStr '':7443'')" "map_option he_Addr (get hosts' ''db01'') = Some ''10.0.0.2:22''"
    using r(2,4) sample_hosts_read(3,4) by simp_all
  show ?thesis by (intro exI conjI) (rule t r l a s p)+
qed

theorem host_remove_frame_witness:
  "\<exists>out raw' hosts'. cmdHostRemove parse_file print_json True ''web01'' (Some sample_text) = Inr out \<and>
     loadRaw parse_file (Some out) = Inr (Some raw') \<and> get raw' ''listen'' = Some (JStr '':7443'') \<and>
     extractHosts (Some raw') = Some hosts' \<and> get hosts' ''web01'' = None \<and>
     map_option he_Addr (get hosts' ''db01'') = Some ''10.0.0.2:22''"
proof -
  have "get sample_hosts ''web01'' \<noteq> None" using sample_hosts_read(2) by auto
  then obtain out where t: "cmdHostRemove parse_file print_json True ''web01'' (Some sample_text) = Inr out"
    by (simp add: cmdHostRemove_def sample_load sample_hosts_read(1) writeHosts_def write_section_def writeRaw_def)
  obtain raw' hosts' where r: "loadRaw parse_file (Some out) = Inr (Some raw')" "\<forall>k. k \<noteq> ''hosts'' \<longrightarrow> get raw' k = get sample_rev k"
    "extractHosts (Some raw') = Some hosts'" "\<forall>n. get hosts' n = (if n = ''web01'' then None else get sample_hosts n)"
    using host_remove_frame [OF print_json_ok sample_load sample_hosts_read(1) t] by blast
  then show ?thesis using t sample_hosts_read(3,4) by (intro exI conjI) (rule t r | simp)+
qed

definition sample_callers :: "(string, callerEntry) gomap" where
  "sample_callers = the (extractCallers (Some sample_rev))"

lemma sample_callers_read: "extractCallers (Some sample_rev) = Some sample_callers" "get sample_callers ''broker-prod'' = None"
  "valid_utf8 ''broker-prod''" "list_all valid_utf8 (splitComma ''prod, staging'')" "splitComma ''prod, staging'' = [''prod'', ''staging'']"
  by code_simp+

theorem callers_add_effective_witness:
  "\<exists>out raw' m' hs. cmdCallersAdd parse_file print_json True ''broker-prod'' (Some ''prod, staging'') False (Some sample_text) = Inr out \<and>
     loadRaw parse_file (Some out) = Inr (Some raw') \<and> extractCallers (Some raw') = Some m' \<and>
     HostSetForCaller ''broker-prod'' [(''web01'', sample_host)] (callerTable m') = Some hs \<and>
     (''web01'' \<in> set hs) = (set (hp_Groups sample_host) \<inter> {''prod'', ''staging''} \<noteq> {})"
proof -
  obtain out where t: "cmdCallersAdd parse_file print_json True ''broker-prod'' (Some ''prod, staging'') False (Some sample_text) = Inr out"
    by (simp add: cmdCallersAdd_def sample_load sample_callers_read(1,2) writeCallers_def write_section_def writeRaw_def Let_def)
  obtain raw' m' where r: "loadRaw parse_file (Some out) = Inr (Some raw')" "extractCallers (Some raw') = Some m'"
    and e: "\<forall>policy. \<exists>hs. HostSetForCaller ''broker-prod'' policy (callerTable m') = Some hs \<and>
        set hs = {h. \<exists>hp. (h, hp) \<in> set policy \<and> set (hp_Groups hp) \<inter> set (splitComma ''prod, staging'') \<noteq> {}}"
    using callers_add_effective [OF print_json_ok sample_callers_read(3,4) sample_load sample_callers_read(1) t] by blast
  obtain hs where h: "HostSetForCaller ''broker-prod'' [(''web01'', sample_host)] (callerTable m') = Some hs"
    "set hs = {h. \<exists>hp. (h, hp) \<in> set [(''web01'', sample_host)] \<and> set (hp_Groups hp) \<inter> set [''prod'', ''staging''] \<noteq> {}}"
    using e [rule_format, of "[(''web01'', sample_host)]"] unfolding sample_callers_read(5) by blast
  then have "(''web01'' \<in> set hs) = (set (hp_Groups sample_host) \<inter> {''prod'', ''staging''} \<noteq> {})" by simp
  with t r h(1) show ?thesis by blast
qed


section \<open>What an edit loses\<close>

text \<open>
  The list of a flag never has an element with a comma: a regular expression such as \<open>^a{1,2}$\<close>, given to
  \<open>--deny\<close>, is stored as two others.
\<close>

theorem splitComma_cuts: "splitComma ''^a{1,2}$'' = [''^a{1'', ''2}$'']"
  by code_simp

text \<open>A comment in the entry of a host is gone after any edit of any host.\<close>

theorem inline_comment_lost:
  "Option.bind (decode_host (JObj [(''addr'', JStr ''10.0.0.2:22''), (''user'', JStr ''ops''), (''host_key'', JStr ''k2''),
       (''principal'', JStr ''host:db01''), (''_note'', JStr ''rack 4'')]))
     (\<lambda>h. Some (encode_host h)) =
     Some (JObj [(''addr'', JStr ''10.0.0.2:22''), (''user'', JStr ''ops''), (''host_key'', JStr ''k2''), (''principal'', JStr ''host:db01'')])"
  by code_simp

text \<open>A file that holds \<open>null\<close> makes the edit panic instead of report an error.\<close>

theorem null_file_panics:
  "parse data = Some JNull \<Longrightarrow> name \<noteq> '''' \<Longrightarrow>
     cmdCallersAdd parse print ok name (Some groups) force (Some data) = Inl NilMapPanic"
  by (simp add: cmdCallersAdd_def loadRaw_def extractCallers_def writeCallers_def write_section_def Let_def)

end
