(* ===== verification/Ctl_Audit.thy ===== *)
theory Ctl_Audit
  imports Audit_Log GoStrings
begin

text \<open>
  The audit subcommands of \<open>broker-ctl\<close> (\<open>src/cmd/broker-ctl/main.go\<close>): filtering a log, following it
  while it is written, and the command around the verifier.

  A table row is the list of its cells. An instant is \<open>None\<close> for Go's zero time, as in an entry; the
  parsing and the formatting of times are arguments. What the polling loop sees of the file at a tick,
  the size that \<open>Stat\<close> reports and the content that is then read, is an argument too.
\<close>

section \<open>Rows\<close>

definition auditDetail :: "Entry \<Rightarrow> string" where
  "auditDetail e =
     e_Command e @
     (if e_Elevation e \<noteq> '''' then '' ['' @ e_Elevation e @ '']'' else '''') @
     (if e_PTY e then '' [pty]'' else '''') @
     (if e_PolicyRule e \<noteq> '''' then '' [rule: '' @ e_PolicyRule e @ '']'' else '''') @
     (if e_DryRun e then '' [dry-run]'' else '''') @
     (if e_ApprovedBy e \<noteq> '''' then '' [approved-by: '' @ e_ApprovedBy e @ '']'' else '''') @
     (if e_Anomaly e \<noteq> '''' then '' [anomaly: '' @ e_Anomaly e @ '']'' else '''') @
     (if e_Warning e \<noteq> '''' then '' [warning: '' @ e_Warning e @ '']'' else '''') @
     (if e_Err e \<noteq> '''' then '' [err: '' @ e_Err e @ '']'' else '''')"

definition printAuditHeader :: "string list" where
  "printAuditHeader = [''TIME'', ''SEQ'', ''CALLER'', ''HOST'', ''OUTCOME'', ''SERIAL'', ''DETAIL'']"

definition printAuditRow :: "(time option \<Rightarrow> string) \<Rightarrow> Entry \<Rightarrow> string list" where
  "printAuditRow ft e =
     [ft (e_Time e), Itoa (uint (e_Seq e)), e_Caller e, e_Host e, e_Outcome e, Itoa (uint (e_Serial e)), auditDetail e]"

definition printAuditLine :: "audit_codec \<Rightarrow> (time option \<Rightarrow> string) \<Rightarrow> string \<Rightarrow> string list list" where
  "printAuditLine ac ft line = (case ac_Unmarshal ac line of None \<Rightarrow> [] | Some e \<Rightarrow> [printAuditRow ft e])"

section \<open>audit show\<close>

definition parseAuditTime ::
    "(string \<Rightarrow> time option option) \<Rightarrow> (string \<Rightarrow> time option option) \<Rightarrow> string \<Rightarrow> time option option" where
  "parseAuditTime rfc3339 date s = (case rfc3339 s of Some t \<Rightarrow> Some t | None \<Rightarrow> date s)"

record show_flags =
  sf_host :: string
  sf_caller :: string
  sf_outcome :: string
  sf_serial :: "64 word"
  sf_since :: string
  sf_limit :: int
  sf_json :: bool

definition time_before :: "time option \<Rightarrow> time option \<Rightarrow> bool" where
  "time_before a b = (case b of None \<Rightarrow> False | Some u \<Rightarrow> (case a of None \<Rightarrow> True | Some t \<Rightarrow> t < u))"

definition show_matches :: "show_flags \<Rightarrow> time option \<Rightarrow> Entry \<Rightarrow> bool" where
  "show_matches f sinceTime e \<longleftrightarrow>
     (if sf_host f \<noteq> '''' \<and> Index (e_Host e) (sf_host f) = None then False
      else if sf_caller f \<noteq> '''' \<and> Index (e_Caller e) (sf_caller f) = None then False
      else if sf_outcome f \<noteq> '''' \<and> e_Outcome e \<noteq> sf_outcome f then False
      else if sf_serial f \<noteq> 0 \<and> e_Serial e \<noteq> sf_serial f then False
      else if sinceTime \<noteq> None \<and> time_before (e_Time e) sinceTime then False
      else True)"

text \<open>The loop over the lines: what is shown, how many, and whether the limit ended it.\<close>

fun show_loop :: "audit_codec \<Rightarrow> show_flags \<Rightarrow> time option \<Rightarrow> int \<Rightarrow> string list \<Rightarrow> (string \<times> Entry) list \<times> bool" where
  "show_loop ac f sinceTime count [] = ([], False)"
| "show_loop ac f sinceTime count (line # ls) =
     (if length line = 0 then show_loop ac f sinceTime count ls
      else case ac_Unmarshal ac line of
        None \<Rightarrow> show_loop ac f sinceTime count ls
      | Some e \<Rightarrow>
          if \<not> show_matches f sinceTime e then show_loop ac f sinceTime count ls
          else if sf_limit f > 0 \<and> count + 1 \<ge> sf_limit f then ([(line, e)], True)
          else (case show_loop ac f sinceTime (count + 1) ls of (shown, stopped) \<Rightarrow> ((line, e) # shown, stopped)))"

datatype show_error = ShowUsage | InvalidSince string | ShowOpenFailed | ShowReadError

text \<open>
  An outcome is the error the command ends with, if any, and what it printed: raw lines, or the table
  with the note that nothing matched. On a read error the buffered table is never flushed.
\<close>

datatype shown = ShownLines "string list" | ShownTable "string list list" bool | ShownNothing

definition cmdAuditShow ::
    "audit_codec \<Rightarrow> (time option \<Rightarrow> string) \<Rightarrow> (string \<Rightarrow> time option option) \<Rightarrow> (string \<Rightarrow> time option option) \<Rightarrow>
     show_flags \<Rightarrow> string \<Rightarrow> string option \<Rightarrow> show_error option \<times> shown" where
  "cmdAuditShow ac ft rfc3339 date f logPath file =
     (if logPath = '''' then (Some ShowUsage, ShownNothing)
      else case (if sf_since f \<noteq> '''' then parseAuditTime rfc3339 date (sf_since f) else Some None) of
        None \<Rightarrow> (Some (InvalidSince (sf_since f)), ShownNothing)
      | Some sinceTime \<Rightarrow>
     (case file of
        None \<Rightarrow> (Some ShowOpenFailed, ShownNothing)
      | Some content \<Rightarrow>
          (let (ls, ok) = scan_lines content;
               (shown, stopped) = show_loop ac f sinceTime 0 ls
           in if \<not> stopped \<and> \<not> ok
              then (Some ShowReadError, if sf_json f then ShownLines (map fst shown) else ShownNothing)
              else if sf_json f then (None, ShownLines (map fst shown))
              else (None, ShownTable (printAuditHeader # map (printAuditRow ft \<circ> snd) shown) (shown = [])))))"

section \<open>audit verify\<close>

datatype verify_result = VerifyUsage | KeyUnreadable | SeedTooShort | VerifyOpenFailed | VerifyOK nat bool | VerifyFail nat nat

text \<open>
  \<open>codec seed\<close> is the codec whose signatures are checked with the key of the seed; the file system
  gives the log and its rotated segments.
\<close>

definition cmdAuditVerify ::
    "(string \<Rightarrow> audit_codec) \<Rightarrow> string \<Rightarrow> string \<Rightarrow> string option \<Rightarrow> bool \<Rightarrow> audit_fs \<Rightarrow> verify_result" where
  "cmdAuditVerify codec logPath keyPath seedFile segments fs =
     (if logPath = '''' then VerifyUsage
      else if keyPath \<noteq> '''' \<and> seedFile = None then KeyUnreadable
      else if keyPath \<noteq> '''' \<and> length (the seedFile) < 32 then SeedTooShort
      else
        let sigs = (keyPath \<noteq> '''');
            ac = codec (if sigs then take 32 (the seedFile) else [])
        in case (if segments then Some (verifyAuditSegments ac sigs fs)
                 else map_option (verifyAuditChain ac sigs) (fs_current fs)) of
             None \<Rightarrow> VerifyOpenFailed
           | Some (tot, errs) \<Rightarrow> if errs = 0 then VerifyOK tot sigs else VerifyFail tot errs)"

section \<open>audit tail\<close>

fun last_ring :: "int \<Rightarrow> string list \<Rightarrow> string list \<Rightarrow> string list" where
  "last_ring n ring [] = ring"
| "last_ring n ring (b # bs) =
     (if length b = 0 then last_ring n ring bs
      else let ring = ring @ [b]
           in last_ring n (if int (length ring) > n then drop 1 ring else ring) bs)"

text \<open>\<open>sz\<close> is the length of the file after it was scanned; \<open>None\<close> when the seek fails.\<close>

definition lastNLines :: "string \<Rightarrow> nat option \<Rightarrow> int \<Rightarrow> (string list \<times> nat) option" where
  "lastNLines content sz n =
     (case scan_lines content of
        (ls, ok) \<Rightarrow>
          if \<not> ok then None
          else Some (last_ring n [] ls, case sz of None \<Rightarrow> 0 | Some s \<Rightarrow> s))"

text \<open>One tick of the polling loop: the next offset, and the lines handed to the callback.\<close>

definition follow_tick :: "nat option \<times> string option \<Rightarrow> nat \<Rightarrow> nat \<times> string list" where
  "follow_tick seen offset =
     (case fst seen of
        None \<Rightarrow> (offset, [])
      | Some sz \<Rightarrow>
          let offset = (if sz < offset then 0 else offset)
          in if sz = offset then (offset, [])
             else case snd seen of
               None \<Rightarrow> (offset, [])
             | Some content \<Rightarrow>
                 let ls = fst (scan_lines (drop offset content))
                 in (offset + sum_list (map (\<lambda>b. length b + 1) ls), filter (\<lambda>b. length b \<noteq> 0) ls))"

fun followFile :: "(nat option \<times> string option) list \<Rightarrow> nat \<Rightarrow> nat \<times> string list" where
  "followFile [] offset = (offset, [])"
| "followFile (t # ts) offset =
     (case follow_tick t offset of
        (offset, ls) \<Rightarrow> (case followFile ts offset of (offset', ls') \<Rightarrow> (offset', ls @ ls')))"

text \<open>
  \<open>audit tail\<close>: the header, the last lines and, tick by tick, the new ones. \<open>opened\<close> is \<open>None\<close> when the
  file cannot be opened; one that does not exist is followed from its beginning.
\<close>

definition cmdAuditTail ::
    "audit_codec \<Rightarrow> (time option \<Rightarrow> string) \<Rightarrow> string \<Rightarrow> int \<Rightarrow> bool \<Rightarrow> (string \<times> nat option) option \<Rightarrow>
     (nat option \<times> string option) list \<Rightarrow> show_error option \<times> string list list" where
  "cmdAuditTail ac ft logPath n missing opened ticks =
     (if logPath = '''' then (Some ShowUsage, [])
      else
        let follow = (\<lambda>lines offset. (None, printAuditHeader # concat (map (printAuditLine ac ft) (lines @ snd (followFile ticks offset)))))
        in case opened of
             None \<Rightarrow> if missing then follow [] 0 else (Some ShowOpenFailed, [])
           | Some (content, sz) \<Rightarrow>
               (case lastNLines content sz n of
                  None \<Rightarrow> (Some ShowOpenFailed, [])
                | Some (lines, offset) \<Rightarrow> follow lines offset))"


section \<open>Following a log\<close>

definition plain_lines :: "string list \<Rightarrow> bool" where
  "plain_lines ls \<longleftrightarrow> (\<forall>l\<in>set ls. CHR 0x0A \<notin> set l \<and> CHR 0x0D \<notin> set l \<and> length l < maxToken)"

abbreviation written :: "string list \<Rightarrow> nat \<Rightarrow> string" where
  "written ls k \<equiv> render (take k ls)"

lemma render_append: "render (a @ b) = render a @ render b"
  by (simp add: render_def)

lemma length_render: "length (render ls) = sum_list (map (\<lambda>b. length b + 1) ls)"
  by (induction ls) auto

lemma length_render_ge: "length ls \<le> length (render ls)"
  by (induction ls) auto

lemma written_split: "j \<le> k \<Longrightarrow> written ls k = written ls j @ render (drop j (take k ls))"
  by (metis append_take_drop_id min.absorb1 render_append take_take)

lemma written_less: "j < k \<Longrightarrow> k \<le> length ls \<Longrightarrow> length (written ls j) < length (written ls k)"
  using length_render_ge [of "drop j (take k ls)"] by (simp add: written_split [of j k])

lemma scan_plain: "plain_lines ls \<Longrightarrow> scan_lines (render ls) = (ls, True)"
  by (rule scan_lines_plain) (auto simp: plain_lines_def)

lemma plain_sub: "plain_lines ls \<Longrightarrow> set ls' \<subseteq> set ls \<Longrightarrow> plain_lines ls'"
  by (auto simp: plain_lines_def)

lemma follow_tick_grown:
  assumes "plain_lines ls" and "j \<le> k" and "k \<le> k'" and "k' \<le> length ls"
  shows "follow_tick (Some (length (written ls k)), Some (written ls k')) (length (written ls j)) =
     (if k = j then (length (written ls j), []) else (length (written ls k'), filter (\<lambda>b. length b \<noteq> 0) (drop j (take k' ls))))"
proof (cases "k = j")
  case True
  then show ?thesis by (simp add: follow_tick_def)
next
  case False
  then have less: "length (written ls j) < length (written ls k)" using assms by (intro written_less) auto
  have w: "written ls k' = written ls j @ render (drop j (take k' ls))" using assms by (intro written_split) simp
  have "plain_lines (drop j (take k' ls))"
    using assms(1) by (rule plain_sub) (meson in_set_dropD in_set_takeD subsetI)
  then have "scan_lines (drop (length (written ls j)) (written ls k')) = (drop j (take k' ls), True)"
    by (simp add: w scan_plain)
  moreover have "length (written ls j) + sum_list (map (\<lambda>b. length b + 1) (drop j (take k' ls))) = length (written ls k')"
    by (simp add: w length_render)
  ultimately show ?thesis using less False by (simp add: follow_tick_def Let_def)
qed

text \<open>
  What the polling loop may see of a log that only grows, by whole lines: at a tick the file cannot be
  inspected, or not opened, or it has so many lines when \<open>Stat\<close> looks at it and at least as many when
  it is read.
\<close>

fun growing :: "string list \<Rightarrow> nat \<Rightarrow> (nat option \<times> string option) list \<Rightarrow> bool" where
  "growing ls k [] \<longleftrightarrow> True"
| "growing ls k (t # ts) \<longleftrightarrow>
     fst t = None \<and> growing ls k ts \<or>
     (\<exists>k1 k2. k \<le> k1 \<and> k1 \<le> k2 \<and> k2 \<le> length ls \<and> fst t = Some (length (written ls k1)) \<and>
        snd t \<in> {None, Some (written ls k2)} \<and> growing ls k2 ts)"

lemma growing_from: "growing ls k ts \<Longrightarrow> j \<le> k \<Longrightarrow> growing ls j ts"
  by (induction ts arbitrary: j k) (auto intro: le_trans)

lemma follow_grown:
  assumes "plain_lines ls"
  shows "growing ls j ts \<Longrightarrow> j \<le> length ls \<Longrightarrow> \<exists>m. j \<le> m \<and> m \<le> length ls \<and>
     followFile ts (length (written ls j)) = (length (written ls m), filter (\<lambda>b. length b \<noteq> 0) (drop j (take m ls)))"
proof (induction ts arbitrary: j)
  case Nil
  then show ?case by (intro exI [of _ j]) simp
next
  case (Cons t ts)
  have "\<exists>m. j \<le> m \<and> m \<le> length ls \<and> growing ls m ts \<and>
      follow_tick t (length (written ls j)) = (length (written ls m), filter (\<lambda>b. length b \<noteq> 0) (drop j (take m ls)))"
  proof (cases "fst t")
    case None
    with Cons.prems show ?thesis by (intro exI [of _ j]) (auto simp: follow_tick_def)
  next
    case (Some s)
    with Cons.prems(1) obtain k k' where k: "j \<le> k" "k \<le> k'" "k' \<le> length ls" "fst t = Some (length (written ls k))"
      "snd t \<in> {None, Some (written ls k')}" "growing ls k' ts" by auto
    have mono: "\<not> length (written ls k) < length (written ls j)" using k written_split [of j k ls] by simp
    show ?thesis
    proof (cases "k = j \<or> snd t = None")
      case True
      with k mono growing_from [OF k(6), of j] show ?thesis by (intro exI [of _ j]) (auto simp: follow_tick_def Let_def)
    next
      case False
      with k have t: "t = (Some (length (written ls k)), Some (written ls k'))" by (cases t) auto
      show ?thesis using follow_tick_grown [OF assms k(1,2,3)] False k unfolding t by (intro exI [of _ k']) auto
    qed
  qed
  then obtain m where m: "j \<le> m" "m \<le> length ls" "growing ls m ts"
    "follow_tick t (length (written ls j)) = (length (written ls m), filter (\<lambda>b. length b \<noteq> 0) (drop j (take m ls)))" by blast
  from Cons.IH [OF m(3,2)] obtain m' where m': "m \<le> m'" "m' \<le> length ls"
    "followFile ts (length (written ls m)) = (length (written ls m'), filter (\<lambda>b. length b \<noteq> 0) (drop m (take m' ls)))" by blast
  have "take m' ls = take m ls @ drop m (take m' ls)" using m'(1) by (metis append_take_drop_id min.absorb1 take_take)
  from arg_cong [OF this, of "drop j"] have "drop j (take m' ls) = drop j (take m ls) @ drop m (take m' ls)"
    using m(1,2) by simp
  then show ?case using m m' by (intro exI [of _ m']) simp
qed


lemma follow_complete:
  assumes "plain_lines ls" and "growing ls j ts" and "j \<le> length ls"
  shows "snd (followFile (ts @ [(Some (length (render ls)), Some (render ls))]) (length (written ls j))) =
     filter (\<lambda>b. length b \<noteq> 0) (drop j ls)"
proof -
  have app: "followFile (xs @ [t]) off = (let (off', a) = followFile xs off; (off'', b) = follow_tick t off' in (off'', a @ b))" for xs t off
    by (induction xs arbitrary: off) (auto split: prod.splits)
  obtain m where m: "j \<le> m" "m \<le> length ls"
    "followFile ts (length (written ls j)) = (length (written ls m), filter (\<lambda>b. length b \<noteq> 0) (drop j (take m ls)))"
    using follow_grown [OF assms] by blast
  have "follow_tick (Some (length (render ls)), Some (render ls)) (length (written ls m)) =
     (length (render ls), filter (\<lambda>b. length b \<noteq> 0) (drop m ls))"
    using follow_tick_grown [OF assms(1) m(2) order.refl order.refl] by (cases "m = length ls") auto
  moreover have "drop j ls = drop j (take m ls) @ drop m ls"
    using drop_append [of j "take m ls" "drop m ls"] m(1,2) by simp
  ultimately show ?thesis by (simp add: app m(3))
qed

lemma last_ring_exact:
  "0 \<le> n \<Longrightarrow> int (length ring) \<le> n \<Longrightarrow>
     last_ring n ring ls = (let xs = ring @ filter (\<lambda>b. length b \<noteq> 0) ls in drop (length xs - nat n) xs)"
proof (induction ls arbitrary: ring)
  case (Cons b ls)
  show ?case
  proof (cases "length b = 0")
    case False
    show ?thesis
    proof (cases "int (length ring) + 1 > n")
      case True
      with Cons.prems have len: "length ring = nat n" by linarith
      have "last_ring n ring (b # ls) = last_ring n (drop 1 (ring @ [b])) ls" using False True by simp
      also have "\<dots> = (let xs = drop 1 (ring @ [b]) @ filter (\<lambda>b. length b \<noteq> 0) ls in drop (length xs - nat n) xs)"
        using Cons.prems by (intro Cons.IH) auto
      also have "drop 1 (ring @ [b]) @ filter (\<lambda>b. length b \<noteq> 0) ls = drop 1 (ring @ filter (\<lambda>b. length b \<noteq> 0) (b # ls))"
        using False by (cases ring) auto
      finally show ?thesis using False len by (simp add: Let_def del: drop_append)
    next
      case not: False
      have "last_ring n ring (b # ls) = last_ring n (ring @ [b]) ls" using False not by simp
      also have "\<dots> = (let xs = (ring @ [b]) @ filter (\<lambda>b. length b \<noteq> 0) ls in drop (length xs - nat n) xs)"
        using Cons.prems not by (intro Cons.IH) auto
      finally show ?thesis using False by simp
    qed
  qed (use Cons in simp)
qed (simp add: Let_def)

text \<open>The lines of a list of entries.\<close>

abbreviation entry_lines :: "audit_codec \<Rightarrow> Entry list \<Rightarrow> string list" where
  "entry_lines ac es \<equiv> map (ac_Marshal ac) es"

definition entries_fit :: "audit_codec \<Rightarrow> Entry list \<Rightarrow> bool" where
  "entries_fit ac es \<longleftrightarrow> (\<forall>e\<in>set es. entry_utf8 e \<and> length (ac_Marshal ac e) < maxToken)"

lemma entries_fit_sub: "entries_fit ac es \<Longrightarrow> set es' \<subseteq> set es \<Longrightarrow> entries_fit ac es'"
  by (auto simp: entries_fit_def)

lemma entry_lines_plain: "codec_ok ac \<Longrightarrow> entries_fit ac es \<Longrightarrow> plain_lines (entry_lines ac es)"
  by (auto simp: plain_lines_def codec_ok_def entries_fit_def)

lemma entry_lines_nonempty: "codec_ok ac \<Longrightarrow> filter (\<lambda>b. length b \<noteq> 0) (entry_lines ac es) = entry_lines ac es"
  by (auto simp: filter_id_conv codec_ok_def)

lemma printed_entries:
  "codec_ok ac \<Longrightarrow> entries_fit ac es \<Longrightarrow> concat (map (printAuditLine ac ft) (entry_lines ac es)) = map (printAuditRow ft) es"
  by (induction es) (auto simp: printAuditLine_def codec_ok_def entries_fit_def)

text \<open>
  C37: what \<open>audit tail\<close> shows. Over a log of valid UTF-8 entries with lines shorter than 256 KiB that
  only grows by whole lines, of which \<open>j\<close> entries were there when it was scanned and \<open>k\<close> when the code
  then asked for its size, and whatever each poll finds and however often polling fails, the table
  has the last \<open>n\<close> of the first \<open>j\<close> entries and then, once the end has been seen, each entry after
  the first \<open>k\<close> once and in order. Without an append between the scan and the size, that is every entry.
\<close>

theorem tail_table_exact:
  assumes "codec_ok ac" and "entries_fit ac es" and "0 \<le> n" and "j \<le> k" and "k \<le> length es" and "logPath \<noteq> ''''"
    and "growing (entry_lines ac es) k ticks"
  shows "cmdAuditTail ac ft logPath n missing
       (Some (written (entry_lines ac es) j, Some (length (written (entry_lines ac es) k))))
       (ticks @ [(Some (length (render (entry_lines ac es))), Some (render (entry_lines ac es)))]) =
     (None, printAuditHeader # map (printAuditRow ft) (drop (j - nat n) (take j es) @ drop k es))"
proof -
  let ?ls = "entry_lines ac es"
  let ?shown = "drop (j - nat n) (take j es) @ drop k es"
  have plain: "plain_lines ?ls" by (rule entry_lines_plain [OF assms(1,2)])
  have "scan_lines (written ?ls j) = (take j ?ls, True)"
    by (rule scan_plain) (rule plain_sub [OF plain set_take_subset])
  moreover have "last_ring n [] (take j ?ls) = entry_lines ac (drop (j - nat n) (take j es))"
    using assms(3-5) entry_lines_nonempty [OF assms(1), of "take j es"]
    by (simp add: last_ring_exact take_map drop_map Let_def min_absorb2)
  ultimately have l: "lastNLines (written ?ls j) (Some (length (written ?ls k))) n =
      Some (entry_lines ac (drop (j - nat n) (take j es)), length (written ?ls k))"
    by (simp add: lastNLines_def)
  have f: "snd (followFile (ticks @ [(Some (length (render ?ls)), Some (render ?ls))]) (length (written ?ls k))) = entry_lines ac (drop k es)"
    using follow_complete [OF plain assms(7)] assms(5) entry_lines_nonempty [OF assms(1), of "drop k es"] by (simp add: drop_map)
  have "set ?shown \<subseteq> set es" using set_drop_subset set_take_subset by (fastforce dest: in_set_dropD in_set_takeD)
  from printed_entries [OF assms(1) entries_fit_sub [OF assms(2) this], of ft]
  show ?thesis using assms(6) by (simp add: cmdAuditTail_def l f Let_def)
qed

section \<open>Filtering a log\<close>

lemma show_loop_exact:
  assumes "codec_ok ac" and "entries_fit ac es"
  shows "\<exists>stopped. show_loop ac f since count (entry_lines ac es) =
     (map (\<lambda>e. (ac_Marshal ac e, e)) (let xs = filter (show_matches f since) es
        in if sf_limit f > 0 then take (max 1 (nat (sf_limit f - count))) xs else xs), stopped)"
  using assms(2)
proof (induction es arbitrary: count)
  case (Cons e es)
  have fit: "entries_fit ac es" using Cons.prems by (simp add: entries_fit_def)
  have l: "length (ac_Marshal ac e) \<noteq> 0" "ac_Unmarshal ac (ac_Marshal ac e) = Some e"
    using assms(1) Cons.prems by (simp_all add: codec_ok_def entries_fit_def)
  show ?case
  proof (cases "show_matches f since e")
    case False
    with l Cons.IH [OF fit, of count] show ?thesis by simp
  next
    case True
    show ?thesis
    proof (cases "sf_limit f > 0 \<and> count + 1 \<ge> sf_limit f")
      case stop: True
      then have "max 1 (nat (sf_limit f - count)) = 1" by linarith
      with stop True l show ?thesis by (auto simp: Let_def)
    next
      case False
      then have "sf_limit f > 0 \<Longrightarrow> max 1 (nat (sf_limit f - count)) = Suc (max 1 (nat (sf_limit f - (count + 1))))" by linarith
      moreover obtain stopped where "show_loop ac f since (count + 1) (entry_lines ac es) =
         (map (\<lambda>e. (ac_Marshal ac e, e)) (let xs = filter (show_matches f since) es
            in if sf_limit f > 0 then take (max 1 (nat (sf_limit f - (count + 1)))) xs else xs), stopped)"
        using Cons.IH [OF fit] by blast
      ultimately show ?thesis using False True l by (auto simp: Let_def)
    qed
  qed
qed auto

text \<open>
  \<open>audit show\<close> prints, of an intact log, exactly the entries that pass every filter, in order, up to the
  limit.
\<close>

theorem show_filters_exact:
  assumes "codec_ok ac" and "entries_fit ac es" and "logPath \<noteq> ''''" and "sf_json f"
    and "(if sf_since f \<noteq> '''' then parseAuditTime rfc3339 date (sf_since f) else Some None) = Some since"
  shows "cmdAuditShow ac ft rfc3339 date f logPath (Some (render (entry_lines ac es))) =
     (None, ShownLines (entry_lines ac (let xs = filter (show_matches f since) es
        in if sf_limit f > 0 then take (nat (sf_limit f)) xs else xs)))"
proof -
  have s: "scan_lines (render (entry_lines ac es)) = (entry_lines ac es, True)"
    by (rule scan_plain) (rule entry_lines_plain [OF assms(1,2)])
  obtain stopped where l: "show_loop ac f since 0 (entry_lines ac es) =
     (map (\<lambda>e. (ac_Marshal ac e, e)) (let xs = filter (show_matches f since) es
        in if sf_limit f > 0 then take (max 1 (nat (sf_limit f - 0))) xs else xs), stopped)"
    using show_loop_exact [OF assms(1,2)] by blast
  have "sf_limit f > 0 \<Longrightarrow> max 1 (nat (sf_limit f)) = nat (sf_limit f)" by linarith
  then show ?thesis unfolding cmdAuditShow_def assms(5) using assms(3,4) by (simp add: s l Let_def comp_def)
qed

section \<open>Where following goes wrong\<close>

text \<open>
  A line of which only a part has been written at a tick is reported in two pieces, neither of which
  parses; if the rest does not come before the next tick, the whole file is reported again.
\<close>

theorem partial_line_split:
  "followFile [(Some 3, Some ''{x;''), (Some 8, Some (''{x;y:1}'' @ [CHR 0x0A]))] 0 = (8, [''{x;'', '':1}''])"
  "followFile [(Some 5, Some (''{}'' @ [CHR 0x0A] @ ''{x'')), (Some 5, Some (''{}'' @ [CHR 0x0A] @ ''{x''))] 0 = (6, [''{}'', ''{x'', ''{}'', ''{x''])"
  by (simp_all add: follow_tick_def scan_lines_def raw_lines_def dropCR_def maxToken_def Let_def)

text \<open>A line that does not fit in the buffer stops the output for good, without an error.\<close>

theorem long_line_stalls:
  assumes "CHR 0x0A \<notin> set l" and "maxToken \<le> length l"
  shows "snd (followFile (replicate k (Some (length (render (l # ls))), Some (render (l # ls)))) 0) = []"
proof -
  have "raw_lines (render (l # ls)) = l # raw_lines (render ls)"
    using assms(1) Split1_nonempty [of "CHR 0x0A" "render ls"] by (auto simp: raw_lines_def Split1_append Let_def)
  then have "scan_lines (render (l # ls)) = ([], False)" using assms(2) by (simp add: scan_lines_def)
  then have t: "follow_tick (Some (length (render (l # ls))), Some (render (l # ls))) 0 = (0, [])"
    by (simp add: follow_tick_def Let_def)
  show ?thesis by (induction k) (simp_all add: t split: prod.splits del: render_simps)
qed


section \<open>Samples\<close>

definition tail_entries :: "Entry list" where
  "tail_entries = [zero_entry\<lparr>e_Host := ''a''\<rparr>, zero_entry\<lparr>e_Host := ''b''\<rparr>, zero_entry\<lparr>e_Host := ''c''\<rparr>]"

abbreviation tail_lines :: "string list" where
  "tail_lines \<equiv> entry_lines list_codec tail_entries"

lemma tail_entries_fit: "entries_fit list_codec tail_entries"
proof -
  have "valid_utf8 ''a''" "valid_utf8 ''b''" "valid_utf8 ''c''" by (rule valid_utf8_ascii, simp add: byte_def)+
  then show ?thesis
    by (simp add: entries_fit_def entry_utf8_def utf8_Nil tail_entries_def length_marshal entry_fields_def enc_int_def
        enc_time_def enc_bool_def zero_entry_def maxToken_def)
qed

text \<open>Two entries at the start, a failed poll, then a third entry.\<close>

theorem tail_table_exact_witness:
  "map (\<lambda>r. r ! 3) (snd (cmdAuditTail list_codec (\<lambda>_. ''now'') ''audit.log'' 1 False
      (Some (written tail_lines 2, Some (length (written tail_lines 2))))
      ([(None, None)] @ [(Some (length (render tail_lines)), Some (render tail_lines))]))) = [''HOST'', ''b'', ''c'']"
proof -
  have len: "length tail_entries = 3" by (simp add: tail_entries_def)
  have "cmdAuditTail list_codec (\<lambda>_. ''now'') ''audit.log'' 1 False
      (Some (written tail_lines 2, Some (length (written tail_lines 2))))
      ([(None, None)] @ [(Some (length (render tail_lines)), Some (render tail_lines))]) =
     (None, printAuditHeader # map (printAuditRow (\<lambda>_. ''now'')) (drop (2 - nat 1) (take 2 tail_entries) @ drop 2 tail_entries))"
    by (rule tail_table_exact [OF codec_ok_list tail_entries_fit]) (simp_all add: len)
  then show ?thesis
    by (simp only: snd_conv) (simp add: tail_entries_def printAuditHeader_def printAuditRow_def zero_entry_def)
qed

end
