(* ===== verification/Ctl_Main.thy ===== *)
theory Ctl_Main
  imports Ctl_Requests Ctl_Edit Ctl_Audit Service_Start
begin

text \<open>
  The command line of \<open>src/cmd/broker-ctl\<close>: the part of Go's \<open>flag\<close> package it uses, the global
  flags, and the dispatch to the subcommands that the other theories model.
\<close>

section \<open>Flags\<close>

datatype flag_kind = StringFlag | BoolFlag

datatype flag_value = VString string | VBool bool

datatype flag_error = BadSyntax string | NotDefined string | HelpRequested | NeedsArgument string | InvalidValue string string

type_synonym flag_defs = "(string, flag_kind) gomap"

definition ParseBool :: "string \<Rightarrow> bool option" where
  "ParseBool s =
     (if s \<in> {''1'', ''t'', ''T'', ''TRUE'', ''true'', ''True''} then Some True
      else if s \<in> {''0'', ''f'', ''F'', ''FALSE'', ''false'', ''False''} then Some False
      else None)"

text \<open>The name of a flag and its value after the first equals sign, which is not the first byte.\<close>

definition split_flag :: "string \<Rightarrow> string \<times> string option" where
  "split_flag name =
     (let key = hd name # takeWhile (\<lambda>c. c \<noteq> CHR ''='') (tl name); rest = drop (length key) name in
      (key, if rest = '''' then None else Some (tl rest)))"

text \<open>
  \<open>FlagSet.Parse\<close>: it stops at the first argument that is not a flag, or after \<open>--\<close>; a boolean
  flag takes a value only with an equals sign, a string flag the next argument without one.
\<close>

function parse_flags ::
    "flag_defs \<Rightarrow> string list \<Rightarrow> (string, flag_value) gomap \<Rightarrow> flag_error + (string, flag_value) gomap \<times> string list" where
  "parse_flags defs [] vals = Inr (vals, [])"
| "parse_flags defs (s # args) vals =
     (if length s < 2 \<or> hd s \<noteq> CHR ''-'' then Inr (vals, s # args)
      else if s = ''--'' then Inr (vals, args)
      else
        let name = (if s ! 1 = CHR ''-'' then drop 2 s else drop 1 s) in
        if hd name = CHR ''-'' \<or> hd name = CHR ''='' then Inl (BadSyntax s)
        else
          (case split_flag name of
             (key, val) \<Rightarrow>
               (case get defs key of
                  None \<Rightarrow> Inl (if key = ''help'' \<or> key = ''h'' then HelpRequested else NotDefined key)
                | Some BoolFlag \<Rightarrow>
                    (case ParseBool (case val of None \<Rightarrow> ''true'' | Some v \<Rightarrow> v) of
                       None \<Rightarrow> Inl (InvalidValue key (case val of None \<Rightarrow> ''true'' | Some v \<Rightarrow> v))
                     | Some b \<Rightarrow> parse_flags defs args (put key (VBool b) vals))
                | Some StringFlag \<Rightarrow>
                    (case val of
                       Some v \<Rightarrow> parse_flags defs args (put key (VString v) vals)
                     | None \<Rightarrow>
                         (case args of
                            [] \<Rightarrow> Inl (NeedsArgument key)
                          | v # args' \<Rightarrow> parse_flags defs args' (put key (VString v) vals))))))"
  by pat_completeness auto
termination
  by (relation "measure (\<lambda>(defs, args, vals). length args)") auto

definition string_flag :: "(string, flag_value) gomap \<Rightarrow> string \<Rightarrow> string \<Rightarrow> string" where
  "string_flag vals name default_val = (case get vals name of Some (VString v) \<Rightarrow> v | _ \<Rightarrow> default_val)"

definition bool_flag :: "(string, flag_value) gomap \<Rightarrow> string \<Rightarrow> bool" where
  "bool_flag vals name = (case get vals name of Some (VBool b) \<Rightarrow> b | _ \<Rightarrow> False)"

section \<open>Global flags\<close>

record global_flags =
  gl_config :: string
  gl_clientConfig :: string
  gl_version :: bool
  gl_verbose :: bool

definition global_defs :: flag_defs where
  "global_defs = [(''config'', StringFlag), (''client-config'', StringFlag), (''version'', BoolFlag), (''verbose'', BoolFlag)]"

definition parseGlobalFlags :: "string list \<Rightarrow> flag_error + global_flags \<times> string list" where
  "parseGlobalFlags args =
     (case parse_flags global_defs args [] of
        Inl e \<Rightarrow> Inl e
      | Inr (vals, rest) \<Rightarrow>
          Inr (\<lparr>gl_config = string_flag vals ''config'' ''./signer.json'',
                gl_clientConfig = string_flag vals ''client-config'' '''',
                gl_version = bool_flag vals ''version'', gl_verbose = bool_flag vals ''verbose''\<rparr>, rest))"

section \<open>Dispatch\<close>

datatype ctl_command =
    HostAdd | HostList | HostRemove
  | CAKeysAdd | CAKeysList | CAKeysRemove
  | CallersAdd | CallersList | CallersRemove
  | ReloadCmd
  | ApprovalList | ApprovalDecide bool
  | AuditTail | AuditShow | AuditVerify
  | PolicyExplain | PolicyRecommend | PolicyMutate bool | PolicyGrant | PolicyGrants | PolicyRevoke
  | VersionCmd

datatype ctl_action =
    RunCommand ctl_command "string list"
  | PrintVersion bool
  | PrintUsage
  | ExitUsage int
  | ExitUnknown string int

definition cmdHost :: "string list \<Rightarrow> ctl_action" where
  "cmdHost args =
     (case args of
        [] \<Rightarrow> ExitUsage 1
      | a # rest \<Rightarrow>
          if a = ''add'' then RunCommand HostAdd rest
          else if a = ''list'' then RunCommand HostList rest
          else if a = ''remove'' \<or> a = ''rm'' \<or> a = ''del'' then RunCommand HostRemove rest
          else ExitUnknown a 1)"

definition cmdCAKeys :: "string list \<Rightarrow> ctl_action" where
  "cmdCAKeys args =
     (case args of
        [] \<Rightarrow> ExitUsage 1
      | a # rest \<Rightarrow>
          if a = ''add'' then RunCommand CAKeysAdd rest
          else if a = ''list'' then RunCommand CAKeysList rest
          else if a = ''remove'' \<or> a = ''rm'' then RunCommand CAKeysRemove rest
          else ExitUnknown a 1)"

definition cmdCallers :: "string list \<Rightarrow> ctl_action" where
  "cmdCallers args =
     (case args of
        [] \<Rightarrow> ExitUsage 1
      | a # rest \<Rightarrow>
          if a = ''add'' then RunCommand CallersAdd rest
          else if a = ''list'' then RunCommand CallersList rest
          else if a = ''remove'' \<or> a = ''rm'' then RunCommand CallersRemove rest
          else ExitUnknown a 1)"

definition cmdApproval :: "string list \<Rightarrow> ctl_action" where
  "cmdApproval args =
     (case args of
        [] \<Rightarrow> ExitUsage 1
      | a # rest \<Rightarrow>
          if a = ''list'' then RunCommand ApprovalList rest
          else if a = ''allow'' \<or> a = ''approve'' then RunCommand (ApprovalDecide True) rest
          else if a = ''deny'' \<or> a = ''reject'' then RunCommand (ApprovalDecide False) rest
          else ExitUnknown a 1)"

definition cmdAudit :: "string list \<Rightarrow> ctl_action" where
  "cmdAudit args =
     (case args of
        [] \<Rightarrow> ExitUsage 1
      | a # rest \<Rightarrow>
          if a = ''tail'' then RunCommand AuditTail rest
          else if a = ''show'' then RunCommand AuditShow rest
          else if a = ''verify'' then RunCommand AuditVerify rest
          else ExitUnknown a 1)"

definition cmdPolicy :: "string list \<Rightarrow> ctl_action" where
  "cmdPolicy args =
     (case args of
        [] \<Rightarrow> ExitUsage 1
      | a # rest \<Rightarrow>
          if a = ''explain'' then RunCommand PolicyExplain rest
          else if a = ''recommend'' then RunCommand PolicyRecommend rest
          else if a = ''add'' then RunCommand (PolicyMutate True) rest
          else if a = ''remove'' then RunCommand (PolicyMutate False) rest
          else if a = ''grant'' then RunCommand PolicyGrant rest
          else if a = ''grants'' then RunCommand PolicyGrants rest
          else if a = ''revoke'' then RunCommand PolicyRevoke rest
          else ExitUsage 1)"

text \<open>\<open>ExitOnError\<close>: a bad flag ends the process with status 2, \<open>-h\<close> with 0.\<close>

definition cmdVersion :: "string list \<Rightarrow> ctl_action" where
  "cmdVersion args =
     (case parse_flags [(''verbose'', BoolFlag)] args [] of
        Inl HelpRequested \<Rightarrow> ExitUsage 0
      | Inl _ \<Rightarrow> ExitUsage 2
      | Inr (vals, _) \<Rightarrow> PrintVersion (bool_flag vals ''verbose''))"

definition ctl_main :: "string list \<Rightarrow> ctl_action" where
  "ctl_main osArgs =
     (case parseGlobalFlags osArgs of
        Inl _ \<Rightarrow> ExitUsage 2
      | Inr (g, args) \<Rightarrow>
          if gl_version g then PrintVersion (gl_verbose g)
          else
            (case args of
               [] \<Rightarrow> ExitUsage 1
             | a # rest \<Rightarrow>
                 if a = ''host'' then cmdHost rest
                 else if a = ''ca-keys'' then cmdCAKeys rest
                 else if a = ''callers'' then cmdCallers rest
                 else if a = ''reload'' then RunCommand ReloadCmd rest
                 else if a = ''approval'' then cmdApproval rest
                 else if a = ''audit'' then cmdAudit rest
                 else if a = ''policy'' then cmdPolicy rest
                 else if a = ''version'' then cmdVersion rest
                 else if a = ''help'' then PrintUsage
                 else ExitUnknown a 1))"

section \<open>Properties\<close>

text \<open>The ways to write a flag: with an equals sign, with its value as the next argument, or alone.\<close>

datatype given = GivenEq string string | GivenNext string string | GivenBool string

fun render_flag :: "given \<Rightarrow> string list" where
  "render_flag (GivenEq n v) = [''--'' @ n @ ''='' @ v]"
| "render_flag (GivenNext n v) = [''--'' @ n, v]"
| "render_flag (GivenBool n) = [''--'' @ n]"

fun flag_meaning :: "given \<Rightarrow> string \<times> flag_value" where
  "flag_meaning (GivenEq n v) = (n, VString v)"
| "flag_meaning (GivenNext n v) = (n, VString v)"
| "flag_meaning (GivenBool n) = (n, VBool True)"

definition plain_name :: "string \<Rightarrow> bool" where
  "plain_name n \<longleftrightarrow> n \<noteq> '''' \<and> CHR ''='' \<notin> set n \<and> hd n \<noteq> CHR ''-''"

fun given_ok :: "flag_defs \<Rightarrow> given \<Rightarrow> bool" where
  "given_ok defs (GivenEq n v) \<longleftrightarrow> get defs n = Some StringFlag \<and> plain_name n"
| "given_ok defs (GivenNext n v) \<longleftrightarrow> get defs n = Some StringFlag \<and> plain_name n"
| "given_ok defs (GivenBool n) \<longleftrightarrow> get defs n = Some BoolFlag \<and> plain_name n"

definition stops_flags :: "string list \<Rightarrow> bool" where
  "stops_flags rest = (case rest of [] \<Rightarrow> True | s # _ \<Rightarrow> length s < 2 \<or> hd s \<noteq> CHR ''-'')"

lemma split_flag_plain:
  assumes "plain_name n"
  shows "split_flag n = (n, None)" and "split_flag (n @ ''='' @ v) = (n, Some v)"
proof -
  obtain c cs where n: "n = c # cs" "c \<noteq> CHR ''=''" "CHR ''='' \<notin> set cs" "c \<noteq> CHR ''-''"
    using assms by (cases n) (auto simp: plain_name_def)
  have all: "takeWhile (\<lambda>c. c \<noteq> CHR ''='') cs = cs" using n(3) by (induction cs) auto
  have app: "takeWhile (\<lambda>c. c \<noteq> CHR ''='') (cs @ ''='' @ v) = cs"
    using n(3) by (induction cs) auto
  show "split_flag n = (n, None)" by (simp add: split_flag_def n all)
  show "split_flag (n @ ''='' @ v) = (n, Some v)" using app by (simp add: split_flag_def n)
qed

lemma parse_flags_one:
  assumes "given_ok defs g"
  shows "parse_flags defs (render_flag g @ args) vals =
     parse_flags defs args (put (fst (flag_meaning g)) (snd (flag_meaning g)) vals)"
proof -
  have dash: "\<not> (length (''--'' @ n @ t) < 2 \<or> hd (''--'' @ n @ t) \<noteq> CHR ''-'')" "''--'' @ n @ t \<noteq> ''--''"
      "(''--'' @ n @ t) ! 1 = CHR ''-''" "drop 2 (''--'' @ n @ t) = n @ t"
      "hd (n @ t) \<noteq> CHR ''-'' \<and> hd (n @ t) \<noteq> CHR ''=''" if "plain_name n" for n t
    using that by (cases n; auto simp: plain_name_def)+
  show ?thesis
  proof (cases g)
    case (GivenEq n v)
    with assms have p: "plain_name n" "get defs n = Some StringFlag" by simp_all
    show ?thesis using dash [OF p(1), of "''='' @ v"] split_flag_plain(2) [OF p(1)] p(2)
      by (simp add: GivenEq Let_def)
  next
    case (GivenNext n v)
    with assms have p: "plain_name n" "get defs n = Some StringFlag" by simp_all
    show ?thesis using dash [OF p(1), of "''''"] split_flag_plain(1) [OF p(1)] p(2)
      by (simp add: GivenNext Let_def)
  next
    case (GivenBool n)
    with assms have p: "plain_name n" "get defs n = Some BoolFlag" by simp_all
    show ?thesis using dash [OF p(1), of "''''"] split_flag_plain(1) [OF p(1)] p(2)
      by (simp add: GivenBool Let_def ParseBool_def)
  qed
qed

text \<open>
  Parsing is a left inverse of writing flags down: the values are those of the flags, the last one
  of each name winning, and the arguments from the subcommand on come back untouched.
\<close>

theorem parse_flags_roundtrip:
  assumes "\<forall>g\<in>set gs. given_ok defs g" and "stops_flags rest"
  shows "parse_flags defs (concat (map render_flag gs) @ rest) vals =
     Inr (fold (\<lambda>g. put (fst (flag_meaning g)) (snd (flag_meaning g))) gs vals, rest)"
  using assms(1)
proof (induction gs arbitrary: vals)
  case Nil
  show ?case using assms(2) by (cases rest) (auto simp: stops_flags_def)
next
  case (Cons g gs)
  then show ?case using parse_flags_one [of defs g "concat (map render_flag gs) @ rest" vals] by simp
qed

text \<open>The flags of a subcommand never reach the global parser.\<close>

lemma ctl_main_subcommand:
  assumes "\<forall>g\<in>set gs. given_ok global_defs g" and "\<And>g. g \<in> set gs \<Longrightarrow> fst (flag_meaning g) \<noteq> ''version''"
  shows "ctl_main (concat (map render_flag gs) @ ''host'' # args) = cmdHost args"
proof -
  have "get (fold (\<lambda>g. put (fst (flag_meaning g)) (snd (flag_meaning g))) gs vals) ''version'' = get vals ''version''" for vals
    using assms(2)
  proof (induction gs arbitrary: vals)
    case (Cons g gs)
    have ne: "''version'' \<noteq> fst (flag_meaning g)" using Cons.prems [of g] by auto
    have "get (fold (\<lambda>g. put (fst (flag_meaning g)) (snd (flag_meaning g))) gs vals') ''version'' = get vals' ''version''" for vals'
      using Cons.IH Cons.prems by simp
    then show ?case using ne by (simp add: update_conv')
  qed simp
  then show ?thesis
    using parse_flags_roundtrip [OF assms(1), of "''host'' # args" "[]"]
    by (simp add: ctl_main_def parseGlobalFlags_def stops_flags_def bool_flag_def)
qed

end
