(* ===== verification/Docgen.thy ===== *)
theory Docgen
  imports GoJson GoBase64 "HOL-Library.Multiset"
begin

text \<open>
  The generator of the reference pages, \<open>src/tools/docgen/main.go\<close>. It reads the syntax trees of
  the packages and writes Markdown; a check in the repository fails when the result differs from
  the committed pages, so the output must not depend on the order in which Go iterates over its
  maps. Maps are association lists in iteration order, and the main theorem is about permutations
  of them. The parser, the printer, \<open>strconv.Unquote\<close> and struct tags of the Go library and the
  tools listed by the MCP library are arguments.
\<close>

section \<open>Syntax trees\<close>

text \<open>The nodes that the generator distinguishes; any other node keeps its children.\<close>

datatype node =
    CallExpr node "node list"
  | SelectorExpr node string
  | BasicLit bool string
  | IdentExpr string
  | FuncLit "node list"
  | TypeSpec string node
  | StructType "go_field list"
  | OtherNode "node list"
and go_field = GoField "string list" "string option" "string option" "string option" node

text \<open>A package-level declaration: a constant group with its comment, or anything else.\<close>

datatype spec = ValueSpec "string list" "node list" | OtherSpec node

datatype decl = ConstDecl "string option" "spec list" | OtherDecl node

type_synonym go_file = "decl list"

record docgen_lib =
  dl_Unquote :: "string \<Rightarrow> string option"
  dl_TagJSON :: "string \<Rightarrow> string"
  dl_Fprint :: "node \<Rightarrow> string option"
  dl_IsExported :: "string \<Rightarrow> bool"

text \<open>\<open>ast.Inspect\<close> with a function that always goes on: every node, parents first.\<close>

fun inspect :: "node \<Rightarrow> node list" and inspect_field :: "go_field \<Rightarrow> node list" where
  "inspect (CallExpr f args) = CallExpr f args # inspect f @ concat (map inspect args)"
| "inspect (SelectorExpr x s) = SelectorExpr x s # inspect x"
| "inspect (BasicLit k v) = [BasicLit k v]"
| "inspect (IdentExpr n) = [IdentExpr n]"
| "inspect (FuncLit ns) = FuncLit ns # concat (map inspect ns)"
| "inspect (TypeSpec n t) = TypeSpec n t # inspect t"
| "inspect (StructType fs) = StructType fs # concat (map inspect_field fs)"
| "inspect (OtherNode ns) = OtherNode ns # concat (map inspect ns)"
| "inspect_field (GoField names tag doc comment t) = inspect t"

fun spec_nodes :: "spec \<Rightarrow> node list" where
  "spec_nodes (ValueSpec names vals) = concat (map inspect vals)"
| "spec_nodes (OtherSpec n) = inspect n"

fun decl_nodes :: "decl \<Rightarrow> node list" where
  "decl_nodes (ConstDecl doc specs) = concat (map spec_nodes specs)"
| "decl_nodes (OtherDecl n) = inspect n"

section \<open>Helpers\<close>

definition doc_join :: "string \<Rightarrow> string" where
  "doc_join s = Join (Fields s) '' ''"

definition renderExpr :: "docgen_lib \<Rightarrow> node \<Rightarrow> string" where
  "renderExpr lib e = (case dl_Fprint lib e of None \<Rightarrow> '''' | Some s \<Rightarrow> doc_join s)"

definition commentText :: "string option \<Rightarrow> string" where
  "commentText g = (case g of None \<Rightarrow> '''' | Some t \<Rightarrow> doc_join t)"

definition mdCell :: "string \<Rightarrow> string" where
  "mdCell s = ReplaceAll1 s (CHR ''|'') [CHR 0x5C, CHR ''|'']"

definition em_dash :: string where
  "em_dash = [CHR 0xE2, CHR 0x80, CHR 0x94]"

definition orDash :: "string \<Rightarrow> string" where
  "orDash s = (if s = '''' then em_dash else s)"

abbreviation nl :: string where "nl \<equiv> [CHR 0x0A]"

definition code :: "string \<Rightarrow> string" where
  "code s = ''`'' @ s @ ''`''"

definition genBanner :: string where
  "genBanner = ''<!-- GENERATED by tools/docgen '' @ em_dash @ '' do not edit by hand. Run: make docs-gen -->'' @ nl @ nl"

section \<open>Endpoints\<close>

record doc_route =
  rt_pattern :: string
  rt_handler :: string

fun const_pairs :: "docgen_lib \<Rightarrow> string list \<Rightarrow> node list \<Rightarrow> (string \<times> string) list" where
  "const_pairs lib (n # ns) (BasicLit True v # vs) =
     (case dl_Unquote lib v of None \<Rightarrow> [] | Some t \<Rightarrow> [(n, t)]) @ const_pairs lib ns vs"
| "const_pairs lib (n # ns) (v # vs) = const_pairs lib ns vs"
| "const_pairs lib _ _ = []"

fun spec_consts :: "docgen_lib \<Rightarrow> spec \<Rightarrow> (string \<times> string) list" where
  "spec_consts lib (ValueSpec names vals) = (if length names \<noteq> length vals then [] else const_pairs lib names vals)"
| "spec_consts lib (OtherSpec n) = []"

fun decl_consts :: "docgen_lib \<Rightarrow> decl \<Rightarrow> (string \<times> string) list" where
  "decl_consts lib (ConstDecl doc specs) = concat (map (spec_consts lib) specs)"
| "decl_consts lib (OtherDecl n) = []"

definition packageStringConsts :: "docgen_lib \<Rightarrow> go_file list \<Rightarrow> (string, string) gomap" where
  "packageStringConsts lib files =
     fold (\<lambda>(n, v). put n v) (concat (map (\<lambda>f. concat (map (decl_consts lib) f)) files)) []"

definition route_pattern :: "docgen_lib \<Rightarrow> (string, string) gomap \<Rightarrow> node \<Rightarrow> string" where
  "route_pattern lib consts arg =
     (case arg of
        BasicLit is_string v \<Rightarrow> if is_string then (case dl_Unquote lib v of None \<Rightarrow> '''' | Some p \<Rightarrow> p) else ''''
      | IdentExpr n \<Rightarrow> (case get consts n of None \<Rightarrow> '''' | Some p \<Rightarrow> p)
      | _ \<Rightarrow> '''')"

fun route_of :: "docgen_lib \<Rightarrow> (string, string) gomap \<Rightarrow> node \<Rightarrow> doc_route list" where
  "route_of lib consts (CallExpr (SelectorExpr x s) (arg # args)) =
     (if s \<noteq> ''HandleFunc'' \<and> s \<noteq> ''Handle'' then []
      else
        let pattern = route_pattern lib consts arg in
        if pattern = '''' then []
        else [\<lparr>rt_pattern = pattern,
               rt_handler = (case args of
                  [] \<Rightarrow> ''''
                | FuncLit _ # _ \<Rightarrow> ''(inline handler)''
                | h # _ \<Rightarrow> renderExpr lib h)\<rparr>])"
| "route_of lib consts n = []"

definition package_routes :: "docgen_lib \<Rightarrow> go_file list \<Rightarrow> doc_route list" where
  "package_routes lib files =
     (let consts = packageStringConsts lib files in
      concat (map (\<lambda>f. concat (map (route_of lib consts) (concat (map decl_nodes f)))) files))"

definition routes_found :: "docgen_lib \<Rightarrow> go_file list list \<Rightarrow> doc_route list" where
  "routes_found lib pkgs = concat (map (package_routes lib) pkgs)"

text \<open>The sort of the library is not stable: it fixes the order of different patterns only.\<close>

definition routesIn :: "docgen_lib \<Rightarrow> go_file list list \<Rightarrow> doc_route list" where
  "routesIn lib pkgs = sort_key rt_pattern (routes_found lib pkgs)"

definition services :: "(string \<times> string) list" where
  "services = [(''Signer'', ''cmd/signer''), (''Control plane'', ''cmd/control-plane''),
     (''Broker (HTTP/mTLS)'', ''cmd/broker''), (''MCP HTTP'', ''cmd/mcp-broker-http'')]"

definition endpoint_row :: "doc_route \<Rightarrow> string" where
  "endpoint_row r = ''| '' @ code (rt_pattern r) @ '' | '' @ code (mdCell (rt_handler r)) @ '' |'' @ nl"

definition service_section :: "docgen_lib \<Rightarrow> string \<Rightarrow> string \<Rightarrow> go_file list list \<Rightarrow> string" where
  "service_section lib name dir pkgs =
     (let routes = routesIn lib pkgs in
      if routes = [] then ''''
      else nl @ ''## '' @ name @ nl @ nl @ code dir @ nl @ nl @ ''| Route | Handler |'' @ nl @ ''|---|---|'' @ nl @
        concat (map endpoint_row routes))"

definition endpoints_intro :: string where
  "endpoints_intro =
     ''# HTTP endpoints'' @ nl @ nl @ ''Every route registered across the services, extracted from the '' @
     code ''mux.HandleFunc'' @ '' / '' @ code ''mux.Handle'' @ '' calls in the source. See '' @
     ''[API reference](../API.md) for request/response bodies and auth.'' @ nl"

text \<open>A page is a value only when every parse succeeds: the program ends at the first failure.\<close>

definition genEndpoints :: "docgen_lib \<Rightarrow> (string \<Rightarrow> go_file list list option) \<Rightarrow> string option" where
  "genEndpoints lib parseDir =
     map_option (\<lambda>sections. genBanner @ endpoints_intro @ concat sections)
       (those (map (\<lambda>(name, dir). map_option (service_section lib name dir) (parseDir dir)) services))"

section \<open>Tools\<close>

record doc_prop =
  dp_name :: string
  dp_typ :: string
  dp_desc :: string
  dp_required :: bool

fun toMap :: "json \<Rightarrow> (string, json) gomap" where
  "toMap (JObj ms) = ms"
| "toMap _ = []"

fun json_text :: "json option \<Rightarrow> string" where
  "json_text (Some (JStr s)) = s"
| "json_text _ = ''''"

fun required_names :: "json option \<Rightarrow> string list" where
  "required_names (Some (JArr js)) = concat (map (\<lambda>j. case j of JStr s \<Rightarrow> [s] | _ \<Rightarrow> []) js)"
| "required_names _ = []"

definition doc_prop_of :: "string list \<Rightarrow> string \<times> json \<Rightarrow> doc_prop" where
  "doc_prop_of reqSet p =
     (case p of (name, raw) \<Rightarrow>
        let pm = toMap raw in
        \<lparr>dp_name = name, dp_typ = orDash (json_text (get pm ''type'')), dp_desc = json_text (get pm ''description''),
         dp_required = (name \<in> set reqSet)\<rparr>)"

definition schemaProps :: "json \<Rightarrow> doc_prop list" where
  "schemaProps schema =
     (let m = toMap schema in
      case get m ''properties'' of
        Some (JObj props) \<Rightarrow> sort_key dp_name (map (doc_prop_of (required_names (get m ''required''))) props)
      | _ \<Rightarrow> [])"

record mcp_tool =
  mt_Name :: string
  mt_Description :: string
  mt_InputSchema :: json

definition prop_line :: "doc_prop \<Rightarrow> string" where
  "prop_line p =
     ''- '' @ code (dp_name p) @ '' ('' @ dp_typ p @ '')'' @ (if dp_required p then '' *(required)*'' else '''') @
     '' '' @ em_dash @ '' '' @ dp_desc p @ nl"

definition tool_section :: "mcp_tool \<Rightarrow> string" where
  "tool_section t =
     nl @ ''## '' @ code (mt_Name t) @ nl @ nl @ TrimSpace (mt_Description t) @ nl @ nl @
     concat (map prop_line (schemaProps (mt_InputSchema t)))"

definition tools_intro :: string where
  "tools_intro =
     ''# MCP tools'' @ nl @ nl @ ''The tools exposed by the MCP frontends ('' @ code ''cmd/mcp-broker'' @ '', '' @
     code ''cmd/mcp-broker-http'' @ ''), with their input schemas '' @ em_dash @ '' enumerated from the live server ('' @
     code ''internal/mcpserver.Register'' @ ''). See [Tool usage](../USAGE.md) for guidance.'' @ nl"

definition genMCPTools :: "mcp_tool list \<Rightarrow> string" where
  "genMCPTools tools = genBanner @ tools_intro @ concat (map tool_section (sort_key mt_Name tools))"

section \<open>Configuration\<close>

record doc_field =
  df_json :: string
  df_typ :: string
  df_doc :: string

definition json_key :: "docgen_lib \<Rightarrow> string \<Rightarrow> string option \<Rightarrow> string option" where
  "json_key lib name tag =
     (case tag of
        None \<Rightarrow> Some name
      | Some t \<Rightarrow>
          let jt = dl_TagJSON lib t; k = hd (Split1 (CHR '','') jt) in
          if jt = '''' then Some name
          else if k = ''-'' then None
          else if k \<noteq> '''' then Some k
          else Some name)"

definition field_doc :: "string option \<Rightarrow> string option \<Rightarrow> string" where
  "field_doc doc comment = (let d = commentText doc in if d = '''' then commentText comment else d)"

fun walkStructFields :: "docgen_lib \<Rightarrow> go_field list \<Rightarrow> string \<Rightarrow> doc_field list"
  and walk_type :: "docgen_lib \<Rightarrow> node \<Rightarrow> string \<Rightarrow> string \<Rightarrow> doc_field list" where
  "walkStructFields lib [] prefix = []"
| "walkStructFields lib (GoField names tag doc comment t # fs) prefix =
     (if names = [] \<or> \<not> dl_IsExported lib (hd names) then []
      else case json_key lib (hd names) tag of
        None \<Rightarrow> []
      | Some key \<Rightarrow> walk_type lib t (prefix @ key) (mdCell (field_doc doc comment))) @
     walkStructFields lib fs prefix"
| "walk_type lib (StructType fs) key doc =
     \<lparr>df_json = key, df_typ = ''(object)'', df_doc = doc\<rparr> # walkStructFields lib fs (key @ ''.'')"
| "walk_type lib t key doc = [\<lparr>df_json = key, df_typ = mdCell (renderExpr lib t), df_doc = doc\<rparr>]"

text \<open>
  The search for a struct: its matches are not entered, and a later match replaces an earlier one.
\<close>

fun struct_search :: "string \<Rightarrow> node \<Rightarrow> go_field list list"
  and struct_search_field :: "string \<Rightarrow> go_field \<Rightarrow> go_field list list" where
  "struct_search name (TypeSpec n (StructType fs)) =
     (if n = name then [fs] else concat (map (struct_search_field name) fs))"
| "struct_search name (TypeSpec n t) = struct_search name t"
| "struct_search name (CallExpr f args) = struct_search name f @ concat (map (struct_search name) args)"
| "struct_search name (SelectorExpr x s) = struct_search name x"
| "struct_search name (FuncLit ns) = concat (map (struct_search name) ns)"
| "struct_search name (StructType fs) = concat (map (struct_search_field name) fs)"
| "struct_search name (OtherNode ns) = concat (map (struct_search name) ns)"
| "struct_search name (BasicLit k v) = []"
| "struct_search name (IdentExpr n) = []"
| "struct_search_field name (GoField names tag doc comment t) = struct_search name t"

fun decl_search :: "string \<Rightarrow> decl \<Rightarrow> go_field list list" where
  "decl_search name (OtherDecl n) = struct_search name n"
| "decl_search name (ConstDecl doc specs) =
     concat (map (\<lambda>s. case s of ValueSpec ns vs \<Rightarrow> concat (map (struct_search name) vs) | OtherSpec n \<Rightarrow> struct_search name n) specs)"

definition structFields :: "docgen_lib \<Rightarrow> go_file \<Rightarrow> string \<Rightarrow> doc_field list" where
  "structFields lib f name =
     (let found = concat (map (decl_search name) f) in
      if found = [] then [] else walkStructFields lib (last found) '''')"

fun const_value :: "docgen_lib \<Rightarrow> spec \<Rightarrow> string list" where
  "const_value lib (ValueSpec names [BasicLit True v]) =
     (case dl_Unquote lib v of None \<Rightarrow> [] | Some t \<Rightarrow> if t = '''' then [] else [code t])"
| "const_value lib s = []"

definition groupName :: "string option \<Rightarrow> string" where
  "groupName doc =
     (case doc of None \<Rightarrow> ''values'' | Some t \<Rightarrow> take 60 (hd (Split1 (CHR 0x0A) (TrimSpace t))))"

fun const_group :: "docgen_lib \<Rightarrow> decl \<Rightarrow> (string \<times> string) list" where
  "const_group lib (ConstDecl doc specs) =
     (let vals = concat (map (const_value lib) specs) in
      if length vals \<ge> 2 then [(groupName doc, Join vals '', '')] else [])"
| "const_group lib (OtherDecl n) = []"

definition stringConsts :: "docgen_lib \<Rightarrow> go_file \<Rightarrow> (string \<times> string) list" where
  "stringConsts lib f = concat (map (const_group lib) f)"

definition config_row :: "doc_field \<Rightarrow> string" where
  "config_row f = ''| '' @ code (df_json f) @ '' | '' @ code (df_typ f) @ '' | '' @ df_doc f @ '' |'' @ nl"

definition struct_section :: "docgen_lib \<Rightarrow> string \<Rightarrow> string \<Rightarrow> string \<Rightarrow> go_file \<Rightarrow> string" where
  "struct_section lib file_name name title f =
       (let fs = structFields lib f name in
        if fs = [] then ''''
        else nl @ ''## '' @ title @ nl @ nl @ code name @ '' in '' @ code file_name @ nl @ nl @
          ''| JSON key | Type | Description |'' @ nl @ ''|---|---|---|'' @ nl @ concat (map config_row fs))"

definition configStructs :: "(string \<times> string \<times> string) list" where
  "configStructs =
    [(''internal/broker/engine.go'', ''Config'', ''Broker / MCP config ('' @ code ''config.json'' @ '')''),
     (''internal/broker/engine.go'', ''SignerClientConfig'', ''Broker signer client ('' @ code ''signer'' @ '', remote mode)''),
     (''internal/broker/engine.go'', ''OAuthConfig'', ''Broker OAuth ('' @ code ''oauth'' @ '', '' @ code ''cmd/mcp-broker-http'' @ '' only)''),
     (''internal/broker/engine.go'', ''HostConfig'', ''Broker host ('' @ code ''hosts.<name>'' @ '', local mode)''),
     (''internal/ca/loader.go'', ''CAKeyConfig'', ''CA key ('' @ code ''ca_keys.<name>'' @ '')''),
     (''cmd/signer/main.go'', ''Config'', ''Signer config ('' @ code ''signer.json'' @ '')''),
     (''cmd/control-plane/main.go'', ''Config'', ''Control-plane config ('' @ code ''control-plane.json'' @ '')''),
     (''internal/control/behavior.go'', ''BehaviorConfig'', ''Control-plane behaviour guardrails ('' @ code ''behavior'' @ '')''),
     (''internal/signer/signer.go'', ''HostPolicy'', ''Host policy ('' @ code ''hosts.<name>'' @ '')''),
     (''internal/signer/cmdpolicy.go'', ''CommandPolicy'', ''Command policy ('' @ code ''command_policy'' @ '')''),
     (''internal/redact/redact.go'', ''Config'', ''Secret redaction ('' @ code ''redact'' @ '', all three services)''),
     (''internal/redact/redact.go'', ''Pattern'', ''Redaction pattern ('' @ code ''redact.patterns[]'' @ '')'')]"

definition enumDecls :: "string list" where
  "enumDecls = [''internal/signer/signer.go'', ''internal/signer/cmdpolicy.go'']"

definition middle_dot :: string where
  "middle_dot = [CHR '' '', CHR 0xC2, CHR 0xB7, CHR '' '']"

definition config_intro :: string where
  "config_intro =
     ''# Config reference'' @ nl @ nl @ ''Every configuration field, extracted from the Go structs (field'' @ middle_dot @
     ''JSON key'' @ middle_dot @ ''type'' @ middle_dot @ ''doc comment). See [Operations](../OPERATIONS.md) for worked '' @
     ''examples and the '' @ code ''*.example.json'' @ '' files.'' @ nl"

definition vocabulary_lines :: "docgen_lib \<Rightarrow> go_file \<Rightarrow> string" where
  "vocabulary_lines lib f =
     concat (map (\<lambda>(name, vals). nl @ ''**'' @ name @ '':** '' @ vals @ nl) (stringConsts lib f))"

definition genConfig :: "docgen_lib \<Rightarrow> (string \<Rightarrow> go_file option) \<Rightarrow> string option" where
  "genConfig lib parseFile =
     (case those (map (\<lambda>(file_name, name, title). map_option (struct_section lib file_name name title) (parseFile file_name))
                      configStructs) of
        None \<Rightarrow> None
      | Some sections \<Rightarrow>
          map_option (\<lambda>vocabulary. genBanner @ config_intro @ concat sections @
              nl @ ''## Vocabulary (enumerated constants)'' @ nl @ concat vocabulary)
            (those (map (\<lambda>f. map_option (vocabulary_lines lib) (parseFile f)) enumDecls)))"

section \<open>The commands page and the main function\<close>

definition cli_intro :: string where
  "cli_intro =
     ''# broker-ctl CLI'' @ nl @ nl @ ''Top-level command reference, captured from '' @ code ''broker-ctl'' @
     '' itself. Run any subcommand with '' @ code ''--help'' @ '' for its flags.'' @ nl @ nl @ ''```'' @ nl"

definition genCLI :: "string \<Rightarrow> string" where
  "genCLI out = genBanner @ cli_intro @ rev (dropWhile (\<lambda>c. c = CHR 0x0A) (rev out)) @ nl @ ''```'' @ nl"

record docgen_env =
  dg_MkdirAll :: bool
  dg_ParseDir :: "string \<Rightarrow> go_file list list option"
  dg_ListTools :: "mcp_tool list option"
  dg_ParseFile :: "string \<Rightarrow> go_file option"
  dg_CLI :: string
  dg_WriteFile :: "string \<Rightarrow> bool"

fun write_pages :: "(string \<Rightarrow> bool) \<Rightarrow> (string \<times> string option) list \<Rightarrow> (string \<times> string) list \<times> bool" where
  "write_pages ok [] = ([], True)"
| "write_pages ok ((path, None) # ps) = ([], False)"
| "write_pages ok ((path, Some page) # ps) =
     (if ok path then (case write_pages ok ps of (ws, r) \<Rightarrow> ((path, page) # ws, r)) else ([], False))"

text \<open>The pages written, in order, and whether the program ends normally.\<close>

definition docgen_main :: "docgen_lib \<Rightarrow> docgen_env \<Rightarrow> (string \<times> string) list \<times> bool" where
  "docgen_main lib env =
     (if \<not> dg_MkdirAll env then ([], False)
      else write_pages (dg_WriteFile env)
        [(''docs/reference/endpoints.md'', genEndpoints lib (dg_ParseDir env)),
         (''docs/reference/mcp-tools.md'', map_option genMCPTools (dg_ListTools env)),
         (''docs/reference/config.md'', genConfig lib (dg_ParseFile env)),
         (''docs/reference/cli.md'', Some (genCLI (dg_CLI env)))])"

section \<open>The pages do not depend on the iteration order\<close>

text \<open>
  Two results of the parser are alike when they differ only in the order of the packages and of the
  files within a package, both maps in Go. What the code relies on: a constant is declared once
  per package, and no pattern is registered twice in a service (the mux panics on the second).
\<close>

definition const_names :: "docgen_lib \<Rightarrow> go_file list \<Rightarrow> string list" where
  "const_names lib files = map fst (concat (map (\<lambda>f. concat (map (decl_consts lib) f)) files))"

definition same_packages :: "docgen_lib \<Rightarrow> go_file list list \<Rightarrow> go_file list list \<Rightarrow> bool" where
  "same_packages lib ps qs \<longleftrightarrow>
     rel_mset (\<lambda>fs gs. mset fs = mset gs) (mset ps) (mset qs) \<and>
     (\<forall>fs\<in>set ps. distinct (const_names lib fs)) \<and> distinct (map rt_pattern (routes_found lib ps))"

definition same_schema :: "json \<Rightarrow> json \<Rightarrow> bool" where
  "same_schema a b \<longleftrightarrow>
     get (toMap a) ''required'' = get (toMap b) ''required'' \<and>
     (get (toMap a) ''properties'' = get (toMap b) ''properties'' \<or>
      (\<exists>ps qs. get (toMap a) ''properties'' = Some (JObj ps) \<and> get (toMap b) ''properties'' = Some (JObj qs) \<and>
               mset ps = mset qs \<and> distinct (map fst ps)))"

definition same_tool :: "mcp_tool \<Rightarrow> mcp_tool \<Rightarrow> bool" where
  "same_tool s t \<longleftrightarrow>
     mt_Name s = mt_Name t \<and> mt_Description s = mt_Description t \<and> same_schema (mt_InputSchema s) (mt_InputSchema t)"

definition same_tools :: "mcp_tool list \<Rightarrow> mcp_tool list \<Rightarrow> bool" where
  "same_tools ss ts \<longleftrightarrow> rel_mset same_tool (mset ss) (mset ts) \<and> distinct (map mt_Name ss)"

lemma sort_key_unique:
  assumes "mset xs = mset ys" "distinct (map f xs)"
  shows "sort_key f xs = sort_key f ys"
proof (rule map_sorted_distinct_set_unique)
  show "inj_on f (set (sort_key f xs) \<union> set (sort_key f ys))"
    using assms mset_eq_setD[OF assms(1)] by (simp add: distinct_map)
  show "distinct (map f (sort_key f xs))" using assms(2) by (simp add: distinct_map)
  have "mset (map f ys) = mset (map f xs)" using assms(1) by simp
  then have "distinct (map f ys)" using assms(2) by (metis mset_eq_imp_distinct_iff)
  then show "distinct (map f (sort_key f ys))" by (simp add: distinct_map)
qed (use mset_eq_setD[OF assms(1)] in simp_all)

lemma get_fold_put:
  "distinct (map fst ps) \<Longrightarrow>
   get (fold (\<lambda>(n, v). put n v) ps m) k = (case get ps k of None \<Rightarrow> get m k | Some v \<Rightarrow> Some v)"
proof (induction ps arbitrary: m)
  case (Cons p ps)
  have "fst p = k \<Longrightarrow> get ps k = None" using Cons.prems by (auto simp: map_of_eq_None_iff)
  then show ?case using Cons by (cases p) (auto split: option.splits)
qed simp

lemma mset_concat_map_cong: "mset xs = mset ys \<Longrightarrow> mset (concat (map f xs)) = mset (concat (map f ys))"
  by (simp add: mset_concat mset_map flip: sum_mset_sum_list)

lemma packageStringConsts_order:
  assumes "mset fs = mset gs" "distinct (const_names lib fs)"
  shows "get (packageStringConsts lib fs) = get (packageStringConsts lib gs)"
proof -
  let ?c = "\<lambda>fs. concat (map (\<lambda>f. concat (map (decl_consts lib) f)) fs)"
  have m: "mset (?c fs) = mset (?c gs)" by (rule mset_concat_map_cong[OF assms(1)])
  have d: "distinct (map fst (?c fs))" using assms(2) by (simp add: const_names_def)
  have d': "distinct (map fst (?c gs))" using d m by (metis mset_eq_imp_distinct_iff mset_map)
  have "get (?c fs) = get (?c gs)" by (rule map_of_inject_set[THEN iffD2, OF d d' mset_eq_setD[OF m]])
  then show ?thesis by (simp add: packageStringConsts_def get_fold_put[OF d] get_fold_put[OF d'] fun_eq_iff)
qed

lemma route_of_cong:
  assumes "get c = get d"
  shows "route_of lib c n = route_of lib d n"
proof -
  have "route_pattern lib c a = route_pattern lib d a" for a
    using assms by (cases a) (simp_all add: route_pattern_def)
  then show ?thesis by (cases "(lib, c, n)" rule: route_of.cases) simp_all
qed

lemma package_routes_order:
  assumes "mset fs = mset gs" "distinct (const_names lib fs)"
  shows "mset (package_routes lib fs) = mset (package_routes lib gs)"
proof -
  have "route_of lib (packageStringConsts lib fs) = route_of lib (packageStringConsts lib gs)"
    by (intro ext route_of_cong packageStringConsts_order[OF assms])
  then show ?thesis unfolding package_routes_def Let_def
    by (simp only: mset_concat_map_cong[OF assms(1)])
qed

lemma routesIn_order:
  assumes "same_packages lib ps qs"
  shows "routesIn lib ps = routesIn lib qs"
proof -
  obtain ps' qs' where p: "mset ps' = mset ps" "mset qs' = mset qs"
    and rel: "list_all2 (\<lambda>fs gs. mset fs = mset gs) ps' qs'"
    using assms by (auto simp: same_packages_def rel_mset_def)
  have "\<forall>fs\<in>set ps'. distinct (const_names lib fs)"
    using assms mset_eq_setD[OF p(1)] by (simp add: same_packages_def)
  with rel have "mset (concat (map (package_routes lib) ps')) = mset (concat (map (package_routes lib) qs'))"
    by (induction rule: list_all2_induct) (simp_all add: package_routes_order)
  then have "mset (routes_found lib ps) = mset (routes_found lib qs)"
    unfolding routes_found_def
    using mset_concat_map_cong[OF p(1), of "package_routes lib"] mset_concat_map_cong[OF p(2), of "package_routes lib"]
    by simp
  then show ?thesis using assms by (simp add: routesIn_def same_packages_def sort_key_unique)
qed

lemma schemaProps_order:
  assumes "same_schema a b"
  shows "schemaProps a = schemaProps b"
proof (cases "get (toMap a) ''properties'' = get (toMap b) ''properties''")
  case False
  then obtain ps qs where g: "get (toMap a) ''properties'' = Some (JObj ps)" "get (toMap b) ''properties'' = Some (JObj qs)"
    and m: "mset ps = mset qs" and d: "distinct (map fst ps)"
    and req: "get (toMap a) ''required'' = get (toMap b) ''required''"
    using assms by (auto simp: same_schema_def)
  let ?p = "doc_prop_of (required_names (get (toMap a) ''required''))"
  have "map dp_name (map ?p ps) = map fst ps" by (auto simp: doc_prop_of_def Let_def)
  then have "distinct (map dp_name (map ?p ps))" using d by (simp only:)
  then have "sort_key dp_name (map ?p ps) = sort_key dp_name (map ?p qs)"
    using m by (intro sort_key_unique) simp_all
  then show ?thesis using g req by (simp add: schemaProps_def Let_def)
next
  case True
  moreover have "get (toMap a) ''required'' = get (toMap b) ''required''" using assms by (simp add: same_schema_def)
  ultimately show ?thesis unfolding schemaProps_def Let_def by (simp only:)
qed

lemma tool_section_order: "same_tool s t \<Longrightarrow> tool_section s = tool_section t"
  using schemaProps_order[of "mt_InputSchema s" "mt_InputSchema t"] by (simp add: tool_section_def same_tool_def)

text \<open>Sorting by name and then forgetting all but the section.\<close>

lemma sections_sorted:
  assumes "distinct (map mt_Name ts)"
  shows "map (\<lambda>t. (mt_Name t, tool_section t)) (sort_key mt_Name ts) =
         sort_key fst (map (\<lambda>t. (mt_Name t, tool_section t)) ts)"
proof (rule map_sorted_distinct_set_unique[of fst])
  let ?f = "\<lambda>t. (mt_Name t, tool_section t)"
  have c: "fst \<circ> ?f = mt_Name" by auto
  show "inj_on fst (set (map ?f (sort_key mt_Name ts)) \<union> set (sort_key fst (map ?f ts)))"
    using assms by (auto simp: distinct_map inj_on_def)
  show "distinct (map fst (map ?f (sort_key mt_Name ts)))" using assms c by (simp add: distinct_map)
  show "distinct (map fst (sort_key fst (map ?f ts)))"
    using assms c by (auto simp: distinct_map inj_on_def)
qed (simp_all add: comp_def)

lemma genMCPTools_order:
  assumes "same_tools ss ts"
  shows "genMCPTools ss = genMCPTools ts"
proof -
  let ?f = "\<lambda>t. (mt_Name t, tool_section t)"
  obtain ss' ts' where p: "mset ss' = mset ss" "mset ts' = mset ts" and rel: "list_all2 same_tool ss' ts'"
    using assms by (auto simp: same_tools_def rel_mset_def)
  from rel have "map ?f ss' = map ?f ts'"
    by (induction rule: list_all2_induct) (auto simp: tool_section_order, simp add: same_tool_def)
  then have "image_mset ?f (mset ss') = image_mset ?f (mset ts')" by (simp only: flip: mset_map)
  then have m: "mset (map ?f ss) = mset (map ?f ts)" by (simp only: p mset_map)
  have d: "distinct (map mt_Name ss)" using assms by (simp add: same_tools_def)
  have fm: "map fst (map ?f us) = map mt_Name us" for us by simp
  have "mset (map fst (map ?f ss)) = mset (map fst (map ?f ts))" by (subst (1 2) mset_map) (simp only: m)
  then have "mset (map mt_Name ss) = mset (map mt_Name ts)" by (simp only: fm)
  from mset_eq_imp_distinct_iff[OF this] d have d': "distinct (map mt_Name ts)" by blast
  have "sort_key fst (map ?f ss) = sort_key fst (map ?f ts)"
    by (rule sort_key_unique[OF m]) (simp only: fm d)
  then have "map snd (map ?f (sort_key mt_Name ss)) = map snd (map ?f (sort_key mt_Name ts))"
    by (simp only: sections_sorted[OF d] sections_sorted[OF d'])
  then show ?thesis by (simp add: genMCPTools_def comp_def)
qed

text \<open>
  C40: The reference pages are a function of the code: whatever the order in which Go iterates
  over the parsed packages, over the files of a package and over the properties of a schema, and
  whatever the order in which the server lists its tools, \<open>docgen\<close> writes the same pages.
\<close>

theorem docgen_deterministic:
  assumes "\<And>dir. rel_option (same_packages lib) (dg_ParseDir env dir) (parsed dir)"
    and "rel_option same_tools (dg_ListTools env) tools"
  shows "docgen_main lib (env\<lparr>dg_ParseDir := parsed, dg_ListTools := tools\<rparr>) = docgen_main lib env"
proof -
  have "map_option (service_section lib name dir) (parsed dir) =
        map_option (service_section lib name dir) (dg_ParseDir env dir)" for name dir
    using assms(1)[of dir] by (cases rule: option.rel_cases) (simp_all add: service_section_def routesIn_order)
  moreover have "map_option genMCPTools tools = map_option genMCPTools (dg_ListTools env)"
    using assms(2) by (cases rule: option.rel_cases) (simp_all add: genMCPTools_order)
  ultimately show ?thesis by (simp add: docgen_main_def genEndpoints_def)
qed

definition doc_lib :: docgen_lib where
  "doc_lib = \<lparr>dl_Unquote = Some, dl_TagJSON = (\<lambda>t. t), dl_Fprint = (\<lambda>_. Some ''handler''), dl_IsExported = (\<lambda>_. True)\<rparr>"

definition doc_const_file :: go_file where
  "doc_const_file = [ConstDecl None [ValueSpec [''prmPath''] [BasicLit True ''/prm'']]]"

definition doc_mux_file :: go_file where
  "doc_mux_file =
     [OtherDecl (CallExpr (SelectorExpr (IdentExpr ''mux'') ''Handle'') [IdentExpr ''prmPath'', IdentExpr ''h'']),
      OtherDecl (CallExpr (SelectorExpr (IdentExpr ''mux'') ''HandleFunc'') [BasicLit True ''/mcp'', FuncLit []])]"

definition doc_tool :: "string \<Rightarrow> (string \<times> json) list \<Rightarrow> mcp_tool" where
  "doc_tool name ps = \<lparr>mt_Name = name, mt_Description = ''a tool'', mt_InputSchema = JObj [(''properties'', JObj ps)]\<rparr>"

definition doc_env :: docgen_env where
  "doc_env = \<lparr>dg_MkdirAll = True, dg_ParseDir = (\<lambda>_. Some [[doc_const_file, doc_mux_file]]),
     dg_ListTools = Some [doc_tool ''ssh'' [(''host'', JNull), (''command'', JNull)], doc_tool ''list'' []],
     dg_ParseFile = (\<lambda>_. Some []), dg_CLI = ''usage'', dg_WriteFile = (\<lambda>_. True)\<rparr>"

lemma doc_routes:
  "routes_found doc_lib [[doc_const_file, doc_mux_file]] =
     [\<lparr>rt_pattern = ''/prm'', rt_handler = ''handler''\<rparr>, \<lparr>rt_pattern = ''/mcp'', rt_handler = ''(inline handler)''\<rparr>]"
  by code_simp

theorem docgen_deterministic_witness:
  "docgen_main doc_lib (doc_env\<lparr>dg_ParseDir := (\<lambda>_. Some [[doc_mux_file, doc_const_file]]),
     dg_ListTools := Some [doc_tool ''list'' [], doc_tool ''ssh'' [(''command'', JNull), (''host'', JNull)]]\<rparr>) =
   docgen_main doc_lib doc_env"
proof (rule docgen_deterministic)
  show "rel_option (same_packages doc_lib) (dg_ParseDir doc_env dir) (Some [[doc_mux_file, doc_const_file]])" for dir
    by (simp add: doc_env_def same_packages_def doc_routes rel_mset_Zero rel_mset_Plus add_mset_commute)
       (simp add: const_names_def doc_const_file_def doc_mux_file_def doc_lib_def)
  have s: "same_tool (doc_tool ''ssh'' [(''host'', JNull), (''command'', JNull)])
      (doc_tool ''ssh'' [(''command'', JNull), (''host'', JNull)])"
    "same_tool (doc_tool ''list'' []) (doc_tool ''list'' [])"
    by (simp_all add: same_tool_def doc_tool_def same_schema_def add_mset_commute)
  then have "rel_mset same_tool
      (mset [doc_tool ''ssh'' [(''host'', JNull), (''command'', JNull)], doc_tool ''list'' []])
      (mset [doc_tool ''ssh'' [(''command'', JNull), (''host'', JNull)], doc_tool ''list'' []])"
    by (simp add: rel_mset_Zero rel_mset_Plus)
  then show "rel_option same_tools (dg_ListTools doc_env)
      (Some [doc_tool ''list'' [], doc_tool ''ssh'' [(''command'', JNull), (''host'', JNull)]])"
    by (simp add: same_tools_def doc_env_def add_mset_commute) (simp add: doc_tool_def)
qed

end
