(* ===== verification/CA_Keys.thy ===== *)
theory CA_Keys
  imports Signer_Server
begin

text \<open>
  The choice of the CA keys (\<open>src/internal/ca/loader.go\<close>), which the signing service calls on every
  reload. The parsing of a key file and the Azure Key Vault client are arguments.
\<close>

record CAKeyConfig =
  ckc_Type :: string
  ckc_Path :: string
  ckc_VaultURL :: string
  ckc_KeyName :: string
  ckc_KeyVersion :: string
  ckc_TenantID :: string
  ckc_ClientID :: string
  ckc_ClientSecretEnv :: string

definition zero_ca :: CAKeyConfig where
  "zero_ca = \<lparr>ckc_Type = '''', ckc_Path = '''', ckc_VaultURL = '''', ckc_KeyName = '''', ckc_KeyVersion = '''', ckc_TenantID = '''',
     ckc_ClientID = '''', ckc_ClientSecretEnv = ''''\<rparr>"

record ca_backends =
  cb_ReadFile :: "string \<Rightarrow> string option"
  cb_ParsePEM :: "string \<Rightarrow> CAKey option"
  cb_AKV :: "CAKeyConfig \<Rightarrow> CAKey option"

datatype ca_error = UnknownKeyType string | PEMPathRequired | PEMReadFailed string | PEMInvalid | VaultURLRequired | KeyNameRequired
  | AKVFailed | NoDefaultCA | DefaultCAFailed ca_error | GroupCAFailed string ca_error

definition loadCAFromFile :: "ca_backends \<Rightarrow> string \<Rightarrow> ca_error + CAKey" where
  "loadCAFromFile b path =
     (if path = '''' then Inl PEMPathRequired
      else case cb_ReadFile b path of
        None \<Rightarrow> Inl (PEMReadFailed path)
      | Some pem \<Rightarrow> (case cb_ParsePEM b pem of None \<Rightarrow> Inl PEMInvalid | Some k \<Rightarrow> Inr k))"

definition loadCAFromAKV :: "ca_backends \<Rightarrow> CAKeyConfig \<Rightarrow> ca_error + CAKey" where
  "loadCAFromAKV b cfg =
     (if ckc_VaultURL cfg = '''' then Inl VaultURLRequired
      else if ckc_KeyName cfg = '''' then Inl KeyNameRequired
      else case cb_AKV b cfg of None \<Rightarrow> Inl AKVFailed | Some k \<Rightarrow> Inr k)"

definition LoadCA :: "ca_backends \<Rightarrow> CAKeyConfig \<Rightarrow> ca_error + CAKey" where
  "LoadCA b cfg =
     (if ckc_Type cfg = ''pem'' then loadCAFromFile b (ckc_Path cfg)
      else if ckc_Type cfg = ''akv'' then loadCAFromAKV b cfg
      else Inl (UnknownKeyType (ckc_Type cfg)))"

text \<open>The loop over the groups; the order of the map only decides which error is reported.\<close>

fun group_loop :: "ca_backends \<Rightarrow> (string, CAKeyConfig) gomap \<Rightarrow> (string, CAKey) gomap \<Rightarrow> ca_error + (string, CAKey) gomap" where
  "group_loop b [] acc = Inr acc"
| "group_loop b ((grp, kcfg) # rest) acc =
     (if grp = ''_default'' then group_loop b rest acc
      else case LoadCA b kcfg of
        Inl err \<Rightarrow> Inl (GroupCAFailed grp err)
      | Inr s \<Rightarrow> group_loop b rest (put grp s acc))"

definition LoadGroupCAs :: "ca_backends \<Rightarrow> string \<Rightarrow> (string, CAKeyConfig) gomap \<Rightarrow> ca_error + CAKey \<times> (string, CAKey) gomap" where
  "LoadGroupCAs b caKey caKeys =
     (case (case get caKeys ''_default'' of
              Some def \<Rightarrow> Some (LoadCA b def)
            | None \<Rightarrow> if caKey \<noteq> '''' then Some (LoadCA b (zero_ca\<lparr>ckc_Type := ''pem'', ckc_Path := caKey\<rparr>)) else None) of
        None \<Rightarrow> Inl NoDefaultCA
      | Some (Inl err) \<Rightarrow> Inl (DefaultCAFailed err)
      | Some (Inr defaultCA) \<Rightarrow>
          (case group_loop b caKeys [] of Inl err \<Rightarrow> Inl err | Inr groupCAs \<Rightarrow> Inr (defaultCA, groupCAs)))"

lemma group_loop_exact:
  assumes "distinct (map fst ks)" and "group_loop b ks acc = Inr cas"
  shows "get cas g = (if g = ''_default'' then get acc g else
     case get ks g of None \<Rightarrow> get acc g | Some c \<Rightarrow> (case LoadCA b c of Inr k \<Rightarrow> Some k | Inl _ \<Rightarrow> None)) \<and>
     (\<forall>(g, c)\<in>set ks. g \<noteq> ''_default'' \<longrightarrow> (\<exists>k. LoadCA b c = Inr k))"
  using assms
proof (induction ks arbitrary: acc)
  case (Cons gc ks)
  obtain h c where gc: "gc = (h, c)" by fastforce
  show ?case
  proof (cases "h = ''_default''")
    case True
    with Cons gc show ?thesis by auto
  next
    case False
    then obtain k where k: "LoadCA b c = Inr k" "group_loop b ks (put h k acc) = Inr cas"
      using Cons.prems(2) gc by (auto split: sum.splits)
    have "get ks h = None" using Cons.prems(1) gc by (simp add: map_of_eq_None_iff)
    with Cons.IH [OF _ k(2)] Cons.prems(1) gc False k(1) show ?thesis by (auto split: option.splits)
  qed
qed simp

text \<open>
  A successful load has the default key of \<open>ca_keys._default\<close>, or of the legacy file when there is no
  such entry, and for each other entry exactly that entry's key; every key that is configured was
  loaded.
\<close>

theorem LoadGroupCAs_exact:
  assumes "map_ok caKeys" and "LoadGroupCAs b caKey caKeys = Inr (ca, cas)"
  shows "LoadCA b (case get caKeys ''_default'' of Some c \<Rightarrow> c | None \<Rightarrow> zero_ca\<lparr>ckc_Type := ''pem'', ckc_Path := caKey\<rparr>) = Inr ca \<and>
     get cas ''_default'' = None \<and>
     (\<forall>g. g \<noteq> ''_default'' \<longrightarrow> get cas g = Option.bind (get caKeys g) (\<lambda>c. case LoadCA b c of Inr k \<Rightarrow> Some k | Inl _ \<Rightarrow> None)) \<and>
     (\<forall>(g, c)\<in>set caKeys. \<exists>k. LoadCA b c = Inr k)"
proof -
  have d: "LoadCA b (case get caKeys ''_default'' of Some c \<Rightarrow> c | None \<Rightarrow> zero_ca\<lparr>ckc_Type := ''pem'', ckc_Path := caKey\<rparr>) = Inr ca"
    and g: "group_loop b caKeys [] = Inr cas"
    using assms(2) by (auto simp: LoadGroupCAs_def split: option.splits sum.splits if_splits)
  note e = group_loop_exact [OF assms(1) [unfolded map_ok_def] g]
  have "\<exists>k. LoadCA b c = Inr k" if "(h, c) \<in> set caKeys" for h c
  proof (cases "h = ''_default''")
    case True
    then have "get caKeys ''_default'' = Some c" using that assms(1) by (simp add: map_ok_def)
    with d show ?thesis by auto
  next
    case False
    with e that show ?thesis by blast
  qed
  moreover have "get cas ''_default'' = None" using e [of "''_default''"] by simp
  moreover have "get cas h = Option.bind (get caKeys h) (\<lambda>c. case LoadCA b c of Inr k \<Rightarrow> Some k | Inl _ \<Rightarrow> None)" if "h \<noteq> ''_default''" for h
    using e [of h] that by (cases "get caKeys h") auto
  ultimately show ?thesis using d by blast
qed

end
