(* ===== verification/AKV.thy ===== *)
theory AKV
  imports CA_Keys
begin

text \<open>
  The signer backed by Azure Key Vault (\<open>src/internal/ca/akv.go\<close>): the public key it is built from, the
  version it signs with, the algorithm and the conversion of elliptic-curve signatures to DER. The
  vault is the record \<open>akvKeyOps\<close>, which takes the place of the library's client, as in the code.
\<close>

section \<open>Numbers in bytes\<close>

definition be_value :: "string \<Rightarrow> nat" where
  "be_value s = foldl (\<lambda>n c. 256 * n + byte c) 0 s"

fun be_bytes :: "nat \<Rightarrow> string" where
  "be_bytes n = (if n = 0 then [] else be_bytes (n div 256) @ [char_of (n mod 256)])"

declare be_bytes.simps [simp del]

text \<open>DER: lengths, non-negative integers, and a sequence of two of them.\<close>

definition der_length :: "nat \<Rightarrow> string" where
  "der_length n = (if n < 128 then [char_of n] else let bs = be_bytes n in char_of (128 + length bs) # bs)"

definition der_integer :: "nat \<Rightarrow> string" where
  "der_integer n =
     (let bs = be_bytes n; content = (if bs = [] \<or> byte (hd bs) \<ge> 128 then CHR 0x00 # bs else bs)
      in CHR 0x02 # der_length (length content) @ content)"

definition der_pair :: "nat \<Rightarrow> nat \<Rightarrow> string" where
  "der_pair r s = (let body = der_integer r @ der_integer s in CHR 0x30 # der_length (length body) @ body)"

section \<open>Keys\<close>

datatype curve = P256 | P384 | P521

definition BitSize :: "curve \<Rightarrow> nat" where
  "BitSize c = (case c of P256 \<Rightarrow> 256 | P384 \<Rightarrow> 384 | P521 \<Rightarrow> 521)"

datatype public_key = ECKey curve nat nat | RSAKey nat int

datatype hash = SHA256 | SHA384 | SHA512 | OtherHash

record JSONWebKey =
  jk_Kty :: "string option"
  jk_Crv :: "string option"
  jk_X :: string
  jk_Y :: string
  jk_N :: string
  jk_E :: string
  jk_KIDVersion :: "string option"

datatype akv_error = GetKeyFailed | NilKeyType | UnsupportedKeyType string | CurveMissing | UnsupportedCurve string
  | CoordinateMissing | RSAPartMissing | ExponentTooLarge | UnsupportedHash | AKVSignFailed | BadSignatureLength nat nat
  | SecretEmpty string | CredentialFailed | ClientFailed

definition parseAKVECKey :: "JSONWebKey \<Rightarrow> akv_error + public_key" where
  "parseAKVECKey k =
     (case jk_Crv k of
        None \<Rightarrow> Inl CurveMissing
      | Some name \<Rightarrow>
          let with_curve = (\<lambda>c. if length (jk_X k) = 0 \<or> length (jk_Y k) = 0 then Inl CoordinateMissing
                                 else Inr (ECKey c (be_value (jk_X k)) (be_value (jk_Y k))))
          in if name = ''P-256'' then with_curve P256
             else if name = ''P-384'' then with_curve P384
             else if name = ''P-521'' then with_curve P521
             else Inl (UnsupportedCurve name))"

definition parseAKVRSAKey :: "JSONWebKey \<Rightarrow> akv_error + public_key" where
  "parseAKVRSAKey k =
     (if length (jk_N k) = 0 \<or> length (jk_E k) = 0 then Inl RSAPartMissing
      else
        let e = be_value (jk_E k)
        in if \<not> e < 2 ^ 63 \<or> e > 2 ^ 31 - 1 then Inl ExponentTooLarge
           else Inr (RSAKey (be_value (jk_N k)) (int e)))"

definition parseAKVPublicKey :: "JSONWebKey option \<Rightarrow> akv_error + public_key" where
  "parseAKVPublicKey k =
     (case k of
        None \<Rightarrow> Inl NilKeyType
      | Some k \<Rightarrow>
     (case jk_Kty k of
        None \<Rightarrow> Inl NilKeyType
      | Some kty \<Rightarrow>
          if kty = ''EC'' \<or> kty = ''EC-HSM'' then parseAKVECKey k
          else if kty = ''RSA'' \<or> kty = ''RSA-HSM'' then parseAKVRSAKey k
          else Inl (UnsupportedKeyType kty)))"

section \<open>The signer\<close>

text \<open>\<open>ko_GetKey name version\<close> is \<open>None\<close> on an error; the answer may lack the key.\<close>

record akvKeyOps =
  ko_GetKey :: "string \<Rightarrow> string \<Rightarrow> JSONWebKey option option"
  ko_Sign :: "string \<Rightarrow> string \<Rightarrow> string \<Rightarrow> string \<Rightarrow> string option"

record akvSigner =
  ak_ops :: akvKeyOps
  ak_keyName :: string
  ak_keyVersion :: string
  ak_pubKey :: public_key

definition newAKVSignerWithOps :: "akvKeyOps \<Rightarrow> string \<Rightarrow> string \<Rightarrow> akv_error + akvSigner" where
  "newAKVSignerWithOps ops keyName keyVersion =
     (case ko_GetKey ops keyName keyVersion of
        None \<Rightarrow> Inl GetKeyFailed
      | Some key \<Rightarrow>
     (case parseAKVPublicKey key of
        Inl err \<Rightarrow> Inl err
      | Inr pub \<Rightarrow>
          let pinned = (if keyVersion = '''' then (case jk_KIDVersion (the key) of Some v \<Rightarrow> v | None \<Rightarrow> keyVersion) else keyVersion)
          in Inr \<lparr>ak_ops = ops, ak_keyName = keyName, ak_keyVersion = pinned, ak_pubKey = pub\<rparr>))"

text \<open>\<open>secret\<close> and \<open>default\<close> are the constructors of the two kinds of credentials, \<open>client\<close> that of the client.\<close>

definition akvCredential ::
    "(string \<Rightarrow> string) \<Rightarrow> (string \<Rightarrow> string \<Rightarrow> string \<Rightarrow> 'cred option) \<Rightarrow> 'cred option \<Rightarrow> CAKeyConfig \<Rightarrow> akv_error + 'cred" where
  "akvCredential Getenv secret_cred default_cred cfg =
     (if ckc_TenantID cfg \<noteq> '''' \<and> ckc_ClientID cfg \<noteq> '''' \<and> ckc_ClientSecretEnv cfg \<noteq> '''' then
        (let secret = Getenv (ckc_ClientSecretEnv cfg)
         in if secret = '''' then Inl (SecretEmpty (ckc_ClientSecretEnv cfg))
            else case secret_cred (ckc_TenantID cfg) (ckc_ClientID cfg) secret of None \<Rightarrow> Inl CredentialFailed | Some c \<Rightarrow> Inr c)
      else case default_cred of None \<Rightarrow> Inl CredentialFailed | Some c \<Rightarrow> Inr c)"

definition newAKVSigner :: "akv_error + 'cred \<Rightarrow> (string \<Rightarrow> 'cred \<Rightarrow> akvKeyOps option) \<Rightarrow> CAKeyConfig \<Rightarrow> akv_error + akvSigner" where
  "newAKVSigner cred client cfg =
     (case cred of
        Inl err \<Rightarrow> Inl err
      | Inr c \<Rightarrow>
     (case client (ckc_VaultURL cfg) c of
        None \<Rightarrow> Inl ClientFailed
      | Some ops \<Rightarrow> newAKVSignerWithOps ops (ckc_KeyName cfg) (ckc_KeyVersion cfg)))"

definition akvAlgorithm :: "public_key \<Rightarrow> hash \<Rightarrow> akv_error + string" where
  "akvAlgorithm pub h =
     (case pub of
        ECKey _ _ _ \<Rightarrow> (case h of SHA256 \<Rightarrow> Inr ''ES256'' | SHA384 \<Rightarrow> Inr ''ES384'' | SHA512 \<Rightarrow> Inr ''ES512'' | OtherHash \<Rightarrow> Inl UnsupportedHash)
      | RSAKey _ _ \<Rightarrow> (case h of SHA256 \<Rightarrow> Inr ''RS256'' | SHA384 \<Rightarrow> Inr ''RS384'' | SHA512 \<Rightarrow> Inr ''RS512'' | OtherHash \<Rightarrow> Inl UnsupportedHash))"

definition rawECSignatureToDER :: "string \<Rightarrow> nat \<Rightarrow> akv_error + string" where
  "rawECSignatureToDER raw coordBytes =
     (if length raw \<noteq> 2 * coordBytes then Inl (BadSignatureLength (2 * coordBytes) (length raw))
      else Inr (der_pair (be_value (take coordBytes raw)) (be_value (drop coordBytes raw))))"

definition akv_Sign :: "akvSigner \<Rightarrow> string \<Rightarrow> hash \<Rightarrow> akv_error + string" where
  "akv_Sign a digest h =
     (case akvAlgorithm (ak_pubKey a) h of
        Inl err \<Rightarrow> Inl err
      | Inr alg \<Rightarrow>
     (case ko_Sign (ak_ops a) (ak_keyName a) (ak_keyVersion a) alg digest of
        None \<Rightarrow> Inl AKVSignFailed
      | Some result \<Rightarrow>
     (case ak_pubKey a of
        ECKey c _ _ \<Rightarrow> rawECSignatureToDER result ((BitSize c + 7) div 8)
      | RSAKey _ _ \<Rightarrow> Inr result)))"

section \<open>Reading DER back\<close>

definition der_read_length :: "string \<Rightarrow> (nat \<times> string) option" where
  "der_read_length t =
     (case t of
        [] \<Rightarrow> None
      | c # r \<Rightarrow>
          if byte c < 128 then Some (byte c, r)
          else let k = byte c - 128 in if length r < k then None else Some (be_value (take k r), drop k r))"

definition der_read_integer :: "string \<Rightarrow> (nat \<times> string) option" where
  "der_read_integer t =
     (case t of
        [] \<Rightarrow> None
      | c # r \<Rightarrow>
          if c \<noteq> CHR 0x02 then None
          else Option.bind (der_read_length r) (\<lambda>(n, r).
            if n = 0 \<or> length r < n \<or> byte (hd r) \<ge> 128 then None else Some (be_value (take n r), drop n r)))"

definition der_read_pair :: "string \<Rightarrow> (nat \<times> nat) option" where
  "der_read_pair t =
     (case t of
        [] \<Rightarrow> None
      | c # r \<Rightarrow>
          if c \<noteq> CHR 0x30 then None
          else Option.bind (der_read_length r) (\<lambda>(n, r).
            if length r \<noteq> n then None
            else Option.bind (der_read_integer r) (\<lambda>(a, r).
                 Option.bind (der_read_integer r) (\<lambda>(b, r). if r = [] then Some (a, b) else None))))"

lemma be_value_snoc [simp]: "be_value (s @ [c]) = 256 * be_value s + byte c"
  by (simp add: be_value_def)

lemma be_value_Nil [simp]: "be_value [] = 0"
  by (simp add: be_value_def)

lemma be_value_zero: "be_value (CHR 0x00 # s) = be_value s"
  by (simp add: be_value_def byte_def)

lemma byte_char_of_mod: "byte (char_of n) = n mod 256"
  by (simp add: byte_def)

lemma be_value_bytes [simp]: "be_value (be_bytes n) = n"
proof (induction n rule: be_bytes.induct)
  case (1 n)
  show ?case
  proof (cases "n = 0")
    case True
    then show ?thesis by (simp add: be_bytes.simps [of 0])
  next
    case False
    with 1 show ?thesis by (simp add: be_bytes.simps [of n] byte_char_of_mod)
  qed
qed

lemma be_bytes_Nil [simp]: "be_bytes n = [] \<longleftrightarrow> n = 0"
  by (simp add: be_bytes.simps [of n])

lemma length_be_bytes: "n < 256 ^ k \<Longrightarrow> length (be_bytes n) \<le> k"
proof (induction k arbitrary: n)
  case (Suc k)
  then have "n div 256 < 256 ^ k" by (simp add: less_mult_imp_div_less mult.commute)
  with Suc.IH [of "n div 256"] show ?case by (cases "n = 0") (simp_all add: be_bytes.simps [of n])
qed simp

lemma be_value_bound: "be_value s < 256 ^ length s"
proof (induction s rule: rev_induct)
  case (snoc c s)
  have "byte c < 256" unfolding byte_def by (rule nat_of_char_less_256)
  with snoc show ?case by (simp add: power_add)
qed simp

lemma read_length:
  assumes "n < 256 ^ 2"
  shows "der_read_length (der_length n @ r) = Some (n, r)"
proof (cases "n < 128")
  case True
  then show ?thesis by (simp add: der_length_def der_read_length_def byte_char_of)
next
  case False
  have "length (be_bytes n) \<le> 2" by (rule length_be_bytes [OF assms])
  with False show ?thesis by (simp add: der_length_def der_read_length_def Let_def byte_char_of)
qed

lemma der_integer_content:
  "\<exists>content. der_integer n = CHR 0x02 # der_length (length content) @ content \<and> content \<noteq> [] \<and> byte (hd content) < 128 \<and>
     be_value content = n \<and> length content \<le> Suc (length (be_bytes n))"
proof -
  define content where "content = (if be_bytes n = [] \<or> byte (hd (be_bytes n)) \<ge> 128 then CHR 0x00 # be_bytes n else be_bytes n)"
  have "content \<noteq> []" "byte (hd content) < 128" "be_value content = n" "length content \<le> Suc (length (be_bytes n))"
    by (auto simp: content_def byte_def be_value_zero)
  moreover have "der_integer n = CHR 0x02 # der_length (length content) @ content"
    by (simp add: der_integer_def content_def Let_def)
  ultimately show ?thesis by blast
qed

lemma read_integer:
  assumes "length (be_bytes n) \<le> 66"
  shows "der_read_integer (der_integer n @ r) = Some (n, r)" and "length (der_integer n) \<le> 69"
proof -
  obtain content where d: "der_integer n = CHR 0x02 # der_length (length content) @ content" "content \<noteq> []" "byte (hd content) < 128"
    "be_value content = n" "length content \<le> Suc (length (be_bytes n))" using der_integer_content by blast
  have l: "length content < 128" using d(5) assms by simp
  then have "length content < 256 ^ 2" by simp
  from read_length [OF this, of "content @ r"] d show "der_read_integer (der_integer n @ r) = Some (n, r)"
    by (simp add: der_read_integer_def not_le)
  show "length (der_integer n) \<le> 69" using d(1,5) assms l by (simp add: der_length_def)
qed

text \<open>
  C39: the conversion of a vault's elliptic-curve signature keeps the signature: for every curve, the DER
  text of a raw signature of the expected length reads back as the two numbers of its halves, and any
  other length is an error.
\<close>

theorem akv_signature_roundtrip:
  "let k = (BitSize c + 7) div 8 in
   case rawECSignatureToDER raw k of
     Inl err \<Rightarrow> length raw \<noteq> 2 * k
   | Inr der \<Rightarrow> length raw = 2 * k \<and> der_read_pair der = Some (be_value (take k raw), be_value (drop k raw))"
proof -
  define k where "k = (BitSize c + 7) div 8"
  have k: "k \<le> 66" by (cases c) (simp_all add: k_def BitSize_def)
  show ?thesis
  proof (cases "length raw = 2 * k")
    case False
    then show ?thesis by (simp add: rawECSignatureToDER_def k_def [symmetric] Let_def)
  next
    case True
    let ?r = "be_value (take k raw)" and ?s = "be_value (drop k raw)"
    have "?r < 256 ^ k" "?s < 256 ^ k" using be_value_bound [of "take k raw"] be_value_bound [of "drop k raw"] True by simp_all
    then have l: "length (be_bytes ?r) \<le> 66" "length (be_bytes ?s) \<le> 66" using length_be_bytes k by (meson order.trans)+
    have "length (der_integer ?r @ der_integer ?s) < 256 ^ 2" using read_integer(2) [OF l(1)] read_integer(2) [OF l(2)] by simp
    from read_length [OF this, of "der_integer ?r @ der_integer ?s"] read_integer(1) [OF l(1), of "der_integer ?s"] read_integer(1) [OF l(2), of "[]"]
    have "der_read_pair (der_pair ?r ?s) = Some (?r, ?s)" by (simp add: der_pair_def der_read_pair_def Let_def)
    with True show ?thesis by (simp add: rawECSignatureToDER_def k_def [symmetric] Let_def)
  qed
qed

text \<open>
  The version is pinned: a signer built without a version signs with the one its public key was
  fetched from, whenever the vault names it.
\<close>

theorem akv_version_pinned:
  assumes "newAKVSignerWithOps ops name '''' = Inr a" and "ko_GetKey ops name '''' = Some (Some key)" and "jk_KIDVersion key = Some v"
  shows "ak_keyVersion a = v \<and> parseAKVPublicKey (Some key) = Inr (ak_pubKey a) \<and>
     (\<forall>alg digest h. akvAlgorithm (ak_pubKey a) h = Inr alg \<longrightarrow>
        (akv_Sign a digest h = Inl AKVSignFailed) = (ko_Sign ops name v alg digest = None))"
  using assms
  by (auto simp: newAKVSignerWithOps_def akv_Sign_def rawECSignatureToDER_def Let_def split: sum.splits option.splits public_key.splits)

text \<open>The curve has no part in the choice of the algorithm: a P-256 key signs with \<open>ES384\<close> when asked for SHA-384.\<close>

theorem akv_algorithm_ignores_curve: "akvAlgorithm (ECKey P256 x y) SHA384 = Inr ''ES384''"
  by (simp add: akvAlgorithm_def)

end
