(* ===== verification/Atomic_Write.thy ===== *)
theory Atomic_Write
  imports GoPrelude
begin

text \<open>
  How the configuration file is replaced: \<open>atomicWrite\<close> of \<open>src/cmd/signer/policy.go\<close> and
  \<open>writeRaw\<close> of \<open>src/cmd/broker-ctl/main.go\<close>, both by a temporary file and a rename. The file
  system has names for numbered files; a writer holds the file it opened, whatever its name
  becomes. The system may cut a write into chunks, and a writer may stop after any of its calls,
  by an error or because the process dies.
\<close>

section \<open>Files\<close>

record fsys =
  fy_names :: "(string, nat) gomap"
  fy_files :: "(nat, string \<times> nat) gomap"
  fy_next :: nat

datatype fs_call = OpenTrunc string nat | WriteChunk string | RenameFile string string

definition content :: "fsys \<Rightarrow> string \<Rightarrow> string option" where
  "content fs f = (case get (fy_names fs) f of None \<Rightarrow> None | Some i \<Rightarrow> map_option fst (get (fy_files fs) i))"

definition perm :: "fsys \<Rightarrow> string \<Rightarrow> nat option" where
  "perm fs f = (case get (fy_names fs) f of None \<Rightarrow> None | Some i \<Rightarrow> map_option snd (get (fy_files fs) i))"

text \<open>
  One call of a writer that holds the file \<open>fd\<close>. A file that exists keeps its permissions when it
  is opened; \<open>umask\<close> is applied to a new one.
\<close>

fun fs_step :: "(nat \<Rightarrow> nat) \<Rightarrow> fs_call \<Rightarrow> fsys \<times> nat option \<Rightarrow> fsys \<times> nat option" where
  "fs_step umask (OpenTrunc f m) (fs, fd) =
     (case get (fy_names fs) f of
        Some i \<Rightarrow> (fs\<lparr>fy_files := put i ('''', case get (fy_files fs) i of Some (_, p) \<Rightarrow> p | None \<Rightarrow> umask m) (fy_files fs)\<rparr>, Some i)
      | None \<Rightarrow>
          (fs\<lparr>fy_names := put f (fy_next fs) (fy_names fs), fy_files := put (fy_next fs) ('''', umask m) (fy_files fs),
              fy_next := fy_next fs + 1\<rparr>, Some (fy_next fs)))"
| "fs_step umask (WriteChunk b) (fs, fd) =
     (case fd of
        None \<Rightarrow> (fs, fd)
      | Some i \<Rightarrow>
          (case get (fy_files fs) i of
             None \<Rightarrow> (fs, fd)
           | Some (c, p) \<Rightarrow> (fs\<lparr>fy_files := put i (c @ b, p) (fy_files fs)\<rparr>, fd)))"
| "fs_step umask (RenameFile a b) (fs, fd) =
     (case get (fy_names fs) a of
        None \<Rightarrow> (fs, fd)
      | Some i \<Rightarrow> (fs\<lparr>fy_names := put b i (del a (fy_names fs))\<rparr>, fd))"

definition fs_run :: "(nat \<Rightarrow> nat) \<Rightarrow> fs_call list \<Rightarrow> fsys \<Rightarrow> fsys" where
  "fs_run umask calls fs = fst (fold (fs_step umask) calls (fs, None))"

section \<open>The two writers\<close>

definition temp_name :: "string \<Rightarrow> string" where
  "temp_name path = path @ ''.tmp''"

definition replace_calls :: "string \<Rightarrow> nat \<Rightarrow> string list \<Rightarrow> fs_call list" where
  "replace_calls path mode chunks =
     OpenTrunc (temp_name path) mode # map WriteChunk chunks @ [RenameFile (temp_name path) path]"

text \<open>\<open>0o600\<close> and \<open>0640\<close>\<close>

definition atomicWrite :: "fsys \<Rightarrow> string \<Rightarrow> string list \<Rightarrow> fs_call list" where
  "atomicWrite fs path chunks = replace_calls path (case perm fs path of Some m \<Rightarrow> m | None \<Rightarrow> 384) chunks"

definition writeRaw_calls :: "string \<Rightarrow> string list \<Rightarrow> fs_call list" where
  "writeRaw_calls path chunks = replace_calls path 416 chunks"

section \<open>Lemmas\<close>

definition fs_ok :: "fsys \<Rightarrow> bool" where
  "fs_ok fs \<longleftrightarrow> (\<forall>f i. get (fy_names fs) f = Some i \<longrightarrow> i < fy_next fs \<and> get (fy_files fs) i \<noteq> None) \<and>
     (\<forall>f g i. get (fy_names fs) f = Some i \<and> get (fy_names fs) g = Some i \<longrightarrow> f = g)"

lemma temp_name_neq [simp]: "temp_name p \<noteq> p" "p \<noteq> temp_name p"
  by (simp_all add: temp_name_def)

text \<open>What holds while a writer fills its temporary file: nothing else has changed.\<close>

definition filling :: "fsys \<Rightarrow> string \<Rightarrow> string \<Rightarrow> nat \<Rightarrow> fsys \<times> nat option \<Rightarrow> bool" where
  "filling fs0 tmp written p st \<longleftrightarrow> (\<exists>i. snd st = Some i \<and> get (fy_names (fst st)) tmp = Some i \<and>
     get (fy_files (fst st)) i = Some (written, p) \<and> fs_ok (fst st) \<and>
     (\<forall>f. f \<noteq> tmp \<longrightarrow> content (fst st) f = content fs0 f \<and> perm (fst st) f = perm fs0 f))"

lemma filling_open:
  assumes "fs_ok fs"
  shows "\<exists>p. filling fs f '''' p (fs_step umask (OpenTrunc f m) (fs, fd)) \<and> (perm fs f = None \<longrightarrow> p = umask m)"
proof (cases "get (fy_names fs) f")
  case None
  with assms show ?thesis
    by (auto simp: filling_def fs_ok_def content_def perm_def less_Suc_eq split: option.splits if_splits)
next
  case (Some i)
  with assms show ?thesis
    by (auto simp: filling_def fs_ok_def content_def perm_def split: option.splits if_splits)
qed

lemma filling_write:
  assumes "filling fs0 tmp written p st"
  shows "filling fs0 tmp (written @ b) p (fs_step umask (WriteChunk b) st)"
proof -
  obtain fs i where st: "st = (fs, Some i)" and i: "get (fy_names fs) tmp = Some i" "get (fy_files fs) i = Some (written, p)"
    and ok: "fs_ok fs" and rest: "\<And>f. f \<noteq> tmp \<Longrightarrow> content fs f = content fs0 f \<and> perm fs f = perm fs0 f"
    using assms by (cases st) (auto simp: filling_def)
  let ?fs = "fs\<lparr>fy_files := put i (written @ b, p) (fy_files fs)\<rparr>"
  have "get (fy_names fs) f \<noteq> Some i" if "f \<noteq> tmp" for f using ok i(1) that by (auto simp: fs_ok_def)
  then have same: "content ?fs f = content fs f" "perm ?fs f = perm fs f" if "f \<noteq> tmp" for f
    using that by (auto simp: content_def perm_def split: option.split)
  have "fs_ok ?fs" using ok by (auto simp: fs_ok_def)
  with i same rest show ?thesis by (simp add: st filling_def)
qed

lemma filling_chunks:
  "filling fs0 tmp written p st \<Longrightarrow>
     filling fs0 tmp (written @ concat chunks) p (fold (fs_step umask) (map WriteChunk chunks) st)"
proof (induction chunks arbitrary: written st)
  case (Cons b chunks)
  from Cons.IH [OF filling_write [OF Cons.prems]] show ?case by simp
qed simp

lemma filling_rename:
  assumes "filling fs0 tmp written p st" and "tmp \<noteq> path"
  shows "content (fst (fs_step umask (RenameFile tmp path) st)) f =
      (if f = path then Some written else if f = tmp then None else content fs0 f)"
    and "perm (fst (fs_step umask (RenameFile tmp path) st)) path = Some p"
proof -
  obtain fs i where st: "st = (fs, Some i)" and i: "get (fy_names fs) tmp = Some i" "get (fy_files fs) i = Some (written, p)"
    and rest: "\<And>f. f \<noteq> tmp \<Longrightarrow> content fs f = content fs0 f"
    using assms(1) by (cases st) (auto simp: filling_def)
  let ?fs = "fs\<lparr>fy_names := put path i (del tmp (fy_names fs))\<rparr>"
  have step: "fst (fs_step umask (RenameFile tmp path) st) = ?fs" using i(1) by (simp add: st)
  have "content ?fs f = content fs f" if "f \<noteq> path" "f \<noteq> tmp" using that by (simp add: content_def split: option.split)
  moreover have "content ?fs path = Some written" "content ?fs tmp = None" using i(2) assms(2) by (simp_all add: content_def)
  ultimately show "content (fst (fs_step umask (RenameFile tmp path) st)) f =
      (if f = path then Some written else if f = tmp then None else content fs0 f)"
    unfolding step using rest by auto
  show "perm (fst (fs_step umask (RenameFile tmp path) st)) path = Some p"
    unfolding step using i(2) by (simp add: perm_def)
qed

text \<open>A prefix of the calls is the open call and some of the chunks, unless it is all of them.\<close>

lemma replace_prefix:
  assumes "n < length (replace_calls path mode chunks)"
  obtains "n = 0" | k where "n = Suc k"
    "take n (replace_calls path mode chunks) = OpenTrunc (temp_name path) mode # map WriteChunk (take k chunks)"
  using assms by (cases n) (auto simp: replace_calls_def take_map)

text \<open>
  The replacement is atomic for a single writer: whatever the number of calls it completed, every
  file other than its temporary file reads as before, except that after the last call the
  configuration holds exactly the new text. A failure at any point leaves the old configuration.
\<close>

theorem config_write_atomic:
  assumes "fs_ok fs" and "f \<noteq> temp_name path"
  shows "content (fs_run umask (take n (atomicWrite fs path chunks)) fs) f =
     (if f = path \<and> n \<ge> length (atomicWrite fs path chunks) then Some (concat chunks) else content fs f)"
proof -
  define mode where "mode = (case perm fs path of Some m \<Rightarrow> m | None \<Rightarrow> 384)"
  let ?calls = "replace_calls path mode chunks" and ?tmp = "temp_name path"
  have calls: "atomicWrite fs path chunks = ?calls" by (simp add: atomicWrite_def mode_def)
  obtain p where p: "filling fs ?tmp '''' p (fs_step umask (OpenTrunc ?tmp mode) (fs, None))"
    using filling_open [OF assms(1)] by blast
  note fill = filling_chunks [OF this, of _ umask]
  show ?thesis
  proof (cases "n < length ?calls")
    case True
    then show ?thesis
    proof (cases rule: replace_prefix)
      case 1
      then show ?thesis using True by (simp add: calls fs_run_def)
    next
      case (2 k)
      with fill [of "take k chunks"] True assms(2) show ?thesis
        by (auto simp: calls fs_run_def filling_def)
    qed
  next
    case False
    then have "take n ?calls = ?calls" by simp
    with filling_rename(1) [OF fill [of chunks]] False assms(2) show ?thesis
      by (simp add: calls fs_run_def replace_calls_def)
  qed
qed

text \<open>
  The permissions of the old file are kept when no temporary file was left behind and the mask
  lets them through.
\<close>

lemma atomicWrite_perm:
  assumes "fs_ok fs" and "perm fs path = Some m" and "perm fs (temp_name path) = None" and "umask m = m"
  shows "perm (fs_run umask (atomicWrite fs path chunks) fs) path = Some m"
proof -
  obtain p where p: "filling fs (temp_name path) '''' p (fs_step umask (OpenTrunc (temp_name path) m) (fs, None))" "p = m"
    using filling_open [OF assms(1), of "temp_name path" umask m None] assms(3,4) by auto
  from filling_rename(2) [OF filling_chunks [OF p(1), of chunks umask], of path umask] p(2) assms(2) show ?thesis
    by (simp add: atomicWrite_def fs_run_def replace_calls_def)
qed

section \<open>Two writers\<close>

text \<open>
  The signer and \<open>broker-ctl\<close> are two processes that use the same temporary name. A schedule says
  whose call is next; each writer holds its own file.
\<close>

fun fs_race :: "(nat \<Rightarrow> nat) \<Rightarrow> bool list \<Rightarrow> fs_call list \<Rightarrow> fs_call list \<Rightarrow> fsys \<Rightarrow> nat option \<Rightarrow> nat option \<Rightarrow> fsys" where
  "fs_race umask (True # sch) (a # as) bs fs fda fdb =
     (case fs_step umask a (fs, fda) of (fs, fda) \<Rightarrow> fs_race umask sch as bs fs fda fdb)"
| "fs_race umask (False # sch) as (b # bs) fs fda fdb =
     (case fs_step umask b (fs, fdb) of (fs, fdb) \<Rightarrow> fs_race umask sch as bs fs fda fdb)"
| "fs_race umask _ as bs fs fda fdb = fs"

definition sample_fs :: fsys where
  "sample_fs = \<lparr>fy_names = [(''signer.json'', 0)], fy_files = [(0, (''old'', 384))], fy_next = 1\<rparr>"

text \<open>
  With both at work the replacement is not atomic: the signer can put a file in place that holds
  the half-written text of the other process, and no text of its own.
\<close>

lemma shared_temporary_file:
  "content (fs_race (\<lambda>m. m) [True, True, False, False, True] (atomicWrite sample_fs ''signer.json'' [''AAAA''])
      (writeRaw_calls ''signer.json'' [''BB'', ''BB'']) sample_fs None None) ''signer.json'' = Some ''BB''"
  by code_simp

theorem config_write_atomic_witness:
  "content (fs_run (\<lambda>m. m) (take 2 (atomicWrite sample_fs ''signer.json'' [''ne'', ''w''])) sample_fs) ''signer.json'' = Some ''old'' \<and>
   content (fs_run (\<lambda>m. m) (take 4 (atomicWrite sample_fs ''signer.json'' [''ne'', ''w''])) sample_fs) ''signer.json'' = Some ''new''"
proof -
  have ok: "fs_ok sample_fs" by (auto simp: fs_ok_def sample_fs_def)
  have len: "length (atomicWrite sample_fs ''signer.json'' [''ne'', ''w'']) = 4"
    by (simp add: atomicWrite_def replace_calls_def)
  show ?thesis
    using config_write_atomic [OF ok, where f = "''signer.json''" and path = "''signer.json''" and umask = "\<lambda>m. m" and chunks = "[''ne'', ''w'']" and n = 2]
      config_write_atomic [OF ok, where f = "''signer.json''" and path = "''signer.json''" and umask = "\<lambda>m. m" and chunks = "[''ne'', ''w'']" and n = 4]
    unfolding len by (simp add: content_def sample_fs_def temp_name_def)
qed

end
