(* ===== verification/Spec2Isabelle.thy ===== *)
theory Spec2Isabelle
  imports Shell_Open Front_Service Signer_Service Control_Service Ctl_Main Docgen AKV Atomic_Write
begin

text \<open>
  \<^bold>\<open>Verification of ssh-broker\<close>

  The program lets automated agents run commands on hosts over SSH without holding a key. A
  broker takes a request, asks a signing service for a certificate that is valid for minutes and
  bound to the request, connects through the configured bastions and runs the command; an
  optional control plane stands between the two, holds back what looks anomalous or needs
  consent, and lets people approve it. Every decision is written to a signed, hash-chained log.
  \<open>broker-ctl\<close> is the operator's tool for configuration, grants, approvals and the log.

  \<^bold>\<open>The parts and their theories.\<close>

  \<^item> \<^emph>\<open>Language and library.\<close> \<open>GoPrelude\<close> (integers of 64 bits with wrap-around, times, maps as
    association lists, the collection \<open>inv_intros\<close>), \<open>GoStrings\<close>, \<open>GoBase64\<close>, \<open>GoJson\<close> and \<open>Json_Text\<close>
    (values, struct decoding, and the contract of the text printer and parser), \<open>GoMux\<close> (the
    routing of \<open>net/http\<close>). \<open>GoJson\<close> also has \<open>internal/confcheck\<close>.
  \<^item> \<^emph>\<open>Command firewall\<close>, \<open>internal/signer/cmdpolicy.go\<close> and \<open>policyset.go\<close>: \<open>Cmdpolicy\<close>. The shell
    decomposition (\<open>extractCommands\<close>) is characterised exactly; it refuses the dangerous nodes, hands
    every call on for evaluation and accepts plain lines. \<open>Decide\<close> is shown to implement the
    documented composition of policies.
  \<^item> \<^emph>\<open>Signing\<close>, \<open>internal/signer/signer.go\<close>, \<open>grants.go\<close>, \<open>ratelimit.go\<close> and \<open>internal/ca/sign.go\<close>: \<open>Intent\<close>
    (data), \<open>Grants\<close> (the store of grants and waivers, and the interface \<open>grant_provider\<close>), \<open>Resolve\<close>
    (an intent to constraints), \<open>Local_Signer\<close> (certificates and \<open>SignIntent\<close>), \<open>RateLimit\<close>. What a
    certificate allows, that the firewall and the approval gate cannot be passed by, the bounds of
    its lifetime and the bound of the token bucket, evictions included, are proved of every call.
  \<^item> \<^emph>\<open>CA keys\<close>, \<open>internal/ca/loader.go\<close> and \<open>akv.go\<close>: \<open>CA_Keys\<close>, \<open>AKV\<close> (signature conversion as a round trip).
  \<^item> \<^emph>\<open>Signing protocol\<close>, \<open>internal/signer/remote.go\<close>: \<open>Wire\<close>; the wait for an approval ends.
  \<^item> \<^emph>\<open>Signing service\<close>, \<open>cmd/signer\<close> and \<open>internal/auth/mtls.go\<close>: \<open>Signer_Server\<close> has the handlers,
    \<open>Signer_Service\<close> the process: start, routes, SIGHUP, the watcher of the file, the purge. Its states
    are those \<open>signer_reach\<close> generates; the invariant \<open>server_wf\<close> holds in all of them, and requests
    of peers outside \<open>reload_callers\<close> leave the configuration alone. \<open>Atomic_Write\<close> shows what a
    crash can leave of the configuration file.
  \<^item> \<^emph>\<open>Control plane\<close>, \<open>cmd/control-plane\<close> and \<open>internal/control\<close>: \<open>Approval\<close> (the registry and the
    workflow as a state machine), \<open>Behavior\<close> (guardrails), \<open>Control_Plane\<close> (handlers), \<open>Control_Flow\<close>
    (their critical sections interleaved; a refinement of the workflow), \<open>Notify\<close> (notifications and the
    web page's handlers), \<open>Control_Service\<close> (start, routes, separation of the roles).
  \<^item> \<^emph>\<open>Audit log\<close>, \<open>internal/audit/log.go\<close> with the verifier of \<open>broker-ctl\<close>: \<open>Audit_Log\<close>. The chain
    verifies after every history of appends, failures, rotations and restarts within the limits that
    \<open>log_reach\<close> states (writes that fail leave no byte, entries are valid UTF-8 with lines under 256
    KiB, rotations fall in different seconds, no restart between a rotation and the next write), and
    a directory that verifies is determined by its last hash, up to a hash collision.
  \<^item> \<^emph>\<open>Redaction and recording\<close>, \<open>internal/redact\<close>, \<open>internal/recording\<close>: \<open>Redaction\<close>. Every
    secret is masked as long as no match merely begins like a marker.
  \<^item> \<^emph>\<open>Broker\<close>, \<open>internal/broker\<close>: \<open>Broker_Engine\<close> (state and operations), \<open>Broker_Route\<close> (chains of
    bastions), \<open>Broker_Execute\<close> (the interface \<open>intent_signer\<close> and one-shot execution over it),
    \<open>Broker_Files\<close> (audit trail and file transfer), \<open>Sessions\<close>, \<open>Session_Flow\<close> (interleavings of requests,
    reaper and shutdown), \<open>Session_Auth\<close>, \<open>Engine_Life\<close> (start, background refresh, closing, and what
    a failed start leaves behind).
  \<^item> \<^emph>\<open>SSH client\<close>, \<open>internal/ssh\<close>: \<open>Ssh_Run\<close> (bounded capture and the marker protocol), \<open>Ssh_Dial\<close>
    (the chain of connections), \<open>Shell_Open\<close> (opening, recording and closing a shell).
  \<^item> \<^emph>\<open>Frontends\<close>, \<open>cmd/broker\<close>, \<open>cmd/mcp-broker\<close>, \<open>cmd/mcp-broker-http\<close>, \<open>internal/mcpserver\<close> and
    \<open>internal/oauth\<close>: \<open>Frontends\<close> (token verification, the tools, the run endpoint), \<open>Front_Service\<close>
    (processes, the guarded MCP endpoint, the registered tools). \<open>Monitor\<close> is \<open>internal/monitor\<close>.
  \<^item> \<^emph>\<open>What every service shares\<close>, \<open>internal/httpserve\<close>, \<open>internal/version\<close>, TLS configurations:
    \<open>Service_Start\<close>.
  \<^item> \<^emph>\<open>Operator's tool\<close>, \<open>cmd/broker-ctl\<close> and \<open>internal/policyrec\<close>: \<open>Ctl_Main\<close> (command line), \<open>Ctl_Config\<close> and
    \<open>Ctl_Edit\<close> (edits of the configuration, once for every section in the locale \<open>config_section\<close>),
    \<open>Ctl_Client\<close>, \<open>Ctl_Requests\<close> (requests to the services, up to the effect in the signer's
    state), \<open>Ctl_Audit\<close>, \<open>Policy_Tools\<close> (\<open>explain\<close> and the recommendations).
  \<^item> \<^emph>\<open>Documentation tool\<close>, \<open>tools/docgen\<close>: \<open>Docgen\<close>; its pages do not depend on the iteration order
    of maps.

  \<^bold>\<open>How the code is represented.\<close> A struct is a record with a prefix before the Go field names, an
  error is the left side of a sum or \<open>None\<close>, a handler maps a request and the state to a response and
  the new state. A method that runs under a mutex is one step; where a handler releases its lock
  (an approval, a session) its critical sections are separate definitions and the state machines
  interleave them. Counters, serial numbers and durations keep their 64 bits, so products such as
  seconds times nanoseconds wrap around as in Go; token counts of the rate limiter are rationals
  instead of \<open>float64\<close>. Audit entries and notifications are kept in the state in the order in
  which they are handed on.

  \<^bold>\<open>Bounds and termination.\<close> No definition takes fuel. Loops over data are structural or have a measure;
  the loops that wait (a shell command, the watch of a log, the poll of an approval) take the list of
  the events they see, the poll with its deadline, and \<open>None\<close> stands for a list that ended before
  the loop. The numbers 10 MiB, 900 s and the limits of sessions and approvals are those of the
  code.

  \<^bold>\<open>Arguments for code that is not here.\<close> Regular expressions, the shell parser, SSH, hashes and
  signatures, the text form of JSON, the OIDC library, the MCP library with its middleware, the key
  vault, the Go parser, HTTP transport, clocks, random bytes and the file system are arguments of
  the definitions. What a theorem needs of them is a named hypothesis, with a witness where a
  concrete instance meets it.

  \<^bold>\<open>Not modelled.\<close> The usage texts and the flag declarations of the single subcommands (a
  subcommand takes the record of its flags), the HTML templates of the approval page, the texts of
  the tools' descriptions, tabular output beyond its cells, listeners with their time-outs, two
  accessors of the shell's buffer that only tests call, and the laboratory client
  \<open>lab/mcpclient\<close>: they hold no state and decide nothing.
\<close>

section \<open>The client's network is the service\<close>

text \<open>
  The network that the policy commands of \<open>broker-ctl\<close> are proved against is the signing service
  itself: for the routes of grants and allow rules, what it answers and the state it leaves are
  those of the service's multiplexer on the decoded request.
\<close>

lemma signer_net_is_service:
  assumes "signer_mux (hq_method req) (hq_path req) = Routed (Handler h ps)"
    and "h \<in> {GrantCreateRoute, GrantRevokeRoute, PolicyAllowRoute}"
    and "hr_method rq = hq_method req" and "hr_path rq = map unescaped (drop 1 (Split1 (CHR ''/'') (hq_path req)))"
    and "hr_grant rq = Option.bind (hq_body req) decode_grantReq"
    and "hr_allow rq = Option.bind (hq_body req) (\<lambda>j. decode_struct False pattern_fields j '''')"
  shows "\<exists>r s'. signer_serve cx rq s = (Reply r, s') \<and>
     signer_net (sx_re cx) (sx_cas cx) (sx_grant_text cx) (sx_state_text cx) body (sx_write_ok cx) (sx_newID cx)
       (env_now (sx_env cx)) (hr_peer rq) req s = (Some (rs_status r, body r), s')"
proof -
  have serve: "serve_mux signer_patterns (hr_method rq) (hr_path rq) = Handler h ps"
    using assms(1,3,4) by (simp add: signer_mux_def Let_def split: if_splits)
  then have "signer_serve cx rq s = signer_handle cx rq h ps s" by (simp add: signer_serve_def)
  with assms(1,2,3,5,6) show ?thesis
    by (auto simp: signer_handle_def signer_net_def Let_def split: prod.splits)
qed

end
